(* ===== verification/Prelude.thy ===== *)
theory Prelude
  imports Complex_Main "HOL-Library.Word"
begin

text \<open>
  The prelude of the GuestFlow development: the types shared by every component, the errors,
  the world a Go function runs in and the combinators that sequence its calls.

  A Go function with signature \<open>func (s *Service) F(ctx, args) (*T, error)\<close> is a function from
  its arguments to \<open>('d, 'a) go\<close>: it takes the world, and returns the error or the value together
  with the world it leaves. The world holds the database (\<open>store\<close>, of the type \<open>'d\<close> that
  theory Store fixes) and the streams of everything the program does not decide itself: which
  database statement fails for a reason outside the model (\<open>faults\<close>: a lost connection, a
  \<open>VARCHAR\<close> or \<open>INET\<close> value the server rejects), what the clock shows, which UUIDs and random
  bytes are drawn. Every such effect reads its stream at position \<open>pos\<close> and moves it on by one,
  so a theorem that holds for every world holds for every schedule of faults and clock readings.

  Errors are the sentinel that \<open>errors.Is\<close> finds in the wrapped chain; the texts that
  \<open>fmt.Errorf\<close> puts around it are dropped. Go's \<open>int\<close> is a mathematical integer whose sums wrap
  at 64 bits where the program adds (\<open>i64\<close>); the \<open>INTEGER\<close> columns accept 32 bits (\<open>int4\<close>).
  Strings are lists of bytes, as \<open>len\<close> and slicing see them.
\<close>

named_theorems go_run \<open>what the run of a combinator or a statement yields\<close>
named_theorems stays_intro \<open>rules that bound the change of the store made by a program\<close>

section \<open>Shared types\<close>

type_synonym uuid = "128 word"
type_synonym time = int
type_synonym byte = "8 word"
type_synonym float64 = rat
type_synonym server = "time \<times> uuid"

abbreviation uuid_Nil :: uuid where
  "uuid_Nil \<equiv> 0"

datatype err =
    ErrNotFound | ErrAlreadyExists | ErrUnauthorized | ErrForbidden | ErrInvalidInput
  | ErrTenantNotFound | ErrUserNotFound | ErrDuplicateSlug | ErrInvalidRole
  | ErrMembershipNotFound | ErrCannotRemoveOwner | ErrOwnerRoleImmutable
  | ErrEventNotFound | ErrEventInvalidStatusTransition | ErrEventCannotModify
  | ErrEventCannotDelete
  | ErrInvitationNotFound | ErrInvitationExpired | ErrInvitationRevoked | ErrTokenInvalid
  | ErrRSVPNotFound | ErrRSVPDeadlinePassed | ErrEventAtCapacity | ErrInvalidRSVPStatus
  | ErrQuotaExceeded
  | ErrEmailExists | ErrInvalidCredentials | ErrPasswordInvalid | ErrUserInactive
  | ErrEmailNotVerified | ErrEmailDelivery
  | ErrAuthTokenInvalid \<comment> \<open>\<open>service.ErrTokenInvalid\<close>\<close>
  | ErrTemplateNotFound | ErrCampaignNotFound | ErrMessageNotFound | ErrInvalidChannel
  | ErrInvalidMessageType | ErrTemplateInactive | ErrEmptyRecipientList | ErrCampaignStarted
  | ErrRSVPReminderThrottled | ErrWhatsAppNotConfigured
  | ErrWhatsAppIntegrationInvalid | ErrWhatsAppDeviceConflict | ErrWhatsAppAuthInvalid | ErrWhatsAppNotReady
  | ErrPhoneMissing | ErrInvalidPhone \<comment> \<open>of the package \<open>whatsapp\<close>\<close>
  | ErrInvalidNotificationSignature \<comment> \<open>of the package \<open>payment\<close>\<close>
  | ErrInvalidSignature \<comment> \<open>of the package \<open>auth\<close>\<close>
  | ErrInvalidToken | ErrTokenExpired \<comment> \<open>of the package \<open>auth\<close>\<close>
  | ErrOther \<comment> \<open>an error with no sentinel in its chain\<close>
  | ErrDB \<comment> \<open>any error of the database driver\<close>
  | ErrRand \<comment> \<open>\<open>crypto/rand\<close> failed\<close>

text \<open>Values of the JSON maps of settings and of the audit log.\<close>

datatype json = JNull | JString string | JInt int | JBool bool | JUUID uuid | JTime time
  | JObject "(string \<times> json) list"

type_synonym jsonmap = "(string \<times> json) list"

section \<open>The world and the combinators\<close>

record 'd world =
  store :: 'd
  pos :: nat
  faults :: "nat \<Rightarrow> bool"
  clock :: "nat \<Rightarrow> time"
  fresh :: "nat \<Rightarrow> uuid"
  entropy :: "nat \<Rightarrow> (nat \<Rightarrow> byte) option"

type_synonym ('d, 'a) go = "'d world \<Rightarrow> (err + 'a) \<times> 'd world"

definition tick :: "'d world \<Rightarrow> 'd world" where
  "tick w = w\<lparr>pos := Suc (pos w)\<rparr>"

definition go_ret :: "'a \<Rightarrow> ('d, 'a) go" where
  "go_ret x = (\<lambda>w. (Inr x, w))"

definition go_fail :: "err \<Rightarrow> ('d, 'a) go" where
  "go_fail e = (\<lambda>w. (Inl e, w))"

text \<open>\<open>x, err := m(); f\<close> where \<open>f\<close> inspects \<open>err\<close> itself.\<close>

definition go_try :: "('d, 'a) go \<Rightarrow> (err + 'a \<Rightarrow> ('d, 'b) go) \<Rightarrow> ('d, 'b) go" where
  "go_try m f = (\<lambda>w. case m w of (r, w') \<Rightarrow> f r w')"

text \<open>\<open>x, err := m(); if err != nil { return err }; f(x)\<close>.\<close>

definition go_bind :: "('d, 'a) go \<Rightarrow> ('a \<Rightarrow> ('d, 'b) go) \<Rightarrow> ('d, 'b) go" where
  "go_bind m f = go_try m (\<lambda>r. case r of Inl e \<Rightarrow> go_fail e | Inr x \<Rightarrow> f x)"

text \<open>\<open>_ = m(); k\<close>: the error is dropped on purpose.\<close>

definition go_ignore :: "('d, 'a) go \<Rightarrow> ('d, 'b) go \<Rightarrow> ('d, 'b) go" where
  "go_ignore m k = go_try m (\<lambda>_. k)"

definition go_guard :: "bool \<Rightarrow> err \<Rightarrow> ('d, 'b) go \<Rightarrow> ('d, 'b) go" where
  "go_guard c e k = (if c then go_fail e else k)"

definition now :: "('d, time) go" where
  "now = (\<lambda>w. (Inr (clock w (pos w)), tick w))"

definition uuid_New :: "('d, uuid) go" where
  "uuid_New = (\<lambda>w. (Inr (fresh w (pos w)), tick w))"

definition rand_Read :: "nat \<Rightarrow> ('d, byte list) go" where
  "rand_Read n = (\<lambda>w. ((case entropy w (pos w) of None \<Rightarrow> Inl ErrRand
     | Some f \<Rightarrow> Inr (map f [0..<n])), tick w))"

text \<open>A \<open>SELECT\<close>: it may fail, and it leaves the database as it is.\<close>

definition query :: "('d \<Rightarrow> 'a) \<Rightarrow> ('d, 'a) go" where
  "query q = (\<lambda>w. (if faults w (pos w) then Inl ErrDB else Inr (q (store w)), tick w))"

text \<open>
  A statement that writes. It sees the server's \<open>NOW()\<close> and \<open>gen_random_uuid()\<close>; \<open>None\<close> is a
  violated constraint. A
  statement that fails leaves the database as it is. The result is what \<open>RowsAffected\<close> reports
  (which never fails with the driver the program uses).
\<close>

definition exec :: "(server \<Rightarrow> 'd \<Rightarrow> ('a \<times> 'd) option) \<Rightarrow> ('d, 'a) go" where
  "exec s = (\<lambda>w. if faults w (pos w) then (Inl ErrDB, tick w) else
     (case s (clock w (pos w), fresh w (pos w)) (store w) of
        None \<Rightarrow> (Inl ErrDB, tick w)
      | Some (x, d) \<Rightarrow> (Inr x, (tick w)\<lparr>store := d\<rparr>)))"

text \<open>\<open>GetContext\<close> with \<open>sql.ErrNoRows\<close> mapped to the sentinel \<open>e\<close>.\<close>

definition get_one :: "err \<Rightarrow> ('d \<Rightarrow> 'a option) \<Rightarrow> ('d, 'a) go" where
  "get_one e q = go_bind (query q) (\<lambda>r. case r of None \<Rightarrow> go_fail e | Some x \<Rightarrow> go_ret x)"

text \<open>\<open>ExecContext\<close> followed by the check that some row was affected.\<close>

definition exec_rows :: "err \<Rightarrow> (server \<Rightarrow> 'd \<Rightarrow> (nat \<times> 'd) option) \<Rightarrow> ('d, unit) go" where
  "exec_rows e s = go_bind (exec s) (\<lambda>n. if n = 0 then go_fail e else go_ret ())"

text \<open>
  \<open>repository.RunInTransaction\<close>: begin, run, then commit; a failing body, and a failing commit,
  leave the database as it was at the beginning.
\<close>

definition RunInTransaction :: "('d, 'a) go \<Rightarrow> ('d, 'a) go" where
  "RunInTransaction fn = (\<lambda>w. if faults w (pos w) then (Inl ErrDB, tick w) else
     (case fn (tick w) of
        (Inl e, w') \<Rightarrow> (Inl e, (tick w')\<lparr>store := store w\<rparr>)
      | (Inr x, w') \<Rightarrow>
          if faults w' (pos w') then (Inl ErrDB, (tick w')\<lparr>store := store w\<rparr>)
          else (Inr x, tick w')))"

text \<open>
  A request whose answer is not looked at; a sequence of requests, each served whatever became of
  the ones before.
\<close>

definition discard :: "('d, 'a) go \<Rightarrow> ('d, unit) go" where
  "discard m = go_bind m (\<lambda>_. go_ret ())"

fun serve_all :: "('d, 'a) go list \<Rightarrow> 'd world \<Rightarrow> 'd world" where
  "serve_all [] w = w"
| "serve_all (m # ms) w = serve_all ms (snd (m w))"

section \<open>Tables, integers and strings\<close>

definition update_where :: "('r \<Rightarrow> bool) \<Rightarrow> ('r \<Rightarrow> 'r) \<Rightarrow> 'r list \<Rightarrow> 'r list" where
  "update_where p f rs = map (\<lambda>r. if p r then f r else r) rs"

definition count_where :: "('r \<Rightarrow> bool) \<Rightarrow> 'r list \<Rightarrow> nat" where
  "count_where p rs = length (filter p rs)"

text \<open>
  \<open>UPDATE t SET f WHERE p\<close> on the table that \<open>get\<close> reads and \<open>put\<close> replaces: the number of
  affected rows and the database it leaves.
\<close>

definition sql_update ::
  "('d \<Rightarrow> 'r list) \<Rightarrow> ('r list \<Rightarrow> 'd \<Rightarrow> 'd) \<Rightarrow> ('r \<Rightarrow> bool) \<Rightarrow> ('r \<Rightarrow> 'r) \<Rightarrow> 'd \<Rightarrow> nat \<times> 'd" where
  "sql_update get put p f d = (count_where p (get d), put (update_where p f (get d)) d)"

text \<open>\<open>LIMIT n OFFSET k\<close>; the server rejects negative values.\<close>

definition limit_offset :: "int \<Rightarrow> int \<Rightarrow> 'r list \<Rightarrow> 'r list" where
  "limit_offset n k rs = take (nat n) (drop (nat k) rs)"

definition int4 :: "int \<Rightarrow> bool" where
  "int4 x \<longleftrightarrow> - (2 ^ 31) \<le> x \<and> x < 2 ^ 31"

text \<open>Go's 64-bit \<open>int\<close>: the result of an operation, wrapped to two's complement.\<close>

definition i64 :: "int \<Rightarrow> int" where
  "i64 x = (x + 2 ^ 63) mod 2 ^ 64 - 2 ^ 63"

text \<open>
  The UTF-8 encodings of the characters for which \<open>unicode.IsSpace\<close> holds, and
  \<open>strings.TrimSpace\<close>.
\<close>

definition space_codes :: "string list" where
  "space_codes =
     [[CHR 0x09], [CHR 0x0A], [CHR 0x0B], [CHR 0x0C], [CHR 0x0D], [CHR 0x20],
      [CHR 0xC2, CHR 0x85], [CHR 0xC2, CHR 0xA0], [CHR 0xE1, CHR 0x9A, CHR 0x80],
      [CHR 0xE2, CHR 0x80, CHR 0x80], [CHR 0xE2, CHR 0x80, CHR 0x81],
      [CHR 0xE2, CHR 0x80, CHR 0x82], [CHR 0xE2, CHR 0x80, CHR 0x83],
      [CHR 0xE2, CHR 0x80, CHR 0x84], [CHR 0xE2, CHR 0x80, CHR 0x85],
      [CHR 0xE2, CHR 0x80, CHR 0x86], [CHR 0xE2, CHR 0x80, CHR 0x87],
      [CHR 0xE2, CHR 0x80, CHR 0x88], [CHR 0xE2, CHR 0x80, CHR 0x89],
      [CHR 0xE2, CHR 0x80, CHR 0x8A], [CHR 0xE2, CHR 0x80, CHR 0xA8],
      [CHR 0xE2, CHR 0x80, CHR 0xA9], [CHR 0xE2, CHR 0x80, CHR 0xAF],
      [CHR 0xE2, CHR 0x81, CHR 0x9F], [CHR 0xE3, CHR 0x80, CHR 0x80]]"

fun strip_prefix :: "'a list \<Rightarrow> 'a list \<Rightarrow> 'a list option" where
  "strip_prefix [] ys = Some ys"
| "strip_prefix (x # xs) [] = None"
| "strip_prefix (x # xs) (y # ys) = (if x = y then strip_prefix xs ys else None)"

lemma strip_prefix_Some: "strip_prefix c s = Some r \<longleftrightarrow> s = c @ r"
  by (induction c s rule: strip_prefix.induct) auto

lemma strip_prefix_length: "strip_prefix c s = Some s' \<Longrightarrow> length s = length c + length s'"
  by (simp add: strip_prefix_Some)

text \<open>Remove any of the given non-empty codes from the front, as long as one is there.\<close>

fun strip_codes :: "nat \<Rightarrow> 'a list list \<Rightarrow> 'a list \<Rightarrow> 'a list" where
  "strip_codes 0 cs s = s"
| "strip_codes (Suc n) cs s =
     (case List.map_filter (\<lambda>c. strip_prefix c s) cs of
        [] \<Rightarrow> s
      | s' # _ \<Rightarrow> strip_codes n cs s')"

lemma strip_codes_id:
  "(\<And>c. c \<in> set cs \<Longrightarrow> strip_prefix c s = None) \<Longrightarrow> strip_codes n cs s = s"
  by (cases n) (auto simp: map_filter_def filter_empty_conv split: list.split)

definition TrimSpace :: "string \<Rightarrow> string" where
  "TrimSpace s =
     (let l = strip_codes (length s) space_codes s
      in rev (strip_codes (length l) (map rev space_codes) (rev l)))"

text \<open>Go's zero time, in nanoseconds from the Unix epoch.\<close>

definition zero_time :: time where
  "zero_time = - 62135596800000000000"

text \<open>The idiom \<open>if s != "" { p = &s }\<close>.\<close>

definition opt_str :: "string \<Rightarrow> string option" where
  "opt_str s = (if s = [] then None else Some s)"

text \<open>The idiom \<open>if s != "" { x.Field = &s }\<close>: the old value stays otherwise.\<close>

definition set_str :: "string \<Rightarrow> string option \<Rightarrow> string option" where
  "set_str s old = (if s = [] then old else Some s)"

text \<open>SQL's \<open>COALESCE(new, old)\<close> on a nullable column.\<close>

definition coalesce :: "'a option \<Rightarrow> 'a option \<Rightarrow> 'a option" where
  "coalesce new old = (case new of None \<Rightarrow> old | Some x \<Rightarrow> Some x)"

section \<open>Runs of the combinators\<close>

lemma tick_simps [simp]:
  "store (tick w) = store w" "faults (tick w) = faults w" "clock (tick w) = clock w"
  "fresh (tick w) = fresh w" "entropy (tick w) = entropy w" "pos (tick w) = Suc (pos w)"
  by (simp_all add: tick_def)

lemma go_ret_run [simp]: "go_ret x w = (Inr x, w)"
  by (simp add: go_ret_def)

lemma go_fail_run [simp]: "go_fail e w = (Inl e, w)"
  by (simp add: go_fail_def)

lemma go_try_run: "go_try m f w = f (fst (m w)) (snd (m w))"
  by (simp add: go_try_def split: prod.split)

lemma go_bind_run:
  "go_bind m f w = (case m w of (Inl e, w') \<Rightarrow> (Inl e, w') | (Inr x, w') \<Rightarrow> f x w')"
  by (simp add: go_bind_def go_try_def split: prod.split sum.split)

lemma go_try_eq [go_run]:
  "go_try m f w = (r, w'') \<longleftrightarrow> (\<exists>s w'. m w = (s, w') \<and> f s w' = (r, w''))"
  by (auto simp: go_try_def split: prod.split)

lemma go_bind_Inr [go_run]:
  "go_bind m f w = (Inr y, w'') \<longleftrightarrow> (\<exists>x w'. m w = (Inr x, w') \<and> f x w' = (Inr y, w''))"
  by (auto simp: go_bind_run split: prod.split sum.split)

lemma go_bind_Inl [go_run]:
  "go_bind m f w = (Inl e, w'') \<longleftrightarrow>
     m w = (Inl e, w'') \<or> (\<exists>x w'. m w = (Inr x, w') \<and> f x w' = (Inl e, w''))"
  by (auto simp: go_bind_run split: prod.split sum.split)

lemma go_ignore_eq [go_run]:
  "go_ignore m k w = (r, w'') \<longleftrightarrow> (\<exists>s w'. m w = (s, w') \<and> k w' = (r, w''))"
  by (auto simp: go_ignore_def go_run)

lemma go_guard_eq [go_run]:
  "go_guard c e k w = (r, w') \<longleftrightarrow> (if c then r = Inl e \<and> w' = w else k w = (r, w'))"
  by (auto simp: go_guard_def)

lemma now_eq [go_run]: "now w = (r, w') \<longleftrightarrow> r = Inr (clock w (pos w)) \<and> w' = tick w"
  by (auto simp: now_def)

lemma uuid_New_eq [go_run]: "uuid_New w = (r, w') \<longleftrightarrow> r = Inr (fresh w (pos w)) \<and> w' = tick w"
  by (auto simp: uuid_New_def)

lemma rand_Read_eq [go_run]:
  "rand_Read n w = (r, w') \<longleftrightarrow> w' = tick w \<and>
     r = (case entropy w (pos w) of None \<Rightarrow> Inl ErrRand | Some f \<Rightarrow> Inr (map f [0..<n]))"
  by (auto simp: rand_Read_def)

lemma query_eq [go_run]:
  "query q w = (r, w') \<longleftrightarrow> w' = tick w \<and>
     r = (if faults w (pos w) then Inl ErrDB else Inr (q (store w)))"
  by (auto simp: query_def)

lemma exec_Inr [go_run]:
  "exec s w = (Inr x, w') \<longleftrightarrow> \<not> faults w (pos w) \<and>
     (\<exists>d. s (clock w (pos w), fresh w (pos w)) (store w) = Some (x, d) \<and> w' = (tick w)\<lparr>store := d\<rparr>)"
  by (auto simp: exec_def split: option.split prod.split)

lemma exec_Inl [go_run]:
  "exec s w = (Inl e, w') \<longleftrightarrow> e = ErrDB \<and> w' = tick w \<and>
     (faults w (pos w) \<or> s (clock w (pos w), fresh w (pos w)) (store w) = None)"
  by (auto simp: exec_def split: option.split prod.split)

lemma get_one_Inr [go_run]:
  "get_one e q w = (Inr x, w') \<longleftrightarrow>
     \<not> faults w (pos w) \<and> q (store w) = Some x \<and> w' = tick w"
  by (auto simp: get_one_def go_run split: option.splits if_splits)

lemma get_one_Inl [go_run]:
  "get_one e q w = (Inl e', w') \<longleftrightarrow> w' = tick w \<and>
     (if faults w (pos w) then e' = ErrDB else q (store w) = None \<and> e' = e)"
  by (auto simp: get_one_def go_run split: option.splits if_splits)

lemma exec_rows_Inr [go_run]:
  "exec_rows e s w = (Inr u, w') \<longleftrightarrow> \<not> faults w (pos w) \<and>
     (\<exists>n d. s (clock w (pos w), fresh w (pos w)) (store w) = Some (n, d) \<and> n \<noteq> 0 \<and> w' = (tick w)\<lparr>store := d\<rparr>)"
  by (auto simp: exec_rows_def go_run split: if_splits)

lemma exec_rows_Inl [go_run]:
  "exec_rows e s w = (Inl e', w') \<longleftrightarrow>
     (e' = ErrDB \<and> w' = tick w \<and> (faults w (pos w) \<or> s (clock w (pos w), fresh w (pos w)) (store w) = None)) \<or>
     (e' = e \<and> \<not> faults w (pos w) \<and>
       (\<exists>d. s (clock w (pos w), fresh w (pos w)) (store w) = Some (0, d) \<and> w' = (tick w)\<lparr>store := d\<rparr>))"
  by (auto simp: exec_rows_def go_run split: if_splits)

text \<open>The same facts as elimination rules, for the inversion of longer runs.\<close>

lemma go_try_elim:
  assumes "go_try m f w = (r, w'')"
  obtains s w' where "m w = (s, w')" and "f s w' = (r, w'')"
  using assms by (auto simp: go_run)

lemma go_bind_elim_Inr:
  assumes "go_bind m f w = (Inr y, w'')"
  obtains x w' where "m w = (Inr x, w')" and "f x w' = (Inr y, w'')"
  using assms by (auto simp: go_run)

lemma go_bind_elim_Inl:
  assumes "go_bind m f w = (Inl e, w'')"
  obtains (here) "m w = (Inl e, w'')" | (later) x w' where "m w = (Inr x, w')" and "f x w' = (Inl e, w'')"
  using assms by (auto simp: go_run)

lemma go_ignore_elim:
  assumes "go_ignore m k w = (r, w'')"
  obtains s w' where "m w = (s, w')" and "k w' = (r, w'')"
  using assms by (auto simp: go_run)

lemma go_guard_elim:
  assumes "go_guard c e k w = (r, w')"
  obtains (stop) "c" and "r = Inl e" and "w' = w" | (pass) "\<not> c" and "k w = (r, w')"
  using assms by (auto simp: go_run split: if_splits)

lemma go_guard_elim_Inr:
  assumes "go_guard c e k w = (Inr y, w')"
  obtains "c = False" and "k w = (Inr y, w')"
  using assms by (auto simp: go_run split: if_splits)

lemmas go_elim_Inr = go_try_elim go_bind_elim_Inr go_ignore_elim go_guard_elim_Inr

lemmas go_elim = go_try_elim go_bind_elim_Inr go_bind_elim_Inl go_ignore_elim go_guard_elim

text \<open>A transaction that reports an error has changed nothing.\<close>

lemma RunInTransaction_Inl: "RunInTransaction m w = (Inl e, w') \<Longrightarrow> store w' = store w"
  by (auto simp: RunInTransaction_def split: if_splits prod.splits sum.splits)

lemma RunInTransaction_Inr [go_run]:
  "RunInTransaction m w = (Inr x, w'') \<longleftrightarrow> \<not> faults w (pos w) \<and>
     (\<exists>w'. m (tick w) = (Inr x, w') \<and> \<not> faults w' (pos w') \<and> w'' = tick w')"
  by (auto simp: RunInTransaction_def split: if_splits prod.splits sum.splits)

section \<open>Bounding what a program does to the store\<close>

text \<open>
  \<open>stays R m\<close>: every run of \<open>m\<close>, whatever it returns and whichever statements fail, relates the
  store it starts from to the store it leaves by \<open>R\<close>. The contract of \<open>R\<close> is a preorder; the
  composition rules are proved once in the locale and reused for every instance.
\<close>

definition stays :: "('d \<Rightarrow> 'd \<Rightarrow> bool) \<Rightarrow> ('d, 'a) go \<Rightarrow> bool" where
  "stays R m \<longleftrightarrow> (\<forall>w. R (store w) (store (snd (m w))))"

lemma staysI: "(\<And>w r w'. m w = (r, w') \<Longrightarrow> R (store w) (store w')) \<Longrightarrow> stays R m"
  unfolding stays_def by (metis prod.collapse)

lemma staysD: "stays R m \<Longrightarrow> m w = (r, w') \<Longrightarrow> R (store w) (store w')"
  unfolding stays_def by (metis snd_conv)

lemma stays_mono: "stays R m \<Longrightarrow> (\<And>d d'. R d d' \<Longrightarrow> S d d') \<Longrightarrow> stays S m"
  by (auto simp: stays_def)

locale store_preorder =
  fixes R :: "'d \<Rightarrow> 'd \<Rightarrow> bool"
  assumes R_refl: "R d d"
    and R_trans: "R a b \<Longrightarrow> R b c \<Longrightarrow> R a c"
begin

lemma ret_stays: "stays R (go_ret x)" and fail_stays: "stays R (go_fail e)"
  by (auto simp: stays_def R_refl)

lemma try_stays:
  assumes "stays R m" and "\<And>r. stays R (f r)"
  shows "stays R (go_try m f)"
  using assms by (auto simp: stays_def go_try_run intro: R_trans)

lemma bind_stays:
  assumes "stays R m" and "\<And>x. stays R (f x)"
  shows "stays R (go_bind m f)"
  unfolding go_bind_def
  by (rule try_stays) (use assms in \<open>auto intro: fail_stays split: sum.split\<close>)

lemma ignore_stays: "stays R m \<Longrightarrow> stays R k \<Longrightarrow> stays R (go_ignore m k)"
  unfolding go_ignore_def by (rule try_stays)

lemma guard_stays: "(\<not> c \<Longrightarrow> stays R k) \<Longrightarrow> stays R (go_guard c e k)"
  by (simp add: go_guard_def fail_stays)

lemma now_stays: "stays R now" and uuid_stays: "stays R uuid_New"
  and rand_stays: "stays R (rand_Read n)" and query_stays: "stays R (query q)"
  by (auto simp: stays_def now_def uuid_New_def rand_Read_def query_def R_refl)

lemma get_one_stays: "stays R (get_one e q)"
  unfolding get_one_def
  by (rule bind_stays [OF query_stays]) (simp add: ret_stays fail_stays split: option.split)

lemma exec_stays: "(\<And>t d x d'. s t d = Some (x, d') \<Longrightarrow> R d d') \<Longrightarrow> stays R (exec s)"
  by (auto simp: stays_def exec_def R_refl split: option.split prod.split)

lemma exec_rows_stays: "(\<And>t d n d'. s t d = Some (n, d') \<Longrightarrow> R d d') \<Longrightarrow> stays R (exec_rows e s)"
  unfolding exec_rows_def
  by (rule bind_stays [OF exec_stays]) (auto simp: ret_stays fail_stays)

lemma transaction_stays: "stays R m \<Longrightarrow> stays R (RunInTransaction m)"
proof (rule staysI)
  fix w r w'
  assume m: "stays R m" and run: "RunInTransaction m w = (r, w')"
  show "R (store w) (store w')"
  proof (cases r)
    case (Inl e)
    with run have "store w' = store w" by (simp add: RunInTransaction_Inl)
    then show ?thesis by (simp add: R_refl)
  next
    case (Inr x)
    with run obtain v where "m (tick w) = (Inr x, v)" and "w' = tick v"
      by (auto simp: RunInTransaction_Inr)
    with m show ?thesis by (auto dest: staysD)
  qed
qed

lemmas all_stays = ret_stays fail_stays try_stays bind_stays ignore_stays guard_stays now_stays
  uuid_stays rand_stays query_stays get_one_stays exec_stays exec_rows_stays transaction_stays

end

text \<open>A call that changes nothing: its failure ends the run with the store as it was, or the run goes on.\<close>

lemma pure_bind:
  assumes "go_bind m f w = (r, w')" and "stays (=) m"
  obtains (stop) e where "r = Inl e" and "store w' = store w"
  | (pass) x v where "m w = (Inr x, v)" and "store v = store w" and "f x v = (r, w')"
proof (cases "m w")
  case (Pair s v)
  then have v: "store v = store w" using staysD [OF assms(2)] by simp
  show thesis
  proof (cases s)
    case (Inl e)
    with Pair v assms(1) show thesis by (auto simp: go_bind_run intro: stop)
  next
    case (Inr x)
    with Pair v assms(1) show thesis by (auto simp: go_bind_run intro: pass)
  qed
qed

lemma pure_guard:
  assumes "go_guard c e k w = (r, w')"
  obtains (stop) "r = Inl e" and "store w' = store w" | (pass) "\<not> c" and "k w = (r, w')"
  using assms by (auto simp: go_guard_def split: if_splits)

text \<open>A property of the store that each request keeps is kept by every sequence of them.\<close>

lemma serve_all_keeps:
  assumes "\<And>m v. m \<in> set ms \<Longrightarrow> I (store v) \<Longrightarrow> I (store (snd (m v)))" and "I (store w)"
  shows "I (store (serve_all ms w))"
  using assms by (induction ms arbitrary: w) auto

text \<open>Two instances every component uses: the store is unchanged, and an invariant is kept.\<close>

interpretation unchanged: store_preorder "(=) :: 'd \<Rightarrow> 'd \<Rightarrow> bool"
  by unfold_locales auto

interpretation kept: store_preorder "\<lambda>d d'. I d \<longrightarrow> I d'" for I :: "'d \<Rightarrow> bool"
  by unfold_locales auto

text \<open>Two instances for one part \<open>f\<close> of the store: it is unchanged, and it only grows.\<close>

interpretation same: store_preorder "\<lambda>d d'. f d' = f d" for f :: "'d \<Rightarrow> 'v"
  by unfold_locales auto

interpretation grows: store_preorder "\<lambda>d d'. \<exists>rs. f d' = f d @ rs" for f :: "'d \<Rightarrow> 'r list"
  by unfold_locales auto

section \<open>Lemmas on tables, integers and strings\<close>

lemma find_Some_D: "find P xs = Some x \<Longrightarrow> x \<in> set xs \<and> P x"
  by (auto simp: find_Some_iff in_set_conv_nth)

lemma find_None_D: "find P xs = None \<Longrightarrow> x \<in> set xs \<Longrightarrow> \<not> P x"
  by (auto simp: find_None_iff)

lemma count_where_simps [simp]:
  "count_where p [] = 0"
  "count_where p (r # rs) = (if p r then 1 else 0) + count_where p rs"
  "count_where p (rs @ ss) = count_where p rs + count_where p ss"
  by (simp_all add: count_where_def)

lemma count_where_0: "count_where p rs = 0 \<longleftrightarrow> (\<forall>r \<in> set rs. \<not> p r)"
  by (auto simp: count_where_def filter_empty_conv)

lemma count_where_pos: "0 < count_where p rs \<longleftrightarrow> (\<exists>r \<in> set rs. p r)"
  using count_where_0 [of p rs] by auto

lemma count_where_le: "count_where p rs \<le> length rs"
  by (simp add: count_where_def)

lemma count_where_mono:
  "(\<And>r. r \<in> set rs \<Longrightarrow> p r \<Longrightarrow> q r) \<Longrightarrow> count_where p rs \<le> count_where q rs"
  by (induction rs) auto

lemma count_where_cong:
  "(\<And>r. r \<in> set rs \<Longrightarrow> p r = q r) \<Longrightarrow> count_where p rs = count_where q rs"
  unfolding count_where_def by (metis filter_cong)

lemma count_where_update:
  "(\<And>r. r \<in> set rs \<Longrightarrow> p r \<Longrightarrow> q (f r) = q r) \<Longrightarrow>
     count_where q (update_where p f rs) = count_where q rs"
  by (induction rs) (auto simp: update_where_def)

lemma length_update_where [simp]: "length (update_where p f rs) = length rs"
  by (simp add: update_where_def)

lemma set_update_where: "set (update_where p f rs) = f ` {r \<in> set rs. p r} \<union> {r \<in> set rs. \<not> p r}"
  by (auto simp: update_where_def)

lemma map_update_where:
  "(\<And>r. r \<in> set rs \<Longrightarrow> p r \<Longrightarrow> g (f r) = g r) \<Longrightarrow> map g (update_where p f rs) = map g rs"
  by (auto simp: update_where_def)

lemma update_where_none: "(\<And>r. r \<in> set rs \<Longrightarrow> \<not> p r) \<Longrightarrow> update_where p f rs = rs"
  by (induction rs) (auto simp: update_where_def)

lemma update_where_count_0: "count_where p rs = 0 \<Longrightarrow> update_where p f rs = rs"
  by (rule update_where_none) (simp add: count_where_0)

lemma update_where_append [simp]:
  "update_where p f (rs @ ss) = update_where p f rs @ update_where p f ss"
  "update_where p f (r # rs) = (if p r then f r else r) # update_where p f rs"
  "update_where p f [] = []"
  by (auto simp: update_where_def)

text \<open>An update by primary key touches one row.\<close>

lemma update_where_unique:
  assumes "distinct (map k rs)" and "r \<in> set rs" and "p r" and "\<And>s. p s \<Longrightarrow> k s = k r"
  obtains xs ys where "rs = xs @ r # ys" and "update_where p f rs = xs @ f r # ys"
proof -
  obtain xs ys where rs: "rs = xs @ r # ys" using assms(2) by (meson split_list)
  have "\<not> p s" if "s \<in> set xs \<union> set ys" for s
  proof
    assume "p s"
    then have "k s = k r" by (rule assms(4))
    moreover have "k s \<in> k ` (set xs \<union> set ys)" using that by blast
    ultimately show False using assms(1) rs by auto
  qed
  then have "update_where p f xs = xs" "update_where p f ys = ys"
    by (simp_all add: update_where_none)
  with rs assms(3) show thesis by (intro that) auto
qed

section \<open>One table of the database\<close>

text \<open>
  What the repositories rely on of a table: replacing its rows is a lens of the store. The client
  lemmas say what an \<open>UPDATE\<close> whose affected rows are checked does to it.
\<close>

locale table_lens =
  fixes get :: "'d \<Rightarrow> 'r list" and put :: "'r list \<Rightarrow> 'd \<Rightarrow> 'd"
  assumes get_put: "get (put rs d) = rs"
    and put_get: "put (get d) d = d"
    and put_put: "put rs (put ss d) = put rs d"
begin

lemma update_none: "sql_update get put p f d = (0, d') \<Longrightarrow> d' = d"
  by (auto simp: sql_update_def update_where_count_0 put_get)

lemma update_get: "get (snd (sql_update get put p f d)) = update_where p f (get d)"
  by (simp add: sql_update_def get_put)

lemma update_run:
  "exec_rows e (\<lambda>srv d. Some (sql_update get put p (f srv) d)) w = (Inr u, w') \<longleftrightarrow>
     \<not> faults w (pos w) \<and> (\<exists>r \<in> set (get (store w)). p r) \<and>
     w' = (tick w)\<lparr>store := put (update_where p (f (clock w (pos w), fresh w (pos w)))
       (get (store w))) (store w)\<rparr>"
  by (auto simp: exec_rows_Inr sql_update_def count_where_pos)

lemma update_fails:
  "exec_rows e (\<lambda>srv d. Some (sql_update get put p (f srv) d)) w = (Inl e', w') \<longleftrightarrow>
     w' = tick w \<and> (if faults w (pos w) then e' = ErrDB
                     else e' = e \<and> (\<forall>r \<in> set (get (store w)). \<not> p r))"
  by (auto simp: exec_rows_Inl sql_update_def count_where_0 put_get update_where_none)

lemma update_keeps:
  "exec_rows e (\<lambda>srv d. if c srv d then None else Some (sql_update get put p (f srv) d)) w
     = (Inl e', w') \<Longrightarrow> store w' = store w"
  by (auto simp: exec_rows_Inl split: if_splits dest: update_none)

end

section \<open>Integers\<close>

text \<open>The 64-bit sum of two columns that fit 32 bits is the exact sum.\<close>

lemma i64_id: "- (2 ^ 63) \<le> x \<Longrightarrow> x < 2 ^ 63 \<Longrightarrow> i64 x = x"
  by (simp add: i64_def)

lemma i64_int4_add: "int4 a \<Longrightarrow> int4 b \<Longrightarrow> i64 (a + b) = a + b"
  by (rule i64_id) (auto simp: int4_def)

lemma i64_bounds: "- (2 ^ 63) \<le> i64 x \<and> i64 x < 2 ^ 63"
  by (auto simp: i64_def)

end
