(* ===== verification/Domain.thy ===== *)
theory Domain
  imports Prelude
begin

text \<open>
  The domain models of \<open>internal/domain\<close>: every struct that is stored or passed to a modelled
  operation, as a record with the struct's fields, and the predicates on its string constants.
  An embedded Go struct is a record that the embedding one extends, so \<open>ID\<close>, \<open>TenantID\<close> and
  \<open>DeletedAt\<close> read any entity. A pointer field is an option. The columns \<open>event_id\<close> and
  \<open>guest_id\<close> that several structs declare after \<open>tenant_id\<close> are shared the same way. The fields
  of one struct carry a prefix of their own.
\<close>

section \<open>Base models\<close>

record base =
  ID :: uuid
  CreatedAt :: time
  UpdatedAt :: time
  DeletedAt :: "time option"

record tenant_base = base +
  TenantID :: uuid

record event_scoped = tenant_base +
  EventID :: uuid

record guest_scoped = event_scoped +
  GuestID :: uuid

abbreviation live :: "'a base_scheme \<Rightarrow> bool" where
  "live r \<equiv> DeletedAt r = None"

text \<open>\<open>NewBase\<close>: the id and the creation time of a new entity.\<close>

definition NewBase :: "('d, uuid \<times> time) go" where
  "NewBase = go_bind now (\<lambda>t. go_bind uuid_New (\<lambda>i. go_ret (i, t)))"

section \<open>Users and tenants\<close>

record user = base +
  u_Email :: string
  u_PasswordHash :: string
  u_FullName :: string
  u_Phone :: "string option"
  u_Position :: "string option"
  u_Bio :: "string option"
  u_AvatarURL :: "string option"
  u_EmailVerifiedAt :: "time option"
  u_MFAEnabled :: bool
  u_MFASecret :: "string option"
  u_Status :: string

record tenant = base +
  t_Name :: string
  t_Slug :: string
  t_Description :: "string option"
  t_LogoURL :: "string option"
  t_PrimaryColor :: string
  t_Settings :: "jsonmap option"
  t_Status :: string
  t_TrialEndsAt :: "time option"

record tenant_membership = tenant_base +
  m_UserID :: uuid
  m_Role :: string
  m_InvitedBy :: "uuid option"
  m_InvitedAt :: "time option"
  m_JoinedAt :: "time option"
  m_Status :: string

record event_member = event_scoped +
  em_UserID :: uuid
  em_Role :: string
  em_Status :: string
  em_InvitedBy :: "uuid option"
  em_AssignedAt :: time

record refresh_token =
  rt_ID :: uuid
  rt_UserID :: uuid
  rt_TokenHash :: string
  rt_ExpiresAt :: time
  rt_RevokedAt :: "time option"
  rt_RevokedBy :: "uuid option"
  rt_DeviceInfo :: "string option"
  rt_CreatedAt :: time

record auth_email_token =
  aet_ID :: uuid
  aet_UserID :: uuid
  aet_Purpose :: string
  aet_TokenHash :: string
  aet_ExpiresAt :: time
  aet_UsedAt :: "time option"
  aet_CreatedAt :: time

record email_verification_token =
  evt_ID :: uuid
  evt_UserID :: uuid
  evt_TokenHash :: string
  evt_ExpiresAt :: time
  evt_UsedAt :: "time option"
  evt_CreatedAt :: time

record tenant_create_request =
  tcq_Name :: string
  tcq_Slug :: string

record tenant_update_request =
  tuq_Name :: string
  tuq_Description :: string
  tuq_PrimaryColor :: string
  tuq_Settings :: "jsonmap option"

record tenant_member_create_request =
  tmr_FullName :: string
  tmr_Email :: string
  tmr_Password :: string
  tmr_Phone :: string
  tmr_Role :: string

record event_member_create_request =
  emr_UserID :: uuid
  emr_Role :: string

abbreviation UserStatusActive :: string where "UserStatusActive \<equiv> ''active''"
abbreviation TenantStatusTrial :: string where "TenantStatusTrial \<equiv> ''trial''"
abbreviation TenantStatusActive :: string where "TenantStatusActive \<equiv> ''active''"
abbreviation TenantStatusSuspended :: string where "TenantStatusSuspended \<equiv> ''suspended''"
abbreviation AuthEmailTokenPasswordReset :: string where
  "AuthEmailTokenPasswordReset \<equiv> ''password_reset''"
abbreviation AuthEmailTokenMagicLogin :: string where
  "AuthEmailTokenMagicLogin \<equiv> ''magic_login''"
abbreviation MembershipStatusActive :: string where
  "MembershipStatusActive \<equiv> ''active''"
abbreviation MembershipStatusInactive :: string where
  "MembershipStatusInactive \<equiv> ''inactive''"
abbreviation EventMemberStatusActive :: string where
  "EventMemberStatusActive \<equiv> ''active''"
abbreviation EventMemberStatusInactive :: string where
  "EventMemberStatusInactive \<equiv> ''inactive''"

section \<open>Events\<close>

record event = tenant_base +
  ev_Name :: string
  ev_Type :: string
  ev_Description :: "string option"
  ev_CoverURL :: "string option"
  ev_Status :: string
  ev_StartDate :: time
  ev_EndDate :: "time option"
  ev_RSVPDeadline :: "time option"
  ev_Capacity :: "int option"
  ev_GuestCount :: int
  ev_TargetInvites :: "int option"
  ev_TargetAttendance :: "int option"
  ev_PrimaryLocationID :: "uuid option"
  ev_DressCode :: "string option"
  ev_PrivacyNotice :: "string option"
  ev_GuestPolicy :: "string option"
  ev_Settings :: "jsonmap option"
  ev_SelfCheckinToken :: string
  ev_CreatedBy :: uuid

record event_create_request =
  ecr_Name :: string
  ecr_Type :: string
  ecr_Description :: string
  ecr_StartDate :: time
  ecr_EndDate :: "time option"
  ecr_RSVPDeadline :: "time option"
  ecr_Capacity :: "int option"
  ecr_TargetInvites :: "int option"
  ecr_TargetAttendance :: "int option"
  ecr_DressCode :: string
  ecr_PrivacyNotice :: string
  ecr_GuestPolicy :: string

record event_update_request =
  eur_Name :: string
  eur_Type :: string
  eur_Description :: string
  eur_Status :: string
  eur_StartDate :: "time option"
  eur_EndDate :: "time option"
  eur_RSVPDeadline :: "time option"
  eur_Capacity :: "int option"
  eur_TargetInvites :: "int option"
  eur_TargetAttendance :: "int option"
  eur_DressCode :: string
  eur_PrivacyNotice :: string
  eur_GuestPolicy :: string
  eur_Settings :: "jsonmap option"

record event_filter =
  ef_Status :: string
  ef_Type :: string
  ef_StartFrom :: "time option"
  ef_StartTo :: "time option"
  ef_Page :: int
  ef_PerPage :: int

abbreviation EventStatusDraft :: string where "EventStatusDraft \<equiv> ''draft''"
abbreviation EventStatusPublished :: string where "EventStatusPublished \<equiv> ''published''"
abbreviation EventStatusOngoing :: string where "EventStatusOngoing \<equiv> ''ongoing''"
abbreviation EventStatusCompleted :: string where "EventStatusCompleted \<equiv> ''completed''"
abbreviation EventStatusArchived :: string where "EventStatusArchived \<equiv> ''archived''"
abbreviation EventStatusCancelled :: string where "EventStatusCancelled \<equiv> ''cancelled''"

definition ValidEventTypes :: "string list" where
  "ValidEventTypes = [''wedding'', ''corporate'', ''seminar'', ''conference'', ''gathering'',
     ''government'', ''community'', ''vip'', ''family'']"

definition ValidEventStatuses :: "string list" where
  "ValidEventStatuses = [EventStatusDraft, EventStatusPublished, EventStatusOngoing,
     EventStatusCompleted, EventStatusArchived, EventStatusCancelled]"

definition IsValidEventType :: "string \<Rightarrow> bool" where
  "IsValidEventType t = list_ex (\<lambda>v. v = t) ValidEventTypes"

definition IsValidEventStatus :: "string \<Rightarrow> bool" where
  "IsValidEventStatus s = list_ex (\<lambda>v. v = s) ValidEventStatuses"

section \<open>Guests and the event roster\<close>

record guest = tenant_base +
  g_FullName :: string
  g_Nickname :: "string option"
  g_Phone :: "string option"
  g_Email :: "string option"
  g_Address :: "string option"
  g_City :: "string option"
  g_Country :: "string option"
  g_Language :: string
  g_GuestType :: string
  g_Segment :: "string option"
  g_Institution :: "string option"
  g_Title :: "string option"
  g_Relationship :: "string option"
  g_PIC :: "string option"
  g_AccessibilityNeeds :: "string option"
  g_DietaryRestrictions :: "string option"
  g_Allergies :: "string option"
  g_Notes :: "string option"
  g_ConsentCommunication :: bool
  g_ConsentVersion :: "string option"
  g_Source :: "string option"
  g_IsActive :: bool
  g_CreatedBy :: uuid
  g_UpdatedBy :: "uuid option"

record guest_create_request =
  gcr_FullName :: string
  gcr_Nickname :: string
  gcr_Phone :: string
  gcr_Email :: string
  gcr_Address :: string
  gcr_City :: string
  gcr_Country :: string
  gcr_Language :: string
  gcr_GuestType :: string
  gcr_Segment :: string
  gcr_Institution :: string
  gcr_Title :: string
  gcr_Relationship :: string
  gcr_PIC :: string
  gcr_AccessibilityNeeds :: string
  gcr_DietaryRestrictions :: string
  gcr_Allergies :: string
  gcr_Notes :: string
  gcr_ConsentCommunication :: bool

abbreviation GuestTypeVIP :: string where "GuestTypeVIP \<equiv> ''vip''"
abbreviation GuestTypeVVIP :: string where "GuestTypeVVIP \<equiv> ''vvip''"

record event_guest = guest_scoped +
  eg_Status :: string
  eg_Source :: string
  eg_MaxPax :: int
  eg_Adults :: int
  eg_Children :: int
  eg_PlusOneAllowed :: bool
  eg_Notes :: "string option"
  eg_CreatedBy :: uuid
  eg_Guest :: "guest option"

record event_guest_create_request =
  egr_GuestID :: uuid
  egr_Source :: string
  egr_MaxPax :: int
  egr_Adults :: int
  egr_Children :: int
  egr_PlusOneAllowed :: bool
  egr_Notes :: string

record event_guest_list_params =
  egl_TenantID :: uuid
  egl_EventID :: uuid
  egl_Search :: string
  egl_Status :: string
  egl_Page :: int
  egl_PerPage :: int

abbreviation EventGuestStatusActive :: string where "EventGuestStatusActive \<equiv> ''active''"
abbreviation EventGuestStatusCancelled :: string where "EventGuestStatusCancelled \<equiv> ''cancelled''"
abbreviation EventGuestSourceManual :: string where "EventGuestSourceManual \<equiv> ''manual''"
abbreviation EventGuestSourceWalkIn :: string where "EventGuestSourceWalkIn \<equiv> ''walk_in''"

definition IsValidEventGuestSource :: "string \<Rightarrow> bool" where
  "IsValidEventGuestSource s \<longleftrightarrow> s \<in> set [''manual'', ''import'', ''invitation'', ''rsvp'',
     ''checkin'', ''seating'', ''communication'', ''copy_event'', ''walk_in'']"

section \<open>Invitations\<close>

record invitation = guest_scoped +
  inv_EventGuestID :: "uuid option"
  inv_Token :: string
  inv_TokenHash :: string
  inv_URL :: string
  inv_MaxPax :: int
  inv_Adults :: int
  inv_Children :: int
  inv_PlusOneAllowed :: bool
  inv_PlusOneRequired :: bool
  inv_Status :: string
  inv_SentAt :: "time option"
  inv_FailedReason :: "string option"
  inv_OpenedAt :: "time option"
  inv_RevokedAt :: "time option"
  inv_RevokedBy :: "uuid option"
  inv_RevokeReason :: "string option"
  inv_ExpiresAt :: "time option"
  inv_CreatedBy :: uuid

record invitation_create_request =
  icr_GuestIDs :: "uuid list"
  icr_MaxPax :: int
  icr_Adults :: int
  icr_Children :: int
  icr_PlusOneAllowed :: bool
  icr_PlusOneRequired :: bool
  icr_ExpiresAt :: "time option"

record qr_code_data =
  qr_URL :: string
  qr_TokenHash :: string
  qr_EventID :: uuid
  qr_GuestID :: uuid

record credential_usage = base +
  cu_InvitationID :: uuid
  cu_EventID :: uuid
  cu_GuestID :: uuid
  cu_Type :: string
  cu_DeviceID :: "string option"
  cu_GateID :: "uuid option"
  cu_OfficerID :: "uuid option"
  cu_IPAddress :: "string option"
  cu_Metadata :: "jsonmap option"

abbreviation InvitationStatusDraft :: string where "InvitationStatusDraft \<equiv> ''draft''"
abbreviation InvitationStatusSent :: string where "InvitationStatusSent \<equiv> ''sent''"
abbreviation InvitationStatusOpened :: string where "InvitationStatusOpened \<equiv> ''opened''"
abbreviation InvitationStatusResponded :: string where "InvitationStatusResponded \<equiv> ''responded''"
abbreviation InvitationStatusRevoked :: string where "InvitationStatusRevoked \<equiv> ''revoked''"

section \<open>RSVP responses\<close>

record rsvp_response = guest_scoped +
  rs_InvitationID :: uuid
  rs_EventGuestID :: "uuid option"
  rs_Status :: string
  rs_AttendingPax :: int
  rs_Adults :: int
  rs_Children :: int
  rs_AttendingSessions :: "uuid list"
  rs_MenuChoice :: "string option"
  rs_Allergies :: "string option"
  rs_AccessibilityNeeds :: "string option"
  rs_Transportation :: "string option"
  rs_Notes :: "string option"
  rs_RespondedAt :: "time option"
  rs_EditedAt :: "time option"
  rs_EditedBy :: "uuid option"
  rs_IPAddress :: "string option"

record rsvp_submit_request =
  rsr_Token :: string
  rsr_Status :: string
  rsr_AttendingPax :: int
  rsr_Adults :: int
  rsr_Children :: int
  rsr_AttendingSessions :: "uuid list"
  rsr_MenuChoice :: string
  rsr_Allergies :: string
  rsr_AccessibilityNeeds :: string
  rsr_Transportation :: string
  rsr_Notes :: string

record rsvp_update_request =
  rur_Status :: string
  rur_AttendingPax :: int
  rur_Adults :: int
  rur_Children :: int
  rur_AttendingSessions :: "uuid list"
  rur_MenuChoice :: string
  rur_Allergies :: string
  rur_AccessibilityNeeds :: string
  rur_Transportation :: string
  rur_Notes :: string

record rsvp_dashboard =
  rd_TotalInvited :: int
  rd_TotalSent :: int
  rd_Opened :: int
  rd_Responded :: int
  rd_Attending :: int
  rd_AttendingPax :: int
  rd_NotAttending :: int
  rd_Maybe :: int
  rd_NoResponse :: int
  rd_Waitlist :: int
  rd_ResponseRate :: float64
  rd_CapacityUsed :: int
  rd_CapacityTotal :: int

abbreviation RSVPStatusAttending :: string where "RSVPStatusAttending \<equiv> ''attending''"
abbreviation RSVPStatusNotAttending :: string where "RSVPStatusNotAttending \<equiv> ''not_attending''"
abbreviation RSVPStatusMaybe :: string where "RSVPStatusMaybe \<equiv> ''maybe''"
abbreviation RSVPStatusNoResponse :: string where "RSVPStatusNoResponse \<equiv> ''no_response''"

definition ValidRSVPStatuses :: "string list" where
  "ValidRSVPStatuses = [''not_sent'', ''pending'', RSVPStatusAttending, RSVPStatusNotAttending,
     RSVPStatusMaybe, ''waitlist'', ''cancelled'', RSVPStatusNoResponse]"

definition IsValidRSVPStatus :: "string \<Rightarrow> bool" where
  "IsValidRSVPStatus s = list_ex (\<lambda>v. v = s) ValidRSVPStatuses"

section \<open>Check-in\<close>

record checkin = guest_scoped +
  ci_SessionID :: "uuid option"
  ci_EventGuestID :: "uuid option"
  ci_InvitationID :: "uuid option"
  ci_CredentialID :: "uuid option"
  ci_Method :: string
  ci_Status :: string
  ci_DeviceID :: "string option"
  ci_GateID :: "uuid option"
  ci_OfficerID :: "uuid option"
  ci_ActualPax :: int
  ci_Adults :: int
  ci_Children :: int
  ci_OverrideReason :: "string option"
  ci_ApprovedBy :: "uuid option"
  ci_IPAddress :: "string option"
  ci_Latitude :: "float64 option"
  ci_Longitude :: "float64 option"
  ci_Notes :: "string option"
  ci_OfflineSynced :: bool

record checkin_gate = event_scoped +
  cg_Name :: string
  cg_Code :: string
  cg_Location :: "string option"
  cg_IsActive :: bool

record checkin_request =
  cr_Method :: string
  cr_Token :: string
  cr_GuestID :: "uuid option"
  cr_GateID :: "uuid option"
  cr_DeviceID :: string
  cr_ActualPax :: int
  cr_Adults :: int
  cr_Children :: int
  cr_OverrideReason :: string
  cr_ApprovedBy :: "uuid option"
  cr_Notes :: string
  cr_Latitude :: float64
  cr_Longitude :: float64

record walkin_request =
  wr_FullName :: string
  wr_Phone :: string
  wr_Email :: string
  wr_GuestType :: string
  wr_Segment :: string
  wr_ActualPax :: int
  wr_Adults :: int
  wr_Children :: int
  wr_Reason :: string
  wr_OverrideReason :: string
  wr_ApprovedBy :: "uuid option"
  wr_Notes :: string

record gate_stat =
  gs_GateID :: uuid
  gs_GateName :: string
  gs_Count :: int
  gs_Pax :: int

record method_stat =
  ms_Method :: string
  ms_Count :: int

record checkin_stats =
  cs_TotalExpected :: int
  cs_TotalCheckedIn :: int
  cs_TotalPax :: int
  cs_WalkIns :: int
  cs_NoShows :: int
  cs_CheckInRate :: float64
  cs_RecentCheckins :: "checkin list"
  cs_ByGate :: "gate_stat list"
  cs_ByMethod :: "method_stat list"
  cs_PeakHour :: string

record guest_search_result =
  sr_GuestID :: uuid
  sr_FullName :: string
  sr_Nickname :: "string option"
  sr_Phone :: "string option"
  sr_Email :: "string option"
  sr_GuestType :: string
  sr_Segment :: "string option"
  sr_InvitationID :: "uuid option"
  sr_RSVPStatus :: string
  sr_IsCheckedIn :: bool
  sr_MaxPax :: int

abbreviation CheckinMethodQRScan :: string where "CheckinMethodQRScan \<equiv> ''qr_scan''"
abbreviation CheckinMethodManual :: string where "CheckinMethodManual \<equiv> ''manual_search''"
abbreviation CheckinMethodWalkin :: string where "CheckinMethodWalkin \<equiv> ''walk_in''"
abbreviation CheckinMethodKiosk :: string where "CheckinMethodKiosk \<equiv> ''kiosk''"
abbreviation CheckinMethodSelfService :: string where
  "CheckinMethodSelfService \<equiv> CheckinMethodKiosk"

abbreviation CheckinStatusSuccess :: string where "CheckinStatusSuccess \<equiv> ''success''"
abbreviation CheckinStatusDuplicate :: string where "CheckinStatusDuplicate \<equiv> ''duplicate''"
abbreviation CheckinStatusInvalid :: string where "CheckinStatusInvalid \<equiv> ''invalid''"
abbreviation CheckinStatusWrongEvent :: string where "CheckinStatusWrongEvent \<equiv> ''wrong_event''"

section \<open>Seating\<close>

record venue_zone = event_scoped +
  vz_Name :: string
  vz_Description :: "string option"
  vz_SortOrder :: int

record seat_table = event_scoped +
  tb_ZoneID :: "uuid option"
  tb_Name :: string
  tb_Capacity :: int
  tb_Shape :: string
  tb_PositionX :: "float64 option"
  tb_PositionY :: "float64 option"
  tb_IsLocked :: bool
  tb_Accessibility :: bool
  tb_VIPOnly :: bool
  tb_Notes :: "string option"

record seat_assignment =
  sa_TableID :: uuid
  sa_GuestID :: uuid
  sa_EventGuestID :: "uuid option"
  sa_SeatNumber :: "int option"
  sa_AssignedBy :: uuid
  sa_AssignedAt :: time

record table_create_request =
  tcr_ZoneID :: "uuid option"
  tcr_Name :: string
  tcr_Capacity :: int
  tcr_Shape :: string
  tcr_PositionX :: "float64 option"
  tcr_PositionY :: "float64 option"
  tcr_IsLocked :: bool
  tcr_Accessibility :: bool
  tcr_VIPOnly :: bool
  tcr_Notes :: string

record table_update_request =
  tur_ZoneID :: "uuid option"
  tur_Name :: string
  tur_Capacity :: "int option"
  tur_Shape :: string
  tur_PositionX :: "float64 option"
  tur_PositionY :: "float64 option"
  tur_IsLocked :: "bool option"
  tur_Accessibility :: "bool option"
  tur_VIPOnly :: "bool option"
  tur_Notes :: string

record assigned_guest =
  ag_GuestID :: uuid
  ag_FullName :: string
  ag_GuestType :: string
  ag_SeatNumber :: "int option"
  ag_AssignedAt :: time

record table_with_occupancy =
  to_Table :: seat_table
  to_Occupancy :: int
  to_AssignedGuests :: "assigned_guest list"

record seating_layout =
  sl_EventID :: uuid
  sl_Zones :: "venue_zone list"
  sl_Tables :: "table_with_occupancy list"
  sl_Unassigned :: int
  sl_TotalGuests :: int

record assign_guest_request =
  agr_GuestID :: uuid
  agr_SeatNumber :: "int option"

abbreviation TableShapeRound :: string where "TableShapeRound \<equiv> ''round''"
abbreviation TableShapeRectangular :: string where "TableShapeRectangular \<equiv> ''rectangular''"
abbreviation TableShapeSquare :: string where "TableShapeSquare \<equiv> ''square''"
abbreviation TableShapeOval :: string where "TableShapeOval \<equiv> ''oval''"
abbreviation TableShapeUShape :: string where "TableShapeUShape \<equiv> ''u_shape''"

section \<open>Households and gifts\<close>

record household = tenant_base +
  hh_Name :: string
  hh_Description :: "string option"
  hh_Address :: "string option"
  hh_City :: "string option"
  hh_MaxPax :: "int option"
  hh_Notes :: "string option"
  hh_CreatedBy :: uuid

record household_member =
  hm_HouseholdID :: uuid
  hm_GuestID :: uuid
  hm_IsPrimary :: bool
  hm_Role :: "string option"

record guest_gift = guest_scoped +
  gg_EventGuestID :: uuid
  gg_Amount :: "int option"
  gg_GiftType :: string
  gg_Notes :: "string option"
  gg_ReceivedAt :: time
  gg_RecordedBy :: "uuid option"

section \<open>Plans, subscriptions and payments\<close>

record plan_features =
  pf_WhatsAppCampaign :: bool
  pf_CustomTemplate :: bool
  pf_Webhook :: bool
  pf_AdvancedReports :: bool
  pf_RemoveBranding :: bool
  pf_PrioritySupport :: bool

text \<open>The JSON of the column \<open>features\<close> is \<open>None\<close> where it does not decode to the flags.\<close>

record plan =
  pl_ID :: uuid
  pl_Name :: string
  pl_DisplayName :: string
  pl_BillingCycle :: string
  pl_PriceIDR :: int
  pl_MaxGuests :: "int option"
  pl_MaxEvents :: "int option"
  pl_MaxTeamMembers :: "int option"
  pl_MaxCampaignsPerMonth :: "int option"
  pl_MaxCSVImportRows :: "int option"
  pl_Features :: "plan_features option"
  pl_IsActive :: bool
  pl_SortOrder :: int
  pl_CreatedAt :: time
  pl_UpdatedAt :: time

record subscription =
  sub_ID :: uuid
  sub_TenantID :: uuid
  sub_PlanID :: uuid
  sub_Status :: string
  sub_BillingCycle :: string
  sub_StartedAt :: time
  sub_ExpiresAt :: "time option"
  sub_CancelledAt :: "time option"
  sub_MidtransOrderID :: "string option"
  sub_MidtransTransactionID :: "string option"
  sub_CreatedAt :: time
  sub_UpdatedAt :: time

record payment =
  pay_ID :: uuid
  pay_TenantID :: uuid
  pay_SubscriptionID :: "uuid option"
  pay_PlanID :: uuid
  pay_MidtransOrderID :: string
  pay_MidtransTransactionID :: "string option"
  pay_AmountIDR :: int
  pay_BillingCycle :: string
  pay_Status :: string
  pay_PaymentMethod :: "string option"
  pay_VANumber :: "string option"
  pay_PaidAt :: "time option"
  pay_ExpiredAt :: "time option"
  pay_RawNotification :: "jsonmap option"
  pay_CreatedAt :: time
  pay_UpdatedAt :: time

section \<open>Communication\<close>

record comm_template = tenant_base +
  ct_Name :: string
  ct_Channel :: string
  ct_Type :: string
  ct_Subject :: "string option"
  ct_Body :: string
  ct_Variables :: "string list"
  ct_IsActive :: bool
  ct_IsSystem :: bool
  ct_Description :: "string option"
  ct_Language :: string

record comm_campaign = event_scoped +
  cc_Name :: string
  cc_TemplateID :: uuid
  cc_Channel :: string
  cc_Type :: string
  cc_Status :: string
  cc_RecipientFilter :: "jsonmap option"
  cc_ScheduledAt :: "time option"
  cc_SentAt :: "time option"
  cc_CompletedAt :: "time option"
  cc_TotalRecipients :: int
  cc_SentCount :: int
  cc_FailedCount :: int
  cc_CreatedBy :: uuid

record comm_message = guest_scoped +
  cm_CampaignID :: "uuid option"
  cm_EventGuestID :: "uuid option"
  cm_InvitationID :: "uuid option"
  cm_Channel :: string
  cm_Type :: string
  cm_Subject :: "string option"
  cm_Body :: string
  cm_Status :: string
  cm_SentAt :: "time option"
  cm_DeliveredAt :: "time option"
  cm_ReadAt :: "time option"
  cm_FailedAt :: "time option"
  cm_ErrorMessage :: "string option"
  cm_ExternalID :: "string option"
  cm_ProviderHTTPStatus :: "int option"
  cm_Cost :: "float64 option"

section \<open>The audit log\<close>

record audit_log =
  al_ID :: uuid
  al_TenantID :: "uuid option"
  al_UserID :: "uuid option"
  al_Action :: string
  al_EntityType :: string
  al_EntityID :: "uuid option"
  al_OldValues :: "jsonmap option"
  al_NewValues :: "jsonmap option"
  al_CreatedAt :: time

abbreviation AuditActionCreate :: string where "AuditActionCreate \<equiv> ''create''"
abbreviation AuditActionUpdate :: string where "AuditActionUpdate \<equiv> ''update''"
abbreviation AuditActionDelete :: string where "AuditActionDelete \<equiv> ''delete''"
abbreviation AuditActionRemove :: string where "AuditActionRemove \<equiv> ''remove''"
abbreviation AuditActionReject :: string where "AuditActionReject \<equiv> ''reject''"

abbreviation EntityTypeTenant :: string where "EntityTypeTenant \<equiv> ''tenant''"
abbreviation EntityTypeMembership :: string where "EntityTypeMembership \<equiv> ''membership''"
abbreviation EntityTypeEvent :: string where "EntityTypeEvent \<equiv> ''event''"
abbreviation EntityTypeEventGuest :: string where "EntityTypeEventGuest \<equiv> ''event_guest''"
abbreviation EntityTypeInvitation :: string where "EntityTypeInvitation \<equiv> ''invitation''"
abbreviation EntityTypeRSVP :: string where "EntityTypeRSVP \<equiv> ''rsvp''"
abbreviation EntityTypeCheckin :: string where "EntityTypeCheckin \<equiv> ''checkin''"

section \<open>Runs\<close>

lemma NewBase_run [go_run]:
  "NewBase w = (r, w') \<longleftrightarrow>
     r = Inr (fresh w (Suc (pos w)), clock w (pos w)) \<and> w' = tick (tick w)"
  by (auto simp: NewBase_def go_bind_run now_def uuid_New_def)

context store_preorder
begin

lemma NewBase_stays: "stays R NewBase"
  unfolding NewBase_def by (intro bind_stays now_stays uuid_stays ret_stays)

end

text \<open>The predicates on statuses and types accept exactly the listed strings.\<close>

lemma IsValidEventType_iff: "IsValidEventType t \<longleftrightarrow> t \<in> set ValidEventTypes"
  by (auto simp: IsValidEventType_def list_ex_iff)

lemma IsValidEventStatus_iff: "IsValidEventStatus s \<longleftrightarrow> s \<in> set ValidEventStatuses"
  by (auto simp: IsValidEventStatus_def list_ex_iff)

lemma IsValidRSVPStatus_iff: "IsValidRSVPStatus s \<longleftrightarrow> s \<in> set ValidRSVPStatuses"
  by (auto simp: IsValidRSVPStatus_def list_ex_iff)

end
