(* ===== verification/Crypto.thy ===== *)
theory Crypto
  imports Prelude
begin

unbundle bit_operations_syntax

text \<open>
  \<open>pkg/crypto/crypto.go\<close>: SHA-256 in hexadecimal (\<open>SHA256Hash\<close>), random tokens in URL-safe base64
  or hexadecimal (\<open>GenerateRandomToken\<close>, \<open>GenerateRandomHex\<close>), the constant-time comparison
  (\<open>SecureCompare\<close>) and the hashing of passwords (\<open>HashPassword\<close>). The functions of Go's standard library that the file calls are modelled
  in full: \<open>crypto/sha256\<close> after FIPS 180-4, \<open>encoding/hex\<close> and \<open>encoding/base64\<close>. bcrypt is a
  third-party package: its two functions are parameters of what uses them.
\<close>

type_synonym w32 = "32 word"

section \<open>Bytes, hexadecimal and base64\<close>

definition bytes_of :: "string \<Rightarrow> byte list" where
  "bytes_of s = map (\<lambda>c. of_nat (of_char c)) s"

definition hex_digits :: string where
  "hex_digits = ''0123456789abcdef''"

definition hex_byte :: "byte \<Rightarrow> string" where
  "hex_byte b = [hex_digits ! unat (drop_bit 4 b), hex_digits ! unat (b AND 0x0F)]"

definition hex_EncodeToString :: "byte list \<Rightarrow> string" where
  "hex_EncodeToString bs = concat (map hex_byte bs)"

definition base64_url :: string where
  "base64_url = ''ABCDEFGHIJKLMNOPQRSTUVWXYZabcdefghijklmnopqrstuvwxyz0123456789-_''"

definition b64 :: "w32 \<Rightarrow> char" where
  "b64 n = base64_url ! unat (n AND 0x3F)"

text \<open>\<open>base64.URLEncoding\<close>: padded, three bytes to four characters.\<close>

fun base64_EncodeToString :: "byte list \<Rightarrow> string" where
  "base64_EncodeToString [] = []"
| "base64_EncodeToString [a] =
     (let n = push_bit 16 (ucast a)
      in [b64 (drop_bit 18 n), b64 (drop_bit 12 n), CHR ''='', CHR ''=''])"
| "base64_EncodeToString [a, b] =
     (let n = push_bit 16 (ucast a) OR push_bit 8 (ucast b)
      in [b64 (drop_bit 18 n), b64 (drop_bit 12 n), b64 (drop_bit 6 n), CHR ''=''])"
| "base64_EncodeToString (a # b # c # bs) =
     (let n = push_bit 16 (ucast a) OR push_bit 8 (ucast b) OR ucast c
      in [b64 (drop_bit 18 n), b64 (drop_bit 12 n), b64 (drop_bit 6 n), b64 n]
         @ base64_EncodeToString bs)"

section \<open>SHA-256\<close>

definition sha_K :: "w32 list" where
  "sha_K = [
    0x428a2f98, 0x71374491, 0xb5c0fbcf, 0xe9b5dba5, 0x3956c25b, 0x59f111f1, 0x923f82a4, 0xab1c5ed5,
    0xd807aa98, 0x12835b01, 0x243185be, 0x550c7dc3, 0x72be5d74, 0x80deb1fe, 0x9bdc06a7, 0xc19bf174,
    0xe49b69c1, 0xefbe4786, 0x0fc19dc6, 0x240ca1cc, 0x2de92c6f, 0x4a7484aa, 0x5cb0a9dc, 0x76f988da,
    0x983e5152, 0xa831c66d, 0xb00327c8, 0xbf597fc7, 0xc6e00bf3, 0xd5a79147, 0x06ca6351, 0x14292967,
    0x27b70a85, 0x2e1b2138, 0x4d2c6dfc, 0x53380d13, 0x650a7354, 0x766a0abb, 0x81c2c92e, 0x92722c85,
    0xa2bfe8a1, 0xa81a664b, 0xc24b8b70, 0xc76c51a3, 0xd192e819, 0xd6990624, 0xf40e3585, 0x106aa070,
    0x19a4c116, 0x1e376c08, 0x2748774c, 0x34b0bcb5, 0x391c0cb3, 0x4ed8aa4a, 0x5b9cca4f, 0x682e6ff3,
    0x748f82ee, 0x78a5636f, 0x84c87814, 0x8cc70208, 0x90befffa, 0xa4506ceb, 0xbef9a3f7, 0xc67178f2]"

definition sha_init :: "w32 list" where
  "sha_init = [0x6a09e667, 0xbb67ae85, 0x3c6ef372, 0xa54ff53a,
               0x510e527f, 0x9b05688c, 0x1f83d9ab, 0x5be0cd19]"

text \<open>The message, a one bit, zeros, and the length in bits as 64 bits, big-endian.\<close>

definition sha_pad :: "byte list \<Rightarrow> byte list" where
  "sha_pad m = m @ [0x80] @ replicate ((119 - length m mod 64) mod 64) 0 @
     map (\<lambda>i. ucast (drop_bit (8 * (7 - i)) (of_nat (8 * length m) :: 64 word))) [0..<8]"

fun sha_words :: "byte list \<Rightarrow> w32 list" where
  "sha_words (a # b # c # d # bs) =
     (push_bit 24 (ucast a) OR push_bit 16 (ucast b) OR push_bit 8 (ucast c) OR ucast d) # sha_words bs"
| "sha_words _ = []"

text \<open>The message schedule, newest word first.\<close>

definition sha_next :: "w32 list \<Rightarrow> w32" where
  "sha_next ws =
     (let x = ws ! 14; y = ws ! 1;
          s0 = word_rotr 7 x XOR word_rotr 18 x XOR drop_bit 3 x;
          s1 = word_rotr 17 y XOR word_rotr 19 y XOR drop_bit 10 y
      in ws ! 15 + s0 + ws ! 6 + s1)"

definition sha_schedule :: "w32 list \<Rightarrow> w32 list" where
  "sha_schedule block = rev (((\<lambda>ws. sha_next ws # ws) ^^ 48) (rev block))"

fun sha_round :: "w32 \<times> w32 \<Rightarrow> w32 list \<Rightarrow> w32 list" where
  "sha_round (k, w) [a, b, c, d, e, f, g, h] =
     (let S1 = word_rotr 6 e XOR word_rotr 11 e XOR word_rotr 25 e;
          ch = (e AND f) XOR (NOT e AND g);
          t1 = h + S1 + ch + k + w;
          S0 = word_rotr 2 a XOR word_rotr 13 a XOR word_rotr 22 a;
          maj = (a AND b) XOR (a AND c) XOR (b AND c);
          t2 = S0 + maj
      in [t1 + t2, a, b, c, d + t1, e, f, g])"
| "sha_round _ hs = hs"

definition sha_block :: "w32 list \<Rightarrow> w32 list \<Rightarrow> w32 list" where
  "sha_block block hs = map2 (+) hs (fold sha_round (zip sha_K (sha_schedule block)) hs)"

fun sha_blocks :: "nat \<Rightarrow> w32 list \<Rightarrow> w32 list \<Rightarrow> w32 list" where
  "sha_blocks 0 ws hs = hs"
| "sha_blocks (Suc n) ws hs = sha_blocks n (drop 16 ws) (sha_block (take 16 ws) hs)"

definition sha_bytes :: "w32 \<Rightarrow> byte list" where
  "sha_bytes w = map (\<lambda>i. ucast (drop_bit (8 * (3 - i)) w)) [0..<4]"

definition sha256_Sum :: "byte list \<Rightarrow> byte list" where
  "sha256_Sum m =
     (let ws = sha_words (sha_pad m)
      in concat (map sha_bytes (sha_blocks (length ws div 16) ws sha_init)))"

section \<open>The functions of the package\<close>

definition SHA256Hash :: "string \<Rightarrow> string" where
  "SHA256Hash input = hex_EncodeToString (sha256_Sum (bytes_of input))"

definition GenerateRandomToken :: "int \<Rightarrow> ('d, string) go" where
  "GenerateRandomToken n =
     (if n \<le> 0 then go_fail ErrInvalidInput
      else go_bind (rand_Read (nat n)) (\<lambda>bytes. go_ret (base64_EncodeToString bytes)))"

definition GenerateRandomHex :: "int \<Rightarrow> ('d, string) go" where
  "GenerateRandomHex n =
     (if n \<le> 0 then go_fail ErrInvalidInput
      else go_bind (rand_Read (nat n)) (\<lambda>bytes. go_ret (hex_EncodeToString bytes)))"

text \<open>The loop of \<open>SecureCompare\<close>: the accumulator collects every difference.\<close>

fun secure_loop :: "byte \<Rightarrow> byte list \<Rightarrow> byte list \<Rightarrow> byte" where
  "secure_loop result (a # as) (b # bs) = secure_loop (result OR (a XOR b)) as bs"
| "secure_loop result _ _ = result"

definition SecureCompare :: "string \<Rightarrow> string \<Rightarrow> bool" where
  "SecureCompare a b \<longleftrightarrow>
     (if length a \<noteq> length b then False else secure_loop 0 (bytes_of a) (bytes_of b) = 0)"

text \<open>A UUID as 32 hexadecimal digits, as \<open>replace(gen_random_uuid()::text, '-', '')\<close> yields it.\<close>

definition uuid_hex :: "uuid \<Rightarrow> string" where
  "uuid_hex u = hex_EncodeToString (map (\<lambda>i. ucast (drop_bit (8 * (15 - i)) u)) [0..<16])"

text \<open>
  \<open>crypto.HashPassword\<close>: bcrypt with cost twelve and a salt of sixteen random bytes; it refuses
  passwords it cannot hash.
\<close>

definition bcryptCost :: int where
  "bcryptCost = 12"

definition HashPassword :: "(byte list \<Rightarrow> string \<Rightarrow> int \<Rightarrow> string option) \<Rightarrow> string \<Rightarrow> ('d, string) go" where
  "HashPassword bcrypt password = go_bind (rand_Read 16) (\<lambda>salt.
     case bcrypt salt password bcryptCost of None \<Rightarrow> go_fail ErrOther | Some hash \<Rightarrow> go_ret hash)"

section \<open>Correctness of the package\<close>

lemma bytes_of_inject: "bytes_of a = bytes_of b \<longleftrightarrow> a = b"
proof -
  have "inj (\<lambda>c :: char. (of_nat (of_char c) :: byte))"
  proof (rule injI)
    fix c d :: char
    assume "(of_nat (of_char c) :: byte) = of_nat (of_char d)"
    then have "unat (of_nat (of_char c) :: byte) = unat (of_nat (of_char d) :: byte)" by simp
    then show "c = d"
      by (simp add: unat_of_nat)
  qed
  then show ?thesis by (simp add: bytes_of_def inj_map_eq_map)
qed

lemma length_bytes_of [simp]: "length (bytes_of s) = length s"
  by (simp add: bytes_of_def)

lemma xor_zero_iff: "a XOR b = 0 \<longleftrightarrow> a = b" for a b :: "'a :: len word"
proof
  assume "a XOR b = 0"
  then have "(a XOR b) XOR b = 0 XOR b" by (rule arg_cong)
  then show "a = b" by (simp only: xor.assoc xor_self_eq xor.right_neutral xor.left_neutral)
qed simp

lemma secure_loop_zero:
  "length as = length bs \<Longrightarrow> secure_loop r as bs = 0 \<longleftrightarrow> r = 0 \<and> as = bs"
proof (induction as bs arbitrary: r rule: list_induct2)
  case (Cons a as b bs)
  have "a XOR b = 0 \<longleftrightarrow> a = b" by (simp add: xor_zero_iff)
  with Cons.IH show ?case by (simp add: or_eq_0_iff)
qed simp

lemma length_hex [simp]: "length (hex_EncodeToString bs) = 2 * length bs"
  by (induction bs) (auto simp: hex_EncodeToString_def hex_byte_def)

lemma length_sha_blocks:
  "length hs = 8 \<Longrightarrow> length (sha_blocks n ws hs) = 8"
proof (induction n arbitrary: ws hs)
  case (Suc n)
  have round: "length (sha_round kw gs) = length gs" for kw and gs :: "w32 list"
    by (cases "(kw, gs)" rule: sha_round.cases) (auto simp: Let_def)
  have "length (fold sha_round ks gs) = length gs" for ks and gs :: "w32 list"
    by (induction ks arbitrary: gs) (auto simp: round)
  then have "length (sha_block (take 16 ws) hs) = 8"
    using Suc.prems by (simp add: sha_block_def)
  with Suc.IH show ?case by simp
qed simp

lemma length_sha256_Sum: "length (sha256_Sum m) = 32"
proof -
  have "length (concat (map sha_bytes hs)) = 4 * length hs" for hs
    by (induction hs) (auto simp: sha_bytes_def)
  then show ?thesis
    by (simp add: sha256_Sum_def Let_def length_sha_blocks sha_init_def)
qed

lemma hex_byte_chars: "set (hex_byte b) \<subseteq> set hex_digits"
proof -
  have "unat (drop_bit 4 b) < 16"
    using unsigned_less [of b, where ?'a = nat]
    by (simp add: drop_bit_eq_div unat_div less_mult_imp_div_less)
  moreover have "unat (b AND 0x0F) < 16"
    using word_and_le1 [of b "0x0F"] by (simp add: word_le_nat_alt)
  moreover have "length hex_digits = 16" by (simp add: hex_digits_def)
  ultimately show ?thesis by (simp add: hex_byte_def)
qed

lemma hex_chars: "set (hex_EncodeToString bs) \<subseteq> set hex_digits"
  using hex_byte_chars by (fastforce simp: hex_EncodeToString_def)

text \<open>the constant-time comparison decides equality: accumulating the XOR of every pair of bytes
  answers exactly whether the two strings are equal.\<close>

theorem SecureCompare_correct: "SecureCompare a b \<longleftrightarrow> a = b"
  by (auto simp: SecureCompare_def secure_loop_zero bytes_of_inject)

text \<open>a SHA-256 hash is always 64 lowercase hexadecimal digits, so it fits the
  \<open>VARCHAR(64)\<close> column \<open>token_hash\<close> of the invitations.\<close>

theorem SHA256Hash_shape:
  "length (SHA256Hash s) = 64 \<and> set (SHA256Hash s) \<subseteq> set ''0123456789abcdef''"
  using hex_chars by (simp add: SHA256Hash_def length_sha256_Sum hex_digits_def)

lemma length_base64: "length (base64_EncodeToString bs) = 4 * ((length bs + 2) div 3)"
proof (induction bs rule: base64_EncodeToString.induct)
  case (4 a b c bs)
  have "(length (a # b # c # bs) + 2) div 3 = Suc ((length bs + 2) div 3)"
    by simp
  with 4 show ?case by (simp add: Let_def)
qed (simp_all add: Let_def)

end
