(* ===== verification/Store.thy ===== *)
theory Store
  imports Domain Crypto
begin

text \<open>
  The PostgreSQL database that \<open>internal/repository\<close> works on, as the migrations create it: one
  list of rows per table, and one insertion function per table that checks the table's
  constraints (primary key, unique indexes, foreign keys, \<open>CHECK\<close> clauses, the 32-bit range of
  its \<open>INTEGER\<close> columns) and yields \<open>None\<close> where the server rejects the row. Rows are kept in the
  order of insertion; a query with an \<open>ORDER BY\<close> sorts stably. Also here: the audit service of
  \<open>internal/audit\<close>, which every other service calls and whose errors they ignore.
\<close>

section \<open>The database\<close>

record db =
  tenants :: "tenant list"
  users :: "user list"
  tenant_users :: "tenant_membership list"
  event_members :: "event_member list"
  refresh_tokens :: "refresh_token list"
  auth_email_tokens :: "auth_email_token list"
  email_verification_tokens :: "email_verification_token list"
  events :: "event list"
  guests :: "guest list"
  event_guests :: "event_guest list"
  invitations :: "invitation list"
  credential_usage_log :: "credential_usage list"
  rsvp_responses :: "rsvp_response list"
  checkins :: "checkin list"
  checkin_gates :: "checkin_gate list"
  venue_zones :: "venue_zone list"
  seat_tables :: "seat_table list"
  seat_assignments :: "seat_assignment list"
  households :: "household list"
  household_members :: "household_member list"
  guest_gifts :: "guest_gift list"
  plans :: "plan list"
  subscriptions :: "subscription list"
  payments :: "payment list"
  communication_templates :: "comm_template list"
  communication_campaigns :: "comm_campaign list"
  communication_messages :: "comm_message list"
  audit_logs :: "audit_log list"

type_synonym 'a app = "(db, 'a) go"

text \<open>Each table that the repositories update is a lens of the database.\<close>

abbreviation put_tenants :: "_ list \<Rightarrow> db \<Rightarrow> db" where
  "put_tenants rs d \<equiv> d\<lparr>tenants := rs\<rparr>"
abbreviation put_users :: "_ list \<Rightarrow> db \<Rightarrow> db" where
  "put_users rs d \<equiv> d\<lparr>users := rs\<rparr>"
abbreviation put_refresh_tokens :: "_ list \<Rightarrow> db \<Rightarrow> db" where
  "put_refresh_tokens rs d \<equiv> d\<lparr>refresh_tokens := rs\<rparr>"
abbreviation put_auth_email_tokens :: "_ list \<Rightarrow> db \<Rightarrow> db" where
  "put_auth_email_tokens rs d \<equiv> d\<lparr>auth_email_tokens := rs\<rparr>"
abbreviation put_email_verification_tokens :: "_ list \<Rightarrow> db \<Rightarrow> db" where
  "put_email_verification_tokens rs d \<equiv> d\<lparr>email_verification_tokens := rs\<rparr>"
abbreviation put_tenant_users :: "_ list \<Rightarrow> db \<Rightarrow> db" where
  "put_tenant_users rs d \<equiv> d\<lparr>tenant_users := rs\<rparr>"
abbreviation put_event_members :: "_ list \<Rightarrow> db \<Rightarrow> db" where
  "put_event_members rs d \<equiv> d\<lparr>event_members := rs\<rparr>"
abbreviation put_events :: "_ list \<Rightarrow> db \<Rightarrow> db" where
  "put_events rs d \<equiv> d\<lparr>events := rs\<rparr>"
abbreviation put_guests :: "_ list \<Rightarrow> db \<Rightarrow> db" where
  "put_guests rs d \<equiv> d\<lparr>guests := rs\<rparr>"
abbreviation put_event_guests :: "_ list \<Rightarrow> db \<Rightarrow> db" where
  "put_event_guests rs d \<equiv> d\<lparr>event_guests := rs\<rparr>"
abbreviation put_invitations :: "_ list \<Rightarrow> db \<Rightarrow> db" where
  "put_invitations rs d \<equiv> d\<lparr>invitations := rs\<rparr>"
abbreviation put_rsvp_responses :: "_ list \<Rightarrow> db \<Rightarrow> db" where
  "put_rsvp_responses rs d \<equiv> d\<lparr>rsvp_responses := rs\<rparr>"
abbreviation put_checkins :: "_ list \<Rightarrow> db \<Rightarrow> db" where
  "put_checkins rs d \<equiv> d\<lparr>checkins := rs\<rparr>"
abbreviation put_venue_zones :: "_ list \<Rightarrow> db \<Rightarrow> db" where
  "put_venue_zones rs d \<equiv> d\<lparr>venue_zones := rs\<rparr>"
abbreviation put_seat_tables :: "_ list \<Rightarrow> db \<Rightarrow> db" where
  "put_seat_tables rs d \<equiv> d\<lparr>seat_tables := rs\<rparr>"
abbreviation put_seat_assignments :: "_ list \<Rightarrow> db \<Rightarrow> db" where
  "put_seat_assignments rs d \<equiv> d\<lparr>seat_assignments := rs\<rparr>"
abbreviation put_households :: "_ list \<Rightarrow> db \<Rightarrow> db" where
  "put_households rs d \<equiv> d\<lparr>households := rs\<rparr>"
abbreviation put_household_members :: "_ list \<Rightarrow> db \<Rightarrow> db" where
  "put_household_members rs d \<equiv> d\<lparr>household_members := rs\<rparr>"
abbreviation put_guest_gifts :: "_ list \<Rightarrow> db \<Rightarrow> db" where
  "put_guest_gifts rs d \<equiv> d\<lparr>guest_gifts := rs\<rparr>"
abbreviation put_subscriptions :: "_ list \<Rightarrow> db \<Rightarrow> db" where
  "put_subscriptions rs d \<equiv> d\<lparr>subscriptions := rs\<rparr>"
abbreviation put_payments :: "_ list \<Rightarrow> db \<Rightarrow> db" where
  "put_payments rs d \<equiv> d\<lparr>payments := rs\<rparr>"
abbreviation put_communication_templates :: "_ list \<Rightarrow> db \<Rightarrow> db" where
  "put_communication_templates rs d \<equiv> d\<lparr>communication_templates := rs\<rparr>"
abbreviation put_communication_campaigns :: "_ list \<Rightarrow> db \<Rightarrow> db" where
  "put_communication_campaigns rs d \<equiv> d\<lparr>communication_campaigns := rs\<rparr>"
abbreviation put_communication_messages :: "_ list \<Rightarrow> db \<Rightarrow> db" where
  "put_communication_messages rs d \<equiv> d\<lparr>communication_messages := rs\<rparr>"

interpretation tenants_table: table_lens tenants put_tenants
  by unfold_locales simp_all

interpretation users_table: table_lens users put_users
  by unfold_locales simp_all

interpretation refresh_tokens_table: table_lens refresh_tokens put_refresh_tokens
  by unfold_locales simp_all

interpretation auth_email_tokens_table: table_lens auth_email_tokens put_auth_email_tokens
  by unfold_locales simp_all

interpretation email_verification_tokens_table:
  table_lens email_verification_tokens put_email_verification_tokens
  by unfold_locales simp_all

interpretation tenant_users_table: table_lens tenant_users put_tenant_users
  by unfold_locales simp_all

interpretation event_members_table: table_lens event_members put_event_members
  by unfold_locales simp_all

interpretation events_table: table_lens events put_events
  by unfold_locales simp_all

interpretation guests_table: table_lens guests put_guests
  by unfold_locales simp_all

interpretation event_guests_table: table_lens event_guests put_event_guests
  by unfold_locales simp_all

interpretation invitations_table: table_lens invitations put_invitations
  by unfold_locales simp_all

interpretation rsvp_responses_table: table_lens rsvp_responses put_rsvp_responses
  by unfold_locales simp_all

interpretation checkins_table: table_lens checkins put_checkins
  by unfold_locales simp_all

interpretation venue_zones_table: table_lens venue_zones put_venue_zones
  by unfold_locales simp_all

interpretation seat_tables_table: table_lens seat_tables put_seat_tables
  by unfold_locales simp_all

interpretation seat_assignments_table: table_lens seat_assignments put_seat_assignments
  by unfold_locales simp_all

interpretation households_table: table_lens households put_households
  by unfold_locales simp_all

interpretation household_members_table: table_lens household_members put_household_members
  by unfold_locales simp_all

interpretation guest_gifts_table: table_lens guest_gifts put_guest_gifts
  by unfold_locales simp_all

interpretation subscriptions_table: table_lens subscriptions put_subscriptions
  by unfold_locales simp_all

interpretation payments_table: table_lens payments put_payments
  by unfold_locales simp_all

interpretation communication_templates_table: table_lens communication_templates put_communication_templates
  by unfold_locales simp_all

interpretation communication_campaigns_table: table_lens communication_campaigns put_communication_campaigns
  by unfold_locales simp_all

interpretation communication_messages_table: table_lens communication_messages put_communication_messages
  by unfold_locales simp_all

text \<open>A foreign key: the referenced row exists (deleted softly or not).\<close>

definition has_id :: "uuid \<Rightarrow> 'r base_scheme list \<Rightarrow> bool" where
  "has_id i rs = list_ex (\<lambda>r. ID r = i) rs"

definition has_id_opt :: "uuid option \<Rightarrow> 'r base_scheme list \<Rightarrow> bool" where
  "has_id_opt io rs = (case io of None \<Rightarrow> True | Some i \<Rightarrow> has_id i rs)"

definition int4_opt :: "int option \<Rightarrow> bool" where
  "int4_opt xo = (case xo of None \<Rightarrow> True | Some x \<Rightarrow> int4 x)"

section \<open>Insertions and their constraints\<close>

text \<open>
  \<open>users\<close> (migrations 001 and 1007): the address is unique among all rows, deleted ones included.
  The insertion does not name \<open>mfa_secret\<close>.
\<close>

definition insert_user :: "user \<Rightarrow> server \<Rightarrow> db \<Rightarrow> (nat \<times> db) option" where
  "insert_user u srv d =
     (if has_id (ID u) (users d) \<or> list_ex (\<lambda>r. u_Email r = u_Email u) (users d)
      then None else Some (1, d\<lparr>users := users d @ [u\<lparr>u_MFASecret := None\<rparr>]\<rparr>))"

text \<open>
  \<open>tenants\<close> (migration 002): the slug is unique among all rows. The unique index over the
  device id inside the settings (migration 1016) is not modelled.
\<close>

definition insert_tenant :: "tenant \<Rightarrow> server \<Rightarrow> db \<Rightarrow> (nat \<times> db) option" where
  "insert_tenant t srv d =
     (if has_id (ID t) (tenants d) \<or> list_ex (\<lambda>r. t_Slug r = t_Slug t) (tenants d)
      then None else Some (1, d\<lparr>tenants := tenants d @ [t\<lparr>DeletedAt := None\<rparr>]\<rparr>))"

text \<open>
  \<open>tenant_users\<close> (migration 003): one row per tenant and user. \<open>ON CONFLICT\<close> on that pair
  updates the row, whose trigger sets \<open>updated_at\<close>.
\<close>

definition membership_row_ok :: "tenant_membership \<Rightarrow> db \<Rightarrow> bool" where
  "membership_row_ok m d \<longleftrightarrow> has_id (TenantID m) (tenants d) \<and> has_id (m_UserID m) (users d)
     \<and> has_id_opt (m_InvitedBy m) (users d)"

definition same_member :: "tenant_membership \<Rightarrow> tenant_membership \<Rightarrow> bool" where
  "same_member m r \<longleftrightarrow> TenantID r = TenantID m \<and> m_UserID r = m_UserID m"

definition insert_membership :: "tenant_membership \<Rightarrow> server \<Rightarrow> db \<Rightarrow> (nat \<times> db) option" where
  "insert_membership m srv d =
     (if has_id (ID m) (tenant_users d) \<or> \<not> membership_row_ok m d
         \<or> list_ex (same_member m) (tenant_users d)
      then None else Some (1, d\<lparr>tenant_users := tenant_users d @ [m]\<rparr>))"

definition upsert_membership :: "tenant_membership \<Rightarrow> server \<Rightarrow> db \<Rightarrow> (nat \<times> db) option" where
  "upsert_membership m srv d =
     (if \<not> membership_row_ok m d then None
      else if list_ex (same_member m) (tenant_users d) then
        Some (1, d\<lparr>tenant_users := update_where (same_member m) (\<lambda>r. r\<lparr>m_Role := m_Role m,
          m_InvitedBy := m_InvitedBy m, m_InvitedAt := m_InvitedAt m, m_JoinedAt := m_JoinedAt m,
          m_Status := m_Status m, UpdatedAt := fst srv\<rparr>) (tenant_users d)\<rparr>)
      else insert_membership m srv d)"

text \<open>\<open>event_members\<close> (migration 1001): one row per event and user.\<close>

definition event_member_role_ok :: "string \<Rightarrow> bool" where
  "event_member_role_ok role \<longleftrightarrow>
     role \<in> {''rsvp_officer'', ''registration_officer'', ''usher'', ''gift_officer'', ''viewer''}"

definition upsert_event_member :: "event_member \<Rightarrow> server \<Rightarrow> db \<Rightarrow> (nat \<times> db) option" where
  "upsert_event_member m srv d =
     (let same = (\<lambda>r. EventID r = EventID m \<and> em_UserID r = em_UserID m)
      in if \<not> has_id (TenantID m) (tenants d) \<or> \<not> has_id (EventID m) (events d)
            \<or> \<not> has_id (em_UserID m) (users d) \<or> \<not> has_id_opt (em_InvitedBy m) (users d)
            \<or> \<not> event_member_role_ok (em_Role m) \<or> em_Status m \<notin> {''active'', ''inactive''}
         then None
         else if list_ex same (event_members d) then
           Some (1, d\<lparr>event_members := update_where same (\<lambda>r. r\<lparr>em_Role := em_Role m,
             em_Status := ''active'', em_InvitedBy := em_InvitedBy m, em_AssignedAt := fst srv,
             UpdatedAt := fst srv\<rparr>) (event_members d)\<rparr>)
         else if has_id (ID m) (event_members d) then None
         else Some (1, d\<lparr>event_members := event_members d @ [m]\<rparr>))"

text \<open>\<open>refresh_tokens\<close> (migration 006), \<open>auth_email_tokens\<close> (1003), \<open>email_verification_tokens\<close> (1002).\<close>

definition insert_refresh_token :: "refresh_token \<Rightarrow> server \<Rightarrow> db \<Rightarrow> (nat \<times> db) option" where
  "insert_refresh_token t srv d =
     (if list_ex (\<lambda>r. rt_ID r = rt_ID t) (refresh_tokens d) \<or> \<not> has_id (rt_UserID t) (users d)
         \<or> \<not> has_id_opt (rt_RevokedBy t) (users d)
      then None else Some (1, d\<lparr>refresh_tokens := refresh_tokens d @ [t]\<rparr>))"

definition insert_auth_email_token :: "auth_email_token \<Rightarrow> server \<Rightarrow> db \<Rightarrow> (nat \<times> db) option" where
  "insert_auth_email_token t srv d =
     (if list_ex (\<lambda>r. aet_ID r = aet_ID t \<or> aet_TokenHash r = aet_TokenHash t) (auth_email_tokens d)
         \<or> \<not> has_id (aet_UserID t) (users d)
         \<or> aet_Purpose t \<notin> {''password_reset'', ''magic_login''}
      then None else Some (1, d\<lparr>auth_email_tokens := auth_email_tokens d @ [t]\<rparr>))"

definition insert_verification_token ::
  "email_verification_token \<Rightarrow> server \<Rightarrow> db \<Rightarrow> (nat \<times> db) option" where
  "insert_verification_token t srv d =
     (if list_ex (\<lambda>r. evt_ID r = evt_ID t \<or> evt_TokenHash r = evt_TokenHash t)
           (email_verification_tokens d)
         \<or> \<not> has_id (evt_UserID t) (users d)
      then None
      else Some (1, d\<lparr>email_verification_tokens := email_verification_tokens d @ [t]\<rparr>))"

text \<open>\<open>events\<close> (migrations 007 and 1015): the column \<open>self_checkin_token\<close> has a random default.\<close>

definition insert_event :: "event \<Rightarrow> server \<Rightarrow> db \<Rightarrow> (nat \<times> db) option" where
  "insert_event e srv d =
     (let row = e\<lparr>ev_GuestCount := 0, ev_SelfCheckinToken := uuid_hex (snd srv), DeletedAt := None\<rparr>
      in if has_id (ID e) (events d)
            \<or> \<not> has_id (TenantID e) (tenants d) \<or> \<not> has_id (ev_CreatedBy e) (users d)
            \<or> \<not> int4_opt (ev_Capacity e) \<or> \<not> int4_opt (ev_TargetInvites e)
            \<or> \<not> int4_opt (ev_TargetAttendance e)
            \<or> list_ex (\<lambda>r. live r \<and> ev_SelfCheckinToken r = ev_SelfCheckinToken row) (events d)
         then None else Some (1, d\<lparr>events := events d @ [row]\<rparr>))"

text \<open>\<open>guests\<close> (migration 010).\<close>

definition insert_guest :: "guest \<Rightarrow> server \<Rightarrow> db \<Rightarrow> (nat \<times> db) option" where
  "insert_guest g srv d =
     (if has_id (ID g) (guests d)
         \<or> \<not> has_id (TenantID g) (tenants d) \<or> \<not> has_id (g_CreatedBy g) (users d)
         \<or> \<not> has_id_opt (g_UpdatedBy g) (users d)
      then None else Some (1, d\<lparr>guests := guests d @ [g]\<rparr>))"

text \<open>
  \<open>event_guests\<close> (migration 022): one live row per event and guest. The insertion does not name
  \<open>deleted_at\<close>; the field \<open>Guest\<close> of the struct is not a column.
\<close>

definition insert_event_guest :: "event_guest \<Rightarrow> server \<Rightarrow> db \<Rightarrow> (nat \<times> db) option" where
  "insert_event_guest eg srv d =
     (if has_id (ID eg) (event_guests d)
         \<or> \<not> has_id (TenantID eg) (tenants d) \<or> \<not> has_id (EventID eg) (events d)
         \<or> \<not> has_id (GuestID eg) (guests d) \<or> \<not> has_id (eg_CreatedBy eg) (users d)
         \<or> eg_Status eg \<notin> {''active'', ''cancelled''} \<or> \<not> IsValidEventGuestSource (eg_Source eg)
         \<or> eg_MaxPax eg \<le> 0 \<or> eg_Adults eg < 0 \<or> eg_Children eg < 0
         \<or> \<not> int4 (eg_MaxPax eg) \<or> \<not> int4 (eg_Adults eg) \<or> \<not> int4 (eg_Children eg)
         \<or> list_ex (\<lambda>r. live r \<and> EventID r = EventID eg \<and> GuestID r = GuestID eg) (event_guests d)
      then None
      else Some (1, d\<lparr>event_guests := event_guests d @ [eg\<lparr>eg_Guest := None, DeletedAt := None\<rparr>]\<rparr>))"

text \<open>\<open>invitations\<close> (migration 014): one live row per event and guest.\<close>

definition insert_invitation :: "invitation \<Rightarrow> server \<Rightarrow> db \<Rightarrow> (nat \<times> db) option" where
  "insert_invitation i srv d =
     (if has_id (ID i) (invitations d)
         \<or> \<not> has_id (TenantID i) (tenants d) \<or> \<not> has_id (EventID i) (events d)
         \<or> \<not> has_id (GuestID i) (guests d) \<or> \<not> has_id_opt (inv_EventGuestID i) (event_guests d)
         \<or> \<not> has_id_opt (inv_RevokedBy i) (users d) \<or> \<not> has_id (inv_CreatedBy i) (users d)
         \<or> \<not> int4 (inv_MaxPax i) \<or> \<not> int4 (inv_Adults i) \<or> \<not> int4 (inv_Children i)
         \<or> (live i \<and> list_ex (\<lambda>r. live r \<and> EventID r = EventID i \<and> GuestID r = GuestID i)
              (invitations d))
      then None
      else Some (1, d\<lparr>invitations := invitations d @ [i\<lparr>inv_FailedReason := None\<rparr>]\<rparr>))"

text \<open>\<open>credential_usage_log\<close> (migration 014).\<close>

definition insert_credential_usage :: "credential_usage \<Rightarrow> server \<Rightarrow> db \<Rightarrow> (nat \<times> db) option" where
  "insert_credential_usage u srv d =
     (if has_id (ID u) (credential_usage_log d) \<or> \<not> has_id (cu_InvitationID u) (invitations d)
         \<or> \<not> has_id (cu_EventID u) (events d) \<or> \<not> has_id (cu_GuestID u) (guests d)
         \<or> \<not> has_id_opt (cu_OfficerID u) (users d)
      then None else Some (1, d\<lparr>credential_usage_log := credential_usage_log d @ [u]\<rparr>))"

text \<open>
  \<open>rsvp_responses\<close> (migration 015): one row per invitation, no soft deletion; the struct's field
  \<open>AttendingSessions\<close> is not a column.
\<close>

definition insert_rsvp :: "rsvp_response \<Rightarrow> server \<Rightarrow> db \<Rightarrow> (nat \<times> db) option" where
  "insert_rsvp r srv d =
     (if has_id (ID r) (rsvp_responses d)
         \<or> \<not> has_id (TenantID r) (tenants d) \<or> \<not> has_id (EventID r) (events d)
         \<or> \<not> has_id (rs_InvitationID r) (invitations d) \<or> \<not> has_id (GuestID r) (guests d)
         \<or> \<not> has_id_opt (rs_EventGuestID r) (event_guests d) \<or> \<not> has_id_opt (rs_EditedBy r) (users d)
         \<or> \<not> int4 (rs_AttendingPax r) \<or> \<not> int4 (rs_Adults r) \<or> \<not> int4 (rs_Children r)
         \<or> list_ex (\<lambda>s. rs_InvitationID s = rs_InvitationID r) (rsvp_responses d)
      then None
      else Some (1, d\<lparr>rsvp_responses :=
             rsvp_responses d @ [r\<lparr>rs_AttendingSessions := [], DeletedAt := None\<rparr>]\<rparr>))"

text \<open>\<open>checkins\<close> (migration 017): the index on successful check-ins is not unique.\<close>

definition checkin_row_ok :: "checkin \<Rightarrow> db \<Rightarrow> bool" where
  "checkin_row_ok c d \<longleftrightarrow>
     has_id (TenantID c) (tenants d) \<and> has_id (EventID c) (events d)
     \<and> has_id (GuestID c) (guests d) \<and> has_id_opt (ci_EventGuestID c) (event_guests d)
     \<and> has_id_opt (ci_OfficerID c) (users d) \<and> has_id_opt (ci_ApprovedBy c) (users d)
     \<and> ci_Method c \<in> {''qr_scan'', ''manual_search'', ''walk_in'', ''kiosk''}
     \<and> ci_Status c \<in> {''success'', ''duplicate'', ''invalid'', ''revoked'', ''wrong_event'', ''expired''}
     \<and> int4 (ci_ActualPax c) \<and> int4 (ci_Adults c) \<and> int4 (ci_Children c)"

definition insert_checkin :: "checkin \<Rightarrow> server \<Rightarrow> db \<Rightarrow> (nat \<times> db) option" where
  "insert_checkin c srv d =
     (if has_id (ID c) (checkins d) \<or> \<not> checkin_row_ok c d
      then None else Some (1, d\<lparr>checkins := checkins d @ [c]\<rparr>))"

text \<open>\<open>venue_zones\<close> (migration 018) and \<open>tables\<close> (migration 019).\<close>

definition insert_zone :: "venue_zone \<Rightarrow> server \<Rightarrow> db \<Rightarrow> (nat \<times> db) option" where
  "insert_zone z srv d =
     (if has_id (ID z) (venue_zones d)
         \<or> \<not> has_id (TenantID z) (tenants d) \<or> \<not> has_id (EventID z) (events d)
         \<or> \<not> int4 (vz_SortOrder z)
      then None else Some (1, d\<lparr>venue_zones := venue_zones d @ [z]\<rparr>))"

definition table_row_ok :: "seat_table \<Rightarrow> db \<Rightarrow> bool" where
  "table_row_ok t d \<longleftrightarrow>
     has_id (TenantID t) (tenants d) \<and> has_id (EventID t) (events d)
     \<and> has_id_opt (tb_ZoneID t) (venue_zones d)
     \<and> 0 < tb_Capacity t \<and> tb_Capacity t \<le> 999
     \<and> tb_Shape t \<in> {''round'', ''rectangular'', ''square'', ''oval'', ''u_shape''}"

definition insert_table :: "seat_table \<Rightarrow> server \<Rightarrow> db \<Rightarrow> (nat \<times> db) option" where
  "insert_table t srv d =
     (if has_id (ID t) (seat_tables d) \<or> \<not> table_row_ok t d
      then None else Some (1, d\<lparr>seat_tables := seat_tables d @ [t]\<rparr>))"

text \<open>
  \<open>seat_assignments\<close> (migration 019): the primary key is the pair of table and guest;
  \<open>ON CONFLICT\<close> on it replaces the other columns.
\<close>

definition upsert_assignment :: "seat_assignment \<Rightarrow> server \<Rightarrow> db \<Rightarrow> (nat \<times> db) option" where
  "upsert_assignment a srv d =
     (let same = (\<lambda>r. sa_TableID r = sa_TableID a \<and> sa_GuestID r = sa_GuestID a)
      in if \<not> has_id (sa_TableID a) (seat_tables d) \<or> \<not> has_id (sa_GuestID a) (guests d)
            \<or> \<not> has_id (sa_AssignedBy a) (users d)
            \<or> \<not> has_id_opt (sa_EventGuestID a) (event_guests d)
            \<or> \<not> int4_opt (sa_SeatNumber a)
         then None
         else Some (1, d\<lparr>seat_assignments :=
                (if list_ex same (seat_assignments d)
                 then update_where same (\<lambda>_. a) (seat_assignments d)
                 else seat_assignments d @ [a])\<rparr>))"

text \<open>
  \<open>households\<close> and \<open>household_members\<close> (migration 011): \<open>ON CONFLICT\<close> on the pair of household and
  guest updates the membership.
\<close>

definition insert_household :: "household \<Rightarrow> server \<Rightarrow> db \<Rightarrow> (nat \<times> db) option" where
  "insert_household h srv d =
     (if has_id (ID h) (households d) \<or> \<not> has_id (TenantID h) (tenants d)
         \<or> \<not> has_id (hh_CreatedBy h) (users d) \<or> \<not> int4_opt (hh_MaxPax h)
      then None else Some (1, d\<lparr>households := households d @ [h]\<rparr>))"

definition upsert_household_member ::
  "household_member \<Rightarrow> server \<Rightarrow> db \<Rightarrow> (nat \<times> db) option" where
  "upsert_household_member m srv d =
     (let same = (\<lambda>r. hm_HouseholdID r = hm_HouseholdID m \<and> hm_GuestID r = hm_GuestID m)
      in if \<not> has_id (hm_HouseholdID m) (households d) \<or> \<not> has_id (hm_GuestID m) (guests d) then None
         else Some (1, d\<lparr>household_members :=
           (if list_ex same (household_members d)
            then update_where same (\<lambda>r. r\<lparr>hm_IsPrimary := hm_IsPrimary m, hm_Role := hm_Role m\<rparr>)
              (household_members d)
            else household_members d @ [m])\<rparr>))"

text \<open>
  \<open>guest_gifts\<close> (migrations 1013 and 1014): one live row per tenant, event and guest. \<open>ON CONFLICT\<close>
  on that index updates the row, whose trigger sets \<open>updated_at\<close>.
\<close>

definition gift_row_ok :: "guest_gift \<Rightarrow> db \<Rightarrow> bool" where
  "gift_row_ok g d \<longleftrightarrow> has_id (TenantID g) (tenants d) \<and> has_id (EventID g) (events d)
     \<and> has_id (GuestID g) (guests d) \<and> has_id (gg_EventGuestID g) (event_guests d)
     \<and> has_id_opt (gg_RecordedBy g) (users d)
     \<and> (case gg_Amount g of None \<Rightarrow> True | Some a \<Rightarrow> 0 < a)
     \<and> gg_GiftType g \<in> {''cash'', ''transfer'', ''goods'', ''other''}"

definition same_gift :: "guest_gift \<Rightarrow> guest_gift \<Rightarrow> bool" where
  "same_gift g r \<longleftrightarrow> TenantID r = TenantID g \<and> EventID r = EventID g \<and> GuestID r = GuestID g \<and> live r"

definition upsert_gift :: "guest_gift \<Rightarrow> server \<Rightarrow> db \<Rightarrow> (nat \<times> db) option" where
  "upsert_gift g srv d =
     (if \<not> gift_row_ok g d then None
      else if list_ex (same_gift g) (guest_gifts d) then
        Some (1, d\<lparr>guest_gifts := update_where (same_gift g) (\<lambda>r. r\<lparr>gg_EventGuestID := gg_EventGuestID g,
          gg_Amount := gg_Amount g, gg_GiftType := gg_GiftType g, gg_Notes := gg_Notes g,
          gg_ReceivedAt := gg_ReceivedAt g, gg_RecordedBy := gg_RecordedBy g, UpdatedAt := fst srv\<rparr>)
          (guest_gifts d)\<rparr>)
      else if has_id (ID g) (guest_gifts d) then None
      else Some (1, d\<lparr>guest_gifts := guest_gifts d @ [g\<lparr>DeletedAt := None\<rparr>]\<rparr>))"

text \<open>\<open>subscriptions\<close> and \<open>payments\<close> (migrations 1010 and 1011): an order id is used once.\<close>

definition insert_subscription :: "subscription \<Rightarrow> server \<Rightarrow> db \<Rightarrow> (nat \<times> db) option" where
  "insert_subscription s srv d =
     (if list_ex (\<lambda>r. sub_ID r = sub_ID s) (subscriptions d) \<or> \<not> has_id (sub_TenantID s) (tenants d)
         \<or> \<not> list_ex (\<lambda>p. pl_ID p = sub_PlanID s) (plans d)
      then None else Some (1, d\<lparr>subscriptions := subscriptions d @ [s]\<rparr>))"

definition insert_payment :: "payment \<Rightarrow> server \<Rightarrow> db \<Rightarrow> (nat \<times> db) option" where
  "insert_payment p srv d =
     (if list_ex (\<lambda>r. pay_ID r = pay_ID p \<or> pay_MidtransOrderID r = pay_MidtransOrderID p) (payments d)
         \<or> \<not> has_id (pay_TenantID p) (tenants d) \<or> \<not> list_ex (\<lambda>q. pl_ID q = pay_PlanID p) (plans d)
         \<or> \<not> int4 (pay_AmountIDR p)
      then None else Some (1, d\<lparr>payments := payments d @ [p]\<rparr>))"

text \<open>\<open>audit_logs\<close> (migration 005).\<close>

definition insert_audit_log :: "audit_log \<Rightarrow> server \<Rightarrow> db \<Rightarrow> (nat \<times> db) option" where
  "insert_audit_log l srv d =
     (if list_ex (\<lambda>r. al_ID r = al_ID l) (audit_logs d)
         \<or> \<not> has_id_opt (al_TenantID l) (tenants d) \<or> \<not> has_id_opt (al_UserID l) (users d)
      then None else Some (1, d\<lparr>audit_logs := audit_logs d @ [l]\<rparr>))"

section \<open>The audit service\<close>

text \<open>\<open>AuditRepository.Create\<close> and \<open>audit.Service.LogWithUser\<close>. The request context carries no
  Echo context in the modelled paths, so the address and the agent stay nil.\<close>

definition AuditRepository_Create :: "audit_log \<Rightarrow> unit app" where
  "AuditRepository_Create l = go_bind (exec (insert_audit_log l)) (\<lambda>_. go_ret ())"

definition LogWithUser ::
  "uuid \<Rightarrow> uuid \<Rightarrow> string \<Rightarrow> string \<Rightarrow> uuid \<Rightarrow> jsonmap option \<Rightarrow> jsonmap option \<Rightarrow> unit app" where
  "LogWithUser userID tenantID action entityType entityID oldValues newValues =
     go_bind uuid_New (\<lambda>i. go_bind now (\<lambda>t.
       AuditRepository_Create \<lparr>al_ID = i, al_TenantID = Some tenantID, al_UserID = Some userID,
         al_Action = action, al_EntityType = entityType, al_EntityID = Some entityID,
         al_OldValues = oldValues, al_NewValues = newValues, al_CreatedAt = t\<rparr>))"

section \<open>Frames\<close>

text \<open>Everything but the audit log: what the audit service leaves as it is.\<close>

definition audit_free :: "db \<Rightarrow> db" where
  "audit_free d = d\<lparr>audit_logs := []\<rparr>"

lemma LogWithUser_stays: "stays (\<lambda>d d'. audit_free d' = audit_free d)
    (LogWithUser u t a et ei ov nv)"
  unfolding LogWithUser_def AuditRepository_Create_def
  by (intro same.bind_stays same.uuid_stays same.now_stays same.exec_stays
      same.ret_stays)
    (auto simp: insert_audit_log_def audit_free_def split: if_splits)

text \<open>Projections that do not look at the audit log are unchanged by it.\<close>

lemma audit_free_sel:
  "tenants (audit_free d) = tenants d"
  "users (audit_free d) = users d"
  "tenant_users (audit_free d) = tenant_users d"
  "event_members (audit_free d) = event_members d"
  "refresh_tokens (audit_free d) = refresh_tokens d"
  "auth_email_tokens (audit_free d) = auth_email_tokens d"
  "email_verification_tokens (audit_free d) = email_verification_tokens d"
  "events (audit_free d) = events d"
  "guests (audit_free d) = guests d"
  "event_guests (audit_free d) = event_guests d"
  "invitations (audit_free d) = invitations d"
  "credential_usage_log (audit_free d) = credential_usage_log d"
  "rsvp_responses (audit_free d) = rsvp_responses d"
  "checkins (audit_free d) = checkins d"
  "checkin_gates (audit_free d) = checkin_gates d"
  "venue_zones (audit_free d) = venue_zones d"
  "seat_tables (audit_free d) = seat_tables d"
  "seat_assignments (audit_free d) = seat_assignments d"
  "households (audit_free d) = households d"
  "household_members (audit_free d) = household_members d"
  "guest_gifts (audit_free d) = guest_gifts d"
  "plans (audit_free d) = plans d"
  "subscriptions (audit_free d) = subscriptions d"
  "payments (audit_free d) = payments d"
  "communication_templates (audit_free d) = communication_templates d"
  "communication_campaigns (audit_free d) = communication_campaigns d"
  "communication_messages (audit_free d) = communication_messages d"
  by (simp_all add: audit_free_def)

lemma audit_free_tables:
  assumes "audit_free d' = audit_free d"
  shows "tenants d' = tenants d"
    "users d' = users d"
    "tenant_users d' = tenant_users d"
    "event_members d' = event_members d"
    "events d' = events d"
    "guests d' = guests d"
    "event_guests d' = event_guests d"
    "invitations d' = invitations d"
    "credential_usage_log d' = credential_usage_log d"
    "rsvp_responses d' = rsvp_responses d"
    "checkins d' = checkins d"
    "checkin_gates d' = checkin_gates d"
    "venue_zones d' = venue_zones d"
    "seat_tables d' = seat_tables d"
    "seat_assignments d' = seat_assignments d"
    "refresh_tokens d' = refresh_tokens d"
    "auth_email_tokens d' = auth_email_tokens d"
    "email_verification_tokens d' = email_verification_tokens d"
    "households d' = households d"
    "household_members d' = household_members d"
    "guest_gifts d' = guest_gifts d"
    "plans d' = plans d"
    "subscriptions d' = subscriptions d"
    "payments d' = payments d"
    "communication_templates d' = communication_templates d"
    "communication_campaigns d' = communication_campaigns d"
    "communication_messages d' = communication_messages d"
  by (metis audit_free_sel assms)+

lemma LogWithUser_audit_free:
  "LogWithUser u t a et ei ov nv w = (r, w') \<Longrightarrow> audit_free (store w') = audit_free (store w)"
  by (rule staysD [OF LogWithUser_stays])

lemma audit_free_idem [simp]: "audit_free (audit_free d) = audit_free d"
  by (simp add: audit_free_def)

lemma has_id_iff: "has_id i rs \<longleftrightarrow> (\<exists>r \<in> set rs. ID r = i)"
  by (auto simp: has_id_def list_ex_iff)

lemma has_id_map_ID: "has_id i rs \<longleftrightarrow> i \<in> set (map ID rs)"
  by (auto simp: has_id_iff)

lemma has_id_append [simp]: "has_id i (rs @ ss) \<longleftrightarrow> has_id i rs \<or> has_id i ss"
  by (auto simp: has_id_iff)

lemma has_id_Cons [simp]: "has_id i (r # rs) \<longleftrightarrow> ID r = i \<or> has_id i rs" "\<not> has_id i []"
  by (auto simp: has_id_iff)

end
