(* ===== verification/Demo.thy ===== *)
theory Demo
  imports Store
begin

text \<open>
  A small concrete database and world, on which the development shows that the hypotheses of its
  theorems can hold: one tenant, one user, one published event, two guests on its roster and an
  invitation for the first of them. Nothing fails, the clock shows the position, and fresh
  identifiers start at 100.
\<close>

definition demo_world :: "'d \<Rightarrow> 'd world" where
  "demo_world d = \<lparr>store = d, pos = 0, faults = (\<lambda>_. False), clock = int,
     fresh = (\<lambda>n. of_nat (n + 100)), entropy = (\<lambda>n. Some (\<lambda>k. of_nat (n + k)))\<rparr>"

definition demo_tenant :: tenant where
  "demo_tenant = \<lparr>ID = 1, CreatedAt = 0, UpdatedAt = 0, DeletedAt = None, t_Name = ''T'',
     t_Slug = ''t'', t_Description = None, t_LogoURL = None, t_PrimaryColor = ''#000000'',
     t_Settings = Some [], t_Status = ''active'', t_TrialEndsAt = None\<rparr>"

definition demo_user :: user where
  "demo_user = \<lparr>ID = 2, CreatedAt = 0, UpdatedAt = 0, DeletedAt = None, u_Email = ''u@x'',
     u_PasswordHash = [], u_FullName = ''U'', u_Phone = None, u_Position = None, u_Bio = None,
     u_AvatarURL = None, u_EmailVerifiedAt = None, u_MFAEnabled = False, u_MFASecret = None,
     u_Status = ''active''\<rparr>"

definition demo_event :: event where
  "demo_event = \<lparr>ID = 3, CreatedAt = 0, UpdatedAt = 0, DeletedAt = None, TenantID = 1,
     ev_Name = ''E'', ev_Type = ''wedding'', ev_Description = None, ev_CoverURL = None,
     ev_Status = EventStatusPublished, ev_StartDate = 1000, ev_EndDate = Some 2000,
     ev_RSVPDeadline = Some 900, ev_Capacity = Some 3, ev_GuestCount = 0, ev_TargetInvites = None,
     ev_TargetAttendance = None, ev_PrimaryLocationID = None, ev_DressCode = None,
     ev_PrivacyNotice = None, ev_GuestPolicy = None, ev_Settings = Some [],
     ev_SelfCheckinToken = ''self'', ev_CreatedBy = 2\<rparr>"

definition demo_guest :: "uuid \<Rightarrow> guest" where
  "demo_guest i = \<lparr>ID = i, CreatedAt = 0, UpdatedAt = 0, DeletedAt = None, TenantID = 1,
     g_FullName = ''G'', g_Nickname = None, g_Phone = None, g_Email = None, g_Address = None,
     g_City = None, g_Country = None, g_Language = ''id'', g_GuestType = ''regular'',
     g_Segment = None, g_Institution = None, g_Title = None, g_Relationship = None, g_PIC = None,
     g_AccessibilityNeeds = None, g_DietaryRestrictions = None, g_Allergies = None, g_Notes = None,
     g_ConsentCommunication = False, g_ConsentVersion = None, g_Source = None, g_IsActive = True,
     g_CreatedBy = 2, g_UpdatedBy = None\<rparr>"

definition demo_event_guest :: "uuid \<Rightarrow> uuid \<Rightarrow> event_guest" where
  "demo_event_guest i g = \<lparr>ID = i, CreatedAt = 0, UpdatedAt = 0, DeletedAt = None, TenantID = 1,
     EventID = 3, GuestID = g, eg_Status = EventGuestStatusActive, eg_Source = EventGuestSourceManual,
     eg_MaxPax = 2, eg_Adults = 1, eg_Children = 1, eg_PlusOneAllowed = True, eg_Notes = None,
     eg_CreatedBy = 2, eg_Guest = None\<rparr>"

definition demo_invitation :: invitation where
  "demo_invitation = \<lparr>ID = 8, CreatedAt = 0, UpdatedAt = 0, DeletedAt = None, TenantID = 1,
     EventID = 3, GuestID = 4, inv_EventGuestID = Some 6, inv_Token = ''tok'',
     inv_TokenHash = SHA256Hash ''tok'', inv_URL = ''/i/tok'', inv_MaxPax = 2, inv_Adults = 1,
     inv_Children = 1, inv_PlusOneAllowed = True, inv_PlusOneRequired = False,
     inv_Status = InvitationStatusSent, inv_SentAt = Some 0, inv_FailedReason = None,
     inv_OpenedAt = None, inv_RevokedAt = None, inv_RevokedBy = None, inv_RevokeReason = None,
     inv_ExpiresAt = None, inv_CreatedBy = 2\<rparr>"

definition demo_db :: db where
  "demo_db = \<lparr>tenants = [demo_tenant], users = [demo_user], tenant_users = [], event_members = [],
     refresh_tokens = [], auth_email_tokens = [], email_verification_tokens = [],
     events = [demo_event], guests = [demo_guest 4, demo_guest 5],
     event_guests = [demo_event_guest 6 4, demo_event_guest 7 5],
     invitations = [demo_invitation], credential_usage_log = [], rsvp_responses = [], checkins = [],
     checkin_gates = [], venue_zones = [], seat_tables = [], seat_assignments = [],
     households = [], household_members = [], guest_gifts = [], plans = [], subscriptions = [],
     payments = [], communication_templates = [], communication_campaigns = [], communication_messages = [],
     audit_logs = []\<rparr>"

lemma demo_world_simps [simp]:
  "store (demo_world d) = d" "pos (demo_world d) = 0" "faults (demo_world d) = (\<lambda>_. False)"
  "clock (demo_world d) = int" "fresh (demo_world d) = (\<lambda>n. of_nat (n + 100))"
  "entropy (demo_world d) = (\<lambda>n. Some (\<lambda>k. of_nat (n + k)))"
  by (simp_all add: demo_world_def)

lemmas demo_defs = demo_db_def demo_tenant_def demo_user_def demo_event_def demo_guest_def
  demo_event_guest_def demo_invitation_def

text \<open>The rows of the demo tables by their keys; the tables themselves.\<close>

lemma demo_tables [simp]:
  "tenants demo_db = [demo_tenant]" "users demo_db = [demo_user]" "tenant_users demo_db = []"
  "event_members demo_db = []" "refresh_tokens demo_db = []"
  "auth_email_tokens demo_db = []" "email_verification_tokens demo_db = []" "events demo_db = [demo_event]"
  "guests demo_db = [demo_guest 4, demo_guest 5]"
  "event_guests demo_db = [demo_event_guest 6 4, demo_event_guest 7 5]"
  "invitations demo_db = [demo_invitation]" "credential_usage_log demo_db = []"
  "rsvp_responses demo_db = []" "checkins demo_db = []" "checkin_gates demo_db = []"
  "venue_zones demo_db = []" "seat_tables demo_db = []" "seat_assignments demo_db = []"
  "households demo_db = []"
  "household_members demo_db = []"
  "guest_gifts demo_db = []"
  "plans demo_db = []"
  "subscriptions demo_db = []"
  "payments demo_db = []"
  "communication_templates demo_db = []"
  "communication_campaigns demo_db = []"
  "communication_messages demo_db = []"
  "audit_logs demo_db = []"
  by (simp_all add: demo_db_def)

text \<open>The definitions that evaluate a run on a concrete world.\<close>

lemmas go_eval = go_bind_run go_try_run go_ignore_def go_guard_def get_one_def query_def exec_def
  exec_rows_def now_def uuid_New_def sql_update_def NewBase_def LogWithUser_def
  AuditRepository_Create_def Let_def

lemma run_pair: "fst (m w) = x \<Longrightarrow> m w = (x, snd (m w))"
  by (metis prod.collapse)

end
