(* ===== verification/Events.thy ===== *)
theory Events
  imports Demo
begin

text \<open>
  Events: \<open>EventRepository\<close> (\<open>internal/repository/event_repository.go\<close>) and \<open>EventService\<close>
  (\<open>internal/service/event_service.go\<close>). The lemmas show that the dates, types and statuses of
  the stored events stay consistent under every operation, that an event that is completed or
  cancelled is never modified again, that an operation for one tenant leaves the events of
  every other tenant alone, and what publishing and listing return.
\<close>

section \<open>The repository\<close>

text \<open>The derived column \<open>guest_count\<close>: the active live roster entries of the event.\<close>

definition with_guest_count :: "db \<Rightarrow> event \<Rightarrow> event" where
  "with_guest_count d e = e\<lparr>ev_GuestCount := int (count_where (\<lambda>eg. EventID eg = ID e
     \<and> TenantID eg = TenantID e \<and> eg_Status eg = EventGuestStatusActive \<and> live eg)
     (event_guests d))\<rparr>"

text \<open>The condition \<open>id = $1 AND tenant_id = $2 AND deleted_at IS NULL\<close>.\<close>

definition event_key :: "uuid \<Rightarrow> uuid \<Rightarrow> event \<Rightarrow> bool" where
  "event_key i t r \<longleftrightarrow> ID r = i \<and> TenantID r = t \<and> live r"

definition EventRepository_Create :: "event \<Rightarrow> unit app" where
  "EventRepository_Create e = go_bind (exec (insert_event e)) (\<lambda>_. go_ret ())"

definition EventRepository_GetByID :: "uuid \<Rightarrow> event app" where
  "EventRepository_GetByID i = get_one ErrEventNotFound (\<lambda>d. map_option (with_guest_count d)
     (find (\<lambda>e. ID e = i \<and> live e) (events d)))"

definition EventRepository_GetByIDForTenant :: "uuid \<Rightarrow> uuid \<Rightarrow> event app" where
  "EventRepository_GetByIDForTenant i t = get_one ErrEventNotFound
     (\<lambda>d. map_option (with_guest_count d)
        (find (event_key i t) (events d)))"

definition EventRepository_GetBySelfCheckinToken :: "string \<Rightarrow> event app" where
  "EventRepository_GetBySelfCheckinToken token = get_one ErrEventNotFound
     (\<lambda>d. map_option (with_guest_count d)
        (find (\<lambda>e. ev_SelfCheckinToken e = token \<and> live e) (events d)))"

text \<open>The conditions that \<open>buildListQuery\<close> and \<open>buildCountQuery\<close> join with \<open>AND\<close>.\<close>

definition event_matches :: "uuid \<Rightarrow> event_filter \<Rightarrow> event \<Rightarrow> bool" where
  "event_matches t f e \<longleftrightarrow> TenantID e = t \<and> live e
     \<and> (ef_Status f = [] \<or> ev_Status e = ef_Status f)
     \<and> (ef_Type f = [] \<or> ev_Type e = ef_Type f)
     \<and> (case ef_StartFrom f of None \<Rightarrow> True | Some s \<Rightarrow> s \<le> ev_StartDate e)
     \<and> (case ef_StartTo f of None \<Rightarrow> True | Some s \<Rightarrow> ev_StartDate e \<le> s)"

text \<open>
  \<open>buildListQuery\<close>: newest first; no \<open>LIMIT\<close> without a positive \<open>PerPage\<close>, no \<open>OFFSET\<close> without a
  positive page. The server rejects a negative \<open>OFFSET\<close>, which a product that wraps gives.
\<close>

definition buildListQuery :: "uuid \<Rightarrow> event_filter \<Rightarrow> db \<Rightarrow> event list option" where
  "buildListQuery t f d =
     (let rows = map (with_guest_count d)
                   (sort_key (\<lambda>e. - ev_StartDate e) (filter (event_matches t f) (events d)));
          off = (if 0 < ef_Page f then i64 ((ef_Page f - 1) * ef_PerPage f) else 0)
      in if ef_PerPage f \<le> 0 then Some rows
         else if off < 0 then None
         else Some (limit_offset (ef_PerPage f) off rows))"

definition buildCountQuery :: "uuid \<Rightarrow> event_filter \<Rightarrow> db \<Rightarrow> int" where
  "buildCountQuery t f d = int (count_where (event_matches t f) (events d))"

definition EventRepository_ListByTenant :: "uuid \<Rightarrow> event_filter \<Rightarrow> event list app" where
  "EventRepository_ListByTenant t f = get_one ErrDB (buildListQuery t f)"

definition EventRepository_CountByTenant :: "uuid \<Rightarrow> event_filter \<Rightarrow> int app" where
  "EventRepository_CountByTenant t f = query (buildCountQuery t f)"

text \<open>The \<open>SET\<close> list of \<open>Update\<close>: empty strings and nulls keep the stored value.\<close>

definition merge_event :: "event \<Rightarrow> event \<Rightarrow> event" where
  "merge_event e r = r\<lparr>
     ev_Name := (if ev_Name e = [] then ev_Name r else ev_Name e),
     ev_Type := (if ev_Type e = [] then ev_Type r else ev_Type e),
     ev_Description := coalesce (ev_Description e) (ev_Description r),
     ev_CoverURL := coalesce (ev_CoverURL e) (ev_CoverURL r),
     ev_Status := (if ev_Status e = [] then ev_Status r else ev_Status e),
     ev_StartDate := ev_StartDate e,
     ev_EndDate := coalesce (ev_EndDate e) (ev_EndDate r),
     ev_RSVPDeadline := coalesce (ev_RSVPDeadline e) (ev_RSVPDeadline r),
     ev_Capacity := coalesce (ev_Capacity e) (ev_Capacity r),
     ev_TargetInvites := coalesce (ev_TargetInvites e) (ev_TargetInvites r),
     ev_TargetAttendance := coalesce (ev_TargetAttendance e) (ev_TargetAttendance r),
     ev_PrimaryLocationID := coalesce (ev_PrimaryLocationID e) (ev_PrimaryLocationID r),
     ev_DressCode := coalesce (ev_DressCode e) (ev_DressCode r),
     ev_PrivacyNotice := coalesce (ev_PrivacyNotice e) (ev_PrivacyNotice r),
     ev_GuestPolicy := coalesce (ev_GuestPolicy e) (ev_GuestPolicy r),
     ev_Settings := coalesce (ev_Settings e) (ev_Settings r),
     UpdatedAt := UpdatedAt e\<rparr>"

definition EventRepository_Update :: "event \<Rightarrow> unit app" where
  "EventRepository_Update e = exec_rows ErrEventNotFound (\<lambda>srv d.
     if \<not> int4_opt (ev_Capacity e) \<or> \<not> int4_opt (ev_TargetInvites e)
        \<or> \<not> int4_opt (ev_TargetAttendance e)
     then None else Some (sql_update events put_events (event_key (ID e) (TenantID e)) (merge_event e) d))"

definition EventRepository_SoftDelete :: "uuid \<Rightarrow> uuid \<Rightarrow> unit app" where
  "EventRepository_SoftDelete i t = exec_rows ErrEventNotFound (\<lambda>srv d.
     Some (sql_update events put_events (event_key i t)
       (\<lambda>r. r\<lparr>DeletedAt := Some (fst srv), UpdatedAt := fst srv\<rparr>) d))"

definition EventRepository_UpdateStatus :: "uuid \<Rightarrow> uuid \<Rightarrow> string \<Rightarrow> unit app" where
  "EventRepository_UpdateStatus i t status = exec_rows ErrEventNotFound (\<lambda>srv d.
     Some (sql_update events put_events (event_key i t)
       (\<lambda>r. r\<lparr>ev_Status := status, UpdatedAt := fst srv\<rparr>) d))"

section \<open>The service\<close>

text \<open>
  The struct keeps the billing service it asks for the subscription's \<open>MaxEvents\<close>; it may be nil.
  \<open>NewEventService\<close> takes one and does not store it.
\<close>

type_synonym subscription_source = "uuid \<Rightarrow> int option app"

record event_service =
  es_billingSvc :: "subscription_source option"

definition NewEventService :: "subscription_source option \<Rightarrow> event_service" where
  "NewEventService billingSvc = \<lparr>es_billingSvc = None\<rparr>"

abbreviation no_event_filter :: event_filter where
  "no_event_filter \<equiv> \<lparr>ef_Status = [], ef_Type = [], ef_StartFrom = None, ef_StartTo = None,
     ef_Page = 0, ef_PerPage = 0\<rparr>"

text \<open>The quota check at the head of \<open>Create\<close>; its own errors are dropped.\<close>

definition check_event_quota :: "event_service \<Rightarrow> uuid \<Rightarrow> unit app" where
  "check_event_quota s tenantID =
     (case es_billingSvc s of None \<Rightarrow> go_ret ()
      | Some status \<Rightarrow> go_try (status tenantID) (\<lambda>sub.
          case sub of Inr (Some maxEvents) \<Rightarrow>
            go_try (EventRepository_CountByTenant tenantID no_event_filter) (\<lambda>cnt.
              case cnt of Inr n \<Rightarrow> go_guard (maxEvents \<le> n) ErrQuotaExceeded (go_ret ())
                        | Inl _ \<Rightarrow> go_ret ())
          | _ \<Rightarrow> go_ret ()))"

definition dates_ok :: "time \<Rightarrow> time option \<Rightarrow> time option \<Rightarrow> bool" where
  "dates_ok start endd deadline \<longleftrightarrow>
     (case endd of None \<Rightarrow> True | Some t \<Rightarrow> start \<le> t)
     \<and> (case deadline of None \<Rightarrow> True | Some t \<Rightarrow> t \<le> start)"

definition new_event :: "uuid \<Rightarrow> time \<Rightarrow> uuid \<Rightarrow> uuid \<Rightarrow> event_create_request \<Rightarrow> event" where
  "new_event i t tenantID userID req =
     \<lparr>ID = i, CreatedAt = t, UpdatedAt = t, DeletedAt = None, TenantID = tenantID,
      ev_Name = ecr_Name req, ev_Type = ecr_Type req, ev_Description = opt_str (ecr_Description req),
      ev_CoverURL = None, ev_Status = EventStatusDraft, ev_StartDate = ecr_StartDate req,
      ev_EndDate = ecr_EndDate req, ev_RSVPDeadline = ecr_RSVPDeadline req,
      ev_Capacity = ecr_Capacity req, ev_GuestCount = 0, ev_TargetInvites = ecr_TargetInvites req,
      ev_TargetAttendance = ecr_TargetAttendance req, ev_PrimaryLocationID = None,
      ev_DressCode = opt_str (ecr_DressCode req), ev_PrivacyNotice = opt_str (ecr_PrivacyNotice req),
      ev_GuestPolicy = opt_str (ecr_GuestPolicy req), ev_Settings = Some [],
      ev_SelfCheckinToken = [], ev_CreatedBy = userID\<rparr>"

definition EventService_Create ::
  "event_service \<Rightarrow> uuid \<Rightarrow> uuid \<Rightarrow> event_create_request \<Rightarrow> event app" where
  "EventService_Create s tenantID userID req =
     go_bind (check_event_quota s tenantID) (\<lambda>_.
     go_guard (\<not> IsValidEventType (ecr_Type req)) ErrInvalidInput (
     go_guard (\<not> dates_ok (ecr_StartDate req) (ecr_EndDate req) (ecr_RSVPDeadline req)) ErrInvalidInput (
     go_bind NewBase (\<lambda>(i, t).
       let event = new_event i t tenantID userID req in
       go_bind (EventRepository_Create event) (\<lambda>_.
       go_ignore (LogWithUser userID tenantID AuditActionCreate EntityTypeEvent i None
         (Some [(''name'', JString (ecr_Name req)), (''type'', JString (ecr_Type req)),
                (''start_date'', JTime (ecr_StartDate req))]))
       (go_ret event))))))"

definition EventService_Get :: "uuid \<Rightarrow> uuid \<Rightarrow> event app" where
  "EventService_Get tenantID eventID = EventRepository_GetByIDForTenant eventID tenantID"

definition EventService_GetBySelfCheckinToken :: "string \<Rightarrow> event app" where
  "EventService_GetBySelfCheckinToken token = EventRepository_GetBySelfCheckinToken token"

text \<open>The pagination defaults of \<open>List\<close>.\<close>

definition normalize_filter :: "event_filter \<Rightarrow> event_filter" where
  "normalize_filter f = f\<lparr>ef_Page := (if ef_Page f \<le> 0 then 1 else ef_Page f),
     ef_PerPage := (if ef_PerPage f \<le> 0 then 20 else if 100 < ef_PerPage f then 100
                    else ef_PerPage f)\<rparr>"

definition EventService_List :: "uuid \<Rightarrow> event_filter \<Rightarrow> (event list \<times> int) app" where
  "EventService_List tenantID f =
     (let f = normalize_filter f in
      go_bind (EventRepository_ListByTenant tenantID f) (\<lambda>es.
      go_bind (EventRepository_CountByTenant tenantID f) (\<lambda>total.
      go_ret (es, total))))"

text \<open>The field-by-field application of an update request.\<close>

definition apply_event_update :: "event_update_request \<Rightarrow> event \<Rightarrow> event" where
  "apply_event_update req e = e\<lparr>
     ev_Name := (if eur_Name req = [] then ev_Name e else eur_Name req),
     ev_Type := (if eur_Type req = [] then ev_Type e else eur_Type req),
     ev_Description := set_str (eur_Description req) (ev_Description e),
     ev_Status := (if eur_Status req = [] then ev_Status e else eur_Status req),
     ev_StartDate := (case eur_StartDate req of None \<Rightarrow> ev_StartDate e | Some t \<Rightarrow> t),
     ev_EndDate := coalesce (eur_EndDate req) (ev_EndDate e),
     ev_RSVPDeadline := coalesce (eur_RSVPDeadline req) (ev_RSVPDeadline e),
     ev_Capacity := coalesce (eur_Capacity req) (ev_Capacity e),
     ev_TargetInvites := coalesce (eur_TargetInvites req) (ev_TargetInvites e),
     ev_TargetAttendance := coalesce (eur_TargetAttendance req) (ev_TargetAttendance e),
     ev_DressCode := set_str (eur_DressCode req) (ev_DressCode e),
     ev_PrivacyNotice := set_str (eur_PrivacyNotice req) (ev_PrivacyNotice e),
     ev_GuestPolicy := set_str (eur_GuestPolicy req) (ev_GuestPolicy e),
     ev_Settings := coalesce (eur_Settings req) (ev_Settings e)\<rparr>"

definition EventService_Update ::
  "uuid \<Rightarrow> uuid \<Rightarrow> uuid \<Rightarrow> event_update_request \<Rightarrow> event app" where
  "EventService_Update tenantID userID eventID req =
     go_bind (EventRepository_GetByIDForTenant eventID tenantID) (\<lambda>old.
     go_guard (ev_Status old = EventStatusCompleted \<or> ev_Status old = EventStatusCancelled)
       ErrEventCannotModify (
     go_guard (eur_Type req \<noteq> [] \<and> \<not> IsValidEventType (eur_Type req)) ErrInvalidInput (
     go_guard (eur_Status req \<noteq> [] \<and> \<not> IsValidEventStatus (eur_Status req)) ErrInvalidInput (
     let event = apply_event_update req old in
     go_guard (\<not> dates_ok (ev_StartDate event) (ev_EndDate event) (ev_RSVPDeadline event))
       ErrInvalidInput (
     go_bind now (\<lambda>t. let event = event\<lparr>UpdatedAt := t\<rparr> in
       go_bind (EventRepository_Update event) (\<lambda>_.
       go_ignore (LogWithUser userID tenantID AuditActionUpdate EntityTypeEvent eventID None
         (Some [(''name'', JString (ev_Name event)), (''status'', JString (ev_Status event)),
                (''type'', JString (ev_Type event))]))
       (go_ret event))))))))"

definition EventService_Publish :: "uuid \<Rightarrow> uuid \<Rightarrow> uuid \<Rightarrow> event app" where
  "EventService_Publish tenantID userID eventID =
     go_bind (EventRepository_GetByIDForTenant eventID tenantID) (\<lambda>event.
     go_guard (ev_Status event \<noteq> EventStatusDraft) ErrEventInvalidStatusTransition (
     go_guard (ev_Name event = []) ErrInvalidInput (
     go_guard (ev_Type event = []) ErrInvalidInput (
     go_guard (ev_StartDate event = zero_time) ErrInvalidInput (
     go_bind (EventRepository_UpdateStatus eventID tenantID EventStatusPublished) (\<lambda>_.
     go_bind (EventRepository_GetByIDForTenant eventID tenantID) (\<lambda>event'.
     go_ignore (LogWithUser userID tenantID AuditActionUpdate EntityTypeEvent eventID
       (Some [(''status'', JString EventStatusDraft)])
       (Some [(''status'', JString EventStatusPublished)]))
     (go_ret event'))))))))"

definition EventService_SoftDelete :: "uuid \<Rightarrow> uuid \<Rightarrow> uuid \<Rightarrow> unit app" where
  "EventService_SoftDelete tenantID userID eventID =
     go_bind (EventRepository_GetByIDForTenant eventID tenantID) (\<lambda>event.
     go_guard (ev_Status event = EventStatusOngoing) ErrEventCannotDelete (
     go_bind (EventRepository_SoftDelete eventID tenantID) (\<lambda>_.
     go_ignore (LogWithUser userID tenantID AuditActionDelete EntityTypeEvent eventID
       (Some [(''name'', JString (ev_Name event)), (''status'', JString (ev_Status event))]) None)
     (go_ret ()))))"

section \<open>The abstract lifecycle\<close>

text \<open>
  What the component promises of the table of events, free of its queries: one call on behalf of
  tenant \<open>t\<close> does nothing, adds a draft, edits one live event of \<open>t\<close> that is neither completed nor
  cancelled, or deletes one live event of \<open>t\<close> that is not ongoing.
\<close>

definition event_dates :: "event \<Rightarrow> bool" where
  "event_dates e = dates_ok (ev_StartDate e) (ev_EndDate e) (ev_RSVPDeadline e)"

definition same_identity :: "event \<Rightarrow> event \<Rightarrow> bool" where
  "same_identity r r' \<longleftrightarrow> ID r' = ID r \<and> TenantID r' = TenantID r \<and> CreatedAt r' = CreatedAt r
     \<and> ev_CreatedBy r' = ev_CreatedBy r \<and> ev_SelfCheckinToken r' = ev_SelfCheckinToken r
     \<and> DeletedAt r' = DeletedAt r"

definition same_dates :: "event \<Rightarrow> event \<Rightarrow> bool" where
  "same_dates r r' \<longleftrightarrow> ev_StartDate r' = ev_StartDate r \<and> ev_EndDate r' = ev_EndDate r
     \<and> ev_RSVPDeadline r' = ev_RSVPDeadline r"

definition terminal :: "event \<Rightarrow> bool" where
  "terminal e \<longleftrightarrow> ev_Status e = EventStatusCompleted \<or> ev_Status e = EventStatusCancelled"

inductive event_spec :: "uuid \<Rightarrow> event list \<Rightarrow> event list \<Rightarrow> bool" for t where
  nothing: "event_spec t es es"
| created: "ID e \<notin> ID ` set es \<Longrightarrow> TenantID e = t \<Longrightarrow> live e \<Longrightarrow> ev_Status e = EventStatusDraft \<Longrightarrow>
    IsValidEventType (ev_Type e) \<Longrightarrow> event_dates e \<Longrightarrow> event_spec t es (es @ [e])"
| edited: "live r \<Longrightarrow> TenantID r = t \<Longrightarrow> \<not> terminal r \<Longrightarrow> same_identity r r' \<Longrightarrow>
    ev_Type r' = ev_Type r \<or> IsValidEventType (ev_Type r') \<Longrightarrow>
    ev_Status r' = ev_Status r \<or> IsValidEventStatus (ev_Status r') \<Longrightarrow>
    same_dates r r' \<or> event_dates r' \<Longrightarrow> event_spec t (xs @ r # ys) (xs @ r' # ys)"
| deleted: "live r \<Longrightarrow> TenantID r = t \<Longrightarrow> ev_Status r \<noteq> EventStatusOngoing \<Longrightarrow>
    event_spec t (xs @ r # ys) (xs @ r\<lparr>DeletedAt := Some tm, UpdatedAt := tm\<rparr> # ys)"

text \<open>The invariant of the table.\<close>

definition event_row_ok :: "event \<Rightarrow> bool" where
  "event_row_ok e \<longleftrightarrow>
     IsValidEventType (ev_Type e) \<and> IsValidEventStatus (ev_Status e) \<and> event_dates e"

definition events_ok :: "event list \<Rightarrow> bool" where
  "events_ok es \<longleftrightarrow> distinct (map ID es) \<and> (\<forall>e \<in> set es. event_row_ok e)"

text \<open>The calls of the service that may write, and one call of them.\<close>

datatype event_call =
    CreateEvent event_create_request
  | UpdateEvent uuid event_update_request
  | PublishEvent uuid
  | DeleteEvent uuid

definition serve_event :: "event_service \<Rightarrow> uuid \<Rightarrow> uuid \<Rightarrow> event_call \<Rightarrow> unit app" where
  "serve_event s tenantID userID c = (case c of
      CreateEvent req \<Rightarrow> go_bind (EventService_Create s tenantID userID req) (\<lambda>_. go_ret ())
    | UpdateEvent i req \<Rightarrow> go_bind (EventService_Update tenantID userID i req) (\<lambda>_. go_ret ())
    | PublishEvent i \<Rightarrow> go_bind (EventService_Publish tenantID userID i) (\<lambda>_. go_ret ())
    | DeleteEvent i \<Rightarrow> EventService_SoftDelete tenantID userID i)"

section \<open>Runs of the operations\<close>

lemma find_event_key:
  "find (event_key i t) es = Some e \<Longrightarrow> e \<in> set es \<and> ID e = i \<and> TenantID e = t \<and> live e"
  by (drule find_Some_D) (simp add: event_key_def)

lemma coalesce_simps [simp]:
  "coalesce (coalesce a b) b = coalesce a b" "coalesce b b = b"
  by (auto simp: coalesce_def split: option.split)

lemma set_str_simps [simp]:
  "coalesce (set_str s b) b = set_str s b"
  "(if (if s = [] then x else s) = [] then x else if s = [] then x else s)
     = (if s = [] then x else s)"
  by (auto simp: coalesce_def set_str_def split: option.split)

lemma merge_apply:
  "merge_event ((apply_event_update req (with_guest_count d r))\<lparr>UpdatedAt := t\<rparr>) r =
     (apply_event_update req r)\<lparr>UpdatedAt := t\<rparr>"
  by (rule event.equality) (simp_all add: merge_event_def apply_event_update_def
      with_guest_count_def split: option.split)

lemma with_guest_count_sel [simp]:
  "ID (with_guest_count d e) = ID e" "TenantID (with_guest_count d e) = TenantID e"
  "DeletedAt (with_guest_count d e) = DeletedAt e"
  "ev_Name (with_guest_count d e) = ev_Name e" "ev_Type (with_guest_count d e) = ev_Type e"
  "ev_Status (with_guest_count d e) = ev_Status e" "ev_StartDate (with_guest_count d e) = ev_StartDate e"
  "ev_EndDate (with_guest_count d e) = ev_EndDate e"
  "ev_RSVPDeadline (with_guest_count d e) = ev_RSVPDeadline e"
  "ev_Capacity (with_guest_count d e) = ev_Capacity e"
  by (simp_all add: with_guest_count_def)

lemma GetByIDForTenant_Inr [go_run]:
  "EventRepository_GetByIDForTenant i t w = (Inr e, w') \<longleftrightarrow> \<not> faults w (pos w) \<and> w' = tick w \<and>
     (\<exists>r. find (event_key i t) (events (store w)) = Some r \<and> e = with_guest_count (store w) r)"
  by (auto simp: EventRepository_GetByIDForTenant_def go_run)

lemma GetByIDForTenant_Inl [go_run]:
  "EventRepository_GetByIDForTenant i t w = (Inl e, w') \<longleftrightarrow> w' = tick w \<and>
     (if faults w (pos w) then e = ErrDB
      else find (event_key i t) (events (store w)) = None \<and> e = ErrEventNotFound)"
  by (auto simp: EventRepository_GetByIDForTenant_def go_run)

lemma check_event_quota_store:
  assumes "es_billingSvc s = None" and "check_event_quota s t w = (r, w')"
  shows "r = Inr () \<and> w' = w"
  using assms by (simp add: check_event_quota_def)

text \<open>Every write of the component, as its effect on the table.\<close>

lemma EventRepository_Update_run:
  assumes "EventRepository_Update e w = (Inr u, w')"
  shows "w' = (tick w)\<lparr>store := put_events (update_where (event_key (ID e) (TenantID e))
      (merge_event e) (events (store w))) (store w)\<rparr>"
  using assms
  by (auto simp: EventRepository_Update_def exec_rows_Inr sql_update_def split: if_splits)

lemma EventRepository_Update_fails:
  "EventRepository_Update e w = (Inl e', w') \<Longrightarrow> store w' = store w"
  unfolding EventRepository_Update_def by (rule events_table.update_keeps)

lemma quota_never [go_run]:
  "check_event_quota (NewEventService b) t w = (r, w') \<longleftrightarrow> r = Inr () \<and> w' = w"
  by (auto simp: check_event_quota_def NewEventService_def)

lemma audit_events: "LogWithUser u t a et ei ov nv w = (r, w') \<Longrightarrow> events (store w') = events (store w)"
  by (rule audit_free_tables) (rule LogWithUser_audit_free)

lemma insert_event_Some:
  assumes "insert_event e srv d = Some (n, d')"
  shows "\<not> has_id (ID e) (events d) \<and> d' = d\<lparr>events := events d @
      [e\<lparr>ev_GuestCount := 0, ev_SelfCheckinToken := uuid_hex (snd srv), DeletedAt := None\<rparr>]\<rparr>"
  using assms by (auto simp: insert_event_def Let_def split: if_splits)

lemma insert_event_run:
  assumes "EventRepository_Create e w = (r, w')"
  shows "case r of Inl _ \<Rightarrow> store w' = store w
    | Inr _ \<Rightarrow> \<not> has_id (ID e) (events (store w)) \<and> (\<exists>token. store w' = (store w)\<lparr>events :=
        events (store w) @ [e\<lparr>ev_GuestCount := 0, ev_SelfCheckinToken := token, DeletedAt := None\<rparr>]\<rparr>)"
  using assms by (cases r)
    (auto simp: EventRepository_Create_def go_run dest!: insert_event_Some)

lemma Create_refines:
  assumes "EventService_Create (NewEventService b) t u req w = (r, w')"
  shows "event_spec t (events (store w)) (events (store w'))"
proof (cases "IsValidEventType (ecr_Type req) \<and>
    dates_ok (ecr_StartDate req) (ecr_EndDate req) (ecr_RSVPDeadline req)")
  case False
  then have "w' = w" using assms by (cases r) (auto simp: EventService_Create_def go_run split: if_splits)
  then show ?thesis by (simp add: event_spec.nothing)
next
  case True
  define e where "e = new_event (fresh w (Suc (pos w))) (clock w (pos w)) t u req"
  obtain q v where ins: "EventRepository_Create e (tick (tick w)) = (q, v)" by force
  have v: "events (store w') = events (store v)"
    using assms True ins
    by (cases r) (auto simp: EventService_Create_def go_run e_def Let_def split: if_splits dest: audit_events)
  show ?thesis
  proof (cases q)
    case Inl
    with insert_event_run [OF ins] v show ?thesis by (simp add: event_spec.nothing)
  next
    case (Inr x)
    with insert_event_run [OF ins] obtain token where
      new: "\<not> has_id (ID e) (events (store w))" and
      "events (store v) = events (store w) @
        [e\<lparr>ev_GuestCount := 0, ev_SelfCheckinToken := token, DeletedAt := None\<rparr>]"
      by auto
    with True v show ?thesis
      by (auto simp: e_def new_event_def has_id_iff event_dates_def intro!: event_spec.created)
  qed
qed

lemma apply_event_update_sel:
  "ID (apply_event_update req e) = ID e" "TenantID (apply_event_update req e) = TenantID e"
  "DeletedAt (apply_event_update req e) = DeletedAt e"
  by (simp_all add: apply_event_update_def)

lemma apply_dates_count:
  "event_dates (apply_event_update req (with_guest_count d e)) = event_dates (apply_event_update req e)"
  "event_dates (e\<lparr>UpdatedAt := tm\<rparr>) = event_dates e"
  by (simp_all add: event_dates_def apply_event_update_def split: option.split)

text \<open>An update that changes the table has passed every guard.\<close>

lemma Update_changes:
  assumes run: "EventService_Update t u i req w = (r, w')"
    and "events (store w') \<noteq> events (store w)"
  obtains old tm where "find (event_key i t) (events (store w)) = Some old" "\<not> terminal old"
    "eur_Type req = [] \<or> IsValidEventType (eur_Type req)"
    "eur_Status req = [] \<or> IsValidEventStatus (eur_Status req)"
    "event_dates ((apply_event_update req old)\<lparr>UpdatedAt := tm\<rparr>)"
    "events (store w') = update_where (event_key i t)
      (merge_event ((apply_event_update req (with_guest_count (store w) old))\<lparr>UpdatedAt := tm\<rparr>))
      (events (store w))"
proof -
  have "find (event_key i t) (events (store w)) = None \<Longrightarrow> w' = tick w"
    using run by (cases r) (auto simp: EventService_Update_def go_bind_Inl go_bind_Inr
        GetByIDForTenant_Inr GetByIDForTenant_Inl)
  with assms(2) obtain old where old: "find (event_key i t) (events (store w)) = Some old"
    by fastforce
  define e where "e = (apply_event_update req (with_guest_count (store w) old))
    \<lparr>UpdatedAt := clock w (Suc (pos w))\<rparr>"
  obtain q v where upd: "EventRepository_Update e (tick (tick w)) = (q, v)" by force
  have ok: "\<not> terminal old \<and> (eur_Type req = [] \<or> IsValidEventType (eur_Type req)) \<and>
    (eur_Status req = [] \<or> IsValidEventStatus (eur_Status req)) \<and>
    event_dates (apply_event_update req (with_guest_count (store w) old)) \<and>
    events (store w') = events (store v)"
    using assms old upd
    by (cases r) (auto simp: EventService_Update_def go_run Let_def terminal_def event_dates_def e_def
        split: if_splits dest: audit_events)
  show thesis
  proof (cases q)
    case Inl
    then show thesis using EventRepository_Update_fails [of e] upd ok assms(2) by auto
  next
    case (Inr x)
    have "ID e = i" "TenantID e = t"
      using find_event_key [OF old] by (auto simp: e_def apply_event_update_sel)
    with Inr upd have "events (store v) = update_where (event_key i t) (merge_event e) (events (store w))"
      by (auto dest: EventRepository_Update_run)
    with ok old show thesis by (intro that [of old]) (auto simp: e_def apply_dates_count)
  qed
qed

lemma Update_refines:
  assumes run: "EventService_Update t u i req w = (r, w')"
    and pk: "distinct (map ID (events (store w)))"
  shows "event_spec t (events (store w)) (events (store w'))"
proof (cases "events (store w') = events (store w)")
  case False
  then obtain old tm where
    old: "find (event_key i t) (events (store w)) = Some old" "\<not> terminal old"
      "eur_Type req = [] \<or> IsValidEventType (eur_Type req)"
      "eur_Status req = [] \<or> IsValidEventStatus (eur_Status req)"
      "event_dates ((apply_event_update req old)\<lparr>UpdatedAt := tm\<rparr>)"
    and ev: "events (store w') = update_where (event_key i t)
        (merge_event ((apply_event_update req (with_guest_count (store w) old))\<lparr>UpdatedAt := tm\<rparr>))
        (events (store w))"
    using Update_changes [OF run False] by blast
  from find_event_key [OF old(1)] have mem: "old \<in> set (events (store w))"
    and key: "event_key i t old" by (auto simp: event_key_def)
  obtain xs ys where es: "events (store w) = xs @ old # ys"
    and upd: "events (store w') = xs @ (apply_event_update req old)\<lparr>UpdatedAt := tm\<rparr> # ys"
    by (rule update_where_unique [where k = ID and p = "event_key i t" and f = "merge_event
        ((apply_event_update req (with_guest_count (store w) old))\<lparr>UpdatedAt := tm\<rparr>)", OF pk mem key])
      (use key ev in \<open>auto simp: event_key_def merge_apply\<close>)
  show ?thesis unfolding es upd
    using key old(2-5)
    by (intro event_spec.edited) (auto simp: event_key_def same_identity_def apply_event_update_def)
qed (simp add: event_spec.nothing)

text \<open>The two updates by key: one row changes, or nothing does.\<close>

lemma update_one_event:
  assumes "distinct (map ID (events d))" and "find (event_key i t) (events d) = Some r"
  obtains xs ys where "events d = xs @ r # ys"
    and "update_where (event_key i t) f (events d) = xs @ f r # ys"
  by (rule update_where_unique [OF assms(1), where p = "event_key i t" and r = r and f = f])
    (use find_Some_D [OF assms(2)] that in \<open>auto simp: event_key_def\<close>)

lemma UpdateStatus_Inr [go_run]:
  "EventRepository_UpdateStatus i t st w = (Inr u, w') \<longleftrightarrow> \<not> faults w (pos w) \<and>
     (\<exists>r \<in> set (events (store w)). event_key i t r) \<and>
     w' = (tick w)\<lparr>store := put_events (update_where (event_key i t)
       (\<lambda>r. r\<lparr>ev_Status := st, UpdatedAt := clock w (pos w)\<rparr>) (events (store w))) (store w)\<rparr>"
  by (simp add: EventRepository_UpdateStatus_def events_table.update_run)

lemma SoftDelete_Inr [go_run]:
  "EventRepository_SoftDelete i t w = (Inr u, w') \<longleftrightarrow> \<not> faults w (pos w) \<and>
     (\<exists>r \<in> set (events (store w)). event_key i t r) \<and>
     w' = (tick w)\<lparr>store := put_events (update_where (event_key i t)
       (\<lambda>r. r\<lparr>DeletedAt := Some (clock w (pos w)), UpdatedAt := clock w (pos w)\<rparr>)
       (events (store w))) (store w)\<rparr>"
  by (simp add: EventRepository_SoftDelete_def events_table.update_run)

lemma event_updates_Inl:
  "EventRepository_UpdateStatus i t st w = (Inl e, w') \<Longrightarrow> w' = tick w"
  "EventRepository_SoftDelete i t w = (Inl e, w') \<Longrightarrow> w' = tick w"
  by (simp_all add: EventRepository_UpdateStatus_def EventRepository_SoftDelete_def
      events_table.update_fails)

lemma Publish_changes:
  assumes run: "EventService_Publish t u i w = (r, w')"
    and "events (store w') \<noteq> events (store w)"
  shows "\<exists>old tm. find (event_key i t) (events (store w)) = Some old \<and>
    ev_Status old = EventStatusDraft \<and> ev_Name old \<noteq> [] \<and> ev_Type old \<noteq> [] \<and>
    events (store w') = update_where (event_key i t)
      (\<lambda>r. r\<lparr>ev_Status := EventStatusPublished, UpdatedAt := tm\<rparr>) (events (store w))"
  using assms
  by (cases r) (auto simp: EventService_Publish_def go_run split: if_splits
      dest!: event_updates_Inl audit_events)

lemma Publish_refines:
  assumes run: "EventService_Publish t u i w = (r, w')"
    and pk: "distinct (map ID (events (store w)))"
  shows "event_spec t (events (store w)) (events (store w'))"
proof (cases "events (store w') = events (store w)")
  case False
  with Publish_changes [OF run] obtain old tm where
    old: "find (event_key i t) (events (store w)) = Some old" "ev_Status old = EventStatusDraft"
    and ev: "events (store w') = update_where (event_key i t)
      (\<lambda>r. r\<lparr>ev_Status := EventStatusPublished, UpdatedAt := tm\<rparr>) (events (store w))" by blast
  obtain xs ys where "events (store w) = xs @ old # ys"
    and "events (store w') = xs @ old\<lparr>ev_Status := EventStatusPublished, UpdatedAt := tm\<rparr> # ys"
    unfolding ev by (rule update_one_event [OF pk old(1)])
  with old(2) find_event_key [OF old(1)] show ?thesis
    by (auto intro!: event_spec.edited simp: terminal_def same_identity_def same_dates_def
        IsValidEventStatus_iff ValidEventStatuses_def)
qed (simp add: event_spec.nothing)

lemma SoftDelete_changes:
  assumes run: "EventService_SoftDelete t u i w = (r, w')"
    and "events (store w') \<noteq> events (store w)"
  shows "\<exists>old tm. find (event_key i t) (events (store w)) = Some old \<and>
    ev_Status old \<noteq> EventStatusOngoing \<and>
    events (store w') = update_where (event_key i t)
      (\<lambda>r. r\<lparr>DeletedAt := Some tm, UpdatedAt := tm\<rparr>) (events (store w))"
  using assms
  by (cases r) (auto simp: EventService_SoftDelete_def go_run split: if_splits
      dest!: event_updates_Inl audit_events)

lemma SoftDelete_refines:
  assumes run: "EventService_SoftDelete t u i w = (r, w')"
    and pk: "distinct (map ID (events (store w)))"
  shows "event_spec t (events (store w)) (events (store w'))"
proof (cases "events (store w') = events (store w)")
  case False
  with SoftDelete_changes [OF run] obtain old tm where
    old: "find (event_key i t) (events (store w)) = Some old" "ev_Status old \<noteq> EventStatusOngoing"
    and ev: "events (store w') = update_where (event_key i t)
      (\<lambda>r. r\<lparr>DeletedAt := Some tm, UpdatedAt := tm\<rparr>) (events (store w))" by blast
  obtain xs ys where "events (store w) = xs @ old # ys"
    and "events (store w') = xs @ old\<lparr>DeletedAt := Some tm, UpdatedAt := tm\<rparr> # ys"
    unfolding ev by (rule update_one_event [OF pk old(1)])
  with old(2) find_event_key [OF old(1)] show ?thesis by (auto intro!: event_spec.deleted)
qed (simp add: event_spec.nothing)

section \<open>What the lifecycle guarantees\<close>

lemma events_ok_replace:
  assumes "events_ok (xs @ r # ys)" and "ID r' = ID r" and "event_row_ok r \<Longrightarrow> event_row_ok r'"
  shows "events_ok (xs @ r' # ys)"
  using assms by (auto simp: events_ok_def)

lemma event_spec_ok: "event_spec t es es' \<Longrightarrow> events_ok es \<Longrightarrow> events_ok es'"
proof (induction rule: event_spec.induct)
  case (created e es)
  then show ?case by (auto simp: events_ok_def event_row_ok_def IsValidEventStatus_iff ValidEventStatuses_def)
next
  case (edited r r' xs ys)
  show ?case
    by (rule events_ok_replace [OF edited(8)])
      (use edited(4-7) in \<open>auto simp: same_identity_def same_dates_def event_row_ok_def event_dates_def\<close>)
next
  case (deleted r xs ys tm)
  show ?case
    by (rule events_ok_replace [OF deleted(4)]) (auto simp: event_row_ok_def event_dates_def)
qed

lemma event_spec_terminal:
  "event_spec t es es' \<Longrightarrow> e \<in> set es \<Longrightarrow> terminal e \<Longrightarrow>
     \<exists>e' \<in> set es'. e' = e \<or> (\<exists>tm. e' = e\<lparr>DeletedAt := Some tm, UpdatedAt := tm\<rparr>)"
  by (induction rule: event_spec.induct) auto

lemma event_spec_tenant:
  "event_spec t es es' \<Longrightarrow> filter (\<lambda>e. TenantID e \<noteq> t) es' = filter (\<lambda>e. TenantID e \<noteq> t) es"
  by (induction rule: event_spec.induct) (auto simp: same_identity_def)

section \<open>Properties\<close>

lemma serve_event_cases:
  assumes "serve_event s t u c w = (r, w')"
  obtains (Create) req q where "c = CreateEvent req" "EventService_Create s t u req w = (q, w')"
  | (Update) i req q where "c = UpdateEvent i req" "EventService_Update t u i req w = (q, w')"
  | (Publish) i q where "c = PublishEvent i" "EventService_Publish t u i w = (q, w')"
  | (Delete) i q where "c = DeleteEvent i" "EventService_SoftDelete t u i w = (q, w')"
  using assms by (auto simp: serve_event_def go_bind_run split: event_call.splits prod.splits sum.splits)

lemma serve_event_spec:
  assumes "serve_event (NewEventService b) t u c w = (r, w')" and "distinct (map ID (events (store w)))"
  shows "event_spec t (events (store w)) (events (store w'))"
  using assms(1)
  by (cases rule: serve_event_cases)
    (use assms(2) in \<open>auto dest: Create_refines Update_refines Publish_refines SoftDelete_refines\<close>)

lemma serve_event_ok:
  assumes "events_ok (events (store w))"
  shows "events_ok (events (store (snd (serve_event (NewEventService b) t u c w))))"
proof -
  obtain r w' where run: "serve_event (NewEventService b) t u c w = (r, w')" by force
  have "event_spec t (events (store w)) (events (store w'))"
    using run assms by (intro serve_event_spec) (auto simp: events_ok_def)
  with run assms show ?thesis by (auto intro: event_spec_ok)
qed

lemma demo_events_ok: "events_ok (events demo_db)"
  by (simp add: events_ok_def event_row_ok_def demo_event_def event_dates_def dates_ok_def
      IsValidEventType_def ValidEventTypes_def IsValidEventStatus_def ValidEventStatuses_def)

text \<open>C3: refinement of the event lifecycle. Every call of the event service, whatever it returns
  and whichever statements fail on the way, changes the table of events by at most one step of the
  abstract lifecycle of the acting tenant.\<close>

theorem event_calls_refine_lifecycle:
  assumes "distinct (map ID (events (store w)))"
    and "serve_event (NewEventService b) tenantID userID c w = (r, w')"
  shows "event_spec tenantID (events (store w)) (events (store w'))"
  by (rule serve_event_spec [OF assms(2,1)])

lemma event_calls_refine_lifecycle_witness:
  "event_spec 1 [demo_event] (events (store (snd
     (serve_event (NewEventService None) 1 2 (DeleteEvent 3) (demo_world demo_db)))))"
  using event_calls_refine_lifecycle [of "demo_world demo_db" None 1 2 "DeleteEvent 3"
      "fst (serve_event (NewEventService None) 1 2 (DeleteEvent 3) (demo_world demo_db))"
      "snd (serve_event (NewEventService None) 1 2 (DeleteEvent 3) (demo_world demo_db))"]
  by simp

text \<open>the table of events stays consistent (distinct keys; every event has a valid type and
  status, does not end before it starts and has no RSVP deadline after its start) through every
  sequence of calls by any tenants and users, with any failures.\<close>

theorem events_stay_consistent:
  assumes "events_ok (events (store w))"
  shows "events_ok (events (store (serve_all
    (map (\<lambda>(tenantID, userID, c). serve_event (NewEventService b) tenantID userID c) calls) w)))"
  by (rule serve_all_keeps [where I = "\<lambda>d. events_ok (events d)"])
    (use assms in \<open>auto intro: serve_event_ok\<close>)

lemma events_stay_consistent_witness:
  "events_ok (events (store (serve_all
    (map (\<lambda>(tenantID, userID, c). serve_event (NewEventService None) tenantID userID c)
      [(1, 2, DeleteEvent 3), (1, 2, PublishEvent 3)]) (demo_world demo_db))))"
  by (rule events_stay_consistent) (simp add: demo_events_ok del: demo_tables)

lemma terminal_step:
  assumes ok: "events_ok (events (store v))" and e: "e \<in> set (events (store v))" "terminal e"
  shows "\<exists>e' \<in> set (events (store (snd (serve_event (NewEventService b) t u c v)))).
    e' = e \<or> (\<exists>tm. e' = e\<lparr>DeletedAt := Some tm, UpdatedAt := tm\<rparr>)"
proof -
  obtain r w' where run: "serve_event (NewEventService b) t u c v = (r, w')" by force
  have "event_spec t (events (store v)) (events (store w'))"
    using run ok by (intro serve_event_spec) (auto simp: events_ok_def)
  from event_spec_terminal [OF this e] run show ?thesis by simp
qed

lemma terminal_mark [simp]: "terminal (e\<lparr>DeletedAt := x, UpdatedAt := y\<rparr>) = terminal e"
  by (simp add: terminal_def)

text \<open>completed and cancelled are final. Through every sequence of calls an event in one of
  these statuses keeps every field, but for the deletion mark and its time.\<close>

theorem terminal_events_are_final:
  assumes "events_ok (events (store w))" and "e \<in> set (events (store w))" and "terminal e"
  shows "\<exists>e' \<in> set (events (store (serve_all
      (map (\<lambda>(tenantID, userID, c). serve_event (NewEventService b) tenantID userID c) calls) w))).
    e' = e \<or> (\<exists>tm. e' = e\<lparr>DeletedAt := Some tm, UpdatedAt := tm\<rparr>)"
proof -
  let ?I = "\<lambda>d. events_ok (events d) \<and>
    (\<exists>e' \<in> set (events d). e' = e \<or> (\<exists>tm. e' = e\<lparr>DeletedAt := Some tm, UpdatedAt := tm\<rparr>))"
  have "?I (store (serve_all
      (map (\<lambda>(tenantID, userID, c). serve_event (NewEventService b) tenantID userID c) calls) w))"
  proof (rule serve_all_keeps [where I = ?I])
    fix m and v :: "db world"
    assume "m \<in> set (map (\<lambda>(tenantID, userID, c). serve_event (NewEventService b) tenantID userID c) calls)"
      and I: "?I (store v)"
    then obtain t u c where m: "m = serve_event (NewEventService b) t u c" by auto
    from I obtain e1 where e1: "e1 \<in> set (events (store v))"
      "e1 = e \<or> (\<exists>tm. e1 = e\<lparr>DeletedAt := Some tm, UpdatedAt := tm\<rparr>)" by blast
    with assms(3) have "terminal e1" by auto
    from terminal_step [OF _ e1(1) this, of b t u c] I e1(2) show "?I (store (snd (m v)))"
      by (auto simp: m intro: serve_event_ok)
  qed (use assms in blast)
  then show ?thesis by blast
qed

definition cancelled_db :: db where
  "cancelled_db = demo_db\<lparr>events := [demo_event\<lparr>ev_Status := EventStatusCancelled\<rparr>]\<rparr>"

lemma terminal_events_are_final_witness:
  "\<exists>e' \<in> set (events (store (serve_all
      (map (\<lambda>(tenantID, userID, c). serve_event (NewEventService None) tenantID userID c)
        [(1, 2, PublishEvent 3), (1, 2, DeleteEvent 3)]) (demo_world cancelled_db)))).
    e' = demo_event\<lparr>ev_Status := EventStatusCancelled\<rparr> \<or>
    (\<exists>tm. e' = demo_event\<lparr>ev_Status := EventStatusCancelled, DeletedAt := Some tm, UpdatedAt := tm\<rparr>)"
  using terminal_events_are_final [of "demo_world cancelled_db"
      "demo_event\<lparr>ev_Status := EventStatusCancelled\<rparr>" None
      "[(1, 2, PublishEvent 3), (1, 2, DeleteEvent 3)]"]
  by (simp add: cancelled_db_def terminal_def events_ok_def event_row_ok_def demo_event_def
      event_dates_def dates_ok_def IsValidEventType_def ValidEventTypes_def IsValidEventStatus_def
      ValidEventStatuses_def)

text \<open>publishing. A publication that succeeds found a live draft of the tenant with a name and
  a type, has made it published and returns it so; every other event is as it was.\<close>

theorem Publish_publishes_a_draft:
  assumes "distinct (map ID (events (store w)))"
    and "EventService_Publish tenantID userID eventID w = (Inr e, w')"
  shows "\<exists>xs old ys tm. events (store w) = xs @ old # ys
    \<and> ID old = eventID \<and> TenantID old = tenantID \<and> live old
    \<and> ev_Status old = EventStatusDraft \<and> ev_Name old \<noteq> [] \<and> ev_Type old \<noteq> []
    \<and> events (store w') = xs @ old\<lparr>ev_Status := EventStatusPublished, UpdatedAt := tm\<rparr> # ys
    \<and> e = with_guest_count (store w) (old\<lparr>ev_Status := EventStatusPublished, UpdatedAt := tm\<rparr>)"
proof -
  obtain old tm new where old: "find (event_key eventID tenantID) (events (store w)) = Some old"
    "ev_Status old = EventStatusDraft" "ev_Name old \<noteq> []" "ev_Type old \<noteq> []"
    and ev: "events (store w') = update_where (event_key eventID tenantID)
      (\<lambda>r. r\<lparr>ev_Status := EventStatusPublished, UpdatedAt := tm\<rparr>) (events (store w))"
    and new: "find (event_key eventID tenantID) (events (store w')) = Some new"
      "e = with_guest_count (store w) new"
    using assms(2) by (auto simp: EventService_Publish_def go_run with_guest_count_def
        split: if_splits dest!: audit_events)
  obtain xs ys where xs: "events (store w) = xs @ old # ys"
    and upd: "events (store w') = xs @ old\<lparr>ev_Status := EventStatusPublished, UpdatedAt := tm\<rparr> # ys"
    unfolding ev by (rule update_one_event [OF assms(1) old(1)])
  note key = find_event_key [OF old(1)]
  have "new = old\<lparr>ev_Status := EventStatusPublished, UpdatedAt := tm\<rparr>"
    using find_event_key [OF new(1)] key assms(1) unfolding upd xs by (force simp: image_iff)
  with xs upd old key new(2) show ?thesis by blast
qed

definition draft_db :: db where
  "draft_db = demo_db\<lparr>events := [demo_event\<lparr>ev_Status := EventStatusDraft\<rparr>]\<rparr>"

lemma Publish_publishes_a_draft_witness:
  "\<exists>xs old ys tm. events draft_db = xs @ old # ys
    \<and> ID old = 3 \<and> TenantID old = 1 \<and> live old
    \<and> ev_Status old = EventStatusDraft \<and> ev_Name old \<noteq> [] \<and> ev_Type old \<noteq> []
    \<and> events (store (snd (EventService_Publish 1 2 3 (demo_world draft_db))))
        = xs @ old\<lparr>ev_Status := EventStatusPublished, UpdatedAt := tm\<rparr> # ys
    \<and> demo_event\<lparr>ev_GuestCount := 2, UpdatedAt := 1\<rparr> = with_guest_count draft_db
        (old\<lparr>ev_Status := EventStatusPublished, UpdatedAt := tm\<rparr>)"
proof -
  let ?w = "demo_world draft_db"
  have "fst (EventService_Publish 1 2 3 ?w) = Inr (demo_event\<lparr>ev_GuestCount := 2, UpdatedAt := 1\<rparr>)"
    by (simp add: EventService_Publish_def go_bind_run go_ignore_def go_try_run go_guard_def
        EventRepository_GetByIDForTenant_def get_one_def query_def draft_db_def event_key_def
        EventRepository_UpdateStatus_def exec_rows_def exec_def sql_update_def with_guest_count_def
        demo_event_def demo_event_guest_def zero_time_def)
  then have "EventService_Publish 1 2 3 ?w =
    (Inr (demo_event\<lparr>ev_GuestCount := 2, UpdatedAt := 1\<rparr>), snd (EventService_Publish 1 2 3 ?w))"
    by (metis prod.collapse)
  from Publish_publishes_a_draft [OF _ this] show ?thesis by (simp add: draft_db_def)
qed

lemma event_matches_count:
  "event_matches t f (with_guest_count d e) = event_matches t f e"
  by (simp add: event_matches_def split: option.split)

text \<open>listing. A page holds only live events of the tenant that match the filter, at most as
  many as asked for and never more than 100, sorted with the latest start first, and the total is
  the number of all the tenant's matching live events.\<close>

theorem List_page_is_sound:
  assumes "EventService_List tenantID f w = (Inr (es, cnt), w')"
  shows "(\<forall>e \<in> set es. TenantID e = tenantID \<and> live e \<and> event_matches tenantID f e)
    \<and> int (length es) \<le> (if ef_PerPage f \<le> 0 then 20 else min 100 (ef_PerPage f))
    \<and> sorted_wrt (\<lambda>a b. ev_StartDate b \<le> ev_StartDate a) es
    \<and> cnt = int (count_where (event_matches tenantID f) (events (store w)))
    \<and> int (length es) \<le> cnt"
proof -
  let ?f = "normalize_filter f"
  let ?rows = "map (with_guest_count (store w))
    (sort_key (\<lambda>e. - ev_StartDate e) (filter (event_matches tenantID ?f) (events (store w))))"
  have pos: "0 < ef_PerPage ?f" "0 < ef_Page ?f" by (simp_all add: normalize_filter_def)
  have es: "\<exists>k. es = take (nat (ef_PerPage ?f)) (drop k ?rows)"
    and cnt: "cnt = int (count_where (event_matches tenantID ?f) (events (store w)))"
    using assms pos by (auto simp: EventService_List_def EventRepository_ListByTenant_def
        EventRepository_CountByTenant_def go_run buildListQuery_def buildCountQuery_def Let_def
        limit_offset_def split: if_splits)
  have f: "event_matches tenantID ?f = event_matches tenantID f"
    by (simp add: event_matches_def normalize_filter_def fun_eq_iff)
  have page: "ef_PerPage ?f = (if ef_PerPage f \<le> 0 then 20 else min 100 (ef_PerPage f))"
    by (simp add: normalize_filter_def min_def)
  have sorted: "sorted_wrt (\<lambda>a b. ev_StartDate b \<le> ev_StartDate a) ?rows"
    using sorted_sort_key [of "\<lambda>e. - ev_StartDate e"] by (simp add: sorted_wrt_map sorted_map)
  obtain k where k: "es = take (nat (ef_PerPage ?f)) (drop k ?rows)" using es by blast
  have sub: "set es \<subseteq> set ?rows"
    unfolding k by (meson order_trans set_drop_subset set_take_subset)
  have rows: "TenantID e = tenantID \<and> live e \<and> event_matches tenantID f e" if "e \<in> set ?rows" for e
    using that unfolding f by (auto simp: event_matches_count) (auto simp: event_matches_def)
  have len: "int (length es) \<le> cnt" unfolding k cnt by (simp add: count_where_def)
  have srt: "sorted_wrt (\<lambda>a b. ev_StartDate b \<le> ev_StartDate a) es"
    unfolding k using sorted by (intro sorted_wrt_take sorted_wrt_drop)
  have size: "int (length es) \<le> ef_PerPage ?f"
    unfolding k using pos by (simp add: min_le_iff_disj)
  show ?thesis using sub rows len srt size [unfolded page] cnt [unfolded f] by blast
qed

lemma List_page_is_sound_witness:
  "sorted_wrt (\<lambda>a b. ev_StartDate b \<le> ev_StartDate a) [demo_event\<lparr>ev_GuestCount := 2\<rparr>]
    \<and> int (length [demo_event\<lparr>ev_GuestCount := 2\<rparr>]) \<le> 1"
proof -
  have "EventService_List 1 no_event_filter (demo_world demo_db) =
    (Inr ([demo_event\<lparr>ev_GuestCount := 2\<rparr>], 1), tick (tick (demo_world demo_db)))"
    by (simp add: EventService_List_def EventRepository_ListByTenant_def get_one_def query_def
        EventRepository_CountByTenant_def go_bind_run buildListQuery_def buildCountQuery_def
        normalize_filter_def event_matches_def limit_offset_def i64_def with_guest_count_def Let_def
        demo_event_def demo_event_guest_def)
  from List_page_is_sound [OF this] show ?thesis by simp
qed

text \<open>a service built by \<open>NewEventService\<close> never reports an exceeded quota, whichever billing
  service it is given: the constructor drops it.\<close>

theorem NewEventService_checks_no_quota:
  "fst (EventService_Create (NewEventService billingSvc) tenantID userID req w) \<noteq> Inl ErrQuotaExceeded"
proof -
  obtain r w' where run: "EventService_Create (NewEventService billingSvc) tenantID userID req w = (r, w')"
    by force
  then have "r \<noteq> Inl ErrQuotaExceeded"
    by (cases r) (auto simp: EventService_Create_def EventRepository_Create_def go_run Let_def
        split: if_splits)
  with run show ?thesis by simp
qed

end
