(* ===== verification/Roster.thy ===== *)
theory Roster
  imports Events
begin

text \<open>
  Guests and the event roster: \<open>domain.NewGuest\<close>, the part of \<open>GuestRepository\<close> the event
  services call, \<open>EventGuestRepository\<close> and \<open>EventGuestService\<close>. The lemmas show that a guest has
  at most one live roster entry per event, that every entry admits at least one person, what
  adding and cancelling do on every branch, and where the listing and its total disagree.
  The server's \<open>ILIKE\<close> is a parameter of the listings.
\<close>

section \<open>Guests\<close>

definition NewGuest :: "uuid \<Rightarrow> uuid \<Rightarrow> guest_create_request \<Rightarrow> guest app" where
  "NewGuest tenantID createdBy req = go_bind NewBase (\<lambda>(i, t). go_ret
     \<lparr>ID = i, CreatedAt = t, UpdatedAt = t, DeletedAt = None, TenantID = tenantID,
      g_FullName = gcr_FullName req, g_Nickname = opt_str (gcr_Nickname req),
      g_Phone = opt_str (gcr_Phone req), g_Email = opt_str (gcr_Email req),
      g_Address = opt_str (gcr_Address req), g_City = opt_str (gcr_City req),
      g_Country = Some (if gcr_Country req = [] then ''Indonesia'' else gcr_Country req),
      g_Language = (if gcr_Language req = [] then ''id'' else gcr_Language req),
      g_GuestType = gcr_GuestType req, g_Segment = opt_str (gcr_Segment req),
      g_Institution = opt_str (gcr_Institution req), g_Title = opt_str (gcr_Title req),
      g_Relationship = opt_str (gcr_Relationship req), g_PIC = opt_str (gcr_PIC req),
      g_AccessibilityNeeds = opt_str (gcr_AccessibilityNeeds req),
      g_DietaryRestrictions = opt_str (gcr_DietaryRestrictions req),
      g_Allergies = opt_str (gcr_Allergies req), g_Notes = opt_str (gcr_Notes req),
      g_ConsentCommunication = gcr_ConsentCommunication req, g_ConsentVersion = None,
      g_Source = Some ''manual'', g_IsActive = True, g_CreatedBy = createdBy, g_UpdatedBy = None\<rparr>)"

definition GuestRepository_Create :: "guest \<Rightarrow> unit app" where
  "GuestRepository_Create g = go_bind (exec (insert_guest g)) (\<lambda>_. go_ret ())"

definition guest_key :: "uuid \<Rightarrow> uuid \<Rightarrow> guest \<Rightarrow> bool" where
  "guest_key t i g \<longleftrightarrow> ID g = i \<and> TenantID g = t \<and> live g"

definition GuestRepository_GetByID :: "uuid \<Rightarrow> guest app" where
  "GuestRepository_GetByID i =
     get_one ErrNotFound (\<lambda>d. find (\<lambda>g. ID g = i \<and> live g) (guests d))"

definition GuestRepository_GetByIDForTenant :: "uuid \<Rightarrow> uuid \<Rightarrow> guest app" where
  "GuestRepository_GetByIDForTenant t i = get_one ErrNotFound (\<lambda>d. find (guest_key t i) (guests d))"

definition GuestRepository_SoftDelete :: "uuid \<Rightarrow> uuid \<Rightarrow> unit app" where
  "GuestRepository_SoftDelete t i = go_bind now (\<lambda>tm. exec_rows ErrNotFound (\<lambda>srv d.
     Some (sql_update guests put_guests (guest_key t i)
       (\<lambda>g. g\<lparr>DeletedAt := Some tm, UpdatedAt := tm\<rparr>) d)))"

section \<open>The roster repository\<close>

definition EventGuestRepository_Create :: "event_guest \<Rightarrow> unit app" where
  "EventGuestRepository_Create eg = go_bind (exec (insert_event_guest eg)) (\<lambda>_. go_ret ())"

text \<open>\<open>eventGuestRow.toDomain\<close>: the entry with the guest's columns that the query selects.\<close>

definition toDomain :: "event_guest \<Rightarrow> guest \<Rightarrow> event_guest" where
  "toDomain eg g = eg\<lparr>eg_Guest := Some
     \<lparr>ID = GuestID eg, CreatedAt = zero_time, UpdatedAt = zero_time, DeletedAt = None,
      TenantID = TenantID eg, g_FullName = g_FullName g, g_Nickname = g_Nickname g,
      g_Phone = g_Phone g, g_Email = g_Email g, g_Address = None, g_City = None, g_Country = None,
      g_Language = [], g_GuestType = g_GuestType g, g_Segment = g_Segment g, g_Institution = None,
      g_Title = None, g_Relationship = None, g_PIC = None, g_AccessibilityNeeds = None,
      g_DietaryRestrictions = None, g_Allergies = None, g_Notes = None,
      g_ConsentCommunication = False, g_ConsentVersion = None, g_Source = None,
      g_IsActive = g_IsActive g, g_CreatedBy = uuid_Nil, g_UpdatedBy = None\<rparr>\<rparr>"

text \<open>
  \<open>eventGuestSelect\<close> with a condition: the entries joined with the tenant's guest of that id,
  deleted softly or not. Guest ids are unique, so an entry has at most one partner.
\<close>

definition eventGuestSelect :: "(event_guest \<Rightarrow> guest \<Rightarrow> bool) \<Rightarrow> db \<Rightarrow> event_guest list" where
  "eventGuestSelect p d = List.map_filter (\<lambda>eg.
     case find (\<lambda>g. ID g = GuestID eg \<and> TenantID g = TenantID eg) (guests d) of
       None \<Rightarrow> None
     | Some g \<Rightarrow> if p eg g then Some (toDomain eg g) else None) (event_guests d)"

definition first_row :: "'r list \<Rightarrow> 'r option" where
  "first_row rs = (case rs of [] \<Rightarrow> None | r # _ \<Rightarrow> Some r)"

definition EventGuestRepository_GetByID :: "uuid \<Rightarrow> uuid \<Rightarrow> uuid \<Rightarrow> event_guest app" where
  "EventGuestRepository_GetByID t e i = get_one ErrNotFound (\<lambda>d. first_row (eventGuestSelect
     (\<lambda>eg _. ID eg = i \<and> TenantID eg = t \<and> EventID eg = e \<and> live eg) d))"

definition EventGuestRepository_GetByEventAndGuest :: "uuid \<Rightarrow> uuid \<Rightarrow> uuid \<Rightarrow> event_guest app" where
  "EventGuestRepository_GetByEventAndGuest t e g = get_one ErrNotFound (\<lambda>d. first_row
     (eventGuestSelect (\<lambda>eg _. TenantID eg = t \<and> EventID eg = e \<and> GuestID eg = g \<and> live eg) d))"

text \<open>\<open>eventGuestWhere\<close>; a \<open>NULL\<close> column matches no search.\<close>

definition eventGuestWhere ::
  "(string \<Rightarrow> string \<Rightarrow> bool) \<Rightarrow> event_guest_list_params \<Rightarrow> event_guest \<Rightarrow> guest \<Rightarrow> bool" where
  "eventGuestWhere ilike p eg g \<longleftrightarrow> TenantID eg = egl_TenantID p \<and> EventID eg = egl_EventID p \<and> live eg
     \<and> (egl_Status p = [] \<or> eg_Status eg = egl_Status p)
     \<and> (let search = TrimSpace (egl_Search p); pat = ''%'' @ search @ ''%'' in
        search = [] \<or> ilike (g_FullName g) pat
        \<or> (case g_Phone g of None \<Rightarrow> False | Some x \<Rightarrow> ilike x pat)
        \<or> (case g_Email g of None \<Rightarrow> False | Some x \<Rightarrow> ilike x pat))"

definition clamp_params :: "event_guest_list_params \<Rightarrow> event_guest_list_params" where
  "clamp_params p = p\<lparr>egl_Page := (if egl_Page p < 1 then 1 else egl_Page p),
     egl_PerPage := (if egl_PerPage p < 1 then 20 else if 100 < egl_PerPage p then 100
                     else egl_PerPage p)\<rparr>"

definition EventGuestRepository_List ::
  "(string \<Rightarrow> string \<Rightarrow> bool) \<Rightarrow> event_guest_list_params \<Rightarrow> event_guest list app" where
  "EventGuestRepository_List ilike p =
     (let p = clamp_params p; off = i64 ((egl_Page p - 1) * egl_PerPage p) in
      get_one ErrDB (\<lambda>d. if off < 0 then None else Some (limit_offset (egl_PerPage p) off
        (sort_key (\<lambda>eg. - CreatedAt eg) (eventGuestSelect (eventGuestWhere ilike p) d)))))"

text \<open>\<open>Count\<close> joins with every live guest of that id, whichever its tenant.\<close>

definition EventGuestRepository_Count ::
  "(string \<Rightarrow> string \<Rightarrow> bool) \<Rightarrow> event_guest_list_params \<Rightarrow> int app" where
  "EventGuestRepository_Count ilike p = query (\<lambda>d. int (count_where (\<lambda>(eg, g).
     ID g = GuestID eg \<and> live g \<and> eventGuestWhere ilike p eg g)
     (List.product (event_guests d) (guests d))))"

definition roster_key :: "uuid \<Rightarrow> uuid \<Rightarrow> uuid \<Rightarrow> event_guest \<Rightarrow> bool" where
  "roster_key t e i r \<longleftrightarrow> ID r = i \<and> TenantID r = t \<and> EventID r = e \<and> live r"

definition EventGuestRepository_Cancel :: "uuid \<Rightarrow> uuid \<Rightarrow> uuid \<Rightarrow> unit app" where
  "EventGuestRepository_Cancel t e i = exec_rows ErrNotFound (\<lambda>srv d.
     Some (sql_update event_guests put_event_guests (roster_key t e i)
       (\<lambda>r. r\<lparr>eg_Status := EventGuestStatusCancelled, UpdatedAt := fst srv\<rparr>) d))"

section \<open>The roster service\<close>

text \<open>The entry \<open>Create\<close> builds from a request whose source has been trimmed and checked.\<close>

definition new_event_guest ::
  "uuid \<Rightarrow> time \<Rightarrow> uuid \<Rightarrow> uuid \<Rightarrow> uuid \<Rightarrow> string \<Rightarrow> event_guest_create_request \<Rightarrow> event_guest" where
  "new_event_guest i t tenantID eventID userID src req =
     \<lparr>ID = i, CreatedAt = t, UpdatedAt = t, DeletedAt = None, TenantID = tenantID,
      EventID = eventID, GuestID = egr_GuestID req, eg_Status = EventGuestStatusActive,
      eg_Source = src, eg_MaxPax = (if egr_MaxPax req < 1 then 1 else egr_MaxPax req),
      eg_Adults = (if egr_Adults req = 0 \<and> egr_Children req = 0 then 1 else egr_Adults req),
      eg_Children = egr_Children req, eg_PlusOneAllowed = egr_PlusOneAllowed req,
      eg_Notes = opt_str (TrimSpace (egr_Notes req)), eg_CreatedBy = userID, eg_Guest = None\<rparr>"

definition EventGuestService_Create ::
  "uuid \<Rightarrow> uuid \<Rightarrow> uuid \<Rightarrow> event_guest_create_request \<Rightarrow> event_guest app" where
  "EventGuestService_Create tenantID eventID userID req =
     go_bind (EventRepository_GetByIDForTenant eventID tenantID) (\<lambda>_.
     go_bind (GuestRepository_GetByIDForTenant tenantID (egr_GuestID req)) (\<lambda>_.
     go_try (EventGuestRepository_GetByEventAndGuest tenantID eventID (egr_GuestID req)) (\<lambda>dup.
       case dup of
         Inr _ \<Rightarrow> go_fail ErrAlreadyExists
       | Inl e \<Rightarrow> go_guard (e \<noteq> ErrNotFound) e (
           let trimmed = TrimSpace (egr_Source req);
               src = (if trimmed = [] then EventGuestSourceManual else trimmed) in
           go_guard (\<not> IsValidEventGuestSource src) ErrInvalidInput (
           go_bind NewBase (\<lambda>(i, t).
             let eg = new_event_guest i t tenantID eventID userID src req in
             go_bind (EventGuestRepository_Create eg) (\<lambda>_.
             go_ignore (LogWithUser userID tenantID AuditActionCreate EntityTypeEventGuest i None
               (Some [(''event_id'', JUUID eventID), (''guest_id'', JUUID (egr_GuestID req))])) (
             go_try (GuestRepository_GetByIDForTenant tenantID (egr_GuestID req)) (\<lambda>g.
               go_ret (eg\<lparr>eg_Guest := (case g of Inl _ \<Rightarrow> None | Inr x \<Rightarrow> Some x)\<rparr>))))))))))"

definition EventGuestService_List ::
  "(string \<Rightarrow> string \<Rightarrow> bool) \<Rightarrow> event_guest_list_params \<Rightarrow> (event_guest list \<times> int) app" where
  "EventGuestService_List ilike p =
     go_bind (EventGuestRepository_List ilike p) (\<lambda>items.
     go_bind (EventGuestRepository_Count ilike p) (\<lambda>cnt. go_ret (items, cnt)))"

definition EventGuestService_Cancel :: "uuid \<Rightarrow> uuid \<Rightarrow> uuid \<Rightarrow> uuid \<Rightarrow> unit app" where
  "EventGuestService_Cancel tenantID eventID eventGuestID userID =
     go_bind (EventGuestRepository_Cancel tenantID eventID eventGuestID) (\<lambda>_.
     go_ignore (LogWithUser userID tenantID AuditActionUpdate EntityTypeEventGuest eventGuestID None
       (Some [(''status'', JString EventGuestStatusCancelled)]))
     (go_ret ()))"

section \<open>Lookups\<close>

lemma toDomain_sel [simp]:
  "ID (toDomain eg g) = ID eg" "TenantID (toDomain eg g) = TenantID eg"
  "EventID (toDomain eg g) = EventID eg" "GuestID (toDomain eg g) = GuestID eg"
  "DeletedAt (toDomain eg g) = DeletedAt eg" "eg_Status (toDomain eg g) = eg_Status eg"
  "eg_MaxPax (toDomain eg g) = eg_MaxPax eg" "eg_Adults (toDomain eg g) = eg_Adults eg"
  "eg_Children (toDomain eg g) = eg_Children eg" "CreatedAt (toDomain eg g) = CreatedAt eg"
  by (simp_all add: toDomain_def)

lemma in_eventGuestSelect:
  "r \<in> set (eventGuestSelect p d) \<longleftrightarrow> (\<exists>eg \<in> set (event_guests d). \<exists>g.
     find (\<lambda>g. ID g = GuestID eg \<and> TenantID g = TenantID eg) (guests d) = Some g \<and>
     p eg g \<and> r = toDomain eg g)"
  by (fastforce simp: eventGuestSelect_def List.map_filter_def image_iff split: option.splits if_splits)

lemma first_row_Some: "first_row rs = Some r \<Longrightarrow> r \<in> set rs"
  by (auto simp: first_row_def split: list.splits)

lemma first_row_None: "first_row rs = None \<longleftrightarrow> rs = []"
  by (auto simp: first_row_def split: list.splits)

text \<open>
  The contract the other services rely on: a roster lookup changes nothing, and what it finds is a
  live entry of the tenant, event and guest asked for.
\<close>

locale roster_lookup =
  fixes lookup :: "uuid \<Rightarrow> uuid \<Rightarrow> uuid \<Rightarrow> event_guest app"
  assumes lookup_run: "lookup t e g w = (r, w') \<Longrightarrow> w' = tick w"
    and lookup_sound: "lookup t e g w = (Inr eg, w') \<Longrightarrow>
      TenantID eg = t \<and> EventID eg = e \<and> GuestID eg = g \<and> live eg \<and>
      (\<exists>row \<in> set (event_guests (store w)). ID row = ID eg \<and> TenantID row = t \<and> EventID row = e
        \<and> GuestID row = g \<and> live row \<and> eg_Status row = eg_Status eg \<and> eg_MaxPax row = eg_MaxPax eg)"
begin

lemma lookup_store: "lookup t e g w = (r, w') \<Longrightarrow> store w' = store w"
  by (auto dest: lookup_run)

lemma lookup_stays: "stays (=) (lookup t e g)"
  by (rule staysI) (auto dest: lookup_run)

lemma lookup_id: "lookup t e g w = (Inr eg, w') \<Longrightarrow> has_id (ID eg) (event_guests (store w))"
  using lookup_sound by (fastforce simp: has_id_iff)

end

interpretation roster: roster_lookup EventGuestRepository_GetByEventAndGuest
proof
  fix t e g r and w w' :: "db world"
  assume "EventGuestRepository_GetByEventAndGuest t e g w = (r, w')"
  then show "w' = tick w"
    by (cases r) (auto simp: EventGuestRepository_GetByEventAndGuest_def go_run split: if_splits)
next
  fix t e g eg and w w' :: "db world"
  assume "EventGuestRepository_GetByEventAndGuest t e g w = (Inr eg, w')"
  then have "eg \<in> set (eventGuestSelect (\<lambda>eg _. TenantID eg = t \<and> EventID eg = e \<and>
      GuestID eg = g \<and> live eg) (store w))"
    by (auto simp: EventGuestRepository_GetByEventAndGuest_def go_run dest: first_row_Some)
  then show "TenantID eg = t \<and> EventID eg = e \<and> GuestID eg = g \<and> live eg \<and>
      (\<exists>row \<in> set (event_guests (store w)). ID row = ID eg \<and> TenantID row = t \<and> EventID row = e
        \<and> GuestID row = g \<and> live row \<and> eg_Status row = eg_Status eg \<and> eg_MaxPax row = eg_MaxPax eg)"
    by (auto simp: in_eventGuestSelect)
qed

section \<open>The invariant\<close>

definition roster_row_ok :: "event_guest \<Rightarrow> bool" where
  "roster_row_ok eg \<longleftrightarrow> 0 < eg_MaxPax eg \<and> 0 \<le> eg_Adults eg \<and> 0 \<le> eg_Children eg
     \<and> eg_Status eg \<in> {EventGuestStatusActive, EventGuestStatusCancelled}
     \<and> IsValidEventGuestSource (eg_Source eg)"

text \<open>Keys are distinct, rows are well-formed, and a guest is on an event's roster once.\<close>

definition roster_ok :: "event_guest list \<Rightarrow> bool" where
  "roster_ok rs \<longleftrightarrow> distinct (map ID rs) \<and> (\<forall>r \<in> set rs. roster_row_ok r)
     \<and> distinct (map (\<lambda>r. (EventID r, GuestID r)) (filter live rs))"

lemma insert_event_guest_Some:
  assumes "insert_event_guest eg srv d = Some (n, d')"
  shows "d' = d\<lparr>event_guests := event_guests d @ [eg\<lparr>eg_Guest := None, DeletedAt := None\<rparr>]\<rparr>"
    and "roster_ok (event_guests d) \<Longrightarrow> roster_ok (event_guests d')"
proof -
  show d': "d' = d\<lparr>event_guests := event_guests d @ [eg\<lparr>eg_Guest := None, DeletedAt := None\<rparr>]\<rparr>"
    using assms by (auto simp: insert_event_guest_def split: if_splits)
  assume "roster_ok (event_guests d)"
  with assms show "roster_ok (event_guests d')" unfolding d' roster_ok_def
    by (auto simp: insert_event_guest_def roster_row_ok_def has_id_iff list_ex_iff split: if_splits)
qed

lemma roster_ok_update:
  assumes "roster_ok rs" and "\<And>r. ID (f r) = ID r \<and> EventID (f r) = EventID r \<and>
      GuestID (f r) = GuestID r \<and> DeletedAt (f r) = DeletedAt r"
    and "\<And>r. roster_row_ok r \<Longrightarrow> roster_row_ok (f r)"
  shows "roster_ok (update_where p f rs)"
proof -
  have "map (\<lambda>r. (EventID r, GuestID r)) (filter live (update_where p f rs)) =
      map (\<lambda>r. (EventID r, GuestID r)) (filter live rs)"
    using assms(2) by (induction rs) auto
  moreover have "map ID (update_where p f rs) = map ID rs"
    using assms(2) by (intro map_update_where) simp
  ultimately show ?thesis using assms(1,3) by (auto simp: roster_ok_def set_update_where)
qed

abbreviation roster_kept :: "db \<Rightarrow> db \<Rightarrow> bool" where
  "roster_kept d d' \<equiv> roster_ok (event_guests d) \<longrightarrow> roster_ok (event_guests d')"

lemma LogWithUser_roster: "stays roster_kept (LogWithUser u t a et ei ov nv)"
  by (rule stays_mono [OF LogWithUser_stays]) (auto dest: audit_free_tables)

lemma EventGuestRepository_Create_roster: "stays roster_kept (EventGuestRepository_Create eg)"
  unfolding EventGuestRepository_Create_def
  by (intro kept.bind_stays kept.exec_stays kept.ret_stays) (auto dest: insert_event_guest_Some)

lemma EventGuestRepository_Cancel_roster: "stays roster_kept (EventGuestRepository_Cancel t e i)"
  unfolding EventGuestRepository_Cancel_def
  by (rule kept.exec_rows_stays) (auto simp: sql_update_def roster_row_ok_def intro!: roster_ok_update)

lemmas roster_stays = kept.all_stays [where I = "\<lambda>d. roster_ok (event_guests d)"]
  kept.NewBase_stays [where I = "\<lambda>d. roster_ok (event_guests d)"]
  LogWithUser_roster EventGuestRepository_Create_roster EventGuestRepository_Cancel_roster

lemma EventGuestService_Create_roster: "stays roster_kept (EventGuestService_Create t e u req)"
proof -
  have look: "stays roster_kept (EventGuestRepository_GetByEventAndGuest t e g)" for g
    by (rule stays_mono [OF roster.lookup_stays]) simp
  show ?thesis
    unfolding EventGuestService_Create_def EventRepository_GetByIDForTenant_def Let_def
      GuestRepository_GetByIDForTenant_def
    by (auto intro!: roster_stays look split: sum.split prod.split)
qed

lemma EventGuestService_Cancel_roster: "stays roster_kept (EventGuestService_Cancel t e i u)"
  unfolding EventGuestService_Cancel_def by (auto intro!: roster_stays)

section \<open>Properties\<close>

datatype roster_call =
    AddGuest uuid event_guest_create_request
  | CancelGuest uuid uuid

definition serve_roster :: "uuid \<Rightarrow> uuid \<Rightarrow> roster_call \<Rightarrow> unit app" where
  "serve_roster tenantID userID c = (case c of
      AddGuest eventID req \<Rightarrow>
        go_bind (EventGuestService_Create tenantID eventID userID req) (\<lambda>_. go_ret ())
    | CancelGuest eventID i \<Rightarrow> EventGuestService_Cancel tenantID eventID i userID)"

lemma serve_roster_keeps: "stays roster_kept (serve_roster t u c)"
  unfolding serve_roster_def
  by (auto intro!: roster_stays EventGuestService_Create_roster EventGuestService_Cancel_roster
      split: roster_call.split)

lemma demo_roster_ok: "roster_ok (event_guests demo_db)"
  by (simp add: roster_ok_def roster_row_ok_def demo_event_guest_def IsValidEventGuestSource_def)

text \<open>the roster stays consistent. Through every sequence of additions and cancellations, by any
  tenants and with any failures, keys stay distinct, a guest has at most one live entry per event,
  and every entry admits at least one person and counts no negative number of adults or children.\<close>

theorem roster_stays_consistent:
  assumes "roster_ok (event_guests (store w))"
  shows "roster_ok (event_guests (store (serve_all
    (map (\<lambda>(tenantID, userID, c). serve_roster tenantID userID c) calls) w)))"
proof (rule serve_all_keeps [where I = "\<lambda>d. roster_ok (event_guests d)"])
  fix m and v :: "db world"
  assume "m \<in> set (map (\<lambda>(tenantID, userID, c). serve_roster tenantID userID c) calls)"
    and "roster_ok (event_guests (store v))"
  then show "roster_ok (event_guests (store (snd (m v))))"
    using serve_roster_keeps by (auto simp: stays_def)
qed (rule assms)

definition demo_add :: event_guest_create_request where
  "demo_add = \<lparr>egr_GuestID = 5, egr_Source = [], egr_MaxPax = 0, egr_Adults = 0, egr_Children = 0,
     egr_PlusOneAllowed = False, egr_Notes = []\<rparr>"

lemma roster_stays_consistent_witness:
  "roster_ok (event_guests (store (serve_all
    (map (\<lambda>(tenantID, userID, c). serve_roster tenantID userID c)
      [(1, 2, CancelGuest 3 6), (1, 2, AddGuest 3 demo_add)]) (demo_world demo_db))))"
  by (rule roster_stays_consistent) (use demo_roster_ok in simp)

lemma audit_event_guests:
  "LogWithUser u t a et ei ov nv w = (r, w') \<Longrightarrow> event_guests (store w') = event_guests (store w)"
  by (rule audit_free_tables) (rule LogWithUser_audit_free)

lemma EventGuestRepository_Create_Inr [go_run]:
  "EventGuestRepository_Create eg w = (Inr u, w') \<longleftrightarrow> \<not> faults w (pos w) \<and>
     insert_event_guest eg (clock w (pos w), fresh w (pos w)) (store w) \<noteq> None \<and>
     w' = (tick w)\<lparr>store := (store w)\<lparr>event_guests := event_guests (store w) @
       [eg\<lparr>eg_Guest := None, DeletedAt := None\<rparr>]\<rparr>\<rparr>"
  by (auto simp: EventGuestRepository_Create_def go_run insert_event_guest_def)

lemma insert_event_guest_checks:
  "insert_event_guest eg srv d = Some x \<Longrightarrow> IsValidEventGuestSource (eg_Source eg) \<and>
     (\<forall>r \<in> set (event_guests d). \<not> (live r \<and> EventID r = EventID eg \<and> GuestID r = GuestID eg))"
  by (auto simp: insert_event_guest_def list_ex_iff split: if_splits)

lemma GuestRepository_GetByIDForTenant_Inr [go_run]:
  "GuestRepository_GetByIDForTenant t i w = (Inr g, w') \<longleftrightarrow> \<not> faults w (pos w) \<and>
     find (guest_key t i) (guests (store w)) = Some g \<and> w' = tick w"
  by (simp add: GuestRepository_GetByIDForTenant_def go_run)

lemma GuestRepository_GetByIDForTenant_tick:
  "GuestRepository_GetByIDForTenant t i w = (r, w') \<Longrightarrow> w' = tick w"
  by (cases r) (auto simp: GuestRepository_GetByIDForTenant_def go_run split: if_splits)

text \<open>The run of a successful addition.\<close>

lemma EventGuestService_Create_Inr:
  assumes "EventGuestService_Create tenantID eventID userID req w = (Inr eg, w')"
  obtains i t src g u v v' where
    "EventGuestRepository_Create (new_event_guest i t tenantID eventID userID src req) v = (Inr u, v')"
    "store v = store w" "eg = (new_event_guest i t tenantID eventID userID src req)\<lparr>eg_Guest := g\<rparr>"
    "event_guests (store w') = event_guests (store v')"
    "\<exists>e \<in> set (events (store w)). event_key eventID tenantID e"
    "\<exists>g \<in> set (guests (store w)). guest_key tenantID (egr_GuestID req) g"
proof -
  from assms show thesis
    unfolding EventGuestService_Create_def Let_def
    by (auto elim!: go_elim simp: GetByIDForTenant_Inr NewBase_run
        GuestRepository_GetByIDForTenant_Inr split: sum.split_asm)
      (erule notE, rule that, assumption, auto dest!: audit_event_guests roster.lookup_run
        find_Some_D GuestRepository_GetByIDForTenant_tick)+
qed

lemma new_event_guest_sel [simp]:
  "EventID (new_event_guest i t tn ev u src req) = ev"
  "GuestID (new_event_guest i t tn ev u src req) = egr_GuestID req"
  "eg_Status (new_event_guest i t tn ev u src req) = EventGuestStatusActive"
  "eg_Source (new_event_guest i t tn ev u src req) = src"
  "eg_MaxPax (new_event_guest i t tn ev u src req) = max 1 (egr_MaxPax req)"
  "eg_Children (new_event_guest i t tn ev u src req) = egr_Children req"
  "eg_Adults (new_event_guest i t tn ev u src req) =
     (if egr_Adults req = 0 \<and> egr_Children req = 0 then 1 else egr_Adults req)"
  by (simp_all add: new_event_guest_def max_def)

lemma new_event_guest_live:
  "(new_event_guest i t tn ev u src req)\<lparr>eg_Guest := None, DeletedAt := None\<rparr> =
     (new_event_guest i t tn ev u src req)\<lparr>eg_Guest := None\<rparr>"
  by (simp add: new_event_guest_def)

text \<open>adding a guest to an event. When the call succeeds the event and the guest are live rows
  of the tenant, the guest had no live entry for the event, and the table grows by exactly the
  returned entry: active, with a valid source, the pax limit raised to one and one adult where no
  one was counted.\<close>

theorem EventGuestService_Create_adds_entry:
  assumes "EventGuestService_Create tenantID eventID userID req w = (Inr eg, w')"
  shows "(\<exists>e \<in> set (events (store w)). event_key eventID tenantID e)
    \<and> (\<exists>g \<in> set (guests (store w)). guest_key tenantID (egr_GuestID req) g)
    \<and> (\<forall>r \<in> set (event_guests (store w)).
        \<not> (live r \<and> EventID r = eventID \<and> GuestID r = egr_GuestID req))
    \<and> event_guests (store w') = event_guests (store w) @ [eg\<lparr>eg_Guest := None\<rparr>]
    \<and> EventID eg = eventID \<and> GuestID eg = egr_GuestID req \<and> eg_Status eg = EventGuestStatusActive
    \<and> eg_MaxPax eg = max 1 (egr_MaxPax req) \<and> IsValidEventGuestSource (eg_Source eg)
    \<and> eg_Children eg = egr_Children req
    \<and> eg_Adults eg = (if egr_Adults req = 0 \<and> egr_Children req = 0 then 1 else egr_Adults req)"
proof -
  from assms obtain i t src g u v v' where
    create: "EventGuestRepository_Create (new_event_guest i t tenantID eventID userID src req) v = (Inr u, v')"
    and v: "store v = store w" "eg = (new_event_guest i t tenantID eventID userID src req)\<lparr>eg_Guest := g\<rparr>"
      "event_guests (store w') = event_guests (store v')"
      "\<exists>e \<in> set (events (store w)). event_key eventID tenantID e"
      "\<exists>g \<in> set (guests (store w)). guest_key tenantID (egr_GuestID req) g"
    by (rule EventGuestService_Create_Inr)
  from create have "event_guests (store v') = event_guests (store w) @
      [(new_event_guest i t tenantID eventID userID src req)\<lparr>eg_Guest := None, DeletedAt := None\<rparr>]"
    and "IsValidEventGuestSource src \<and> (\<forall>r \<in> set (event_guests (store w)).
      \<not> (live r \<and> EventID r = eventID \<and> GuestID r = egr_GuestID req))"
    using v(1) by (auto simp: EventGuestRepository_Create_Inr dest!: insert_event_guest_checks)
  with v show ?thesis by (auto simp: new_event_guest_live)
qed

definition one_guest_db :: db where
  "one_guest_db = demo_db\<lparr>event_guests := [demo_event_guest 6 4]\<rparr>"

lemma EventGuestService_Create_adds_entry_witness:
  "\<exists>eg. event_guests (store (snd (EventGuestService_Create 1 3 2 demo_add (demo_world one_guest_db))))
      = [demo_event_guest 6 4, eg] \<and> GuestID eg = 5 \<and> eg_MaxPax eg = 1 \<and> eg_Adults eg = 1"
proof -
  let ?m = "EventGuestService_Create 1 3 2 demo_add"
  have "\<exists>eg. fst (?m (demo_world one_guest_db)) = Inr eg"
    by (simp add: EventGuestService_Create_def go_eval EventRepository_GetByIDForTenant_def event_key_def
        GuestRepository_GetByIDForTenant_def guest_key_def EventGuestRepository_GetByEventAndGuest_def
        eventGuestSelect_def List.map_filter_def first_row_def EventGuestRepository_Create_def
        insert_event_guest_def new_event_guest_def one_guest_db_def demo_add_def demo_event_def
        demo_guest_def demo_event_guest_def demo_tenant_def demo_user_def TrimSpace_def
        IsValidEventGuestSource_def has_id_def int4_def)
  then obtain eg where "?m (demo_world one_guest_db) = (Inr eg, snd (?m (demo_world one_guest_db)))"
    by (metis run_pair)
  from EventGuestService_Create_adds_entry [OF this] show ?thesis
    by (intro exI [of _ "eg\<lparr>eg_Guest := None\<rparr>"]) (auto simp: one_guest_db_def demo_add_def)
qed

definition deleted_guest_db :: db where
  "deleted_guest_db = demo_db\<lparr>guests := [(demo_guest 4)\<lparr>DeletedAt := Some 1\<rparr>],
     event_guests := [demo_event_guest 6 4]\<rparr>"

definition demo_page :: event_guest_list_params where
  "demo_page = \<lparr>egl_TenantID = 1, egl_EventID = 3, egl_Search = [], egl_Status = [], egl_Page = 1,
     egl_PerPage = 20\<rparr>"

text \<open>the listing and its total disagree on deleted guests. There is a consistent database in
  which the page of an event's roster holds an entry and the total reported with it is zero: the
  page joins deleted guests and the count does not.\<close>

theorem roster_total_misses_listed_entry:
  "\<exists>w items. roster_ok (event_guests (store w)) \<and> items \<noteq> [] \<and>
     fst (EventGuestService_List ilike demo_page w) = Inr (items, 0)"
proof (intro exI conjI)
  show "roster_ok (event_guests (store (demo_world deleted_guest_db)))"
    by (simp add: deleted_guest_db_def roster_ok_def roster_row_ok_def demo_event_guest_def
        IsValidEventGuestSource_def)
  show "[toDomain (demo_event_guest 6 4) (demo_guest 4)] \<noteq> []" by simp
  show "fst (EventGuestService_List ilike demo_page (demo_world deleted_guest_db)) =
      Inr ([toDomain (demo_event_guest 6 4) (demo_guest 4)], 0)"
    by (simp add: EventGuestService_List_def go_eval EventGuestRepository_List_def clamp_params_def
        demo_page_def i64_def eventGuestSelect_def List.map_filter_def deleted_guest_db_def
        demo_event_guest_def demo_guest_def eventGuestWhere_def TrimSpace_def limit_offset_def
        EventGuestRepository_Count_def toDomain_def)
qed

end
