(* ===== verification/Seating.thy ===== *)
theory Seating
  imports Roster
begin

text \<open>
  Seating: \<open>SeatingRepository\<close> and \<open>SeatingService\<close>. The lemmas show that no table ever seats more
  guests than its capacity, whichever calls are served in whichever order; what a single and an
  automatic assignment do; and that deleting a table is atomic. The server's collation is a
  parameter of the ordered listings, as the rank \<open>coll\<close> it gives to a name, and \<open>ILIKE\<close> one of the
  roster's listing. Positions are kept as given; their rounding to two decimals is not modelled.
\<close>

section \<open>The repository\<close>

definition SeatingRepository_CreateZone :: "venue_zone \<Rightarrow> unit app" where
  "SeatingRepository_CreateZone z = go_bind (exec (insert_zone z)) (\<lambda>_. go_ret ())"

definition SeatingRepository_GetZone :: "uuid \<Rightarrow> uuid \<Rightarrow> venue_zone app" where
  "SeatingRepository_GetZone t i =
     get_one ErrNotFound (\<lambda>d. find (\<lambda>z. ID z = i \<and> TenantID z = t \<and> live z) (venue_zones d))"

definition SeatingRepository_ListZonesByEvent :: "(string \<Rightarrow> rat) \<Rightarrow> uuid \<Rightarrow> uuid \<Rightarrow> venue_zone list app" where
  "SeatingRepository_ListZonesByEvent coll t e = query (\<lambda>d.
     sort_key vz_SortOrder (sort_key (\<lambda>z. coll (vz_Name z))
       (filter (\<lambda>z. TenantID z = t \<and> EventID z = e \<and> live z) (venue_zones d))))"

definition SeatingRepository_SoftDeleteZone :: "uuid \<Rightarrow> uuid \<Rightarrow> unit app" where
  "SeatingRepository_SoftDeleteZone t i = go_bind now (\<lambda>tm. exec_rows ErrNotFound (\<lambda>srv d.
     Some (sql_update venue_zones put_venue_zones (\<lambda>z. ID z = i \<and> TenantID z = t \<and> live z)
       (\<lambda>z. z\<lparr>DeletedAt := Some tm, UpdatedAt := tm\<rparr>) d)))"

definition SeatingRepository_CreateTable :: "seat_table \<Rightarrow> unit app" where
  "SeatingRepository_CreateTable t = go_bind (exec (insert_table t)) (\<lambda>_. go_ret ())"

definition table_key :: "uuid \<Rightarrow> uuid \<Rightarrow> uuid \<Rightarrow> seat_table \<Rightarrow> bool" where
  "table_key t e i r \<longleftrightarrow> ID r = i \<and> TenantID r = t \<and> EventID r = e \<and> live r"

definition SeatingRepository_GetTable :: "uuid \<Rightarrow> uuid \<Rightarrow> uuid \<Rightarrow> seat_table app" where
  "SeatingRepository_GetTable t e i = get_one ErrNotFound (\<lambda>d. find (table_key t e i) (seat_tables d))"

text \<open>The \<open>SET\<close> clause of \<open>UpdateTable\<close>.\<close>

definition merge_table :: "seat_table \<Rightarrow> seat_table \<Rightarrow> seat_table" where
  "merge_table t old = old\<lparr>tb_ZoneID := coalesce (tb_ZoneID t) (tb_ZoneID old),
     tb_Name := (if tb_Name t = [] then tb_Name old else tb_Name t),
     tb_Capacity := (if tb_Capacity t = 0 then tb_Capacity old else tb_Capacity t),
     tb_Shape := (if tb_Shape t = [] then tb_Shape old else tb_Shape t),
     tb_PositionX := coalesce (tb_PositionX t) (tb_PositionX old),
     tb_PositionY := coalesce (tb_PositionY t) (tb_PositionY old),
     tb_IsLocked := tb_IsLocked t, tb_Accessibility := tb_Accessibility t, tb_VIPOnly := tb_VIPOnly t,
     tb_Notes := coalesce (tb_Notes t) (tb_Notes old), UpdatedAt := UpdatedAt t\<rparr>"

definition SeatingRepository_UpdateTable :: "seat_table \<Rightarrow> unit app" where
  "SeatingRepository_UpdateTable t = exec_rows ErrNotFound (\<lambda>srv d.
     let p = (\<lambda>r. ID r = ID t \<and> TenantID r = TenantID t \<and> live r) in
     if \<not> list_all (\<lambda>r. p r \<longrightarrow> table_row_ok (merge_table t r) d) (seat_tables d) then None
     else Some (sql_update seat_tables put_seat_tables p (merge_table t) d))"

text \<open>\<open>DELETE FROM seat_assignments WHERE p\<close>.\<close>

definition delete_assignments :: "(seat_assignment \<Rightarrow> bool) \<Rightarrow> db \<Rightarrow> nat \<times> db" where
  "delete_assignments p d =
     (count_where p (seat_assignments d), put_seat_assignments (filter (\<lambda>a. \<not> p a) (seat_assignments d)) d)"

definition SeatingRepository_SoftDeleteTable :: "uuid \<Rightarrow> uuid \<Rightarrow> uuid \<Rightarrow> unit app" where
  "SeatingRepository_SoftDeleteTable t e i = RunInTransaction (go_bind now (\<lambda>tm.
     go_bind (exec (\<lambda>srv d. Some (delete_assignments (\<lambda>a. sa_TableID a = i) d))) (\<lambda>_.
     exec_rows ErrNotFound (\<lambda>srv d. Some (sql_update seat_tables put_seat_tables (table_key t e i)
       (\<lambda>r. r\<lparr>DeletedAt := Some tm, UpdatedAt := tm\<rparr>) d)))))"

definition occupancy :: "uuid \<Rightarrow> db \<Rightarrow> int" where
  "occupancy i d = int (count_where (\<lambda>a. sa_TableID a = i) (seat_assignments d))"

definition with_occupancy :: "db \<Rightarrow> seat_table \<Rightarrow> table_with_occupancy" where
  "with_occupancy d t = \<lparr>to_Table = t, to_Occupancy = occupancy (ID t) d, to_AssignedGuests = []\<rparr>"

definition SeatingRepository_ListTablesByEvent ::
  "(string \<Rightarrow> rat) \<Rightarrow> uuid \<Rightarrow> uuid \<Rightarrow> table_with_occupancy list app" where
  "SeatingRepository_ListTablesByEvent coll t e = query (\<lambda>d. map (with_occupancy d)
     (sort_key (\<lambda>r. coll (tb_Name r))
       (filter (\<lambda>r. TenantID r = t \<and> EventID r = e \<and> live r) (seat_tables d))))"

definition SeatingRepository_GetTableWithOccupancy ::
  "uuid \<Rightarrow> uuid \<Rightarrow> uuid \<Rightarrow> table_with_occupancy app" where
  "SeatingRepository_GetTableWithOccupancy t e i = get_one ErrNotFound (\<lambda>d.
     map_option (with_occupancy d) (find (table_key t e i) (seat_tables d)))"

definition SeatingRepository_AssignGuest :: "seat_assignment \<Rightarrow> unit app" where
  "SeatingRepository_AssignGuest a = go_bind (exec (upsert_assignment a)) (\<lambda>_. go_ret ())"

definition SeatingRepository_UnassignGuest :: "uuid \<Rightarrow> uuid \<Rightarrow> unit app" where
  "SeatingRepository_UnassignGuest i g = exec_rows ErrNotFound (\<lambda>srv d.
     Some (delete_assignments (\<lambda>a. sa_TableID a = i \<and> sa_GuestID a = g) d))"

text \<open>\<open>ORDER BY seat_number\<close>: rows without a seat number come last.\<close>

definition by_seat :: "('r \<Rightarrow> int option) \<Rightarrow> 'r list \<Rightarrow> 'r list" where
  "by_seat f rs = sort_key (\<lambda>r. the (f r)) (filter (\<lambda>r. f r \<noteq> None) rs) @ filter (\<lambda>r. f r = None) rs"

definition SeatingRepository_ListAssignmentsByTable :: "(string \<Rightarrow> rat) \<Rightarrow> uuid \<Rightarrow> assigned_guest list app" where
  "SeatingRepository_ListAssignmentsByTable coll i = query (\<lambda>d. by_seat ag_SeatNumber
     (sort_key (\<lambda>x. coll (ag_FullName x)) (List.map_filter (\<lambda>a.
       case find (\<lambda>g. ID g = sa_GuestID a \<and> live g) (guests d) of
         None \<Rightarrow> None
       | Some g \<Rightarrow> Some \<lparr>ag_GuestID = sa_GuestID a, ag_FullName = g_FullName g,
           ag_GuestType = g_GuestType g, ag_SeatNumber = sa_SeatNumber a,
           ag_AssignedAt = sa_AssignedAt a\<rparr>)
       (filter (\<lambda>a. sa_TableID a = i) (seat_assignments d)))))"

text \<open>The join of an assignment with its live table of the event.\<close>

definition seated_in :: "uuid \<Rightarrow> uuid \<Rightarrow> db \<Rightarrow> seat_assignment \<Rightarrow> bool" where
  "seated_in t e d a = list_ex (table_key t e (sa_TableID a)) (seat_tables d)"

definition SeatingRepository_ListAssignmentsByEvent :: "uuid \<Rightarrow> uuid \<Rightarrow> seat_assignment list app" where
  "SeatingRepository_ListAssignmentsByEvent t e = query (\<lambda>d. sort_key (\<lambda>a. unat (sa_TableID a))
     (by_seat sa_SeatNumber (filter (seated_in t e d) (seat_assignments d))))"

definition SeatingRepository_CountAssignmentsByTable :: "uuid \<Rightarrow> int app" where
  "SeatingRepository_CountAssignmentsByTable i = query (occupancy i)"

definition SeatingRepository_GetGuestAssignment :: "uuid \<Rightarrow> uuid \<Rightarrow> uuid \<Rightarrow> seat_assignment option app" where
  "SeatingRepository_GetGuestAssignment t e g = query (\<lambda>d.
     find (\<lambda>a. sa_GuestID a = g \<and> seated_in t e d a) (seat_assignments d))"

definition SeatingRepository_IsGuestAssigned :: "uuid \<Rightarrow> bool app" where
  "SeatingRepository_IsGuestAssigned g = query (\<lambda>d.
     0 < count_where (\<lambda>a. sa_GuestID a = g) (seat_assignments d))"

definition SeatingRepository_CountUnassignedGuests :: "uuid \<Rightarrow> uuid \<Rightarrow> int app" where
  "SeatingRepository_CountUnassignedGuests t e = query (\<lambda>d. int (count_where (\<lambda>eg.
     TenantID eg = t \<and> EventID eg = e \<and> eg_Status eg = EventGuestStatusActive \<and> live eg
     \<and> \<not> list_ex (\<lambda>a. sa_GuestID a = GuestID eg \<and> seated_in t e d a) (seat_assignments d))
     (event_guests d)))"

section \<open>The service: zones and tables\<close>

record zone_create_request =
  zcr_EventID :: uuid
  zcr_Name :: string
  zcr_Description :: string
  zcr_SortOrder :: int

definition SeatingService_CreateZone :: "uuid \<Rightarrow> zone_create_request \<Rightarrow> venue_zone app" where
  "SeatingService_CreateZone tenantID req =
     (let name = TrimSpace (zcr_Name req) in
      go_guard (name = []) ErrInvalidInput (
      go_bind NewBase (\<lambda>(i, t).
      let zone = \<lparr>ID = i, CreatedAt = t, UpdatedAt = t, DeletedAt = None, TenantID = tenantID,
            EventID = zcr_EventID req, vz_Name = name, vz_Description = opt_str (zcr_Description req),
            vz_SortOrder = zcr_SortOrder req\<rparr> in
      go_bind (SeatingRepository_CreateZone zone) (\<lambda>_. go_ret zone))))"

definition SeatingService_GetZone :: "uuid \<Rightarrow> uuid \<Rightarrow> venue_zone app" where
  "SeatingService_GetZone tenantID zoneID = SeatingRepository_GetZone tenantID zoneID"

definition SeatingService_ListZones :: "(string \<Rightarrow> rat) \<Rightarrow> uuid \<Rightarrow> uuid \<Rightarrow> venue_zone list app" where
  "SeatingService_ListZones coll tenantID eventID = SeatingRepository_ListZonesByEvent coll tenantID eventID"

definition SeatingService_DeleteZone :: "uuid \<Rightarrow> uuid \<Rightarrow> unit app" where
  "SeatingService_DeleteZone tenantID zoneID = SeatingRepository_SoftDeleteZone tenantID zoneID"

definition isValidTableShape :: "string \<Rightarrow> bool" where
  "isValidTableShape shape \<longleftrightarrow> shape \<in> {TableShapeRound, TableShapeRectangular, TableShapeSquare,
     TableShapeOval, TableShapeUShape}"

text \<open>Both coordinates are checked, and only where both are given.\<close>

definition negative_position :: "float64 option \<Rightarrow> float64 option \<Rightarrow> bool" where
  "negative_position x y = (case (x, y) of (Some a, Some b) \<Rightarrow> a < 0 \<or> b < 0 | _ \<Rightarrow> False)"

definition SeatingService_CreateTable :: "uuid \<Rightarrow> uuid \<Rightarrow> table_create_request \<Rightarrow> seat_table app" where
  "SeatingService_CreateTable tenantID eventID req =
     (let name = TrimSpace (tcr_Name req);
          shape = (if tcr_Shape req = [] then TableShapeRound else tcr_Shape req) in
      go_guard (name = []) ErrInvalidInput (
      go_guard (tcr_Capacity req < 1) ErrInvalidInput (
      go_guard (999 < tcr_Capacity req) ErrInvalidInput (
      go_guard (\<not> isValidTableShape shape) ErrInvalidInput (
      go_guard (negative_position (tcr_PositionX req) (tcr_PositionY req)) ErrInvalidInput (
      go_bind uuid_New (\<lambda>i. go_bind now (\<lambda>created. go_bind now (\<lambda>updated.
      let table = \<lparr>ID = i, CreatedAt = created, UpdatedAt = updated, DeletedAt = None,
            TenantID = tenantID, EventID = eventID, tb_ZoneID = tcr_ZoneID req, tb_Name = name,
            tb_Capacity = tcr_Capacity req, tb_Shape = shape, tb_PositionX = tcr_PositionX req,
            tb_PositionY = tcr_PositionY req, tb_IsLocked = tcr_IsLocked req,
            tb_Accessibility = tcr_Accessibility req, tb_VIPOnly = tcr_VIPOnly req,
            tb_Notes = opt_str (tcr_Notes req)\<rparr> in
      go_bind (SeatingRepository_CreateTable table) (\<lambda>_. go_ret table))))))))))"

definition SeatingService_GetTable :: "(string \<Rightarrow> rat) \<Rightarrow> uuid \<Rightarrow> uuid \<Rightarrow> uuid \<Rightarrow> table_with_occupancy app" where
  "SeatingService_GetTable coll tenantID eventID tableID =
     go_bind (SeatingRepository_GetTableWithOccupancy tenantID eventID tableID) (\<lambda>table.
     go_bind (SeatingRepository_ListAssignmentsByTable coll tableID) (\<lambda>assignedGuests.
     go_ret (table\<lparr>to_AssignedGuests := assignedGuests\<rparr>)))"

definition SeatingService_ListTables :: "(string \<Rightarrow> rat) \<Rightarrow> uuid \<Rightarrow> uuid \<Rightarrow> table_with_occupancy list app" where
  "SeatingService_ListTables coll tenantID eventID = SeatingRepository_ListTablesByEvent coll tenantID eventID"

text \<open>The checks of a new capacity: its range, and that it is not below the occupancy.\<close>

definition check_capacity :: "uuid \<Rightarrow> int option \<Rightarrow> unit app" where
  "check_capacity tableID cap = (case cap of None \<Rightarrow> go_ret () | Some c \<Rightarrow>
     go_guard (c < 1) ErrInvalidInput (
     go_guard (999 < c) ErrInvalidInput (
     go_bind (SeatingRepository_CountAssignmentsByTable tableID) (\<lambda>n.
     go_guard (c < n) ErrInvalidInput (go_ret ())))))"

definition apply_table_update :: "table_update_request \<Rightarrow> seat_table \<Rightarrow> seat_table" where
  "apply_table_update req t = t\<lparr>
     tb_Name := (if tur_Name req = [] then tb_Name t else TrimSpace (tur_Name req)),
     tb_Capacity := (case tur_Capacity req of None \<Rightarrow> tb_Capacity t | Some c \<Rightarrow> c),
     tb_Shape := (if tur_Shape req = [] then tb_Shape t else tur_Shape req),
     tb_PositionX := coalesce (tur_PositionX req) (tb_PositionX t),
     tb_PositionY := coalesce (tur_PositionY req) (tb_PositionY t),
     tb_IsLocked := (case tur_IsLocked req of None \<Rightarrow> tb_IsLocked t | Some b \<Rightarrow> b),
     tb_Accessibility := (case tur_Accessibility req of None \<Rightarrow> tb_Accessibility t | Some b \<Rightarrow> b),
     tb_VIPOnly := (case tur_VIPOnly req of None \<Rightarrow> tb_VIPOnly t | Some b \<Rightarrow> b),
     tb_Notes := set_str (tur_Notes req) (tb_Notes t),
     tb_ZoneID := coalesce (tur_ZoneID req) (tb_ZoneID t)\<rparr>"

definition SeatingService_UpdateTable ::
  "uuid \<Rightarrow> uuid \<Rightarrow> uuid \<Rightarrow> table_update_request \<Rightarrow> seat_table app" where
  "SeatingService_UpdateTable tenantID eventID tableID req =
     go_bind (SeatingRepository_GetTable tenantID eventID tableID) (\<lambda>existing.
     go_bind (check_capacity tableID (tur_Capacity req)) (\<lambda>_.
     go_guard (tur_Shape req \<noteq> [] \<and> \<not> isValidTableShape (tur_Shape req)) ErrInvalidInput (
     go_guard (negative_position (tur_PositionX req) (tur_PositionY req)) ErrInvalidInput (
     go_bind now (\<lambda>t.
     let table = (apply_table_update req existing)\<lparr>UpdatedAt := t\<rparr> in
     go_bind (SeatingRepository_UpdateTable table) (\<lambda>_. go_ret table))))))"

definition SeatingService_DeleteTable :: "uuid \<Rightarrow> uuid \<Rightarrow> uuid \<Rightarrow> uuid \<Rightarrow> unit app" where
  "SeatingService_DeleteTable tenantID eventID tableID deletedBy =
     go_bind (SeatingRepository_SoftDeleteTable tenantID eventID tableID) (\<lambda>_.
     go_ignore (LogWithUser deletedBy tenantID AuditActionDelete ''table'' tableID
       (Some [(''event_id'', JUUID eventID), (''deleted'', JBool True)]) None)
     (go_ret ()))"

section \<open>The service: assignments\<close>

definition is_vip :: "guest \<Rightarrow> bool" where
  "is_vip g \<longleftrightarrow> g_GuestType g = GuestTypeVIP \<or> g_GuestType g = GuestTypeVVIP"

definition SeatingService_AssignGuest ::
  "uuid \<Rightarrow> uuid \<Rightarrow> uuid \<Rightarrow> assign_guest_request \<Rightarrow> uuid \<Rightarrow> unit app" where
  "SeatingService_AssignGuest tenantID eventID tableID req assignedBy =
     go_bind (SeatingRepository_GetTable tenantID eventID tableID) (\<lambda>table.
     go_guard (tb_IsLocked table) ErrForbidden (
     go_bind (GuestRepository_GetByIDForTenant tenantID (agr_GuestID req)) (\<lambda>guest.
     go_try (EventGuestRepository_GetByEventAndGuest tenantID eventID (agr_GuestID req)) (\<lambda>look.
     case look of Inl _ \<Rightarrow> go_fail ErrInvalidInput | Inr eventGuest \<Rightarrow>
     go_guard (tb_VIPOnly table \<and> \<not> is_vip guest) ErrForbidden (
     go_bind (SeatingRepository_CountAssignmentsByTable tableID) (\<lambda>n.
     go_bind (SeatingRepository_GetGuestAssignment tenantID eventID (agr_GuestID req)) (\<lambda>existing.
     let isUpdate = (case existing of None \<Rightarrow> False | Some a \<Rightarrow> sa_TableID a = tableID) in
     go_guard (\<not> isUpdate \<and> tb_Capacity table \<le> n) ErrInvalidInput (
     go_bind now (\<lambda>t.
     SeatingRepository_AssignGuest \<lparr>sa_TableID = tableID, sa_GuestID = agr_GuestID req,
       sa_EventGuestID = Some (ID eventGuest), sa_SeatNumber = agr_SeatNumber req,
       sa_AssignedBy = assignedBy, sa_AssignedAt = t\<rparr>)))))))))"

definition SeatingService_UnassignGuest :: "uuid \<Rightarrow> uuid \<Rightarrow> uuid \<Rightarrow> uuid \<Rightarrow> unit app" where
  "SeatingService_UnassignGuest tenantID eventID tableID guestID =
     go_bind (SeatingRepository_GetTable tenantID eventID tableID) (\<lambda>_.
     SeatingRepository_UnassignGuest tableID guestID)"

text \<open>
  \<open>AutoAssign\<close>. The maps of capacities and occupancies read zero for a missing key. The inner loop
  yields the nil id where no table fits; the counters stay below the page size of one hundred.
\<close>

definition unlocked_map :: "(table_with_occupancy \<Rightarrow> int) \<Rightarrow> table_with_occupancy list \<Rightarrow> uuid \<Rightarrow> int" where
  "unlocked_map f tables = fold (\<lambda>t m. if tb_IsLocked (to_Table t) then m
     else m(ID (to_Table t) := f t)) tables (\<lambda>_. 0)"

fun first_table :: "uuid \<Rightarrow> uuid \<Rightarrow> (uuid \<Rightarrow> int) \<Rightarrow> (uuid \<Rightarrow> int) \<Rightarrow> table_with_occupancy list \<Rightarrow> uuid app" where
  "first_table tenantID guestID caps occs [] = go_ret uuid_Nil"
| "first_table tenantID guestID caps occs (tw # ts) =
     (let t = to_Table tw; next = first_table tenantID guestID caps occs ts in
      if tb_IsLocked t then next
      else if occs (ID t) < caps (ID t) then
        (if tb_VIPOnly t then go_try (GuestRepository_GetByIDForTenant tenantID guestID) (\<lambda>r.
           case r of Inl _ \<Rightarrow> next | Inr g \<Rightarrow> if is_vip g then go_ret (ID t) else next)
         else go_ret (ID t))
      else next)"

fun assign_loop :: "uuid \<Rightarrow> uuid \<Rightarrow> uuid list \<Rightarrow> table_with_occupancy list \<Rightarrow> (uuid \<Rightarrow> int) \<Rightarrow> (uuid \<Rightarrow> int) \<Rightarrow>
    event_guest list \<Rightarrow> (int \<times> int) app" where
  "assign_loop tenantID assignedBy taken tables caps occs [] = go_ret (0, 0)"
| "assign_loop tenantID assignedBy taken tables caps occs (eg # egs) =
     (let skip = go_bind (assign_loop tenantID assignedBy taken tables caps occs egs) (\<lambda>(a, s). go_ret (a, s + 1)) in
      if GuestID eg \<in> set taken then skip
      else go_bind (first_table tenantID (GuestID eg) caps occs tables) (\<lambda>i.
        if i = uuid_Nil then skip
        else go_bind now (\<lambda>t.
          go_try (SeatingRepository_AssignGuest \<lparr>sa_TableID = i, sa_GuestID = GuestID eg,
            sa_EventGuestID = Some (ID eg), sa_SeatNumber = None, sa_AssignedBy = assignedBy,
            sa_AssignedAt = t\<rparr>) (\<lambda>r. case r of
              Inl _ \<Rightarrow> skip
            | Inr _ \<Rightarrow> go_bind (assign_loop tenantID assignedBy taken tables caps
                  (occs(i := occs i + 1)) egs) (\<lambda>(a, s). go_ret (a + 1, s))))))"

definition SeatingService_AutoAssign ::
  "(string \<Rightarrow> rat) \<Rightarrow> (string \<Rightarrow> string \<Rightarrow> bool) \<Rightarrow> uuid \<Rightarrow> uuid \<Rightarrow> uuid \<Rightarrow> (int \<times> int) app" where
  "SeatingService_AutoAssign coll ilike tenantID eventID assignedBy =
     go_bind (SeatingRepository_ListTablesByEvent coll tenantID eventID) (\<lambda>tables.
     go_bind (EventGuestRepository_List ilike \<lparr>egl_TenantID = tenantID, egl_EventID = eventID,
       egl_Search = [], egl_Status = EventGuestStatusActive, egl_Page = 1, egl_PerPage = 100\<rparr>) (\<lambda>roster.
     go_bind (SeatingRepository_ListAssignmentsByEvent tenantID eventID) (\<lambda>assignments.
     assign_loop tenantID assignedBy (map sa_GuestID assignments) tables
       (unlocked_map (\<lambda>t. tb_Capacity (to_Table t)) tables) (unlocked_map to_Occupancy tables) roster)))"

fun load_assigned :: "(string \<Rightarrow> rat) \<Rightarrow> table_with_occupancy list \<Rightarrow> table_with_occupancy list app" where
  "load_assigned coll [] = go_ret []"
| "load_assigned coll (t # ts) =
     go_bind (SeatingRepository_ListAssignmentsByTable coll (ID (to_Table t))) (\<lambda>gs.
     go_bind (load_assigned coll ts) (\<lambda>rest. go_ret (t\<lparr>to_AssignedGuests := gs\<rparr> # rest)))"

definition SeatingService_GetLayout ::
  "(string \<Rightarrow> rat) \<Rightarrow> (string \<Rightarrow> string \<Rightarrow> bool) \<Rightarrow> uuid \<Rightarrow> uuid \<Rightarrow> seating_layout app" where
  "SeatingService_GetLayout coll ilike tenantID eventID =
     go_bind (SeatingRepository_ListZonesByEvent coll tenantID eventID) (\<lambda>zones.
     go_bind (SeatingRepository_ListTablesByEvent coll tenantID eventID) (\<lambda>tables.
     go_bind (load_assigned coll tables) (\<lambda>tables.
     go_bind (SeatingRepository_CountUnassignedGuests tenantID eventID) (\<lambda>unassigned.
     go_bind (EventGuestRepository_Count ilike \<lparr>egl_TenantID = tenantID, egl_EventID = eventID,
       egl_Search = [], egl_Status = EventGuestStatusActive, egl_Page = 0, egl_PerPage = 0\<rparr>) (\<lambda>totalGuests.
     go_ret \<lparr>sl_EventID = eventID, sl_Zones = zones, sl_Tables = tables, sl_Unassigned = unassigned,
       sl_TotalGuests = totalGuests\<rparr>)))))"

section \<open>Writing a seat\<close>

text \<open>The row of an assignment replaces the one of the same table and guest, or is added.\<close>

definition same_seat :: "seat_assignment \<Rightarrow> seat_assignment \<Rightarrow> bool" where
  "same_seat a r \<longleftrightarrow> sa_TableID r = sa_TableID a \<and> sa_GuestID r = sa_GuestID a"

definition seat_at :: "seat_assignment \<Rightarrow> seat_assignment list \<Rightarrow> seat_assignment list" where
  "seat_at a rs = (if list_ex (same_seat a) rs then update_where (same_seat a) (\<lambda>_. a) rs else rs @ [a])"

abbreviation seat_key :: "seat_assignment \<Rightarrow> uuid \<times> uuid" where
  "seat_key a \<equiv> (sa_TableID a, sa_GuestID a)"

definition seated :: "uuid \<Rightarrow> seat_assignment list \<Rightarrow> nat" where
  "seated i rs = count_where (\<lambda>a. sa_TableID a = i) rs"

lemma occupancy_seated: "occupancy i d = int (seated i (seat_assignments d))"
  by (simp add: occupancy_def seated_def)

lemma seated_append [simp]: "seated i (rs @ [a]) = seated i rs + (if sa_TableID a = i then 1 else 0)"
  by (simp add: seated_def)

lemma seated_seat_at:
  "seated i (seat_at a rs) = seated i rs +
     (if sa_TableID a = i \<and> \<not> list_ex (same_seat a) rs then 1 else 0)"
  by (auto simp: seat_at_def seated_def same_seat_def intro!: count_where_update)

lemma seat_at_distinct:
  assumes "distinct (map seat_key rs)"
  shows "distinct (map seat_key (seat_at a rs))"
proof -
  have "map seat_key (update_where (same_seat a) (\<lambda>_. a) rs) = map seat_key rs"
    by (rule map_update_where) (simp add: same_seat_def)
  with assms show ?thesis
    by (auto simp: seat_at_def same_seat_def list_ex_iff)
qed

lemma set_seat_at: "set (seat_at a rs) \<subseteq> insert a (set rs)" "a \<in> set (seat_at a rs)"
  by (auto simp: seat_at_def set_update_where list_ex_iff)

text \<open>Keys are distinct, every seat is at a table, and no table seats more than its capacity.\<close>

definition seating_ok :: "seat_table list \<Rightarrow> seat_assignment list \<Rightarrow> bool" where
  "seating_ok ts rs \<longleftrightarrow> distinct (map ID ts) \<and> distinct (map seat_key rs)
     \<and> (\<forall>a \<in> set rs. has_id (sa_TableID a) ts)
     \<and> (\<forall>t \<in> set ts. 1 \<le> tb_Capacity t \<and> tb_Capacity t \<le> 999 \<and> int (seated (ID t) rs) \<le> tb_Capacity t)"

abbreviation seats :: "db \<Rightarrow> bool" where
  "seats d \<equiv> seating_ok (seat_tables d) (seat_assignments d)"

text \<open>
  The contract of the write: a success puts the row where it belongs and changes nothing else, a
  failure changes nothing. The client lemma: a table with a free seat, or with the guest at it
  already, stays within its capacity.
\<close>

locale seat_writer =
  fixes assign :: "seat_assignment \<Rightarrow> unit app"
  assumes assign_ok: "assign a w = (Inr u, w') \<Longrightarrow>
      store w' = (store w)\<lparr>seat_assignments := seat_at a (seat_assignments (store w))\<rparr>
      \<and> has_id (sa_TableID a) (seat_tables (store w))"
    and assign_fails: "assign a w = (Inl e, w') \<Longrightarrow> store w' = store w"
begin

lemma assign_keeps:
  assumes "assign a w = (r, w')" and "seats (store w)"
    and "\<And>t. t \<in> set (seat_tables (store w)) \<Longrightarrow> ID t = sa_TableID a \<Longrightarrow>
      list_ex (same_seat a) (seat_assignments (store w))
      \<or> int (seated (ID t) (seat_assignments (store w))) < tb_Capacity t"
  shows "seats (store w')"
proof (cases r)
  case (Inl e)
  with assms show ?thesis by (auto dest: assign_fails)
next
  case (Inr u)
  with assms(1) have w': "seat_assignments (store w') = seat_at a (seat_assignments (store w))"
    "seat_tables (store w') = seat_tables (store w)" "has_id (sa_TableID a) (seat_tables (store w))"
    by (auto dest: assign_ok)
  show ?thesis unfolding seating_ok_def w'(1,2)
    using assms(2,3) w'(3) set_seat_at(1) [of a "seat_assignments (store w)"]
    by (auto simp: seating_ok_def seated_seat_at seat_at_distinct subset_iff) fastforce+
qed

lemma assign_tables: "assign a w = (r, w') \<Longrightarrow> seat_tables (store w') = seat_tables (store w)"
  by (cases r) (auto dest: assign_ok assign_fails)

end

interpretation seat: seat_writer SeatingRepository_AssignGuest
proof
  fix a u and w w' :: "db world"
  assume "SeatingRepository_AssignGuest a w = (Inr u, w')"
  then show "store w' = (store w)\<lparr>seat_assignments := seat_at a (seat_assignments (store w))\<rparr>
      \<and> has_id (sa_TableID a) (seat_tables (store w))"
    by (auto simp: SeatingRepository_AssignGuest_def go_run upsert_assignment_def seat_at_def
        same_seat_def [abs_def] Let_def split: if_splits)
next
  fix a e and w w' :: "db world"
  assume "SeatingRepository_AssignGuest a w = (Inl e, w')"
  then show "store w' = store w"
    by (auto simp: SeatingRepository_AssignGuest_def go_run)
qed

section \<open>Every call keeps the seating consistent\<close>

lemma seated_filter: "seated i (filter p rs) \<le> seated i rs"
  by (induction rs) (auto simp: seated_def)

lemma seating_ok_filter: "seating_ok ts rs \<Longrightarrow> seating_ok ts (filter p rs)"
  unfolding seating_ok_def using seated_filter [of _ p rs]
  by (auto simp: distinct_map_filter) (meson of_nat_mono order_trans)

lemma has_id_map: "map ID ts' = map ID ts \<Longrightarrow> has_id i ts' = has_id i ts"
  by (simp add: has_id_def list_ex_iff) (metis (mono_tags) image_iff image_set)

lemma seating_ok_update:
  assumes "seating_ok ts rs"
    and f: "\<And>t. t \<in> set ts \<Longrightarrow> p t \<Longrightarrow> ID (f t) = ID t \<and> 1 \<le> tb_Capacity (f t) \<and> tb_Capacity (f t) \<le> 999
      \<and> int (seated (ID t) rs) \<le> tb_Capacity (f t)"
  shows "seating_ok (update_where p f ts) rs"
proof -
  have "map ID (update_where p f ts) = map ID ts" using f by (intro map_update_where) blast
  from has_id_map [OF this] this assms show ?thesis
    by (auto simp: seating_ok_def set_update_where)
qed

lemma seating_ok_same:
  "seating_ok ts rs \<Longrightarrow> (\<And>t. ID (f t) = ID t \<and> tb_Capacity (f t) = tb_Capacity t) \<Longrightarrow>
     seating_ok (update_where p f ts) rs"
  by (rule seating_ok_update) (auto simp: seating_ok_def)

lemma seating_ok_new_table:
  assumes "seating_ok ts rs" and "\<not> has_id (ID t) ts" and "0 < tb_Capacity t" "tb_Capacity t \<le> 999"
  shows "seating_ok (ts @ [t]) rs"
proof -
  from assms(1,2) have "seated (ID t) rs = 0" by (auto simp: seated_def count_where_0 seating_ok_def)
  with assms show ?thesis by (auto simp: seating_ok_def has_id_iff)
qed

abbreviation seats_kept :: "db \<Rightarrow> db \<Rightarrow> bool" where
  "seats_kept d d' \<equiv> seats d \<longrightarrow> seats d'"

definition seat_view :: "db \<Rightarrow> seat_table list \<times> seat_assignment list" where
  "seat_view d = (seat_tables d, seat_assignments d)"

lemma seat_view_frame [simp]: "seat_view (d\<lparr>venue_zones := zs\<rparr>) = seat_view d"
  by (simp add: seat_view_def)

lemma view_kept: "stays (\<lambda>d d'. seat_view d' = seat_view d) m \<Longrightarrow> stays seats_kept m"
  by (erule stays_mono) (auto simp: seat_view_def)

lemma pure_kept: "stays (=) m \<Longrightarrow> stays seats_kept m"
  by (erule stays_mono) auto

lemma CreateZone_seats: "stays seats_kept (SeatingService_CreateZone t req)"
  unfolding SeatingService_CreateZone_def SeatingRepository_CreateZone_def Let_def
  by (rule view_kept) (auto intro!: same.all_stays same.NewBase_stays simp: insert_zone_def split: if_splits)

lemma DeleteZone_seats: "stays seats_kept (SeatingService_DeleteZone t z)"
  unfolding SeatingService_DeleteZone_def SeatingRepository_SoftDeleteZone_def
  by (rule view_kept) (auto intro!: same.all_stays simp: sql_update_def)

lemma CreateTable_seats: "stays seats_kept (SeatingService_CreateTable t e req)"
  unfolding SeatingService_CreateTable_def SeatingRepository_CreateTable_def Let_def
  by (auto intro!: kept.all_stays seating_ok_new_table simp: insert_table_def table_row_ok_def split: if_splits)

lemma LogWithUser_seats: "stays seats_kept (LogWithUser u t a et ei ov nv)"
  by (rule view_kept) (rule stays_mono [OF LogWithUser_stays], auto simp: seat_view_def dest: audit_free_tables)

lemma DeleteTable_seats: "stays seats_kept (SeatingService_DeleteTable t e i u)"
  unfolding SeatingService_DeleteTable_def SeatingRepository_SoftDeleteTable_def
  by (auto intro!: kept.all_stays LogWithUser_seats simp: delete_assignments_def seating_ok_filter sql_update_def
      seating_ok_same)

lemma UnassignGuest_seats: "stays seats_kept (SeatingService_UnassignGuest t e i g)"
  unfolding SeatingService_UnassignGuest_def SeatingRepository_UnassignGuest_def SeatingRepository_GetTable_def
  by (auto intro!: kept.all_stays simp: delete_assignments_def seating_ok_filter)

lemma GetTable_Inr [go_run]:
  "SeatingRepository_GetTable t e i w = (Inr r, w') \<longleftrightarrow> \<not> faults w (pos w) \<and>
     find (table_key t e i) (seat_tables (store w)) = Some r \<and> w' = tick w"
  by (simp add: SeatingRepository_GetTable_def go_run)

lemma GetTable_pure: "stays (=) (SeatingRepository_GetTable t e i)"
  unfolding SeatingRepository_GetTable_def by (rule unchanged.get_one_stays)

lemma check_capacity_pure: "stays (=) (check_capacity i cap)"
  unfolding check_capacity_def SeatingRepository_CountAssignmentsByTable_def
  by (auto intro!: unchanged.all_stays split: option.split)

lemma check_capacity_Inr:
  "check_capacity i (Some c) w = (Inr u, w') \<Longrightarrow>
     1 \<le> c \<and> c \<le> 999 \<and> int (seated i (seat_assignments (store w))) \<le> c"
  unfolding check_capacity_def SeatingRepository_CountAssignmentsByTable_def
  by (auto elim!: go_elim_Inr simp: query_eq occupancy_seated split: if_split_asm)

lemma UpdateTable_repo_run:
  assumes "SeatingRepository_UpdateTable t w = (r, w')"
  obtains "store w' = store w" | "store w' = put_seat_tables (update_where
    (\<lambda>r. ID r = ID t \<and> TenantID r = TenantID t \<and> live r) (merge_table t) (seat_tables (store w))) (store w)"
proof (cases r)
  case (Inl e)
  with assms have "store w' = store w" unfolding SeatingRepository_UpdateTable_def Let_def
    by (intro seat_tables_table.update_keeps) simp
  then show thesis by (rule that(1))
next
  case (Inr u)
  with assms show thesis unfolding SeatingRepository_UpdateTable_def Let_def
    by (auto simp: exec_rows_Inr sql_update_def split: if_split_asm intro: that(2))
qed

lemma apply_table_update_sel [simp]:
  "ID (apply_table_update req t) = ID t" "TenantID (apply_table_update req t) = TenantID t"
  "tb_Capacity (apply_table_update req t) = (case tur_Capacity req of None \<Rightarrow> tb_Capacity t | Some c \<Rightarrow> c)"
  by (simp_all add: apply_table_update_def)

lemma merge_table_sel [simp]:
  "ID (merge_table t old) = ID old"
  "tb_Capacity (merge_table t old) = (if tb_Capacity t = 0 then tb_Capacity old else tb_Capacity t)"
  by (simp_all add: merge_table_def)

lemma UpdateTable_run:
  assumes "SeatingService_UpdateTable tn e i req w = (r, w')"
  obtains "store w' = store w" | old tm where "find (table_key tn e i) (seat_tables (store w)) = Some old"
    "\<And>c. tur_Capacity req = Some c \<Longrightarrow> 1 \<le> c \<and> c \<le> 999 \<and> int (seated i (seat_assignments (store w))) \<le> c"
    "store w' = put_seat_tables (update_where (\<lambda>r. ID r = ID old \<and> TenantID r = TenantID old \<and> live r)
      (merge_table ((apply_table_update req old)\<lparr>UpdatedAt := tm\<rparr>)) (seat_tables (store w))) (store w)"
  using assms unfolding SeatingService_UpdateTable_def Let_def
proof (cases rule: pure_bind [OF _ GetTable_pure, consumes 1, case_names stop look])
  case (look old v)
  from look(3) show thesis
  proof (cases rule: pure_bind [OF _ check_capacity_pure, consumes 1, case_names stop cap])
    case (cap u v')
    have st: "store v' = store w" using look(2) cap(2) by simp
    from cap(3) show thesis
    proof (cases rule: pure_guard [case_names stop shape])
      case shape
      from shape(2) show thesis
      proof (cases rule: pure_guard [case_names stop position])
        case position
        let ?t = "(apply_table_update req old)\<lparr>UpdatedAt := clock v' (pos v')\<rparr>"
        from position(2) obtain s where "SeatingRepository_UpdateTable ?t (tick v') = (s, w')"
          by (cases r) (auto elim!: go_elim simp: now_eq)
        then show thesis
        proof (cases rule: UpdateTable_repo_run [case_names same written])
          case written
          show thesis
          proof (rule that(2))
            show "find (table_key tn e i) (seat_tables (store w)) = Some old"
              using look(1) by (simp add: GetTable_Inr)
            show "1 \<le> c \<and> c \<le> 999 \<and> int (seated i (seat_assignments (store w))) \<le> c"
              if "tur_Capacity req = Some c" for c
              using check_capacity_Inr [OF cap(1) [unfolded that]] look(2) by simp
          qed (use written st in simp)
        qed (use st that(1) in simp)
      qed (use st that(1) in simp)
    qed (use st that(1) in simp)
  qed (use look(2) that(1) in simp)
qed (rule that(1))

lemma UpdateTable_seats: "stays seats_kept (SeatingService_UpdateTable t e i req)"
proof (rule staysI, rule impI)
  fix w r and w' :: "db world"
  assume run: "SeatingService_UpdateTable t e i req w = (r, w')" and ok: "seats (store w)"
  from run show "seats (store w')"
  proof (cases rule: UpdateTable_run)
    case (2 old tm)
    have old: "old \<in> set (seat_tables (store w))" "ID old = i"
      using find_Some_D [OF 2(1)] by (auto simp: table_key_def)
    have one: "x = old" if "x \<in> set (seat_tables (store w))" "ID x = ID old" for x
      using ok old that unfolding seating_ok_def distinct_map by (auto dest: inj_onD)
    have old_ok: "1 \<le> tb_Capacity old" "tb_Capacity old \<le> 999"
      "int (seated i (seat_assignments (store w))) \<le> tb_Capacity old"
      using ok old by (auto simp: seating_ok_def)
    let ?new = "(apply_table_update req old)\<lparr>UpdatedAt := tm\<rparr>"
    have cap: "1 \<le> tb_Capacity ?new \<and> tb_Capacity ?new \<le> 999
        \<and> int (seated i (seat_assignments (store w))) \<le> tb_Capacity ?new"
      using old_ok 2(2) by (simp split: option.split)
    have "seating_ok (update_where (\<lambda>r. ID r = ID old \<and> TenantID r = TenantID old \<and> live r)
        (merge_table ?new) (seat_tables (store w))) (seat_assignments (store w))"
      using ok
    proof (rule seating_ok_update)
      fix x
      assume "x \<in> set (seat_tables (store w))" "ID x = ID old \<and> TenantID x = TenantID old \<and> live x"
      with one have "x = old" by blast
      then show "ID (merge_table ?new x) = ID x \<and> 1 \<le> tb_Capacity (merge_table ?new x)
          \<and> tb_Capacity (merge_table ?new x) \<le> 999
          \<and> int (seated (ID x) (seat_assignments (store w))) \<le> tb_Capacity (merge_table ?new x)"
        using cap old(2) unfolding merge_table_sel by auto
    qed
    then show ?thesis unfolding 2(3) by simp
  qed (use ok in simp)
qed

definition new_seat :: "uuid \<Rightarrow> uuid \<Rightarrow> uuid \<Rightarrow> int option \<Rightarrow> uuid \<Rightarrow> time \<Rightarrow> seat_assignment" where
  "new_seat tableID guestID eventGuestID seat assignedBy t = \<lparr>sa_TableID = tableID, sa_GuestID = guestID,
     sa_EventGuestID = Some eventGuestID, sa_SeatNumber = seat, sa_AssignedBy = assignedBy, sa_AssignedAt = t\<rparr>"

lemma new_seat_sel [simp]:
  "sa_TableID (new_seat i g eg s u t) = i" "sa_GuestID (new_seat i g eg s u t) = g"
  "sa_EventGuestID (new_seat i g eg s u t) = Some eg" "sa_SeatNumber (new_seat i g eg s u t) = s"
  "sa_AssignedBy (new_seat i g eg s u t) = u"
  by (simp_all add: new_seat_def)

lemma seat_queries_pure:
  "stays (=) (SeatingRepository_CountAssignmentsByTable i)"
  "stays (=) (SeatingRepository_GetGuestAssignment t e g)"
  "stays (=) (GuestRepository_GetByIDForTenant t g)"
  "stays (=) now"
  unfolding SeatingRepository_CountAssignmentsByTable_def SeatingRepository_GetGuestAssignment_def
    GuestRepository_GetByIDForTenant_def
  by (rule unchanged.query_stays unchanged.get_one_stays unchanged.now_stays)+

text \<open>What has been checked when a single assignment reaches the write.\<close>

definition may_seat :: "uuid \<Rightarrow> uuid \<Rightarrow> uuid \<Rightarrow> uuid \<Rightarrow> uuid \<Rightarrow> db \<Rightarrow> bool" where
  "may_seat tn e i g eg d \<longleftrightarrow> (\<exists>t \<in> set (seat_tables d). table_key tn e i t \<and> \<not> tb_IsLocked t
     \<and> (list_ex (\<lambda>a. sa_TableID a = i \<and> sa_GuestID a = g) (seat_assignments d)
        \<or> int (seated i (seat_assignments d)) < tb_Capacity t)
     \<and> (\<exists>x \<in> set (guests d). guest_key tn g x \<and> (tb_VIPOnly t \<longrightarrow> is_vip x)))
     \<and> (\<exists>r \<in> set (event_guests d). roster_key tn e eg r \<and> GuestID r = g)"

text \<open>The second half of the call, from the VIP check on.\<close>

lemma AssignGuest_tail:
  assumes "go_guard vip ErrForbidden (
     go_bind (SeatingRepository_CountAssignmentsByTable i) (\<lambda>n.
     go_bind (SeatingRepository_GetGuestAssignment tn e g) (\<lambda>existing.
     go_guard (\<not> (case existing of None \<Rightarrow> False | Some a \<Rightarrow> sa_TableID a = i) \<and> cap \<le> n) ErrInvalidInput (
     go_bind now (\<lambda>t. SeatingRepository_AssignGuest (new_seat i g eg seat u t)))))) w = (r, w')"
  obtains (stop) x where "r = Inl x" and "store w' = store w"
  | (wrote) tm v where "\<not> vip" and "list_ex (\<lambda>a. sa_TableID a = i \<and> sa_GuestID a = g) (seat_assignments (store w))
        \<or> int (seated i (seat_assignments (store w))) < cap"
      and "SeatingRepository_AssignGuest (new_seat i g eg seat u tm) v = (r, w')" and "store v = store w"
  using assms
proof (cases rule: pure_guard [case_names stop' vip])
  case vip
  from vip(2) show thesis
  proof (cases rule: pure_bind [OF _ seat_queries_pure(1), consumes 1, case_names stop' cnt])
    case (cnt n v4)
    from cnt(3) show thesis
    proof (cases rule: pure_bind [OF _ seat_queries_pure(2), consumes 1, case_names stop' ex])
      case (ex old v5)
      from ex(3) show thesis
      proof (cases rule: pure_guard [case_names stop' room])
        case room
        from room(2) obtain tm v6 where v6: "SeatingRepository_AssignGuest (new_seat i g eg seat u tm) v6 = (r, w')"
          "store v6 = store v5"
          by (cases r) (auto elim!: go_elim simp: now_eq)
        have n: "n = int (seated i (seat_assignments (store w)))"
          using cnt(1) by (simp add: SeatingRepository_CountAssignmentsByTable_def query_eq
              occupancy_seated split: if_split_asm)
        have "list_ex (\<lambda>a. sa_TableID a = i \<and> sa_GuestID a = g) (seat_assignments (store w))"
          if "old = Some a" "sa_TableID a = i" for a
        proof -
          have "find (\<lambda>a. sa_GuestID a = g \<and> seated_in tn e (store w) a) (seat_assignments (store w)) = Some a"
            using ex(1) that(1) cnt(2)
            by (simp add: SeatingRepository_GetGuestAssignment_def query_eq split: if_split_asm)
          from find_Some_D [OF this] that(2) show ?thesis by (auto simp: list_ex_iff)
        qed
        with room(1) n have "list_ex (\<lambda>a. sa_TableID a = i \<and> sa_GuestID a = g) (seat_assignments (store w))
            \<or> int (seated i (seat_assignments (store w))) < cap" by (auto split: option.split_asm)
        from vip(1) this v6(1) show thesis by (rule wrote) (simp add: v6(2) ex(2) cnt(2))
      qed (use stop cnt(2) ex(2) in simp)
    qed (use stop cnt(2) in simp)
  qed (rule stop)
qed (rule stop)

lemma AssignGuest_run:
  assumes "SeatingService_AssignGuest tn e i req u w = (r, w')"
  obtains (stop) x where "r = Inl x" and "store w' = store w"
  | (wrote) eg tm v where "may_seat tn e i (agr_GuestID req) eg (store w)"
      and "SeatingRepository_AssignGuest (new_seat i (agr_GuestID req) eg (agr_SeatNumber req) u tm) v = (r, w')"
      and "store v = store w"
  using assms unfolding SeatingService_AssignGuest_def Let_def new_seat_def [symmetric]
proof (cases rule: pure_bind [OF _ GetTable_pure, consumes 1, case_names stop' tab])
  case (tab t v1)
  from tab(3) show thesis
  proof (cases rule: pure_guard [case_names stop' lock])
    case lock
    from lock(2) show thesis
    proof (cases rule: pure_bind [OF _ seat_queries_pure(3), consumes 1, case_names stop' guest])
      case (guest g v2)
      from guest(3) show thesis
      proof (rule go_try_elim)
        fix s v3
        assume look: "EventGuestRepository_GetByEventAndGuest tn e (agr_GuestID req) v2 = (s, v3)"
          and rest: "(case s of Inl _ \<Rightarrow> go_fail ErrInvalidInput | Inr eventGuest \<Rightarrow>
            go_guard (tb_VIPOnly t \<and> \<not> is_vip g) ErrForbidden (
            go_bind (SeatingRepository_CountAssignmentsByTable i) (\<lambda>n.
            go_bind (SeatingRepository_GetGuestAssignment tn e (agr_GuestID req)) (\<lambda>existing.
            go_guard (\<not> (case existing of None \<Rightarrow> False | Some a \<Rightarrow> sa_TableID a = i) \<and> tb_Capacity t \<le> n) ErrInvalidInput (
            go_bind now (\<lambda>t. SeatingRepository_AssignGuest
              (new_seat i (agr_GuestID req) (ID eventGuest) (agr_SeatNumber req) u t))))))) v3 = (r, w')"
        have st: "store v3 = store w" "store v2 = store w"
          using roster.lookup_store [OF look] guest(2) tab(2) by simp_all
        show thesis
        proof (cases s)
          case (Inr eg)
          have found: "t \<in> set (seat_tables (store w))" "table_key tn e i t"
            "g \<in> set (guests (store w))" "guest_key tn (agr_GuestID req) g"
            using tab(1,2) guest(1) by (auto simp: GetTable_Inr GuestRepository_GetByIDForTenant_Inr dest!: find_Some_D)
          have "\<exists>r \<in> set (event_guests (store w)). roster_key tn e (ID eg) r \<and> GuestID r = agr_GuestID req"
            using roster.lookup_sound [OF look [unfolded Inr]] st by (auto simp: roster_key_def)
          then have may: "may_seat tn e i (agr_GuestID req) (ID eg) (store w)"
            if "\<not> (tb_VIPOnly t \<and> \<not> is_vip g)"
              "list_ex (\<lambda>a. sa_TableID a = i \<and> sa_GuestID a = agr_GuestID req) (seat_assignments (store w))
                \<or> int (seated i (seat_assignments (store w))) < tb_Capacity t"
            using that found lock(1) unfolding may_seat_def by blast
          from rest [unfolded Inr sum.case] show thesis
            by (cases rule: AssignGuest_tail) (use st stop wrote may in \<open>simp_all\<close>)
        qed (use rest st stop in auto)
      qed
    qed (use stop tab(2) in simp)
  qed (use stop tab(2) in simp)
qed (rule stop)

lemma AssignGuest_seats: "stays seats_kept (SeatingService_AssignGuest t e i req u)"
proof (rule staysI, rule impI)
  fix w r and w' :: "db world"
  assume run: "SeatingService_AssignGuest t e i req u w = (r, w')" and ok: "seats (store w)"
  from run show "seats (store w')"
  proof (cases rule: AssignGuest_run)
    case (wrote eg tm v)
    have one: "x = y" if "x \<in> set (seat_tables (store w))" "y \<in> set (seat_tables (store w))" "ID x = ID y" for x y
      using ok that unfolding seating_ok_def distinct_map by (auto dest: inj_onD)
    show ?thesis
      using wrote(1) ok wrote(3) unfolding may_seat_def
      by (intro seat.assign_keeps [OF wrote(2)])
        (auto simp: same_seat_def [abs_def] table_key_def dest: one)
  qed (use ok in simp)
qed

subsection \<open>The automatic assignment\<close>

text \<open>A table that the loop may choose for a guest.\<close>

definition eligible :: "uuid \<Rightarrow> uuid \<Rightarrow> db \<Rightarrow> table_with_occupancy \<Rightarrow> bool" where
  "eligible tn g d tw \<longleftrightarrow> \<not> tb_IsLocked (to_Table tw)
     \<and> (tb_VIPOnly (to_Table tw) \<longrightarrow> (\<exists>x \<in> set (guests d). guest_key tn g x \<and> is_vip x))"

lemma first_table_run:
  assumes "first_table tn g caps occs ts w = (r, w')"
  shows "store w' = store w \<and> (\<exists>i. r = Inr i \<and> (i = uuid_Nil \<or>
    (\<exists>tw \<in> set ts. ID (to_Table tw) = i \<and> eligible tn g (store w) tw \<and> occs i < caps i)))"
  using assms
proof (induction ts arbitrary: w)
  case (Cons tw ts)
  show ?case
  proof (cases "tb_IsLocked (to_Table tw) \<or> \<not> occs (ID (to_Table tw)) < caps (ID (to_Table tw))")
    case True
    with Cons.prems have "first_table tn g caps occs ts w = (r, w')" by (auto simp: Let_def split: if_split_asm)
    from Cons.IH [OF this] show ?thesis by auto
  next
    case False
    show ?thesis
    proof (cases "tb_VIPOnly (to_Table tw)")
      case True
      with False Cons.prems obtain s v where look: "GuestRepository_GetByIDForTenant tn g w = (s, v)"
        and rest: "(case s of Inl _ \<Rightarrow> first_table tn g caps occs ts | Inr x \<Rightarrow>
          if is_vip x then go_ret (ID (to_Table tw)) else first_table tn g caps occs ts) v = (r, w')"
        by (auto simp: Let_def elim!: go_try_elim)
      have v: "store v = store w" using staysD [OF seat_queries_pure(3) look] by simp
      show ?thesis
      proof (cases "\<exists>x. s = Inr x \<and> is_vip x")
        case True
        then obtain x where x: "s = Inr x" "is_vip x" by blast
        with look have "x \<in> set (guests (store w))" "guest_key tn g x"
          by (auto simp: GuestRepository_GetByIDForTenant_Inr dest!: find_Some_D)
        with x rest False v show ?thesis by (auto simp: eligible_def)
      next
        case False
        with rest have "first_table tn g caps occs ts v = (r, w')" by (auto split: sum.split_asm if_split_asm)
        from Cons.IH [OF this] v show ?thesis by auto
      qed
    qed (use False Cons.prems in \<open>auto simp: Let_def eligible_def\<close>)
  qed
qed simp

text \<open>One round of the loop: a guest is skipped or seated.\<close>

lemma assign_round:
  assumes "assign_loop tn u taken ts caps occs (eg # egs) w = (r, w')"
  obtains (skip) s v where "assign_loop tn u taken ts caps occs egs v = (s, w')" and "store v = store w"
      and "r = map_sum (\<lambda>e. e) (\<lambda>(a, k). (a, k + 1)) s"
  | (seat) s v v' tw tm where "tw \<in> set ts" and "eligible tn (GuestID eg) (store w) tw"
      and "occs (ID (to_Table tw)) < caps (ID (to_Table tw))" and "GuestID eg \<notin> set taken"
      and "SeatingRepository_AssignGuest (new_seat (ID (to_Table tw)) (GuestID eg) (ID eg) None u tm) v = (Inr (), v')"
      and "store v = store w"
      and "assign_loop tn u taken ts caps (occs(ID (to_Table tw) := occs (ID (to_Table tw)) + 1)) egs v' = (s, w')"
      and "r = map_sum (\<lambda>e. e) (\<lambda>(a, k). (a + 1, k)) s"
proof -
  have skip': thesis if "go_bind (assign_loop tn u taken ts caps occs egs) (\<lambda>(a, s). go_ret (a, s + 1)) v = (r, w')"
    and "store v = store w" for v
    using that(1) by (cases r) (auto elim!: go_elim intro!: skip that(2) split: prod.splits)
  show thesis
  proof (cases "GuestID eg \<in> set taken")
    case True
    with assms skip' [of w] show thesis by (simp add: Let_def)
  next
    case False
    obtain x v where ft: "first_table tn (GuestID eg) caps occs ts w = (x, v)" by fastforce
    from first_table_run [OF this] obtain i where x: "x = Inr i" "store v = store w"
      and i: "i = uuid_Nil \<or> (\<exists>tw \<in> set ts. ID (to_Table tw) = i \<and> eligible tn (GuestID eg) (store w) tw \<and> occs i < caps i)"
      by blast
    show thesis
    proof (cases "i = uuid_Nil")
      case True
      with assms False ft x skip' [of v] show thesis by (simp add: go_bind_run Let_def)
    next
      case nn: False
      with i obtain tw where tw: "tw \<in> set ts" "ID (to_Table tw) = i" "eligible tn (GuestID eg) (store w) tw" "occs i < caps i"
        by blast
      obtain y v' where as: "SeatingRepository_AssignGuest (new_seat i (GuestID eg) (ID eg) None u (clock v (pos v))) (tick v) = (y, v')"
        by fastforce
      note as' = as [unfolded new_seat_def]
      show thesis
      proof (cases y)
        case (Inl e)
        with assms False ft x nn as' have "go_bind (assign_loop tn u taken ts caps occs egs) (\<lambda>(a, s). go_ret (a, s + 1)) v' = (r, w')"
          by (simp add: go_bind_run go_try_run now_def Let_def)
        with skip' [of v'] x(2) seat.assign_fails [OF as [unfolded Inl]] show thesis by simp
      next
        case (Inr z)
        with assms False ft x nn as' have "go_bind (assign_loop tn u taken ts caps (occs(i := occs i + 1)) egs)
            (\<lambda>(a, s). go_ret (a + 1, s)) v' = (r, w')"
          by (simp add: go_bind_run go_try_run now_def Let_def)
        then show thesis using tw False as Inr x(2)
          by (cases r) (auto elim!: go_elim intro!: seat [of tw] split: prod.splits)
      qed
    qed
  qed
qed

text \<open>The maps of the loop never promise more room than there is.\<close>

definition tracks :: "db \<Rightarrow> table_with_occupancy list \<Rightarrow> (uuid \<Rightarrow> int) \<Rightarrow> (uuid \<Rightarrow> int) \<Rightarrow> bool" where
  "tracks d ts caps occs \<longleftrightarrow> (\<forall>tw \<in> set ts. \<not> tb_IsLocked (to_Table tw) \<longrightarrow>
     to_Table tw \<in> set (seat_tables d) \<and> caps (ID (to_Table tw)) = tb_Capacity (to_Table tw)
     \<and> int (seated (ID (to_Table tw)) (seat_assignments d)) \<le> occs (ID (to_Table tw)))"

lemma assign_loop_seats:
  assumes "assign_loop tn u taken ts caps occs egs w = (r, w')" and "seats (store w)"
    and "tracks (store w) ts caps occs"
  shows "seats (store w')"
  using assms
proof (induction egs arbitrary: w r occs)
  case (Cons eg egs)
  from Cons.prems(1) show ?case
  proof (cases rule: assign_round)
    case (skip s v)
    with Cons.IH [OF skip(1)] Cons.prems(2,3) show ?thesis by simp
  next
    case (seat s v v' tw tm)
    let ?i = "ID (to_Table tw)" and ?a = "new_seat (ID (to_Table tw)) (GuestID eg) (ID eg) None u tm"
    have tw: "to_Table tw \<in> set (seat_tables (store w))" "caps ?i = tb_Capacity (to_Table tw)"
      "int (seated ?i (seat_assignments (store w))) \<le> occs ?i"
      using Cons.prems(3) seat(1,2) by (auto simp: tracks_def eligible_def)
    have one: "x = to_Table tw" if "x \<in> set (seat_tables (store w))" "ID x = ?i" for x
      using Cons.prems(2) tw(1) that unfolding seating_ok_def distinct_map by (auto dest: inj_onD)
    have room: "seats (store v')"
    proof (rule seat.assign_keeps [OF seat(5)])
      fix x
      assume "x \<in> set (seat_tables (store v))" "ID x = sa_TableID ?a"
      then have "x = to_Table tw" using one seat(6) by simp
      then show "list_ex (same_seat ?a) (seat_assignments (store v))
          \<or> int (seated (ID x) (seat_assignments (store v))) < tb_Capacity x"
        using seat(3,6) tw by simp
    qed (use Cons.prems(2) seat(6) in simp)
    have v': "seat_tables (store v') = seat_tables (store w)"
      "seat_assignments (store v') = seat_at ?a (seat_assignments (store w))"
      using seat.assign_ok [OF seat(5)] seat(6) by auto
    have "tracks (store v') ts caps (occs(?i := occs ?i + 1))"
      using Cons.prems(3) tw(3) unfolding tracks_def v' by (auto simp: seated_seat_at)
    then show ?thesis by (rule Cons.IH [OF seat(7) room])
  qed
qed simp

lemma unlocked_map_miss: "\<forall>t \<in> set ts. ID (to_Table t) \<noteq> i \<Longrightarrow>
    fold (\<lambda>t m. if tb_IsLocked (to_Table t) then m else m(ID (to_Table t) := f t)) ts m0 i = m0 i"
  by (induction ts arbitrary: m0) auto

lemma unlocked_map_get:
  assumes "distinct (map (\<lambda>t. ID (to_Table t)) ts)" and "t \<in> set ts" and "\<not> tb_IsLocked (to_Table t)"
  shows "unlocked_map f ts (ID (to_Table t)) = f t"
proof -
  from assms(2) obtain xs ys where "ts = xs @ t # ys" by (meson split_list)
  moreover from this assms(1) have "\<forall>x \<in> set ys. ID (to_Table x) \<noteq> ID (to_Table t)" by (auto simp: image_iff)
  ultimately show ?thesis using assms(3)
    by (simp add: unlocked_map_def unlocked_map_miss)
qed

lemma with_occupancy_sel [simp]: "to_Table (with_occupancy d t) = t" "to_Occupancy (with_occupancy d t) = occupancy (ID t) d"
  by (simp_all add: with_occupancy_def)

lemma ListTablesByEvent_Inr:
  assumes "SeatingRepository_ListTablesByEvent coll t e w = (Inr ts, w')"
  shows "store w' = store w" and "map to_Table ts = sort_key (\<lambda>r. coll (tb_Name r))
      (filter (\<lambda>r. TenantID r = t \<and> EventID r = e \<and> live r) (seat_tables (store w)))"
    and "\<And>tw. tw \<in> set ts \<Longrightarrow> tw = with_occupancy (store w) (to_Table tw)"
  using assms by (auto simp: SeatingRepository_ListTablesByEvent_def query_eq comp_def with_occupancy_def
      split: if_split_asm)

lemma listed_tables:
  assumes "SeatingRepository_ListTablesByEvent coll t e w = (Inr ts, w')" and "seats (store w)"
  shows "tracks (store w) ts (unlocked_map (\<lambda>t. tb_Capacity (to_Table t)) ts) (unlocked_map to_Occupancy ts)"
proof -
  let ?rs = "filter (\<lambda>r. TenantID r = t \<and> EventID r = e \<and> live r) (seat_tables (store w))"
  have "distinct (map ID ?rs)" using assms(2) by (simp add: seating_ok_def distinct_map_filter)
  then have "distinct (map ID (map to_Table ts))"
    unfolding ListTablesByEvent_Inr(2) [OF assms(1)] by (auto simp: distinct_map)
  then have d: "distinct (map (\<lambda>t. ID (to_Table t)) ts)" by (simp add: comp_def)
  have mem: "to_Table tw \<in> set (seat_tables (store w))" if "tw \<in> set ts" for tw
  proof -
    from that have "to_Table tw \<in> set (map to_Table ts)" by simp
    then show ?thesis unfolding ListTablesByEvent_Inr(2) [OF assms(1)] by simp
  qed
  have occ: "to_Occupancy tw = int (seated (ID (to_Table tw)) (seat_assignments (store w)))" if "tw \<in> set ts" for tw
    using ListTablesByEvent_Inr(3) [OF assms(1) that] by (metis occupancy_seated with_occupancy_sel(2))
  show ?thesis unfolding tracks_def using d mem occ by (auto simp: unlocked_map_get)
qed

lemma list_pure:
  "stays (=) (SeatingRepository_ListTablesByEvent coll t e)"
  "stays (=) (SeatingRepository_ListAssignmentsByEvent t e)"
  "stays (=) (EventGuestRepository_List ilike p)"
  unfolding SeatingRepository_ListTablesByEvent_def SeatingRepository_ListAssignmentsByEvent_def
    EventGuestRepository_List_def Let_def
  by (rule unchanged.query_stays unchanged.get_one_stays)+

lemma AutoAssign_run:
  assumes "SeatingService_AutoAssign coll ilike tn e u w = (r, w')"
  obtains (stop) x where "r = Inl x" and "store w' = store w"
  | (looped) ts egs as v v2 v3 where "SeatingRepository_ListTablesByEvent coll tn e w = (Inr ts, v)"
      and "EventGuestRepository_List ilike \<lparr>egl_TenantID = tn, egl_EventID = e, egl_Search = [],
        egl_Status = EventGuestStatusActive, egl_Page = 1, egl_PerPage = 100\<rparr> v = (Inr egs, v2)"
      and "SeatingRepository_ListAssignmentsByEvent tn e v2 = (Inr as, v3)"
      and "store v = store w" "store v2 = store w" "store v3 = store w"
      and "assign_loop tn u (map sa_GuestID as) ts (unlocked_map (\<lambda>t. tb_Capacity (to_Table t)) ts)
        (unlocked_map to_Occupancy ts) egs v3 = (r, w')"
  using assms unfolding SeatingService_AutoAssign_def
proof (cases rule: pure_bind [OF _ list_pure(1), consumes 1, case_names stop' tabs])
  case (tabs ts v)
  from tabs(3) show thesis
  proof (cases rule: pure_bind [OF _ list_pure(3), consumes 1, case_names stop' ros])
    case (ros egs v2)
    from ros(3) show thesis
    proof (cases rule: pure_bind [OF _ list_pure(2), consumes 1, case_names stop' ass])
      case (ass as v3)
      show thesis by (rule looped [OF tabs(1) ros(1) ass(1) _ _ _ ass(3)]) (simp_all add: tabs(2) ros(2) ass(2))
    qed (use stop tabs(2) ros(2) in simp)
  qed (use stop tabs(2) in simp)
qed (rule stop)

lemma AutoAssign_seats: "stays seats_kept (SeatingService_AutoAssign coll ilike t e u)"
proof (rule staysI, rule impI)
  fix w r and w' :: "db world"
  assume run: "SeatingService_AutoAssign coll ilike t e u w = (r, w')" and ok: "seats (store w)"
  from run show "seats (store w')"
  proof (cases rule: AutoAssign_run)
    case (looped ts egs as v v2 v3)
    show ?thesis
      using assign_loop_seats [OF looped(7)] listed_tables [OF looped(1) ok] ok looped(6) by simp
  qed (use ok in simp)
qed

text \<open>What the loop adds: one seat per guest it counts as assigned, none for the others.\<close>

definition auto_seat :: "uuid \<Rightarrow> uuid list \<Rightarrow> table_with_occupancy list \<Rightarrow> event_guest list \<Rightarrow> db \<Rightarrow> seat_assignment \<Rightarrow> bool" where
  "auto_seat tn taken ts egs d a \<longleftrightarrow> (\<exists>eg \<in> set egs. \<exists>tw \<in> set ts. sa_GuestID a = GuestID eg \<and> GuestID eg \<notin> set taken
     \<and> sa_TableID a = ID (to_Table tw) \<and> eligible tn (GuestID eg) d tw \<and> sa_EventGuestID a = Some (ID eg))"

lemma assign_loop_effect:
  assumes "assign_loop tn u taken ts caps occs egs w = (r, w')"
    and "distinct (map GuestID egs)"
    and "\<And>eg tw a. eg \<in> set egs \<Longrightarrow> GuestID eg \<notin> set taken \<Longrightarrow> tw \<in> set ts \<Longrightarrow>
      a \<in> set (seat_assignments (store w)) \<Longrightarrow> \<not> (sa_TableID a = ID (to_Table tw) \<and> sa_GuestID a = GuestID eg)"
  shows "\<exists>new. r = Inr (int (length new), int (length egs) - int (length new))
    \<and> store w' = (store w)\<lparr>seat_assignments := seat_assignments (store w) @ new\<rparr>
    \<and> (\<forall>a \<in> set new. auto_seat tn taken ts egs (store w) a) \<and> distinct (map sa_GuestID new)"
  using assms
proof (induction egs arbitrary: w r occs)
  case Nil
  then show ?case by (intro exI [of _ "[]"]) auto
next
  case (Cons eg egs)
  from Cons.prems(1) show ?case
  proof (cases rule: assign_round)
    case (skip s v)
    from Cons.IH [OF skip(1)] Cons.prems(2,3) skip(2) obtain new where
      "s = Inr (int (length new), int (length egs) - int (length new))"
      "store w' = (store w)\<lparr>seat_assignments := seat_assignments (store w) @ new\<rparr>"
      "\<forall>a \<in> set new. auto_seat tn taken ts egs (store w) a" "distinct (map sa_GuestID new)" by auto
    with skip(3) show ?thesis
      by (intro exI [of _ new]) (auto simp: auto_seat_def)
  next
    case (seat s v v' tw tm)
    let ?a = "new_seat (ID (to_Table tw)) (GuestID eg) (ID eg) None u tm"
    have "\<not> list_ex (same_seat ?a) (seat_assignments (store w))"
      using Cons.prems(3) [of eg tw] seat(1,4) by (auto simp: list_ex_iff same_seat_def)
    then have v': "store v' = (store w)\<lparr>seat_assignments := seat_assignments (store w) @ [?a]\<rparr>"
      using seat.assign_ok [OF seat(5)] seat(6) by (simp add: seat_at_def)
    have "\<exists>new. s = Inr (int (length new), int (length egs) - int (length new))
        \<and> store w' = (store v')\<lparr>seat_assignments := seat_assignments (store v') @ new\<rparr>
        \<and> (\<forall>a \<in> set new. auto_seat tn taken ts egs (store v') a) \<and> distinct (map sa_GuestID new)"
      using Cons.prems(2,3) by (intro Cons.IH [OF seat(7)]) (auto simp: v')
    then obtain new where new: "s = Inr (int (length new), int (length egs) - int (length new))"
      "store w' = (store v')\<lparr>seat_assignments := seat_assignments (store v') @ new\<rparr>"
      "\<forall>a \<in> set new. auto_seat tn taken ts egs (store v') a" "distinct (map sa_GuestID new)" by blast
    have "GuestID eg \<notin> sa_GuestID ` set new"
      using new(3) Cons.prems(2) by (auto simp: auto_seat_def)
    moreover have "auto_seat tn taken ts (eg # egs) (store w) ?a"
      using seat(1,2,4) by (auto simp: auto_seat_def)
    moreover have "\<forall>a \<in> set new. auto_seat tn taken ts (eg # egs) (store w) a"
      using new(3) by (auto simp: auto_seat_def v' eligible_def)
    ultimately show ?thesis using new seat(8)
      by (intro exI [of _ "?a # new"]) (auto simp: v')
  qed
qed

section \<open>Properties\<close>

datatype seating_call =
    NewZone zone_create_request
  | DropZone uuid
  | NewTable uuid table_create_request
  | EditTable uuid uuid table_update_request
  | DropTable uuid uuid
  | Assign uuid uuid assign_guest_request
  | Unassign uuid uuid uuid
  | Auto uuid

definition serve_seating :: "(string \<Rightarrow> rat) \<Rightarrow> (string \<Rightarrow> string \<Rightarrow> bool) \<Rightarrow> uuid \<Rightarrow> uuid \<Rightarrow> seating_call \<Rightarrow> unit app" where
  "serve_seating coll ilike tenantID userID c = (case c of
      NewZone req \<Rightarrow> go_bind (SeatingService_CreateZone tenantID req) (\<lambda>_. go_ret ())
    | DropZone i \<Rightarrow> SeatingService_DeleteZone tenantID i
    | NewTable e req \<Rightarrow> go_bind (SeatingService_CreateTable tenantID e req) (\<lambda>_. go_ret ())
    | EditTable e i req \<Rightarrow> go_bind (SeatingService_UpdateTable tenantID e i req) (\<lambda>_. go_ret ())
    | DropTable e i \<Rightarrow> SeatingService_DeleteTable tenantID e i userID
    | Assign e i req \<Rightarrow> SeatingService_AssignGuest tenantID e i req userID
    | Unassign e i g \<Rightarrow> SeatingService_UnassignGuest tenantID e i g
    | Auto e \<Rightarrow> go_bind (SeatingService_AutoAssign coll ilike tenantID e userID) (\<lambda>_. go_ret ()))"

lemma serve_seating_keeps: "stays seats_kept (serve_seating coll ilike t u c)"
  unfolding serve_seating_def
  by (auto intro!: kept.bind_stays kept.ret_stays CreateZone_seats DeleteZone_seats CreateTable_seats UpdateTable_seats
      DeleteTable_seats AssignGuest_seats UnassignGuest_seats AutoAssign_seats split: seating_call.split)

text \<open>C24: no table is overfull. Through every sequence of seating calls (zones, tables, capacity
  changes, single and automatic assignments, deletions), by any tenants and with any failures, keys
  stay distinct, every seat is at a table, every capacity is between 1 and 999 and no table seats
  more guests than its capacity.\<close>

theorem tables_are_never_overfull:
  assumes "seating_ok (seat_tables (store w)) (seat_assignments (store w))"
  shows "let d = store (serve_all (map (\<lambda>(tenantID, userID, c). serve_seating coll ilike tenantID userID c) calls) w)
    in seating_ok (seat_tables d) (seat_assignments d)"
  unfolding Let_def
proof (rule serve_all_keeps [where I = seats])
  fix m and v :: "db world"
  assume "m \<in> set (map (\<lambda>(tenantID, userID, c). serve_seating coll ilike tenantID userID c) calls)" and "seats (store v)"
  then show "seats (store (snd (m v)))" using serve_seating_keeps by (auto simp: stays_def)
qed (rule assms)

definition demo_table :: "uuid \<Rightarrow> int \<Rightarrow> bool \<Rightarrow> seat_table" where
  "demo_table i n vip = \<lparr>ID = i, CreatedAt = 0, UpdatedAt = 0, DeletedAt = None, TenantID = 1, EventID = 3,
     tb_ZoneID = None, tb_Name = ''T'', tb_Capacity = n, tb_Shape = TableShapeRound, tb_PositionX = None,
     tb_PositionY = None, tb_IsLocked = False, tb_Accessibility = False, tb_VIPOnly = vip, tb_Notes = None\<rparr>"

definition seating_db :: db where
  "seating_db = demo_db\<lparr>seat_tables := [demo_table 50 1 False, demo_table 51 5 False]\<rparr>"

lemma seating_db_ok: "seating_ok (seat_tables seating_db) (seat_assignments seating_db)"
  by (simp add: seating_ok_def seating_db_def demo_table_def seated_def)

lemma tables_are_never_overfull_witness:
  "let d = store (serve_all (map (\<lambda>(tenantID, userID, c). serve_seating (\<lambda>_. 0) (\<lambda>_ _. True) tenantID userID c)
      [(1, 2, Auto 3), (1, 2, Assign 3 50 \<lparr>agr_GuestID = 5, agr_SeatNumber = None\<rparr>)]) (demo_world seating_db))
    in seating_ok (seat_tables d) (seat_assignments d)"
  by (rule tables_are_never_overfull) (use seating_db_ok in simp)

text \<open>C37: seating one guest. When it succeeds, the table is a live, unlocked table of the event, the
  guest is a live guest of the tenant on the event's roster (and a VIP where the table is reserved
  for them), the guest sat there already or there was a free seat, and exactly the seat of that
  guest at that table is written; a refusal changes nothing.\<close>

theorem AssignGuest_seats_one_guest:
  assumes "SeatingService_AssignGuest tenantID eventID tableID req assignedBy w = (r, w')"
  shows "(\<forall>e. r = Inl e \<longrightarrow> store w' = store w)
    \<and> (r = Inr () \<longrightarrow> (\<exists>a. may_seat tenantID eventID tableID (agr_GuestID req) (the (sa_EventGuestID a)) (store w)
        \<and> sa_TableID a = tableID \<and> sa_GuestID a = agr_GuestID req \<and> sa_SeatNumber a = agr_SeatNumber req
        \<and> store w' = (store w)\<lparr>seat_assignments := seat_at a (seat_assignments (store w))\<rparr>))"
  using assms
proof (cases rule: AssignGuest_run)
  case (wrote eg tm v)
  show ?thesis
  proof (cases r)
    case (Inl e)
    with wrote show ?thesis by (auto dest: seat.assign_fails)
  next
    case (Inr u)
    let ?a = "new_seat tableID (agr_GuestID req) eg (agr_SeatNumber req) assignedBy tm"
    have "store w' = (store w)\<lparr>seat_assignments := seat_at ?a (seat_assignments (store w))\<rparr>"
      using seat.assign_ok [OF wrote(2) [unfolded Inr]] wrote(3) by simp
    with wrote(1) Inr show ?thesis by (intro conjI impI allI exI [of _ ?a]) simp_all
  qed
qed simp

lemma AssignGuest_seats_one_guest_witness:
  "length (seat_assignments (store (snd (SeatingService_AssignGuest 1 3 50
     \<lparr>agr_GuestID = 4, agr_SeatNumber = Some 1\<rparr> 2 (demo_world seating_db))))) = 1"
proof -
  let ?m = "SeatingService_AssignGuest 1 3 50 \<lparr>agr_GuestID = 4, agr_SeatNumber = Some 1\<rparr> 2"
  have "fst (?m (demo_world seating_db)) = Inr ()"
    by (simp add: SeatingService_AssignGuest_def go_eval SeatingRepository_GetTable_def table_key_def seating_db_def
        demo_table_def GuestRepository_GetByIDForTenant_def guest_key_def demo_guest_def demo_event_guest_def
        EventGuestRepository_GetByEventAndGuest_def eventGuestSelect_def List.map_filter_def first_row_def toDomain_def
        SeatingRepository_CountAssignmentsByTable_def occupancy_def SeatingRepository_GetGuestAssignment_def
        SeatingRepository_AssignGuest_def upsert_assignment_def has_id_def has_id_opt_def demo_user_def int4_opt_def
        int4_def)
  from AssignGuest_seats_one_guest [OF run_pair [of ?m "demo_world seating_db", OF this]] show ?thesis
    by (auto simp: seating_db_def seat_at_def)
qed

lemma eventGuestSelect_guests:
  assumes "roster_ok (event_guests d)"
    and "\<And>eg g. p eg g \<Longrightarrow> live eg \<and> EventID eg = e"
  shows "distinct (map GuestID (eventGuestSelect p d))"
proof -
  have "distinct (map GuestID (eventGuestSelect p d))
      \<and> set (map GuestID (eventGuestSelect p d)) \<subseteq> GuestID ` {eg \<in> set (event_guests d). live eg \<and> EventID eg = e}"
    if "distinct (map (\<lambda>r. (EventID r, GuestID r)) (filter live (event_guests d)))" for d
    using that assms(2)
  proof (induction "event_guests d" arbitrary: d)
    case Nil
    then show ?case by (simp add: eventGuestSelect_def List.map_filter_def)
  next
    case (Cons eg egs)
    let ?d = "d\<lparr>event_guests := egs\<rparr>"
    have IH: "distinct (map GuestID (eventGuestSelect p ?d)) \<and>
        set (map GuestID (eventGuestSelect p ?d)) \<subseteq> GuestID ` {eg \<in> set egs. live eg \<and> EventID eg = e}"
      using Cons.hyps(1) [of ?d] Cons.hyps(2) [symmetric] Cons.prems by (auto split: if_splits)
    have step: "eventGuestSelect p d = (case find (\<lambda>g. ID g = GuestID eg \<and> TenantID g = TenantID eg) (guests d) of
        None \<Rightarrow> [] | Some g \<Rightarrow> if p eg g then [toDomain eg g] else []) @ eventGuestSelect p ?d"
      by (simp add: eventGuestSelect_def Cons.hyps(2) [symmetric] List.map_filter_def split: option.split)
    show ?case
    proof (cases "\<exists>g. find (\<lambda>g. ID g = GuestID eg \<and> TenantID g = TenantID eg) (guests d) = Some g \<and> p eg g")
      case True
      then obtain g where g: "find (\<lambda>g. ID g = GuestID eg \<and> TenantID g = TenantID eg) (guests d) = Some g" "p eg g" by blast
      then have "live eg" "EventID eg = e" using Cons.prems(2) by auto
      moreover from this Cons.hyps(2) [symmetric] Cons.prems(1)
      have "(EventID eg, GuestID eg) \<notin> (\<lambda>r. (EventID r, GuestID r)) ` set (filter live egs)" by simp
      with \<open>EventID eg = e\<close> have "GuestID eg \<notin> GuestID ` {x \<in> set egs. live x \<and> EventID x = e}"
        by (auto simp: image_iff)
      ultimately show ?thesis using IH Cons.hyps(2) [symmetric] g unfolding step by auto
    qed (use IH Cons.hyps(2) [symmetric] in \<open>auto simp: step split: option.split\<close>)
  qed
  with assms(1) show ?thesis by (simp add: roster_ok_def)
qed

lemma by_seat_set [simp]: "set (by_seat f rs) = set rs"
  by (auto simp: by_seat_def)

text \<open>The page of the roster, the tables and the seated guests that the call works on.\<close>

text \<open>The active roster entries of an event whose guest the tenant has.\<close>

definition active_entries :: "uuid \<Rightarrow> uuid \<Rightarrow> db \<Rightarrow> nat" where
  "active_entries t e d = count_where (\<lambda>r. TenantID r = t \<and> EventID r = e \<and> live r
     \<and> eg_Status r = EventGuestStatusActive
     \<and> (\<exists>g \<in> set (guests d). ID g = GuestID r \<and> TenantID g = t)) (event_guests d)"

lemma roster_page:
  assumes "EventGuestRepository_List ilike \<lparr>egl_TenantID = t, egl_EventID = e, egl_Search = [],
      egl_Status = EventGuestStatusActive, egl_Page = 1, egl_PerPage = 100\<rparr> w = (Inr egs, w')"
    and "roster_ok (event_guests (store w))"
  shows "distinct (map GuestID egs)" and "length egs = min 100 (active_entries t e (store w))"
    and "\<And>eg. eg \<in> set egs \<Longrightarrow> \<exists>r \<in> set (event_guests (store w)). roster_key t e (ID r) r \<and> GuestID r = GuestID eg
      \<and> eg_Status r = EventGuestStatusActive"
proof -
  let ?sel = "eventGuestSelect (eventGuestWhere ilike \<lparr>egl_TenantID = t, egl_EventID = e, egl_Search = [],
    egl_Status = EventGuestStatusActive, egl_Page = 1, egl_PerPage = 100\<rparr>) (store w)"
  from assms(1) have egs: "egs = take 100 (sort_key (\<lambda>eg. - CreatedAt eg) ?sel)"
    by (auto simp: EventGuestRepository_List_def clamp_params_def get_one_Inr limit_offset_def Let_def i64_def split: if_split_asm)
  have "distinct (map GuestID ?sel)"
    by (rule eventGuestSelect_guests [OF assms(2), where e = e]) (simp add: eventGuestWhere_def)
  then have "distinct (map GuestID (sort_key (\<lambda>eg. - CreatedAt eg) ?sel))" by (simp add: distinct_map)
  then show "distinct (map GuestID egs)" unfolding egs take_map [symmetric] by (rule distinct_take)
  have "length ?sel = active_entries t e (store w)"
    unfolding eventGuestSelect_def active_entries_def List.map_filter_def length_map count_where_def
    by (rule arg_cong [where f = length], rule filter_cong)
      (auto simp: eventGuestWhere_def find_None_iff TrimSpace_def split: option.splits dest: find_Some_D)
  then show "length egs = min 100 (active_entries t e (store w))" by (simp add: egs)
  fix eg assume "eg \<in> set egs"
  from in_set_takeD [OF this [unfolded egs]]
  show "\<exists>r \<in> set (event_guests (store w)). roster_key t e (ID r) r \<and> GuestID r = GuestID eg
      \<and> eg_Status r = EventGuestStatusActive"
    by (auto simp: in_eventGuestSelect eventGuestWhere_def roster_key_def)
qed

lemma listed_table_key:
  assumes "SeatingRepository_ListTablesByEvent coll t e w = (Inr ts, w')" and "tw \<in> set ts"
  shows "to_Table tw \<in> set (seat_tables (store w)) \<and> table_key t e (ID (to_Table tw)) (to_Table tw)"
proof -
  from assms(2) have "to_Table tw \<in> set (map to_Table ts)" by simp
  then show ?thesis unfolding ListTablesByEvent_Inr(2) [OF assms(1)] by (simp add: table_key_def)
qed

lemma listed_guests:
  assumes "SeatingRepository_ListAssignmentsByEvent t e w = (Inr as, w')"
  shows "set (map sa_GuestID as) = sa_GuestID ` {a \<in> set (seat_assignments (store w)). seated_in t e (store w) a}"
  using assms by (auto simp: SeatingRepository_ListAssignmentsByEvent_def query_eq split: if_split_asm)

lemma fewer_seats:
  assumes "distinct (map sa_GuestID new)" and "sa_GuestID ` set new \<subseteq> GuestID ` set egs"
  shows "length new \<le> length egs"
proof -
  have "length new = card (sa_GuestID ` set new)" using assms(1) by (metis distinct_card length_map list.set_map)
  also have "\<dots> \<le> card (GuestID ` set egs)" using assms(2) by (intro card_mono) auto
  also have "\<dots> \<le> length egs" by (metis card_length length_map list.set_map)
  finally show ?thesis .
qed

text \<open>C38: automatic seating. When it succeeds on a consistent roster, the counts of assigned and skipped
  guests add up to the number of active roster entries, or to one hundred where there are more; exactly as
  many seats are added as guests were assigned and nothing else changes; each new seat is for a different
  guest who had none at a live table of the event, at a live, unlocked table of the event, and at
  a VIP table only for a VIP.\<close>

theorem AutoAssign_seats_the_unseated:
  assumes "SeatingService_AutoAssign coll ilike tenantID eventID assignedBy w = (Inr (assigned, skipped), w')"
    and "roster_ok (event_guests (store w))"
  shows "\<exists>new. store w' = (store w)\<lparr>seat_assignments := seat_assignments (store w) @ new\<rparr>
    \<and> assigned = int (length new) \<and> 0 \<le> skipped
    \<and> assigned + skipped = int (min 100 (active_entries tenantID eventID (store w)))
    \<and> distinct (map sa_GuestID new)
    \<and> (\<forall>a \<in> set new.
        \<not> list_ex (\<lambda>b. sa_GuestID b = sa_GuestID a \<and> seated_in tenantID eventID (store w) b) (seat_assignments (store w))
        \<and> (\<exists>t \<in> set (seat_tables (store w)). table_key tenantID eventID (sa_TableID a) t \<and> \<not> tb_IsLocked t
            \<and> (tb_VIPOnly t \<longrightarrow> (\<exists>g \<in> set (guests (store w)). guest_key tenantID (sa_GuestID a) g \<and> is_vip g)))
        \<and> (\<exists>eg \<in> set (event_guests (store w)). roster_key tenantID eventID (ID eg) eg
            \<and> GuestID eg = sa_GuestID a \<and> eg_Status eg = EventGuestStatusActive))"
  using assms(1)
proof (cases rule: AutoAssign_run)
  case (looped ts egs as v v2 v3)
  note page = roster_page [OF looped(2), unfolded looped(4), OF assms(2)]
  note tabs = listed_table_key [OF looped(1)]
  note taken = listed_guests [OF looped(3), unfolded looped(5)]
  have free: "\<not> (sa_TableID a = ID (to_Table tw) \<and> sa_GuestID a = GuestID eg)"
    if "GuestID eg \<notin> set (map sa_GuestID as)" "tw \<in> set ts" "a \<in> set (seat_assignments (store w))" for eg :: event_guest and tw a
    using that tabs [OF that(2)] unfolding taken by (auto simp: seated_in_def list_ex_iff image_iff)
  have "\<exists>new. Inr (assigned, skipped) = (Inr (int (length new), int (length egs) - int (length new)) :: err + int \<times> int)
      \<and> store w' = (store v3)\<lparr>seat_assignments := seat_assignments (store v3) @ new\<rparr>
      \<and> (\<forall>a \<in> set new. auto_seat tenantID (map sa_GuestID as) ts egs (store v3) a) \<and> distinct (map sa_GuestID new)"
    by (rule assign_loop_effect [OF looped(7) page(1)]) (use free looped(6) in simp)
  then obtain new where
    new: "(assigned, skipped) = (int (length new), int (length egs) - int (length new))"
      "store w' = (store w)\<lparr>seat_assignments := seat_assignments (store w) @ new\<rparr>"
      "\<forall>a \<in> set new. auto_seat tenantID (map sa_GuestID as) ts egs (store w) a" "distinct (map sa_GuestID new)"
    using looped(6) by auto
  have len: "length new \<le> length egs"
    using new(3,4) by (intro fewer_seats) (auto simp: auto_seat_def)
  show ?thesis
  proof (intro exI [of _ new] conjI ballI)
    fix a assume "a \<in> set new"
    with new(3) obtain eg tw where a: "eg \<in> set egs" "tw \<in> set ts" "sa_GuestID a = GuestID eg"
      "GuestID eg \<notin> set (map sa_GuestID as)" "sa_TableID a = ID (to_Table tw)" "eligible tenantID (GuestID eg) (store w) tw"
      by (auto simp: auto_seat_def)
    show "\<not> list_ex (\<lambda>b. sa_GuestID b = sa_GuestID a \<and> seated_in tenantID eventID (store w) b) (seat_assignments (store w))"
      using a(3,4) unfolding taken by (auto simp: list_ex_iff image_iff)
    show "\<exists>t \<in> set (seat_tables (store w)). table_key tenantID eventID (sa_TableID a) t \<and> \<not> tb_IsLocked t
        \<and> (tb_VIPOnly t \<longrightarrow> (\<exists>g \<in> set (guests (store w)). guest_key tenantID (sa_GuestID a) g \<and> is_vip g))"
      using tabs [OF a(2)] a(3,5,6) by (auto simp: eligible_def intro!: bexI [of _ "to_Table tw"])
    show "\<exists>eg \<in> set (event_guests (store w)). roster_key tenantID eventID (ID eg) eg
        \<and> GuestID eg = sa_GuestID a \<and> eg_Status eg = EventGuestStatusActive"
      using page(3) [OF a(1)] a(3) by auto
  qed (use new len page(2) in auto)
qed simp

lemmas auto_eval = SeatingService_AutoAssign_def SeatingRepository_ListTablesByEvent_def
  EventGuestRepository_List_def clamp_params_def i64_def limit_offset_def eventGuestSelect_def List.map_filter_def
  eventGuestWhere_def TrimSpace_def toDomain_def SeatingRepository_ListAssignmentsByEvent_def by_seat_def
  unlocked_map_def with_occupancy_def occupancy_def SeatingRepository_AssignGuest_def upsert_assignment_def
  has_id_def has_id_opt_def int4_opt_def

lemma AutoAssign_seats_the_unseated_witness:
  "\<exists>new. seat_assignments (store (snd (SeatingService_AutoAssign (\<lambda>_. 0) (\<lambda>_ _. True) 1 3 2 (demo_world seating_db)))) = new
     \<and> length new = 2 \<and> distinct (map sa_GuestID new)"
proof -
  let ?m = "SeatingService_AutoAssign (\<lambda>_. 0) (\<lambda>_ _. True) 1 3 2"
  have "fst (?m (demo_world seating_db)) = Inr (2, 0)"
    by (simp add: auto_eval go_eval seating_db_def demo_table_def demo_event_guest_def demo_guest_def demo_user_def)
  from AutoAssign_seats_the_unseated [OF run_pair [of ?m "demo_world seating_db", OF this]] demo_roster_ok
  show ?thesis by (auto simp: seating_db_def)
qed

lemma SoftDeleteTable_Inr:
  assumes "SeatingRepository_SoftDeleteTable t e i w = (Inr u, w')"
  obtains tm where "\<exists>r \<in> set (seat_tables (store w)). table_key t e i r"
    and "store w' = (store w)\<lparr>seat_assignments := filter (\<lambda>a. sa_TableID a \<noteq> i) (seat_assignments (store w)),
      seat_tables := update_where (table_key t e i) (\<lambda>r. r\<lparr>DeletedAt := Some tm, UpdatedAt := tm\<rparr>) (seat_tables (store w))\<rparr>"
proof -
  from assms obtain v where v: "go_bind now (\<lambda>tm.
     go_bind (exec (\<lambda>srv d. Some (delete_assignments (\<lambda>a. sa_TableID a = i) d))) (\<lambda>_.
     exec_rows ErrNotFound (\<lambda>srv d. Some (sql_update seat_tables put_seat_tables (table_key t e i)
       (\<lambda>r. r\<lparr>DeletedAt := Some tm, UpdatedAt := tm\<rparr>) d)))) (tick w) = (Inr u, v)" "store w' = store v"
    unfolding SeatingRepository_SoftDeleteTable_def RunInTransaction_Inr by auto
  from v(1) obtain tm v1 n where "exec (\<lambda>srv d. Some (delete_assignments (\<lambda>a. sa_TableID a = i) d)) (tick (tick w)) = (Inr n, v1)"
    and upd: "exec_rows ErrNotFound (\<lambda>srv d. Some (sql_update seat_tables put_seat_tables (table_key t e i)
       (\<lambda>r. r\<lparr>DeletedAt := Some tm, UpdatedAt := tm\<rparr>) d)) v1 = (Inr u, v)"
    by (auto elim!: go_bind_elim_Inr simp: now_eq)
  then have v1: "store v1 = (store w)\<lparr>seat_assignments := filter (\<lambda>a. sa_TableID a \<noteq> i) (seat_assignments (store w))\<rparr>"
    by (auto simp: exec_Inr delete_assignments_def)
  from upd have "\<exists>r \<in> set (seat_tables (store v1)). table_key t e i r"
    "store v = put_seat_tables (update_where (table_key t e i)
      (\<lambda>r. r\<lparr>DeletedAt := Some tm, UpdatedAt := tm\<rparr>) (seat_tables (store v1))) (store v1)"
    unfolding seat_tables_table.update_run by simp_all
  with v1 v(2) show thesis by (intro that) simp_all
qed

text \<open>deleting a table is atomic. When it succeeds, the table was a live table of the event, no seat
  at it is left, no live table with its key is left, and the seats at other tables are as they
  were; when it fails, for whichever reason, neither a table nor a seat has changed.\<close>

theorem DeleteTable_is_atomic:
  assumes "SeatingService_DeleteTable tenantID eventID tableID deletedBy w = (r, w')"
  shows "(\<forall>e. r = Inl e \<longrightarrow> store w' = store w)
    \<and> (r = Inr () \<longrightarrow> (\<exists>t \<in> set (seat_tables (store w)). table_key tenantID eventID tableID t)
        \<and> seat_assignments (store w') = filter (\<lambda>a. sa_TableID a \<noteq> tableID) (seat_assignments (store w))
        \<and> \<not> list_ex (table_key tenantID eventID tableID) (seat_tables (store w'))
        \<and> map ID (seat_tables (store w')) = map ID (seat_tables (store w)))"
proof (cases r)
  case (Inl e)
  with assms have "SeatingRepository_SoftDeleteTable tenantID eventID tableID w = (Inl e, w')"
    unfolding SeatingService_DeleteTable_def by (auto elim!: go_elim)
  with Inl show ?thesis unfolding SeatingRepository_SoftDeleteTable_def by (auto dest: RunInTransaction_Inl)
next
  case (Inr u)
  with assms obtain v s where del: "SeatingRepository_SoftDeleteTable tenantID eventID tableID w = (Inr (), v)"
    and log: "LogWithUser deletedBy tenantID AuditActionDelete ''table'' tableID
      (Some [(''event_id'', JUUID eventID), (''deleted'', JBool True)]) None v = (s, w')"
    unfolding SeatingService_DeleteTable_def by (auto elim!: go_elim)
  note same = audit_free_tables(14,15) [OF LogWithUser_audit_free [OF log]]
  from del show ?thesis
  proof (rule SoftDeleteTable_Inr)
    fix tm
    let ?f = "\<lambda>r. r\<lparr>DeletedAt := Some tm, UpdatedAt := tm\<rparr>"
    assume *: "\<exists>r \<in> set (seat_tables (store w)). table_key tenantID eventID tableID r"
      "store v = (store w)\<lparr>seat_assignments := filter (\<lambda>a. sa_TableID a \<noteq> tableID) (seat_assignments (store w)),
        seat_tables := update_where (table_key tenantID eventID tableID) ?f (seat_tables (store w))\<rparr>"
    have "\<not> list_ex (table_key tenantID eventID tableID) (update_where (table_key tenantID eventID tableID) ?f (seat_tables (store w)))"
      by (auto simp: list_ex_iff set_update_where) (simp add: table_key_def)
    moreover have "map ID (update_where (table_key tenantID eventID tableID) ?f (seat_tables (store w))) = map ID (seat_tables (store w))"
      by (rule map_update_where) simp
    moreover have "seat_tables (store w') = update_where (table_key tenantID eventID tableID) ?f (seat_tables (store w))"
      "seat_assignments (store w') = filter (\<lambda>a. sa_TableID a \<noteq> tableID) (seat_assignments (store w))"
      unfolding same *(2) by simp_all
    ultimately show ?thesis using *(1) unfolding Inr by (simp only:) simp
  qed
qed

lemma DeleteTable_is_atomic_witness:
  "\<not> list_ex (table_key 1 3 50) (seat_tables (store (snd (SeatingService_DeleteTable 1 3 50 2 (demo_world seating_db)))))
   \<and> seat_tables (store (snd (SeatingService_DeleteTable 1 9 50 2 (demo_world seating_db)))) = seat_tables seating_db"
proof -
  let ?m = "SeatingService_DeleteTable 1 3 50 2" and ?n = "SeatingService_DeleteTable 1 9 50 2"
  let ?w = "demo_world seating_db"
  have "fst (?m ?w) = Inr ()" "fst (?n ?w) = Inl ErrNotFound"
    by (simp_all add: SeatingService_DeleteTable_def SeatingRepository_SoftDeleteTable_def RunInTransaction_def go_eval
        delete_assignments_def table_key_def seating_db_def demo_table_def)
  from DeleteTable_is_atomic [OF run_pair [of ?m ?w, OF this(1)]]
    DeleteTable_is_atomic [OF run_pair [of ?n ?w, OF this(2)]]
  show ?thesis by auto
qed

text \<open>a guest can hold seats at two tables of the same event. From a consistent database in which a
  guest is seated, one more successful assignment of the guest to another table of the event
  leaves both seats in place.\<close>

theorem guest_can_sit_at_two_tables:
  "\<exists>w w'. seating_ok (seat_tables (store w)) (seat_assignments (store w))
     \<and> fst (SeatingService_AssignGuest 1 3 51 \<lparr>agr_GuestID = 4, agr_SeatNumber = None\<rparr> 2 w) = Inr ()
     \<and> w' = snd (SeatingService_AssignGuest 1 3 51 \<lparr>agr_GuestID = 4, agr_SeatNumber = None\<rparr> 2 w)
     \<and> map sa_TableID (filter (\<lambda>a. sa_GuestID a = 4 \<and> seated_in 1 3 (store w') a) (seat_assignments (store w'))) = [50, 51]"
proof -
  let ?d = "seating_db\<lparr>seat_assignments := [new_seat 50 4 6 None 2 0]\<rparr>"
  let ?m = "SeatingService_AssignGuest 1 3 51 \<lparr>agr_GuestID = 4, agr_SeatNumber = None\<rparr> 2"
  have ok: "seating_ok (seat_tables ?d) (seat_assignments ?d)"
    by (simp add: seating_ok_def seating_db_def demo_table_def seated_def)
  have run: "fst (?m (demo_world ?d)) = Inr ()"
    "map sa_TableID (filter (\<lambda>a. sa_GuestID a = 4 \<and> seated_in 1 3 (store (snd (?m (demo_world ?d)))) a)
      (seat_assignments (store (snd (?m (demo_world ?d)))))) = [50, 51]"
    by (simp_all add: SeatingService_AssignGuest_def go_eval SeatingRepository_GetTable_def table_key_def seating_db_def
        demo_table_def GuestRepository_GetByIDForTenant_def guest_key_def demo_guest_def demo_event_guest_def
        EventGuestRepository_GetByEventAndGuest_def first_row_def new_seat_def seated_in_def
        SeatingRepository_CountAssignmentsByTable_def SeatingRepository_GetGuestAssignment_def
        auto_eval demo_user_def int4_def)
  from ok have ok': "seating_ok (seat_tables (store (demo_world ?d))) (seat_assignments (store (demo_world ?d)))"
    by (simp only: demo_world_simps)
  show ?thesis
    by (rule exI [of _ "demo_world ?d"], rule exI [of _ "snd (?m (demo_world ?d))"], intro conjI,
        rule ok', rule run(1), rule refl, rule run(2))
qed

end
