(* ===== verification/Invitations.thy ===== *)
theory Invitations
  imports Roster "HOL-Library.Sublist"
begin

text \<open>
  Invitations: \<open>InvitationRepository\<close> and \<open>InvitationService\<close>, the credentials of the program. The
  lemmas show that an invitation that was created can be redeemed with the token it returned, that
  revoking or deleting it ends that, that a guest holds at most one live invitation per event, what
  a batch creates, and that opening a link only moves a sent invitation to opened. The listing
  with delivery states joins the message table and is left out.
\<close>

section \<open>The repository\<close>

definition InvitationRepository_Create :: "invitation \<Rightarrow> unit app" where
  "InvitationRepository_Create i = go_bind (exec (insert_invitation i)) (\<lambda>_. go_ret ())"

definition InvitationRepository_GetByID :: "uuid \<Rightarrow> invitation app" where
  "InvitationRepository_GetByID i =
     get_one ErrInvitationNotFound (\<lambda>d. find (\<lambda>r. ID r = i \<and> live r) (invitations d))"

definition invitation_key :: "uuid \<Rightarrow> uuid \<Rightarrow> invitation \<Rightarrow> bool" where
  "invitation_key i t r \<longleftrightarrow> ID r = i \<and> TenantID r = t \<and> live r"

definition InvitationRepository_GetByIDForTenant :: "uuid \<Rightarrow> uuid \<Rightarrow> invitation app" where
  "InvitationRepository_GetByIDForTenant i t =
     get_one ErrInvitationNotFound (\<lambda>d. find (invitation_key i t) (invitations d))"

definition InvitationRepository_GetByEventAndGuest :: "uuid \<Rightarrow> uuid \<Rightarrow> invitation app" where
  "InvitationRepository_GetByEventAndGuest e g = get_one ErrInvitationNotFound (\<lambda>d. first_row
     (sort_key (\<lambda>r. - CreatedAt r)
       (filter (\<lambda>r. EventID r = e \<and> GuestID r = g \<and> live r) (invitations d))))"

definition InvitationRepository_GetByTokenHash :: "string \<Rightarrow> invitation app" where
  "InvitationRepository_GetByTokenHash h =
     get_one ErrInvitationNotFound (\<lambda>d. find (\<lambda>r. inv_TokenHash r = h \<and> live r) (invitations d))"

text \<open>\<open>CountByEvent\<close>, by tenant, event and (where it is not empty) status.\<close>

definition InvitationRepository_CountByEvent :: "uuid \<Rightarrow> uuid \<Rightarrow> string \<Rightarrow> int app" where
  "InvitationRepository_CountByEvent t e status = query (\<lambda>d. int (count_where
     (\<lambda>r. TenantID r = t \<and> EventID r = e \<and> live r \<and> (status = [] \<or> inv_Status r = status))
     (invitations d)))"

definition InvitationRepository_UpdateStatus :: "uuid \<Rightarrow> uuid \<Rightarrow> string \<Rightarrow> unit app" where
  "InvitationRepository_UpdateStatus i t status = exec_rows ErrInvitationNotFound (\<lambda>srv d.
     Some (sql_update invitations put_invitations (invitation_key i t)
       (\<lambda>r. r\<lparr>inv_Status := status, UpdatedAt := fst srv\<rparr>) d))"

text \<open>\<open>MarkOpened\<close>: the affected rows are not checked.\<close>

definition mark_opened :: "time \<Rightarrow> invitation \<Rightarrow> invitation" where
  "mark_opened t r = r\<lparr>inv_Status := (if inv_Status r = InvitationStatusSent
     then InvitationStatusOpened else inv_Status r), inv_OpenedAt := Some t, UpdatedAt := t\<rparr>"

definition InvitationRepository_MarkOpened :: "uuid \<Rightarrow> unit app" where
  "InvitationRepository_MarkOpened i = go_bind now (\<lambda>t. go_bind (exec (\<lambda>srv d.
     Some (sql_update invitations put_invitations (\<lambda>r. ID r = i \<and> live r) (mark_opened t) d)))
     (\<lambda>_. go_ret ()))"

definition InvitationRepository_SoftDelete :: "uuid \<Rightarrow> uuid \<Rightarrow> unit app" where
  "InvitationRepository_SoftDelete i t = go_bind now (\<lambda>tm. exec_rows ErrInvitationNotFound (\<lambda>srv d.
     Some (sql_update invitations put_invitations (invitation_key i t)
       (\<lambda>r. r\<lparr>DeletedAt := Some tm, UpdatedAt := tm, inv_Status := InvitationStatusRevoked\<rparr>) d)))"

definition InvitationRepository_Revoke :: "uuid \<Rightarrow> uuid \<Rightarrow> uuid \<Rightarrow> string \<Rightarrow> unit app" where
  "InvitationRepository_Revoke i t revokedBy reason = go_bind now (\<lambda>tm.
     exec_rows ErrInvitationNotFound (\<lambda>srv d.
       if (\<exists>r \<in> set (invitations d). invitation_key i t r) \<and> \<not> has_id revokedBy (users d) then None
       else Some (sql_update invitations put_invitations (invitation_key i t)
         (\<lambda>r. r\<lparr>inv_Status := InvitationStatusRevoked, inv_RevokedAt := Some tm,
           inv_RevokedBy := Some revokedBy, inv_RevokeReason := Some reason, UpdatedAt := tm\<rparr>) d)))"

definition InvitationRepository_ExistsForGuest :: "uuid \<Rightarrow> uuid \<Rightarrow> bool app" where
  "InvitationRepository_ExistsForGuest e g = query (\<lambda>d. 0 < count_where
     (\<lambda>r. EventID r = e \<and> GuestID r = g \<and> live r) (invitations d))"

definition InvitationRepository_LogCredentialUsage :: "credential_usage \<Rightarrow> unit app" where
  "InvitationRepository_LogCredentialUsage u =
     go_bind (exec (insert_credential_usage u)) (\<lambda>_. go_ret ())"

text \<open>\<open>CountByStatus\<close>: the map as an association list without duplicate keys.\<close>

definition InvitationRepository_CountByStatus :: "uuid \<Rightarrow> (string \<times> int) list app" where
  "InvitationRepository_CountByStatus e = query (\<lambda>d.
     let rs = filter (\<lambda>r. EventID r = e \<and> live r) (invitations d)
     in map (\<lambda>st. (st, int (count_where (\<lambda>r. inv_Status r = st) rs)))
          (remdups (map inv_Status rs)))"

section \<open>The service\<close>

record invitation_service =
  is_baseURL :: string

definition invitationTokenBytes :: int where
  "invitationTokenBytes = 32"

definition invitationBaseURL :: string where
  "invitationBaseURL = ''http://localhost:3000/i''"

definition NewInvitationService :: invitation_service where
  "NewInvitationService = \<lparr>is_baseURL = invitationBaseURL\<rparr>"

definition SetBaseURL :: "string \<Rightarrow> invitation_service \<Rightarrow> invitation_service" where
  "SetBaseURL url s = s\<lparr>is_baseURL := url\<rparr>"

definition new_invitation :: "uuid \<Rightarrow> time \<Rightarrow> uuid \<Rightarrow> uuid \<Rightarrow> uuid \<Rightarrow> uuid \<Rightarrow> uuid \<Rightarrow> string \<Rightarrow> string
    \<Rightarrow> invitation_create_request \<Rightarrow> invitation" where
  "new_invitation i t tenantID eventID guestID eventGuestID createdBy token url req =
     \<lparr>ID = i, CreatedAt = t, UpdatedAt = t, DeletedAt = None, TenantID = tenantID,
      EventID = eventID, GuestID = guestID, inv_EventGuestID = Some eventGuestID,
      inv_Token = token, inv_TokenHash = SHA256Hash token, inv_URL = url,
      inv_MaxPax = icr_MaxPax req, inv_Adults = icr_Adults req, inv_Children = icr_Children req,
      inv_PlusOneAllowed = icr_PlusOneAllowed req, inv_PlusOneRequired = icr_PlusOneRequired req,
      inv_Status = InvitationStatusDraft, inv_SentAt = None, inv_FailedReason = None,
      inv_OpenedAt = None, inv_RevokedAt = None, inv_RevokedBy = None, inv_RevokeReason = None,
      inv_ExpiresAt = icr_ExpiresAt req, inv_CreatedBy = createdBy\<rparr>"

text \<open>The mapping of a missing row to another sentinel.\<close>

definition not_found_as :: "err \<Rightarrow> err \<Rightarrow> ('d, 'a) go \<Rightarrow> ('d, 'a) go" where
  "not_found_as e e' m = go_try m (\<lambda>r. case r of Inr x \<Rightarrow> go_ret x
     | Inl f \<Rightarrow> go_fail (if f = e then e' else f))"

definition InvitationService_Create ::
  "invitation_service \<Rightarrow> uuid \<Rightarrow> uuid \<Rightarrow> uuid \<Rightarrow> invitation_create_request \<Rightarrow> uuid \<Rightarrow> invitation app" where
  "InvitationService_Create s tenantID eventID createdBy req guestID =
     go_bind (EventRepository_GetByIDForTenant eventID tenantID) (\<lambda>event.
     go_guard (ev_Status event = EventStatusCancelled \<or> ev_Status event = EventStatusArchived)
       ErrInvalidInput (
     go_bind (not_found_as ErrNotFound ErrInvalidInput
       (GuestRepository_GetByIDForTenant tenantID guestID)) (\<lambda>_.
     go_bind (not_found_as ErrNotFound ErrInvalidInput
       (EventGuestRepository_GetByEventAndGuest tenantID eventID guestID)) (\<lambda>eventGuest.
     go_bind (InvitationRepository_ExistsForGuest eventID guestID) (\<lambda>exists.
     go_guard exists ErrAlreadyExists (
     go_bind (GenerateRandomToken invitationTokenBytes) (\<lambda>token.
       let url = is_baseURL s @ ''/'' @ token in
       go_bind NewBase (\<lambda>(i, t).
         let inv = new_invitation i t tenantID eventID guestID (ID eventGuest) createdBy token url req in
         go_bind (InvitationRepository_Create inv) (\<lambda>_.
         go_ignore (LogWithUser createdBy tenantID AuditActionCreate EntityTypeInvitation i None
           (Some [(''event_id'', JUUID eventID), (''guest_id'', JUUID guestID), (''url'', JString url)]))
         (go_ret inv))))))))))"

text \<open>The loop of \<open>GenerateBatch\<close>, with the invitations and the errors collected so far.\<close>

primrec batch_loop :: "(uuid \<Rightarrow> invitation app) \<Rightarrow> uuid list \<Rightarrow> invitation list \<Rightarrow> err list \<Rightarrow>
    (invitation list \<times> err list) app" where
  "batch_loop create [] invs errs = go_ret (invs, errs)"
| "batch_loop create (g # gs) invs errs = go_try (create g) (\<lambda>r. case r of
      Inl e \<Rightarrow> batch_loop create gs invs (errs @ [e])
    | Inr i \<Rightarrow> batch_loop create gs (invs @ [i]) errs)"

definition InvitationService_GenerateBatch ::
  "invitation_service \<Rightarrow> uuid \<Rightarrow> uuid \<Rightarrow> uuid \<Rightarrow> invitation_create_request \<Rightarrow> invitation list app" where
  "InvitationService_GenerateBatch s tenantID eventID createdBy req =
     go_guard (icr_GuestIDs req = []) ErrInvalidInput (
     go_guard (500 < length (icr_GuestIDs req)) ErrInvalidInput (
     go_bind (EventRepository_GetByIDForTenant eventID tenantID) (\<lambda>event.
     go_guard (ev_Status event = EventStatusCancelled \<or> ev_Status event = EventStatusArchived)
       ErrInvalidInput (
     go_bind (batch_loop (InvitationService_Create s tenantID eventID createdBy req)
       (icr_GuestIDs req) [] []) (\<lambda>(invs, errs).
     case errs of e # _ \<Rightarrow> go_guard (invs = []) e (go_ret invs) | [] \<Rightarrow> go_ret invs)))))"

definition InvitationService_Get :: "uuid \<Rightarrow> uuid \<Rightarrow> invitation app" where
  "InvitationService_Get tenantID invitationID =
     go_bind (InvitationRepository_GetByIDForTenant invitationID tenantID) (\<lambda>inv.
     go_ret (inv\<lparr>inv_Token := []\<rparr>))"

text \<open>The clock is read only when there is an expiry to compare with.\<close>

definition check_expiry :: "time option \<Rightarrow> err \<Rightarrow> 'a app \<Rightarrow> 'a app" where
  "check_expiry expires e k = (case expires of None \<Rightarrow> k
     | Some x \<Rightarrow> go_bind now (\<lambda>t. go_guard (x < t) e k))"

definition InvitationService_ValidateToken :: "string \<Rightarrow> invitation app" where
  "InvitationService_ValidateToken token =
     go_guard (token = []) ErrTokenInvalid (
     go_bind (not_found_as ErrInvitationNotFound ErrTokenInvalid
       (InvitationRepository_GetByTokenHash (SHA256Hash token))) (\<lambda>inv.
     go_guard (inv_Status inv = InvitationStatusRevoked) ErrInvitationRevoked (
     go_guard (\<not> live inv) ErrInvitationNotFound (
     check_expiry (inv_ExpiresAt inv) ErrInvitationExpired (
     go_ret (inv\<lparr>inv_Token := []\<rparr>))))))"

definition InvitationService_Revoke :: "uuid \<Rightarrow> uuid \<Rightarrow> uuid \<Rightarrow> string \<Rightarrow> unit app" where
  "InvitationService_Revoke tenantID invitationID revokedBy reason =
     go_bind (InvitationRepository_GetByIDForTenant invitationID tenantID) (\<lambda>inv.
     go_guard (inv_Status inv = InvitationStatusRevoked) ErrInvitationRevoked (
     go_bind (InvitationRepository_Revoke invitationID tenantID revokedBy reason) (\<lambda>_.
     go_ignore (LogWithUser revokedBy tenantID AuditActionReject EntityTypeInvitation invitationID
       (Some [(''previous_status'', JString (inv_Status inv))])
       (Some [(''status'', JString InvitationStatusRevoked), (''reason'', JString reason)]))
     (go_ret ()))))"

definition InvitationService_SoftDelete :: "uuid \<Rightarrow> uuid \<Rightarrow> unit app" where
  "InvitationService_SoftDelete tenantID invitationID =
     InvitationRepository_SoftDelete invitationID tenantID"

definition InvitationService_GetQRData :: "uuid \<Rightarrow> uuid \<Rightarrow> qr_code_data app" where
  "InvitationService_GetQRData tenantID invitationID =
     go_bind (InvitationRepository_GetByIDForTenant invitationID tenantID) (\<lambda>inv.
     go_ret \<lparr>qr_URL = inv_URL inv, qr_TokenHash = inv_TokenHash inv, qr_EventID = EventID inv,
       qr_GuestID = GuestID inv\<rparr>)"

definition InvitationService_RecordOpen :: "string \<Rightarrow> string \<Rightarrow> unit app" where
  "InvitationService_RecordOpen token ipAddress =
     go_bind (InvitationService_ValidateToken token) (\<lambda>inv.
     go_bind (InvitationRepository_MarkOpened (ID inv)) (\<lambda>_.
     go_bind NewBase (\<lambda>(i, t).
     go_ignore (InvitationRepository_LogCredentialUsage
       \<lparr>ID = i, CreatedAt = t, UpdatedAt = t, DeletedAt = None, cu_InvitationID = ID inv,
        cu_EventID = EventID inv, cu_GuestID = GuestID inv, cu_Type = ''opened'',
        cu_DeviceID = None, cu_GateID = None, cu_OfficerID = None, cu_IPAddress = Some ipAddress,
        cu_Metadata = None\<rparr>)
     (go_ret ()))))"

definition InvitationService_CountByEvent :: "uuid \<Rightarrow> uuid \<Rightarrow> (string \<times> int) list app" where
  "InvitationService_CountByEvent tenantID eventID = InvitationRepository_CountByStatus eventID"

section \<open>Runs\<close>

lemma audit_invitations:
  "LogWithUser u t a et ei ov nv w = (r, w') \<Longrightarrow> invitations (store w') = invitations (store w)"
  by (rule audit_free_tables) (rule LogWithUser_audit_free)

lemma not_found_as_Inr [go_run]: "not_found_as e e' m w = (Inr x, w') \<longleftrightarrow> m w = (Inr x, w')"
  by (auto simp: not_found_as_def go_bind_def go_try_def split: sum.splits prod.splits)

lemma not_found_as_Inl:
  "not_found_as e e' m w = (Inl f, w') \<Longrightarrow> \<exists>f'. m w = (Inl f', w') \<and> f = (if f' = e then e' else f')"
  by (auto simp: not_found_as_def elim!: go_try_elim split: sum.splits if_splits)

lemma insert_invitation_Some:
  assumes "insert_invitation i srv d = Some (n, d')"
  shows "d' = d\<lparr>invitations := invitations d @ [i\<lparr>inv_FailedReason := None\<rparr>]\<rparr> \<and>
    \<not> has_id (ID i) (invitations d) \<and>
    (live i \<longrightarrow> (\<forall>r \<in> set (invitations d). \<not> (live r \<and> EventID r = EventID i \<and> GuestID r = GuestID i)))"
  using assms by (auto simp: insert_invitation_def list_ex_iff split: if_splits)

lemma InvitationRepository_Create_run:
  assumes "InvitationRepository_Create i w = (Inr u, w')"
  shows "w' = (tick w)\<lparr>store := (store w)\<lparr>invitations := invitations (store w) @
      [i\<lparr>inv_FailedReason := None\<rparr>]\<rparr>\<rparr>"
    and "\<not> has_id (ID i) (invitations (store w))"
  using assms by (auto simp: InvitationRepository_Create_def go_run dest: insert_invitation_Some)

lemma GenerateRandomToken_tick: "GenerateRandomToken invitationTokenBytes w = (r, w') \<Longrightarrow> w' = tick w"
  by (cases r) (auto simp: GenerateRandomToken_def invitationTokenBytes_def go_run)

lemma base64_nonempty: "bs \<noteq> [] \<Longrightarrow> base64_EncodeToString bs \<noteq> []"
  using length_base64 [of bs] by (cases bs) auto

lemma GenerateRandomToken_nonempty:
  "GenerateRandomToken invitationTokenBytes w = (Inr token, w') \<Longrightarrow> token \<noteq> []"
  by (auto simp: GenerateRandomToken_def invitationTokenBytes_def go_run base64_nonempty
      split: option.splits)

lemma ExistsForGuest_Inr [go_run]:
  "InvitationRepository_ExistsForGuest e g w = (Inr b, w') \<longleftrightarrow> \<not> faults w (pos w) \<and> w' = tick w \<and>
     b = (\<exists>r \<in> set (invitations (store w)). EventID r = e \<and> GuestID r = g \<and> live r)"
  by (auto simp: InvitationRepository_ExistsForGuest_def go_run count_where_pos)

text \<open>The run of a successful creation.\<close>

lemma InvitationService_Create_Inr:
  assumes "InvitationService_Create s tenantID eventID createdBy req guestID w = (Inr iv, w')"
  obtains i t egid token u v v' where
    "InvitationRepository_Create (new_invitation i t tenantID eventID guestID egid createdBy token
       (is_baseURL s @ CHR ''/'' # token) req) v = (Inr u, v')"
    "iv = new_invitation i t tenantID eventID guestID egid createdBy token
       (is_baseURL s @ CHR ''/'' # token) req"
    "store v = store w" "invitations (store w') = invitations (store v')"
    "\<exists>e \<in> set (events (store w)). event_key eventID tenantID e \<and>
       ev_Status e \<notin> {EventStatusCancelled, EventStatusArchived}"
    "\<exists>r \<in> set (event_guests (store w)). ID r = egid \<and> TenantID r = tenantID \<and> EventID r = eventID
       \<and> GuestID r = guestID \<and> live r"
    "token \<noteq> []"
proof -
  from assms show thesis
    unfolding InvitationService_Create_def Let_def
    by (clarsimp elim!: go_elim_Inr simp: GetByIDForTenant_Inr NewBase_run not_found_as_Inr
        GuestRepository_GetByIDForTenant_Inr ExistsForGuest_Inr)
      (frule roster.lookup_sound, drule roster.lookup_run, frule GenerateRandomToken_tick,
        rule that, assumption, (fastforce dest!: audit_invitations find_Some_D dest: GenerateRandomToken_nonempty)+)
qed

text \<open>A created invitation: the row is the returned value, raw token included.\<close>

lemma InvitationService_Create_row:
  assumes "InvitationService_Create s tenantID eventID createdBy req guestID w = (Inr iv, w')"
  shows "invitations (store w') = invitations (store w) @ [iv]"
    and "live iv" "inv_TokenHash iv = SHA256Hash (inv_Token iv)" "inv_Status iv = InvitationStatusDraft"
      "inv_ExpiresAt iv = icr_ExpiresAt req" "TenantID iv = tenantID" "EventID iv = eventID"
      "GuestID iv = guestID" "inv_FailedReason iv = None" "inv_Token iv \<noteq> []"
    and "\<not> has_id (ID iv) (invitations (store w))"
proof -
  from assms obtain i t egid token u v v' where
    c: "InvitationRepository_Create (new_invitation i t tenantID eventID guestID egid createdBy token
       (is_baseURL s @ CHR ''/'' # token) req) v = (Inr u, v')"
    and iv: "iv = new_invitation i t tenantID eventID guestID egid createdBy token
       (is_baseURL s @ CHR ''/'' # token) req"
    and v: "store v = store w" "invitations (store w') = invitations (store v')"
    and "token \<noteq> []"
    by (rule InvitationService_Create_Inr) blast
  with c v iv show "invitations (store w') = invitations (store w) @ [iv]"
    and "live iv" "inv_TokenHash iv = SHA256Hash (inv_Token iv)" "inv_Status iv = InvitationStatusDraft"
      "inv_ExpiresAt iv = icr_ExpiresAt req" "TenantID iv = tenantID" "EventID iv = eventID"
      "GuestID iv = guestID" "inv_FailedReason iv = None" "inv_Token iv \<noteq> []"
      "\<not> has_id (ID iv) (invitations (store w))"
    using InvitationRepository_Create_run [OF c] by (auto simp: new_invitation_def)
qed

section \<open>Tokens\<close>

lemma GetByTokenHash_Inr [go_run]:
  "InvitationRepository_GetByTokenHash h w = (Inr i, w') \<longleftrightarrow> \<not> faults w (pos w) \<and> w' = tick w \<and>
     find (\<lambda>r. inv_TokenHash r = h \<and> live r) (invitations (store w)) = Some i"
  by (auto simp: InvitationRepository_GetByTokenHash_def go_run)

lemma GetByTokenHash_Inl [go_run]:
  "InvitationRepository_GetByTokenHash h w = (Inl e, w') \<longleftrightarrow> w' = tick w \<and>
     (if faults w (pos w) then e = ErrDB
      else e = ErrInvitationNotFound \<and>
        find (\<lambda>r. inv_TokenHash r = h \<and> live r) (invitations (store w)) = None)"
  by (auto simp: InvitationRepository_GetByTokenHash_def go_run)

text \<open>
  The contract of a credential lookup that the RSVP and check-in services rely on: it changes
  nothing, and what it finds is a live invitation stored under the hash of the token.
\<close>

locale credential_lookup =
  fixes by_hash :: "string \<Rightarrow> invitation app"
  assumes by_hash_run: "by_hash h w = (r, w') \<Longrightarrow> w' = tick w"
    and by_hash_sound: "by_hash h w = (Inr i, w') \<Longrightarrow>
      i \<in> set (invitations (store w)) \<and> inv_TokenHash i = h \<and> live i"
    and by_hash_missing: "by_hash h w = (Inl ErrInvitationNotFound, w') \<Longrightarrow>
      \<forall>i \<in> set (invitations (store w)). live i \<longrightarrow> inv_TokenHash i \<noteq> h"
begin

lemma by_hash_store: "by_hash h w = (r, w') \<Longrightarrow> store w' = store w"
  by (auto dest: by_hash_run)

lemma by_hash_stays: "stays (=) (by_hash h)"
  by (rule staysI) (auto dest: by_hash_run)

text \<open>A hash stored in one live row identifies that row.\<close>

lemma by_hash_unique:
  assumes "by_hash h w = (Inr i, w')" and "j \<in> set (invitations (store w))"
    and "\<And>k. k \<in> set (invitations (store w)) \<Longrightarrow> live k \<Longrightarrow> inv_TokenHash k = h \<Longrightarrow> k = j"
  shows "i = j"
  using by_hash_sound [OF assms(1)] assms(3) by blast

end

interpretation credential: credential_lookup InvitationRepository_GetByTokenHash
proof
  fix h r and w w' :: "db world"
  assume "InvitationRepository_GetByTokenHash h w = (r, w')"
  then show "w' = tick w" by (cases r) (auto simp: go_run)
next
  fix h i and w w' :: "db world"
  assume "InvitationRepository_GetByTokenHash h w = (Inr i, w')"
  then show "i \<in> set (invitations (store w)) \<and> inv_TokenHash i = h \<and> live i"
    by (auto simp: go_run dest: find_Some_D)
next
  fix h and w w' :: "db world"
  assume "InvitationRepository_GetByTokenHash h w = (Inl ErrInvitationNotFound, w')"
  then show "\<forall>i \<in> set (invitations (store w)). live i \<longrightarrow> inv_TokenHash i \<noteq> h"
    by (auto simp: go_run find_None_iff split: if_splits)
qed

text \<open>Everything that validating a token can do, when the query does not fail.\<close>

lemma ValidateToken_run:
  assumes "token \<noteq> []" and "\<not> faults w (pos w)"
  shows "InvitationService_ValidateToken token w =
    (case find (\<lambda>r. inv_TokenHash r = SHA256Hash token \<and> live r) (invitations (store w)) of
       None \<Rightarrow> (Inl ErrTokenInvalid, tick w)
     | Some i \<Rightarrow> if inv_Status i = InvitationStatusRevoked then (Inl ErrInvitationRevoked, tick w)
         else (case inv_ExpiresAt i of None \<Rightarrow> (Inr (i\<lparr>inv_Token := []\<rparr>), tick w)
           | Some x \<Rightarrow> if x < clock w (Suc (pos w)) then (Inl ErrInvitationExpired, tick (tick w))
               else (Inr (i\<lparr>inv_Token := []\<rparr>), tick (tick w))))"
  using assms
  by (auto simp: InvitationService_ValidateToken_def go_guard_def go_bind_run not_found_as_def go_try_run
      InvitationRepository_GetByTokenHash_def get_one_def query_def check_expiry_def now_def
      split: option.splits dest!: find_Some_D)

lemma ValidateToken_stays: "stays (=) (InvitationService_ValidateToken token)"
  unfolding InvitationService_ValidateToken_def not_found_as_def check_expiry_def
  by (auto intro!: unchanged.all_stays credential.by_hash_stays split: sum.split option.split)

lemma ValidateToken_Inr:
  assumes "InvitationService_ValidateToken token w = (Inr i, w')"
  obtains row where "row \<in> set (invitations (store w))" "i = row\<lparr>inv_Token := []\<rparr>" "live row"
    "inv_TokenHash row = SHA256Hash token" "inv_Status row \<noteq> InvitationStatusRevoked"
    "token \<noteq> []" "store w' = store w"
proof -
  from assms have "store w' = store w" using staysD [OF ValidateToken_stays] by metis
  with assms show thesis
    unfolding InvitationService_ValidateToken_def check_expiry_def
    by (auto elim!: go_elim_Inr simp: not_found_as_Inr split: option.splits intro!: that
        dest!: credential.by_hash_sound)
qed

section \<open>The invariant\<close>

text \<open>Keys are distinct, a guest holds one live invitation per event, and the hash is that of the
  token the row keeps.\<close>

definition invitations_ok :: "invitation list \<Rightarrow> bool" where
  "invitations_ok rs \<longleftrightarrow> distinct (map ID rs)
     \<and> distinct (map (\<lambda>r. (EventID r, GuestID r)) (filter live rs))
     \<and> (\<forall>r \<in> set rs. inv_TokenHash r = SHA256Hash (inv_Token r))"

lemma invitations_ok_insert:
  assumes "insert_invitation i srv d = Some (n, d')" and "inv_TokenHash i = SHA256Hash (inv_Token i)"
    and "invitations_ok (invitations d)"
  shows "invitations_ok (invitations d')"
  using insert_invitation_Some [OF assms(1)] assms(2,3)
  by (auto simp: invitations_ok_def has_id_iff)

definition keeps_credential :: "invitation \<Rightarrow> invitation \<Rightarrow> bool" where
  "keeps_credential r r' \<longleftrightarrow> ID r' = ID r \<and> TenantID r' = TenantID r \<and> EventID r' = EventID r
     \<and> GuestID r' = GuestID r \<and> inv_TokenHash r' = inv_TokenHash r \<and> inv_Token r' = inv_Token r
     \<and> (live r' \<longrightarrow> live r)"

lemma distinct_filter_update:
  assumes "distinct (map k (filter P rs))" and "\<And>r. k (f r) = k r" and "\<And>r. P (f r) \<Longrightarrow> P r"
  shows "distinct (map k (filter P (update_where q f rs)))"
proof -
  have sub: "c \<notin> set (map k (filter P (update_where q f rs)))" if "c \<notin> set (map k (filter P rs))" for c rs
    using that assms(2,3) by (fastforce simp: set_update_where)
  show ?thesis using assms(1)
  proof (induction rs)
    case (Cons r rs)
    then have "distinct (map k (filter P (update_where q f rs)))" by (simp split: if_splits)
    moreover have "k r \<notin> set (map k (filter P (update_where q f rs)))" if "P r"
      by (rule sub) (use Cons.prems that in simp)
    ultimately show ?case using assms(2) assms(3) [of r] by (simp del: set_map)
  qed simp
qed

lemma invitations_ok_update:
  assumes "invitations_ok rs" and "\<And>r. keeps_credential r (f r)"
  shows "invitations_ok (update_where p f rs)"
proof -
  have "map ID (update_where p f rs) = map ID rs"
    using assms(2) by (intro map_update_where) (simp add: keeps_credential_def)
  moreover have "distinct (map (\<lambda>r. (EventID r, GuestID r)) (filter live (update_where p f rs)))"
    using assms by (intro distinct_filter_update) (auto simp: invitations_ok_def keeps_credential_def)
  ultimately show ?thesis
    using assms by (auto simp: invitations_ok_def set_update_where keeps_credential_def)
qed

abbreviation invitations_kept :: "db \<Rightarrow> db \<Rightarrow> bool" where
  "invitations_kept d d' \<equiv> invitations_ok (invitations d) \<longrightarrow> invitations_ok (invitations d')"

lemma LogWithUser_invitations: "stays invitations_kept (LogWithUser u t a et ei ov nv)"
  by (rule stays_mono [OF LogWithUser_stays]) (auto dest: audit_free_tables)

lemma InvitationRepository_Create_keeps:
  "inv_TokenHash i = SHA256Hash (inv_Token i) \<Longrightarrow> stays invitations_kept (InvitationRepository_Create i)"
  unfolding InvitationRepository_Create_def
  by (intro kept.bind_stays kept.exec_stays kept.ret_stays) (auto intro: invitations_ok_insert)

lemma update_invitations_keeps:
  assumes "\<And>srv r. keeps_credential r (f srv r)"
  shows "stays invitations_kept (exec_rows e (\<lambda>srv d. if c srv d then None
    else Some (sql_update invitations put_invitations p (f srv) d)))"
  by (rule kept.exec_rows_stays)
    (auto simp: sql_update_def assms split: if_splits intro: invitations_ok_update)

lemmas update_invitations_keeps' = update_invitations_keeps [where c = "\<lambda>_ _. False", simplified]

lemma keeps_credential_updates:
  "keeps_credential r (r\<lparr>inv_Status := st, UpdatedAt := tm\<rparr>)"
  "keeps_credential r (mark_opened tm r)"
  "keeps_credential r (r\<lparr>DeletedAt := Some tm, UpdatedAt := tm, inv_Status := st\<rparr>)"
  "keeps_credential r (r\<lparr>inv_Status := st, inv_RevokedAt := ra, inv_RevokedBy := rb,
     inv_RevokeReason := rr, UpdatedAt := tm\<rparr>)"
  by (simp_all add: keeps_credential_def mark_opened_def)

lemma MarkOpened_keeps: "stays invitations_kept (InvitationRepository_MarkOpened i)"
  unfolding InvitationRepository_MarkOpened_def
  by (intro kept.bind_stays kept.now_stays kept.exec_stays kept.ret_stays)
    (auto simp: sql_update_def keeps_credential_updates intro: invitations_ok_update)

lemma LogCredentialUsage_invitations:
  "stays (\<lambda>d d'. invitations d' = invitations d) (InvitationRepository_LogCredentialUsage u)"
  unfolding InvitationRepository_LogCredentialUsage_def
  by (intro same.bind_stays same.exec_stays same.ret_stays)
    (auto simp: insert_credential_usage_def split: if_splits)

lemma UpdateStatus_keeps: "stays invitations_kept (InvitationRepository_UpdateStatus i t st)"
  unfolding InvitationRepository_UpdateStatus_def
  by (rule update_invitations_keeps') (rule keeps_credential_updates)

lemmas invitation_stays = kept.all_stays [where I = "\<lambda>d. invitations_ok (invitations d)"]
  kept.NewBase_stays [where I = "\<lambda>d. invitations_ok (invitations d)"]
  LogWithUser_invitations update_invitations_keeps update_invitations_keeps' keeps_credential_updates
  MarkOpened_keeps stays_mono [OF LogCredentialUsage_invitations]
  stays_mono [OF roster.lookup_stays] stays_mono [OF ValidateToken_stays]

lemma InvitationService_Create_keeps:
  "stays invitations_kept (InvitationService_Create s t e u req g)"
  unfolding InvitationService_Create_def EventRepository_GetByIDForTenant_def Let_def not_found_as_def
    GuestRepository_GetByIDForTenant_def InvitationRepository_ExistsForGuest_def
    GenerateRandomToken_def invitationTokenBytes_def
  by (auto intro!: invitation_stays InvitationRepository_Create_keeps simp: new_invitation_def
      split: sum.split prod.split)

lemma batch_loop_keeps:
  "(\<And>g. stays invitations_kept (create g)) \<Longrightarrow> stays invitations_kept (batch_loop create gs invs errs)"
  by (induction gs arbitrary: invs errs) (auto intro!: invitation_stays split: sum.split)

lemma GenerateBatch_keeps: "stays invitations_kept (InvitationService_GenerateBatch s t e u req)"
  unfolding InvitationService_GenerateBatch_def EventRepository_GetByIDForTenant_def
  by (auto intro!: invitation_stays batch_loop_keeps InvitationService_Create_keeps
      split: prod.split list.split)

lemma Revoke_keeps: "stays invitations_kept (InvitationService_Revoke t i u reason)"
  unfolding InvitationService_Revoke_def InvitationRepository_GetByIDForTenant_def
    InvitationRepository_Revoke_def
  by (auto intro!: invitation_stays)

lemma SoftDelete_keeps: "stays invitations_kept (InvitationService_SoftDelete t i)"
  unfolding InvitationService_SoftDelete_def InvitationRepository_SoftDelete_def
  by (auto intro!: invitation_stays)

lemma RecordOpen_keeps: "stays invitations_kept (InvitationService_RecordOpen token ip)"
  unfolding InvitationService_RecordOpen_def by (auto intro!: invitation_stays)

section \<open>Properties\<close>

datatype invitation_call =
    GenerateInvitations uuid invitation_create_request
  | RevokeInvitation uuid string
  | DeleteInvitation uuid
  | OpenInvitation string string

definition serve_invitation ::
  "invitation_service \<Rightarrow> uuid \<Rightarrow> uuid \<Rightarrow> invitation_call \<Rightarrow> unit app" where
  "serve_invitation s tenantID userID c = (case c of
      GenerateInvitations e req \<Rightarrow>
        go_bind (InvitationService_GenerateBatch s tenantID e userID req) (\<lambda>_. go_ret ())
    | RevokeInvitation i reason \<Rightarrow> InvitationService_Revoke tenantID i userID reason
    | DeleteInvitation i \<Rightarrow> InvitationService_SoftDelete tenantID i
    | OpenInvitation token ip \<Rightarrow> InvitationService_RecordOpen token ip)"

lemma serve_invitation_keeps: "stays invitations_kept (serve_invitation s t u c)"
  unfolding serve_invitation_def
  by (auto intro!: invitation_stays GenerateBatch_keeps Revoke_keeps SoftDelete_keeps RecordOpen_keeps
      split: invitation_call.split)

lemma demo_invitations_ok: "invitations_ok (invitations demo_db)"
  by (simp add: invitations_ok_def demo_invitation_def)

text \<open>the table of invitations stays consistent. Through every sequence of batches,
  revocations, deletions and openings, with any failures, keys stay distinct, a guest holds at most
  one live invitation per event, and every row is found under the hash of its own token.\<close>

theorem invitations_stay_consistent:
  assumes "invitations_ok (invitations (store w))"
  shows "invitations_ok (invitations (store (serve_all
    (map (\<lambda>(tenantID, userID, c). serve_invitation s tenantID userID c) calls) w)))"
proof (rule serve_all_keeps [where I = "\<lambda>d. invitations_ok (invitations d)"])
  fix m and v :: "db world"
  assume "m \<in> set (map (\<lambda>(tenantID, userID, c). serve_invitation s tenantID userID c) calls)"
    and "invitations_ok (invitations (store v))"
  then show "invitations_ok (invitations (store (snd (m v))))"
    using serve_invitation_keeps by (auto simp: stays_def)
qed (rule assms)

lemma invitations_stay_consistent_witness:
  "invitations_ok (invitations (store (serve_all
    (map (\<lambda>(tenantID, userID, c). serve_invitation NewInvitationService tenantID userID c)
      [(1, 2, RevokeInvitation 8 ''no''), (1, 2, DeleteInvitation 8)]) (demo_world demo_db))))"
  by (rule invitations_stay_consistent) (use demo_invitations_ok in simp)

lemma find_unique:
  assumes "j \<in> set rs" and "P j" and "\<And>k. k \<in> set rs \<Longrightarrow> P k \<Longrightarrow> k = j"
  shows "find P rs = Some j"
proof (cases "find P rs")
  case None
  with assms(1,2) show ?thesis by (auto simp: find_None_iff)
next
  case (Some x)
  with assms(3) find_Some_D [OF Some] show ?thesis by blast
qed

text \<open>C22: round trip of a credential. The token that a creation returns, presented before the
  expiry it was given, validates to the created invitation (with the token blanked), provided no
  live invitation had the same hash before.\<close>

theorem created_token_validates:
  assumes "InvitationService_Create s tenantID eventID createdBy req guestID w = (Inr iv, w')"
    and "\<forall>i \<in> set (invitations (store w)). live i \<longrightarrow> inv_TokenHash i \<noteq> inv_TokenHash iv"
    and "store v = store w'" and "\<not> faults v (pos v)"
    and "\<forall>x. icr_ExpiresAt req = Some x \<longrightarrow> clock v (Suc (pos v)) \<le> x"
  shows "fst (InvitationService_ValidateToken (inv_Token iv) v) = Inr (iv\<lparr>inv_Token := []\<rparr>)"
proof -
  note row = InvitationService_Create_row [OF assms(1)]
  have "find (\<lambda>r. inv_TokenHash r = SHA256Hash (inv_Token iv) \<and> live r) (invitations (store v)) = Some iv"
    by (rule find_unique) (use row assms(2,3) in auto)
  with row assms(4,5) show ?thesis
    by (auto simp: ValidateToken_run not_less split: option.split)
qed

lemma InvitationRepository_Revoke_run:
  assumes "InvitationRepository_Revoke i t by reason w = (Inr u, w')"
  shows "\<exists>tm. invitations (store w') = update_where (invitation_key i t)
    (\<lambda>r. r\<lparr>inv_Status := InvitationStatusRevoked, inv_RevokedAt := Some tm,
      inv_RevokedBy := Some by, inv_RevokeReason := Some reason, UpdatedAt := tm\<rparr>)
    (invitations (store w))"
  using assms by (auto simp: InvitationRepository_Revoke_def go_run sql_update_def split: if_splits)

lemma InvitationService_Revoke_run:
  assumes "InvitationService_Revoke t i by reason w = (Inr u, w')"
  shows "\<exists>tm. invitations (store w') = update_where (invitation_key i t)
    (\<lambda>r. r\<lparr>inv_Status := InvitationStatusRevoked, inv_RevokedAt := Some tm,
      inv_RevokedBy := Some by, inv_RevokeReason := Some reason, UpdatedAt := tm\<rparr>)
    (invitations (store w))"
  using assms unfolding InvitationService_Revoke_def InvitationRepository_GetByIDForTenant_def
  by (clarsimp elim!: go_elim_Inr simp: get_one_Inr)
    (drule InvitationRepository_Revoke_run, drule audit_invitations, auto)

text \<open>
  A property of the row with a given key that holds for ever once it holds: the service never removes
  a row, never gives its key to another, and its updates keep the property.
\<close>

definition closed_invitation :: "(invitation \<Rightarrow> bool) \<Rightarrow> uuid \<Rightarrow> db \<Rightarrow> bool" where
  "closed_invitation P i d \<longleftrightarrow> has_id i (invitations d) \<and> (\<forall>r \<in> set (invitations d). ID r = i \<longrightarrow> P r)"

definition lasting :: "(invitation \<Rightarrow> bool) \<Rightarrow> bool" where
  "lasting P \<longleftrightarrow> (\<forall>r tm by reason. P r \<longrightarrow> P (mark_opened tm r)
     \<and> P (r\<lparr>DeletedAt := Some tm, UpdatedAt := tm, inv_Status := InvitationStatusRevoked\<rparr>)
     \<and> P (r\<lparr>inv_Status := InvitationStatusRevoked, inv_RevokedAt := Some tm, inv_RevokedBy := by,
         inv_RevokeReason := reason, UpdatedAt := tm\<rparr>))"

definition revoked_row :: "string \<Rightarrow> invitation \<Rightarrow> bool" where
  "revoked_row h r \<longleftrightarrow> inv_TokenHash r = h \<and> (inv_Status r = InvitationStatusRevoked \<or> \<not> live r)"

definition deleted_row :: "string \<Rightarrow> invitation \<Rightarrow> bool" where
  "deleted_row h r \<longleftrightarrow> inv_TokenHash r = h \<and> \<not> live r"

lemma lasting_rows: "lasting (revoked_row h)" "lasting (deleted_row h)"
  by (auto simp: lasting_def revoked_row_def deleted_row_def mark_opened_def)

abbreviation closed_stays :: "(invitation \<Rightarrow> bool) \<Rightarrow> uuid \<Rightarrow> 'a app \<Rightarrow> bool" where
  "closed_stays P i m \<equiv> stays (\<lambda>d d'. closed_invitation P i d \<longrightarrow> closed_invitation P i d') m"

lemma closed_table:
  assumes "closed_invitation P i d" and "invitations d' = update_where q f (invitations d)"
    and "\<And>r. ID (f r) = ID r" and "\<And>r. P r \<Longrightarrow> P (f r)"
  shows "closed_invitation P i d'"
proof -
  have "map ID (invitations d') = map ID (invitations d)"
    unfolding assms(2) by (rule map_update_where) (rule assms(3))
  then have "has_id i (invitations d') = has_id i (invitations d)"
    by (simp only: has_id_map_ID)
  then show ?thesis
    using assms by (auto simp: closed_invitation_def set_update_where)
qed

lemma closed_update:
  assumes "\<And>srv r. ID (f srv r) = ID r" and "\<And>srv r. P r \<Longrightarrow> P (f srv r)"
  shows "closed_stays P i (exec_rows e (\<lambda>srv d. if c srv d then None
    else Some (sql_update invitations put_invitations q (f srv) d)))"
  by (rule kept.exec_rows_stays)
    (auto simp: sql_update_def split: if_splits intro!: assms elim!: closed_table [where q = q and f = "f srv" for srv])

lemmas closed_update' = closed_update [where c = "\<lambda>_ _. False", simplified]

lemma closed_same:
  "stays (\<lambda>d d'. invitations d' = invitations d) m \<Longrightarrow> closed_stays P i m"
  by (erule stays_mono) (simp add: closed_invitation_def)

lemma closed_audit: "closed_stays P i (LogWithUser u t a et ei ov nv)"
  by (rule stays_mono [OF LogWithUser_stays]) (auto simp: closed_invitation_def dest: audit_free_tables)

lemma closed_insert: "closed_stays P i (InvitationRepository_Create r)"
proof -
  have "closed_invitation P i d'" if "insert_invitation r srv d = Some (n, d')" and "closed_invitation P i d" for srv d n d'
  proof -
    from insert_invitation_Some [OF that(1)] have d': "invitations d' = invitations d @ [r\<lparr>inv_FailedReason := None\<rparr>]"
      and new: "\<not> has_id (ID r) (invitations d)" by auto
    with that(2) have "ID r \<noteq> i" by (auto simp: closed_invitation_def)
    with that(2) show ?thesis by (auto simp: closed_invitation_def d' has_id_iff)
  qed
  then show ?thesis
    unfolding InvitationRepository_Create_def by (intro kept.bind_stays kept.exec_stays kept.ret_stays) auto
qed

lemmas closed_all = kept.all_stays [where I = "closed_invitation P i" for P i]
  kept.NewBase_stays [where I = "closed_invitation P i" for P i] closed_audit closed_insert
  closed_same [OF LogCredentialUsage_invitations]
  stays_mono [OF roster.lookup_stays] stays_mono [OF ValidateToken_stays]

lemma Create_closed: "closed_stays P i (InvitationService_Create s t e u req g)"
  unfolding InvitationService_Create_def EventRepository_GetByIDForTenant_def Let_def not_found_as_def
    GuestRepository_GetByIDForTenant_def InvitationRepository_ExistsForGuest_def
    GenerateRandomToken_def invitationTokenBytes_def
  by (auto intro!: closed_all split: sum.split prod.split)

lemma batch_closed: "closed_stays P i (batch_loop (InvitationService_Create s t e u req) gs invs errs)"
  by (induction gs arbitrary: invs errs) (auto intro!: closed_all Create_closed split: sum.split)

lemma GenerateBatch_closed: "closed_stays P i (InvitationService_GenerateBatch s t e u req)"
  unfolding InvitationService_GenerateBatch_def EventRepository_GetByIDForTenant_def
  by (auto intro!: closed_all batch_closed split: prod.split list.split)

lemma lastingD:
  assumes "lasting P" and "P r"
  shows "P (mark_opened tm r)" "P (r\<lparr>DeletedAt := Some tm, UpdatedAt := tm, inv_Status := InvitationStatusRevoked\<rparr>)"
    "P (r\<lparr>inv_Status := InvitationStatusRevoked, inv_RevokedAt := Some tm, inv_RevokedBy := by,
       inv_RevokeReason := reason, UpdatedAt := tm\<rparr>)"
  using assms by (auto simp: lasting_def)

lemma mark_opened_ID: "ID (mark_opened tm r) = ID r"
  by (simp add: mark_opened_def)

lemma serve_invitation_closed:
  assumes "lasting P"
  shows "closed_stays P i (serve_invitation s t u c)"
proof -
  have "closed_stays P i (InvitationRepository_Revoke j t u reason)" for j reason
    unfolding InvitationRepository_Revoke_def
    by (intro kept.bind_stays kept.now_stays closed_update) (simp_all add: lastingD [OF assms])
  then have "closed_stays P i (InvitationService_Revoke t j u reason)" for j reason
    unfolding InvitationService_Revoke_def InvitationRepository_GetByIDForTenant_def
    by (auto intro!: closed_all)
  moreover have "closed_stays P i (InvitationService_SoftDelete t j)" for j
    unfolding InvitationService_SoftDelete_def InvitationRepository_SoftDelete_def
    by (intro kept.bind_stays kept.now_stays closed_update') (simp_all add: lastingD [OF assms])
  moreover have "closed_stays P i (InvitationRepository_MarkOpened j)" for j
    unfolding InvitationRepository_MarkOpened_def
    by (intro kept.bind_stays kept.now_stays kept.exec_stays kept.ret_stays)
      (auto simp: sql_update_def mark_opened_ID elim!: closed_table intro: lastingD(1) [OF assms])
  ultimately show ?thesis
    unfolding serve_invitation_def InvitationService_RecordOpen_def
    by (auto intro!: closed_all GenerateBatch_closed split: invitation_call.split)
qed

lemma serve_invitations_closed:
  assumes "lasting P" and "closed_invitation P i (store w)"
  shows "closed_invitation P i (store (serve_all
    (map (\<lambda>(tenantID, userID, c). serve_invitation s tenantID userID c) calls) w))"
proof (rule serve_all_keeps [where I = "closed_invitation P i"])
  fix m and v :: "db world"
  assume "m \<in> set (map (\<lambda>(tenantID, userID, c). serve_invitation s tenantID userID c) calls)"
    and "closed_invitation P i (store v)"
  then show "closed_invitation P i (store (snd (m v)))"
    using serve_invitation_closed [OF assms(1)] by (auto simp: stays_def)
qed (rule assms)

text \<open>What is presented of a row that is closed.\<close>

lemma closed_token:
  assumes "closed_invitation (revoked_row (SHA256Hash token)) i (store v)" and "token \<noteq> []"
    and "\<forall>r \<in> set (invitations (store v)). live r \<longrightarrow> inv_TokenHash r = SHA256Hash token \<longrightarrow> ID r = i"
  shows "fst (InvitationService_ValidateToken token v) = Inl (if faults v (pos v) then ErrDB
    else if \<exists>r \<in> set (invitations (store v)). ID r = i \<and> live r then ErrInvitationRevoked else ErrTokenInvalid)"
proof (cases "faults v (pos v)")
  case True
  then show ?thesis
    by (simp add: InvitationService_ValidateToken_def assms(2) go_guard_def go_bind_run not_found_as_def go_try_run
        InvitationRepository_GetByTokenHash_def get_one_def query_def)
next
  case False
  show ?thesis
  proof (cases "find (\<lambda>r. inv_TokenHash r = SHA256Hash token \<and> live r) (invitations (store v))")
    case None
    then have "\<not> (\<exists>r \<in> set (invitations (store v)). ID r = i \<and> live r)"
      using assms(1) by (auto simp: find_None_iff closed_invitation_def revoked_row_def)
    with None False show ?thesis using assms(2) by (simp add: ValidateToken_run)
  next
    case (Some r)
    then have r: "r \<in> set (invitations (store v))" "live r" "ID r = i"
      using assms(3) by (auto dest: find_Some_D)
    with assms(1) have "inv_Status r = InvitationStatusRevoked"
      by (auto simp: closed_invitation_def revoked_row_def)
    with Some False r show ?thesis using assms(2) by (auto simp: ValidateToken_run)
  qed
qed

text \<open>What the two calls leave of the row.\<close>

lemma only_row:
  assumes "distinct (map ID rs)" and "row \<in> set rs"
  shows "\<forall>r \<in> set rs. ID r = ID row \<longrightarrow> r = row"
  using assms by (meson distinct_map inj_onD)

lemma row_closes:
  assumes "distinct (map ID (invitations d))" and "row \<in> set (invitations d)" and "invitation_key i t row"
    and "invitations d' = update_where (invitation_key i t) f (invitations d)"
    and "\<And>r. ID (f r) = ID r" and "P (f row)"
  shows "closed_invitation P i d'"
proof -
  have key: "ID row = i" using assms(3) by (simp add: invitation_key_def)
  have one: "r = row" if "r \<in> set (invitations d)" "ID r = i" for r
    by (rule only_row [OF assms(1,2), rule_format]) (use that key in simp_all)
  have "k = f row" if "k \<in> set (update_where (invitation_key i t) f (invitations d))" "ID k = i" for k
  proof -
    from that(1) obtain r where r: "r \<in> set (invitations d)" "k = (if invitation_key i t r then f r else r)"
      by (auto simp: set_update_where)
    with that(2) assms(5) have "ID r = i" by (simp split: if_splits)
    with r one have "r = row" by blast
    with r(2) assms(3) show ?thesis by simp
  qed
  then have "\<forall>k \<in> set (invitations d'). ID k = i \<longrightarrow> P k" unfolding assms(4) using assms(6) by metis
  moreover have "f row \<in> set (invitations d')" "ID (f row) = i"
    using assms(2,3,5) key by (auto simp: assms(4) set_update_where)
  ultimately show ?thesis unfolding closed_invitation_def has_id_iff by blast
qed

lemma Revoke_closes:
  assumes "InvitationService_Revoke t i u reason w = (Inr (), w')" and "distinct (map ID (invitations (store w)))"
    and "row \<in> set (invitations (store w))" and "invitation_key i t row"
  shows "closed_invitation (revoked_row (inv_TokenHash row)) i (store w')"
proof -
  obtain tm where tab: "invitations (store w') = update_where (invitation_key i t)
    (\<lambda>r. r\<lparr>inv_Status := InvitationStatusRevoked, inv_RevokedAt := Some tm,
      inv_RevokedBy := Some u, inv_RevokeReason := Some reason, UpdatedAt := tm\<rparr>)
    (invitations (store w))" using InvitationService_Revoke_run [OF assms(1)] by blast
  show ?thesis by (rule row_closes [OF assms(2-4) tab]) (simp_all add: revoked_row_def)
qed

lemma SoftDelete_closes:
  assumes "InvitationService_SoftDelete t i w = (Inr (), w')" and "distinct (map ID (invitations (store w)))"
    and "row \<in> set (invitations (store w))" and "invitation_key i t row"
  shows "closed_invitation (deleted_row (inv_TokenHash row)) i (store w')"
proof -
  obtain tm where tab: "invitations (store w') = update_where (invitation_key i t)
    (\<lambda>r. r\<lparr>DeletedAt := Some tm, UpdatedAt := tm, inv_Status := InvitationStatusRevoked\<rparr>)
    (invitations (store w))"
    using assms(1) by (auto simp: InvitationService_SoftDelete_def InvitationRepository_SoftDelete_def
        go_run sql_update_def)
  show ?thesis by (rule row_closes [OF assms(2-4) tab]) (simp_all add: deleted_row_def)
qed

text \<open>C4: A revoked or deleted invitation stays closed to its token, through every later sequence of calls
  of the invitation service (batches, revocations, deletions and openings, with any failures): a lookup
  of the token answers \<open>ErrDB\<close> when its statement fails, and otherwise \<open>ErrInvitationRevoked\<close> as long
  as the row is live and \<open>ErrTokenInvalid\<close> once it is deleted; after a deletion it is \<open>ErrTokenInvalid\<close>
  at once. The keys are distinct before, and no live invitation of another key has the hash of the token
  at the time of the lookup. Responses that an officer records are not among these calls.\<close>

theorem revoked_or_deleted_token_is_refused:
  assumes "distinct (map ID (invitations (store w)))"
    and "row \<in> set (invitations (store w))" and "invitation_key i tenantID row"
    and "inv_TokenHash row = SHA256Hash token" and "token \<noteq> []"
    and "v = serve_all (map (\<lambda>(tenantID, userID, c). serve_invitation s tenantID userID c) calls) w'"
    and "\<forall>r \<in> set (invitations (store v)). live r \<longrightarrow> inv_TokenHash r = SHA256Hash token \<longrightarrow> ID r = i"
  shows "(InvitationService_Revoke tenantID i userID reason w = (Inr (), w') \<longrightarrow>
      fst (InvitationService_ValidateToken token v) = Inl (if faults v (pos v) then ErrDB
        else if \<exists>r \<in> set (invitations (store v)). ID r = i \<and> live r then ErrInvitationRevoked else ErrTokenInvalid))
    \<and> (InvitationService_SoftDelete tenantID i w = (Inr (), w') \<longrightarrow>
      fst (InvitationService_ValidateToken token v) = Inl (if faults v (pos v) then ErrDB else ErrTokenInvalid))"
proof (intro conjI impI)
  assume "InvitationService_Revoke tenantID i userID reason w = (Inr (), w')"
  from Revoke_closes [OF this assms(1-3), unfolded assms(4)]
  show "fst (InvitationService_ValidateToken token v) = Inl (if faults v (pos v) then ErrDB
      else if \<exists>r \<in> set (invitations (store v)). ID r = i \<and> live r then ErrInvitationRevoked else ErrTokenInvalid)"
    using closed_token [OF _ assms(5,7)] serve_invitations_closed [OF lasting_rows(1)] unfolding assms(6) by blast
next
  assume "InvitationService_SoftDelete tenantID i w = (Inr (), w')"
  from serve_invitations_closed [OF lasting_rows(2) SoftDelete_closes [OF this assms(1-3), unfolded assms(4)]]
  have dead: "closed_invitation (deleted_row (SHA256Hash token)) i (store v)" unfolding assms(6) .
  then have shut: "closed_invitation (revoked_row (SHA256Hash token)) i (store v)"
    and none: "(\<exists>r \<in> set (invitations (store v)). ID r = i \<and> live r) = False"
    by (auto simp: closed_invitation_def revoked_row_def deleted_row_def)
  from closed_token [OF shut assms(5,7), unfolded none]
  show "fst (InvitationService_ValidateToken token v) = Inl (if faults v (pos v) then ErrDB else ErrTokenInvalid)"
    by simp
qed

lemma demo_closing_runs:
  "fst (InvitationService_Revoke 1 8 2 ''no'' (demo_world demo_db)) = Inr ()"
  "fst (InvitationService_SoftDelete 1 8 (demo_world demo_db)) = Inr ()"
  by (simp_all add: InvitationService_Revoke_def InvitationService_SoftDelete_def InvitationRepository_SoftDelete_def
      InvitationRepository_Revoke_def InvitationRepository_GetByIDForTenant_def go_eval invitation_key_def
      demo_invitation_def demo_user_def has_id_def)

lemma revoked_or_deleted_token_is_refused_witness:
  "\<exists>w' w''. InvitationService_Revoke 1 8 2 ''no'' (demo_world demo_db) = (Inr (), w')
     \<and> fst (InvitationService_ValidateToken ''tok'' w') = Inl ErrInvitationRevoked
     \<and> InvitationService_SoftDelete 1 8 (demo_world demo_db) = (Inr (), w'')
     \<and> fst (InvitationService_ValidateToken ''tok'' w'') = Inl ErrTokenInvalid"
proof -
  let ?w = "demo_world demo_db"
  let ?v = "snd (InvitationService_Revoke 1 8 2 ''no'' ?w)"
  let ?v' = "snd (InvitationService_SoftDelete 1 8 ?w)"
  have run: "InvitationService_Revoke 1 8 2 ''no'' ?w = (Inr (), ?v)" "InvitationService_SoftDelete 1 8 ?w = (Inr (), ?v')"
    using demo_closing_runs by (simp_all add: prod_eq_iff)
  have rows: "demo_invitation \<in> set (invitations (store ?w))" "distinct (map ID (invitations (store ?w)))"
    "invitation_key 8 1 demo_invitation" "inv_TokenHash demo_invitation = SHA256Hash ''tok''" "(''tok'' :: string) \<noteq> []"
    by (simp_all add: invitation_key_def demo_invitation_def)
  have after: "\<not> faults ?v (pos ?v)" "\<not> faults ?v' (pos ?v')" "\<forall>r \<in> set (invitations (store ?v)). ID r = 8 \<and> live r"
    "\<forall>r \<in> set (invitations (store ?v')). ID r = 8" "invitations (store ?v) \<noteq> []"
    by (simp_all add: InvitationService_Revoke_def InvitationService_SoftDelete_def InvitationRepository_SoftDelete_def
      InvitationRepository_Revoke_def InvitationRepository_GetByIDForTenant_def go_eval invitation_key_def
      demo_invitation_def demo_user_def demo_tenant_def has_id_def has_id_opt_def insert_audit_log_def)
  from after(3,5) have one: "\<exists>r \<in> set (invitations (store ?v)). ID r = 8 \<and> live r" by (cases "invitations (store ?v)") auto
  have "fst (InvitationService_ValidateToken ''tok'' ?v) = Inl ErrInvitationRevoked"
    using revoked_or_deleted_token_is_refused [OF rows(2,1,3-5), where calls = "[]" and w' = ?v and v = ?v and userID = 2
        and reason = "''no''"] run(1) after(1,3) one by simp
  moreover have "fst (InvitationService_ValidateToken ''tok'' ?v') = Inl ErrTokenInvalid"
    using revoked_or_deleted_token_is_refused [OF rows(2,1,3-5), where calls = "[]" and w' = ?v' and v = ?v' and userID = 2
        and reason = "''no''"] run(2) after(2,4) by simp
  ultimately show ?thesis using run by blast
qed

definition demo_invite :: invitation_create_request where
  "demo_invite = \<lparr>icr_GuestIDs = [5], icr_MaxPax = 2, icr_Adults = 1, icr_Children = 0,
     icr_PlusOneAllowed = True, icr_PlusOneRequired = False, icr_ExpiresAt = None\<rparr>"

definition uninvited_db :: db where
  "uninvited_db = demo_db\<lparr>invitations := []\<rparr>"

lemma created_token_validates_witness:
  "\<exists>iv w'. InvitationService_Create NewInvitationService 1 3 2 demo_invite 5 (demo_world uninvited_db) = (Inr iv, w')
    \<and> fst (InvitationService_ValidateToken (inv_Token iv) (demo_world (store w'))) = Inr (iv\<lparr>inv_Token := []\<rparr>)"
proof -
  let ?m = "InvitationService_Create NewInvitationService 1 3 2 demo_invite 5"
  let ?w = "demo_world uninvited_db"
  have ok: "\<exists>iv. fst (?m ?w) = Inr iv"
    by (simp add: InvitationService_Create_def go_eval EventRepository_GetByIDForTenant_def event_key_def
        GuestRepository_GetByIDForTenant_def guest_key_def EventGuestRepository_GetByEventAndGuest_def
        eventGuestSelect_def List.map_filter_def first_row_def InvitationRepository_Create_def
        insert_invitation_def new_invitation_def uninvited_db_def demo_invite_def demo_event_def
        demo_guest_def demo_event_guest_def demo_tenant_def demo_user_def not_found_as_def
        InvitationRepository_ExistsForGuest_def GenerateRandomToken_def invitationTokenBytes_def
        rand_Read_def has_id_def has_id_opt_def int4_def toDomain_def)
  then obtain iv where "?m ?w = (Inr iv, snd (?m ?w))" by (metis run_pair)
  from created_token_validates [OF this, of "demo_world (store (snd (?m ?w)))"] this show ?thesis
    by (auto simp: uninvited_db_def demo_invite_def)
qed

text \<open>The batch: each guest either gets an invitation or leaves an error.\<close>

lemma batch_loop_spec:
  assumes "batch_loop create gs invs errs w = (r, w')"
    and "\<And>g v iv v'. create g v = (Inr iv, v') \<Longrightarrow>
      invitations (store v') = invitations (store v) @ [iv] \<and> GuestID iv = g \<and> P iv"
    and "\<And>g v e v'. create g v = (Inl e, v') \<Longrightarrow> invitations (store v') = invitations (store v)"
  shows "\<exists>new es. r = Inr (invs @ new, errs @ es) \<and> length new + length es = length gs \<and>
    invitations (store w') = invitations (store w) @ new \<and> subseq (map GuestID new) gs \<and> (\<forall>iv \<in> set new. P iv)"
  using assms(1)
proof (induction gs arbitrary: invs errs w)
  case Nil
  then show ?case by auto
next
  case (Cons g gs)
  from Cons.prems obtain q v where run: "create g w = (q, v)"
    and rest: "(case q of Inl e \<Rightarrow> batch_loop create gs invs (errs @ [e])
      | Inr iv \<Rightarrow> batch_loop create gs (invs @ [iv]) errs) v = (r, w')"
    by (auto elim!: go_try_elim)
  show ?case
  proof (cases q)
    case (Inl e)
    with rest obtain new es where "r = Inr (invs @ new, (errs @ [e]) @ es)"
      "length new + length es = length gs" "invitations (store w') = invitations (store v) @ new"
      "subseq (map GuestID new) gs" "\<forall>iv \<in> set new. P iv" using Cons.IH by fastforce
    with assms(3) run Inl show ?thesis
      by (intro exI [of _ new] exI [of _ "e # es"]) (auto intro: subseq_Cons')
  next
    case (Inr iv)
    with rest obtain new es where "r = Inr ((invs @ [iv]) @ new, errs @ es)"
      "length new + length es = length gs" "invitations (store w') = invitations (store v) @ new"
      "subseq (map GuestID new) gs" "\<forall>iv \<in> set new. P iv" using Cons.IH by fastforce
    with assms(2) run Inr show ?thesis
      by (intro exI [of _ "iv # new"] exI [of _ es]) auto
  qed
qed

lemma InvitationRepository_Create_fails:
  "InvitationRepository_Create i w = (Inl e, w') \<Longrightarrow> store w' = store w"
  by (auto simp: InvitationRepository_Create_def go_run)

lemma not_found_as_pure: "stays (=) m \<Longrightarrow> stays (=) (not_found_as e e' m)"
  unfolding not_found_as_def by (auto intro!: unchanged.all_stays split: sum.split)

lemma lookups_pure:
  "stays (=) (GuestRepository_GetByIDForTenant t g)"
  "stays (=) (InvitationRepository_ExistsForGuest ev g)"
  "stays (=) (EventRepository_GetByIDForTenant ev t)"
  unfolding GuestRepository_GetByIDForTenant_def InvitationRepository_ExistsForGuest_def
    EventRepository_GetByIDForTenant_def
  by (auto intro!: unchanged.all_stays)

lemmas pure_lookups = staysD [OF not_found_as_pure [OF lookups_pure(1)]]
  staysD [OF not_found_as_pure [OF roster.lookup_stays]] staysD [OF lookups_pure(2)]
  staysD [OF lookups_pure(3)]

lemma InvitationService_Create_Inl:
  "InvitationService_Create s t ev u req g w = (Inl e, w') \<Longrightarrow>
     invitations (store w') = invitations (store w)"
  unfolding InvitationService_Create_def Let_def
  by (elim go_elim; auto simp: NewBase_run elim!: go_elim
      dest!: pure_lookups GenerateRandomToken_tick InvitationRepository_Create_fails)

text \<open>a batch. When it succeeds, the table of invitations has grown by exactly the returned
  invitations, in the order of the request, one for each guest whose creation succeeded; they all
  belong to the tenant and the event, and there is at least one and at most 500.\<close>

theorem GenerateBatch_creates_what_it_returns:
  assumes "InvitationService_GenerateBatch s tenantID eventID createdBy req w = (Inr ivs, w')"
  shows "invitations (store w') = invitations (store w) @ ivs
    \<and> subseq (map GuestID ivs) (icr_GuestIDs req)
    \<and> ivs \<noteq> [] \<and> length ivs \<le> 500
    \<and> (\<forall>iv \<in> set ivs. TenantID iv = tenantID \<and> EventID iv = eventID \<and> live iv)"
proof -
  obtain errs v v' where loop: "batch_loop (InvitationService_Create s tenantID eventID createdBy req)
      (icr_GuestIDs req) [] [] v = (Inr (ivs, errs), v')" and v: "store v = store w"
    "invitations (store w') = invitations (store v')" "errs \<noteq> [] \<longrightarrow> ivs \<noteq> []"
    "icr_GuestIDs req \<noteq> []" "length (icr_GuestIDs req) \<le> 500"
    using assms unfolding InvitationService_GenerateBatch_def
    by (clarsimp elim!: go_elim_Inr split: list.split_asm)
      (auto simp: not_less GetByIDForTenant_Inr elim!: go_elim_Inr)
  note row = InvitationService_Create_row
  have step: "invitations (store u') = invitations (store u) @ [iv] \<and> GuestID iv = g \<and>
      (TenantID iv = tenantID \<and> EventID iv = eventID \<and> live iv)"
    if "InvitationService_Create s tenantID eventID createdBy req g u = (Inr iv, u')" for g u iv u'
    using row [OF that] by simp
  have fails: "invitations (store u') = invitations (store u)"
    if "InvitationService_Create s tenantID eventID createdBy req g u = (Inl e, u')" for g u e u'
    using that by (rule InvitationService_Create_Inl)
  have "\<exists>new es. (Inr (ivs, errs) :: err + _) = Inr ([] @ new, [] @ es) \<and>
      length new + length es = length (icr_GuestIDs req) \<and>
      invitations (store v') = invitations (store v) @ new \<and> subseq (map GuestID new) (icr_GuestIDs req) \<and>
      (\<forall>iv \<in> set new. TenantID iv = tenantID \<and> EventID iv = eventID \<and> live iv)"
    using loop by (rule batch_loop_spec) (erule step, erule fails)
  with v show ?thesis by auto
qed

lemma GenerateBatch_creates_what_it_returns_witness:
  "\<exists>ivs w'. InvitationService_GenerateBatch NewInvitationService 1 3 2 demo_invite (demo_world uninvited_db)
      = (Inr ivs, w') \<and> invitations (store w') = ivs \<and> subseq (map GuestID ivs) [5] \<and> ivs \<noteq> []"
proof -
  let ?m = "InvitationService_GenerateBatch NewInvitationService 1 3 2 demo_invite"
  let ?w = "demo_world uninvited_db"
  have ok: "\<exists>ivs. fst (?m ?w) = Inr ivs"
    by (simp add: InvitationService_GenerateBatch_def InvitationService_Create_def go_eval
        EventRepository_GetByIDForTenant_def event_key_def
        GuestRepository_GetByIDForTenant_def guest_key_def EventGuestRepository_GetByEventAndGuest_def
        eventGuestSelect_def List.map_filter_def first_row_def InvitationRepository_Create_def
        insert_invitation_def new_invitation_def uninvited_db_def demo_invite_def demo_event_def
        demo_guest_def demo_event_guest_def demo_tenant_def demo_user_def not_found_as_def
        InvitationRepository_ExistsForGuest_def GenerateRandomToken_def invitationTokenBytes_def
        rand_Read_def has_id_def has_id_opt_def int4_def toDomain_def insert_audit_log_def)
  then obtain ivs where "?m ?w = (Inr ivs, snd (?m ?w))" by (metis run_pair)
  from GenerateBatch_creates_what_it_returns [OF this] this show ?thesis
    by (auto simp: uninvited_db_def demo_invite_def)
qed

text \<open>opening a link. A recorded opening found a live invitation of that token that is not
  revoked, marks it with an opening time and moves it from sent to opened; in any other status it
  keeps the status, and no other invitation changes.\<close>

theorem RecordOpen_only_moves_sent_to_opened:
  assumes "InvitationService_RecordOpen token ip w = (Inr (), w')"
    and "distinct (map ID (invitations (store w)))"
  shows "\<exists>xs row ys tm. invitations (store w) = xs @ row # ys \<and> live row
    \<and> inv_TokenHash row = SHA256Hash token \<and> inv_Status row \<noteq> InvitationStatusRevoked
    \<and> invitations (store w') = xs @ row\<lparr>inv_OpenedAt := Some tm, UpdatedAt := tm,
        inv_Status := (if inv_Status row = InvitationStatusSent then InvitationStatusOpened
          else inv_Status row)\<rparr> # ys"
proof -
  from assms(1) obtain i v v' v'' where val: "InvitationService_ValidateToken token w = (Inr i, v)"
    and mark: "InvitationRepository_MarkOpened (ID i) v = (Inr (), v')"
    and w': "invitations (store w') = invitations (store v')"
    unfolding InvitationService_RecordOpen_def
    by (auto elim!: go_elim_Inr simp: NewBase_run dest!: staysD [OF LogCredentialUsage_invitations])
  from val obtain row where row: "row \<in> set (invitations (store w))" "i = row\<lparr>inv_Token := []\<rparr>" "live row"
    "inv_TokenHash row = SHA256Hash token" "inv_Status row \<noteq> InvitationStatusRevoked"
    and v: "store v = store w" by (rule ValidateToken_Inr)
  obtain tm where tab: "invitations (store v') =
      update_where (\<lambda>r. ID r = ID row \<and> live r) (mark_opened tm) (invitations (store w))"
    using mark row(2) v by (auto simp: InvitationRepository_MarkOpened_def go_run sql_update_def)
  obtain xs ys where "invitations (store w) = xs @ row # ys"
    and "invitations (store v') = xs @ mark_opened tm row # ys"
    unfolding tab by (rule update_where_unique [where k = ID and p = "\<lambda>r. ID r = ID row \<and> live r", OF assms(2) row(1)])
      (use row in auto)
  with row w' show ?thesis
    by (intro exI [of _ xs] exI [of _ row] exI [of _ ys] exI [of _ tm]) (simp add: mark_opened_def)
qed

lemma RecordOpen_only_moves_sent_to_opened_witness:
  "\<exists>xs row ys tm. [demo_invitation] = xs @ row # ys \<and> live row
    \<and> inv_TokenHash row = SHA256Hash ''tok'' \<and> inv_Status row \<noteq> InvitationStatusRevoked
    \<and> invitations (store (snd (InvitationService_RecordOpen ''tok'' ''1.2.3.4'' (demo_world demo_db)))) =
        xs @ row\<lparr>inv_OpenedAt := Some tm, UpdatedAt := tm,
        inv_Status := (if inv_Status row = InvitationStatusSent then InvitationStatusOpened
          else inv_Status row)\<rparr> # ys"
proof -
  let ?m = "InvitationService_RecordOpen ''tok'' ''1.2.3.4''"
  have "fst (?m (demo_world demo_db)) = Inr ()"
    by (simp add: InvitationService_RecordOpen_def go_eval ValidateToken_run demo_invitation_def
        InvitationRepository_MarkOpened_def InvitationRepository_LogCredentialUsage_def)
  then have "?m (demo_world demo_db) = (Inr (), snd (?m (demo_world demo_db)))" by (rule run_pair)
  from RecordOpen_only_moves_sent_to_opened [OF this] show ?thesis by simp
qed

end
