(* ===== verification/Rsvp.thy ===== *)
theory Rsvp
  imports Invitations
begin

text \<open>
  RSVP responses: \<open>RSVPRepository\<close> and \<open>RSVPService\<close>. The lemmas show that public submissions and
  officers' upserts never let the attending people of an event exceed its capacity, that a
  submission is bounded by its invitation and refused without effect after the deadline or with a
  credential that does not validate, and how the officers' update differs from the two. The
  rounding of floating-point operations is a parameter of the dashboard. The listing that joins
  guests is left out.
\<close>

section \<open>The repository\<close>

definition RSVPRepository_Create :: "rsvp_response \<Rightarrow> unit app" where
  "RSVPRepository_Create r = go_bind (exec (insert_rsvp r)) (\<lambda>_. go_ret ())"

definition RSVPRepository_GetByID :: "uuid \<Rightarrow> rsvp_response app" where
  "RSVPRepository_GetByID i = get_one ErrRSVPNotFound (\<lambda>d. find (\<lambda>r. ID r = i) (rsvp_responses d))"

definition RSVPRepository_GetByIDForTenant :: "uuid \<Rightarrow> uuid \<Rightarrow> rsvp_response app" where
  "RSVPRepository_GetByIDForTenant i t =
     get_one ErrRSVPNotFound (\<lambda>d. find (\<lambda>r. ID r = i \<and> TenantID r = t) (rsvp_responses d))"

definition RSVPRepository_GetByInvitation :: "uuid \<Rightarrow> rsvp_response app" where
  "RSVPRepository_GetByInvitation i =
     get_one ErrRSVPNotFound (\<lambda>d. find (\<lambda>r. rs_InvitationID r = i) (rsvp_responses d))"

text \<open>The \<open>SET\<close> list of \<open>Update\<close>: \<open>responded_at\<close> and \<open>ip_address\<close> are not in it.\<close>

definition merge_rsvp :: "rsvp_response \<Rightarrow> rsvp_response \<Rightarrow> rsvp_response" where
  "merge_rsvp r old = old\<lparr>rs_Status := rs_Status r, rs_AttendingPax := rs_AttendingPax r,
     rs_Adults := rs_Adults r, rs_Children := rs_Children r, rs_MenuChoice := rs_MenuChoice r,
     rs_Allergies := rs_Allergies r, rs_AccessibilityNeeds := rs_AccessibilityNeeds r,
     rs_Transportation := rs_Transportation r, rs_Notes := rs_Notes r, rs_EditedAt := rs_EditedAt r,
     rs_EditedBy := rs_EditedBy r, UpdatedAt := UpdatedAt r\<rparr>"

definition rsvp_key :: "uuid \<Rightarrow> uuid \<Rightarrow> rsvp_response \<Rightarrow> bool" where
  "rsvp_key i t r \<longleftrightarrow> ID r = i \<and> TenantID r = t"

definition RSVPRepository_Update :: "rsvp_response \<Rightarrow> unit app" where
  "RSVPRepository_Update r = exec_rows ErrRSVPNotFound (\<lambda>srv d.
     if \<not> int4 (rs_AttendingPax r) \<or> \<not> int4 (rs_Adults r) \<or> \<not> int4 (rs_Children r)
        \<or> ((\<exists>s \<in> set (rsvp_responses d). rsvp_key (ID r) (TenantID r) s)
            \<and> \<not> has_id_opt (rs_EditedBy r) (users d))
     then None
     else Some (sql_update rsvp_responses put_rsvp_responses (rsvp_key (ID r) (TenantID r))
            (merge_rsvp r) d))"

definition attending :: "uuid \<Rightarrow> rsvp_response \<Rightarrow> bool" where
  "attending e r \<longleftrightarrow> EventID r = e \<and> rs_Status r = RSVPStatusAttending"

text \<open>The people who attend an event, over all responses.\<close>

definition attending_total :: "uuid \<Rightarrow> rsvp_response list \<Rightarrow> int" where
  "attending_total e rs = sum_list (map rs_AttendingPax (filter (attending e) rs))"

text \<open>\<open>SUM\<close> of a 32-bit column is a \<open>bigint\<close>; the server rejects a sum beyond it.\<close>

definition RSVPRepository_SumAttendingPax :: "uuid \<Rightarrow> int app" where
  "RSVPRepository_SumAttendingPax e = get_one ErrDB (\<lambda>d.
     let s = attending_total e (rsvp_responses d) in if i64 s = s then Some s else None)"

text \<open>\<open>GetDashboardStats\<close>: five queries, then the rate of responses to sent invitations.\<close>

definition response_rate :: "(float64 \<Rightarrow> float64) \<Rightarrow> int \<Rightarrow> int \<Rightarrow> float64" where
  "response_rate rnd responded sent =
     (if 0 < sent then rnd (rnd (rnd (of_int responded) / rnd (of_int sent)) * 100) else 0)"

definition RSVPRepository_GetDashboardStats ::
  "(float64 \<Rightarrow> float64) \<Rightarrow> uuid \<Rightarrow> uuid \<Rightarrow> int option \<Rightarrow> rsvp_dashboard app" where
  "RSVPRepository_GetDashboardStats rnd t e capacity =
     (let active = (\<lambda>eg. TenantID eg = t \<and> EventID eg = e \<and> live eg \<and> eg_Status eg = EventGuestStatusActive);
          mine = (\<lambda>r. TenantID r = t \<and> EventID r = e) in
      go_bind (query (\<lambda>d. int (count_where active (event_guests d)))) (\<lambda>totalInvited.
      go_bind (query (\<lambda>d. int (count_where (\<lambda>i. mine i \<and> live i \<and> inv_SentAt i \<noteq> None)
        (invitations d)))) (\<lambda>totalSent.
      go_bind (query (\<lambda>d. int (count_where (\<lambda>i. mine i \<and> live i \<and> inv_OpenedAt i \<noteq> None)
        (invitations d)))) (\<lambda>opened.
      go_bind (query (\<lambda>d.
        let rs = filter (\<lambda>r. TenantID r = t \<and> EventID r = e) (rsvp_responses d);
            n = (\<lambda>st. int (count_where (\<lambda>r. rs_Status r = st) rs))
        in (int (length rs), n RSVPStatusAttending,
            sum_list (map rs_AttendingPax (filter (\<lambda>r. rs_Status r = RSVPStatusAttending) rs)),
            n RSVPStatusNotAttending, n RSVPStatusMaybe, n ''waitlist'')))
        (\<lambda>(responded, att, pax, notAtt, maybe, waitlist).
      go_bind (query (\<lambda>d. int (count_where (\<lambda>eg. active eg
        \<and> \<not> list_ex (\<lambda>r. TenantID r = TenantID eg \<and> EventID r = EventID eg \<and> GuestID r = GuestID eg)
             (rsvp_responses d)) (event_guests d)))) (\<lambda>noResponse.
      go_ret \<lparr>rd_TotalInvited = totalInvited, rd_TotalSent = totalSent, rd_Opened = opened,
        rd_Responded = responded, rd_Attending = att, rd_AttendingPax = pax,
        rd_NotAttending = notAtt, rd_Maybe = maybe, rd_NoResponse = noResponse,
        rd_Waitlist = waitlist, rd_ResponseRate = response_rate rnd responded totalSent,
        rd_CapacityUsed = pax,
        rd_CapacityTotal = (case capacity of None \<Rightarrow> 0 | Some c \<Rightarrow> c)\<rparr>))))))"

section \<open>The service\<close>

definition validateTokenForRSVP :: "string \<Rightarrow> invitation app" where
  "validateTokenForRSVP token =
     go_guard (token = []) ErrTokenInvalid (
     go_bind (not_found_as ErrInvitationNotFound ErrTokenInvalid
       (InvitationRepository_GetByTokenHash (SHA256Hash token))) (\<lambda>iv.
     go_guard (inv_Status iv = InvitationStatusRevoked) ErrInvitationRevoked (
     go_guard (\<not> live iv) ErrInvitationNotFound (
     check_expiry (inv_ExpiresAt iv) ErrInvitationExpired (go_ret iv)))))"

definition ValidateDeadline :: "uuid \<Rightarrow> unit app" where
  "ValidateDeadline eventID = go_bind (EventRepository_GetByID eventID) (\<lambda>event.
     check_expiry (ev_RSVPDeadline event) ErrRSVPDeadlinePassed (go_ret ()))"

definition ValidateCapacity :: "uuid \<Rightarrow> uuid \<Rightarrow> int \<Rightarrow> uuid \<Rightarrow> unit app" where
  "ValidateCapacity eventID tenantID requestedPax excludeInvitationID =
     go_bind (EventRepository_GetByIDForTenant eventID tenantID) (\<lambda>event.
     case ev_Capacity event of
       None \<Rightarrow> go_ret ()
     | Some capacity \<Rightarrow> if capacity \<le> 0 then go_ret () else
         go_bind (RSVPRepository_SumAttendingPax eventID) (\<lambda>currentTotal.
         go_bind (if excludeInvitationID = uuid_Nil then go_ret 0
           else go_try (RSVPRepository_GetByInvitation excludeInvitationID) (\<lambda>r.
             go_ret (case r of Inr rsvp \<Rightarrow> if rs_Status rsvp = RSVPStatusAttending
                        then rs_AttendingPax rsvp else 0
                      | Inl _ \<Rightarrow> 0))) (\<lambda>existingPax.
         let newTotal = i64 (i64 (currentTotal - existingPax) + requestedPax) in
         go_guard (capacity < newTotal) ErrEventAtCapacity (go_ret ()))))"

definition isValidRSVPSubmitStatus :: "string \<Rightarrow> bool" where
  "isValidRSVPSubmitStatus status \<longleftrightarrow>
     status \<in> {RSVPStatusAttending, RSVPStatusNotAttending, RSVPStatusMaybe}"

text \<open>\<open>existing, err = GetByInvitation(id)\<close>, where a missing row is a nil pointer and no error.\<close>

definition find_existing_rsvp :: "uuid \<Rightarrow> rsvp_response option app" where
  "find_existing_rsvp invitationID = go_try (RSVPRepository_GetByInvitation invitationID) (\<lambda>r.
     case r of Inr x \<Rightarrow> go_ret (Some x)
             | Inl e \<Rightarrow> if e = ErrRSVPNotFound then go_ret None else go_fail e)"

definition resubmit_rsvp ::
  "time \<Rightarrow> int \<Rightarrow> string \<Rightarrow> rsvp_submit_request \<Rightarrow> rsvp_response \<Rightarrow> rsvp_response" where
  "resubmit_rsvp t pax ip req r = r\<lparr>rs_Status := rsr_Status req, rs_AttendingPax := pax,
     rs_Adults := rsr_Adults req, rs_Children := rsr_Children req,
     rs_AttendingSessions := rsr_AttendingSessions req, rs_EditedAt := Some t,
     rs_IPAddress := Some ip, rs_MenuChoice := set_str (rsr_MenuChoice req) (rs_MenuChoice r),
     rs_Allergies := set_str (rsr_Allergies req) (rs_Allergies r),
     rs_AccessibilityNeeds := set_str (rsr_AccessibilityNeeds req) (rs_AccessibilityNeeds r),
     rs_Transportation := set_str (rsr_Transportation req) (rs_Transportation r),
     rs_Notes := set_str (rsr_Notes req) (rs_Notes r), UpdatedAt := t\<rparr>"

definition new_rsvp :: "uuid \<Rightarrow> time \<Rightarrow> time \<Rightarrow> int \<Rightarrow> string \<Rightarrow> invitation \<Rightarrow> rsvp_submit_request \<Rightarrow> rsvp_response" where
  "new_rsvp i t responded pax ip iv req =
     \<lparr>ID = i, CreatedAt = t, UpdatedAt = t, DeletedAt = None, TenantID = TenantID iv,
      EventID = EventID iv, GuestID = GuestID iv, rs_InvitationID = ID iv,
      rs_EventGuestID = inv_EventGuestID iv, rs_Status = rsr_Status req, rs_AttendingPax = pax,
      rs_Adults = rsr_Adults req, rs_Children = rsr_Children req,
      rs_AttendingSessions = rsr_AttendingSessions req, rs_MenuChoice = opt_str (rsr_MenuChoice req),
      rs_Allergies = opt_str (rsr_Allergies req),
      rs_AccessibilityNeeds = opt_str (rsr_AccessibilityNeeds req),
      rs_Transportation = opt_str (rsr_Transportation req), rs_Notes = opt_str (rsr_Notes req),
      rs_RespondedAt = Some responded, rs_EditedAt = None, rs_EditedBy = None,
      rs_IPAddress = Some ip\<rparr>"

definition RSVPService_Submit :: "rsvp_submit_request \<Rightarrow> string \<Rightarrow> rsvp_response app" where
  "RSVPService_Submit req ipAddress =
     go_bind (validateTokenForRSVP (rsr_Token req)) (\<lambda>iv.
     go_bind (ValidateDeadline (EventID iv)) (\<lambda>_.
     go_guard (\<not> isValidRSVPSubmitStatus (rsr_Status req)) ErrInvalidRSVPStatus (
     let pax = (if rsr_Status req = RSVPStatusNotAttending then 0 else rsr_AttendingPax req) in
     go_bind (if rsr_Status req = RSVPStatusAttending
       then ValidateCapacity (EventID iv) (TenantID iv) pax (ID iv) else go_ret ()) (\<lambda>_.
     go_guard (inv_MaxPax iv < pax) ErrInvalidInput (
     go_bind (find_existing_rsvp (ID iv)) (\<lambda>existing.
     go_bind now (\<lambda>t.
     case existing of
       Some old \<Rightarrow>
         let r = resubmit_rsvp t pax ipAddress req old in
         go_bind (RSVPRepository_Update r) (\<lambda>_.
         go_ignore (InvitationRepository_UpdateStatus (ID iv) (TenantID iv) InvitationStatusResponded)
         (go_ret r))
     | None \<Rightarrow>
         go_bind NewBase (\<lambda>(i, created).
         let r = new_rsvp i created t pax ipAddress iv req in
         go_bind (RSVPRepository_Create r) (\<lambda>_.
         go_ignore (InvitationRepository_UpdateStatus (ID iv) (TenantID iv) InvitationStatusResponded)
         (go_ret r))))))))))"

definition RSVPService_GetDashboard ::
  "(float64 \<Rightarrow> float64) \<Rightarrow> uuid \<Rightarrow> uuid \<Rightarrow> rsvp_dashboard app" where
  "RSVPService_GetDashboard rnd tenantID eventID =
     go_bind (EventRepository_GetByIDForTenant eventID tenantID) (\<lambda>event.
     RSVPRepository_GetDashboardStats rnd tenantID eventID (ev_Capacity event))"

definition edit_rsvp :: "time \<Rightarrow> uuid \<Rightarrow> int \<Rightarrow> rsvp_update_request \<Rightarrow> rsvp_response \<Rightarrow> rsvp_response" where
  "edit_rsvp t officerID pax req r = r\<lparr>rs_Status := rur_Status req, rs_AttendingPax := pax,
     rs_Adults := rur_Adults req, rs_Children := rur_Children req,
     rs_AttendingSessions := rur_AttendingSessions req, rs_EditedAt := Some t,
     rs_EditedBy := Some officerID, UpdatedAt := t,
     rs_MenuChoice := set_str (rur_MenuChoice req) (rs_MenuChoice r),
     rs_Allergies := set_str (rur_Allergies req) (rs_Allergies r),
     rs_AccessibilityNeeds := set_str (rur_AccessibilityNeeds req) (rs_AccessibilityNeeds r),
     rs_Transportation := set_str (rur_Transportation req) (rs_Transportation r),
     rs_Notes := set_str (rur_Notes req) (rs_Notes r)\<rparr>"

definition RSVPService_UpdateByOfficer ::
  "uuid \<Rightarrow> uuid \<Rightarrow> uuid \<Rightarrow> uuid \<Rightarrow> rsvp_update_request \<Rightarrow> rsvp_response app" where
  "RSVPService_UpdateByOfficer tenantID eventID rsvpID officerID req =
     go_guard (\<not> IsValidRSVPStatus (rur_Status req)) ErrInvalidRSVPStatus (
     go_bind (RSVPRepository_GetByIDForTenant rsvpID tenantID) (\<lambda>rsvp.
     go_guard (EventID rsvp \<noteq> eventID) ErrRSVPNotFound (
     go_bind (if rur_Status req = RSVPStatusAttending \<and> rs_Status rsvp \<noteq> RSVPStatusAttending
       then ValidateCapacity eventID tenantID (rur_AttendingPax req) (rs_InvitationID rsvp)
       else go_ret ()) (\<lambda>_.
     go_bind now (\<lambda>t.
       let r = edit_rsvp t officerID (rur_AttendingPax req) req rsvp in
       go_bind (RSVPRepository_Update r) (\<lambda>_.
       go_ignore (LogWithUser officerID tenantID AuditActionUpdate EntityTypeRSVP rsvpID None
         (Some [(''status'', JString (rur_Status req)), (''attending_pax'', JInt (rur_AttendingPax req))]))
       (go_ret r)))))))"

definition new_rsvp_by_officer :: "uuid \<Rightarrow> time \<Rightarrow> time \<Rightarrow> uuid \<Rightarrow> uuid \<Rightarrow> uuid \<Rightarrow> uuid \<Rightarrow> uuid \<Rightarrow> uuid \<Rightarrow>
    int \<Rightarrow> rsvp_update_request \<Rightarrow> rsvp_response" where
  "new_rsvp_by_officer i created t tenantID eventID guestID invitationID eventGuestID officerID pax req =
     \<lparr>ID = i, CreatedAt = created, UpdatedAt = created, DeletedAt = None, TenantID = tenantID,
      EventID = eventID, GuestID = guestID, rs_InvitationID = invitationID,
      rs_EventGuestID = Some eventGuestID, rs_Status = rur_Status req, rs_AttendingPax = pax,
      rs_Adults = rur_Adults req, rs_Children = rur_Children req,
      rs_AttendingSessions = rur_AttendingSessions req, rs_MenuChoice = opt_str (rur_MenuChoice req),
      rs_Allergies = opt_str (rur_Allergies req),
      rs_AccessibilityNeeds = opt_str (rur_AccessibilityNeeds req),
      rs_Transportation = opt_str (rur_Transportation req), rs_Notes = opt_str (rur_Notes req),
      rs_RespondedAt = Some t, rs_EditedAt = Some t, rs_EditedBy = Some officerID,
      rs_IPAddress = None\<rparr>"

definition upsert_audit :: "rsvp_update_request \<Rightarrow> int \<Rightarrow> uuid \<Rightarrow> jsonmap" where
  "upsert_audit req pax guestID = [(''status'', JString (rur_Status req)), (''attending_pax'', JInt pax),
     (''guest_id'', JUUID guestID), (''mode'', JString ''upsert'')]"

definition RSVPService_UpsertByOfficer ::
  "uuid \<Rightarrow> uuid \<Rightarrow> uuid \<Rightarrow> uuid \<Rightarrow> rsvp_update_request \<Rightarrow> rsvp_response app" where
  "RSVPService_UpsertByOfficer tenantID eventID guestID officerID req =
     go_guard (\<not> IsValidRSVPStatus (rur_Status req)) ErrInvalidRSVPStatus (
     go_bind (EventRepository_GetByIDForTenant eventID tenantID) (\<lambda>_.
     go_bind (not_found_as ErrNotFound ErrInvalidInput
       (EventGuestRepository_GetByEventAndGuest tenantID eventID guestID)) (\<lambda>eventGuest.
     go_bind (InvitationRepository_GetByEventAndGuest eventID guestID) (\<lambda>iv.
     go_guard (TenantID iv \<noteq> tenantID) ErrInvitationNotFound (
     let pax = (if rur_AttendingPax req < 0 \<or> rur_Status req = RSVPStatusNotAttending then 0
                else rur_AttendingPax req) in
     go_bind (find_existing_rsvp (ID iv)) (\<lambda>existing.
     go_bind (if rur_Status req = RSVPStatusAttending
       then ValidateCapacity eventID tenantID pax (ID iv) else go_ret ()) (\<lambda>_.
     go_bind now (\<lambda>t.
     case existing of
       Some old \<Rightarrow>
         let r = (edit_rsvp t officerID pax req old)\<lparr>rs_RespondedAt :=
                    (case rs_RespondedAt old of None \<Rightarrow> Some t | Some x \<Rightarrow> Some x)\<rparr> in
         go_bind (RSVPRepository_Update r) (\<lambda>_.
         go_ignore (InvitationRepository_UpdateStatus (ID iv) (TenantID iv) InvitationStatusResponded) (
         go_ignore (LogWithUser officerID tenantID AuditActionUpdate EntityTypeRSVP (ID r) None
           (Some (upsert_audit req pax guestID)))
         (go_ret r)))
     | None \<Rightarrow>
         go_bind NewBase (\<lambda>(i, created).
         let r = new_rsvp_by_officer i created t tenantID eventID guestID (ID iv) (ID eventGuest)
                   officerID pax req in
         go_bind (RSVPRepository_Create r) (\<lambda>_.
         go_ignore (InvitationRepository_UpdateStatus (ID iv) (TenantID iv) InvitationStatusResponded) (
         go_ignore (LogWithUser officerID tenantID AuditActionCreate EntityTypeRSVP i None
           (Some (upsert_audit req pax guestID)))
         (go_ret r))))))))))))"

definition RSVPService_GetByInvitation :: "uuid \<Rightarrow> uuid \<Rightarrow> uuid \<Rightarrow> rsvp_response app" where
  "RSVPService_GetByInvitation tenantID eventID invitationID =
     go_bind (RSVPRepository_GetByInvitation invitationID) (\<lambda>r.
     go_guard (TenantID r \<noteq> tenantID \<or> EventID r \<noteq> eventID) ErrNotFound (go_ret r))"

section \<open>Totals\<close>

text \<open>What one response adds to the attendance of an event, and what the response of an invitation
  adds to that of its own event.\<close>

definition contribution :: "uuid \<Rightarrow> rsvp_response \<Rightarrow> int" where
  "contribution e r = (if attending e r then rs_AttendingPax r else 0)"

definition held_by :: "uuid \<Rightarrow> rsvp_response list \<Rightarrow> int" where
  "held_by i rs = (case find (\<lambda>r. rs_InvitationID r = i) rs of None \<Rightarrow> 0
     | Some r \<Rightarrow> if rs_Status r = RSVPStatusAttending then rs_AttendingPax r else 0)"

definition pax_nonneg :: "rsvp_response list \<Rightarrow> bool" where
  "pax_nonneg rs \<longleftrightarrow> (\<forall>r \<in> set rs. rs_Status r = RSVPStatusAttending \<longrightarrow> 0 \<le> rs_AttendingPax r)"

lemma attending_total_sum: "attending_total e rs = sum_list (map (contribution e) rs)"
  by (induction rs) (auto simp: attending_total_def contribution_def)

lemma attending_total_simps [simp]:
  "attending_total e [] = 0"
  "attending_total e (r # rs) = contribution e r + attending_total e rs"
  "attending_total e (rs @ ss) = attending_total e rs + attending_total e ss"
  by (simp_all add: attending_total_sum)

lemma pax_nonneg_simps [simp]:
  "pax_nonneg []" "pax_nonneg (r # rs) \<longleftrightarrow>
     (rs_Status r = RSVPStatusAttending \<longrightarrow> 0 \<le> rs_AttendingPax r) \<and> pax_nonneg rs"
  "pax_nonneg (rs @ ss) \<longleftrightarrow> pax_nonneg rs \<and> pax_nonneg ss"
  by (auto simp: pax_nonneg_def)

lemma attending_total_nonneg: "pax_nonneg rs \<Longrightarrow> 0 \<le> attending_total e rs"
  by (induction rs) (auto simp: contribution_def attending_def)

lemma held_by_nonneg: "pax_nonneg rs \<Longrightarrow> 0 \<le> held_by i rs"
  by (auto simp: held_by_def pax_nonneg_def split: option.split dest: find_Some_D)

lemma contribution_le_total:
  "pax_nonneg rs \<Longrightarrow> r \<in> set rs \<Longrightarrow> contribution e r \<le> attending_total e rs"
  by (induction rs) (auto simp: contribution_def attending_def intro: add_increasing
      dest: attending_total_nonneg [of _ e])

section \<open>The capacity check\<close>

text \<open>
  What the officers' and the guests' paths rely on: the check changes nothing, and when it passes
  for a limited event, the attendance less what the invitation already holds (or less nothing,
  where that query fails) plus the requested people is within the limit.
\<close>

definition fits :: "db \<Rightarrow> uuid \<Rightarrow> uuid \<Rightarrow> int \<Rightarrow> uuid \<Rightarrow> bool" where
  "fits d e t pax i \<longleftrightarrow> (\<exists>ev. find (event_key e t) (events d) = Some ev \<and>
     (\<forall>c. ev_Capacity ev = Some c \<longrightarrow> 0 < c \<longrightarrow>
        (\<exists>x \<in> {0, held_by i (rsvp_responses d)}.
           i64 (i64 (attending_total e (rsvp_responses d) - x) + pax) \<le> c)))"

locale capacity_check =
  fixes check :: "uuid \<Rightarrow> uuid \<Rightarrow> int \<Rightarrow> uuid \<Rightarrow> unit app"
  assumes check_pure: "stays (=) (check e t pax i)"
    and check_fits: "check e t pax i w = (Inr (), w') \<Longrightarrow> fits (store w) e t pax i"
begin

text \<open>Within the 32-bit range nothing wraps: the exact new total respects the limit.\<close>

lemma check_admits:
  assumes "check e t pax i w = (Inr (), w')" and "pax_nonneg (rsvp_responses (store w))"
    and "int4 pax" and "distinct (map ID (events (store w)))"
    and ev: "ev \<in> set (events (store w))" "live ev" "ID ev = e" "ev_Capacity ev = Some c" "0 < c" "int4 c"
    and "attending_total e (rsvp_responses (store w)) \<le> c"
    and "held_by i (rsvp_responses (store w)) \<le> attending_total e (rsvp_responses (store w))"
  shows "attending_total e (rsvp_responses (store w)) - held_by i (rsvp_responses (store w)) + pax \<le> c"
proof -
  let ?s = "attending_total e (rsvp_responses (store w))"
  let ?h = "held_by i (rsvp_responses (store w))"
  from check_fits [OF assms(1)] obtain ev' where
    f: "find (event_key e t) (events (store w)) = Some ev'"
    and cap: "\<And>c. ev_Capacity ev' = Some c \<Longrightarrow> 0 < c \<Longrightarrow> \<exists>x \<in> {0, ?h}. i64 (i64 (?s - x) + pax) \<le> c"
    unfolding fits_def by blast
  from find_event_key [OF f] ev(1,3) assms(4) have "ev' = ev"
    by (metis distinct_map inj_onD)
  with cap ev(4,5) obtain x where x: "x \<in> {0, ?h}" "i64 (i64 (?s - x) + pax) \<le> c" by blast
  have s: "0 \<le> ?s" "0 \<le> ?h" using assms(2) by (auto intro: attending_total_nonneg held_by_nonneg)
  have "i64 (?s - x) = ?s - x"
    by (rule i64_id) (use s x(1) assms(11,12) ev(6) in \<open>auto simp: int4_def\<close>)
  moreover have "i64 (?s - x + pax) = ?s - x + pax"
    by (rule i64_id) (use s x(1) assms(3,11,12) ev(6) in \<open>auto simp: int4_def\<close>)
  ultimately show ?thesis using x s by auto
qed

end

lemma SumAttendingPax_Inr [go_run]:
  "RSVPRepository_SumAttendingPax e w = (Inr s, w') \<longleftrightarrow> \<not> faults w (pos w) \<and> w' = tick w \<and>
     s = attending_total e (rsvp_responses (store w)) \<and> i64 s = s"
  by (auto simp: RSVPRepository_SumAttendingPax_def go_run Let_def split: if_splits)

lemma ValidateCapacity_pure: "stays (=) (ValidateCapacity e t pax i)"
  unfolding ValidateCapacity_def EventRepository_GetByIDForTenant_def Let_def
    RSVPRepository_SumAttendingPax_def RSVPRepository_GetByInvitation_def
  by (auto intro!: unchanged.all_stays split: option.split)

lemma GetByInvitation_held:
  assumes "RSVPRepository_GetByInvitation i w = (r, w')"
  shows "(case r of Inr rsvp \<Rightarrow> if rs_Status rsvp = RSVPStatusAttending then rs_AttendingPax rsvp else 0
    | Inl _ \<Rightarrow> 0) \<in> {0, held_by i (rsvp_responses (store w))}"
  using assms by (cases r) (auto simp: RSVPRepository_GetByInvitation_def go_run held_by_def)

interpretation capacity: capacity_check ValidateCapacity
proof
  show "stays (=) (ValidateCapacity e t pax i)" for e t pax i by (rule ValidateCapacity_pure)
next
  fix e t pax i and w w' :: "db world"
  assume "ValidateCapacity e t pax i w = (Inr (), w')"
  then obtain ev where ev: "find (event_key e t) (events (store w)) = Some ev"
    and rest: "(case ev_Capacity ev of None \<Rightarrow> go_ret ()
     | Some capacity \<Rightarrow> if capacity \<le> 0 then go_ret () else
         go_bind (RSVPRepository_SumAttendingPax e) (\<lambda>currentTotal.
         go_bind (if i = uuid_Nil then go_ret 0
           else go_try (RSVPRepository_GetByInvitation i) (\<lambda>r.
             go_ret (case r of Inr rsvp \<Rightarrow> if rs_Status rsvp = RSVPStatusAttending
                        then rs_AttendingPax rsvp else 0
                      | Inl _ \<Rightarrow> 0))) (\<lambda>existingPax.
         go_guard (capacity < i64 (i64 (currentTotal - existingPax) + pax)) ErrEventAtCapacity
           (go_ret ())))) (tick w) = (Inr (), w')"
    unfolding ValidateCapacity_def Let_def
    by (auto elim!: go_bind_elim_Inr simp: GetByIDForTenant_Inr)
  show "fits (store w) e t pax i"
    unfolding fits_def
  proof (intro exI conjI allI impI)
    show "find (event_key e t) (events (store w)) = Some ev" by (rule ev)
    fix c assume "ev_Capacity ev = Some c" "0 < c"
    with rest show "\<exists>x \<in> {0, held_by i (rsvp_responses (store w))}.
        i64 (i64 (attending_total e (rsvp_responses (store w)) - x) + pax) \<le> c"
      by (auto elim!: go_elim_Inr simp: SumAttendingPax_Inr not_less split: if_splits
          dest!: GetByInvitation_held)
  qed
qed

section \<open>The invariant\<close>

definition invitation_events :: "db \<Rightarrow> (uuid \<times> uuid) list" where
  "invitation_events d = map (\<lambda>i. (ID i, EventID i)) (invitations d)"

text \<open>
  One response per invitation, each for the event of its invitation, with 32-bit numbers and no
  negative attendance; and no limited live event has more attending people than its capacity.
\<close>

definition rsvps_ok :: "db \<Rightarrow> bool" where
  "rsvps_ok d \<longleftrightarrow> distinct (map ID (events d)) \<and> distinct (map fst (invitation_events d))
     \<and> distinct (map ID (rsvp_responses d)) \<and> distinct (map rs_InvitationID (rsvp_responses d))
     \<and> (\<forall>r \<in> set (rsvp_responses d). (rs_InvitationID r, EventID r) \<in> set (invitation_events d))
     \<and> pax_nonneg (rsvp_responses d)"

definition within_capacity :: "db \<Rightarrow> bool" where
  "within_capacity d \<longleftrightarrow> (\<forall>e \<in> set (events d). \<forall>c. live e \<and> ev_Capacity e = Some c \<and> 0 < c \<longrightarrow>
     int4 c \<and> attending_total (ID e) (rsvp_responses d) \<le> c)"

text \<open>The shape of every successful write: the response of one invitation is replaced, or added.\<close>

definition rsvp_write :: "db \<Rightarrow> invitation \<Rightarrow> rsvp_response \<Rightarrow> db \<Rightarrow> bool" where
  "rsvp_write d iv r d' \<longleftrightarrow> iv \<in> set (invitations d) \<and> int4 (rs_AttendingPax r)
     \<and> events d' = events d \<and> invitation_events d' = invitation_events d
     \<and> (case find (\<lambda>s. rs_InvitationID s = ID iv) (rsvp_responses d) of
         Some old \<Rightarrow> rsvp_responses d' = update_where (rsvp_key (ID old) (TenantID old)) (merge_rsvp r)
           (rsvp_responses d)
       | None \<Rightarrow> rs_InvitationID r = ID iv \<and> EventID r = EventID iv \<and> \<not> has_id (ID r) (rsvp_responses d)
           \<and> rsvp_responses d' = rsvp_responses d @ [r\<lparr>rs_AttendingSessions := [], DeletedAt := None\<rparr>])"

lemma merge_rsvp_sel [simp]:
  "ID (merge_rsvp r old) = ID old" "EventID (merge_rsvp r old) = EventID old"
  "rs_InvitationID (merge_rsvp r old) = rs_InvitationID old"
  "rs_Status (merge_rsvp r old) = rs_Status r" "rs_AttendingPax (merge_rsvp r old) = rs_AttendingPax r"
  by (simp_all add: merge_rsvp_def)

lemma response_event:
  assumes "rsvp_write d iv r d'" "rsvps_ok d" "old \<in> set (rsvp_responses d)" "rs_InvitationID old = ID iv"
  shows "EventID old = EventID iv"
proof -
  have "(ID iv, EventID old) \<in> set (invitation_events d)"
    using assms(2-4) unfolding rsvps_ok_def by metis
  moreover have "(ID iv, EventID iv) \<in> set (invitation_events d)"
    using assms(1) by (auto simp: rsvp_write_def invitation_events_def)
  moreover have "distinct (map fst (invitation_events d))" using assms(2) by (simp add: rsvps_ok_def)
  ultimately show ?thesis by (metis eq_key_imp_eq_value)
qed

text \<open>The two shapes in one: the responses before and after, up to the one row that counts.\<close>

lemma rsvp_write_total:
  assumes "rsvp_write d iv r d'" and "rsvps_ok d"
  obtains "attending_total e (rsvp_responses d') = attending_total e (rsvp_responses d)
      - (if e = EventID iv then held_by (ID iv) (rsvp_responses d) else 0)
      + (if e = EventID iv \<and> rs_Status r = RSVPStatusAttending then rs_AttendingPax r else 0)"
    and "held_by (ID iv) (rsvp_responses d) \<le> attending_total (EventID iv) (rsvp_responses d)"
proof (cases "find (\<lambda>s. rs_InvitationID s = ID iv) (rsvp_responses d)")
  case None
  then have h: "held_by (ID iv) (rsvp_responses d) = 0" by (simp add: held_by_def)
  moreover have "0 \<le> attending_total (EventID iv) (rsvp_responses d)"
    using assms(2) by (auto simp: rsvps_ok_def intro: attending_total_nonneg)
  ultimately show thesis using None assms(1)
    by (intro that) (auto simp: rsvp_write_def contribution_def attending_def)
next
  case (Some old)
  from find_Some_D [OF Some] have old: "old \<in> set (rsvp_responses d)" "rs_InvitationID old = ID iv" by auto
  have pk: "distinct (map ID (rsvp_responses d))" and nn: "pax_nonneg (rsvp_responses d)"
    using assms(2) by (auto simp: rsvps_ok_def)
  have ev: "EventID old = EventID iv" using assms old by (rule response_event)
  have h: "held_by (ID iv) (rsvp_responses d) = contribution (EventID iv) old"
    using Some ev by (simp add: held_by_def contribution_def attending_def)
  obtain xs ys where rs: "rsvp_responses d = xs @ old # ys"
    and rs': "update_where (rsvp_key (ID old) (TenantID old)) (merge_rsvp r) (rsvp_responses d)
      = xs @ merge_rsvp r old # ys"
    by (rule update_where_unique [OF pk old(1), where p = "rsvp_key (ID old) (TenantID old)" and
          f = "merge_rsvp r"]) (auto simp: rsvp_key_def)
  show thesis
  proof (rule that)
    show "attending_total e (rsvp_responses d') = attending_total e (rsvp_responses d)
      - (if e = EventID iv then held_by (ID iv) (rsvp_responses d) else 0)
      + (if e = EventID iv \<and> rs_Status r = RSVPStatusAttending then rs_AttendingPax r else 0)"
      using assms(1) Some rs rs' h ev by (auto simp: rsvp_write_def contribution_def attending_def)
    show "held_by (ID iv) (rsvp_responses d) \<le> attending_total (EventID iv) (rsvp_responses d)"
      unfolding h using nn old(1) by (rule contribution_le_total)
  qed
qed

text \<open>After the write the response of the invitation is the new one.\<close>

lemma rsvp_write_row:
  assumes "rsvp_write d iv r d'" and "rsvps_ok d"
  shows "\<exists>row \<in> set (rsvp_responses d'). rs_InvitationID row = ID iv
      \<and> EventID row = EventID iv \<and> rs_Status row = rs_Status r \<and> rs_AttendingPax row = rs_AttendingPax r"
proof (cases "find (\<lambda>s. rs_InvitationID s = ID iv) (rsvp_responses d)")
  case None
  with assms(1) show ?thesis by (auto simp: rsvp_write_def)
next
  case (Some old)
  from find_Some_D [OF Some] have old: "old \<in> set (rsvp_responses d)" "rs_InvitationID old = ID iv" by auto
  with assms have "EventID old = EventID iv" by (intro response_event)
  moreover have "merge_rsvp r old \<in> set (rsvp_responses d')"
    using assms(1) Some old(1) by (auto simp: rsvp_write_def set_update_where rsvp_key_def)
  ultimately show ?thesis using old(2) by (intro bexI [of _ "merge_rsvp r old"]) auto
qed

text \<open>The basic invariant survives every write of a response with a sensible number of people.\<close>

lemma rsvp_write_ok:
  assumes "rsvp_write d iv r d'" and "rsvps_ok d"
    and "rs_Status r = RSVPStatusAttending \<Longrightarrow> 0 \<le> rs_AttendingPax r"
  shows "rsvps_ok d'"
proof (cases "find (\<lambda>s. rs_InvitationID s = ID iv) (rsvp_responses d)")
  case None
  then have "rs_InvitationID s \<noteq> ID iv" if "s \<in> set (rsvp_responses d)" for s
    using that by (auto simp: find_None_iff)
  with None assms show ?thesis
    by (auto simp: rsvp_write_def rsvps_ok_def has_id_iff invitation_events_def)
next
  case (Some old)
  let ?p = "rsvp_key (ID old) (TenantID old)"
  have tab: "rsvp_responses d' = update_where ?p (merge_rsvp r) (rsvp_responses d)"
    and same: "events d' = events d" "invitation_events d' = invitation_events d"
    using assms(1) Some by (auto simp: rsvp_write_def)
  have "map ID (rsvp_responses d') = map ID (rsvp_responses d)"
    "map rs_InvitationID (rsvp_responses d') = map rs_InvitationID (rsvp_responses d)"
    unfolding tab by (simp_all add: map_update_where)
  moreover have "pax_nonneg (rsvp_responses d')"
    unfolding tab using assms(2,3) by (auto simp: rsvps_ok_def pax_nonneg_def set_update_where)
  moreover have "\<forall>s \<in> set (rsvp_responses d'). (rs_InvitationID s, EventID s) \<in> set (invitation_events d)"
    unfolding tab using assms(2) by (auto simp: rsvps_ok_def set_update_where)
  ultimately show ?thesis using assms(2) same unfolding rsvps_ok_def by simp
qed

text \<open>The capacity survives it when an attending response has passed the check.\<close>

lemma rsvp_write_capacity:
  assumes "rsvp_write d iv r d'" and "rsvps_ok d" and "within_capacity d"
    and "rs_Status r = RSVPStatusAttending \<Longrightarrow> \<exists>v v'. store v = d \<and>
      ValidateCapacity (EventID iv) t (rs_AttendingPax r) (ID iv) v = (Inr (), v')"
  shows "within_capacity d'"
  unfolding within_capacity_def
proof (intro ballI allI impI)
  fix e c assume "e \<in> set (events d')" and cap: "live e \<and> ev_Capacity e = Some c \<and> 0 < c"
  then have e: "e \<in> set (events d)" using assms(1) by (simp add: rsvp_write_def)
  with cap assms(3) have c: "int4 c" "attending_total (ID e) (rsvp_responses d) \<le> c"
    unfolding within_capacity_def by blast+
  have d: "pax_nonneg (rsvp_responses d)" "distinct (map ID (events d))" "int4 (rs_AttendingPax r)"
    using assms(1,2) by (auto simp: rsvps_ok_def rsvp_write_def)
  from rsvp_write_total [OF assms(1,2), of "ID e"] have
    tot: "attending_total (ID e) (rsvp_responses d') = attending_total (ID e) (rsvp_responses d)
      - (if ID e = EventID iv then held_by (ID iv) (rsvp_responses d) else 0)
      + (if ID e = EventID iv \<and> rs_Status r = RSVPStatusAttending then rs_AttendingPax r else 0)"
    and held: "held_by (ID iv) (rsvp_responses d) \<le> attending_total (EventID iv) (rsvp_responses d)"
    by blast+
  have "attending_total (ID e) (rsvp_responses d') \<le> c"
  proof (cases "ID e = EventID iv \<and> rs_Status r = RSVPStatusAttending")
    case True
    with assms(4) obtain v v' where v: "store v = d"
      "ValidateCapacity (EventID iv) t (rs_AttendingPax r) (ID iv) v = (Inr (), v')" by blast
    from capacity.check_admits [OF v(2), of e c] v(1) d e cap c held True tot show ?thesis by auto
  next
    case False
    with tot c held_by_nonneg [OF d(1), of "ID iv"] show ?thesis by auto
  qed
  with c show "int4 c \<and> attending_total (ID e) (rsvp_responses d') \<le> c" by simp
qed

section \<open>Runs of the service\<close>

definition rsvp_view :: "db \<Rightarrow> event list \<times> (uuid \<times> uuid) list \<times> rsvp_response list" where
  "rsvp_view d = (events d, invitation_events d, rsvp_responses d)"

lemma UpdateStatus_view_stays:
  "stays (\<lambda>d d'. rsvp_view d' = rsvp_view d) (InvitationRepository_UpdateStatus i t st)"
  unfolding InvitationRepository_UpdateStatus_def
  by (rule same.exec_rows_stays)
    (auto simp: sql_update_def rsvp_view_def invitation_events_def map_update_where)

lemmas UpdateStatus_view = staysD [OF UpdateStatus_view_stays]

lemma LogWithUser_view:
  assumes "LogWithUser u t a et ei ov nv w = (r, w')"
  shows "rsvp_view (store w') = rsvp_view (store w)"
  using audit_free_tables [OF LogWithUser_audit_free [OF assms]]
  by (simp add: rsvp_view_def invitation_events_def)

lemma validateTokenForRSVP_pure: "stays (=) (validateTokenForRSVP token)"
  unfolding validateTokenForRSVP_def check_expiry_def
  by (auto intro!: unchanged.all_stays not_found_as_pure credential.by_hash_stays split: option.split)

lemma validateTokenForRSVP_Inr:
  assumes "validateTokenForRSVP token w = (Inr iv, w')"
  shows "iv \<in> set (invitations (store w)) \<and> live iv \<and> inv_TokenHash iv = SHA256Hash token \<and>
    inv_Status iv \<noteq> InvitationStatusRevoked \<and> token \<noteq> [] \<and>
    (\<forall>x. inv_ExpiresAt iv = Some x \<longrightarrow> clock w (Suc (pos w)) \<le> x)"
  using assms unfolding validateTokenForRSVP_def check_expiry_def
  by (auto elim!: go_elim_Inr simp: not_found_as_Inr GetByTokenHash_Inr now_eq split: option.splits
      dest!: find_Some_D)

lemma ValidateDeadline_pure: "stays (=) (ValidateDeadline e)"
  unfolding ValidateDeadline_def check_expiry_def EventRepository_GetByID_def
  by (auto intro!: unchanged.all_stays split: option.split)

lemma find_existing_rsvp_Inr [go_run]:
  "find_existing_rsvp i w = (Inr x, w') \<longleftrightarrow> \<not> faults w (pos w) \<and> w' = tick w \<and>
     x = find (\<lambda>r. rs_InvitationID r = i) (rsvp_responses (store w))"
  by (auto simp: find_existing_rsvp_def RSVPRepository_GetByInvitation_def go_try_run get_one_def
      go_bind_run query_def split: option.splits sum.splits)

lemma find_existing_rsvp_pure: "stays (=) (find_existing_rsvp i)"
  unfolding find_existing_rsvp_def RSVPRepository_GetByInvitation_def
  by (auto intro!: unchanged.all_stays split: sum.split)

lemma RSVPRepository_Update_Inr:
  assumes "RSVPRepository_Update r w = (Inr u, w')"
  shows "int4 (rs_AttendingPax r) \<and> store w' = put_rsvp_responses (update_where (rsvp_key (ID r) (TenantID r))
    (merge_rsvp r) (rsvp_responses (store w))) (store w)"
  using assms by (auto simp: RSVPRepository_Update_def exec_rows_Inr sql_update_def split: if_splits)

lemma RSVPRepository_Update_fails: "RSVPRepository_Update r w = (Inl e, w') \<Longrightarrow> store w' = store w"
  unfolding RSVPRepository_Update_def by (rule rsvp_responses_table.update_keeps)

lemma RSVPRepository_Create_Inr:
  assumes "RSVPRepository_Create r w = (Inr u, w')"
  shows "int4 (rs_AttendingPax r) \<and> \<not> has_id (ID r) (rsvp_responses (store w)) \<and>
    store w' = put_rsvp_responses (rsvp_responses (store w) @
      [r\<lparr>rs_AttendingSessions := [], DeletedAt := None\<rparr>]) (store w)"
  using assms by (auto simp: RSVPRepository_Create_def go_run insert_rsvp_def split: if_splits)

lemma RSVPRepository_Create_fails: "RSVPRepository_Create r w = (Inl e, w') \<Longrightarrow> store w' = store w"
  by (auto simp: RSVPRepository_Create_def go_run)

text \<open>The tail that \<open>Submit\<close> and \<open>UpsertByOfficer\<close> share, as what it does to the responses.\<close>

lemma rsvp_write_update:
  assumes "RSVPRepository_Update r v = (Inr u, v')" "rsvp_view (store w') = rsvp_view (store v')"
    and "store v = d" "iv \<in> set (invitations d)"
    and "find (\<lambda>s. rs_InvitationID s = ID iv) (rsvp_responses d) = Some old"
    and "ID r = ID old" "TenantID r = TenantID old"
  shows "rsvp_write d iv r (store w')"
  using RSVPRepository_Update_Inr [OF assms(1)] assms(2-)
  by (auto simp: rsvp_write_def rsvp_view_def invitation_events_def)

lemma rsvp_write_create:
  assumes "RSVPRepository_Create r v = (Inr u, v')" "rsvp_view (store w') = rsvp_view (store v')"
    and "store v = d" "iv \<in> set (invitations d)"
    and "find (\<lambda>s. rs_InvitationID s = ID iv) (rsvp_responses d) = None"
    and "rs_InvitationID r = ID iv" "EventID r = EventID iv"
  shows "rsvp_write d iv r (store w')"
  using RSVPRepository_Create_Inr [OF assms(1)] assms(2-)
  by (auto simp: rsvp_write_def rsvp_view_def invitation_events_def)

text \<open>A submission that fails has changed nothing; one that succeeds has written one response.\<close>

lemma Submit_Inl:
  assumes "RSVPService_Submit req ip w = (Inl e, w')"
  shows "store w' = store w"
  using assms unfolding RSVPService_Submit_def Let_def
  by (auto elim!: go_elim simp: NewBase_run find_existing_rsvp_Inr now_eq split: option.splits if_splits
      dest!: staysD [OF validateTokenForRSVP_pure] staysD [OF ValidateDeadline_pure]
        staysD [OF ValidateCapacity_pure] staysD [OF find_existing_rsvp_pure] RSVPRepository_Update_fails
        RSVPRepository_Create_fails)

definition submitted_pax :: "rsvp_submit_request \<Rightarrow> int" where
  "submitted_pax req = (if rsr_Status req = RSVPStatusNotAttending then 0 else rsr_AttendingPax req)"

lemma resubmit_rsvp_sel [simp]:
  "ID (resubmit_rsvp t pax ip req r) = ID r" "TenantID (resubmit_rsvp t pax ip req r) = TenantID r"
  "rs_Status (resubmit_rsvp t pax ip req r) = rsr_Status req"
  "rs_AttendingPax (resubmit_rsvp t pax ip req r) = pax"
  by (simp_all add: resubmit_rsvp_def)

lemma new_rsvp_sel [simp]:
  "rs_InvitationID (new_rsvp i c t pax ip iv req) = ID iv" "EventID (new_rsvp i c t pax ip iv req) = EventID iv"
  "rs_Status (new_rsvp i c t pax ip iv req) = rsr_Status req"
  "rs_AttendingPax (new_rsvp i c t pax ip iv req) = pax"
  by (simp_all add: new_rsvp_def)

lemma ValidateDeadline_Inr:
  assumes "ValidateDeadline e w = (Inr u, w')"
  shows "\<exists>ev t. find (\<lambda>x. ID x = e \<and> live x) (events (store w)) = Some ev \<and> t = clock w (Suc (pos w)) \<and>
    (\<forall>x. ev_RSVPDeadline ev = Some x \<longrightarrow> t \<le> x)"
  using assms unfolding ValidateDeadline_def check_expiry_def EventRepository_GetByID_def
  by (auto elim!: go_elim_Inr simp: get_one_Inr now_eq split: option.splits)

lemma Submit_Inr:
  assumes "RSVPService_Submit req ip w = (Inr r, w')"
  obtains iv v v' where "validateTokenForRSVP (rsr_Token req) w = (Inr iv, v)"
    "ValidateDeadline (EventID iv) v = (Inr (), v')"
    "isValidRSVPSubmitStatus (rsr_Status req)" "submitted_pax req \<le> inv_MaxPax iv"
    "rs_Status r = rsr_Status req" "rs_AttendingPax r = submitted_pax req"
    "rsr_Status req = RSVPStatusAttending \<Longrightarrow> \<exists>u u'. store u = store w \<and>
       ValidateCapacity (EventID iv) (TenantID iv) (submitted_pax req) (ID iv) u = (Inr (), u')"
    "rsvp_write (store w) iv r (store w')"
proof -
  from assms obtain iv v1 v2 v3 v4 where
    tok: "validateTokenForRSVP (rsr_Token req) w = (Inr iv, v1)"
    and dl: "ValidateDeadline (EventID iv) v1 = (Inr (), v2)"
    and st: "isValidRSVPSubmitStatus (rsr_Status req)" "submitted_pax req \<le> inv_MaxPax iv"
    and cap: "(if rsr_Status req = RSVPStatusAttending then ValidateCapacity (EventID iv) (TenantID iv)
        (submitted_pax req) (ID iv) else go_ret ()) v2 = (Inr (), v3)"
    and ex: "\<not> faults v3 (pos v3)"
    and rest: "(case find (\<lambda>r. rs_InvitationID r = ID iv) (rsvp_responses (store v3)) of
       Some old \<Rightarrow>
         let r = resubmit_rsvp (clock v3 (Suc (pos v3))) (submitted_pax req) ip req old in
         go_bind (RSVPRepository_Update r) (\<lambda>_.
         go_ignore (InvitationRepository_UpdateStatus (ID iv) (TenantID iv) InvitationStatusResponded)
         (go_ret r))
     | None \<Rightarrow>
         go_bind NewBase (\<lambda>(i, created).
         let r = new_rsvp i created (clock v3 (Suc (pos v3))) (submitted_pax req) ip iv req in
         go_bind (RSVPRepository_Create r) (\<lambda>_.
         go_ignore (InvitationRepository_UpdateStatus (ID iv) (TenantID iv) InvitationStatusResponded)
         (go_ret r)))) (tick (tick v3)) = (Inr r, w')"
    unfolding RSVPService_Submit_def Let_def submitted_pax_def
    by (clarsimp elim!: go_elim_Inr simp: find_existing_rsvp_Inr now_eq not_less)
  have s: "store v1 = store w" "store v2 = store w"
    using staysD [OF validateTokenForRSVP_pure tok] staysD [OF ValidateDeadline_pure dl] by auto
  then have s3: "store v3 = store w"
    using cap by (auto split: if_splits dest!: staysD [OF ValidateCapacity_pure])
  have iv: "iv \<in> set (invitations (store w))" using validateTokenForRSVP_Inr [OF tok] by blast
  have "rsvp_write (store w) iv r (store w') \<and> rs_Status r = rsr_Status req \<and>
      rs_AttendingPax r = submitted_pax req"
  proof (cases "find (\<lambda>r. rs_InvitationID r = ID iv) (rsvp_responses (store w))")
    case None
    with rest s3 iv show ?thesis
      by (clarsimp elim!: go_elim_Inr simp: Let_def NewBase_run dest!: UpdateStatus_view)
        (erule rsvp_write_create, auto)
  next
    case (Some old)
    with rest s3 iv show ?thesis
      by (clarsimp elim!: go_elim_Inr simp: Let_def dest!: UpdateStatus_view)
        (erule rsvp_write_update, auto)
  qed
  with tok dl st cap s show thesis by (intro that) auto
qed

text \<open>The same for the officers' upsert.\<close>

definition upserted_pax :: "rsvp_update_request \<Rightarrow> int" where
  "upserted_pax req = (if rur_AttendingPax req < 0 \<or> rur_Status req = RSVPStatusNotAttending then 0
     else rur_AttendingPax req)"

lemma edit_rsvp_sel [simp]:
  "ID (edit_rsvp t o' pax req r) = ID r" "TenantID (edit_rsvp t o' pax req r) = TenantID r"
  "rs_Status (edit_rsvp t o' pax req r) = rur_Status req"
  "rs_AttendingPax (edit_rsvp t o' pax req r) = pax"
  by (simp_all add: edit_rsvp_def)

lemma new_rsvp_by_officer_sel [simp]:
  "rs_InvitationID (new_rsvp_by_officer i c t tn e g ii egi o' pax req) = ii"
  "EventID (new_rsvp_by_officer i c t tn e g ii egi o' pax req) = e"
  "rs_Status (new_rsvp_by_officer i c t tn e g ii egi o' pax req) = rur_Status req"
  "rs_AttendingPax (new_rsvp_by_officer i c t tn e g ii egi o' pax req) = pax"
  by (simp_all add: new_rsvp_by_officer_def)

lemma GetByEventAndGuest_Inr:
  assumes "InvitationRepository_GetByEventAndGuest e g w = (Inr iv, w')"
  shows "w' = tick w \<and> iv \<in> set (invitations (store w)) \<and> EventID iv = e \<and> GuestID iv = g \<and> live iv"
  using assms by (auto simp: InvitationRepository_GetByEventAndGuest_def get_one_Inr dest!: first_row_Some)

lemma GetByEventAndGuest_pure: "stays (=) (InvitationRepository_GetByEventAndGuest e g)"
  unfolding InvitationRepository_GetByEventAndGuest_def by (rule unchanged.get_one_stays)

lemma Upsert_Inl:
  assumes "RSVPService_UpsertByOfficer t e g o' req w = (Inl err, w')"
  shows "store w' = store w"
  using assms unfolding RSVPService_UpsertByOfficer_def Let_def
  by (auto elim!: go_elim simp: NewBase_run find_existing_rsvp_Inr now_eq split: option.splits if_splits
      dest!: staysD [OF lookups_pure(3)] pure_lookups(2) staysD [OF GetByEventAndGuest_pure]
        staysD [OF ValidateCapacity_pure] staysD [OF find_existing_rsvp_pure] RSVPRepository_Update_fails
        RSVPRepository_Create_fails)

lemma Upsert_Inr:
  assumes "RSVPService_UpsertByOfficer tenantID eventID guestID officerID req w = (Inr r, w')"
  obtains iv where "EventID iv = eventID" "GuestID iv = guestID" "TenantID iv = tenantID" "live iv"
    "rs_Status r = rur_Status req" "rs_AttendingPax r = upserted_pax req"
    "rur_Status req = RSVPStatusAttending \<Longrightarrow> \<exists>u u'. store u = store w \<and>
       ValidateCapacity eventID tenantID (upserted_pax req) (ID iv) u = (Inr (), u')"
    "rsvp_write (store w) iv r (store w')"
proof -
  from assms obtain egid iv v1 v2 v3 v4 where
    look: "EventGuestRepository_GetByEventAndGuest tenantID eventID guestID (tick w) = (Inr egid, v1)"
    and get: "InvitationRepository_GetByEventAndGuest eventID guestID v1 = (Inr iv, v2)"
    and tn: "TenantID iv = tenantID"
    and ex: "\<not> faults v2 (pos v2)"
    and cap: "(if rur_Status req = RSVPStatusAttending then ValidateCapacity eventID tenantID
        (upserted_pax req) (ID iv) else go_ret ()) (tick v2) = (Inr (), v3)"
    and rest: "(case find (\<lambda>r. rs_InvitationID r = ID iv) (rsvp_responses (store v2)) of
       Some old \<Rightarrow>
         let r = (edit_rsvp (clock v3 (pos v3)) officerID (upserted_pax req) req old)\<lparr>rs_RespondedAt :=
                    (case rs_RespondedAt old of None \<Rightarrow> Some (clock v3 (pos v3)) | Some x \<Rightarrow> Some x)\<rparr> in
         go_bind (RSVPRepository_Update r) (\<lambda>_.
         go_ignore (InvitationRepository_UpdateStatus (ID iv) (TenantID iv) InvitationStatusResponded) (
         go_ignore (LogWithUser officerID tenantID AuditActionUpdate EntityTypeRSVP (ID r) None
           (Some (upsert_audit req (upserted_pax req) guestID)))
         (go_ret r)))
     | None \<Rightarrow>
         go_bind NewBase (\<lambda>(i, created).
         let r = new_rsvp_by_officer i created (clock v3 (pos v3)) tenantID eventID guestID (ID iv)
                   (ID egid) officerID (upserted_pax req) req in
         go_bind (RSVPRepository_Create r) (\<lambda>_.
         go_ignore (InvitationRepository_UpdateStatus (ID iv) (TenantID iv) InvitationStatusResponded) (
         go_ignore (LogWithUser officerID tenantID AuditActionCreate EntityTypeRSVP i None
           (Some (upsert_audit req (upserted_pax req) guestID)))
         (go_ret r))))) (tick v3) = (Inr r, w')"
    unfolding RSVPService_UpsertByOfficer_def Let_def upserted_pax_def
    by (clarsimp elim!: go_elim_Inr simp: find_existing_rsvp_Inr now_eq not_found_as_Inr GetByIDForTenant_Inr)
  have s: "store v1 = store w" using roster.lookup_store [OF look] by simp
  note iv = GetByEventAndGuest_Inr [OF get]
  have s3: "store v3 = store w"
    using cap iv s by (auto split: if_splits dest!: staysD [OF ValidateCapacity_pure])
  have "rsvp_write (store w) iv r (store w') \<and> rs_Status r = rur_Status req \<and>
      rs_AttendingPax r = upserted_pax req"
  proof (cases "find (\<lambda>r. rs_InvitationID r = ID iv) (rsvp_responses (store w))")
    case None
    with rest s s3 iv show ?thesis
      by (clarsimp elim!: go_elim_Inr simp: Let_def NewBase_run dest!: UpdateStatus_view LogWithUser_view)
        (erule rsvp_write_create, auto)
  next
    case (Some old)
    with rest s s3 iv show ?thesis
      by (clarsimp elim!: go_elim_Inr simp: Let_def dest!: UpdateStatus_view LogWithUser_view)
        (erule rsvp_write_update, auto)
  qed
  moreover have "\<exists>u u'. store u = store w \<and>
      ValidateCapacity eventID tenantID (upserted_pax req) (ID iv) u = (Inr (), u')"
    if "rur_Status req = RSVPStatusAttending"
    by (rule exI [of _ "tick v2"]) (use that cap s iv in auto)
  ultimately show thesis using tn iv by (intro that) auto
qed

section \<open>Properties\<close>

datatype rsvp_call =
    SubmitRsvp rsvp_submit_request string
  | UpsertRsvp uuid uuid uuid uuid rsvp_update_request

definition serve_rsvp :: "rsvp_call \<Rightarrow> unit app" where
  "serve_rsvp c = (case c of
      SubmitRsvp req ip \<Rightarrow> go_bind (RSVPService_Submit req ip) (\<lambda>_. go_ret ())
    | UpsertRsvp t e g off req \<Rightarrow> go_bind (RSVPService_UpsertByOfficer t e g off req) (\<lambda>_. go_ret ()))"

text \<open>What the validation tag \<open>min=0\<close> of the request asks for.\<close>

definition sensible_rsvp :: "rsvp_call \<Rightarrow> bool" where
  "sensible_rsvp c = (case c of SubmitRsvp req ip \<Rightarrow> 0 \<le> rsr_AttendingPax req | _ \<Rightarrow> True)"

lemma serve_rsvp_keeps:
  assumes "rsvps_ok (store w)" "within_capacity (store w)" and "sensible_rsvp c"
    and "serve_rsvp c w = (q, w')"
  shows "rsvps_ok (store w') \<and> within_capacity (store w')"
proof (cases c)
  case (SubmitRsvp req ip)
  with assms(4) obtain z where run: "RSVPService_Submit req ip w = (z, w')"
    by (auto simp: serve_rsvp_def go_bind_run split: prod.splits sum.splits)
  show ?thesis
  proof (cases z)
    case Inl
    with run Submit_Inl assms(1,2) show ?thesis by metis
  next
    case (Inr r)
    with run obtain iv where w: "rs_Status r = rsr_Status req" "rs_AttendingPax r = submitted_pax req"
      "rsr_Status req = RSVPStatusAttending \<Longrightarrow> \<exists>u u'. store u = store w \<and>
        ValidateCapacity (EventID iv) (TenantID iv) (submitted_pax req) (ID iv) u = (Inr (), u')"
      "rsvp_write (store w) iv r (store w')" using Submit_Inr by metis
    then show ?thesis using assms(1-3) SubmitRsvp
      by (auto intro!: rsvp_write_ok [OF w(4)] rsvp_write_capacity [OF w(4), where t = "TenantID iv"]
          simp: sensible_rsvp_def submitted_pax_def)
  qed
next
  case (UpsertRsvp t e g off req)
  with assms(4) obtain z where run: "RSVPService_UpsertByOfficer t e g off req w = (z, w')"
    by (auto simp: serve_rsvp_def go_bind_run split: prod.splits sum.splits)
  show ?thesis
  proof (cases z)
    case Inl
    with run Upsert_Inl assms(1,2) show ?thesis by metis
  next
    case (Inr r)
    with run obtain iv where w: "EventID iv = e" "rs_Status r = rur_Status req"
      "rs_AttendingPax r = upserted_pax req"
      "rur_Status req = RSVPStatusAttending \<Longrightarrow> \<exists>u u'. store u = store w \<and>
        ValidateCapacity e t (upserted_pax req) (ID iv) u = (Inr (), u')"
      "rsvp_write (store w) iv r (store w')" using Upsert_Inr by metis
    then show ?thesis using assms(1,2)
      by (auto intro!: rsvp_write_ok [OF w(5)] rsvp_write_capacity [OF w(5), where t = t]
          simp: upserted_pax_def)
  qed
qed

lemma demo_rsvps_ok: "rsvps_ok demo_db" "within_capacity demo_db"
  by (simp_all add: rsvps_ok_def within_capacity_def invitation_events_def demo_event_def int4_def)

text \<open>C1: capacity. Through every sequence of public submissions (with no negative number of people)
  and officers' upserts, with any failures, no event with a limit has more attending people than
  its capacity; there is one response per invitation, for the event of that invitation.\<close>

theorem attendance_stays_within_capacity:
  assumes "rsvps_ok (store w)" and "within_capacity (store w)" and "\<forall>c \<in> set calls. sensible_rsvp c"
  shows "rsvps_ok (store (serve_all (map serve_rsvp calls) w)) \<and>
    within_capacity (store (serve_all (map serve_rsvp calls) w))"
proof (rule serve_all_keeps [where I = "\<lambda>d. rsvps_ok d \<and> within_capacity d"])
  fix m and v :: "db world"
  assume "m \<in> set (map serve_rsvp calls)" and "rsvps_ok (store v) \<and> within_capacity (store v)"
  then show "rsvps_ok (store (snd (m v))) \<and> within_capacity (store (snd (m v)))"
    using assms(3) serve_rsvp_keeps [of v _ "fst (m v)" "snd (m v)"] by auto
qed (use assms in simp)

definition demo_submit :: "int \<Rightarrow> rsvp_submit_request" where
  "demo_submit n = \<lparr>rsr_Token = ''tok'', rsr_Status = RSVPStatusAttending, rsr_AttendingPax = n,
     rsr_Adults = n, rsr_Children = 0, rsr_AttendingSessions = [], rsr_MenuChoice = [],
     rsr_Allergies = [], rsr_AccessibilityNeeds = [], rsr_Transportation = [], rsr_Notes = []\<rparr>"

lemma attendance_stays_within_capacity_witness:
  "within_capacity (store (serve_all
     (map serve_rsvp [SubmitRsvp (demo_submit 2) ''1.2.3.4'', SubmitRsvp (demo_submit 1) ''1.2.3.4''])
     (demo_world demo_db)))"
  using attendance_stays_within_capacity [of "demo_world demo_db"
      "[SubmitRsvp (demo_submit 2) ''1.2.3.4'', SubmitRsvp (demo_submit 1) ''1.2.3.4'']"]
  by (simp add: demo_rsvps_ok sensible_rsvp_def demo_submit_def)

lemma validateTokenForRSVP_ticks:
  "validateTokenForRSVP token w = (Inr iv, v) \<Longrightarrow> v = tick w \<or> v = tick (tick w)"
  unfolding validateTokenForRSVP_def check_expiry_def
  by (auto elim!: go_elim_Inr simp: not_found_as_Inr GetByTokenHash_Inr now_eq split: option.splits)

text \<open>C34: a public submission that succeeds was made with the token of a live invitation that is
  neither revoked nor expired, for a live event whose deadline had not passed at a moment of the
  call; the response is one of the three public statuses, counts no one when not attending and
  never more people than the invitation admits, and is the one stored for the invitation.\<close>

theorem Submit_respects_invitation:
  assumes "RSVPService_Submit req ip w = (Inr r, w')" and "rsvps_ok (store w)"
  shows "\<exists>iv ev n. iv \<in> set (invitations (store w)) \<and> live iv
    \<and> inv_TokenHash iv = SHA256Hash (rsr_Token req) \<and> inv_Status iv \<noteq> InvitationStatusRevoked
    \<and> (\<forall>x. inv_ExpiresAt iv = Some x \<longrightarrow> clock w (Suc (pos w)) \<le> x)
    \<and> ev \<in> set (events (store w)) \<and> live ev \<and> ID ev = EventID iv
    \<and> pos w < n \<and> (\<forall>x. ev_RSVPDeadline ev = Some x \<longrightarrow> clock w n \<le> x)
    \<and> rs_Status r \<in> {RSVPStatusAttending, RSVPStatusNotAttending, RSVPStatusMaybe}
    \<and> rs_AttendingPax r \<le> inv_MaxPax iv
    \<and> (rs_Status r = RSVPStatusNotAttending \<longrightarrow> rs_AttendingPax r = 0)
    \<and> (\<exists>row \<in> set (rsvp_responses (store w')). rs_InvitationID row = ID iv
        \<and> EventID row = EventID iv \<and> rs_Status row = rs_Status r \<and> rs_AttendingPax row = rs_AttendingPax r)"
proof -
  from assms(1) obtain iv v v' where
    tok: "validateTokenForRSVP (rsr_Token req) w = (Inr iv, v)"
    and dl: "ValidateDeadline (EventID iv) v = (Inr (), v')"
    and st: "isValidRSVPSubmitStatus (rsr_Status req)" "submitted_pax req \<le> inv_MaxPax iv"
      "rs_Status r = rsr_Status req" "rs_AttendingPax r = submitted_pax req"
    and wr: "rsvp_write (store w) iv r (store w')" by (rule Submit_Inr)
  from validateTokenForRSVP_ticks [OF tok] have n: "pos w < Suc (pos v)"
    "clock v = clock w" "store v = store w" by auto
  from ValidateDeadline_Inr [OF dl] obtain ev where
    ev: "find (\<lambda>x. ID x = EventID iv \<and> live x) (events (store w)) = Some ev"
      "\<forall>x. ev_RSVPDeadline ev = Some x \<longrightarrow> clock w (Suc (pos v)) \<le> x" using n by auto
  have row: "\<exists>row \<in> set (rsvp_responses (store w')). rs_InvitationID row = ID iv
      \<and> EventID row = EventID iv \<and> rs_Status row = rs_Status r \<and> rs_AttendingPax row = rs_AttendingPax r"
    using wr assms(2) by (rule rsvp_write_row)
  show ?thesis
    using validateTokenForRSVP_Inr [OF tok] find_Some_D [OF ev(1)] ev(2) n(1) st row
    by (intro exI [of _ iv] exI [of _ ev] exI [of _ "Suc (pos v)"])
      (auto simp: isValidRSVPSubmitStatus_def submitted_pax_def)
qed

lemmas submit_eval = RSVPService_Submit_def validateTokenForRSVP_def not_found_as_def check_expiry_def
  InvitationRepository_GetByTokenHash_def ValidateDeadline_def EventRepository_GetByID_def
  isValidRSVPSubmitStatus_def ValidateCapacity_def EventRepository_GetByIDForTenant_def event_key_def
  RSVPRepository_SumAttendingPax_def RSVPRepository_GetByInvitation_def find_existing_rsvp_def
  RSVPRepository_Create_def insert_rsvp_def new_rsvp_def with_guest_count_def i64_def int4_def
  has_id_def has_id_opt_def InvitationRepository_UpdateStatus_def invitation_key_def
  RSVPRepository_Update_def rsvp_key_def attending_total_def attending_def

lemma demo_submit_run:
  "\<exists>r. fst (RSVPService_Submit (demo_submit n) ''1.2.3.4'' (demo_world demo_db)) = Inr r
     \<and> rs_AttendingPax r = n" if "n \<in> {-1, 2}"
  using that
  by (auto simp: submit_eval go_eval demo_submit_def demo_event_def demo_invitation_def demo_tenant_def
      demo_guest_def demo_event_guest_def)

lemma Submit_respects_invitation_witness:
  "\<exists>r row. fst (RSVPService_Submit (demo_submit 2) ''1.2.3.4'' (demo_world demo_db)) = Inr r
    \<and> row \<in> set (rsvp_responses (store (snd (RSVPService_Submit (demo_submit 2) ''1.2.3.4'' (demo_world demo_db)))))
    \<and> rs_InvitationID row = 8 \<and> rs_AttendingPax row = 2"
proof -
  let ?m = "RSVPService_Submit (demo_submit 2) ''1.2.3.4''"
  obtain r where r: "fst (?m (demo_world demo_db)) = Inr r" "rs_AttendingPax r = 2"
    using demo_submit_run [of 2] by auto
  from Submit_respects_invitation [OF run_pair [of ?m "demo_world demo_db", OF r(1)]] demo_rsvps_ok(1) obtain iv row where
    "iv \<in> set (invitations demo_db)" "row \<in> set (rsvp_responses (store (snd (?m (demo_world demo_db)))))"
    "rs_InvitationID row = ID iv" "rs_AttendingPax row = rs_AttendingPax r" by auto
  with r show ?thesis by (auto simp: demo_invitation_def)
qed

text \<open>C35: a submission that is refused, for whichever reason (token, deadline, status, capacity,
  the limit of the invitation, a failing statement), leaves the whole database as it was.\<close>

theorem refused_submission_changes_nothing:
  assumes "RSVPService_Submit req ip w = (Inl e, w')"
  shows "store w' = store w"
  by (rule Submit_Inl [OF assms])

lemma refused_submission_changes_nothing_witness:
  "store (snd (RSVPService_Submit ((demo_submit 2)\<lparr>rsr_Status := ''maybe?''\<rparr>) ''1.2.3.4''
     (demo_world demo_db))) = demo_db"
proof -
  let ?m = "RSVPService_Submit ((demo_submit 2)\<lparr>rsr_Status := ''maybe?''\<rparr>) ''1.2.3.4''"
  have "fst (?m (demo_world demo_db)) = Inl ErrInvalidRSVPStatus"
    by (simp add: submit_eval go_eval demo_submit_def demo_event_def demo_invitation_def)
  from refused_submission_changes_nothing [OF run_pair [of ?m "demo_world demo_db", OF this]]
  show ?thesis by simp
qed

definition demo_rsvp :: "int \<Rightarrow> rsvp_response" where
  "demo_rsvp n = \<lparr>ID = 20, CreatedAt = 0, UpdatedAt = 0, DeletedAt = None, TenantID = 1, EventID = 3,
     GuestID = 4, rs_InvitationID = 8, rs_EventGuestID = Some 6, rs_Status = RSVPStatusAttending,
     rs_AttendingPax = n, rs_Adults = n, rs_Children = 0, rs_AttendingSessions = [],
     rs_MenuChoice = None, rs_Allergies = None, rs_AccessibilityNeeds = None,
     rs_Transportation = None, rs_Notes = None, rs_RespondedAt = Some 0, rs_EditedAt = None,
     rs_EditedBy = None, rs_IPAddress = None\<rparr>"

definition demo_edit :: "int \<Rightarrow> rsvp_update_request" where
  "demo_edit n = \<lparr>rur_Status = RSVPStatusAttending, rur_AttendingPax = n, rur_Adults = n,
     rur_Children = 0, rur_AttendingSessions = [], rur_MenuChoice = [], rur_Allergies = [],
     rur_AccessibilityNeeds = [], rur_Transportation = [], rur_Notes = []\<rparr>"

definition responded_db :: db where
  "responded_db = demo_db\<lparr>rsvp_responses := [demo_rsvp 2]\<rparr>"

text \<open>the officers' update does not check the capacity when the response already attends. From a
  consistent database within its capacities, one successful \<open>UpdateByOfficer\<close> that raises the
  number of people of an attending response leaves the event over its capacity.\<close>

theorem UpdateByOfficer_can_exceed_capacity:
  "\<exists>w req r w'. rsvps_ok (store w) \<and> within_capacity (store w)
     \<and> RSVPService_UpdateByOfficer 1 3 20 2 req w = (Inr r, w') \<and> \<not> within_capacity (store w')"
proof (intro exI conjI)
  let ?w = "demo_world responded_db"
  let ?r = "edit_rsvp 1 2 10 (demo_edit 10) (demo_rsvp 2)"
  let ?w' = "snd (RSVPService_UpdateByOfficer 1 3 20 2 (demo_edit 10) ?w)"
  show "rsvps_ok (store ?w)" "within_capacity (store ?w)"
    by (simp_all add: rsvps_ok_def within_capacity_def responded_db_def invitation_events_def demo_event_def
        demo_invitation_def demo_rsvp_def int4_def contribution_def attending_def)
  have "fst (RSVPService_UpdateByOfficer 1 3 20 2 (demo_edit 10) ?w) = Inr ?r"
    by (simp add: RSVPService_UpdateByOfficer_def go_eval RSVPRepository_GetByIDForTenant_def
        RSVPRepository_Update_def responded_db_def demo_rsvp_def demo_edit_def IsValidRSVPStatus_def
        ValidRSVPStatuses_def int4_def has_id_opt_def has_id_def demo_user_def rsvp_key_def
        edit_rsvp_def set_str_def)
  then show "RSVPService_UpdateByOfficer 1 3 20 2 (demo_edit 10) ?w = (Inr ?r, ?w')"
    by (rule run_pair)
  have "rsvp_responses (store ?w') = [merge_rsvp ?r (demo_rsvp 2)]" "events (store ?w') = [demo_event]"
    by (simp_all add: RSVPService_UpdateByOfficer_def go_eval RSVPRepository_GetByIDForTenant_def
        RSVPRepository_Update_def responded_db_def demo_rsvp_def demo_edit_def IsValidRSVPStatus_def
        ValidRSVPStatuses_def int4_def has_id_opt_def has_id_def demo_user_def rsvp_key_def
        edit_rsvp_def set_str_def
        insert_audit_log_def demo_tenant_def merge_rsvp_def)
  then show "\<not> within_capacity (store ?w')"
    by (simp add: within_capacity_def demo_event_def contribution_def attending_def demo_edit_def
        demo_rsvp_def)
qed

definition revoked_db :: db where
  "revoked_db = demo_db\<lparr>invitations := [demo_invitation\<lparr>inv_Status := InvitationStatusRevoked\<rparr>]\<rparr>"

text \<open>an officer's upsert revives a revoked invitation. There is a database in which a token is
  refused as revoked, and after one successful \<open>UpsertByOfficer\<close> for that guest the same token
  validates: the invitation's status is overwritten with \<open>responded\<close> unconditionally.\<close>

theorem UpsertByOfficer_revives_revoked_invitation:
  "\<exists>w req r w'. fst (InvitationService_ValidateToken ''tok'' w) = Inl ErrInvitationRevoked
     \<and> RSVPService_UpsertByOfficer 1 3 4 2 req w = (Inr r, w')
     \<and> (\<exists>iv. fst (InvitationService_ValidateToken ''tok'' (demo_world (store w'))) = Inr iv)"
proof (intro exI conjI)
  let ?w = "demo_world revoked_db"
  let ?m = "RSVPService_UpsertByOfficer 1 3 4 2 (demo_edit 1)"
  show "fst (InvitationService_ValidateToken ''tok'' ?w) = Inl ErrInvitationRevoked"
    by (simp add: ValidateToken_run revoked_db_def demo_invitation_def)
  let ?r = "new_rsvp_by_officer 109 8 7 1 3 4 8 6 2 1 (demo_edit 1)"
  have "fst (?m ?w) = Inr ?r"
    by (simp add: submit_eval RSVPService_UpsertByOfficer_def go_eval revoked_db_def demo_edit_def
        IsValidRSVPStatus_def ValidRSVPStatuses_def EventGuestRepository_GetByEventAndGuest_def
        eventGuestSelect_def List.map_filter_def first_row_def demo_event_guest_def demo_guest_def
        demo_event_def demo_invitation_def demo_tenant_def demo_user_def toDomain_def
        InvitationRepository_GetByEventAndGuest_def new_rsvp_by_officer_def)
  then show "?m ?w = (Inr ?r, snd (?m ?w))" by (rule run_pair)
  have "invitations (store (snd (?m ?w))) =
      [demo_invitation\<lparr>inv_Status := InvitationStatusResponded, UpdatedAt := 11\<rparr>]"
    by (simp add: submit_eval RSVPService_UpsertByOfficer_def go_eval revoked_db_def demo_edit_def
        IsValidRSVPStatus_def ValidRSVPStatuses_def EventGuestRepository_GetByEventAndGuest_def
        eventGuestSelect_def List.map_filter_def first_row_def demo_event_guest_def demo_guest_def
        demo_event_def demo_invitation_def demo_tenant_def demo_user_def toDomain_def
        InvitationRepository_GetByEventAndGuest_def new_rsvp_by_officer_def insert_audit_log_def)
  then show "fst (InvitationService_ValidateToken ''tok'' (demo_world (store (snd (?m ?w))))) =
      Inr (demo_invitation\<lparr>inv_Status := InvitationStatusResponded, UpdatedAt := 11, inv_Token := []\<rparr>)"
    by (simp add: ValidateToken_run demo_invitation_def)
qed

lemma status_counts:
  "distinct sts \<Longrightarrow> sum_list (map (\<lambda>st. count_where (\<lambda>r. g r = st) rs) sts) \<le> length rs"
proof (induction rs)
  case (Cons r rs)
  have "sum_list (map (\<lambda>st. if g r = st then 1 else 0 :: nat) sts) \<le> 1"
    using Cons.prems by (induction sts) auto
  with Cons show ?case by (simp add: sum_list_addf)
qed simp

text \<open>the RSVP dashboard. It changes nothing; the responses per status never exceed the responses
  in total, the guests without a response never exceed the active roster, the capacity used is the
  number of attending people, and the rate is zero when nothing was sent.\<close>

theorem dashboard_is_consistent:
  assumes "RSVPService_GetDashboard rnd tenantID eventID w = (Inr b, w')"
  shows "store w' = store w
    \<and> rd_Attending b + rd_NotAttending b + rd_Maybe b + rd_Waitlist b \<le> rd_Responded b
    \<and> 0 \<le> rd_NoResponse b \<and> rd_NoResponse b \<le> rd_TotalInvited b
    \<and> rd_CapacityUsed b = rd_AttendingPax b
    \<and> (rd_TotalSent b = 0 \<longrightarrow> rd_ResponseRate b = 0)"
proof -
  define rs where "rs = filter (\<lambda>r. TenantID r = tenantID \<and> EventID r = eventID) (rsvp_responses (store w))"
  define act where "act = (\<lambda>eg :: event_guest. TenantID eg = tenantID \<and> EventID eg = eventID \<and> live eg \<and>
    eg_Status eg = EventGuestStatusActive)"
  define n where "n = (\<lambda>st. int (count_where (\<lambda>r. rs_Status r = st) rs))"
  define nr where "nr = (\<lambda>eg :: event_guest. act eg \<and> \<not> list_ex (\<lambda>r. TenantID r = TenantID eg \<and>
    EventID r = EventID eg \<and> GuestID r = GuestID eg) (rsvp_responses (store w)))"
  obtain sent opened pax cap where b: "store w' = store w"
    "b = \<lparr>rd_TotalInvited = int (count_where act (event_guests (store w))), rd_TotalSent = sent,
      rd_Opened = opened, rd_Responded = int (length rs), rd_Attending = n RSVPStatusAttending,
      rd_AttendingPax = pax, rd_NotAttending = n RSVPStatusNotAttending, rd_Maybe = n RSVPStatusMaybe,
      rd_NoResponse = int (count_where nr (event_guests (store w))), rd_Waitlist = n ''waitlist'',
      rd_ResponseRate = response_rate rnd (int (length rs)) sent, rd_CapacityUsed = pax,
      rd_CapacityTotal = cap\<rparr>"
    using assms unfolding RSVPService_GetDashboard_def RSVPRepository_GetDashboardStats_def Let_def
      n_def rs_def act_def nr_def
    by (clarsimp elim!: go_elim_Inr simp: GetByIDForTenant_Inr query_eq simp del: rsvp_dashboard.simps
        split: if_split_asm)
  have "n RSVPStatusAttending + n RSVPStatusNotAttending + n RSVPStatusMaybe + n ''waitlist'' \<le> int (length rs)"
    using status_counts [of "[RSVPStatusAttending, RSVPStatusNotAttending, RSVPStatusMaybe, ''waitlist'']"
        rs_Status rs] by (simp add: n_def)
  moreover have "count_where nr (event_guests (store w)) \<le> count_where act (event_guests (store w))"
    by (rule count_where_mono) (simp add: nr_def)
  ultimately show ?thesis using b by (simp add: response_rate_def)
qed

lemma dashboard_is_consistent_witness:
  "\<exists>b. fst (RSVPService_GetDashboard (\<lambda>x. x) 1 3 (demo_world responded_db)) = Inr b
     \<and> rd_Attending b + rd_NotAttending b + rd_Maybe b + rd_Waitlist b \<le> rd_Responded b"
proof -
  let ?m = "RSVPService_GetDashboard (\<lambda>x. x) 1 3"
  have "\<exists>b. fst (?m (demo_world responded_db)) = Inr b"
    by (simp add: RSVPService_GetDashboard_def RSVPRepository_GetDashboardStats_def go_eval
        EventRepository_GetByIDForTenant_def event_key_def responded_db_def demo_event_def)
  then obtain b where "fst (?m (demo_world responded_db)) = Inr b" by blast
  with dashboard_is_consistent [OF run_pair [of ?m "demo_world responded_db", OF this]] show ?thesis
    by blast
qed

end
