(* ===== verification/Checkin.thy ===== *)
theory Checkin
  imports Rsvp "HOL-Library.Multiset"
begin

text \<open>
  Check-in: \<open>CheckinRepository\<close> and \<open>CheckinService\<close>. The lemmas show that, request after request,
  no guest is checked in twice for an event, what a successful check-in stores, that the token of
  another event checks no one in, that a walk-in registers, enrols and checks in one guest, and
  what the statistics and the masking of contact data guarantee; and where the code departs from
  its intent: failed scans that are never recorded, revoked credentials that still open the gate,
  and two requests that interleave. Time truncation and formatting by the server, floating-point
  rounding and \<open>ILIKE\<close> are parameters.

  A method that returns both a record and an error yields the pair of the record and the error; a
  method that returns a nil record with an error fails with it.
\<close>

type_synonym checkin_outcome = "checkin \<times> err option"

section \<open>The repository\<close>

record checkin_list_params =
  cl_TenantID :: uuid
  cl_EventID :: uuid
  cl_Method :: string
  cl_Status :: string
  cl_GateID :: "uuid option"
  cl_Page :: int
  cl_PerPage :: int

definition CheckinRepository_Create :: "checkin \<Rightarrow> unit app" where
  "CheckinRepository_Create c = go_bind (exec (insert_checkin c)) (\<lambda>_. go_ret ())"

definition CheckinRepository_GetByID :: "uuid \<Rightarrow> uuid \<Rightarrow> checkin app" where
  "CheckinRepository_GetByID t i =
     get_one ErrNotFound (\<lambda>d. find (\<lambda>c. ID c = i \<and> TenantID c = t \<and> live c) (checkins d))"

definition CheckinRepository_ListByGuest :: "uuid \<Rightarrow> uuid \<Rightarrow> checkin list app" where
  "CheckinRepository_ListByGuest t g = query (\<lambda>d. sort_key (\<lambda>c. - CreatedAt c)
     (filter (\<lambda>c. TenantID c = t \<and> GuestID c = g \<and> live c \<and> ci_Status c = CheckinStatusSuccess)
       (checkins d)))"

text \<open>\<open>buildWhereClause\<close> of the check-in list.\<close>

definition checkin_where :: "checkin_list_params \<Rightarrow> checkin \<Rightarrow> bool" where
  "checkin_where p c \<longleftrightarrow> TenantID c = cl_TenantID p \<and> EventID c = cl_EventID p \<and> live c
     \<and> (TrimSpace (cl_Method p) = [] \<or> ci_Method c = cl_Method p)
     \<and> (TrimSpace (cl_Status p) = [] \<or> ci_Status c = cl_Status p)
     \<and> (cl_GateID p = None \<or> ci_GateID c = cl_GateID p)"

definition CheckinRepository_ListByEvent :: "checkin_list_params \<Rightarrow> checkin list app" where
  "CheckinRepository_ListByEvent p =
     (let page = (if cl_Page p < 1 then 1 else cl_Page p);
          perPage = (if cl_PerPage p < 1 then 20 else cl_PerPage p);
          off = i64 ((page - 1) * perPage) in
      get_one ErrDB (\<lambda>d. if off < 0 then None else Some (limit_offset perPage off
        (sort_key (\<lambda>c. - CreatedAt c) (filter (checkin_where p) (checkins d))))))"

text \<open>The \<open>EXISTS\<close> clause of the counts: the guest is actively on the roster of the event.\<close>

definition on_roster :: "db \<Rightarrow> checkin \<Rightarrow> bool" where
  "on_roster d c = list_ex (\<lambda>eg. EventID eg = EventID c \<and> GuestID eg = GuestID c \<and> live eg
     \<and> eg_Status eg = EventGuestStatusActive) (event_guests d)"

definition successes :: "uuid \<Rightarrow> uuid \<Rightarrow> db \<Rightarrow> checkin list" where
  "successes t e d = filter (\<lambda>c. TenantID c = t \<and> EventID c = e \<and> live c
     \<and> ci_Status c = CheckinStatusSuccess \<and> on_roster d c) (checkins d)"

definition count_guests :: "checkin list \<Rightarrow> int" where
  "count_guests cs = int (length (remdups (map GuestID cs)))"

definition CheckinRepository_CountByEvent :: "uuid \<Rightarrow> uuid \<Rightarrow> int app" where
  "CheckinRepository_CountByEvent t e = query (\<lambda>d. count_guests (successes t e d))"

definition CheckinRepository_CountPaxByEvent :: "uuid \<Rightarrow> uuid \<Rightarrow> int app" where
  "CheckinRepository_CountPaxByEvent t e =
     query (\<lambda>d. sum_list (map ci_ActualPax (successes t e d)))"

definition CheckinRepository_CountWalkInsByEvent :: "uuid \<Rightarrow> uuid \<Rightarrow> int app" where
  "CheckinRepository_CountWalkInsByEvent t e = query (\<lambda>d.
     count_guests (filter (\<lambda>c. ci_Method c = CheckinMethodWalkin) (successes t e d)))"

definition CheckinRepository_CountByGate :: "uuid \<Rightarrow> uuid \<Rightarrow> gate_stat list app" where
  "CheckinRepository_CountByGate t e = query (\<lambda>d. sort_key (\<lambda>s. - gs_Count s) (map (\<lambda>g.
     let cs = filter (\<lambda>c. ci_GateID c = Some (ID g)) (successes t e d)
     in \<lparr>gs_GateID = ID g, gs_GateName = cg_Name g, gs_Count = int (length cs),
         gs_Pax = sum_list (map ci_ActualPax cs)\<rparr>)
     (filter (\<lambda>g. TenantID g = t \<and> EventID g = e \<and> live g) (checkin_gates d))))"

definition CheckinRepository_CountByMethod :: "uuid \<Rightarrow> uuid \<Rightarrow> method_stat list app" where
  "CheckinRepository_CountByMethod t e = query (\<lambda>d.
     let cs = successes t e d in sort_key (\<lambda>s. - ms_Count s) (map (\<lambda>m.
       \<lparr>ms_Method = m, ms_Count = count_guests (filter (\<lambda>c. ci_Method c = m) cs)\<rparr>)
       (remdups (map ci_Method cs))))"

definition CheckinRepository_GetRecent :: "uuid \<Rightarrow> uuid \<Rightarrow> int \<Rightarrow> checkin list app" where
  "CheckinRepository_GetRecent t e n =
     (let n = (if n < 1 then 10 else if 100 < n then 100 else n) in
      query (\<lambda>d. take (nat n) (sort_key (\<lambda>c. - CreatedAt c)
        (filter (\<lambda>c. TenantID c = t \<and> EventID c = e \<and> live c \<and> on_roster d c) (checkins d)))))"

definition same_visit :: "uuid \<Rightarrow> uuid \<Rightarrow> uuid \<Rightarrow> checkin \<Rightarrow> bool" where
  "same_visit t e g c \<longleftrightarrow> TenantID c = t \<and> EventID c = e \<and> GuestID c = g \<and> live c
     \<and> ci_Status c = CheckinStatusSuccess"

definition CheckinRepository_IsCheckedIn :: "uuid \<Rightarrow> uuid \<Rightarrow> uuid \<Rightarrow> bool app" where
  "CheckinRepository_IsCheckedIn t e g = query (\<lambda>d. 0 < count_where (same_visit t e g) (checkins d))"

text \<open>\<open>Update\<close>: every column but the keys of creation.\<close>

definition merge_checkin :: "checkin \<Rightarrow> checkin \<Rightarrow> checkin" where
  "merge_checkin c old = c\<lparr>ID := ID old, CreatedAt := CreatedAt old, TenantID := TenantID old,
     DeletedAt := DeletedAt old, ci_EventGuestID := ci_EventGuestID old\<rparr>"

definition CheckinRepository_Update :: "checkin \<Rightarrow> unit app" where
  "CheckinRepository_Update c = exec_rows ErrNotFound (\<lambda>srv d.
     let p = (\<lambda>r. ID r = ID c \<and> TenantID r = TenantID c \<and> live r) in
     if \<not> list_all (\<lambda>r. p r \<longrightarrow> checkin_row_ok (merge_checkin c r) d) (checkins d) then None
     else Some (sql_update checkins put_checkins p (merge_checkin c) d))"

definition CheckinRepository_FindDuplicateCheckin :: "uuid \<Rightarrow> uuid \<Rightarrow> uuid \<Rightarrow> checkin option app" where
  "CheckinRepository_FindDuplicateCheckin t e g =
     query (\<lambda>d. find (same_visit t e g) (checkins d))"

text \<open>\<open>GetPeakHour\<close>, with the server's \<open>DATE_TRUNC\<close> and \<open>TO_CHAR\<close>.\<close>

definition CheckinRepository_GetPeakHour ::
  "(time \<Rightarrow> time) \<Rightarrow> (time \<Rightarrow> string) \<Rightarrow> uuid \<Rightarrow> uuid \<Rightarrow> string app" where
  "CheckinRepository_GetPeakHour trunc to_char t e = query (\<lambda>d.
     let hs = map (\<lambda>c. trunc (CreatedAt c)) (successes t e d)
     in case sort_key (\<lambda>h. - int (count_where (\<lambda>x. x = h) hs)) (remdups hs) of
          [] \<Rightarrow> [] | h # _ \<Rightarrow> to_char h)"

definition CheckinRepository_SoftDelete :: "uuid \<Rightarrow> uuid \<Rightarrow> unit app" where
  "CheckinRepository_SoftDelete t i = go_bind now (\<lambda>tm. exec_rows ErrNotFound (\<lambda>srv d.
     Some (sql_update checkins put_checkins (\<lambda>c. ID c = i \<and> TenantID c = t \<and> live c)
       (\<lambda>c. c\<lparr>DeletedAt := Some tm, UpdatedAt := tm\<rparr>) d)))"

section \<open>The service: check-ins\<close>

text \<open>The record of a failed attempt, kept if the database accepts it, and its error.\<close>

definition failed_checkin :: "uuid \<Rightarrow> time \<Rightarrow> uuid \<Rightarrow> uuid \<Rightarrow> uuid option \<Rightarrow> checkin_request \<Rightarrow> string \<Rightarrow> checkin" where
  "failed_checkin i t tenantID eventID officerID req status =
     \<lparr>ID = i, CreatedAt = t, UpdatedAt = t, DeletedAt = None, TenantID = tenantID,
      EventID = eventID, GuestID = (case cr_GuestID req of None \<Rightarrow> uuid_Nil | Some g \<Rightarrow> g),
      ci_SessionID = None, ci_EventGuestID = None, ci_InvitationID = None, ci_CredentialID = None,
      ci_Method = cr_Method req, ci_Status = status, ci_DeviceID = opt_str (cr_DeviceID req),
      ci_GateID = cr_GateID req, ci_OfficerID = officerID, ci_ActualPax = 0, ci_Adults = 0,
      ci_Children = 0, ci_OverrideReason = None, ci_ApprovedBy = None, ci_IPAddress = None,
      ci_Latitude = None, ci_Longitude = None, ci_Notes = None, ci_OfflineSynced = False\<rparr>"

definition recordFailedCheckin ::
  "uuid \<Rightarrow> uuid \<Rightarrow> uuid option \<Rightarrow> checkin_request \<Rightarrow> string \<Rightarrow> checkin_outcome app" where
  "recordFailedCheckin tenantID eventID officerID req status =
     go_bind NewBase (\<lambda>(i, t).
     let c = failed_checkin i t tenantID eventID officerID req status in
     go_ignore (CheckinRepository_Create c)
     (go_ret (c, Some (if status = CheckinStatusDuplicate then ErrAlreadyExists else ErrInvalidInput))))"

text \<open>The numbers of people: at least one, and adults and children that add up.\<close>

definition balance_pax :: "checkin_request \<Rightarrow> int \<times> int \<times> int" where
  "balance_pax req =
     (let actualPax = (if cr_ActualPax req < 1 then 1 else cr_ActualPax req);
          adults = (if cr_Adults req < 1 then actualPax else cr_Adults req);
          children = cr_Children req
      in if i64 (adults + children) \<noteq> actualPax then (actualPax, actualPax, 0)
         else (actualPax, adults, children))"

definition success_checkin :: "uuid \<Rightarrow> time \<Rightarrow> uuid \<Rightarrow> uuid \<Rightarrow> uuid \<Rightarrow> uuid \<Rightarrow> uuid option \<Rightarrow> uuid option \<Rightarrow>
    checkin_request \<Rightarrow> checkin" where
  "success_checkin i t tenantID eventID guestID eventGuestID invitationID officerID req =
     (case balance_pax req of (actualPax, adults, children) \<Rightarrow>
     \<lparr>ID = i, CreatedAt = t, UpdatedAt = t, DeletedAt = None, TenantID = tenantID,
      EventID = eventID, GuestID = guestID, ci_SessionID = None, ci_EventGuestID = Some eventGuestID,
      ci_InvitationID = invitationID, ci_CredentialID = None, ci_Method = cr_Method req,
      ci_Status = CheckinStatusSuccess, ci_DeviceID = opt_str (cr_DeviceID req),
      ci_GateID = cr_GateID req, ci_OfficerID = officerID, ci_ActualPax = actualPax,
      ci_Adults = adults, ci_Children = children, ci_OverrideReason = opt_str (cr_OverrideReason req),
      ci_ApprovedBy = cr_ApprovedBy req, ci_IPAddress = None,
      ci_Latitude = (if cr_Latitude req = 0 then None else Some (cr_Latitude req)),
      ci_Longitude = (if cr_Longitude req = 0 then None else Some (cr_Longitude req)),
      ci_Notes = opt_str (cr_Notes req), ci_OfflineSynced = False\<rparr>)"

definition performCheckin :: "uuid \<Rightarrow> uuid \<Rightarrow> uuid \<Rightarrow> uuid option \<Rightarrow> uuid option \<Rightarrow> checkin_request \<Rightarrow>
    checkin_outcome app" where
  "performCheckin tenantID eventID guestID invitationID officerID req =
     go_bind (EventRepository_GetByIDForTenant eventID tenantID) (\<lambda>_.
     go_try (EventGuestRepository_GetByEventAndGuest tenantID eventID guestID) (\<lambda>look.
     case look of Inl _ \<Rightarrow> go_fail ErrInvalidInput | Inr eventGuest \<Rightarrow>
     go_bind (CheckinRepository_IsCheckedIn tenantID eventID guestID) (\<lambda>isCheckedIn.
     if isCheckedIn then recordFailedCheckin tenantID eventID officerID req CheckinStatusDuplicate else
     go_bind NewBase (\<lambda>(i, t).
     let c = success_checkin i t tenantID eventID guestID (ID eventGuest) invitationID officerID req in
     go_bind (CheckinRepository_Create c) (\<lambda>_.
     go_ignore (LogWithUser (case officerID of None \<Rightarrow> uuid_Nil | Some o' \<Rightarrow> o') tenantID
       AuditActionCreate EntityTypeCheckin i None
       (Some [(''guest_id'', JUUID guestID), (''event_id'', JUUID eventID),
              (''method'', JString (cr_Method req)), (''actual_pax'', JInt (ci_ActualPax c)),
              (''status'', JString CheckinStatusSuccess)]))
     (go_ret (c, None)))))))"

text \<open>Every failing lookup of the token is a missing guest; a broken roster link is invalid input.\<close>

definition findGuestByToken :: "uuid \<Rightarrow> uuid \<Rightarrow> string \<Rightarrow> (guest \<times> invitation) app" where
  "findGuestByToken tenantID eventID token =
     go_try (InvitationRepository_GetByTokenHash (SHA256Hash token)) (\<lambda>look.
     case look of Inl _ \<Rightarrow> go_fail ErrNotFound | Inr iv \<Rightarrow>
     go_guard (EventID iv \<noteq> eventID) ErrInvalidInput (
     go_bind (case inv_EventGuestID iv of None \<Rightarrow> go_ret ()
       | Some i \<Rightarrow> go_try (EventGuestRepository_GetByID tenantID eventID i) (\<lambda>r.
           case r of Inl _ \<Rightarrow> go_fail ErrInvalidInput | Inr _ \<Rightarrow> go_ret ())) (\<lambda>_.
     go_try (GuestRepository_GetByIDForTenant tenantID (GuestID iv)) (\<lambda>r.
       case r of Inl _ \<Rightarrow> go_fail ErrNotFound | Inr g \<Rightarrow> go_ret (g, iv)))))"

definition ProcessQRScan :: "uuid \<Rightarrow> uuid \<Rightarrow> uuid option \<Rightarrow> checkin_request \<Rightarrow> checkin_outcome app" where
  "ProcessQRScan tenantID eventID officerID req =
     (let token = TrimSpace (cr_Token req) in
      go_guard (token = []) ErrInvalidInput (
      go_try (findGuestByToken tenantID eventID token) (\<lambda>r.
      case r of
        Inl e \<Rightarrow> if e = ErrNotFound
          then recordFailedCheckin tenantID eventID officerID req CheckinStatusInvalid else go_fail e
      | Inr (g, iv) \<Rightarrow> performCheckin tenantID eventID (ID g) (Some (ID iv)) officerID req)))"

definition ProcessManualSearch ::
  "uuid \<Rightarrow> uuid \<Rightarrow> uuid option \<Rightarrow> checkin_request \<Rightarrow> checkin_outcome app" where
  "ProcessManualSearch tenantID eventID officerID req =
     (case cr_GuestID req of None \<Rightarrow> go_fail ErrInvalidInput
      | Some gid \<Rightarrow> go_guard (gid = uuid_Nil) ErrInvalidInput (
        go_try (GuestRepository_GetByIDForTenant tenantID gid) (\<lambda>r.
        case r of
          Inl e \<Rightarrow> if e = ErrNotFound
            then recordFailedCheckin tenantID eventID officerID req CheckinStatusInvalid else go_fail e
        | Inr g \<Rightarrow>
            go_try (EventGuestRepository_GetByEventAndGuest tenantID eventID (ID g)) (\<lambda>r'.
            case r' of
              Inl e \<Rightarrow> if e = ErrNotFound
                then recordFailedCheckin tenantID eventID officerID req CheckinStatusWrongEvent
                else go_fail e
            | Inr _ \<Rightarrow> performCheckin tenantID eventID (ID g) None officerID req))))"

definition ProcessCheckin :: "uuid \<Rightarrow> uuid \<Rightarrow> uuid option \<Rightarrow> checkin_request \<Rightarrow> checkin_outcome app" where
  "ProcessCheckin tenantID eventID officerID req =
     (if cr_Method req = CheckinMethodQRScan then ProcessQRScan tenantID eventID officerID req
      else if cr_Method req = CheckinMethodManual then ProcessManualSearch tenantID eventID officerID req
      else go_fail ErrInvalidInput)"

abbreviation empty_checkin_request :: checkin_request where
  "empty_checkin_request \<equiv> \<lparr>cr_Method = [], cr_Token = [], cr_GuestID = None, cr_GateID = None,
     cr_DeviceID = [], cr_ActualPax = 0, cr_Adults = 0, cr_Children = 0, cr_OverrideReason = [],
     cr_ApprovedBy = None, cr_Notes = [], cr_Latitude = 0, cr_Longitude = 0\<rparr>"

text \<open>\<open>ProcessSelfCheckin\<close>: nil pointers are \<open>None\<close>.\<close>

definition ProcessSelfCheckin :: "event option \<Rightarrow> invitation option \<Rightarrow> int \<Rightarrow> checkin_outcome app" where
  "ProcessSelfCheckin event iv actualPax = (case (event, iv) of
       (Some event, Some iv) \<Rightarrow>
         go_guard (ID event \<noteq> EventID iv) ErrInvalidInput (
         let pax = (if actualPax < 1 then 1 else actualPax) in
         performCheckin (TenantID event) (ID event) (GuestID iv) (Some (ID iv)) None
           (empty_checkin_request\<lparr>cr_Method := CheckinMethodSelfService, cr_ActualPax := pax,
             cr_Adults := pax, cr_Children := 0, cr_Notes := ''Check-in mandiri dari laman undangan''\<rparr>))
     | _ \<Rightarrow> go_fail ErrInvalidInput)"

abbreviation empty_guest_request :: guest_create_request where
  "empty_guest_request \<equiv> \<lparr>gcr_FullName = [], gcr_Nickname = [], gcr_Phone = [], gcr_Email = [],
     gcr_Address = [], gcr_City = [], gcr_Country = [], gcr_Language = [], gcr_GuestType = [],
     gcr_Segment = [], gcr_Institution = [], gcr_Title = [], gcr_Relationship = [], gcr_PIC = [],
     gcr_AccessibilityNeeds = [], gcr_DietaryRestrictions = [], gcr_Allergies = [], gcr_Notes = [],
     gcr_ConsentCommunication = False\<rparr>"

definition walkin_event_guest :: "uuid \<Rightarrow> time \<Rightarrow> uuid \<Rightarrow> uuid \<Rightarrow> uuid \<Rightarrow> uuid \<Rightarrow> walkin_request \<Rightarrow> event_guest" where
  "walkin_event_guest i t tenantID eventID guestID createdBy req =
     \<lparr>ID = i, CreatedAt = t, UpdatedAt = t, DeletedAt = None, TenantID = tenantID,
      EventID = eventID, GuestID = guestID, eg_Status = EventGuestStatusActive,
      eg_Source = EventGuestSourceWalkIn, eg_MaxPax = wr_ActualPax req,
      eg_Adults = (if wr_Adults req = 0 \<and> wr_Children req = 0 then wr_ActualPax req else wr_Adults req),
      eg_Children = wr_Children req, eg_PlusOneAllowed = False, eg_Notes = None,
      eg_CreatedBy = createdBy, eg_Guest = None\<rparr>"

definition ProcessWalkin :: "uuid \<Rightarrow> uuid \<Rightarrow> uuid option \<Rightarrow> walkin_request \<Rightarrow> checkin_outcome app" where
  "ProcessWalkin tenantID eventID officerID req =
     (let fullName = TrimSpace (wr_FullName req);
          createdBy = (case officerID of None \<Rightarrow> uuid_Nil | Some o' \<Rightarrow> o') in
      go_guard (fullName = []) ErrInvalidInput (
      go_guard (wr_GuestType req = []) ErrInvalidInput (
      go_bind (NewGuest tenantID createdBy (empty_guest_request\<lparr>gcr_FullName := fullName,
        gcr_GuestType := wr_GuestType req, gcr_Segment := wr_Segment req,
        gcr_Phone := wr_Phone req, gcr_Email := wr_Email req\<rparr>)) (\<lambda>g.
      go_bind (GuestRepository_Create g) (\<lambda>_.
      go_bind NewBase (\<lambda>(i, t).
      go_bind (EventGuestRepository_Create (walkin_event_guest i t tenantID eventID (ID g) createdBy req)) (\<lambda>_.
      performCheckin tenantID eventID (ID g) None officerID
        (empty_checkin_request\<lparr>cr_Method := CheckinMethodWalkin, cr_ActualPax := wr_ActualPax req,
          cr_Adults := wr_Adults req, cr_Children := wr_Children req,
          cr_OverrideReason := wr_OverrideReason req, cr_ApprovedBy := wr_ApprovedBy req,
          cr_Notes := wr_Notes req\<rparr>))))))))"

section \<open>The service: statistics and search\<close>

text \<open>A failing count is an expectation of zero.\<close>

definition estimateTotalExpected :: "(string \<Rightarrow> string \<Rightarrow> bool) \<Rightarrow> uuid \<Rightarrow> uuid \<Rightarrow> int app" where
  "estimateTotalExpected ilike tenantID eventID =
     go_try (EventGuestRepository_Count ilike \<lparr>egl_TenantID = tenantID, egl_EventID = eventID,
       egl_Search = [], egl_Status = EventGuestStatusActive, egl_Page = 0, egl_PerPage = 0\<rparr>) (\<lambda>r.
     go_ret (case r of Inl _ \<Rightarrow> 0 | Inr n \<Rightarrow> n))"

definition CheckinService_GetStats :: "(string \<Rightarrow> string \<Rightarrow> bool) \<Rightarrow> (time \<Rightarrow> time) \<Rightarrow> (time \<Rightarrow> string) \<Rightarrow>
    (float64 \<Rightarrow> float64) \<Rightarrow> uuid \<Rightarrow> uuid \<Rightarrow> checkin_stats app" where
  "CheckinService_GetStats ilike trunc to_char rnd tenantID eventID =
     go_bind (CheckinRepository_CountByEvent tenantID eventID) (\<lambda>totalCheckedIn.
     go_bind (CheckinRepository_CountPaxByEvent tenantID eventID) (\<lambda>totalPax.
     go_bind (CheckinRepository_CountWalkInsByEvent tenantID eventID) (\<lambda>walkIns.
     go_bind (CheckinRepository_CountByGate tenantID eventID) (\<lambda>byGate.
     go_bind (CheckinRepository_CountByMethod tenantID eventID) (\<lambda>byMethod.
     go_bind (CheckinRepository_GetRecent tenantID eventID 20) (\<lambda>recentCheckins.
     go_bind (CheckinRepository_GetPeakHour trunc to_char tenantID eventID) (\<lambda>peakHour.
     go_bind (estimateTotalExpected ilike tenantID eventID) (\<lambda>totalExpected.
     let missing = i64 (totalExpected - totalCheckedIn); noShows = (if missing < 0 then 0 else missing)
     in go_ret \<lparr>cs_TotalExpected = totalExpected, cs_TotalCheckedIn = totalCheckedIn,
          cs_TotalPax = totalPax, cs_WalkIns = walkIns, cs_NoShows = noShows,
          cs_CheckInRate = response_rate rnd totalCheckedIn totalExpected,
          cs_RecentCheckins = recentCheckins, cs_ByGate = byGate, cs_ByMethod = byMethod,
          cs_PeakHour = peakHour\<rparr>))))))))"

definition CheckinService_GetRecent :: "uuid \<Rightarrow> uuid \<Rightarrow> int \<Rightarrow> checkin list app" where
  "CheckinService_GetRecent tenantID eventID n = CheckinRepository_GetRecent tenantID eventID n"

definition maskPhone :: "string \<Rightarrow> string" where
  "maskPhone phone =
     (if length phone \<le> 4 then ''****''
      else replicate (length phone - 4) CHR ''*'' @ drop (length phone - 4) phone)"

text \<open>\<open>strings.Split\<close> at a one-byte separator.\<close>

fun split_at :: "char \<Rightarrow> string \<Rightarrow> string list" where
  "split_at c [] = [[]]"
| "split_at c (x # xs) = (if x = c then [] # split_at c xs
     else (case split_at c xs of [] \<Rightarrow> [[x]] | p # ps \<Rightarrow> (x # p) # ps))"

definition maskEmail :: "string \<Rightarrow> string" where
  "maskEmail email = (case split_at CHR ''@'' email of
       [local', domain] \<Rightarrow>
         if length local' \<le> 2 then ''**@'' @ domain
         else take 2 local' @ replicate (length local' - 2) CHR ''*'' @ ''@'' @ domain
     | _ \<Rightarrow> ''****'')"

text \<open>The masked form of a contact, kept only where it is longer than four bytes.\<close>

definition mask_opt :: "(string \<Rightarrow> string) \<Rightarrow> string option \<Rightarrow> string option" where
  "mask_opt f xo = (case xo of None \<Rightarrow> None | Some x \<Rightarrow> if 4 < length x then Some (f x) else None)"

definition search_result :: "bool \<Rightarrow> guest \<Rightarrow> int \<Rightarrow> bool \<Rightarrow> uuid option \<Rightarrow> string \<Rightarrow> guest_search_result" where
  "search_result msk g maxPax isCheckedIn invitationID rsvpStatus =
     \<lparr>sr_GuestID = ID g, sr_FullName = g_FullName g, sr_Nickname = g_Nickname g,
      sr_Phone = (if msk then mask_opt maskPhone (g_Phone g) else g_Phone g),
      sr_Email = (if msk then mask_opt maskEmail (g_Email g) else g_Email g),
      sr_GuestType = g_GuestType g, sr_Segment = g_Segment g, sr_InvitationID = invitationID,
      sr_RSVPStatus = rsvpStatus, sr_IsCheckedIn = isCheckedIn, sr_MaxPax = maxPax\<rparr>"

text \<open>
  The invitation and RSVP status of a guest; \<open>None\<close> where the loop goes on to the next guest.
\<close>

definition search_status :: "uuid \<Rightarrow> uuid \<Rightarrow> (uuid option \<times> string) option app" where
  "search_status eventID guestID =
     go_try (InvitationRepository_GetByEventAndGuest eventID guestID) (\<lambda>r. case r of
       Inl _ \<Rightarrow> go_ret (Some (None, RSVPStatusNoResponse))
     | Inr iv \<Rightarrow> go_try (RSVPRepository_GetByInvitation (ID iv)) (\<lambda>r'. go_ret (case r' of
         Inr rsvp \<Rightarrow> Some (Some (ID iv), rs_Status rsvp)
       | Inl e \<Rightarrow> if e = ErrRSVPNotFound then Some (Some (ID iv), RSVPStatusNoResponse) else None)))"

fun search_loop :: "uuid \<Rightarrow> uuid \<Rightarrow> bool \<Rightarrow> event_guest list \<Rightarrow> guest_search_result list app" where
  "search_loop tenantID eventID msk [] = go_ret []"
| "search_loop tenantID eventID msk (eg # egs) = (case eg_Guest eg of
     None \<Rightarrow> search_loop tenantID eventID msk egs
   | Some g \<Rightarrow> go_try (CheckinRepository_IsCheckedIn tenantID eventID (ID g)) (\<lambda>r. case r of
       Inl _ \<Rightarrow> search_loop tenantID eventID msk egs
     | Inr isCheckedIn \<Rightarrow> go_bind (search_status eventID (ID g)) (\<lambda>st. case st of
         None \<Rightarrow> search_loop tenantID eventID msk egs
       | Some (invitationID, rsvpStatus) \<Rightarrow>
           go_bind (search_loop tenantID eventID msk egs) (\<lambda>rest.
           go_ret (search_result msk g (eg_MaxPax eg) isCheckedIn invitationID rsvpStatus # rest)))))"

definition SearchGuests :: "(string \<Rightarrow> string \<Rightarrow> bool) \<Rightarrow> uuid \<Rightarrow> uuid \<Rightarrow> string \<Rightarrow> bool \<Rightarrow>
    guest_search_result list app" where
  "SearchGuests ilike tenantID eventID qry maskSensitive =
     (let qry = TrimSpace qry in
      go_guard (qry = []) ErrInvalidInput (
      go_bind (EventGuestRepository_List ilike \<lparr>egl_TenantID = tenantID, egl_EventID = eventID,
        egl_Search = qry, egl_Status = EventGuestStatusActive, egl_Page = 1, egl_PerPage = 50\<rparr>)
      (search_loop tenantID eventID maskSensitive)))"

section \<open>Runs\<close>

lemma CheckinRepository_Create_Inr [go_run]:
  "CheckinRepository_Create c w = (Inr u, w') \<longleftrightarrow> \<not> faults w (pos w) \<and>
     \<not> has_id (ID c) (checkins (store w)) \<and> checkin_row_ok c (store w) \<and>
     w' = (tick w)\<lparr>store := (store w)\<lparr>checkins := checkins (store w) @ [c]\<rparr>\<rparr>"
  by (auto simp: CheckinRepository_Create_def go_run insert_checkin_def)

lemma CheckinRepository_Create_fails: "CheckinRepository_Create c w = (Inl e, w') \<Longrightarrow> w' = tick w"
  by (auto simp: CheckinRepository_Create_def go_run)

lemma IsCheckedIn_Inr [go_run]:
  "CheckinRepository_IsCheckedIn t e g w = (Inr b, w') \<longleftrightarrow> \<not> faults w (pos w) \<and> w' = tick w \<and>
     b = (\<exists>c \<in> set (checkins (store w)). same_visit t e g c)"
  by (auto simp: CheckinRepository_IsCheckedIn_def go_run count_where_pos)

lemma IsCheckedIn_pure: "stays (=) (CheckinRepository_IsCheckedIn t e g)"
  unfolding CheckinRepository_IsCheckedIn_def by (rule unchanged.query_stays)

lemma audit_checkins:
  "LogWithUser u t a et ei ov nv w = (r, w') \<Longrightarrow> checkins (store w') = checkins (store w)"
  by (rule audit_free_tables) (rule LogWithUser_audit_free)

text \<open>What \<open>balance_pax\<close> guarantees once the columns accept the numbers.\<close>

definition pax_ok :: "checkin \<Rightarrow> bool" where
  "pax_ok c \<longleftrightarrow> 1 \<le> ci_ActualPax c \<and> 1 \<le> ci_Adults c \<and> ci_Adults c + ci_Children c = ci_ActualPax c"

lemma success_checkin_sel [simp]:
  "ID (success_checkin i t tn e g eg iv off req) = i"
  "TenantID (success_checkin i t tn e g eg iv off req) = tn"
  "EventID (success_checkin i t tn e g eg iv off req) = e"
  "GuestID (success_checkin i t tn e g eg iv off req) = g"
  "DeletedAt (success_checkin i t tn e g eg iv off req) = None"
  "ci_Status (success_checkin i t tn e g eg iv off req) = CheckinStatusSuccess"
  "ci_Method (success_checkin i t tn e g eg iv off req) = cr_Method req"
  "ci_EventGuestID (success_checkin i t tn e g eg iv off req) = Some eg"
  "ci_InvitationID (success_checkin i t tn e g eg iv off req) = iv"
  "ci_OfficerID (success_checkin i t tn e g eg iv off req) = off"
  "ci_ActualPax (success_checkin i t tn e g eg iv off req) = max 1 (cr_ActualPax req)"
  by (auto simp: success_checkin_def balance_pax_def Let_def)

lemma success_checkin_pax:
  assumes "int4 (ci_Adults c)" "int4 (ci_Children c)" "c = success_checkin i t tn e g eg iv off req"
  shows "pax_ok c"
proof (cases "i64 ((if cr_Adults req < 1 then max 1 (cr_ActualPax req) else cr_Adults req) + cr_Children req)
    = max 1 (cr_ActualPax req)")
  case True
  then have c: "ci_Adults c = (if cr_Adults req < 1 then max 1 (cr_ActualPax req) else cr_Adults req)"
    "ci_Children c = cr_Children req"
    using assms(3) by (auto simp: success_checkin_def balance_pax_def Let_def max_def)
  with True assms(1,2) have "ci_Adults c + ci_Children c = ci_ActualPax c"
    using i64_int4_add [of "ci_Adults c" "ci_Children c"] assms(3) by simp
  with c assms(3) show ?thesis by (simp add: pax_ok_def)
next
  case False
  then show ?thesis using assms(3)
    by (auto simp: success_checkin_def balance_pax_def Let_def max_def pax_ok_def)
qed

text \<open>
  The abstract check-in desk: a request leaves the list of check-ins, adds a refused attempt that
  counts no one, or admits a guest who had not been admitted.
\<close>

inductive desk_step :: "checkin list \<Rightarrow> checkin list \<Rightarrow> bool" where
  idle: "desk_step cs cs"
| refused: "ci_Status c \<noteq> CheckinStatusSuccess \<Longrightarrow> ci_ActualPax c = 0 \<Longrightarrow> ID c \<notin> ID ` set cs \<Longrightarrow>
    desk_step cs (cs @ [c])"
| admitted: "ci_Status c = CheckinStatusSuccess \<Longrightarrow> live c \<Longrightarrow> pax_ok c \<Longrightarrow> ID c \<notin> ID ` set cs \<Longrightarrow>
    (\<forall>x \<in> set cs. \<not> same_visit (TenantID c) (EventID c) (GuestID c) x) \<Longrightarrow> desk_step cs (cs @ [c])"

abbreviation desk :: "db \<Rightarrow> db \<Rightarrow> bool" where
  "desk d d' \<equiv> desk_step (checkins d) (checkins d')"

lemma desk_idle: "checkins d' = checkins d \<Longrightarrow> desk d d'"
  by (simp add: desk_step.idle)

lemma recordFailedCheckin_run:
  assumes "recordFailedCheckin tn e off req st w = (r, w')"
  obtains (kept) i t where "r = Inr (failed_checkin i t tn e off req st,
      Some (if st = CheckinStatusDuplicate then ErrAlreadyExists else ErrInvalidInput))"
      and "store w' = store w"
  | (added) i t where "r = Inr (failed_checkin i t tn e off req st,
      Some (if st = CheckinStatusDuplicate then ErrAlreadyExists else ErrInvalidInput))"
      and "store w' = (store w)\<lparr>checkins := checkins (store w) @ [failed_checkin i t tn e off req st]\<rparr>"
      and "\<not> has_id i (checkins (store w))"
      and "checkin_row_ok (failed_checkin i t tn e off req st) (store w)"
proof (cases "CheckinRepository_Create (failed_checkin (fresh w (Suc (pos w))) (clock w (pos w)) tn e off req st)
    (tick (tick w))")
  case (Pair s v)
  let ?c = "failed_checkin (fresh w (Suc (pos w))) (clock w (pos w)) tn e off req st"
  from assms Pair have r: "r = Inr (?c, Some (if st = CheckinStatusDuplicate then ErrAlreadyExists else ErrInvalidInput))"
    "w' = v" by (auto simp: recordFailedCheckin_def go_bind_run NewBase_def now_def uuid_New_def go_ignore_eq Let_def)
  show thesis
  proof (cases s)
    case (Inl x)
    with Pair r show thesis by (intro kept) (auto dest: CheckinRepository_Create_fails)
  next
    case (Inr u)
    have "ID ?c = fresh w (Suc (pos w))" by (simp add: failed_checkin_def)
    with Inr Pair r show thesis by (intro added) (auto simp: CheckinRepository_Create_Inr)
  qed
qed

lemma failed_checkin_sel [simp]:
  "ID (failed_checkin i t tn e off req st) = i"
  "ci_Status (failed_checkin i t tn e off req st) = st"
  "ci_ActualPax (failed_checkin i t tn e off req st) = 0"
  "GuestID (failed_checkin i t tn e off req st) = (case cr_GuestID req of None \<Rightarrow> uuid_Nil | Some g \<Rightarrow> g)"
  by (simp_all add: failed_checkin_def)

lemma recordFailedCheckin_desk: "st \<noteq> CheckinStatusSuccess \<Longrightarrow> stays desk (recordFailedCheckin tn e off req st)"
  by (rule staysI, erule recordFailedCheckin_run)
    (auto intro!: desk_step.idle desk_step.refused simp: has_id_iff)

text \<open>The three ways a check-in ends.\<close>

lemma performCheckin_run:
  assumes "performCheckin tn e g iv off req w = (r, w')"
  obtains (failed) x where "r = Inl x" and "store w' = store w"
  | (duplicate) v where "recordFailedCheckin tn e off req CheckinStatusDuplicate v = (r, w')"
      and "store v = store w" and "\<exists>c \<in> set (checkins (store w)). same_visit tn e g c"
  | (admitted) i t and eg :: event_guest where "r = Inr (success_checkin i t tn e g (ID eg) iv off req, None)"
      and "audit_free (store w') = audit_free ((store w)\<lparr>checkins := checkins (store w) @
        [success_checkin i t tn e g (ID eg) iv off req]\<rparr>)"
      and "\<not> has_id i (checkins (store w))"
      and "checkin_row_ok (success_checkin i t tn e g (ID eg) iv off req) (store w)"
      and "\<forall>c \<in> set (checkins (store w)). \<not> same_visit tn e g c"
      and "\<exists>ev \<in> set (events (store w)). event_key e tn ev"
      and "(\<exists>row \<in> set (event_guests (store w)). roster_key tn e (ID eg) row \<and> GuestID row = g)"
proof (cases r)
  case (Inl x)
  with assms have "store w' = store w"
    unfolding performCheckin_def Let_def
    by (auto elim!: go_elim dest!: roster.lookup_store
        staysD [OF IsCheckedIn_pure] CheckinRepository_Create_fails elim!: recordFailedCheckin_run
        simp: GetByIDForTenant_Inr GetByIDForTenant_Inl NewBase_run IsCheckedIn_Inr
        split: sum.split_asm if_split_asm)
  with Inl show thesis by (rule failed)
next
  case (Inr y)
  let ?dup = "\<exists>c \<in> set (checkins (store w)). same_visit tn e g c"
  from assms Inr obtain v eg where
    look: "EventGuestRepository_GetByEventAndGuest tn e g (tick w) = (Inr eg, v)"
    and ev: "find (event_key e tn) (events (store w)) \<noteq> None"
    and dup: "\<exists>c \<in> set (checkins (store v)). same_visit tn e g c \<Longrightarrow>
      recordFailedCheckin tn e off req CheckinStatusDuplicate (tick v) = (Inr y, w')"
    and new: "\<not> (\<exists>c \<in> set (checkins (store v)). same_visit tn e g c) \<Longrightarrow>
      \<exists>i t s a b c f h. y = (success_checkin i t tn e g (ID eg) iv off req, None) \<and>
      \<not> has_id i (checkins (store v)) \<and> checkin_row_ok (success_checkin i t tn e g (ID eg) iv off req) (store v) \<and>
      LogWithUser a tn b EntityTypeCheckin i c f ((tick (tick (tick (tick v))))\<lparr>store := (store v)\<lparr>checkins :=
        checkins (store v) @ [success_checkin i t tn e g (ID eg) iv off req]\<rparr>\<rparr>) = (h, w')"
    unfolding performCheckin_def Let_def
    by (clarsimp elim!: go_elim_Inr simp: GetByIDForTenant_Inr NewBase_run IsCheckedIn_Inr
        CheckinRepository_Create_Inr split: sum.split_asm if_split_asm)
      (blast, clarsimp elim!: go_elim_Inr simp: NewBase_run CheckinRepository_Create_Inr, blast)
  from roster.lookup_store [OF look] have v: "store v = store w" by simp
  show thesis
  proof (cases ?dup)
    case True
    with dup v Inr show thesis by (intro duplicate [of "tick v"]) auto
  next
    case False
    with new v obtain i t a b c f h where "y = (success_checkin i t tn e g (ID eg) iv off req, None)"
      "\<not> has_id i (checkins (store w))" "checkin_row_ok (success_checkin i t tn e g (ID eg) iv off req) (store w)"
      "LogWithUser a tn b EntityTypeCheckin i c f ((tick (tick (tick (tick v))))\<lparr>store := (store w)\<lparr>checkins :=
        checkins (store w) @ [success_checkin i t tn e g (ID eg) iv off req]\<rparr>\<rparr>) = (h, w')" by auto
    moreover have "\<exists>row \<in> set (event_guests (store w)). roster_key tn e (ID eg) row \<and> GuestID row = g"
      using roster.lookup_sound [OF look] by (auto simp: roster_key_def)
    ultimately show thesis using False ev Inr
      by (intro admitted [of i t eg]) (auto dest: LogWithUser_audit_free find_Some_D)
  qed
qed

section \<open>Every request is one step of the desk\<close>

abbreviation off_desk :: "db \<Rightarrow> db \<Rightarrow> bool" where
  "off_desk d d' \<equiv> checkins d' = checkins d"

lemma desk_try: "stays off_desk m \<Longrightarrow> (\<And>r. stays desk (f r)) \<Longrightarrow> stays desk (go_try m f)"
  by (simp add: stays_def go_try_run) metis

lemma desk_fail: "stays desk (go_fail e)" and desk_ret: "stays desk (go_ret x)"
  by (simp_all add: stays_def desk_step.idle)

lemma desk_bind: "stays off_desk m \<Longrightarrow> (\<And>x. stays desk (f x)) \<Longrightarrow> stays desk (go_bind m f)"
  unfolding go_bind_def by (rule desk_try) (auto intro: desk_fail split: sum.split)

lemma desk_guard: "stays desk k \<Longrightarrow> stays desk (go_guard c e k)"
  by (simp add: go_guard_def desk_fail)

lemma performCheckin_desk: "stays desk (performCheckin tn e g iv off req)"
proof (rule staysI)
  fix w r and w' :: "db world"
  assume "performCheckin tn e g iv off req w = (r, w')"
  then show "desk (store w) (store w')"
  proof (cases rule: performCheckin_run)
    case (failed x)
    then show ?thesis by (simp add: desk_step.idle)
  next
    case (duplicate v)
    then show ?thesis
      using staysD [OF recordFailedCheckin_desk [of CheckinStatusDuplicate]] by fastforce
  next
    case (admitted i t eg)
    let ?c = "success_checkin i t tn e g (ID eg) iv off req"
    have "checkins (store w') = checkins (store w) @ [?c]"
      using audit_free_tables(11) [OF admitted(2)] by simp
    moreover have "pax_ok ?c"
      using admitted(4) by (intro success_checkin_pax [OF _ _ refl]) (auto simp: checkin_row_ok_def)
    ultimately show ?thesis using admitted(3,5)
      by (auto intro!: desk_step.admitted simp: has_id_iff)
  qed
qed

lemma findGuestByToken_pure: "stays (=) (findGuestByToken tn e token)"
  unfolding findGuestByToken_def EventGuestRepository_GetByID_def GuestRepository_GetByIDForTenant_def
  by (auto intro!: unchanged.all_stays credential.by_hash_stays split: sum.split option.split)

lemma pure_off_desk: "stays (=) m \<Longrightarrow> stays off_desk m"
  by (erule stays_mono) simp

lemmas desk_stays = desk_try desk_bind desk_guard desk_fail performCheckin_desk recordFailedCheckin_desk
  pure_off_desk [OF findGuestByToken_pure] pure_off_desk [OF roster.lookup_stays]
  same.get_one_stays same.NewBase_stays

lemma ProcessQRScan_desk: "stays desk (ProcessQRScan tn e off req)"
  unfolding ProcessQRScan_def Let_def
  by (auto intro!: desk_stays split: sum.split prod.split)

lemma ProcessManualSearch_desk: "stays desk (ProcessManualSearch tn e off req)"
  unfolding ProcessManualSearch_def GuestRepository_GetByIDForTenant_def
  by (auto intro!: desk_stays split: sum.split option.split)

lemma ProcessSelfCheckin_desk: "stays desk (ProcessSelfCheckin ev iv n)"
  unfolding ProcessSelfCheckin_def Let_def by (auto intro!: desk_stays split: option.split)

lemma walkin_inserts_off_desk:
  "stays off_desk (GuestRepository_Create g)" "stays off_desk (EventGuestRepository_Create eg)"
  "stays off_desk (NewGuest tn u greq)"
  unfolding GuestRepository_Create_def EventGuestRepository_Create_def NewGuest_def
  by (auto intro!: same.all_stays same.NewBase_stays simp: insert_guest_def insert_event_guest_def
      split: if_splits)

lemma ProcessWalkin_desk: "stays desk (ProcessWalkin tn e off req)"
  unfolding ProcessWalkin_def Let_def
  by (auto intro!: desk_stays walkin_inserts_off_desk)

section \<open>Properties\<close>

datatype checkin_call =
    Scan uuid uuid "uuid option" checkin_request
  | SelfService "event option" "invitation option" int
  | WalkIn uuid uuid "uuid option" walkin_request

definition serve_checkin :: "checkin_call \<Rightarrow> checkin_outcome app" where
  "serve_checkin c = (case c of
      Scan tenantID eventID officerID req \<Rightarrow> ProcessCheckin tenantID eventID officerID req
    | SelfService event iv pax \<Rightarrow> ProcessSelfCheckin event iv pax
    | WalkIn tenantID eventID officerID req \<Rightarrow> ProcessWalkin tenantID eventID officerID req)"

lemma serve_checkin_desk: "desk_step (checkins (store w)) (checkins (store (snd (serve_checkin c w))))"
proof -
  have "stays desk (serve_checkin c)"
    unfolding serve_checkin_def ProcessCheckin_def
    using ProcessQRScan_desk ProcessManualSearch_desk ProcessSelfCheckin_desk ProcessWalkin_desk
    by (auto intro: desk_fail split: checkin_call.split)
  then show ?thesis by (simp add: stays_def)
qed

text \<open>C23: every check-in request is one step of the abstract desk. Whichever way a request comes in
  (scan, manual search, the public page, walk-in), with any failures, it leaves the list of
  check-ins as it is, or adds one refused attempt that counts no one, or adds one successful
  check-in of a guest who had none for that event, with at least one adult and with adults and
  children that add up to the people counted.\<close>

theorem checkin_calls_refine_desk:
  "desk_step (checkins (store w)) (checkins (store (snd (serve_checkin c w))))"
  by (rule serve_checkin_desk)

text \<open>Keys are distinct, no guest is admitted twice to an event, and admissions are well counted.\<close>

definition admission :: "checkin \<Rightarrow> bool" where
  "admission c \<longleftrightarrow> live c \<and> ci_Status c = CheckinStatusSuccess"

definition checkins_ok :: "checkin list \<Rightarrow> bool" where
  "checkins_ok cs \<longleftrightarrow> distinct (map ID cs)
     \<and> distinct (map (\<lambda>c. (TenantID c, EventID c, GuestID c)) (filter admission cs))
     \<and> (\<forall>c \<in> set cs. if admission c then pax_ok c else live c \<longrightarrow> ci_ActualPax c = 0)"

lemma desk_step_ok: "desk_step cs cs' \<Longrightarrow> checkins_ok cs \<Longrightarrow> checkins_ok cs'"
  by (induction rule: desk_step.induct)
    (auto simp: checkins_ok_def admission_def same_visit_def)

text \<open>C2: no guest is checked in twice. Through every sequence of check-in requests, served one after
  the other for any tenants and events and with any failures, the keys stay distinct, a guest has
  at most one successful check-in per event, each of them counts at least one adult and adds up,
  and refused attempts count no one.\<close>

theorem no_guest_is_checked_in_twice:
  assumes "checkins_ok (checkins (store w))"
  shows "checkins_ok (checkins (store (serve_all (map serve_checkin calls) w)))"
proof (rule serve_all_keeps [where I = "\<lambda>d. checkins_ok (checkins d)"])
  fix m and v :: "db world"
  assume "m \<in> set (map serve_checkin calls)" and "checkins_ok (checkins (store v))"
  then show "checkins_ok (checkins (store (snd (m v))))"
    using desk_step_ok [OF serve_checkin_desk] by auto
qed (rule assms)

definition demo_scan :: checkin_request where
  "demo_scan = empty_checkin_request\<lparr>cr_Method := CheckinMethodQRScan, cr_Token := ''tok'', cr_ActualPax := 2\<rparr>"

definition demo_walkin :: walkin_request where
  "demo_walkin = \<lparr>wr_FullName = ''W'', wr_Phone = [], wr_Email = [], wr_GuestType = ''regular'',
     wr_Segment = [], wr_ActualPax = 2, wr_Adults = 0, wr_Children = 0, wr_Reason = [],
     wr_OverrideReason = [], wr_ApprovedBy = None, wr_Notes = []\<rparr>"

lemma no_guest_is_checked_in_twice_witness:
  "checkins_ok (checkins (store (serve_all (map serve_checkin [Scan 1 3 (Some 2) demo_scan,
     Scan 1 3 (Some 2) demo_scan, WalkIn 1 3 (Some 2) demo_walkin]) (demo_world demo_db))))"
  by (rule no_guest_is_checked_in_twice) (simp add: checkins_ok_def)

text \<open>A token is found with a live invitation of the event for a live guest of the tenant.\<close>

lemma findGuestByToken_Inr:
  assumes "findGuestByToken tn e token w = (Inr (g, iv), w')"
  shows "iv \<in> set (invitations (store w)) \<and> live iv \<and> inv_TokenHash iv = SHA256Hash token
    \<and> EventID iv = e \<and> ID g = GuestID iv \<and> g \<in> set (guests (store w)) \<and> guest_key tn (GuestID iv) g"
proof -
  from assms obtain v v' u where
    look: "InvitationRepository_GetByTokenHash (SHA256Hash token) w = (Inr iv, v)" and "EventID iv = e"
    and g: "GuestRepository_GetByIDForTenant tn (GuestID iv) v' = (Inr g, w')"
    and mid: "(case inv_EventGuestID iv of None \<Rightarrow> go_ret ()
       | Some i \<Rightarrow> go_try (EventGuestRepository_GetByID tn e i) (\<lambda>r.
           case r of Inl _ \<Rightarrow> go_fail ErrInvalidInput | Inr _ \<Rightarrow> go_ret ())) v = (Inr u, v')"
    unfolding findGuestByToken_def
    by (clarsimp elim!: go_elim_Inr split: sum.split_asm)
  have "stays (=) (case inv_EventGuestID iv of None \<Rightarrow> go_ret ()
       | Some i \<Rightarrow> go_try (EventGuestRepository_GetByID tn e i) (\<lambda>r.
           case r of Inl _ \<Rightarrow> go_fail ErrInvalidInput | Inr _ \<Rightarrow> go_ret ()))"
    unfolding EventGuestRepository_GetByID_def
    by (auto intro!: unchanged.all_stays split: option.split sum.split)
  from staysD [OF this mid] credential.by_hash_store [OF look] have "store v' = store w" by simp
  with look g \<open>EventID iv = e\<close> show ?thesis
    by (auto simp: GetByTokenHash_Inr GuestRepository_GetByIDForTenant_Inr guest_key_def dest!: find_Some_D)
qed

text \<open>C32: a scan that admits. The event is live and the tenant's, the scanned token is that of a live
  invitation of this very event, its guest is a live guest of the tenant with a live roster entry
  for the event and had no successful check-in, and exactly the returned check-in is added, for
  that guest and that invitation.\<close>

theorem ProcessQRScan_admits_the_invited_guest:
  assumes "ProcessQRScan tenantID eventID officerID req w = (Inr (c, None), w')"
  shows "\<exists>iv ev g eg. iv \<in> set (invitations (store w)) \<and> live iv
    \<and> inv_TokenHash iv = SHA256Hash (TrimSpace (cr_Token req)) \<and> EventID iv = eventID
    \<and> ev \<in> set (events (store w)) \<and> event_key eventID tenantID ev
    \<and> g \<in> set (guests (store w)) \<and> guest_key tenantID (GuestID iv) g
    \<and> eg \<in> set (event_guests (store w)) \<and> roster_key tenantID eventID (ID eg) eg \<and> GuestID eg = GuestID iv
    \<and> (\<forall>x \<in> set (checkins (store w)). \<not> same_visit tenantID eventID (GuestID iv) x)
    \<and> checkins (store w') = checkins (store w) @ [c]
    \<and> same_visit tenantID eventID (GuestID iv) c \<and> ci_InvitationID c = Some (ID iv)
    \<and> ci_EventGuestID c = Some (ID eg) \<and> ci_ActualPax c = max 1 (cr_ActualPax req)"
proof -
  from assms obtain g iv v where find: "findGuestByToken tenantID eventID (TrimSpace (cr_Token req)) w = (Inr (g, iv), v)"
    and perform: "performCheckin tenantID eventID (ID g) (Some (ID iv)) officerID req v = (Inr (c, None), w')"
    unfolding ProcessQRScan_def Let_def
    by (clarsimp elim!: go_elim_Inr split: sum.split_asm if_split_asm)
      (auto elim: recordFailedCheckin_run split: prod.split_asm)
  have v: "store v = store w" using staysD [OF findGuestByToken_pure find] by simp
  from perform show ?thesis
  proof (cases rule: performCheckin_run)
    case (duplicate u)
    then show ?thesis by (auto elim: recordFailedCheckin_run)
  next
    case (admitted i t eg)
    then obtain ev row where "ev \<in> set (events (store w))" "event_key eventID tenantID ev"
      and "row \<in> set (event_guests (store w))" "roster_key tenantID eventID (ID eg) row" "GuestID row = ID g"
      using v by auto
    moreover have "checkins (store w') = checkins (store w) @ [c]"
      using audit_free_tables(11) [OF admitted(2)] admitted(1) v by simp
    ultimately show ?thesis using findGuestByToken_Inr [OF find] admitted(1,5) v
      by (intro exI [of _ iv] exI [of _ ev] exI [of _ g] exI [of _ row])
        (auto simp: same_visit_def roster_key_def)
  qed simp
qed

lemmas scan_eval = ProcessQRScan_def findGuestByToken_def InvitationRepository_GetByTokenHash_def
  EventGuestRepository_GetByID_def eventGuestSelect_def List.map_filter_def first_row_def toDomain_def
  GuestRepository_GetByIDForTenant_def guest_key_def performCheckin_def
  EventRepository_GetByIDForTenant_def event_key_def with_guest_count_def
  EventGuestRepository_GetByEventAndGuest_def CheckinRepository_IsCheckedIn_def
  CheckinRepository_Create_def insert_checkin_def checkin_row_ok_def has_id_def has_id_opt_def int4_def
  i64_def success_checkin_def balance_pax_def recordFailedCheckin_def TrimSpace_def space_codes_def

lemmas demo_rows = demo_event_def demo_invitation_def demo_tenant_def demo_user_def demo_guest_def
  demo_event_guest_def

lemma demo_scan_run:
  "\<exists>c. fst (ProcessQRScan 1 3 (Some 2) demo_scan (demo_world (demo_db\<lparr>invitations :=
     [demo_invitation\<lparr>inv_Status := st\<rparr>]\<rparr>))) = Inr (c, None)"
  by (simp add: scan_eval go_eval demo_scan_def demo_rows)

lemma ProcessQRScan_admits_the_invited_guest_witness:
  "\<exists>c. checkins (store (snd (ProcessQRScan 1 3 (Some 2) demo_scan (demo_world demo_db)))) = [c]
     \<and> same_visit 1 3 4 c \<and> ci_ActualPax c = 2"
proof -
  let ?m = "ProcessQRScan 1 3 (Some 2) demo_scan"
  have "demo_db = demo_db\<lparr>invitations := [demo_invitation\<lparr>inv_Status := InvitationStatusSent\<rparr>]\<rparr>"
    by (simp add: demo_db_def demo_invitation_def)
  with demo_scan_run [of InvitationStatusSent] obtain c where
    "fst (?m (demo_world demo_db)) = Inr (c, None)" by metis
  from ProcessQRScan_admits_the_invited_guest [OF run_pair [of ?m "demo_world demo_db", OF this]]
  show ?thesis by (auto simp: demo_invitation_def demo_scan_def)
qed

text \<open>the token of another event opens nothing. If the token's hash finds a live invitation of
  a different event, the scan is invalid input and the database is left as it was, whatever the
  request asks for and whichever later statement would fail.\<close>

theorem wrong_event_token_is_refused:
  assumes "TrimSpace (cr_Token req) \<noteq> []"
    and "find (\<lambda>iv. inv_TokenHash iv = SHA256Hash (TrimSpace (cr_Token req)) \<and> live iv)
      (invitations (store w)) = Some iv"
    and "EventID iv \<noteq> eventID" and "\<not> faults w (pos w)"
  shows "ProcessQRScan tenantID eventID officerID req w = (Inl ErrInvalidInput, tick w)"
proof -
  have "findGuestByToken tenantID eventID (TrimSpace (cr_Token req)) w = (Inl ErrInvalidInput, tick w)"
    using assms(2-4) by (simp add: findGuestByToken_def go_try_run go_guard_def get_one_def go_bind_run
        query_def InvitationRepository_GetByTokenHash_def)
  with assms(1) show ?thesis by (simp add: ProcessQRScan_def go_guard_def go_try_run Let_def)
qed

lemma wrong_event_token_is_refused_witness:
  "fst (ProcessQRScan 1 99 (Some 2) demo_scan (demo_world demo_db)) = Inl ErrInvalidInput
    \<and> store (snd (ProcessQRScan 1 99 (Some 2) demo_scan (demo_world demo_db))) = demo_db"
proof -
  have "ProcessQRScan 1 99 (Some 2) demo_scan (demo_world demo_db)
      = (Inl ErrInvalidInput, tick (demo_world demo_db))"
    by (rule wrong_event_token_is_refused [where iv = demo_invitation])
      (simp_all add: demo_scan_def TrimSpace_def space_codes_def List.map_filter_def demo_invitation_def)
  then show ?thesis by simp
qed

text \<open>a scan is admitted whatever the status of its invitation. On a database where it is revoked
  (or anything else), the same scan of its token succeeds: the check-in never looks at the
  status or the expiry that the other uses of a token are refused for.\<close>

theorem QR_scan_admits_revoked_invitation:
  "\<exists>w c w'. invitations (store w) = [demo_invitation\<lparr>inv_Status := InvitationStatusRevoked\<rparr>]
    \<and> fst (InvitationService_ValidateToken ''tok'' w) = Inl ErrInvitationRevoked
    \<and> ProcessQRScan 1 3 (Some 2) demo_scan w = (Inr (c, None), w')"
proof -
  let ?w = "demo_world (demo_db\<lparr>invitations := [demo_invitation\<lparr>inv_Status := InvitationStatusRevoked\<rparr>]\<rparr>)"
  have v: "fst (InvitationService_ValidateToken ''tok'' ?w) = Inl ErrInvitationRevoked"
    by (simp add: ValidateToken_run demo_invitation_def)
  obtain c where c: "fst (ProcessQRScan 1 3 (Some 2) demo_scan ?w) = Inr (c, None)"
    using demo_scan_run by blast
  show ?thesis
    by (rule exI [of _ ?w], rule exI [of _ c], rule exI, intro conjI, simp, rule v, rule run_pair, rule c)
qed

text \<open>failed scans are not recorded. A scan that carries a token and no guest id,
  and is refused as invalid or as a duplicate leaves the list of check-ins as it
  was, as long as no guest has the nil id: the attempt is written with the nil guest, which the
  foreign key rejects, and that error is dropped.\<close>

theorem failed_scans_leave_no_record:
  assumes "cr_GuestID req = None" and "\<forall>g \<in> set (guests (store w)). ID g \<noteq> uuid_Nil"
    and "ProcessQRScan tenantID eventID officerID req w = (Inr (c, Some e), w')"
  shows "checkins (store w') = checkins (store w)"
proof -
  have rec: "store v' = store v"
    if "recordFailedCheckin tenantID eventID officerID req st v = (r, v')" and "store v = store w"
    for st r and v v' :: "db world"
    using that(1)
  proof (cases rule: recordFailedCheckin_run)
    case (added i t)
    then have "has_id uuid_Nil (guests (store w))"
      using assms(1) that(2) by (simp add: checkin_row_ok_def)
    with assms(2) show ?thesis by (auto simp: has_id_iff)
  qed
  from assms(3) obtain r v where find: "findGuestByToken tenantID eventID (TrimSpace (cr_Token req)) w = (r, v)"
    and rest: "(case r of Inl e \<Rightarrow> if e = ErrNotFound
          then recordFailedCheckin tenantID eventID officerID req CheckinStatusInvalid else go_fail e
      | Inr (g, iv) \<Rightarrow> performCheckin tenantID eventID (ID g) (Some (ID iv)) officerID req) v = (Inr (c, Some e), w')"
    unfolding ProcessQRScan_def Let_def by (clarsimp elim!: go_elim_Inr)
  have v: "store v = store w" using staysD [OF findGuestByToken_pure find] by simp
  show ?thesis
  proof (cases r)
    case (Inl x)
    with rest v show ?thesis by (auto dest: rec split: if_split_asm)
  next
    case (Inr p)
    obtain g iv where "p = (g, iv)" by (cases p)
    with rest Inr have "performCheckin tenantID eventID (ID g) (Some (ID iv)) officerID req v = (Inr (c, Some e), w')"
      by simp
    then show ?thesis by (cases rule: performCheckin_run) (use v in \<open>auto dest: rec\<close>)
  qed
qed

lemma failed_scans_leave_no_record_witness:
  "checkins (store (snd (ProcessQRScan 1 3 (Some 2) (demo_scan\<lparr>cr_Token := ''nope''\<rparr>)
     (demo_world (demo_db\<lparr>invitations := []\<rparr>))))) = []"
proof -
  let ?m = "ProcessQRScan 1 3 (Some 2) (demo_scan\<lparr>cr_Token := ''nope''\<rparr>)"
  let ?w = "demo_world (demo_db\<lparr>invitations := []\<rparr>)"
  have "\<exists>c e. fst (?m ?w) = Inr (c, Some e)"
    by (simp add: scan_eval go_eval demo_scan_def demo_rows)
  then obtain c e where "fst (?m ?w) = Inr (c, Some e)" by blast
  from failed_scans_leave_no_record [OF _ _ run_pair [of ?m ?w, OF this]] show ?thesis
    by (simp add: demo_scan_def demo_guest_def)
qed

lemma GuestRepository_Create_Inr [go_run]:
  "GuestRepository_Create g w = (Inr u, w') \<longleftrightarrow> \<not> faults w (pos w) \<and>
     insert_guest g (clock w (pos w), fresh w (pos w)) (store w) \<noteq> None \<and>
     w' = (tick w)\<lparr>store := (store w)\<lparr>guests := guests (store w) @ [g]\<rparr>\<rparr>"
  by (auto simp: GuestRepository_Create_def go_run insert_guest_def)

lemma NewGuest_Inr:
  "NewGuest tn u greq w = (Inr g, w') \<Longrightarrow> w' = tick (tick w) \<and> live g \<and> TenantID g = tn
     \<and> g_FullName g = gcr_FullName greq \<and> g_GuestType g = gcr_GuestType greq \<and> g_CreatedBy g = u"
  by (auto simp: NewGuest_def go_run)

lemma walkin_event_guest_sel [simp]:
  "ID (walkin_event_guest i t tn e g u req) = i" "TenantID (walkin_event_guest i t tn e g u req) = tn"
  "EventID (walkin_event_guest i t tn e g u req) = e" "GuestID (walkin_event_guest i t tn e g u req) = g"
  "DeletedAt (walkin_event_guest i t tn e g u req) = None"
  "eg_Status (walkin_event_guest i t tn e g u req) = EventGuestStatusActive"
  "eg_Source (walkin_event_guest i t tn e g u req) = EventGuestSourceWalkIn"
  "eg_MaxPax (walkin_event_guest i t tn e g u req) = wr_ActualPax req"
  "eg_Guest (walkin_event_guest i t tn e g u req) = None"
  "eg_CreatedBy (walkin_event_guest i t tn e g u req) = u"
  by (simp_all add: walkin_event_guest_def)

lemma insert_event_guest_needs:
  "insert_event_guest eg srv d = Some x \<Longrightarrow> 0 < eg_MaxPax eg \<and> has_id (eg_CreatedBy eg) (users d)"
  by (auto simp: insert_event_guest_def split: if_splits)

text \<open>C36: a walk-in. When it succeeds, exactly one guest, one roster entry and one successful check-in
  are added: a live guest of the tenant with the trimmed name, the guest's active entry on the
  event's roster with the walk-in source, and the returned check-in that points to both. It takes
  an existing user as the creator and counts at least one person.\<close>

theorem ProcessWalkin_registers_and_admits:
  assumes "ProcessWalkin tenantID eventID officerID req w = (Inr (c, None), w')"
  shows "\<exists>g eg. guests (store w') = guests (store w) @ [g] \<and> live g \<and> TenantID g = tenantID
    \<and> g_FullName g = TrimSpace (wr_FullName req) \<and> g_FullName g \<noteq> []
    \<and> event_guests (store w') = event_guests (store w) @ [eg] \<and> live eg \<and> TenantID eg = tenantID
    \<and> EventID eg = eventID \<and> GuestID eg = ID g \<and> eg_Status eg = EventGuestStatusActive
    \<and> eg_Source eg = EventGuestSourceWalkIn \<and> eg_MaxPax eg = wr_ActualPax req \<and> 1 \<le> wr_ActualPax req
    \<and> checkins (store w') = checkins (store w) @ [c] \<and> same_visit tenantID eventID (ID g) c
    \<and> ci_EventGuestID c = Some (ID eg) \<and> ci_Method c = CheckinMethodWalkin
    \<and> ci_ActualPax c = wr_ActualPax req \<and> ci_OfficerID c = officerID
    \<and> has_id (case officerID of None \<Rightarrow> uuid_Nil | Some u \<Rightarrow> u) (users (store w))"
proof -
  let ?u = "case officerID of None \<Rightarrow> uuid_Nil | Some u \<Rightarrow> u"
  let ?greq = "empty_guest_request\<lparr>gcr_FullName := TrimSpace (wr_FullName req), gcr_GuestType := wr_GuestType req,
    gcr_Segment := wr_Segment req, gcr_Phone := wr_Phone req, gcr_Email := wr_Email req\<rparr>"
  let ?creq = "empty_checkin_request\<lparr>cr_Method := CheckinMethodWalkin, cr_ActualPax := wr_ActualPax req,
          cr_Adults := wr_Adults req, cr_Children := wr_Children req,
          cr_OverrideReason := wr_OverrideReason req, cr_ApprovedBy := wr_ApprovedBy req,
          cr_Notes := wr_Notes req\<rparr>"
  from assms obtain g v1 v2 i t v4 where name: "TrimSpace (wr_FullName req) \<noteq> []"
    and g: "NewGuest tenantID ?u ?greq w = (Inr g, v1)"
    and cg: "GuestRepository_Create g v1 = (Inr (), v2)"
    and ceg: "EventGuestRepository_Create (walkin_event_guest i t tenantID eventID (ID g) ?u req) (tick (tick v2)) = (Inr (), v4)"
    and perform: "performCheckin tenantID eventID (ID g) None officerID ?creq v4 = (Inr (c, None), w')"
    unfolding ProcessWalkin_def Let_def
    by (clarsimp elim!: go_elim_Inr simp: NewBase_run)
  let ?eg = "(walkin_event_guest i t tenantID eventID (ID g) ?u req)\<lparr>eg_Guest := None, DeletedAt := None\<rparr>"
  from NewGuest_Inr [OF g] cg have v2: "store v2 = (store w)\<lparr>guests := guests (store w) @ [g]\<rparr>"
    by (auto simp: GuestRepository_Create_Inr)
  with ceg have v4: "store v4 = (store w)\<lparr>guests := guests (store w) @ [g], event_guests := event_guests (store w) @ [?eg]\<rparr>"
    by (auto simp: EventGuestRepository_Create_Inr)
  from ceg obtain srv x where
    "insert_event_guest (walkin_event_guest i t tenantID eventID (ID g) ?u req) srv (store v2) = Some x"
    by (auto simp: EventGuestRepository_Create_Inr)
  from insert_event_guest_checks [OF this] insert_event_guest_needs [OF this] v2
  have pax: "0 < wr_ActualPax req \<and> has_id ?u (users (store w))"
    and new: "\<forall>r \<in> set (event_guests (store w)). \<not> (live r \<and> EventID r = eventID \<and> GuestID r = ID g)"
    by auto
  from perform show ?thesis
  proof (cases rule: performCheckin_run)
    case (duplicate u)
    then show ?thesis by (auto elim: recordFailedCheckin_run)
  next
    case (admitted j t' eg)
    from admitted(7) new v4 have "ID eg = i" by (auto simp: roster_key_def)
    moreover have "guests (store w') = guests (store w) @ [g]" "event_guests (store w') = event_guests (store w) @ [?eg]"
      "checkins (store w') = checkins (store w) @ [c]"
      using audit_free_tables(6,7,11) [OF admitted(2)] admitted(1) v4 by simp_all
    ultimately show ?thesis using admitted(1) pax name NewGuest_Inr [OF g]
      by (intro exI [of _ g] exI [of _ ?eg]) (auto simp: same_visit_def)
  qed simp
qed

lemma ProcessWalkin_registers_and_admits_witness:
  "\<exists>g c. guests (store (snd (ProcessWalkin 1 3 (Some 2) demo_walkin (demo_world demo_db)))) =
      [demo_guest 4, demo_guest 5, g]
    \<and> checkins (store (snd (ProcessWalkin 1 3 (Some 2) demo_walkin (demo_world demo_db)))) = [c]
    \<and> GuestID c = ID g \<and> ci_ActualPax c = 2"
proof -
  let ?m = "ProcessWalkin 1 3 (Some 2) demo_walkin"
  have "\<exists>c. fst (?m (demo_world demo_db)) = Inr (c, None)"
    by (simp add: ProcessWalkin_def NewGuest_def GuestRepository_Create_def insert_guest_def
        EventGuestRepository_Create_def insert_event_guest_def walkin_event_guest_def
        IsValidEventGuestSource_def scan_eval go_eval demo_walkin_def demo_rows)
  then obtain c where "fst (?m (demo_world demo_db)) = Inr (c, None)" by blast
  from ProcessWalkin_registers_and_admits [OF run_pair [of ?m "demo_world demo_db", OF this]]
  show ?thesis by (auto simp: demo_walkin_def same_visit_def)
qed

lemma sum_list_sort_key: "sum_list (map f (sort_key k xs)) = sum_list (map f xs)" for f :: "'a \<Rightarrow> int"
  using mset_sort [of k xs] by (metis mset_map sum_mset_sum_list)

lemma counts_per_value:
  "finite S \<Longrightarrow> f ` set xs \<subseteq> S \<Longrightarrow> (\<Sum>m \<in> S. int (length (filter (\<lambda>x. f x = m) xs))) = int (length xs)"
proof (induction xs)
  case (Cons x xs)
  have "(\<Sum>m \<in> S. int (length (filter (\<lambda>x. f x = m) (x # xs)))) =
      (\<Sum>m \<in> S. (if f x = m then 1 else 0) + int (length (filter (\<lambda>x. f x = m) xs)))"
    by (rule sum.cong) auto
  also have "\<dots> = (\<Sum>m \<in> S. if f x = m then 1 else 0) + int (length xs)"
    using Cons by (simp add: sum.distrib)
  finally show ?case using Cons.prems by simp
qed simp

lemma successes_distinct:
  assumes "checkins_ok (checkins d)"
  shows "distinct (map GuestID (successes t e d))"
proof -
  have "successes t e d = filter (\<lambda>c. TenantID c = t \<and> EventID c = e \<and> on_roster d c) (filter admission (checkins d))"
    by (auto simp: successes_def admission_def intro: filter_cong)
  moreover have "distinct (map (\<lambda>c. (TenantID c, EventID c, GuestID c)) (filter admission (checkins d)))"
    using assms by (simp add: checkins_ok_def)
  ultimately have "distinct (map (\<lambda>c. (TenantID c, EventID c, GuestID c)) (successes t e d))"
    using distinct_map_filter by (simp only:)
  moreover have "\<forall>c \<in> set (successes t e d). TenantID c = t \<and> EventID c = e"
    by (simp add: successes_def)
  ultimately show ?thesis by (auto simp: distinct_map inj_on_def)
qed

lemma count_guests_distinct: "distinct (map GuestID cs) \<Longrightarrow> count_guests (filter p cs) = int (length (filter p cs))"
  by (simp add: count_guests_def distinct_map_filter distinct_remdups_id)

lemma length_le_sum: "(\<forall>c \<in> set cs. 1 \<le> f c) \<Longrightarrow> int (length cs) \<le> sum_list (map f cs)" for f :: "'a \<Rightarrow> int"
  by (induction cs) auto

lemma by_method_adds_up:
  assumes "distinct (map GuestID cs)"
  shows "sum_list (map ms_Count (sort_key k (map (\<lambda>m.
       \<lparr>ms_Method = m, ms_Count = count_guests (filter (\<lambda>c. ci_Method c = m) cs)\<rparr>)
       (remdups (map ci_Method cs))))) = int (length cs)"
  using counts_per_value [of "set (remdups (map ci_Method cs))" ci_Method cs]
  by (simp add: sum_list_sort_key comp_def count_guests_distinct [OF assms] sum_list_distinct_conv_sum_set)

text \<open>the figures of the event day. They change nothing; with check-ins kept consistent, the
  people counted are at least the guests checked in, the guests per method add up to the guests
  checked in, walk-ins are among them, no-shows are never negative, at most twenty recent
  check-ins are listed, and the rate is zero where no one is expected.\<close>

theorem stats_are_consistent:
  assumes "CheckinService_GetStats ilike trunc to_char rnd tenantID eventID w = (Inr s, w')"
    and "checkins_ok (checkins (store w))"
  shows "store w' = store w
    \<and> cs_TotalCheckedIn s = int (length (successes tenantID eventID (store w)))
    \<and> cs_TotalCheckedIn s \<le> cs_TotalPax s
    \<and> sum_list (map ms_Count (cs_ByMethod s)) = cs_TotalCheckedIn s
    \<and> 0 \<le> cs_WalkIns s \<and> cs_WalkIns s \<le> cs_TotalCheckedIn s
    \<and> 0 \<le> cs_NoShows s \<and> length (cs_RecentCheckins s) \<le> 20
    \<and> (cs_TotalExpected s \<le> 0 \<longrightarrow> cs_CheckInRate s = 0)"
proof -
  let ?cs = "successes tenantID eventID (store w)"
  have dist: "distinct (map GuestID ?cs)" by (rule successes_distinct [OF assms(2)])
  have pax: "\<forall>c \<in> set ?cs. 1 \<le> ci_ActualPax c"
    using assms(2) by (auto simp: successes_def checkins_ok_def admission_def pax_ok_def)
  have pure: "stays (=) (CheckinService_GetStats ilike trunc to_char rnd tenantID eventID)"
    unfolding CheckinService_GetStats_def CheckinRepository_CountByEvent_def CheckinRepository_CountPaxByEvent_def
      CheckinRepository_CountWalkInsByEvent_def CheckinRepository_CountByGate_def CheckinRepository_CountByMethod_def
      CheckinRepository_GetRecent_def CheckinRepository_GetPeakHour_def estimateTotalExpected_def
      EventGuestRepository_Count_def Let_def
    by (auto intro!: unchanged.all_stays)
  from assms(1) obtain expected gates hour where s:
    "cs_TotalCheckedIn s = count_guests ?cs" "cs_TotalPax s = sum_list (map ci_ActualPax ?cs)"
    "cs_WalkIns s = count_guests (filter (\<lambda>c. ci_Method c = CheckinMethodWalkin) ?cs)"
    "cs_ByMethod s = sort_key (\<lambda>s. - ms_Count s) (map (\<lambda>m.
       \<lparr>ms_Method = m, ms_Count = count_guests (filter (\<lambda>c. ci_Method c = m) ?cs)\<rparr>)
       (remdups (map ci_Method ?cs)))"
    "0 \<le> cs_NoShows s" "length (cs_RecentCheckins s) \<le> 20"
    "cs_CheckInRate s = response_rate rnd (cs_TotalCheckedIn s) (cs_TotalExpected s)"
    unfolding CheckinService_GetStats_def CheckinRepository_CountByEvent_def CheckinRepository_CountPaxByEvent_def
      CheckinRepository_CountWalkInsByEvent_def CheckinRepository_CountByGate_def CheckinRepository_CountByMethod_def
      CheckinRepository_GetRecent_def CheckinRepository_GetPeakHour_def estimateTotalExpected_def Let_def
    by (clarsimp elim!: go_elim_Inr simp: query_eq split: if_split_asm)
  show ?thesis
    using s staysD [OF pure assms(1)] count_guests_distinct [OF dist, of "\<lambda>_. True"]
      count_guests_distinct [OF dist, of "\<lambda>c. ci_Method c = CheckinMethodWalkin"]
      length_le_sum [OF pax] by_method_adds_up [OF dist]
    by (simp add: response_rate_def)
qed

definition admitted_db :: db where
  "admitted_db = demo_db\<lparr>checkins := [success_checkin 30 0 1 3 4 6 (Some 8) (Some 2) demo_scan]\<rparr>"

lemma stats_are_consistent_witness:
  "\<exists>s. fst (CheckinService_GetStats (\<lambda>_ _. True) (\<lambda>t. t) (\<lambda>_. []) (\<lambda>x. x) 1 3 (demo_world admitted_db)) = Inr s
     \<and> cs_TotalCheckedIn s = 1 \<and> sum_list (map ms_Count (cs_ByMethod s)) = 1"
proof -
  let ?m = "CheckinService_GetStats (\<lambda>_ _. True) (\<lambda>t. t) (\<lambda>_. []) (\<lambda>x. x) 1 3"
  have "\<exists>s. fst (?m (demo_world admitted_db)) = Inr s"
    unfolding CheckinService_GetStats_def CheckinRepository_CountByEvent_def CheckinRepository_CountPaxByEvent_def
      CheckinRepository_CountWalkInsByEvent_def CheckinRepository_CountByGate_def CheckinRepository_CountByMethod_def
      CheckinRepository_GetRecent_def CheckinRepository_GetPeakHour_def estimateTotalExpected_def
      EventGuestRepository_Count_def Let_def
    by (simp add: go_eval)
  then obtain s where s: "fst (?m (demo_world admitted_db)) = Inr s" by blast
  have "checkins_ok (checkins admitted_db)"
    by (simp add: admitted_db_def checkins_ok_def admission_def demo_scan_def pax_ok_def success_checkin_def
        balance_pax_def i64_def)
  moreover have "length (successes 1 3 admitted_db) = 1"
    by (simp add: admitted_db_def successes_def demo_scan_def success_checkin_def balance_pax_def i64_def
        on_roster_def demo_event_guest_def)
  ultimately show ?thesis
    using s stats_are_consistent [OF run_pair [of ?m "demo_world admitted_db", OF s]] by auto
qed

text \<open>
  What a masked contact shows of the contact of the guest: the last four bytes of a phone number, each
  other byte a star; of an address with one at-sign its domain and the first two bytes before it, where
  there are more, and of any other address nothing.
\<close>

definition masked_phone :: "string \<Rightarrow> string \<Rightarrow> bool" where
  "masked_phone p x \<longleftrightarrow>
     (\<exists>hidden tl. p = hidden @ tl \<and> length tl = 4 \<and> hidden \<noteq> [] \<and> x = replicate (length hidden) CHR ''*'' @ tl)"

definition masked_email :: "string \<Rightarrow> string \<Rightarrow> bool" where
  "masked_email p x \<longleftrightarrow>
     (if length (filter (\<lambda>c. c = CHR ''@'') p) = 1
      then \<exists>a b. p = a @ CHR ''@'' # b \<and> CHR ''@'' \<notin> set a \<and>
        x = (if length a \<le> 2 then ''**'' else take 2 a @ replicate (length a - 2) CHR ''*'') @ CHR ''@'' # b
      else x = ''****'')"

lemma maskPhone_masked: "4 < length p \<Longrightarrow> masked_phone p (maskPhone p)"
  unfolding masked_phone_def maskPhone_def
  by (rule exI [of _ "take (length p - 4) p"], rule exI [of _ "drop (length p - 4) p"]) auto

lemma split_at_length: "length (split_at c xs) = Suc (length (filter (\<lambda>x. x = c) xs))"
  by (induction xs) (auto split: list.split)

lemma split_at_one: "c \<notin> set xs \<Longrightarrow> split_at c xs = [xs]"
  by (induction xs) auto

lemma split_at_two: "c \<notin> set a \<Longrightarrow> split_at c (a @ c # b) = a # split_at c b"
  by (induction a) auto

lemma maskEmail_masked: "masked_email p (maskEmail p)"
proof (cases "length (filter (\<lambda>c. c = CHR ''@'') p) = 1")
  case True
  then have "filter (\<lambda>c. c = CHR ''@'') p \<noteq> []" by auto
  then have "CHR ''@'' \<in> set p" by (auto simp: filter_empty_conv)
  then obtain a b where p: "p = a @ CHR ''@'' # b" "CHR ''@'' \<notin> set a" by (meson split_list_first)
  with True have b: "CHR ''@'' \<notin> set b" by (auto simp: filter_empty_conv)
  have "split_at CHR ''@'' p = [a, b]" using p b by (simp add: split_at_two split_at_one)
  then have "maskEmail p = (if length a \<le> 2 then ''**'' else take 2 a @ replicate (length a - 2) CHR ''*'') @ CHR ''@'' # b"
    by (simp add: maskEmail_def)
  with True p show ?thesis unfolding masked_email_def by auto
next
  case False
  then have "length (split_at CHR ''@'' p) \<noteq> 2" by (simp add: split_at_length)
  then have "maskEmail p = ''****''" by (auto simp: maskEmail_def split: list.split)
  with False show ?thesis by (simp add: masked_email_def)
qed

lemma search_result_masked:
  "(\<forall>x. sr_Phone (search_result True g n b iv st) = Some x \<longrightarrow> (\<exists>p. g_Phone g = Some p \<and> masked_phone p x))
   \<and> (\<forall>x. sr_Email (search_result True g n b iv st) = Some x \<longrightarrow> (\<exists>p. g_Email g = Some p \<and> masked_email p x))"
  by (auto simp: search_result_def mask_opt_def maskPhone_masked maskEmail_masked split: option.splits if_splits)

lemma search_status_pure: "stays (=) (search_status e g)"
  unfolding search_status_def InvitationRepository_GetByEventAndGuest_def RSVPRepository_GetByInvitation_def
  by (auto intro!: unchanged.all_stays split: sum.split)

lemma search_loop_pure: "stays (=) (search_loop tn e m egs)"
proof (induction egs)
  case (Cons eg egs)
  then show ?case
    by (auto intro!: unchanged.all_stays IsCheckedIn_pure search_status_pure split: option.split sum.split)
qed (simp add: stays_def)

text \<open>Every result is that of an entry of the list, with the check-in state at that moment.\<close>

lemma search_loop_results:
  assumes "search_loop tn e m egs w = (Inr rs, w')"
  shows "length rs \<le> length egs \<and> (\<forall>r \<in> set rs. \<exists>eg \<in> set egs. \<exists>g iv st. eg_Guest eg = Some g \<and>
    r = search_result m g (eg_MaxPax eg) (\<exists>c \<in> set (checkins (store w)). same_visit tn e (ID g) c) iv st)"
  using assms
proof (induction egs arbitrary: w rs)
  case (Cons eg egs)
  have IH: "length qs \<le> length egs \<and> (\<forall>r \<in> set qs. \<exists>eg \<in> set egs. \<exists>g iv st. eg_Guest eg = Some g \<and>
      r = search_result m g (eg_MaxPax eg) (\<exists>c \<in> set (checkins (store w)). same_visit tn e (ID g) c) iv st)"
    if "search_loop tn e m egs v = (Inr qs, w')" "store v = store w" for qs v
    using Cons.IH [OF that(1)] that(2) by simp
  show ?case
  proof (cases "eg_Guest eg")
    case None
    with Cons.prems IH [of w rs] show ?thesis by fastforce
  next
    case (Some g)
    with Cons.prems obtain look v where look: "CheckinRepository_IsCheckedIn tn e (ID g) w = (look, v)"
      and rest: "(case look of Inl _ \<Rightarrow> search_loop tn e m egs
        | Inr b \<Rightarrow> go_bind (search_status e (ID g)) (\<lambda>st. case st of
            None \<Rightarrow> search_loop tn e m egs
          | Some (iv, rst) \<Rightarrow> go_bind (search_loop tn e m egs) (\<lambda>rest.
             go_ret (search_result m g (eg_MaxPax eg) b iv rst # rest)))) v = (Inr rs, w')"
      by (auto elim!: go_try_elim)
    have v: "store v = store w" using staysD [OF IsCheckedIn_pure look] by simp
    consider "search_loop tn e m egs v = (Inr rs, w')"
      | b u where "look = Inr b" "search_loop tn e m egs u = (Inr rs, w')" "store u = store w"
      | b u iv st qs where "look = Inr b" "search_loop tn e m egs u = (Inr qs, w')" "store u = store w"
          "rs = search_result m g (eg_MaxPax eg) b iv st # qs"
      using rest v
      by (auto elim!: go_bind_elim_Inr dest!: staysD [OF search_status_pure] split: sum.split_asm option.split_asm)
    then show ?thesis
    proof cases
      case 3
      from look 3(1) have "b = (\<exists>c \<in> set (checkins (store w)). same_visit tn e (ID g) c)"
        by (simp add: IsCheckedIn_Inr)
      with 3 IH [OF 3(2,3)] Some show ?thesis by auto
    qed (use IH v in fastforce)+
  qed
qed simp

text \<open>C40: the search at the desk. It changes nothing and lists at most fifty results, each for a guest of the
  tenant with an active entry on the event's roster and with whether the guest is checked in. For an officer
  who may not see contact data, a phone number that is shown is the guest's own with every byte but the last
  four replaced by a star, and an address that is shown is the guest's own domain behind stars and at most
  the first two bytes of its local part, or four stars when it has not exactly one at-sign.\<close>

theorem SearchGuests_masks_contacts:
  assumes "SearchGuests ilike tenantID eventID qry True w = (Inr rs, w')"
  shows "store w' = store w \<and> length rs \<le> 50
    \<and> (\<forall>r \<in> set rs.
        (sr_IsCheckedIn r \<longleftrightarrow> (\<exists>c \<in> set (checkins (store w)). same_visit tenantID eventID (sr_GuestID r) c))
        \<and> (\<exists>eg \<in> set (event_guests (store w)). TenantID eg = tenantID \<and> EventID eg = eventID \<and> live eg
            \<and> GuestID eg = sr_GuestID r \<and> eg_Status eg = EventGuestStatusActive)
        \<and> (\<exists>g \<in> set (guests (store w)). ID g = sr_GuestID r \<and> TenantID g = tenantID \<and> g_FullName g = sr_FullName r
            \<and> (\<forall>x. sr_Phone r = Some x \<longrightarrow> (\<exists>p. g_Phone g = Some p \<and> masked_phone p x))
            \<and> (\<forall>x. sr_Email r = Some x \<longrightarrow> (\<exists>p. g_Email g = Some p \<and> masked_email p x))))"
proof -
  let ?p = "\<lparr>egl_TenantID = tenantID, egl_EventID = eventID, egl_Search = TrimSpace qry,
    egl_Status = EventGuestStatusActive, egl_Page = 1, egl_PerPage = 50\<rparr>"
  from assms obtain egs v where list: "EventGuestRepository_List ilike ?p w = (Inr egs, v)"
    and loop: "search_loop tenantID eventID True egs v = (Inr rs, w')"
    unfolding SearchGuests_def Let_def by (clarsimp elim!: go_elim_Inr)
  from list have v: "store v = store w" and len: "length egs \<le> 50"
    and egs: "set egs \<subseteq> set (eventGuestSelect (eventGuestWhere ilike ?p) (store w))"
    by (auto simp: EventGuestRepository_List_def Let_def clamp_params_def get_one_Inr limit_offset_def
        split: if_split_asm dest!: in_set_takeD in_set_dropD)
  have row: "(\<exists>eg \<in> set (event_guests (store w)). TenantID eg = tenantID \<and> EventID eg = eventID \<and> live eg
      \<and> GuestID eg = ID g \<and> eg_Status eg = EventGuestStatusActive)
    \<and> (\<exists>g' \<in> set (guests (store w)). ID g' = ID g \<and> TenantID g' = tenantID \<and> g_FullName g' = g_FullName g
        \<and> g_Phone g' = g_Phone g \<and> g_Email g' = g_Email g)"
    if "eg \<in> set egs" "eg_Guest eg = Some g" for eg g
  proof -
    from that(1) egs have "eg \<in> set (eventGuestSelect (eventGuestWhere ilike ?p) (store w))" by blast
    then obtain eg' g' where e: "eg' \<in> set (event_guests (store w))"
      and g': "find (\<lambda>g. ID g = GuestID eg' \<and> TenantID g = TenantID eg') (guests (store w)) = Some g'"
      and wh: "eventGuestWhere ilike ?p eg' g'" and eg: "eg = toDomain eg' g'"
      unfolding in_eventGuestSelect by blast
    from find_Some_D [OF g'] e wh eg that(2) show ?thesis
      by (auto simp: eventGuestWhere_def toDomain_def)
  qed
  have sel: "sr_GuestID (search_result True g n b iv st) = ID g" "sr_IsCheckedIn (search_result True g n b iv st) = b"
    "sr_FullName (search_result True g n b iv st) = g_FullName g"
    for g n b iv st by (simp_all add: search_result_def)
  have "(sr_IsCheckedIn r \<longleftrightarrow> (\<exists>c \<in> set (checkins (store w)). same_visit tenantID eventID (sr_GuestID r) c))
      \<and> (\<exists>eg \<in> set (event_guests (store w)). TenantID eg = tenantID \<and> EventID eg = eventID \<and> live eg
          \<and> GuestID eg = sr_GuestID r \<and> eg_Status eg = EventGuestStatusActive)
      \<and> (\<exists>g \<in> set (guests (store w)). ID g = sr_GuestID r \<and> TenantID g = tenantID \<and> g_FullName g = sr_FullName r
          \<and> (\<forall>x. sr_Phone r = Some x \<longrightarrow> (\<exists>p. g_Phone g = Some p \<and> masked_phone p x))
          \<and> (\<forall>x. sr_Email r = Some x \<longrightarrow> (\<exists>p. g_Email g = Some p \<and> masked_email p x)))" if "r \<in> set rs" for r
  proof -
    from search_loop_results [OF loop] that obtain eg g iv st where eg: "eg \<in> set egs" "eg_Guest eg = Some g"
      and r: "r = search_result True g (eg_MaxPax eg) (\<exists>c \<in> set (checkins (store v)). same_visit tenantID eventID (ID g) c) iv st"
      by blast
    from row [OF eg] obtain g' where "g' \<in> set (guests (store w))" "ID g' = ID g" "TenantID g' = tenantID"
      "g_FullName g' = g_FullName g" "g_Phone g' = g_Phone g" "g_Email g' = g_Email g" by blast
    then have "\<exists>g \<in> set (guests (store w)). ID g = sr_GuestID r \<and> TenantID g = tenantID \<and> g_FullName g = sr_FullName r
          \<and> (\<forall>x. sr_Phone r = Some x \<longrightarrow> (\<exists>p. g_Phone g = Some p \<and> masked_phone p x))
          \<and> (\<forall>x. sr_Email r = Some x \<longrightarrow> (\<exists>p. g_Email g = Some p \<and> masked_email p x))"
      using search_result_masked [of g "eg_MaxPax eg" "\<exists>c \<in> set (checkins (store v)). same_visit tenantID eventID (ID g) c" iv st]
      by (intro bexI [of _ g']) (simp_all add: r sel)
    with row [OF eg] show ?thesis by (simp add: r sel v)
  qed
  with search_loop_results [OF loop] len v staysD [OF search_loop_pure loop] show ?thesis by auto
qed

definition phoned_db :: db where
  "phoned_db = demo_db\<lparr>guests := [(demo_guest 4)\<lparr>g_Phone := Some ''+62812345678'', g_Email := Some ''ada@x.id''\<rparr>, demo_guest 5]\<rparr>"

lemma SearchGuests_masks_contacts_witness:
  "\<exists>rs r. fst (SearchGuests (\<lambda>_ _. True) 1 3 ''G'' True (demo_world phoned_db)) = Inr rs \<and> r \<in> set rs \<and> length rs \<le> 50
     \<and> sr_Phone r = Some ''********5678'' \<and> masked_phone ''+62812345678'' ''********5678''
     \<and> sr_Email r = Some ''ad*@x.id'' \<and> masked_email ''ada@x.id'' ''ad*@x.id''"
proof -
  let ?m = "SearchGuests (\<lambda>_ _. True) 1 3 ''G'' True"
  have mask: "maskPhone ''+62812345678'' = ''********5678''" "maskEmail ''ada@x.id'' = ''ad*@x.id''"
    by (simp_all add: maskPhone_def maskEmail_def numeral_eq_Suc)
  have "\<exists>rs. fst (?m (demo_world phoned_db)) = Inr rs \<and> rs \<noteq> [] \<and> sr_GuestID (hd rs) = 4
      \<and> sr_Phone (hd rs) = Some ''********5678'' \<and> sr_Email (hd rs) = Some ''ad*@x.id''"
    by (simp add: SearchGuests_def go_eval EventGuestRepository_List_def clamp_params_def i64_def limit_offset_def
        eventGuestSelect_def List.map_filter_def phoned_db_def demo_rows toDomain_def search_result_def mask_opt_def mask
        eventGuestWhere_def TrimSpace_def space_codes_def CheckinRepository_IsCheckedIn_def search_status_def
        InvitationRepository_GetByEventAndGuest_def RSVPRepository_GetByInvitation_def first_row_def)
  then obtain rs r where r: "fst (?m (demo_world phoned_db)) = Inr rs" "r \<in> set rs" "sr_GuestID r = 4"
    "sr_Phone r = Some ''********5678''" "sr_Email r = Some ''ad*@x.id''" using hd_in_set by blast
  have one: "g_Phone g = Some ''+62812345678'' \<and> g_Email g = Some ''ada@x.id''"
    if "g \<in> set (guests (store (demo_world phoned_db)))" "ID g = 4" for g
    using that by (auto simp: phoned_db_def demo_guest_def)
  from SearchGuests_masks_contacts [OF run_pair [of ?m "demo_world phoned_db", OF r(1)]] r
  obtain g where "g \<in> set (guests (store (demo_world phoned_db)))" "ID g = 4" "length rs \<le> 50"
    "\<exists>p. g_Phone g = Some p \<and> masked_phone p ''********5678''" "\<exists>p. g_Email g = Some p \<and> masked_email p ''ad*@x.id''"
    by fastforce
  with one [OF this(1,2)] r show ?thesis by auto
qed

end
