(* ===== verification/Households.thy ===== *)
theory Households
  imports Checkin
begin

text \<open>
  Households of guests and the gifts received at an event: \<open>household_service.go\<close>,
  \<open>household_repository.go\<close>, \<open>guest_gift_service.go\<close>, \<open>guest_gift_repository.go\<close> and their files in
  \<open>internal/domain\<close>. The lemmas show that a household only ever lists guests of its own tenant, that
  a guest has at most one gift per event, with an amount where one is due, and that recording a gift
  and reading it back agree. Parameters: the server's \<open>ILIKE\<close> and the order of names (\<open>coll\<close>).
\<close>

section \<open>Households\<close>

record household_create_request =
  hcr_Name :: string
  hcr_Description :: string
  hcr_Address :: string
  hcr_City :: string
  hcr_MaxPax :: "int option"
  hcr_Notes :: string
  hcr_GuestIDs :: "uuid list"

record household_update_request =
  hur_Name :: string
  hur_Description :: string
  hur_Address :: string
  hur_City :: string
  hur_MaxPax :: "int option"
  hur_Notes :: string

record household_list_params =
  hlp_TenantID :: uuid
  hlp_Search :: string
  hlp_Page :: int
  hlp_PerPage :: int

definition NewHousehold :: "uuid \<Rightarrow> uuid \<Rightarrow> household_create_request \<Rightarrow> household app" where
  "NewHousehold tenantID createdBy req = go_bind NewBase (\<lambda>(i, t). go_ret
     \<lparr>ID = i, CreatedAt = t, UpdatedAt = t, DeletedAt = None, TenantID = tenantID,
      hh_Name = hcr_Name req, hh_Description = opt_str (hcr_Description req),
      hh_Address = opt_str (hcr_Address req), hh_City = opt_str (hcr_City req),
      hh_MaxPax = hcr_MaxPax req, hh_Notes = opt_str (hcr_Notes req), hh_CreatedBy = createdBy\<rparr>)"

definition Household_ApplyUpdate :: "household_update_request \<Rightarrow> time \<Rightarrow> household \<Rightarrow> household" where
  "Household_ApplyUpdate req t h = h\<lparr>UpdatedAt := t,
     hh_Name := (if hur_Name req \<noteq> [] then hur_Name req else hh_Name h),
     hh_Description := set_str (hur_Description req) (hh_Description h),
     hh_Address := set_str (hur_Address req) (hh_Address h),
     hh_City := set_str (hur_City req) (hh_City h),
     hh_MaxPax := coalesce (hur_MaxPax req) (hh_MaxPax h),
     hh_Notes := set_str (hur_Notes req) (hh_Notes h)\<rparr>"

definition household_key :: "uuid \<Rightarrow> uuid \<Rightarrow> household \<Rightarrow> bool" where
  "household_key t i h \<longleftrightarrow> ID h = i \<and> TenantID h = t \<and> live h"

definition HouseholdRepository_Create :: "household \<Rightarrow> unit app" where
  "HouseholdRepository_Create h = go_bind (exec (insert_household h)) (\<lambda>_. go_ret ())"

definition HouseholdRepository_GetByID :: "uuid \<Rightarrow> uuid \<Rightarrow> household app" where
  "HouseholdRepository_GetByID t i = get_one ErrNotFound (\<lambda>d. find (household_key t i) (households d))"

definition merge_household :: "household \<Rightarrow> household \<Rightarrow> household" where
  "merge_household h r = h\<lparr>ID := ID r, CreatedAt := CreatedAt r, DeletedAt := DeletedAt r,
     TenantID := TenantID r, hh_CreatedBy := hh_CreatedBy r\<rparr>"

definition HouseholdRepository_Update :: "household \<Rightarrow> unit app" where
  "HouseholdRepository_Update h = exec_rows ErrNotFound (\<lambda>srv d.
     if \<not> int4_opt (hh_MaxPax h) then None
     else Some (sql_update households put_households (household_key (TenantID h) (ID h)) (merge_household h) d))"

definition HouseholdRepository_SoftDelete :: "uuid \<Rightarrow> uuid \<Rightarrow> unit app" where
  "HouseholdRepository_SoftDelete t i = go_bind now (\<lambda>tm. exec_rows ErrNotFound (\<lambda>srv d.
     Some (sql_update households put_households (household_key t i)
       (\<lambda>h. h\<lparr>DeletedAt := Some tm, UpdatedAt := tm\<rparr>) d)))"

definition household_where :: "(string \<Rightarrow> string \<Rightarrow> bool) \<Rightarrow> uuid \<Rightarrow> string \<Rightarrow> household \<Rightarrow> bool" where
  "household_where ilike t search h \<longleftrightarrow> TenantID h = t \<and> live h
     \<and> (TrimSpace search = [] \<or> ilike (hh_Name h) (''%'' @ TrimSpace search @ ''%''))"

definition HouseholdRepository_ListByTenant ::
  "(string \<Rightarrow> string \<Rightarrow> bool) \<Rightarrow> household_list_params \<Rightarrow> household list app" where
  "HouseholdRepository_ListByTenant ilike p =
     (let page = (if hlp_Page p < 1 then 1 else hlp_Page p);
          perPage = (if hlp_PerPage p < 1 then 20 else hlp_PerPage p);
          off = i64 ((page - 1) * perPage) in
      get_one ErrDB (\<lambda>d. if off < 0 then None else Some (limit_offset perPage off
        (sort_key (\<lambda>h. - CreatedAt h)
          (filter (household_where ilike (hlp_TenantID p) (hlp_Search p)) (households d))))))"

definition HouseholdRepository_CountByTenant ::
  "(string \<Rightarrow> string \<Rightarrow> bool) \<Rightarrow> uuid \<Rightarrow> string \<Rightarrow> int app" where
  "HouseholdRepository_CountByTenant ilike t search =
     query (\<lambda>d. int (count_where (household_where ilike t search) (households d)))"

definition HouseholdRepository_AddMember :: "uuid \<Rightarrow> uuid \<Rightarrow> bool \<Rightarrow> string option \<Rightarrow> unit app" where
  "HouseholdRepository_AddMember h g isPrimary role = go_bind (exec (upsert_household_member
     \<lparr>hm_HouseholdID = h, hm_GuestID = g, hm_IsPrimary = isPrimary, hm_Role = role\<rparr>)) (\<lambda>_. go_ret ())"

definition household_member_key :: "uuid \<Rightarrow> uuid \<Rightarrow> household_member \<Rightarrow> bool" where
  "household_member_key h g m \<longleftrightarrow> hm_HouseholdID m = h \<and> hm_GuestID m = g"

definition HouseholdRepository_RemoveMember :: "uuid \<Rightarrow> uuid \<Rightarrow> unit app" where
  "HouseholdRepository_RemoveMember h g = exec_rows ErrNotFound (\<lambda>srv d.
     Some (count_where (household_member_key h g) (household_members d),
       put_household_members (filter (\<lambda>m. \<not> household_member_key h g m) (household_members d)) d))"

text \<open>\<open>ListMembers\<close>: the live guests joined with the memberships of the household, by name.\<close>

definition HouseholdRepository_ListMembers :: "(string \<Rightarrow> nat) \<Rightarrow> uuid \<Rightarrow> guest list app" where
  "HouseholdRepository_ListMembers coll h = query (\<lambda>d. sort_key (\<lambda>g. coll (g_FullName g))
     (map fst (filter (\<lambda>(g, m). ID g = hm_GuestID m \<and> hm_HouseholdID m = h \<and> live g)
       (List.product (guests d) (household_members d)))))"

fun add_members :: "uuid \<Rightarrow> uuid \<Rightarrow> uuid list \<Rightarrow> unit app" where
  "add_members tenantID h [] = go_ret ()"
| "add_members tenantID h (g # gs) =
     go_bind (GuestRepository_GetByIDForTenant tenantID g) (\<lambda>_.
     go_bind (HouseholdRepository_AddMember h g False None) (\<lambda>_. add_members tenantID h gs))"

definition HouseholdService_Create :: "uuid \<Rightarrow> uuid \<Rightarrow> household_create_request \<Rightarrow> household app" where
  "HouseholdService_Create tenantID createdBy req =
     go_bind (NewHousehold tenantID createdBy req) (\<lambda>h.
     go_bind (HouseholdRepository_Create h) (\<lambda>_.
     go_bind (add_members tenantID (ID h) (hcr_GuestIDs req)) (\<lambda>_.
     go_ignore (LogWithUser createdBy tenantID AuditActionCreate ''household'' (ID h) None
       (Some [(''name'', JString (hh_Name h))])) (
     go_ret h))))"

definition HouseholdService_Get :: "uuid \<Rightarrow> uuid \<Rightarrow> household app" where
  "HouseholdService_Get tenantID i = HouseholdRepository_GetByID tenantID i"

definition HouseholdService_List ::
  "(string \<Rightarrow> string \<Rightarrow> bool) \<Rightarrow> household_list_params \<Rightarrow> (household list \<times> int) app" where
  "HouseholdService_List ilike p0 =
     (let p = p0\<lparr>hlp_Page := (if hlp_Page p0 < 1 then 1 else hlp_Page p0),
                hlp_PerPage := (if hlp_PerPage p0 < 1 then 20 else hlp_PerPage p0)\<rparr> in
      go_bind (HouseholdRepository_ListByTenant ilike p) (\<lambda>hs.
      go_bind (HouseholdRepository_CountByTenant ilike (hlp_TenantID p) (hlp_Search p)) (\<lambda>n. go_ret (hs, n))))"

definition HouseholdService_Update :: "uuid \<Rightarrow> uuid \<Rightarrow> household_update_request \<Rightarrow> household app" where
  "HouseholdService_Update tenantID i req =
     go_bind (HouseholdRepository_GetByID tenantID i) (\<lambda>h0. go_bind now (\<lambda>t.
     let h = Household_ApplyUpdate req t h0 in
     go_bind (HouseholdRepository_Update h) (\<lambda>_. go_ret h)))"

definition HouseholdService_Delete :: "uuid \<Rightarrow> uuid \<Rightarrow> unit app" where
  "HouseholdService_Delete tenantID i = HouseholdRepository_SoftDelete tenantID i"

definition HouseholdService_AddMember :: "uuid \<Rightarrow> uuid \<Rightarrow> uuid \<Rightarrow> bool \<Rightarrow> string \<Rightarrow> unit app" where
  "HouseholdService_AddMember tenantID h g isPrimary role =
     go_bind (HouseholdRepository_GetByID tenantID h) (\<lambda>_.
     go_bind (GuestRepository_GetByIDForTenant tenantID g) (\<lambda>_.
     HouseholdRepository_AddMember h g isPrimary (opt_str role)))"

definition HouseholdService_RemoveMember :: "uuid \<Rightarrow> uuid \<Rightarrow> uuid \<Rightarrow> unit app" where
  "HouseholdService_RemoveMember tenantID h g =
     go_bind (HouseholdRepository_GetByID tenantID h) (\<lambda>_. HouseholdRepository_RemoveMember h g)"

definition HouseholdService_ListMembers :: "(string \<Rightarrow> nat) \<Rightarrow> uuid \<Rightarrow> uuid \<Rightarrow> guest list app" where
  "HouseholdService_ListMembers coll tenantID h =
     go_bind (HouseholdRepository_GetByID tenantID h) (\<lambda>_. HouseholdRepository_ListMembers coll h)"

section \<open>Gifts\<close>

record guest_gift_upsert_request =
  gfr_Amount :: "int option"
  gfr_GiftType :: string
  gfr_Notes :: string

definition IsValidGuestGiftType :: "string \<Rightarrow> bool" where
  "IsValidGuestGiftType v \<longleftrightarrow> List.member [''cash'', ''transfer'', ''goods'', ''other''] v"

definition gift_key :: "uuid \<Rightarrow> uuid \<Rightarrow> uuid \<Rightarrow> guest_gift \<Rightarrow> bool" where
  "gift_key t e g r \<longleftrightarrow> TenantID r = t \<and> EventID r = e \<and> GuestID r = g \<and> live r"

definition GuestGiftRepository_ListByEvent :: "uuid \<Rightarrow> uuid \<Rightarrow> guest_gift list app" where
  "GuestGiftRepository_ListByEvent t e = query (\<lambda>d.
     sort_key (\<lambda>r. - gg_ReceivedAt r) (sort_key (\<lambda>r. - CreatedAt r)
       (filter (\<lambda>r. TenantID r = t \<and> EventID r = e \<and> live r) (guest_gifts d))))"

definition GuestGiftRepository_GetByEventAndGuest :: "uuid \<Rightarrow> uuid \<Rightarrow> uuid \<Rightarrow> guest_gift app" where
  "GuestGiftRepository_GetByEventAndGuest t e g =
     get_one ErrNotFound (\<lambda>d. find (gift_key t e g) (guest_gifts d))"

definition GuestGiftRepository_Upsert :: "guest_gift \<Rightarrow> unit app" where
  "GuestGiftRepository_Upsert item = go_bind (exec (upsert_gift item)) (\<lambda>_. go_ret ())"

definition GuestGiftRepository_Delete :: "uuid \<Rightarrow> uuid \<Rightarrow> uuid \<Rightarrow> unit app" where
  "GuestGiftRepository_Delete t e g = exec_rows ErrNotFound (\<lambda>srv d.
     Some (sql_update guest_gifts put_guest_gifts (gift_key t e g)
       (\<lambda>r. r\<lparr>DeletedAt := Some (fst srv), UpdatedAt := fst srv\<rparr>) d))"

definition GuestGiftService_List :: "uuid \<Rightarrow> uuid \<Rightarrow> guest_gift list app" where
  "GuestGiftService_List t e = GuestGiftRepository_ListByEvent t e"

text \<open>The type of a request, and the checks that \<open>Upsert\<close> makes before it reads the stored gift.\<close>

definition gift_type :: "guest_gift_upsert_request \<Rightarrow> string" where
  "gift_type req = (if TrimSpace (gfr_GiftType req) = [] then ''cash'' else TrimSpace (gfr_GiftType req))"

definition gift_refused :: "guest_gift_upsert_request \<Rightarrow> bool" where
  "gift_refused req \<longleftrightarrow> \<not> IsValidGuestGiftType (gift_type req)
     \<or> (case gfr_Amount req of None \<Rightarrow> gift_type req = ''cash'' \<or> gift_type req = ''transfer'' | Some a \<Rightarrow> a < 1)"

text \<open>The stored gift, touched, or a new one; and the action the audit log will show.\<close>

definition gift_item ::
  "uuid \<Rightarrow> uuid \<Rightarrow> uuid \<Rightarrow> uuid \<Rightarrow> (guest_gift \<times> string) app" where
  "gift_item tenantID eventID guestID egID =
     go_try (GuestGiftRepository_GetByEventAndGuest tenantID eventID guestID) (\<lambda>r. case r of
       Inl e \<Rightarrow> go_guard (e \<noteq> ErrNotFound) e (
         go_bind NewBase (\<lambda>(i, t). go_bind NewBase (\<lambda>(j, t'). go_ret
           (\<lparr>ID = i, CreatedAt = t, UpdatedAt = t, DeletedAt = None, TenantID = tenantID,
             EventID = eventID, GuestID = guestID, gg_EventGuestID = egID, gg_Amount = None,
             gg_GiftType = [], gg_Notes = None, gg_ReceivedAt = t', gg_RecordedBy = None\<rparr>, AuditActionCreate))))
     | Inr item \<Rightarrow> go_bind now (\<lambda>t. go_ret (item\<lparr>UpdatedAt := t\<rparr>, AuditActionUpdate)))"

definition fill_gift :: "guest_gift_upsert_request \<Rightarrow> uuid \<Rightarrow> uuid \<Rightarrow> guest_gift \<Rightarrow> guest_gift" where
  "fill_gift req egID userID item = item\<lparr>gg_EventGuestID := egID, gg_Amount := gfr_Amount req,
     gg_GiftType := gift_type req, gg_Notes := opt_str (TrimSpace (gfr_Notes req)), gg_RecordedBy := Some userID,
     gg_ReceivedAt := (if gg_ReceivedAt item = zero_time then CreatedAt item else gg_ReceivedAt item)\<rparr>"

definition GuestGiftService_Upsert ::
  "uuid \<Rightarrow> uuid \<Rightarrow> uuid \<Rightarrow> uuid \<Rightarrow> guest_gift_upsert_request \<Rightarrow> guest_gift app" where
  "GuestGiftService_Upsert tenantID eventID guestID userID req =
     go_bind (EventGuestRepository_GetByEventAndGuest tenantID eventID guestID) (\<lambda>eg.
     go_guard (eg_Status eg \<noteq> EventGuestStatusActive) ErrInvalidInput (
     go_guard (gift_refused req) ErrInvalidInput (
     go_bind (gift_item tenantID eventID guestID (ID eg)) (\<lambda>(found, action).
     let item = fill_gift req (ID eg) userID found in
     go_bind (GuestGiftRepository_Upsert item) (\<lambda>_.
     go_ignore (LogWithUser userID tenantID action ''guest_gift'' (ID item) None
       (Some [(''event_id'', JUUID eventID), (''guest_id'', JUUID guestID),
         (''amount'', case gfr_Amount req of None \<Rightarrow> JNull | Some a \<Rightarrow> JInt a),
         (''gift_type'', JString (gift_type req))])) (
     GuestGiftRepository_GetByEventAndGuest tenantID eventID guestID))))))"

definition GuestGiftService_Delete :: "uuid \<Rightarrow> uuid \<Rightarrow> uuid \<Rightarrow> uuid \<Rightarrow> unit app" where
  "GuestGiftService_Delete tenantID eventID guestID userID =
     go_bind (GuestGiftRepository_Delete tenantID eventID guestID) (\<lambda>_.
     go_ignore (LogWithUser userID tenantID AuditActionDelete ''guest_gift'' guestID None
       (Some [(''event_id'', JUUID eventID), (''guest_id'', JUUID guestID)])) (go_ret ()))"

section \<open>A household keeps to its tenant\<close>

text \<open>A membership joins a household and a guest of one tenant.\<close>

definition membership_ok :: "db \<Rightarrow> household_member \<Rightarrow> bool" where
  "membership_ok d m \<longleftrightarrow> (\<exists>h \<in> set (households d). ID h = hm_HouseholdID m
     \<and> (\<exists>g \<in> set (guests d). ID g = hm_GuestID m \<and> TenantID g = TenantID h))"

definition households_ok :: "db \<Rightarrow> bool" where
  "households_ok d \<longleftrightarrow> distinct (map ID (households d)) \<and> distinct (map ID (guests d))
     \<and> (\<forall>m \<in> set (household_members d). membership_ok d m)"

definition owned_household :: "uuid \<Rightarrow> uuid \<Rightarrow> db \<Rightarrow> bool" where
  "owned_household t i d \<longleftrightarrow> households_ok d \<and> (\<exists>h \<in> set (households d). ID h = i \<and> TenantID h = t)"

lemma insert_household_ok:
  assumes "insert_household h srv d = Some (n, d')" and "households_ok d"
  shows "owned_household (TenantID h) (ID h) d'"
  using assms unfolding owned_household_def households_ok_def insert_household_def membership_ok_def
  by (fastforce simp: has_id_iff split: if_splits)

lemma update_households_ok:
  assumes f: "\<And>h. ID (f h) = ID h \<and> TenantID (f h) = TenantID h" and ok: "households_ok d"
  shows "households_ok (put_households (update_where p f (households d)) d)"
proof -
  have "map ID (update_where p f (households d)) = map ID (households d)"
    by (rule map_update_where) (simp add: f)
  moreover have "membership_ok (put_households (update_where p f (households d)) d) m" if m: "membership_ok d m" for m
  proof -
    obtain h where h: "h \<in> set (households d)" "ID h = hm_HouseholdID m"
      "\<exists>g \<in> set (guests d). ID g = hm_GuestID m \<and> TenantID g = TenantID h"
      using m by (auto simp: membership_ok_def)
    let ?h = "if p h then f h else h"
    have "?h \<in> set (update_where p f (households d))" using h(1) by (auto simp: update_where_def)
    with h f show ?thesis unfolding membership_ok_def by (auto intro!: bexI [of _ ?h])
  qed
  ultimately show ?thesis using ok by (simp add: households_ok_def)
qed

lemma household_updates_keep:
  assumes "\<And>srv h. ID (f srv h) = ID h \<and> TenantID (f srv h) = TenantID h"
  shows "stays (\<lambda>d d'. households_ok d \<longrightarrow> households_ok d')
    (exec_rows e (\<lambda>srv d. if c srv d then None else Some (sql_update households put_households p (f srv) d)))"
  by (rule kept.exec_rows_stays) (auto simp: sql_update_def assms intro!: update_households_ok split: if_splits)

lemma upsert_member_ok:
  assumes up: "upsert_household_member m srv d = Some (n, d')" and ok: "owned_household t (hm_HouseholdID m) d"
    and g: "find (guest_key t (hm_GuestID m)) (guests d) = Some g"
  shows "owned_household t (hm_HouseholdID m) d'"
proof -
  have "g \<in> set (guests d)" "ID g = hm_GuestID m" "TenantID g = t"
    using g by (auto simp: find_Some_iff guest_key_def)
  then have new: "membership_ok d m" using ok unfolding owned_household_def membership_ok_def by metis
  have same: "membership_ok (put_household_members ms d) = membership_ok d" for ms
    by (intro ext) (simp add: membership_ok_def)
  have part: "membership_ok d (x\<lparr>hm_IsPrimary := b, hm_Role := r\<rparr>) = membership_ok d x" for x b r
    by (simp add: membership_ok_def)
  show ?thesis
    using up ok new same part
    by (auto simp: upsert_household_member_def owned_household_def households_ok_def Let_def set_update_where split: if_splits)
qed

lemma get_guest_keeps: "stays (\<lambda>d d'. I d \<longrightarrow> I d') (GuestRepository_GetByIDForTenant t i)"
  by (rule staysI) (auto dest!: GuestRepository_GetByIDForTenant_tick)

lemma add_guest_keeps:
  "stays (\<lambda>d d'. owned_household t h d \<longrightarrow> owned_household t h d')
     (go_bind (GuestRepository_GetByIDForTenant t g) (\<lambda>_. HouseholdRepository_AddMember h g p r))"
proof (rule staysI, intro impI)
  fix w q w'
  assume run: "go_bind (GuestRepository_GetByIDForTenant t g) (\<lambda>_. HouseholdRepository_AddMember h g p r) w = (q, w')"
    and ok: "owned_household t h (store w)"
  show "owned_household t h (store w')"
  proof (cases "GuestRepository_GetByIDForTenant t g w")
    case (Pair s v)
    then have v: "v = tick w" by (rule GuestRepository_GetByIDForTenant_tick)
    show ?thesis
    proof (cases s)
      case (Inr x)
      then have "find (guest_key t g) (guests (store w)) = Some x" using Pair by (simp add: go_run)
      with run Pair Inr v ok show ?thesis
        using upsert_member_ok [where m = "\<lparr>hm_HouseholdID = h, hm_GuestID = g, hm_IsPrimary = p, hm_Role = r\<rparr>" and d = "store w"]
        by (auto simp: go_bind_run HouseholdRepository_AddMember_def exec_def split: if_splits option.splits)
    qed (use run Pair v ok in \<open>auto simp: go_bind_run\<close>)
  qed
qed


lemma add_members_keep: "stays (\<lambda>d d'. owned_household t h d \<longrightarrow> owned_household t h d') (add_members t h gs)"
proof (induction gs)
  case (Cons g gs)
  have "add_members t h (g # gs) = go_bind (go_bind (GuestRepository_GetByIDForTenant t g)
      (\<lambda>_. HouseholdRepository_AddMember h g False None)) (\<lambda>_. add_members t h gs)"
    by (intro ext) (simp add: go_bind_run split: sum.split prod.split)
  then show ?case using Cons.IH by (simp add: kept.bind_stays add_guest_keeps)
qed (simp add: stays_def)

lemma households_only: "households d' = households d \<Longrightarrow> guests d' = guests d \<Longrightarrow>
    household_members d' = household_members d \<Longrightarrow> households_ok d \<Longrightarrow> households_ok d'"
  by (auto simp: households_ok_def membership_ok_def)

lemma households_audit: "stays (\<lambda>d d'. households_ok d \<longrightarrow> households_ok d') (LogWithUser u t a et ei ov nv)"
proof (rule staysI, intro impI)
  fix w r w'
  assume run: "LogWithUser u t a et ei ov nv w = (r, w')" and ok: "households_ok (store w)"
  from audit_free_tables(19,6,20) [OF LogWithUser_audit_free [OF run]] ok show "households_ok (store w')" by (rule households_only)
qed

lemma NewHousehold_Inr: "NewHousehold t u req w = (Inr h, w') \<Longrightarrow> TenantID h = t \<and> store w' = store w"
  by (auto simp: NewHousehold_def go_run)

lemma HouseholdService_Create_keeps:
  "stays (\<lambda>d d'. households_ok d \<longrightarrow> households_ok d') (HouseholdService_Create t u req)"
proof (rule staysI, intro impI)
  fix w r w'
  let ?log = "\<lambda>h. go_ignore (LogWithUser u t AuditActionCreate ''household'' (ID h) None
       (Some [(''name'', JString (hh_Name h))])) (go_ret h)"
  let ?fill = "\<lambda>h. go_bind (add_members t (ID h) (hcr_GuestIDs req)) (\<lambda>_. ?log h)"
  assume run: "HouseholdService_Create t u req w = (r, w')" and ok: "households_ok (store w)"
  have fill: "stays (\<lambda>d d'. owned_household t (ID h) d \<longrightarrow> households_ok d') (?fill h)" for h :: household
  proof (rule staysI, intro impI)
    fix v q v'
    assume q: "?fill h v = (q, v')" and o: "owned_household t (ID h) (store v)"
    obtain s v1 where s: "add_members t (ID h) (hcr_GuestIDs req) v = (s, v1)" by force
    then have "households_ok (store v1)"
      using staysD [OF add_members_keep] o by (auto simp: owned_household_def)
    moreover have "stays (\<lambda>d d'. households_ok d \<longrightarrow> households_ok d') (?log h)"
      by (intro kept.ignore_stays households_audit kept.ret_stays)
    ultimately show "households_ok (store v')"
      using q s by (cases s) (auto simp: go_bind_run dest: staysD)
  qed
  show "households_ok (store w')"
  proof (cases "NewHousehold t u req w")
    case (Pair s v)
    then obtain h where h: "s = Inr h" by (cases s) (auto simp: NewHousehold_def go_run go_eval)
    with Pair have v: "TenantID h = t" "store v = store w" by (auto dest: NewHousehold_Inr)
    obtain s2 v2 where s2: "HouseholdRepository_Create h v = (s2, v2)" by force
    show ?thesis
    proof (cases s2)
      case (Inl e)
      then show ?thesis using run Pair h s2 v ok
        by (auto simp: HouseholdService_Create_def go_bind_run HouseholdRepository_Create_def exec_def split: if_splits option.splits)
    next
      case (Inr x)
      then obtain srv n where "insert_household h srv (store v) = Some (n, store v2)"
        using s2 by (auto simp: HouseholdRepository_Create_def go_run)
      from insert_household_ok [OF this] v ok have "owned_household t (ID h) (store v2)" by simp
      moreover have "?fill h v2 = (r, w')" using run Pair h s2 Inr by (simp add: HouseholdService_Create_def go_bind_run)
      ultimately show ?thesis using staysD [OF fill] by blast
    qed
  qed
qed

text \<open>The other calls. The household is looked up first, and belongs to the tenant when that succeeds.\<close>

lemma HouseholdRepository_GetByID_run:
  "HouseholdRepository_GetByID t i w = (r, w') \<Longrightarrow> w' = tick w
     \<and> (\<forall>h. r = Inr h \<longrightarrow> h \<in> set (households (store w)) \<and> ID h = i \<and> TenantID h = t)"
  by (cases r) (auto simp: HouseholdRepository_GetByID_def go_run find_Some_iff household_key_def split: if_splits)

lemma household_lookup_keeps:
  assumes "\<And>h w r w'. k h w = (r, w') \<Longrightarrow> owned_household t i (store w) \<Longrightarrow> households_ok (store w')"
  shows "stays (\<lambda>d d'. households_ok d \<longrightarrow> households_ok d') (go_bind (HouseholdRepository_GetByID t i) k)"
proof (rule staysI, intro impI)
  fix w r w'
  assume run: "go_bind (HouseholdRepository_GetByID t i) k w = (r, w')" and ok: "households_ok (store w)"
  obtain s v where s: "HouseholdRepository_GetByID t i w = (s, v)" by force
  note got = HouseholdRepository_GetByID_run [OF s]
  show "households_ok (store w')"
  proof (cases s)
    case (Inr h)
    with got ok have "owned_household t i (store v)" by (auto simp: owned_household_def)
    moreover have "k h v = (r, w')" using run s Inr by (simp add: go_bind_run)
    ultimately show ?thesis using assms by blast
  qed (use run s got ok in \<open>auto simp: go_bind_run\<close>)
qed

lemma merge_household_sel [simp]: "ID (merge_household h r) = ID r" "TenantID (merge_household h r) = TenantID r"
  by (simp_all add: merge_household_def)

lemma HouseholdService_Update_keeps: "stays (\<lambda>d d'. households_ok d \<longrightarrow> households_ok d') (HouseholdService_Update t i req)"
proof -
  have up: "stays (\<lambda>d d'. households_ok d \<longrightarrow> households_ok d') (HouseholdRepository_Update h)" for h
    unfolding HouseholdRepository_Update_def by (rule household_updates_keep) simp
  have get: "stays (\<lambda>d d'. households_ok d \<longrightarrow> households_ok d') (HouseholdRepository_GetByID t i)"
    unfolding HouseholdRepository_GetByID_def by (intro kept.all_stays)
  show ?thesis
    unfolding HouseholdService_Update_def Let_def by (intro kept.all_stays up get)
qed

lemma HouseholdService_Delete_keeps: "stays (\<lambda>d d'. households_ok d \<longrightarrow> households_ok d') (HouseholdService_Delete t i)"
proof -
  have "stays (\<lambda>d d'. households_ok d \<longrightarrow> households_ok d') (exec_rows ErrNotFound (\<lambda>srv d. Some
      (sql_update households put_households (household_key t i) (\<lambda>h. h\<lparr>DeletedAt := Some tm, UpdatedAt := tm\<rparr>) d)))" for tm
    using household_updates_keep [of "\<lambda>_ h. h\<lparr>DeletedAt := Some tm, UpdatedAt := tm\<rparr>" ErrNotFound "\<lambda>_ _. False"] by simp
  then show ?thesis
    unfolding HouseholdService_Delete_def HouseholdRepository_SoftDelete_def by (intro kept.bind_stays kept.now_stays)
qed

lemma HouseholdService_RemoveMember_keeps:
  "stays (\<lambda>d d'. households_ok d \<longrightarrow> households_ok d') (HouseholdService_RemoveMember t h g)"
proof -
  have "households_ok (put_household_members (filter P (household_members d)) d)" if "households_ok d" for P and d :: db
    using that by (auto simp: households_ok_def membership_ok_def)
  then have "stays (\<lambda>d d'. households_ok d \<longrightarrow> households_ok d') (HouseholdRepository_RemoveMember h g)"
    unfolding HouseholdRepository_RemoveMember_def by (auto intro!: kept.exec_rows_stays)
  moreover have "stays (\<lambda>d d'. households_ok d \<longrightarrow> households_ok d') (HouseholdRepository_GetByID t h)"
    unfolding HouseholdRepository_GetByID_def by (intro kept.all_stays)
  ultimately show ?thesis unfolding HouseholdService_RemoveMember_def by (intro kept.bind_stays)
qed

lemma HouseholdService_AddMember_keeps:
  "stays (\<lambda>d d'. households_ok d \<longrightarrow> households_ok d') (HouseholdService_AddMember t h g p role)"
  unfolding HouseholdService_AddMember_def
  by (rule household_lookup_keeps) (auto dest!: staysD [OF add_guest_keeps] simp: owned_household_def)

datatype household_call =
    NewHouseholdEntry household_create_request
  | EditHousehold uuid household_update_request
  | DropHousehold uuid
  | JoinHousehold uuid uuid bool string
  | LeaveHousehold uuid uuid

definition serve_household :: "uuid \<Rightarrow> uuid \<Rightarrow> household_call \<Rightarrow> unit app" where
  "serve_household t u c = (case c of
     NewHouseholdEntry req \<Rightarrow> discard (HouseholdService_Create t u req)
   | EditHousehold i req \<Rightarrow> discard (HouseholdService_Update t i req)
   | DropHousehold i \<Rightarrow> HouseholdService_Delete t i
   | JoinHousehold h g p role \<Rightarrow> HouseholdService_AddMember t h g p role
   | LeaveHousehold h g \<Rightarrow> HouseholdService_RemoveMember t h g)"

lemma serve_household_keeps: "stays (\<lambda>d d'. households_ok d \<longrightarrow> households_ok d') (serve_household t u c)"
  unfolding serve_household_def discard_def
  by (cases c) (simp_all add: kept.bind_stays kept.ret_stays HouseholdService_Create_keeps HouseholdService_Update_keeps
      HouseholdService_Delete_keeps HouseholdService_AddMember_keeps HouseholdService_RemoveMember_keeps)

lemma ListMembers_members:
  assumes "HouseholdRepository_ListMembers coll h w = (Inr gs, w')" and "households_ok (store w)" and "g \<in> set gs"
  obtains x where "x \<in> set (households (store w))" and "ID x = h" and "TenantID g = TenantID x" and "live g"
proof -
  obtain m where m: "g \<in> set (guests (store w))" "m \<in> set (household_members (store w))"
    "ID g = hm_GuestID m" "hm_HouseholdID m = h" "live g"
    using assms(1,3) by (auto simp: HouseholdRepository_ListMembers_def query_def split: if_splits)
  then obtain x g' where x: "x \<in> set (households (store w))" "ID x = h" "g' \<in> set (guests (store w))"
    "ID g' = ID g" "TenantID g' = TenantID x"
    using assms(2) by (fastforce simp: households_ok_def membership_ok_def)
  then have "g' = g" using m(1) assms(2) by (auto simp: households_ok_def distinct_map dest: inj_onD)
  with x m that show thesis by blast
qed

text \<open>C29: A household only ever shows guests of its own tenant. After any calls of any users of any tenants
  that create, change and delete households and add and remove members, whichever statements fail, listing the
  members of a household for a tenant yields live guests of that tenant.\<close>

theorem households_keep_to_their_tenant:
  assumes "households_ok (store w)"
    and "HouseholdService_ListMembers coll t h (serve_all (map (\<lambda>(t, u, c). serve_household t u c) calls) w) = (Inr gs, w')"
  shows "\<forall>g \<in> set gs. live g \<and> TenantID g = t"
proof
  fix g
  assume g: "g \<in> set gs"
  let ?v = "serve_all (map (\<lambda>(t, u, c). serve_household t u c) calls) w"
  have ok: "households_ok (store ?v)"
    by (rule serve_all_keeps) (use assms(1) serve_household_keeps in \<open>auto simp: stays_def\<close>)
  obtain x v where x: "HouseholdRepository_GetByID t h ?v = (Inr x, v)" and l: "HouseholdRepository_ListMembers coll h v = (Inr gs, w')"
    using assms(2) by (auto simp: HouseholdService_ListMembers_def go_run)
  note got = HouseholdRepository_GetByID_run [OF x]
  then have v: "store v = store ?v" by simp
  obtain y where "y \<in> set (households (store v))" "ID y = h" "TenantID g = TenantID y" "live g"
    using ListMembers_members [OF l _ g] ok v by auto
  with got ok v show "live g \<and> TenantID g = t"
    by (auto simp: households_ok_def distinct_map dest: inj_onD)
qed

definition demo_household :: household_create_request where
  "demo_household = \<lparr>hcr_Name = ''H'', hcr_Description = [], hcr_Address = [], hcr_City = [], hcr_MaxPax = None,
     hcr_Notes = [], hcr_GuestIDs = [4, 5]\<rparr>"

theorem households_keep_to_their_tenant_witness:
  "\<exists>gs. fst (HouseholdService_ListMembers (\<lambda>_. 0) 1 101 (serve_all [serve_household 1 2 (NewHouseholdEntry demo_household)]
     (demo_world demo_db))) = Inr gs \<and> length gs = 2 \<and> (\<forall>g \<in> set gs. TenantID g = 1)"
proof -
  let ?calls = "[(1 :: uuid, 2 :: uuid, NewHouseholdEntry demo_household)]"
  let ?w = "serve_all (map (\<lambda>(t, u, c). serve_household t u c) ?calls) (demo_world demo_db)"
  have ok: "households_ok demo_db" by (simp add: households_ok_def demo_guest_def)
  have "fst (HouseholdService_ListMembers (\<lambda>_. 0) 1 101 ?w) = Inr [demo_guest 4, demo_guest 5]"
    by (simp add: serve_household_def discard_def HouseholdService_Create_def NewHousehold_def demo_household_def go_eval
        HouseholdRepository_Create_def insert_household_def has_id_def has_id_opt_def int4_opt_def demo_tenant_def demo_user_def
        GuestRepository_GetByIDForTenant_def guest_key_def demo_guest_def HouseholdRepository_AddMember_def
        upsert_household_member_def insert_audit_log_def
        HouseholdService_ListMembers_def HouseholdRepository_GetByID_def household_key_def
        HouseholdRepository_ListMembers_def)
  with households_keep_to_their_tenant [of "demo_world demo_db" "\<lambda>_. 0" 1 101 ?calls "[demo_guest 4, demo_guest 5]"
      "snd (HouseholdService_ListMembers (\<lambda>_. 0) 1 101 ?w)"] ok
  show ?thesis by (simp add: prod_eq_iff)
qed

section \<open>One gift per guest\<close>

definition gift_sound :: "guest_gift \<Rightarrow> bool" where
  "gift_sound r \<longleftrightarrow> IsValidGuestGiftType (gg_GiftType r)
     \<and> (case gg_Amount r of None \<Rightarrow> gg_GiftType r \<noteq> ''cash'' \<and> gg_GiftType r \<noteq> ''transfer'' | Some a \<Rightarrow> 1 \<le> a)"

definition gift_owner :: "guest_gift \<Rightarrow> uuid \<times> uuid \<times> uuid" where
  "gift_owner r = (TenantID r, EventID r, GuestID r)"

definition gifts_ok :: "guest_gift list \<Rightarrow> bool" where
  "gifts_ok gs \<longleftrightarrow> distinct (map gift_owner (filter live gs)) \<and> (\<forall>r \<in> set gs. gift_sound r)"

lemma gift_key_owner: "gift_key t e g r \<longleftrightarrow> live r \<and> gift_owner r = (t, e, g)"
  by (auto simp: gift_key_def gift_owner_def)

lemma same_gift_owner: "same_gift x r \<longleftrightarrow> live r \<and> gift_owner r = gift_owner x"
  by (auto simp: same_gift_def gift_owner_def)

lemma gift_sound_cong: "gg_Amount r = gg_Amount x \<Longrightarrow> gg_GiftType r = gg_GiftType x \<Longrightarrow> gift_sound r = gift_sound x"
  unfolding gift_sound_def by presburger

text \<open>An update that keeps the owner and does not revive a row.\<close>

lemma updated_owners:
  assumes "\<And>r. gift_owner (f r) = gift_owner r \<and> (live (f r) \<longrightarrow> live r)"
  shows "set (map gift_owner (filter live (update_where p f gs))) \<subseteq> set (map gift_owner (filter live gs))"
  using assms by (force simp: set_update_where)

lemma updated_owners_distinct:
  assumes "\<And>r. gift_owner (f r) = gift_owner r \<and> (live (f r) \<longrightarrow> live r)"
  shows "distinct (map gift_owner (filter live gs)) \<Longrightarrow> distinct (map gift_owner (filter live (update_where p f gs)))"
proof (induction gs)
  case (Cons r gs)
  let ?r = "if p r then f r else r"
  have "live ?r \<Longrightarrow> live r" "gift_owner ?r = gift_owner r" using assms [of r] by (auto split: if_splits)
  moreover have "live r \<Longrightarrow> gift_owner r \<notin> set (map gift_owner (filter live (update_where p f gs)))"
    using Cons.prems updated_owners [where f = f and gs = gs and p = p, OF assms] by auto
  ultimately show ?case using Cons by (cases "live ?r") (simp_all split: if_splits)
qed simp

lemma gifts_ok_update:
  assumes "gifts_ok gs" and "\<And>r. gift_owner (f r) = gift_owner r \<and> (live (f r) \<longrightarrow> live r)"
    and "\<And>r. r \<in> set gs \<Longrightarrow> p r \<Longrightarrow> gift_sound (f r)"
  shows "gifts_ok (update_where p f gs)"
  using assms updated_owners_distinct [where f = f, OF assms(2)] by (auto simp: gifts_ok_def set_update_where)

lemma upsert_gift_ok:
  assumes up: "upsert_gift x srv d = Some (n, d')" and ok: "gifts_ok (guest_gifts d)" and x: "gift_sound x"
  shows "gifts_ok (guest_gifts d')"
proof (cases "list_ex (same_gift x) (guest_gifts d)")
  case True
  let ?f = "\<lambda>r :: guest_gift. r\<lparr>gg_EventGuestID := gg_EventGuestID x, gg_Amount := gg_Amount x, gg_GiftType := gg_GiftType x,
    gg_Notes := gg_Notes x, gg_ReceivedAt := gg_ReceivedAt x, gg_RecordedBy := gg_RecordedBy x, UpdatedAt := fst srv\<rparr>"
  have "gift_sound (?f r)" for r using x gift_sound_cong [of "?f r" x] by simp
  then have "gifts_ok (update_where (same_gift x) ?f (guest_gifts d))"
    by (intro gifts_ok_update [OF ok]) (auto simp: gift_owner_def)
  with up True show ?thesis by (auto simp: upsert_gift_def split: if_splits)
next
  case False
  have "gift_sound (x\<lparr>DeletedAt := None\<rparr>)" using x gift_sound_cong [of "x\<lparr>DeletedAt := None\<rparr>" x] by simp
  moreover have "gift_owner (x\<lparr>DeletedAt := None\<rparr>) = gift_owner x" by (simp add: gift_owner_def)
  moreover have "gift_owner x \<notin> gift_owner ` {r \<in> set (guest_gifts d). live r}"
    using False by (auto simp: list_ex_iff same_gift_owner image_iff)
  ultimately show ?thesis
    using False up ok by (auto simp: upsert_gift_def gifts_ok_def split: if_splits)
qed

lemma fill_gift_sound: "\<not> gift_refused req \<Longrightarrow> gift_sound (fill_gift req e u x)"
  by (auto simp: gift_refused_def gift_sound_def fill_gift_def split: option.splits)

lemma gift_lookup_pure: "stays (=) (GuestGiftRepository_GetByEventAndGuest t e g)"
  unfolding GuestGiftRepository_GetByEventAndGuest_def by (intro unchanged.all_stays)

lemma gift_item_pure: "stays (=) (gift_item t e g eg)"
  unfolding gift_item_def
  by (auto intro!: unchanged.all_stays unchanged.NewBase_stays gift_lookup_pure split: sum.split)

lemma roster_lookup_pure: "stays (=) (EventGuestRepository_GetByEventAndGuest t e g)"
  unfolding EventGuestRepository_GetByEventAndGuest_def by (intro unchanged.all_stays)

lemma gifts_kept_pure: "stays (=) m \<Longrightarrow> stays (\<lambda>d d'. gifts_ok (guest_gifts d) \<longrightarrow> gifts_ok (guest_gifts d')) m"
  by (erule stays_mono) auto

lemma gifts_kept_audit:
  "stays (\<lambda>d d'. gifts_ok (guest_gifts d) \<longrightarrow> gifts_ok (guest_gifts d')) (LogWithUser u t a et ei ov nv)"
  by (rule stays_mono [OF LogWithUser_stays]) (auto dest: audit_free_tables)

lemma GuestGiftService_Upsert_keeps:
  "stays (\<lambda>d d'. gifts_ok (guest_gifts d) \<longrightarrow> gifts_ok (guest_gifts d')) (GuestGiftService_Upsert t e g u req)"
proof -
  have "stays (\<lambda>d d'. gifts_ok (guest_gifts d) \<longrightarrow> gifts_ok (guest_gifts d'))
      (GuestGiftRepository_Upsert (fill_gift req i u x))" if "\<not> gift_refused req" for i x
    unfolding GuestGiftRepository_Upsert_def
    by (intro kept.bind_stays kept.ret_stays kept.exec_stays) (meson upsert_gift_ok fill_gift_sound that)
  then show ?thesis
    unfolding GuestGiftService_Upsert_def Let_def
    by (auto intro!: kept.all_stays gifts_kept_audit gifts_kept_pure [OF gift_lookup_pure] gifts_kept_pure [OF gift_item_pure]
          gifts_kept_pure [OF roster_lookup_pure]
        split: prod.split)
qed

lemma GuestGiftService_Delete_keeps:
  "stays (\<lambda>d d'. gifts_ok (guest_gifts d) \<longrightarrow> gifts_ok (guest_gifts d')) (GuestGiftService_Delete t e g u)"
proof -
  have "gifts_ok (update_where p (\<lambda>r. r\<lparr>DeletedAt := Some x, UpdatedAt := x\<rparr>) gs)" if "gifts_ok gs" for p x gs
    by (rule gifts_ok_update [OF that])
      (use that gift_sound_cong [of "_\<lparr>DeletedAt := Some x, UpdatedAt := x\<rparr>"] in \<open>auto simp: gift_owner_def gifts_ok_def\<close>)
  then have "stays (\<lambda>d d'. gifts_ok (guest_gifts d) \<longrightarrow> gifts_ok (guest_gifts d')) (GuestGiftRepository_Delete t e g)"
    unfolding GuestGiftRepository_Delete_def by (auto intro!: kept.exec_rows_stays simp: sql_update_def)
  then show ?thesis
    unfolding GuestGiftService_Delete_def by (intro kept.all_stays gifts_kept_audit)
qed

datatype gift_call = RecordGift uuid uuid guest_gift_upsert_request | DropGift uuid uuid

definition serve_gift :: "uuid \<Rightarrow> uuid \<Rightarrow> gift_call \<Rightarrow> unit app" where
  "serve_gift t u c = (case c of
     RecordGift e g req \<Rightarrow> discard (GuestGiftService_Upsert t e g u req)
   | DropGift e g \<Rightarrow> GuestGiftService_Delete t e g u)"

lemma serve_gift_keeps: "stays (\<lambda>d d'. gifts_ok (guest_gifts d) \<longrightarrow> gifts_ok (guest_gifts d')) (serve_gift t u c)"
  unfolding serve_gift_def discard_def
  by (cases c) (simp_all add: kept.bind_stays kept.ret_stays GuestGiftService_Upsert_keeps GuestGiftService_Delete_keeps)

text \<open>C30: However gifts are recorded, corrected and deleted, by any users of any tenants and whichever
  statements fail, a guest has at most one live gift per event, each gift is of a known type, and cash and
  transfers have an amount of at least one.\<close>

theorem gifts_stay_sound:
  assumes "gifts_ok (guest_gifts (store w))"
  shows "gifts_ok (guest_gifts (store (serve_all (map (\<lambda>(t, u, c). serve_gift t u c) calls) w)))"
  by (rule serve_all_keeps [where I = "\<lambda>d. gifts_ok (guest_gifts d)"])
    (use assms serve_gift_keeps in \<open>auto simp: stays_def\<close>)

lemma gift_item_Inr:
  assumes "gift_item t e g eg w = (Inr (x, a), w')"
  shows "store w' = store w \<and> live x \<and> TenantID x = t \<and> EventID x = e \<and> GuestID x = g"
proof -
  obtain r v where r: "GuestGiftRepository_GetByEventAndGuest t e g w = (r, v)" by force
  have "store w' = store w" using staysD [OF gift_item_pure assms] by simp
  moreover have "live y \<and> TenantID y = t \<and> EventID y = e \<and> GuestID y = g" if "r = Inr y" for y
    using r that by (auto simp: GuestGiftRepository_GetByEventAndGuest_def go_run find_Some_iff gift_key_def)
  ultimately show ?thesis
    using assms r by (cases r) (auto simp: gift_item_def go_try_run go_guard_def go_run split: if_splits)
qed

lemma upsert_gift_found:
  assumes "upsert_gift x srv d = Some (n, d')" and "r \<in> set (guest_gifts d')"
    and "gift_key (TenantID x) (EventID x) (GuestID x) r"
  shows "gg_Amount r = gg_Amount x \<and> gg_GiftType r = gg_GiftType x \<and> gg_Notes r = gg_Notes x
    \<and> gg_RecordedBy r = gg_RecordedBy x \<and> gg_EventGuestID r = gg_EventGuestID x"
proof -
  have "same_gift x r" using assms(3) by (simp add: same_gift_def gift_key_def)
  with assms(1,2) show ?thesis
    by (auto simp: upsert_gift_def set_update_where list_ex_iff split: if_splits)
qed

lemma fill_gift_sel [simp]:
  "TenantID (fill_gift req eg u x) = TenantID x" "EventID (fill_gift req eg u x) = EventID x"
  "GuestID (fill_gift req eg u x) = GuestID x" "gg_Amount (fill_gift req eg u x) = gfr_Amount req"
  "gg_GiftType (fill_gift req eg u x) = gift_type req" "gg_Notes (fill_gift req eg u x) = opt_str (TrimSpace (gfr_Notes req))"
  "gg_RecordedBy (fill_gift req eg u x) = Some u" "gg_EventGuestID (fill_gift req eg u x) = eg"
  by (simp_all add: fill_gift_def)

text \<open>C31: A gift that is recorded is the gift that is read back: when \<open>Upsert\<close> succeeds it returns the one live
  gift of the guest at the event as a later lookup finds it, with the amount, type, notes and recorder of the request,
  tied to an active entry of the roster, whether the gift is new or replaces one.\<close>

theorem recorded_gift_is_read_back:
  assumes "GuestGiftService_Upsert t e g u req w = (Inr r, w')"
  shows "find (gift_key t e g) (guest_gifts (store w')) = Some r \<and> gg_Amount r = gfr_Amount req
    \<and> gg_GiftType r = gift_type req \<and> gg_Notes r = opt_str (TrimSpace (gfr_Notes req)) \<and> gg_RecordedBy r = Some u
    \<and> (\<exists>eg \<in> set (event_guests (store w)). ID eg = gg_EventGuestID r \<and> eg_Status eg = EventGuestStatusActive
         \<and> TenantID eg = t \<and> EventID eg = e \<and> GuestID eg = g)"
proof -
  let ?shown = "[(''event_id'', JUUID e), (''guest_id'', JUUID g),
    (''amount'', case gfr_Amount req of None \<Rightarrow> JNull | Some a \<Rightarrow> JInt a), (''gift_type'', JString (gift_type req))]"
  obtain eg w1 x a w2 v w3 s w4 where 1: "EventGuestRepository_GetByEventAndGuest t e g w = (Inr eg, w1)"
    and active: "eg_Status eg = EventGuestStatusActive" and 2: "gift_item t e g (ID eg) w1 = (Inr (x, a), w2)"
    and 3: "GuestGiftRepository_Upsert (fill_gift req (ID eg) u x) w2 = (v, w3)" "v = Inr ()"
    and 4: "LogWithUser u t a ''guest_gift'' (ID (fill_gift req (ID eg) u x)) None (Some ?shown) w3 = (s, w4)"
    and 5: "GuestGiftRepository_GetByEventAndGuest t e g w4 = (Inr r, w')"
    using assms unfolding GuestGiftService_Upsert_def Let_def
    by (elim go_elim_Inr) (auto split: prod.splits elim!: go_elim_Inr)
  note x = gift_item_Inr [OF 2]
  obtain srv n where up: "upsert_gift (fill_gift req (ID eg) u x) srv (store w2) = Some (n, store w3)"
    using 3 by (auto simp: GuestGiftRepository_Upsert_def go_run)
  have w4: "guest_gifts (store w4) = guest_gifts (store w3)" by (rule audit_free_tables(21) [OF LogWithUser_audit_free [OF 4]])
  have r: "find (gift_key t e g) (guest_gifts (store w4)) = Some r" "store w' = store w4"
    using 5 by (auto simp: GuestGiftRepository_GetByEventAndGuest_def go_run)
  then have "r \<in> set (guest_gifts (store w3))" "gift_key t e g r" using w4 by (auto simp: find_Some_iff)
  with upsert_gift_found [OF up, of r] x have "gg_Amount r = gfr_Amount req \<and> gg_GiftType r = gift_type req
      \<and> gg_Notes r = opt_str (TrimSpace (gfr_Notes req)) \<and> gg_RecordedBy r = Some u \<and> gg_EventGuestID r = ID eg"
    by simp
  with r active roster.lookup_sound [OF 1] show ?thesis by auto
qed

text \<open>Witnesses: the first gift of a guest of the demo event.\<close>

definition demo_gift :: guest_gift_upsert_request where
  "demo_gift = \<lparr>gfr_Amount = Some 50, gfr_GiftType = [], gfr_Notes = []\<rparr>"

lemma demo_gift_trim: "TrimSpace [] = []" "gift_type demo_gift = ''cash''" "\<not> gift_refused demo_gift" "gfr_Amount demo_gift = Some 50"
  "gfr_Notes demo_gift = []"
  by code_simp+

lemma demo_gift_run:
  "fst (GuestGiftService_Upsert 1 3 4 2 demo_gift (demo_world demo_db))
    = Inr \<lparr>ID = 103, CreatedAt = 2, UpdatedAt = 2, DeletedAt = None, TenantID = 1, EventID = 3, GuestID = 4,
       gg_EventGuestID = 6, gg_Amount = Some 50, gg_GiftType = ''cash'', gg_Notes = None, gg_ReceivedAt = 4,
       gg_RecordedBy = Some 2\<rparr>"
  by (simp add: GuestGiftService_Upsert_def demo_gift_trim go_eval EventGuestRepository_GetByEventAndGuest_def
      eventGuestSelect_def List.map_filter_def first_row_def demo_event_guest_def demo_guest_def demo_event_def
      demo_tenant_def demo_user_def gift_item_def GuestGiftRepository_GetByEventAndGuest_def gift_key_def fill_gift_def
      GuestGiftRepository_Upsert_def upsert_gift_def gift_row_ok_def has_id_def has_id_opt_def zero_time_def insert_audit_log_def opt_str_def)

theorem recorded_gift_is_read_back_witness:
  "\<exists>r w'. GuestGiftService_Upsert 1 3 4 2 demo_gift (demo_world demo_db) = (Inr r, w')
     \<and> find (gift_key 1 3 4) (guest_gifts (store w')) = Some r \<and> gg_Amount r = Some 50"
proof -
  note run = run_pair [of "GuestGiftService_Upsert 1 3 4 2 demo_gift", OF demo_gift_run]
  from recorded_gift_is_read_back [OF run] run demo_gift_trim(4) show ?thesis by metis
qed

theorem gifts_stay_sound_witness:
  "gifts_ok (guest_gifts (store (serve_all [serve_gift 1 2 (RecordGift 3 4 demo_gift), serve_gift 1 2 (DropGift 3 4)]
     (demo_world demo_db))))"
  using gifts_stay_sound [of "demo_world demo_db" "[(1, 2, RecordGift 3 4 demo_gift), (1, 2, DropGift 3 4)]"]
  by (simp add: gifts_ok_def)

text \<open>\<open>Create\<close> runs in no transaction: a household whose members are refused is left behind.\<close>

lemma failed_household_is_left_behind:
  "\<exists>e h w'. HouseholdService_Create 1 2 (demo_household\<lparr>hcr_GuestIDs := [9]\<rparr>) (demo_world demo_db) = (Inl e, w')
     \<and> households (store w') = [h] \<and> live h"
  by (simp add: HouseholdService_Create_def NewHousehold_def demo_household_def go_eval HouseholdRepository_Create_def
      insert_household_def has_id_def has_id_opt_def int4_opt_def demo_tenant_def demo_user_def
      GuestRepository_GetByIDForTenant_def guest_key_def demo_guest_def)

end
