(* ===== verification/Roles.thy ===== *)
theory Roles
  imports Prelude
begin

text \<open>
  The roles and permissions of \<open>domain/role.go\<close> and the lookups of \<open>rbac/permissions.go\<close>. The map
  literals of the source are association lists with distinct keys. The lemmas bound what a role can
  do: a tenant owner has every permission, and a role that can be given for a single event has none
  of the permissions that manage the tenant.
\<close>

section \<open>Constants\<close>

abbreviation RoleTenantOwner :: string where "RoleTenantOwner \<equiv> ''tenant_owner''"
abbreviation RoleEventManager :: string where "RoleEventManager \<equiv> ''event_manager''"
abbreviation RoleRSVPOfficer :: string where "RoleRSVPOfficer \<equiv> ''rsvp_officer''"
abbreviation RoleRegistrationOfficer :: string where "RoleRegistrationOfficer \<equiv> ''registration_officer''"
abbreviation RoleUsher :: string where "RoleUsher \<equiv> ''usher''"
abbreviation RoleGiftOfficer :: string where "RoleGiftOfficer \<equiv> ''gift_officer''"
abbreviation RoleViewer :: string where "RoleViewer \<equiv> ''viewer''"
abbreviation PermGuestRead :: string where "PermGuestRead \<equiv> ''guest:read''"
abbreviation PermGuestWrite :: string where "PermGuestWrite \<equiv> ''guest:write''"
abbreviation PermGuestDelete :: string where "PermGuestDelete \<equiv> ''guest:delete''"
abbreviation PermGuestImport :: string where "PermGuestImport \<equiv> ''guest:import''"
abbreviation PermGuestExport :: string where "PermGuestExport \<equiv> ''guest:export''"
abbreviation PermGiftRead :: string where "PermGiftRead \<equiv> ''gift:read''"
abbreviation PermGiftWrite :: string where "PermGiftWrite \<equiv> ''gift:write''"
abbreviation PermGiftDelete :: string where "PermGiftDelete \<equiv> ''gift:delete''"
abbreviation PermEventRead :: string where "PermEventRead \<equiv> ''event:read''"
abbreviation PermEventWrite :: string where "PermEventWrite \<equiv> ''event:write''"
abbreviation PermEventDelete :: string where "PermEventDelete \<equiv> ''event:delete''"
abbreviation PermInvitationRead :: string where "PermInvitationRead \<equiv> ''invitation:read''"
abbreviation PermInvitationWrite :: string where "PermInvitationWrite \<equiv> ''invitation:write''"
abbreviation PermInvitationSend :: string where "PermInvitationSend \<equiv> ''invitation:send''"
abbreviation PermRSVPRead :: string where "PermRSVPRead \<equiv> ''rsvp:read''"
abbreviation PermRSVPWrite :: string where "PermRSVPWrite \<equiv> ''rsvp:write''"
abbreviation PermCheckinRead :: string where "PermCheckinRead \<equiv> ''checkin:read''"
abbreviation PermCheckinWrite :: string where "PermCheckinWrite \<equiv> ''checkin:write''"
abbreviation PermSeatingRead :: string where "PermSeatingRead \<equiv> ''seating:read''"
abbreviation PermSeatingWrite :: string where "PermSeatingWrite \<equiv> ''seating:write''"
abbreviation PermReportRead :: string where "PermReportRead \<equiv> ''report:read''"
abbreviation PermReportExport :: string where "PermReportExport \<equiv> ''report:export''"
abbreviation PermCommunicationRead :: string where "PermCommunicationRead \<equiv> ''communication:read''"
abbreviation PermCommunicationWrite :: string where "PermCommunicationWrite \<equiv> ''communication:write''"
abbreviation PermCommunicationSend :: string where "PermCommunicationSend \<equiv> ''communication:send''"
abbreviation PermBillingRead :: string where "PermBillingRead \<equiv> ''billing:read''"
abbreviation PermBillingWrite :: string where "PermBillingWrite \<equiv> ''billing:write''"
abbreviation PermTeamRead :: string where "PermTeamRead \<equiv> ''team:read''"
abbreviation PermTeamWrite :: string where "PermTeamWrite \<equiv> ''team:write''"
abbreviation PermTeamInvite :: string where "PermTeamInvite \<equiv> ''team:invite''"
abbreviation PermEventTeamRead :: string where "PermEventTeamRead \<equiv> ''event_team:read''"
abbreviation PermEventTeamWrite :: string where "PermEventTeamWrite \<equiv> ''event_team:write''"
abbreviation PermSettingsRead :: string where "PermSettingsRead \<equiv> ''settings:read''"
abbreviation PermSettingsWrite :: string where "PermSettingsWrite \<equiv> ''settings:write''"
abbreviation PermAuditRead :: string where "PermAuditRead \<equiv> ''audit:read''"

section \<open>Roles and their permissions\<close>

definition AllPermissions :: "string list" where
  "AllPermissions =
     [PermGuestRead, PermGuestWrite, PermGuestDelete, PermGuestImport, PermGuestExport,
      PermGiftRead, PermGiftWrite, PermGiftDelete, PermEventRead, PermEventWrite,
      PermEventDelete, PermInvitationRead, PermInvitationWrite, PermInvitationSend,
      PermRSVPRead, PermRSVPWrite, PermCheckinRead, PermCheckinWrite, PermSeatingRead,
      PermSeatingWrite, PermReportRead, PermReportExport, PermCommunicationRead,
      PermCommunicationWrite, PermCommunicationSend, PermBillingRead, PermBillingWrite,
      PermTeamRead, PermTeamWrite, PermTeamInvite, PermEventTeamRead, PermEventTeamWrite,
      PermSettingsRead, PermSettingsWrite, PermAuditRead]"

definition RolePermissions :: "(string \<times> string list) list" where
  "RolePermissions =
    [(RoleTenantOwner,
        [PermGuestRead, PermGuestWrite, PermGuestDelete, PermGuestImport, PermGuestExport,
         PermGiftRead, PermGiftWrite, PermGiftDelete, PermEventRead, PermEventWrite,
         PermEventDelete, PermInvitationRead, PermInvitationWrite, PermInvitationSend,
         PermRSVPRead, PermRSVPWrite, PermCheckinRead, PermCheckinWrite, PermSeatingRead,
         PermSeatingWrite, PermReportRead, PermReportExport, PermCommunicationRead,
         PermCommunicationWrite, PermCommunicationSend, PermBillingRead, PermBillingWrite,
         PermTeamRead, PermTeamWrite, PermTeamInvite, PermEventTeamRead, PermEventTeamWrite,
         PermSettingsRead, PermSettingsWrite, PermAuditRead]),
     (RoleEventManager,
        [PermGuestRead, PermGuestWrite, PermGuestDelete, PermGuestImport, PermGuestExport,
         PermGiftRead, PermGiftWrite, PermGiftDelete, PermEventRead, PermEventWrite,
         PermEventDelete, PermInvitationRead, PermInvitationWrite, PermInvitationSend,
         PermRSVPRead, PermRSVPWrite, PermCheckinRead, PermCheckinWrite, PermSeatingRead,
         PermSeatingWrite, PermReportRead, PermReportExport, PermCommunicationRead,
         PermCommunicationWrite, PermCommunicationSend, PermTeamRead, PermEventTeamRead,
         PermEventTeamWrite, PermSettingsRead]),
     (RoleRSVPOfficer,
        [PermGuestRead, PermGuestWrite, PermEventRead, PermInvitationRead, PermInvitationWrite,
         PermInvitationSend, PermRSVPRead, PermRSVPWrite, PermCommunicationRead,
         PermCommunicationWrite, PermCommunicationSend, PermReportRead, PermSettingsRead]),
     (RoleRegistrationOfficer,
        [PermGuestRead, PermGuestWrite, PermGuestImport, PermGuestExport, PermEventRead,
         PermCheckinRead, PermCheckinWrite, PermReportRead, PermReportExport, PermSettingsRead]),
     (RoleUsher,
        [PermGuestRead, PermEventRead, PermCheckinRead, PermCheckinWrite, PermSeatingRead]),
     (RoleGiftOfficer,
        [PermGuestRead, PermGiftRead, PermGiftWrite, PermGiftDelete, PermEventRead,
         PermReportRead]),
     (RoleViewer,
        [PermGuestRead, PermEventRead, PermInvitationRead, PermRSVPRead, PermCheckinRead,
         PermSeatingRead, PermReportRead, PermCommunicationRead, PermTeamRead,
         PermEventTeamRead, PermSettingsRead])]"

definition RoleDisplayNames :: "(string \<times> string) list" where
  "RoleDisplayNames =
    [(RoleTenantOwner, ''Tenant Owner''),
     (RoleEventManager, ''Event Manager''),
     (RoleRSVPOfficer, ''RSVP Officer''),
     (RoleRegistrationOfficer, ''Registration Officer''),
     (RoleUsher, ''Usher''),
     (RoleGiftOfficer, ''Gift Officer''),
     (RoleViewer, ''Viewer'')]"

definition IsValidRole :: "string \<Rightarrow> bool" where
  "IsValidRole role = (map_of RolePermissions role \<noteq> None)"

definition IsValidEventMemberRole :: "string \<Rightarrow> bool" where
  "IsValidEventMemberRole role \<longleftrightarrow>
     role \<in> {RoleRSVPOfficer, RoleRegistrationOfficer, RoleUsher, RoleGiftOfficer, RoleViewer}"

definition GetPermissionsForRole :: "string \<Rightarrow> string list" where
  "GetPermissionsForRole role = (case map_of RolePermissions role of Some perms \<Rightarrow> perms | None \<Rightarrow> [])"

definition GetDisplayName :: "string \<Rightarrow> string" where
  "GetDisplayName role = (case map_of RoleDisplayNames role of Some name \<Rightarrow> name | None \<Rightarrow> role)"

definition hasPermission :: "string list \<Rightarrow> string \<Rightarrow> bool" where
  "hasPermission perms permission = list_ex (\<lambda>p. p = permission) perms"

definition hasAnyPermission :: "string list \<Rightarrow> string list \<Rightarrow> bool" where
  "hasAnyPermission perms permissions = list_ex (hasPermission perms) permissions"

definition hasAllPermissions :: "string list \<Rightarrow> string list \<Rightarrow> bool" where
  "hasAllPermissions perms permissions = list_all (hasPermission perms) permissions"

section \<open>What a role can do\<close>

lemma hasPermission_iff: "hasPermission perms p \<longleftrightarrow> p \<in> set perms"
  by (auto simp: hasPermission_def list_ex_iff)

lemma hasAnyPermission_iff: "hasAnyPermission perms ps \<longleftrightarrow> set perms \<inter> set ps \<noteq> {}"
  by (auto simp: hasAnyPermission_def list_ex_iff hasPermission_iff)

lemma hasAllPermissions_iff: "hasAllPermissions perms ps \<longleftrightarrow> set ps \<subseteq> set perms"
  by (auto simp: hasAllPermissions_def list_all_iff hasPermission_iff)

lemma GetPermissionsForRole_valid:
  "map_of RolePermissions role = Some perms \<Longrightarrow> GetPermissionsForRole role = perms"
  "\<not> IsValidRole role \<Longrightarrow> GetPermissionsForRole role = []"
  by (auto simp: GetPermissionsForRole_def IsValidRole_def)

text \<open>The permissions that manage the tenant: its team, its billing, its settings, its audit log.\<close>

definition tenant_management :: "string list" where
  "tenant_management = [PermBillingRead, PermBillingWrite, PermTeamWrite, PermTeamInvite,
     PermSettingsWrite, PermAuditRead]"

lemma owner_has_all: "GetPermissionsForRole RoleTenantOwner = AllPermissions"
  by code_simp

lemma roles_within_all:
  "list_all (\<lambda>(role, perms). list_all (\<lambda>p. p \<in> set AllPermissions) perms) RolePermissions"
  by code_simp

lemma staff_manages_no_tenant:
  "list_all (\<lambda>(role, perms). role = RoleTenantOwner
     \<or> list_all (\<lambda>p. p \<notin> set tenant_management) perms) RolePermissions"
  by code_simp

lemma event_roles_valid: "IsValidEventMemberRole role \<Longrightarrow> IsValidRole role"
  by (auto simp: IsValidEventMemberRole_def IsValidRole_def RolePermissions_def)

text \<open>Only the owner's role carries a permission that manages the tenant.\<close>

lemma tenant_management_needs_owner:
  assumes "map_of RolePermissions role = Some perms" and "p \<in> set perms" and "p \<in> set tenant_management"
  shows "role = RoleTenantOwner"
  using staff_manages_no_tenant map_of_SomeD [OF assms(1)] assms(2,3)
  by (fastforce simp: list_all_iff)

end
