(* ===== verification/Accounts.thy ===== *)
theory Accounts
  imports Roles Demo
begin

text \<open>
  Accounts: the repositories of users, tenants and tenant memberships (\<open>UserRepository\<close>,
  \<open>TenantRepository\<close>, \<open>TenantUserRepository\<close>) and the entities they create. The three tables
  have a trigger that sets \<open>updated_at\<close> to \<open>NOW()\<close> in every updated row. The lemmas say what a
  lookup of a membership finds and what each write does to the table of memberships.
\<close>

section \<open>Users\<close>

text \<open>The canonical text of a UUID.\<close>

definition uuid_String :: "uuid \<Rightarrow> string" where
  "uuid_String u = (let h = uuid_hex u in take 8 h @ ''-'' @ take 4 (drop 8 h) @ ''-''
     @ take 4 (drop 12 h) @ ''-'' @ take 4 (drop 16 h) @ ''-'' @ drop 20 h)"

definition user_IsActive :: "user \<Rightarrow> bool" where
  "user_IsActive u \<longleftrightarrow> u_Status u = UserStatusActive \<and> live u"

definition user_Sanitize :: "user \<Rightarrow> user" where
  "user_Sanitize u = u\<lparr>u_PasswordHash := [], u_MFASecret := None\<rparr>"

definition UserRepository_Create :: "user \<Rightarrow> unit app" where
  "UserRepository_Create u = go_bind (exec (insert_user u)) (\<lambda>_. go_ret ())"

text \<open>The lookups do not select \<open>mfa_secret\<close>.\<close>

definition select_user :: "(user \<Rightarrow> bool) \<Rightarrow> db \<Rightarrow> user option" where
  "select_user p d = map_option (\<lambda>u. u\<lparr>u_MFASecret := None\<rparr>) (find (\<lambda>u. p u \<and> live u) (users d))"

definition UserRepository_GetByID :: "uuid \<Rightarrow> user app" where
  "UserRepository_GetByID i = get_one ErrUserNotFound (select_user (\<lambda>u. ID u = i))"

definition UserRepository_GetByEmail :: "string \<Rightarrow> user app" where
  "UserRepository_GetByEmail e = get_one ErrUserNotFound (select_user (\<lambda>u. u_Email u = e))"

definition merge_user :: "user \<Rightarrow> user \<Rightarrow> user" where
  "merge_user u r = r\<lparr>u_Email := u_Email u, u_PasswordHash := u_PasswordHash u,
     u_FullName := u_FullName u, u_Phone := u_Phone u, u_Position := u_Position u, u_Bio := u_Bio u,
     u_AvatarURL := u_AvatarURL u, u_EmailVerifiedAt := u_EmailVerifiedAt u,
     u_MFAEnabled := u_MFAEnabled u, u_Status := u_Status u\<rparr>"

text \<open>An update that sets the address is rejected where another row has that address.\<close>

definition UserRepository_Update :: "user \<Rightarrow> unit app" where
  "UserRepository_Update u = exec_rows ErrOther (\<lambda>srv d.
     let p = (\<lambda>r. ID r = ID u \<and> live r) in
     if list_ex p (users d) \<and> list_ex (\<lambda>r. \<not> p r \<and> u_Email r = u_Email u) (users d) then None
     else Some (sql_update users put_users p (\<lambda>r. (merge_user u r)\<lparr>UpdatedAt := fst srv\<rparr>) d))"

definition UserRepository_UpdatePassword :: "uuid \<Rightarrow> string \<Rightarrow> unit app" where
  "UserRepository_UpdatePassword i passwordHash = go_bind now (\<lambda>tm.
     exec_rows ErrUserNotFound (\<lambda>srv d. Some (sql_update users put_users (\<lambda>r. ID r = i \<and> live r)
       (\<lambda>r. r\<lparr>u_PasswordHash := passwordHash, UpdatedAt := fst srv\<rparr>) d)))"

definition deleted_email :: "user \<Rightarrow> string" where
  "deleted_email r = u_Email r @ ''.deleted.'' @ uuid_String (ID r)"

definition UserRepository_SoftDelete :: "uuid \<Rightarrow> unit app" where
  "UserRepository_SoftDelete i = go_bind now (\<lambda>tm. exec_rows ErrOther (\<lambda>srv d.
     let p = (\<lambda>r. ID r = i \<and> live r) in
     if list_ex (\<lambda>u. p u \<and> list_ex (\<lambda>r. \<not> p r \<and> u_Email r = deleted_email u) (users d)) (users d)
     then None
     else Some (sql_update users put_users p (\<lambda>r. r\<lparr>DeletedAt := Some tm, UpdatedAt := fst srv,
       u_Email := deleted_email r\<rparr>) d)))"

definition UserRepository_EmailExists :: "string \<Rightarrow> bool app" where
  "UserRepository_EmailExists e = query (\<lambda>d. list_ex (\<lambda>u. u_Email u = e \<and> live u) (users d))"

section \<open>Tenants\<close>

text \<open>Fourteen days in nanoseconds; in UTC every day has twenty-four hours.\<close>

definition trial_period :: time where
  "trial_period = 14 * 24 * 3600 * 10 ^ 9"

definition NewTenant :: "string \<Rightarrow> string \<Rightarrow> ('d, tenant) go" where
  "NewTenant name slug = go_bind now (\<lambda>now'. go_bind NewBase (\<lambda>(i, t).
     go_ret \<lparr>ID = i, CreatedAt = t, UpdatedAt = t, DeletedAt = None, t_Name = name, t_Slug = slug,
       t_Description = None, t_LogoURL = None, t_PrimaryColor = ''#3B82F6'', t_Settings = Some [],
       t_Status = TenantStatusTrial, t_TrialEndsAt = Some (now' + trial_period)\<rparr>))"

definition IsTrialExpired :: "tenant \<Rightarrow> ('d, bool) go" where
  "IsTrialExpired t = (if t_Status t \<noteq> TenantStatusTrial then go_ret False
     else case t_TrialEndsAt t of None \<Rightarrow> go_ret False
     | Some ends \<Rightarrow> go_bind now (\<lambda>tm. go_ret (ends < tm)))"

definition TenantRepository_Create :: "tenant \<Rightarrow> unit app" where
  "TenantRepository_Create t = go_bind (exec (insert_tenant t)) (\<lambda>_. go_ret ())"

definition TenantRepository_GetByID :: "uuid \<Rightarrow> tenant app" where
  "TenantRepository_GetByID i = get_one ErrTenantNotFound (\<lambda>d. find (\<lambda>t. ID t = i \<and> live t) (tenants d))"

definition TenantRepository_GetBySlug :: "string \<Rightarrow> tenant app" where
  "TenantRepository_GetBySlug s =
     get_one ErrTenantNotFound (\<lambda>d. find (\<lambda>t. t_Slug t = s \<and> live t) (tenants d))"

definition merge_tenant :: "tenant \<Rightarrow> tenant \<Rightarrow> tenant" where
  "merge_tenant t r = r\<lparr>t_Name := (if t_Name t = [] then t_Name r else t_Name t),
     t_Description := coalesce (t_Description t) (t_Description r),
     t_LogoURL := coalesce (t_LogoURL t) (t_LogoURL r),
     t_PrimaryColor := (if t_PrimaryColor t = [] then t_PrimaryColor r else t_PrimaryColor t),
     t_Settings := coalesce (t_Settings t) (t_Settings r),
     t_Status := (if t_Status t = [] then t_Status r else t_Status t),
     t_TrialEndsAt := coalesce (t_TrialEndsAt t) (t_TrialEndsAt r)\<rparr>"

definition TenantRepository_Update :: "tenant \<Rightarrow> unit app" where
  "TenantRepository_Update t = exec_rows ErrTenantNotFound (\<lambda>srv d.
     Some (sql_update tenants put_tenants (\<lambda>r. ID r = ID t \<and> live r)
       (\<lambda>r. (merge_tenant t r)\<lparr>UpdatedAt := fst srv\<rparr>) d))"

definition TenantRepository_ListByUser :: "uuid \<Rightarrow> tenant list app" where
  "TenantRepository_ListByUser u = query (\<lambda>d. sort_key (\<lambda>t. - CreatedAt t)
     (concat (map (\<lambda>t. map (\<lambda>_. t) (filter (\<lambda>m. TenantID m = ID t \<and> m_UserID m = u
        \<and> m_Status m = MembershipStatusActive) (tenant_users d))) (filter live (tenants d)))))"

definition TenantRepository_ListActive :: "tenant list app" where
  "TenantRepository_ListActive =
     query (\<lambda>d. filter (\<lambda>t. t_Status t \<in> {''trial'', ''active''} \<and> live t) (tenants d))"

definition TenantRepository_SoftDelete :: "uuid \<Rightarrow> unit app" where
  "TenantRepository_SoftDelete i = exec_rows ErrTenantNotFound (\<lambda>srv d.
     Some (sql_update tenants put_tenants (\<lambda>r. ID r = i \<and> live r)
       (\<lambda>r. r\<lparr>DeletedAt := Some (fst srv), UpdatedAt := fst srv\<rparr>) d))"

definition TenantRepository_SlugExists :: "string \<Rightarrow> bool app" where
  "TenantRepository_SlugExists s = query (\<lambda>d. list_ex (\<lambda>t. t_Slug t = s \<and> live t) (tenants d))"

section \<open>Memberships\<close>

definition NewTenantMembership ::
  "uuid \<Rightarrow> uuid \<Rightarrow> string \<Rightarrow> uuid option \<Rightarrow> ('d, tenant_membership) go" where
  "NewTenantMembership tenantID userID role invitedBy = go_bind now (\<lambda>now'. go_bind NewBase (\<lambda>(i, t).
     go_ret \<lparr>ID = i, CreatedAt = t, UpdatedAt = t, DeletedAt = None, TenantID = tenantID,
       m_UserID = userID, m_Role = role, m_InvitedBy = invitedBy,
       m_InvitedAt = map_option (\<lambda>_. now') invitedBy, m_JoinedAt = None,
       m_Status = MembershipStatusActive\<rparr>))"

definition TenantUserRepository_Create :: "tenant_membership \<Rightarrow> unit app" where
  "TenantUserRepository_Create m = go_bind (exec (insert_membership m)) (\<lambda>_. go_ret ())"

definition TenantUserRepository_UpsertActive :: "tenant_membership \<Rightarrow> unit app" where
  "TenantUserRepository_UpsertActive m = go_bind (exec (upsert_membership m)) (\<lambda>_. go_ret ())"

text \<open>The condition \<open>tenant_id = $1 AND user_id = $2\<close>, and with it \<open>status = 'active'\<close>.\<close>

definition member_key :: "uuid \<Rightarrow> uuid \<Rightarrow> tenant_membership \<Rightarrow> bool" where
  "member_key t u m \<longleftrightarrow> TenantID m = t \<and> m_UserID m = u"

definition active_member :: "uuid \<Rightarrow> uuid \<Rightarrow> tenant_membership \<Rightarrow> bool" where
  "active_member t u m \<longleftrightarrow> member_key t u m \<and> m_Status m = MembershipStatusActive"

definition TenantUserRepository_Get :: "uuid \<Rightarrow> uuid \<Rightarrow> tenant_membership app" where
  "TenantUserRepository_Get t u =
     get_one ErrMembershipNotFound (\<lambda>d. find (active_member t u) (tenant_users d))"

definition TenantUserRepository_UpdateRole :: "uuid \<Rightarrow> uuid \<Rightarrow> string \<Rightarrow> unit app" where
  "TenantUserRepository_UpdateRole t u role = exec_rows ErrMembershipNotFound (\<lambda>srv d.
     Some (sql_update tenant_users put_tenant_users (active_member t u)
       (\<lambda>r. r\<lparr>m_Role := role, UpdatedAt := fst srv\<rparr>) d))"

definition TenantUserRepository_ListByTenant :: "uuid \<Rightarrow> tenant_membership list app" where
  "TenantUserRepository_ListByTenant t = query (\<lambda>d. sort_key (\<lambda>m. - CreatedAt m)
     (filter (\<lambda>m. TenantID m = t \<and> m_Status m = MembershipStatusActive) (tenant_users d)))"

definition TenantUserRepository_ListByUser :: "uuid \<Rightarrow> tenant_membership list app" where
  "TenantUserRepository_ListByUser u = query (\<lambda>d. sort_key (\<lambda>m. - CreatedAt m)
     (filter (\<lambda>m. m_UserID m = u \<and> m_Status m = MembershipStatusActive) (tenant_users d)))"

definition TenantUserRepository_SoftDelete :: "uuid \<Rightarrow> uuid \<Rightarrow> unit app" where
  "TenantUserRepository_SoftDelete t u = exec_rows ErrMembershipNotFound (\<lambda>srv d.
     Some (sql_update tenant_users put_tenant_users (active_member t u)
       (\<lambda>r. r\<lparr>m_Status := MembershipStatusInactive, UpdatedAt := fst srv\<rparr>) d))"

definition TenantUserRepository_HasAccess :: "uuid \<Rightarrow> uuid \<Rightarrow> bool app" where
  "TenantUserRepository_HasAccess t u = query (\<lambda>d. list_ex (active_member t u) (tenant_users d))"

text \<open>\<open>GetRole\<close> accepts every status but \<open>inactive\<close>.\<close>

definition TenantUserRepository_GetRole :: "uuid \<Rightarrow> uuid \<Rightarrow> string app" where
  "TenantUserRepository_GetRole t u = get_one ErrMembershipNotFound (\<lambda>d. map_option m_Role
     (find (\<lambda>m. member_key t u m \<and> m_Status m \<noteq> MembershipStatusInactive) (tenant_users d)))"

section \<open>The table of memberships\<close>

text \<open>One row per tenant and user, the role it gives, and the active owners of a tenant.\<close>

definition members_ok :: "tenant_membership list \<Rightarrow> bool" where
  "members_ok ms \<longleftrightarrow> distinct (map (\<lambda>m. (TenantID m, m_UserID m)) ms)"

definition role_of :: "uuid \<Rightarrow> uuid \<Rightarrow> tenant_membership list \<Rightarrow> string option" where
  "role_of t u ms = map_option m_Role
     (find (\<lambda>m. member_key t u m \<and> m_Status m \<noteq> MembershipStatusInactive) ms)"

definition owners :: "uuid \<Rightarrow> tenant_membership list \<Rightarrow> tenant_membership list" where
  "owners t ms = filter (\<lambda>m. TenantID m = t \<and> m_Role m = RoleTenantOwner
     \<and> m_Status m = MembershipStatusActive) ms"

text \<open>
  What a write of the membership of \<open>u\<close> in \<open>t\<close> may do: the rows of every other pair stay as they
  are, in their order, the pairs stay distinct, no active owner is lost and none is gained.
\<close>

definition member_step :: "uuid \<Rightarrow> uuid \<Rightarrow> tenant_membership list \<Rightarrow> tenant_membership list \<Rightarrow> bool" where
  "member_step t u ms ms' \<longleftrightarrow>
     filter (\<lambda>m. \<not> member_key t u m) ms' = filter (\<lambda>m. \<not> member_key t u m) ms
     \<and> (members_ok ms \<longrightarrow> members_ok ms' \<and> (\<forall>t'. owners t' ms' = owners t' ms)
          \<and> (\<forall>t' u'. role_of t' u' ms' = Some RoleTenantOwner \<longrightarrow> role_of t' u' ms = Some RoleTenantOwner))"

lemma find_filter: "find P xs = find P (filter Q xs)" if "\<And>x. P x \<Longrightarrow> Q x"
  using that by (induction xs) auto

lemma role_of_other:
  assumes "member_step t u ms ms'" and "(t', u') \<noteq> (t, u)"
  shows "role_of t' u' ms' = role_of t' u' ms"
proof -
  let ?P = "\<lambda>m. member_key t' u' m \<and> m_Status m \<noteq> MembershipStatusInactive"
  let ?Q = "\<lambda>m. \<not> member_key t u m"
  have same: "find ?P xs = find ?P (filter ?Q xs)" for xs
    by (rule find_filter) (use assms(2) in \<open>auto simp: member_key_def\<close>)
  have "find ?P (filter ?Q ms') = find ?P (filter ?Q ms)" using assms(1) by (simp add: member_step_def)
  then have "find ?P ms' = find ?P ms" using same [of ms] same [of ms'] by argo
  then show ?thesis by (simp add: role_of_def)
qed

lemma role_of_append: "role_of t u ms = Some r \<Longrightarrow> role_of t u (ms @ ns) = Some r"
  unfolding role_of_def by (induction ms) auto

lemma find_append: "find P (xs @ ys) = (case find P xs of None \<Rightarrow> find P ys | Some x \<Rightarrow> Some x)"
  by (induction xs) auto

lemma filter_update_where:
  "(\<And>r. r \<in> set rs \<Longrightarrow> p r \<Longrightarrow> \<not> q r \<and> \<not> q (f r)) \<Longrightarrow> filter q (update_where p f rs) = filter q rs"
  by (induction rs) (auto simp: update_where_def)

lemma role_of_row:
  assumes "members_ok ms" and "m \<in> set ms" and "member_key t u m"
    and "m_Status m \<noteq> MembershipStatusInactive"
  shows "role_of t u ms = Some (m_Role m)"
proof -
  obtain n where n: "find (\<lambda>m. member_key t u m \<and> m_Status m \<noteq> MembershipStatusInactive) ms = Some n"
    using assms(2-4) by (cases "find (\<lambda>m. member_key t u m \<and> m_Status m \<noteq> MembershipStatusInactive) ms")
      (auto dest: find_None_D)
  with assms(1-3) have "n = m"
    by (auto simp: members_ok_def member_key_def distinct_map dest!: find_Some_D dest: inj_onD)
  with n show ?thesis by (simp add: role_of_def)
qed

lemma role_of_SomeD:
  assumes "role_of t u ms = Some r"
  obtains m where "m \<in> set ms" and "member_key t u m" and "m_Status m \<noteq> MembershipStatusInactive"
    and "m_Role m = r"
  using assms by (auto simp: role_of_def dest: find_Some_D)

lemma members_ok_append:
  "members_ok (ms @ [m]) \<longleftrightarrow> members_ok ms \<and> \<not> list_ex (same_member m) ms"
  by (auto simp: members_ok_def same_member_def list_ex_iff image_iff)

lemma member_step_append:
  assumes "member_key t u m" and "\<not> list_ex (same_member m) ms" and "m_Role m \<noteq> RoleTenantOwner"
  shows "member_step t u ms (ms @ [m])"
proof -
  have "role_of t' u' (ms @ [m]) = Some RoleTenantOwner \<Longrightarrow> role_of t' u' ms = Some RoleTenantOwner" for t' u'
    using assms(3) by (auto simp: role_of_def find_append split: option.splits if_splits)
  with assms show ?thesis
    by (auto simp: member_step_def members_ok_append owners_def)
qed

lemma member_step_update:
  assumes key: "\<And>m. p m \<Longrightarrow> member_key t u m"
    and same: "\<And>m. TenantID (f m) = TenantID m \<and> m_UserID (f m) = m_UserID m"
    and before: "\<And>m. members_ok ms \<Longrightarrow> m \<in> set ms \<Longrightarrow> p m \<Longrightarrow>
      \<not> (m_Role m = RoleTenantOwner \<and> m_Status m = MembershipStatusActive)"
    and after: "\<And>m. m_Role (f m) \<noteq> RoleTenantOwner \<or> m_Status (f m) = MembershipStatusInactive"
  shows "member_step t u ms (update_where p f ms)"
proof -
  have others: "filter (\<lambda>m. \<not> member_key t u m) (update_where p f ms) = filter (\<lambda>m. \<not> member_key t u m) ms"
    by (rule filter_update_where) (use key same in \<open>auto simp: member_key_def\<close>)
  have keys: "map (\<lambda>m. (TenantID m, m_UserID m)) (update_where p f ms)
      = map (\<lambda>m. (TenantID m, m_UserID m)) ms"
    by (rule map_update_where) (simp add: same)
  have owned: "owners t' (update_where p f ms) = owners t' ms" if "members_ok ms" for t'
    unfolding owners_def
    by (rule filter_update_where) (use before [OF that] after in fastforce)
  have gained: "role_of t' u' ms = Some RoleTenantOwner"
    if ok: "members_ok ms" and own: "role_of t' u' (update_where p f ms) = Some RoleTenantOwner" for t' u'
  proof -
    obtain m where m: "m \<in> set (update_where p f ms)" "member_key t' u' m"
      "m_Status m \<noteq> MembershipStatusInactive" "m_Role m = RoleTenantOwner"
      using own by (rule role_of_SomeD)
    with after have "m \<in> set ms" by (auto simp: set_update_where)
    with ok m show ?thesis by (metis role_of_row)
  qed
  show ?thesis using others keys owned gained by (simp add: member_step_def members_ok_def)
qed

text \<open>A lookup of an active member finds the only row of the pair.\<close>

lemma active_member_unique:
  assumes "members_ok ms" and "find (active_member t u) ms = Some m" and "n \<in> set ms"
    and "member_key t u n"
  shows "n = m"
proof -
  have "m \<in> set ms" "member_key t u m"
    using find_Some_D [OF assms(2)] by (auto simp: active_member_def)
  with assms(1,3,4) show ?thesis
    by (auto simp: members_ok_def member_key_def distinct_map dest: inj_onD)
qed

section \<open>Runs on memberships\<close>

lemma MemberGet_Inr:
  "TenantUserRepository_Get t u w = (Inr m, w') \<longleftrightarrow> \<not> faults w (pos w)
     \<and> find (active_member t u) (tenant_users (store w)) = Some m \<and> w' = tick w"
  by (simp add: TenantUserRepository_Get_def get_one_Inr)

lemma MemberGet_Inl:
  "TenantUserRepository_Get t u w = (Inl e, w') \<longleftrightarrow> w' = tick w \<and>
     (if faults w (pos w) then e = ErrDB
      else find (active_member t u) (tenant_users (store w)) = None \<and> e = ErrMembershipNotFound)"
  by (simp add: TenantUserRepository_Get_def get_one_Inl)

lemma UpdateRole_step:
  assumes "TenantUserRepository_UpdateRole t u role w = (r, w')"
    and "find (active_member t u) (tenant_users (store w)) = Some m"
    and "m_Role m \<noteq> RoleTenantOwner" and "role \<noteq> RoleTenantOwner"
  shows "member_step t u (tenant_users (store w)) (tenant_users (store w')) \<and> tenants (store w') = tenants (store w)"
proof -
  let ?f = "\<lambda>x. x\<lparr>m_Role := role, UpdatedAt := clock w (pos w)\<rparr>"
  have step: "member_step t u (tenant_users (store w))
      (update_where (active_member t u) ?f (tenant_users (store w)))"
    by (rule member_step_update)
      (use assms(2-4) in \<open>auto simp: active_member_def dest: active_member_unique\<close>)
  show ?thesis
    using assms(1) step unfolding TenantUserRepository_UpdateRole_def
    by (cases r) (auto simp: tenant_users_table.update_run tenant_users_table.update_fails member_step_def)
qed

lemma SoftDelete_step:
  assumes "TenantUserRepository_SoftDelete t u w = (r, w')"
    and "find (active_member t u) (tenant_users (store w)) = Some m"
    and "m_Role m \<noteq> RoleTenantOwner"
  shows "member_step t u (tenant_users (store w)) (tenant_users (store w')) \<and> tenants (store w') = tenants (store w)"
proof -
  let ?f = "\<lambda>x. x\<lparr>m_Status := MembershipStatusInactive, UpdatedAt := clock w (pos w)\<rparr>"
  have step: "member_step t u (tenant_users (store w))
      (update_where (active_member t u) ?f (tenant_users (store w)))"
    by (rule member_step_update)
      (use assms(2,3) in \<open>auto simp: active_member_def dest: active_member_unique\<close>)
  show ?thesis
    using assms(1) step unfolding TenantUserRepository_SoftDelete_def
    by (cases r) (auto simp: tenant_users_table.update_run tenant_users_table.update_fails member_step_def)
qed

lemma UpsertActive_step:
  assumes "TenantUserRepository_UpsertActive m w = (r, w')"
    and "find (active_member (TenantID m) (m_UserID m)) (tenant_users (store w)) = None"
    and "m_Role m \<noteq> RoleTenantOwner"
  shows "member_step (TenantID m) (m_UserID m) (tenant_users (store w)) (tenant_users (store w'))
    \<and> tenants (store w') = tenants (store w) \<and> (\<forall>e. r = Inl e \<longrightarrow> store w' = store w)"
proof -
  let ?f = "\<lambda>x. x\<lparr>m_Role := m_Role m, m_InvitedBy := m_InvitedBy m, m_InvitedAt := m_InvitedAt m,
    m_JoinedAt := m_JoinedAt m, m_Status := m_Status m, UpdatedAt := clock w (pos w)\<rparr>"
  have inactive: "m_Status x \<noteq> MembershipStatusActive"
    if "x \<in> set (tenant_users (store w))" "same_member m x" for x
    using find_None_D [OF assms(2) that(1)] that(2)
    by (auto simp: active_member_def member_key_def same_member_def)
  have update: "member_step (TenantID m) (m_UserID m) (tenant_users (store w))
      (update_where (same_member m) ?f (tenant_users (store w)))"
    by (rule member_step_update)
      (use assms(3) inactive in \<open>auto simp: member_key_def same_member_def\<close>)
  have insert: "\<not> list_ex (same_member m) (tenant_users (store w)) \<Longrightarrow>
      member_step (TenantID m) (m_UserID m) (tenant_users (store w)) (tenant_users (store w) @ [m])"
    by (rule member_step_append) (use assms(3) in \<open>auto simp: member_key_def\<close>)
  show ?thesis
    using assms(1) update insert
    by (cases r) (auto simp: TenantUserRepository_UpsertActive_def go_bind_Inr go_bind_Inl exec_Inr
        exec_Inl upsert_membership_def insert_membership_def member_step_def split: if_splits)
qed

end
