(* ===== verification/Midtrans.thy ===== *)
theory Midtrans
  imports Accounts
begin

text \<open>
  The payment gateway client of \<open>payment/midtrans_client.go\<close>: order ids, the request for a Snap
  transaction, the signature of a notification (SHA-512, written out as FIPS 180-4 gives it) and the
  reading of transaction statuses. What the gateway answers is a parameter (\<open>snap\<close>, of the position
  in the run and the request). The lemmas show that the signature is checked up to the case of its
  letters.
\<close>

unbundle bit_operations_syntax

section \<open>SHA-512\<close>

type_synonym w64 = "64 word"

definition sha512_K :: "w64 list" where
  "sha512_K = [
    0x428a2f98d728ae22, 0x7137449123ef65cd, 0xb5c0fbcfec4d3b2f, 0xe9b5dba58189dbbc,
    0x3956c25bf348b538, 0x59f111f1b605d019, 0x923f82a4af194f9b, 0xab1c5ed5da6d8118,
    0xd807aa98a3030242, 0x12835b0145706fbe, 0x243185be4ee4b28c, 0x550c7dc3d5ffb4e2,
    0x72be5d74f27b896f, 0x80deb1fe3b1696b1, 0x9bdc06a725c71235, 0xc19bf174cf692694,
    0xe49b69c19ef14ad2, 0xefbe4786384f25e3, 0x0fc19dc68b8cd5b5, 0x240ca1cc77ac9c65,
    0x2de92c6f592b0275, 0x4a7484aa6ea6e483, 0x5cb0a9dcbd41fbd4, 0x76f988da831153b5,
    0x983e5152ee66dfab, 0xa831c66d2db43210, 0xb00327c898fb213f, 0xbf597fc7beef0ee4,
    0xc6e00bf33da88fc2, 0xd5a79147930aa725, 0x06ca6351e003826f, 0x142929670a0e6e70,
    0x27b70a8546d22ffc, 0x2e1b21385c26c926, 0x4d2c6dfc5ac42aed, 0x53380d139d95b3df,
    0x650a73548baf63de, 0x766a0abb3c77b2a8, 0x81c2c92e47edaee6, 0x92722c851482353b,
    0xa2bfe8a14cf10364, 0xa81a664bbc423001, 0xc24b8b70d0f89791, 0xc76c51a30654be30,
    0xd192e819d6ef5218, 0xd69906245565a910, 0xf40e35855771202a, 0x106aa07032bbd1b8,
    0x19a4c116b8d2d0c8, 0x1e376c085141ab53, 0x2748774cdf8eeb99, 0x34b0bcb5e19b48a8,
    0x391c0cb3c5c95a63, 0x4ed8aa4ae3418acb, 0x5b9cca4f7763e373, 0x682e6ff3d6b2b8a3,
    0x748f82ee5defb2fc, 0x78a5636f43172f60, 0x84c87814a1f0ab72, 0x8cc702081a6439ec,
    0x90befffa23631e28, 0xa4506cebde82bde9, 0xbef9a3f7b2c67915, 0xc67178f2e372532b,
    0xca273eceea26619c, 0xd186b8c721c0c207, 0xeada7dd6cde0eb1e, 0xf57d4f7fee6ed178,
    0x06f067aa72176fba, 0x0a637dc5a2c898a6, 0x113f9804bef90dae, 0x1b710b35131c471b,
    0x28db77f523047d84, 0x32caab7b40c72493, 0x3c9ebe0a15c9bebc, 0x431d67c49c100d4c,
    0x4cc5d4becb3e42b6, 0x597f299cfc657e2a, 0x5fcb6fab3ad6faec, 0x6c44198c4a475817]"

definition sha512_init :: "w64 list" where
  "sha512_init = [
    0x6a09e667f3bcc908, 0xbb67ae8584caa73b, 0x3c6ef372fe94f82b, 0xa54ff53a5f1d36f1,
    0x510e527fade682d1, 0x9b05688c2b3e6c1f, 0x1f83d9abfb41bd6b, 0x5be0cd19137e2179]"

text \<open>The message, a one bit, zeros, and the length in bits as 128 bits, big-endian.\<close>

definition sha512_pad :: "byte list \<Rightarrow> byte list" where
  "sha512_pad m = m @ [0x80] @ replicate ((239 - length m mod 128) mod 128) 0 @
     map (\<lambda>i. ucast (drop_bit (8 * (15 - i)) (of_nat (8 * length m) :: 128 word))) [0..<16]"

fun sha512_words :: "byte list \<Rightarrow> w64 list" where
  "sha512_words (a # b # c # d # e # f # g # h # bs) =
     (push_bit 56 (ucast a) OR push_bit 48 (ucast b) OR push_bit 40 (ucast c) OR push_bit 32 (ucast d) OR
      push_bit 24 (ucast e) OR push_bit 16 (ucast f) OR push_bit 8 (ucast g) OR ucast h) # sha512_words bs"
| "sha512_words _ = []"

text \<open>The message schedule, newest word first.\<close>

definition sha512_next :: "w64 list \<Rightarrow> w64" where
  "sha512_next ws =
     (let x = ws ! 14; y = ws ! 1;
          s0 = word_rotr 1 x XOR word_rotr 8 x XOR drop_bit 7 x;
          s1 = word_rotr 19 y XOR word_rotr 61 y XOR drop_bit 6 y
      in ws ! 15 + s0 + ws ! 6 + s1)"

definition sha512_schedule :: "w64 list \<Rightarrow> w64 list" where
  "sha512_schedule block = rev (((\<lambda>ws. sha512_next ws # ws) ^^ 64) (rev block))"

fun sha512_round :: "w64 \<times> w64 \<Rightarrow> w64 list \<Rightarrow> w64 list" where
  "sha512_round (k, w) [a, b, c, d, e, f, g, h] =
     (let S1 = word_rotr 14 e XOR word_rotr 18 e XOR word_rotr 41 e;
          ch = (e AND f) XOR (NOT e AND g);
          t1 = h + S1 + ch + k + w;
          S0 = word_rotr 28 a XOR word_rotr 34 a XOR word_rotr 39 a;
          maj = (a AND b) XOR (a AND c) XOR (b AND c);
          t2 = S0 + maj
      in [t1 + t2, a, b, c, d + t1, e, f, g])"
| "sha512_round _ hs = hs"

definition sha512_block :: "w64 list \<Rightarrow> w64 list \<Rightarrow> w64 list" where
  "sha512_block block hs = map2 (+) hs (fold sha512_round (zip sha512_K (sha512_schedule block)) hs)"

fun sha512_blocks :: "nat \<Rightarrow> w64 list \<Rightarrow> w64 list \<Rightarrow> w64 list" where
  "sha512_blocks 0 ws hs = hs"
| "sha512_blocks (Suc n) ws hs = sha512_blocks n (drop 16 ws) (sha512_block (take 16 ws) hs)"

definition sha512_bytes :: "w64 \<Rightarrow> byte list" where
  "sha512_bytes w = map (\<lambda>i. ucast (drop_bit (8 * (7 - i)) w)) [0..<8]"

definition sha512_Sum :: "byte list \<Rightarrow> byte list" where
  "sha512_Sum m =
     (let ws = sha512_words (sha512_pad m)
      in concat (map sha512_bytes (sha512_blocks (length ws div 16) ws sha512_init)))"

section \<open>Numbers and letters\<close>

text \<open>The verb \<open>%d\<close> of \<open>fmt.Sprintf\<close>.\<close>

fun digits :: "nat \<Rightarrow> string" where
  "digits n = (if n < 10 then [char_of (48 + n)] else digits (n div 10) @ [char_of (48 + n mod 10)])"

declare digits.simps [simp del]

definition itoa :: "int \<Rightarrow> string" where
  "itoa n = (if n < 0 then CHR ''-'' # digits (nat (- n)) else digits (nat n))"

text \<open>
  \<open>strings.EqualFold\<close> with a text of hexadecimal digits: no character outside ASCII folds to one of
  them, so folding is the lower case of ASCII.
\<close>

definition lower_ascii :: "char \<Rightarrow> char" where
  "lower_ascii c = (let n = of_char c :: nat in if 65 \<le> n \<and> n \<le> 90 then char_of (n + 32) else c)"

definition EqualFold :: "string \<Rightarrow> string \<Rightarrow> bool" where
  "EqualFold a b \<longleftrightarrow> map lower_ascii a = map lower_ascii b"

section \<open>The client\<close>

record client =
  mc_serverKey :: string
  mc_clientKey :: string
  mc_isProduction :: bool

definition SnapURL :: "client \<Rightarrow> string" where
  "SnapURL c = (if mc_isProduction c then ''https://app.midtrans.com/snap/snap.js''
     else ''https://app.sandbox.midtrans.com/snap/snap.js'')"

definition CreateOrderID :: "uuid \<Rightarrow> ('d, string) go" where
  "CreateOrderID tenantID =
     go_bind now (\<lambda>t. go_bind uuid_New (\<lambda>u.
       go_ret (''GF-'' @ take 8 (filter (\<lambda>c. c \<noteq> CHR ''-'') (uuid_String tenantID)) @ ''-''
         @ itoa (t div 10 ^ 9) @ ''-'' @ take 4 (uuid_String u))))"

record create_snap_request =
  csr_OrderID :: string
  csr_AmountIDR :: int
  csr_PlanName :: string
  csr_BillingCycle :: string
  csr_TenantID :: uuid
  csr_CustomerName :: string
  csr_CustomerEmail :: string
  csr_CustomerPhone :: string

text \<open>The request that the gateway receives (\<open>snap.Request\<close>), one item and a day to pay.\<close>

record snap_request =
  sr_OrderID :: string
  sr_GrossAmt :: int
  sr_FName :: string
  sr_Email :: string
  sr_Phone :: string
  sr_ItemID :: string
  sr_ItemName :: string
  sr_ItemPrice :: int
  sr_ItemQty :: int
  sr_ExpiryUnit :: string
  sr_ExpiryDuration :: int

definition snap_of :: "create_snap_request \<Rightarrow> snap_request" where
  "snap_of req =
     (let billingLabel = (if csr_BillingCycle req = ''yearly'' then ''tahunan'' else ''bulanan'') in
      \<lparr>sr_OrderID = csr_OrderID req, sr_GrossAmt = csr_AmountIDR req, sr_FName = csr_CustomerName req,
       sr_Email = csr_CustomerEmail req, sr_Phone = csr_CustomerPhone req, sr_ItemID = csr_OrderID req,
       sr_ItemName = ''GuestFlow '' @ csr_PlanName req @ '' ('' @ billingLabel @ '')'',
       sr_ItemPrice = csr_AmountIDR req, sr_ItemQty = 1, sr_ExpiryUnit = ''day'', sr_ExpiryDuration = 1\<rparr>)"

definition CreateTransaction ::
  "(nat \<Rightarrow> snap_request \<Rightarrow> string option) \<Rightarrow> create_snap_request \<Rightarrow> ('d, string) go" where
  "CreateTransaction snap req w =
     (case snap (pos w) (snap_of req) of None \<Rightarrow> Inl ErrOther | Some token \<Rightarrow> Inr token, tick w)"

record notification_payload =
  np_TransactionTime :: string
  np_TransactionStatus :: string
  np_TransactionID :: string
  np_SignatureKey :: string
  np_PaymentType :: string
  np_OrderID :: string
  np_MerchantID :: string
  np_GrossAmount :: string
  np_FraudStatus :: string
  np_Currency :: string
  np_VANumbers :: "(string \<times> string) list"

definition VerifySignature :: "client \<Rightarrow> string \<Rightarrow> string \<Rightarrow> string \<Rightarrow> string \<Rightarrow> bool" where
  "VerifySignature c orderID statusCode grossAmount signatureKey \<longleftrightarrow>
     EqualFold (hex_EncodeToString (sha512_Sum (bytes_of (orderID @ statusCode @ grossAmount @ mc_serverKey c))))
       signatureKey"

definition IsSuccessStatus :: "string \<Rightarrow> string \<Rightarrow> bool" where
  "IsSuccessStatus status fraudStatus \<longleftrightarrow>
     (if status = ''capture'' then fraudStatus = ''accept'' else status = ''settlement'')"

definition IsFailedStatus :: "string \<Rightarrow> bool" where
  "IsFailedStatus status \<longleftrightarrow> status = ''deny'' \<or> status = ''cancel'' \<or> status = ''failure''"

definition IsExpiredStatus :: "string \<Rightarrow> bool" where
  "IsExpiredStatus status \<longleftrightarrow> status = ''expire''"

section \<open>Facts about the client\<close>

lemma EqualFold_refl: "EqualFold s s"
  by (simp add: EqualFold_def)

lemma CreateOrderID_run:
  "CreateOrderID t w = (r, w') \<Longrightarrow> w' = w\<lparr>pos := pos w + 2\<rparr> \<and> (\<exists>i. r = Inr i)"
  by (auto simp: CreateOrderID_def go_bind_run now_def uuid_New_def tick_def)

lemma CreateTransaction_store: "CreateTransaction snap req w = (r, w') \<Longrightarrow> w' = tick w"
  by (simp add: CreateTransaction_def)

text \<open>A signature is 128 digits long, so it is never empty.\<close>

lemma length_sha512_blocks: "length hs = 8 \<Longrightarrow> length (sha512_blocks n ws hs) = 8"
proof (induction n arbitrary: ws hs)
  case (Suc n)
  have round: "length (sha512_round kw gs) = length gs" for kw and gs :: "w64 list"
    by (cases "(kw, gs)" rule: sha512_round.cases) (auto simp: Let_def)
  have "length (fold sha512_round ks gs) = length gs" for ks and gs :: "w64 list"
    by (induction ks arbitrary: gs) (auto simp: round)
  then have "length (sha512_block (take 16 ws) hs) = 8"
    using Suc.prems by (simp add: sha512_block_def)
  with Suc.IH show ?case by simp
qed simp

lemma length_sha512_Sum: "length (sha512_Sum m) = 64"
proof -
  have "length (concat (map sha512_bytes hs)) = 8 * length hs" for hs
    by (induction hs) (auto simp: sha512_bytes_def)
  then show ?thesis
    by (simp add: sha512_Sum_def Let_def length_sha512_blocks sha512_init_def)
qed

lemma signature_nonempty: "hex_EncodeToString (sha512_Sum m) \<noteq> []"
proof
  assume "hex_EncodeToString (sha512_Sum m) = []"
  then have "length (hex_EncodeToString (sha512_Sum m)) = 0" by simp
  then show False by (simp add: length_hex length_sha512_Sum)
qed

end
