(* ===== verification/Access.thy ===== *)
theory Access
  imports Accounts Events
begin

text \<open>
  Access control: the permission cache of \<open>rbac.Service\<close>, the staff of an event
  (\<open>EventMemberRepository\<close>, \<open>EventMemberService\<close>), the effective role of a user in an event
  (\<open>EventAccessService\<close>) and the tenant service with its memberships (\<open>TenantService\<close>).

  The cache is memory of the process, so the services that use it run on a \<open>process\<close>: the database
  and the cache. A call that only uses the database is lifted by \<open>on_db\<close>. Parameters are the
  lower-casing of the Go library (\<open>lower\<close>), bcrypt (\<open>bcrypt\<close>, of a salt, a password and a cost) and
  the billing service, of which only the limit on team members is asked.
\<close>

section \<open>The process and its memory\<close>

record permission_cache_entry =
  pce_role :: string
  pce_perms :: "string list"
  pce_expiresAt :: time

text \<open>The key \<open>tenantID:userID\<close> is the pair of the two ids.\<close>

record process =
  database :: db
  cache :: "uuid \<times> uuid \<Rightarrow> permission_cache_entry option"

type_synonym 'a proc = "(process, 'a) go"

definition db_world :: "process world \<Rightarrow> db world" where
  "db_world w = \<lparr>store = database (store w), pos = pos w, faults = faults w, clock = clock w,
     fresh = fresh w, entropy = entropy w\<rparr>"

definition on_db :: "'a app \<Rightarrow> 'a proc" where
  "on_db m = (\<lambda>w. case m (db_world w) of (r, v) \<Rightarrow>
     (r, w\<lparr>store := (store w)\<lparr>database := store v\<rparr>, pos := pos v\<rparr>))"

text \<open>A read and a write of the memory, under the mutex of the service.\<close>

definition peek :: "('d \<Rightarrow> 'a) \<Rightarrow> ('d, 'a) go" where
  "peek f = (\<lambda>w. (Inr (f (store w)), w))"

definition poke :: "('d \<Rightarrow> 'd) \<Rightarrow> ('d, unit) go" where
  "poke f = (\<lambda>w. (Inr (), w\<lparr>store := f (store w)\<rparr>))"

section \<open>The permission cache\<close>

definition permission_ttl :: time where
  "permission_ttl = 5 * 60 * 10 ^ 9"

definition getCachedPermissions :: "uuid \<Rightarrow> uuid \<Rightarrow> (string \<times> string list) option proc" where
  "getCachedPermissions tenantID userID =
     go_bind (peek (\<lambda>p. cache p (tenantID, userID))) (\<lambda>entry. case entry of
       None \<Rightarrow> go_ret None
     | Some e \<Rightarrow> go_bind now (\<lambda>t.
         go_ret (if pce_expiresAt e < t then None else Some (pce_role e, pce_perms e))))"

definition setCachedPermissions :: "uuid \<Rightarrow> uuid \<Rightarrow> string \<Rightarrow> string list \<Rightarrow> unit proc" where
  "setCachedPermissions tenantID userID role perms = go_bind now (\<lambda>t.
     poke (\<lambda>p. p\<lparr>cache := (cache p)((tenantID, userID) \<mapsto>
       \<lparr>pce_role = role, pce_perms = perms, pce_expiresAt = t + permission_ttl\<rparr>)\<rparr>))"

definition invalidateCache :: "uuid \<Rightarrow> uuid \<Rightarrow> unit proc" where
  "invalidateCache tenantID userID =
     poke (\<lambda>p. p\<lparr>cache := (cache p)((tenantID, userID) := None)\<rparr>)"

definition rbac_InvalidateUser :: "uuid \<Rightarrow> uuid \<Rightarrow> unit proc" where
  "rbac_InvalidateUser tenantID userID = invalidateCache tenantID userID"

text \<open>What every check begins with: the cached entry, or the role of the database, then cached.\<close>

definition load_permissions :: "uuid \<Rightarrow> uuid \<Rightarrow> (string \<times> string list) proc" where
  "load_permissions tenantID userID =
     go_bind (getCachedPermissions tenantID userID) (\<lambda>cached. case cached of
       Some rp \<Rightarrow> go_ret rp
     | None \<Rightarrow>
         go_bind (on_db (TenantUserRepository_GetRole tenantID userID)) (\<lambda>role.
         let perms = GetPermissionsForRole role in
         go_bind (setCachedPermissions tenantID userID role perms) (\<lambda>_. go_ret (role, perms))))"

definition rbac_HasPermission :: "uuid \<Rightarrow> uuid \<Rightarrow> string \<Rightarrow> bool proc" where
  "rbac_HasPermission tenantID userID permission =
     go_try (load_permissions tenantID userID) (\<lambda>r. case r of
       Inl e \<Rightarrow> if e = ErrMembershipNotFound then go_ret False else go_fail e
     | Inr (role, perms) \<Rightarrow> go_ret (hasPermission perms permission))"

definition rbac_GetRole :: "uuid \<Rightarrow> uuid \<Rightarrow> string proc" where
  "rbac_GetRole tenantID userID = go_bind (load_permissions tenantID userID) (\<lambda>(role, perms). go_ret role)"

definition rbac_GetPermissions :: "uuid \<Rightarrow> uuid \<Rightarrow> string list proc" where
  "rbac_GetPermissions tenantID userID =
     go_try (load_permissions tenantID userID) (\<lambda>r. case r of
       Inl e \<Rightarrow> if e = ErrMembershipNotFound then go_ret [] else go_fail e
     | Inr (role, perms) \<Rightarrow> go_ret perms)"

definition rbac_EnforcePermission :: "uuid \<Rightarrow> uuid \<Rightarrow> string \<Rightarrow> unit proc" where
  "rbac_EnforcePermission tenantID userID permission =
     go_bind (rbac_HasPermission tenantID userID permission) (\<lambda>ok.
     go_guard (\<not> ok) ErrForbidden (go_ret ()))"

definition rbac_EnforceAnyPermission :: "uuid \<Rightarrow> uuid \<Rightarrow> string list \<Rightarrow> unit proc" where
  "rbac_EnforceAnyPermission tenantID userID permissions =
     (if permissions = [] then go_ret () else
      go_try (load_permissions tenantID userID) (\<lambda>r. case r of
        Inl e \<Rightarrow> go_fail (if e = ErrMembershipNotFound then ErrForbidden else e)
      | Inr (role, perms) \<Rightarrow>
          go_guard (\<not> hasAnyPermission perms permissions) ErrForbidden (go_ret ())))"

definition rbac_EnforceAllPermissions :: "uuid \<Rightarrow> uuid \<Rightarrow> string list \<Rightarrow> unit proc" where
  "rbac_EnforceAllPermissions tenantID userID permissions =
     (if permissions = [] then go_ret () else
      go_try (load_permissions tenantID userID) (\<lambda>r. case r of
        Inl e \<Rightarrow> go_fail (if e = ErrMembershipNotFound then ErrForbidden else e)
      | Inr (role, perms) \<Rightarrow>
          go_guard (\<not> hasAllPermissions perms permissions) ErrForbidden (go_ret ())))"

section \<open>The staff of an event\<close>

definition EventMemberRepository_Create :: "event_member \<Rightarrow> unit app" where
  "EventMemberRepository_Create m = go_bind (exec (upsert_event_member m)) (\<lambda>_. go_ret ())"

definition staff_key :: "uuid \<Rightarrow> uuid \<Rightarrow> uuid \<Rightarrow> event_member \<Rightarrow> bool" where
  "staff_key t e u m \<longleftrightarrow> TenantID m = t \<and> EventID m = e \<and> em_UserID m = u"

definition EventMemberRepository_Get :: "uuid \<Rightarrow> uuid \<Rightarrow> uuid \<Rightarrow> event_member app" where
  "EventMemberRepository_Get t e u = get_one ErrMembershipNotFound (\<lambda>d.
     find (\<lambda>m. staff_key t e u m \<and> em_Status m = EventMemberStatusActive) (event_members d))"

definition EventMemberRepository_ListByEvent :: "uuid \<Rightarrow> uuid \<Rightarrow> event_member list app" where
  "EventMemberRepository_ListByEvent t e = query (\<lambda>d. sort_key CreatedAt
     (filter (\<lambda>m. TenantID m = t \<and> EventID m = e \<and> em_Status m = EventMemberStatusActive)
       (event_members d)))"

text \<open>The table checks the role of an updated row too.\<close>

definition EventMemberRepository_UpdateRole :: "uuid \<Rightarrow> uuid \<Rightarrow> uuid \<Rightarrow> string \<Rightarrow> unit app" where
  "EventMemberRepository_UpdateRole t e u role = exec_rows ErrMembershipNotFound (\<lambda>srv d.
     if list_ex (staff_key t e u) (event_members d) \<and> \<not> event_member_role_ok role then None
     else Some (sql_update event_members put_event_members (staff_key t e u)
       (\<lambda>r. r\<lparr>em_Role := role, em_Status := EventMemberStatusActive, UpdatedAt := fst srv\<rparr>) d))"

definition EventMemberRepository_Deactivate :: "uuid \<Rightarrow> uuid \<Rightarrow> uuid \<Rightarrow> unit app" where
  "EventMemberRepository_Deactivate t e u = exec_rows ErrMembershipNotFound (\<lambda>srv d.
     Some (sql_update event_members put_event_members (staff_key t e u)
       (\<lambda>r. r\<lparr>em_Status := EventMemberStatusInactive, UpdatedAt := fst srv\<rparr>) d))"

text \<open>The events that a member is assigned to: the conditions, the number and one page.\<close>

definition assigned_event :: "uuid \<Rightarrow> uuid \<Rightarrow> event_filter \<Rightarrow> db \<Rightarrow> event \<Rightarrow> bool" where
  "assigned_event t u f d e \<longleftrightarrow> event_matches t f e
     \<and> list_ex (\<lambda>m. staff_key t (ID e) u m \<and> em_Status m = ''active'') (event_members d)"

definition EventMemberRepository_ListEventsByUser ::
  "uuid \<Rightarrow> uuid \<Rightarrow> event_filter \<Rightarrow> (event list \<times> int) app" where
  "EventMemberRepository_ListEventsByUser t u f =
     go_bind (query (\<lambda>d. int (card (set (map ID (filter (assigned_event t u f d) (events d))))))) (\<lambda>cnt.
     let page = (if ef_Page f < 1 then 1 else ef_Page f);
         perPage = (if ef_PerPage f < 1 then 20 else ef_PerPage f);
         off = i64 ((page - 1) * perPage) in
     go_bind (get_one ErrDB (\<lambda>d. if off < 0 then None else Some (limit_offset perPage off
       (map (with_guest_count d) (sort_key (\<lambda>e. - ev_StartDate e)
         (remdups (filter (assigned_event t u f d) (events d)))))))) (\<lambda>rows.
     go_ret (rows, cnt)))"

text \<open>The loop that pairs memberships with user profiles; unknown users are left out.\<close>

fun with_users :: "('m \<Rightarrow> uuid) \<Rightarrow> 'm list \<Rightarrow> ('m \<times> user) list app" where
  "with_users uid [] = go_ret []"
| "with_users uid (m # ms) = go_try (UserRepository_GetByID (uid m)) (\<lambda>r. case r of
     Inl e \<Rightarrow> if e = ErrUserNotFound then with_users uid ms else go_fail e
   | Inr user \<Rightarrow> go_bind (with_users uid ms) (\<lambda>rest. go_ret ((m, user) # rest)))"

definition EventMemberService_List :: "uuid \<Rightarrow> uuid \<Rightarrow> (event_member \<times> user) list app" where
  "EventMemberService_List tenantID eventID =
     go_bind (EventRepository_GetByIDForTenant eventID tenantID) (\<lambda>_.
     go_bind (EventMemberRepository_ListByEvent tenantID eventID) (with_users em_UserID))"

definition EventMemberService_Create ::
  "uuid \<Rightarrow> uuid \<Rightarrow> uuid \<Rightarrow> event_member_create_request \<Rightarrow> event_member app" where
  "EventMemberService_Create tenantID eventID assignedBy req =
     go_guard (\<not> IsValidEventMemberRole (emr_Role req)) ErrInvalidRole (
     go_bind (EventRepository_GetByIDForTenant eventID tenantID) (\<lambda>_.
     go_bind (TenantUserRepository_Get tenantID (emr_UserID req)) (\<lambda>tenantMember.
     go_guard (m_Status tenantMember \<noteq> MembershipStatusActive) ErrForbidden (
     go_bind NewBase (\<lambda>(i, t).
     go_bind (EventMemberRepository_Create \<lparr>ID = i, CreatedAt = t, UpdatedAt = t, DeletedAt = None,
       TenantID = tenantID, EventID = eventID, em_UserID = emr_UserID req, em_Role = emr_Role req,
       em_Status = EventMemberStatusActive, em_InvitedBy = Some assignedBy, em_AssignedAt = t\<rparr>) (\<lambda>_.
     go_bind (EventMemberRepository_Get tenantID eventID (emr_UserID req)) (\<lambda>member.
     go_ignore (LogWithUser assignedBy tenantID AuditActionCreate EntityTypeMembership (ID member) None
       (Some [(''event_id'', JUUID (EventID member)), (''user_id'', JUUID (em_UserID member)),
              (''role'', JString (em_Role member))]))
     (go_ret member))))))))"

definition EventMemberService_UpdateRole :: "uuid \<Rightarrow> uuid \<Rightarrow> uuid \<Rightarrow> uuid \<Rightarrow> string \<Rightarrow> unit app" where
  "EventMemberService_UpdateRole tenantID eventID changedBy userID role =
     go_guard (\<not> IsValidEventMemberRole role) ErrInvalidRole (
     go_bind (EventMemberRepository_UpdateRole tenantID eventID userID role) (\<lambda>_.
     go_ignore (LogWithUser changedBy tenantID AuditActionUpdate EntityTypeMembership userID None
       (Some [(''event_id'', JUUID eventID), (''user_id'', JUUID userID), (''role'', JString role)]))
     (go_ret ())))"

definition EventMemberService_Remove :: "uuid \<Rightarrow> uuid \<Rightarrow> uuid \<Rightarrow> uuid \<Rightarrow> unit app" where
  "EventMemberService_Remove tenantID eventID removedBy userID =
     go_bind (EventMemberRepository_Deactivate tenantID eventID userID) (\<lambda>_.
     go_ignore (LogWithUser removedBy tenantID AuditActionRemove EntityTypeMembership userID None
       (Some [(''event_id'', JUUID eventID), (''user_id'', JUUID userID)]))
     (go_ret ()))"

section \<open>Access to an event\<close>

record event_access =
  ea_Role :: string
  ea_Scope :: string
  ea_Permissions :: "string list"

definition EventAccessService_Resolve :: "uuid \<Rightarrow> uuid \<Rightarrow> uuid \<Rightarrow> event_access app" where
  "EventAccessService_Resolve tenantID eventID userID =
     go_bind (EventRepository_GetByIDForTenant eventID tenantID) (\<lambda>_.
     go_try (TenantUserRepository_Get tenantID userID) (\<lambda>r. case r of
       Inl _ \<Rightarrow> go_fail ErrForbidden
     | Inr tenantMember \<Rightarrow>
         go_guard (m_Status tenantMember \<noteq> MembershipStatusActive) ErrForbidden (
         if m_Role tenantMember = RoleTenantOwner \<or> m_Role tenantMember = RoleEventManager then
           go_ret \<lparr>ea_Role = m_Role tenantMember, ea_Scope = ''tenant'',
             ea_Permissions = GetPermissionsForRole (m_Role tenantMember)\<rparr>
         else go_try (EventMemberRepository_Get tenantID eventID userID) (\<lambda>r. case r of
             Inl _ \<Rightarrow> go_fail ErrForbidden
           | Inr eventMember \<Rightarrow> (case map_of RolePermissions (em_Role eventMember) of
               None \<Rightarrow> go_fail ErrForbidden
             | Some permissions \<Rightarrow> go_ret \<lparr>ea_Role = em_Role eventMember, ea_Scope = ''event'',
                 ea_Permissions = permissions\<rparr>)))))"

definition EventAccessService_Authorize :: "uuid \<Rightarrow> uuid \<Rightarrow> uuid \<Rightarrow> string \<Rightarrow> unit app" where
  "EventAccessService_Authorize tenantID eventID userID permission =
     go_bind (EventAccessService_Resolve tenantID eventID userID) (\<lambda>access.
     if list_ex (\<lambda>allowed. allowed = permission) (ea_Permissions access) then go_ret ()
     else go_fail ErrForbidden)"

definition EventAccessService_GetAccess :: "uuid \<Rightarrow> uuid \<Rightarrow> uuid \<Rightarrow> event_access app" where
  "EventAccessService_GetAccess tenantID eventID userID =
     EventAccessService_Resolve tenantID eventID userID"

definition listAllEvents :: "uuid \<Rightarrow> event_filter \<Rightarrow> (event list \<times> int) app" where
  "listAllEvents tenantID filt =
     go_bind (EventRepository_ListByTenant tenantID filt) (\<lambda>rows.
     go_bind (EventRepository_CountByTenant tenantID filt) (\<lambda>cnt. go_ret (rows, cnt)))"

definition EventAccessService_ListAccessibleEvents ::
  "uuid \<Rightarrow> uuid \<Rightarrow> event_filter \<Rightarrow> (event list \<times> int) app" where
  "EventAccessService_ListAccessibleEvents tenantID userID filt =
     go_bind (TenantUserRepository_Get tenantID userID) (\<lambda>member.
     if m_Role member = RoleTenantOwner \<or> m_Role member = RoleEventManager
     then listAllEvents tenantID filt
     else EventMemberRepository_ListEventsByUser tenantID userID filt)"

definition IsEventAccessDenied :: "err \<Rightarrow> bool" where
  "IsEventAccessDenied e \<longleftrightarrow> e = ErrForbidden \<or> e = ErrMembershipNotFound"

section \<open>Runs on a process\<close>

lemma db_world_simps [simp]:
  "store (db_world w) = database (store w)" "pos (db_world w) = pos w" "faults (db_world w) = faults w"
  "clock (db_world w) = clock w" "fresh (db_world w) = fresh w" "entropy (db_world w) = entropy w"
  by (simp_all add: db_world_def)

lemma on_db_eq [go_run]:
  "on_db m w = (r, w') \<longleftrightarrow> (\<exists>v. m (db_world w) = (r, v)
     \<and> w' = w\<lparr>store := (store w)\<lparr>database := store v\<rparr>, pos := pos v\<rparr>)"
  by (auto simp: on_db_def split: prod.split)

lemma peek_eq [go_run]: "peek f w = (r, w') \<longleftrightarrow> r = Inr (f (store w)) \<and> w' = w"
  by (auto simp: peek_def)

lemma poke_eq [go_run]: "poke f w = (r, w') \<longleftrightarrow> r = Inr () \<and> w' = w\<lparr>store := f (store w)\<rparr>"
  by (auto simp: poke_def)

text \<open>A call on the database bounds what it does to the process.\<close>

lemma on_db_stays:
  assumes "stays R m"
  shows "stays (\<lambda>p p'. R (database p) (database p') \<and> cache p' = cache p) (on_db m)"
proof (rule staysI)
  fix w r w'
  assume "on_db m w = (r, w')"
  then show "R (database (store w)) (database (store w')) \<and> cache (store w') = cache (store w)"
    using staysD [OF assms] by (fastforce simp: on_db_eq)
qed

section \<open>The cache and the table\<close>

text \<open>Every entry of the cache gives the role that the table of memberships gives now.\<close>

definition coherent :: "process \<Rightarrow> bool" where
  "coherent p \<longleftrightarrow> (\<forall>t u e. cache p (t, u) = Some e \<longrightarrow>
     role_of t u (tenant_users (database p)) = Some (pce_role e)
     \<and> pce_perms e = GetPermissionsForRole (pce_role e))"

lemma GetRole_Inr:
  "TenantUserRepository_GetRole t u w = (Inr role, w') \<longleftrightarrow> \<not> faults w (pos w)
     \<and> role_of t u (tenant_users (store w)) = Some role \<and> w' = tick w"
  by (simp add: TenantUserRepository_GetRole_def role_of_def get_one_Inr)

lemma GetRole_Inl:
  "TenantUserRepository_GetRole t u w = (Inl e, w') \<longleftrightarrow> w' = tick w \<and>
     (if faults w (pos w) then e = ErrDB
      else role_of t u (tenant_users (store w)) = None \<and> e = ErrMembershipNotFound)"
  by (simp add: TenantUserRepository_GetRole_def role_of_def get_one_Inl)

text \<open>The permissions that the table gives a user.\<close>

definition permitted :: "uuid \<Rightarrow> uuid \<Rightarrow> tenant_membership list \<Rightarrow> string set" where
  "permitted t u ms = (case role_of t u ms of None \<Rightarrow> {} | Some role \<Rightarrow> set (GetPermissionsForRole role))"

text \<open>
  What the checks rely on of a lookup: it leaves the database as it is, the role it yields is the
  one of the table, and \<open>ErrMembershipNotFound\<close> means that there is none.
\<close>

locale role_lookup =
  fixes load :: "uuid \<Rightarrow> uuid \<Rightarrow> (string \<times> string list) proc" and ok :: "process \<Rightarrow> bool"
  assumes load_keeps: "load t u w = (r, w') \<Longrightarrow> ok (store w) \<Longrightarrow>
      ok (store w') \<and> database (store w') = database (store w)"
    and load_Inr: "load t u w = (Inr (role, perms), w') \<Longrightarrow> ok (store w) \<Longrightarrow>
      role_of t u (tenant_users (database (store w))) = Some role \<and> perms = GetPermissionsForRole role"
    and load_none: "load t u w = (Inl ErrMembershipNotFound, w') \<Longrightarrow> ok (store w) \<Longrightarrow>
      role_of t u (tenant_users (database (store w))) = None"
begin

lemma decide:
  assumes "go_try (load t u) f w = (r, w')" and "ok (store w)"
    and "\<And>e. stays (=) (f (Inl e))" and "\<And>rp. stays (=) (f (Inr rp))"
  shows "ok (store w') \<and> database (store w') = database (store w)"
proof -
  obtain s v where sv: "load t u w = (s, v)" "f s v = (r, w')" using assms(1) by (auto simp: go_try_eq)
  have "stays (=) (f s)" using assms(3,4) by (cases s) auto
  with sv(2) have "store w' = store v" by (auto dest: staysD)
  with load_keeps [OF sv(1) assms(2)] show ?thesis by simp
qed

lemma decide_Inr:
  assumes "go_try (load t u) (\<lambda>r. case r of Inl e \<Rightarrow> f e | Inr (role, perms) \<Rightarrow> g perms) w = (Inr x, w')"
    and "ok (store w)" and "\<And>e v y. f e v = (Inr y, w') \<Longrightarrow> e = ErrMembershipNotFound \<and> P {} y"
    and "\<And>perms v y. g perms v = (Inr y, w') \<Longrightarrow> P (set perms) y"
  shows "P (permitted t u (tenant_users (database (store w)))) x"
proof -
  obtain s v where sv: "load t u w = (s, v)"
    "(case s of Inl e \<Rightarrow> f e | Inr (role, perms) \<Rightarrow> g perms) v = (Inr x, w')"
    using assms(1) by (auto simp: go_try_eq)
  show ?thesis
  proof (cases s)
    case (Inl e)
    with sv(2) assms(3) have "e = ErrMembershipNotFound" "P {} x" by auto
    with Inl sv(1) assms(2) show ?thesis by (auto simp: permitted_def dest: load_none)
  next
    case (Inr rp)
    obtain role perms where rp: "rp = (role, perms)" by fastforce
    with Inr sv(2) assms(4) have "P (set perms) x" by auto
    with Inr rp sv(1) assms(2) show ?thesis by (auto simp: permitted_def dest: load_Inr)
  qed
qed

end

lemma getCached_run:
  assumes "getCachedPermissions t u w = (r, w')"
  shows "store w' = store w" and "\<exists>c. r = Inr c \<and> (\<forall>role perms. c = Some (role, perms) \<longrightarrow>
    (\<exists>e. cache (store w) (t, u) = Some e \<and> pce_role e = role \<and> pce_perms e = perms))"
  using assms by (auto simp: getCachedPermissions_def go_bind_run peek_def now_def split: option.splits if_splits)

text \<open>The cached lookup, and the direct one it stands for.\<close>

lemma load_permissions_run:
  assumes "load_permissions t u w = (r, w')" and "coherent (store w)"
  shows "coherent (store w') \<and> database (store w') = database (store w)
    \<and> (\<forall>role perms. r = Inr (role, perms) \<longrightarrow>
        role_of t u (tenant_users (database (store w))) = Some role \<and> perms = GetPermissionsForRole role)
    \<and> (r = Inl ErrMembershipNotFound \<longrightarrow> role_of t u (tenant_users (database (store w))) = None)"
proof -
  obtain c v where c: "getCachedPermissions t u w = (Inr c, v)" and v: "store v = store w"
    and hit: "\<And>role perms. c = Some (role, perms) \<Longrightarrow>
      \<exists>e. cache (store w) (t, u) = Some e \<and> pce_role e = role \<and> pce_perms e = perms"
    using getCached_run [of t u w] by (cases "getCachedPermissions t u w") blast
  show ?thesis
  proof (cases c)
    case (Some rp)
    obtain role perms where rp: "rp = (role, perms)" by fastforce
    from assms(1) c Some rp have "r = Inr (role, perms)" "w' = v"
      by (auto simp: load_permissions_def go_bind_run)
    with hit Some rp v assms(2) show ?thesis by (fastforce simp: coherent_def)
  next
    case None
    show ?thesis
    proof (cases "TenantUserRepository_GetRole t u (db_world v)")
      case (Pair s d)
      show ?thesis
      proof (cases s)
        case (Inl e)
        with Pair assms(1) c None have "r = Inl e" "store w' = (store v)\<lparr>database := store d\<rparr>"
          by (auto simp: load_permissions_def go_bind_run on_db_def)
        with Inl Pair v assms(2) show ?thesis by (auto simp: GetRole_Inl split: if_splits)
      next
        case (Inr role)
        with Pair assms(1) c None obtain x where
          r: "r = Inr (role, GetPermissionsForRole role)"
          and w': "store w' = (store v)\<lparr>database := store d, cache := (cache (store v))((t, u) \<mapsto>
            \<lparr>pce_role = role, pce_perms = GetPermissionsForRole role, pce_expiresAt = x\<rparr>)\<rparr>"
          by (auto simp: load_permissions_def go_bind_run on_db_def setCachedPermissions_def now_def
              poke_def Let_def)
        from Inr Pair have "role_of t u (tenant_users (database (store v))) = Some role"
          "store d = database (store v)" by (auto simp: GetRole_Inr)
        with r w' v assms(2) show ?thesis by (auto simp: coherent_def)
      qed
    qed
  qed
qed

interpretation cached: role_lookup load_permissions coherent
  by unfold_locales (auto dest: load_permissions_run)

interpretation direct: role_lookup
  "\<lambda>t u. on_db (go_bind (TenantUserRepository_GetRole t u) (\<lambda>role. go_ret (role, GetPermissionsForRole role)))"
  "\<lambda>_. True"
  apply unfold_locales
  subgoal for t u w r w' by (cases r) (auto simp: go_run GetRole_Inr GetRole_Inl split: if_splits)
  by (auto simp: go_run GetRole_Inr GetRole_Inl split: if_splits)

section \<open>The checks answer as the table does\<close>

lemma HasPermission_run:
  assumes "rbac_HasPermission t u p w = (r, w')" and "coherent (store w)"
  shows "coherent (store w') \<and> database (store w') = database (store w)
    \<and> (\<forall>b. r = Inr b \<longrightarrow> b = (p \<in> permitted t u (tenant_users (database (store w)))))"
proof -
  note run = assms(1) [unfolded rbac_HasPermission_def]
  have "coherent (store w') \<and> database (store w') = database (store w)"
    by (rule cached.decide [OF run assms(2)])
      (auto intro!: unchanged.all_stays split: prod.split)
  moreover have "b = (p \<in> permitted t u (tenant_users (database (store w))))" if "r = Inr b" for b
    by (rule cached.decide_Inr [OF run [unfolded that] assms(2)])
      (auto simp: hasPermission_iff split: if_splits)
  ultimately show ?thesis by blast
qed

lemma EnforcePermission_run:
  assumes "rbac_EnforcePermission t u p w = (r, w')" and "coherent (store w)"
  shows "coherent (store w') \<and> database (store w') = database (store w)
    \<and> (r = Inr () \<longrightarrow> p \<in> permitted t u (tenant_users (database (store w))))"
proof -
  obtain s v where sv: "rbac_HasPermission t u p w = (s, v)" by fastforce
  with assms(1) have "store w' = store v" "r = Inr () \<longrightarrow> s = Inr True"
    by (auto simp: rbac_EnforcePermission_def go_bind_run go_guard_def split: sum.splits if_splits)
  with HasPermission_run [OF sv assms(2)] show ?thesis by auto
qed

lemma EnforceAny_run:
  assumes "rbac_EnforceAnyPermission t u ps w = (r, w')" and "coherent (store w)"
  shows "coherent (store w') \<and> database (store w') = database (store w)
    \<and> (r = Inr () \<longrightarrow> ps = [] \<or> permitted t u (tenant_users (database (store w))) \<inter> set ps \<noteq> {})"
proof (cases "ps = []")
  case True
  with assms show ?thesis by (simp add: rbac_EnforceAnyPermission_def)
next
  case False
  with assms(1) have run: "go_try (load_permissions t u) (\<lambda>r. case r of
        Inl e \<Rightarrow> go_fail (if e = ErrMembershipNotFound then ErrForbidden else e)
      | Inr (role, perms) \<Rightarrow> go_guard (\<not> hasAnyPermission perms ps) ErrForbidden (go_ret ())) w = (r, w')"
    by (simp add: rbac_EnforceAnyPermission_def)
  have "coherent (store w') \<and> database (store w') = database (store w)"
    by (rule cached.decide [OF run assms(2)])
      (auto intro!: unchanged.all_stays split: prod.split)
  moreover have "permitted t u (tenant_users (database (store w))) \<inter> set ps \<noteq> {}" if "r = Inr ()"
    by (rule cached.decide_Inr [OF run [unfolded that] assms(2)])
      (auto simp: go_guard_eq hasAnyPermission_iff split: if_splits)
  ultimately show ?thesis by blast
qed

lemma EnforceAll_run:
  assumes "rbac_EnforceAllPermissions t u ps w = (r, w')" and "coherent (store w)"
  shows "coherent (store w') \<and> database (store w') = database (store w)
    \<and> (r = Inr () \<longrightarrow> set ps \<subseteq> permitted t u (tenant_users (database (store w))))"
proof (cases "ps = []")
  case True
  with assms show ?thesis by (simp add: rbac_EnforceAllPermissions_def)
next
  case False
  with assms(1) have run: "go_try (load_permissions t u) (\<lambda>r. case r of
        Inl e \<Rightarrow> go_fail (if e = ErrMembershipNotFound then ErrForbidden else e)
      | Inr (role, perms) \<Rightarrow> go_guard (\<not> hasAllPermissions perms ps) ErrForbidden (go_ret ())) w = (r, w')"
    by (simp add: rbac_EnforceAllPermissions_def)
  have "coherent (store w') \<and> database (store w') = database (store w)"
    by (rule cached.decide [OF run assms(2)])
      (auto intro!: unchanged.all_stays split: prod.split)
  moreover have "set ps \<subseteq> permitted t u (tenant_users (database (store w)))" if "r = Inr ()"
    by (rule cached.decide_Inr [OF run [unfolded that] assms(2)])
      (auto simp: go_guard_eq hasAllPermissions_iff split: if_splits)
  ultimately show ?thesis by blast
qed

lemma AskRole_run:
  assumes "rbac_GetRole t u w = (r, w')" and "coherent (store w)"
  shows "coherent (store w') \<and> database (store w') = database (store w)"
proof -
  obtain s v where sv: "load_permissions t u w = (s, v)" by fastforce
  with assms(1) have "store w' = store v"
    by (auto simp: rbac_GetRole_def go_bind_run split: sum.splits prod.splits)
  with load_permissions_run [OF sv assms(2)] show ?thesis by auto
qed

lemma AskPermissions_run:
  assumes "rbac_GetPermissions t u w = (r, w')" and "coherent (store w)"
  shows "coherent (store w') \<and> database (store w') = database (store w)"
  by (rule cached.decide [OF assms(1) [unfolded rbac_GetPermissions_def] assms(2)])
    (auto intro!: unchanged.all_stays split: prod.split)

section \<open>Who may act on an event\<close>

definition staff_ok :: "event_member list \<Rightarrow> bool" where
  "staff_ok ss \<longleftrightarrow> distinct (map (\<lambda>s. (EventID s, em_UserID s)) ss)
     \<and> (\<forall>s \<in> set ss. event_member_role_ok (em_Role s))"

text \<open>
  An active member of the tenant may act on an event of the tenant: owners and event managers by
  their role in the tenant, everyone else by an active assignment to the event.
\<close>

definition may_act :: "uuid \<Rightarrow> uuid \<Rightarrow> uuid \<Rightarrow> string \<Rightarrow> db \<Rightarrow> bool" where
  "may_act t e u p d \<longleftrightarrow> (\<exists>ev \<in> set (events d). event_key e t ev)
     \<and> (\<exists>m \<in> set (tenant_users d). active_member t u m \<and>
         (if m_Role m \<in> {RoleTenantOwner, RoleEventManager} then p \<in> set (GetPermissionsForRole (m_Role m))
          else \<exists>s \<in> set (event_members d). staff_key t e u s \<and> em_Status s = EventMemberStatusActive
            \<and> p \<in> set (GetPermissionsForRole (em_Role s))))"

lemma find_unique_Some:
  assumes "find P xs = Some x" and "\<And>y. y \<in> set xs \<Longrightarrow> P y \<Longrightarrow> y = x"
  shows "(\<exists>y \<in> set xs. P y \<and> Q y) \<longleftrightarrow> Q x"
  using find_Some_D [OF assms(1)] assms(2) by auto

lemma find_None_iff': "find P xs = None \<longleftrightarrow> \<not> (\<exists>x \<in> set xs. P x)"
  by (auto simp: find_None_iff)

lemma staff_ok_unique:
  assumes "staff_ok ss" and "find (\<lambda>m. staff_key t e u m \<and> em_Status m = EventMemberStatusActive) ss = Some s"
  shows "(\<exists>x \<in> set ss. staff_key t e u x \<and> em_Status x = EventMemberStatusActive \<and> Q x) \<longleftrightarrow> Q s"
proof -
  have "y = s" if "y \<in> set ss" "staff_key t e u y" for y
    using find_Some_D [OF assms(2)] that assms(1)
    by (auto simp: staff_ok_def staff_key_def distinct_map dest: inj_onD)
  then show ?thesis using find_Some_D [OF assms(2)] by auto
qed

text \<open>\<open>may_act\<close> in the order the lookups of \<open>Resolve\<close> take.\<close>

lemma may_act_find:
  assumes "members_ok (tenant_users d)" and "staff_ok (event_members d)"
  shows "may_act t e u p d \<longleftrightarrow> find (event_key e t) (events d) \<noteq> None \<and>
    (case find (active_member t u) (tenant_users d) of None \<Rightarrow> False | Some m \<Rightarrow>
      if m_Role m \<in> {RoleTenantOwner, RoleEventManager} then p \<in> set (GetPermissionsForRole (m_Role m))
      else (case find (\<lambda>s. staff_key t e u s \<and> em_Status s = EventMemberStatusActive) (event_members d) of
        None \<Rightarrow> False | Some s \<Rightarrow> p \<in> set (GetPermissionsForRole (em_Role s))))"
proof (cases "find (active_member t u) (tenant_users d)")
  case None
  then have "\<not> (\<exists>m \<in> set (tenant_users d). active_member t u m)" by (simp add: find_None_iff')
  with None show ?thesis by (auto simp: may_act_def)
next
  case (Some m)
  have only: "(\<exists>x \<in> set (tenant_users d). active_member t u x \<and> Q x) \<longleftrightarrow> Q m" for Q
    by (rule find_unique_Some [OF Some])
      (use active_member_unique [OF assms(1) Some] in \<open>auto simp: active_member_def\<close>)
  have ev: "(\<exists>ev \<in> set (events d). event_key e t ev) \<longleftrightarrow> find (event_key e t) (events d) \<noteq> None"
    by (simp only: find_None_iff') blast
  show ?thesis
  proof (cases "find (\<lambda>s. staff_key t e u s \<and> em_Status s = EventMemberStatusActive) (event_members d)")
    case None
    then have "\<not> (\<exists>s \<in> set (event_members d). staff_key t e u s \<and> em_Status s = EventMemberStatusActive
        \<and> p \<in> set (GetPermissionsForRole (em_Role s)))" by (auto simp: find_None_iff')
    with None Some show ?thesis unfolding may_act_def only ev by simp
  next
    case (Some s)
    with staff_ok_unique [OF assms(2) Some] show ?thesis
      using \<open>find (active_member t u) (tenant_users d) = Some m\<close>
      unfolding may_act_def only ev by simp
  qed
qed

lemma Authorize_pure: "stays (=) (EventAccessService_Authorize t e u p)"
  unfolding EventAccessService_Authorize_def EventAccessService_Resolve_def
    EventRepository_GetByIDForTenant_def TenantUserRepository_Get_def EventMemberRepository_Get_def
  by (auto intro!: unchanged.all_stays split: sum.split option.split)

lemma event_role_perms:
  assumes "staff_ok ss" and "s \<in> set ss"
  shows "map_of RolePermissions (em_Role s) = Some (GetPermissionsForRole (em_Role s))"
proof -
  have "IsValidEventMemberRole (em_Role s)"
    using assms by (auto simp: staff_ok_def event_member_role_ok_def IsValidEventMemberRole_def)
  then have "map_of RolePermissions (em_Role s) \<noteq> None"
    using event_roles_valid IsValidRole_def by blast
  then show ?thesis by (auto simp: GetPermissionsForRole_def)
qed

lemma Authorize_fst:
  "fst (EventAccessService_Authorize t e u p w) =
    (let grant = (\<lambda>ps. if p \<in> set ps then Inr () else Inl ErrForbidden) in
     if faults w (pos w) then Inl ErrDB else
     case find (event_key e t) (events (store w)) of None \<Rightarrow> Inl ErrEventNotFound | Some _ \<Rightarrow>
     if faults w (Suc (pos w)) then Inl ErrForbidden else
     case find (active_member t u) (tenant_users (store w)) of None \<Rightarrow> Inl ErrForbidden | Some m \<Rightarrow>
     if m_Role m \<in> {RoleTenantOwner, RoleEventManager} then grant (GetPermissionsForRole (m_Role m)) else
     if faults w (Suc (Suc (pos w))) then Inl ErrForbidden else
     case find (\<lambda>s. staff_key t e u s \<and> em_Status s = EventMemberStatusActive) (event_members (store w)) of
       None \<Rightarrow> Inl ErrForbidden
     | Some s \<Rightarrow> (case map_of RolePermissions (em_Role s) of None \<Rightarrow> Inl ErrForbidden | Some ps \<Rightarrow> grant ps))"
proof (cases "find (event_key e t) (events (store w))")
  case None
  then show ?thesis
    by (simp add: EventAccessService_Authorize_def EventAccessService_Resolve_def Let_def
        EventRepository_GetByIDForTenant_def get_one_def query_def go_bind_run)
next
  case ev: (Some ev)
  show ?thesis
  proof (cases "find (active_member t u) (tenant_users (store w))")
    case None
    with ev show ?thesis
      by (simp add: EventAccessService_Authorize_def EventAccessService_Resolve_def Let_def
          EventRepository_GetByIDForTenant_def TenantUserRepository_Get_def get_one_def query_def
          go_bind_run go_try_run)
  next
    case (Some m)
    then have "m_Status m = MembershipStatusActive"
      by (auto simp: active_member_def dest: find_Some_D)
    with ev Some show ?thesis
      by (simp add: EventAccessService_Authorize_def EventAccessService_Resolve_def Let_def
          EventRepository_GetByIDForTenant_def TenantUserRepository_Get_def
          EventMemberRepository_Get_def get_one_def query_def go_bind_run go_try_run go_guard_def
          list_ex_iff split: option.split)
  qed
qed

text \<open>The same with the table's constraints: every assigned role is known.\<close>

lemma Authorize_may:
  assumes "members_ok (tenant_users (store w))" and "staff_ok (event_members (store w))"
  shows "fst (EventAccessService_Authorize t e u p w) = Inr () \<Longrightarrow> may_act t e u p (store w)"
    and "(\<And>n. \<not> faults w n) \<Longrightarrow> fst (EventAccessService_Authorize t e u p w) =
      (if \<not> (\<exists>ev \<in> set (events (store w)). event_key e t ev) then Inl ErrEventNotFound
       else if may_act t e u p (store w) then Inr () else Inl ErrForbidden)"
proof -
  have role: "map_of RolePermissions (em_Role s) = Some (GetPermissionsForRole (em_Role s))"
    if "find P (event_members (store w)) = Some s" for P s
    using find_Some_D [OF that] event_role_perms [OF assms(2)] by blast
  have ev: "(\<exists>ev \<in> set (events (store w)). event_key e t ev) \<longleftrightarrow>
      find (event_key e t) (events (store w)) \<noteq> None"
    by (simp only: find_None_iff') blast
  show "fst (EventAccessService_Authorize t e u p w) = Inr () \<Longrightarrow> may_act t e u p (store w)"
    unfolding may_act_find [OF assms] Authorize_fst Let_def
    by (auto simp: role split: option.splits if_splits)
  show "(\<And>n. \<not> faults w n) \<Longrightarrow> fst (EventAccessService_Authorize t e u p w) =
      (if \<not> (\<exists>ev \<in> set (events (store w)). event_key e t ev) then Inl ErrEventNotFound
       else if may_act t e u p (store w) then Inr () else Inl ErrForbidden)"
    unfolding may_act_find [OF assms] Authorize_fst Let_def ev
    by (simp add: role split: option.splits)
qed

text \<open>C7: An authorization for an event of a tenant is granted exactly where the user is an active
  member of the tenant and either an owner or event manager whose role has the permission, or
  actively assigned to the event with a role that has it. A failing lookup never grants anything,
  the check changes nothing, and where no lookup fails, a missing event and a missing permission are
  told apart.\<close>

theorem Authorize_grants_exactly_the_permitted:
  assumes "EventAccessService_Authorize t e u p w = (r, w')"
    and "members_ok (tenant_users (store w))" and "staff_ok (event_members (store w))"
  shows "store w' = store w \<and> (r = Inr () \<longrightarrow> may_act t e u p (store w))
    \<and> ((\<forall>n. \<not> faults w n) \<longrightarrow> r =
        (if \<not> (\<exists>ev \<in> set (events (store w)). event_key e t ev) then Inl ErrEventNotFound
         else if may_act t e u p (store w) then Inr () else Inl ErrForbidden))"
proof -
  have r: "r = fst (EventAccessService_Authorize t e u p w)" using assms(1) by simp
  have "store w' = store w" using staysD [OF Authorize_pure assms(1)] by simp
  with Authorize_may [OF assms(2,3), of t e u p] show ?thesis unfolding r by blast
qed

definition demo_member :: tenant_membership where
  "demo_member = \<lparr>ID = 20, CreatedAt = 0, UpdatedAt = 0, DeletedAt = None, TenantID = 1, m_UserID = 2,
     m_Role = RoleUsher, m_InvitedBy = None, m_InvitedAt = None, m_JoinedAt = None,
     m_Status = MembershipStatusActive\<rparr>"

definition demo_staff :: event_member where
  "demo_staff = \<lparr>ID = 21, CreatedAt = 0, UpdatedAt = 0, DeletedAt = None, TenantID = 1, EventID = 3,
     em_UserID = 2, em_Role = RoleUsher, em_Status = EventMemberStatusActive, em_InvitedBy = None,
     em_AssignedAt = 0\<rparr>"

definition staff_db :: db where
  "staff_db = demo_db\<lparr>tenant_users := [demo_member], event_members := [demo_staff]\<rparr>"

lemma staff_db_tables [simp]:
  "tenant_users staff_db = [demo_member]" "event_members staff_db = [demo_staff]"
  "events staff_db = [demo_event]" "tenants staff_db = [demo_tenant]" "users staff_db = [demo_user]"
  by (simp_all add: staff_db_def)

lemma staff_db_ok: "members_ok (tenant_users staff_db)" "staff_ok (event_members staff_db)"
  by (simp_all add: members_ok_def staff_ok_def event_member_role_ok_def demo_staff_def)

theorem Authorize_grants_exactly_the_permitted_witness:
  "fst (EventAccessService_Authorize 1 3 2 PermCheckinWrite (demo_world staff_db)) = Inr ()
   \<and> fst (EventAccessService_Authorize 1 3 2 PermTeamWrite (demo_world staff_db)) = Inl ErrForbidden"
proof -
  have decide: "fst (EventAccessService_Authorize 1 3 2 p (demo_world staff_db)) =
      (if \<not> (\<exists>ev \<in> set (events staff_db). event_key 3 1 ev) then Inl ErrEventNotFound
       else if may_act 1 3 2 p staff_db then Inr () else Inl ErrForbidden)" for p
    by (rule Authorize_grants_exactly_the_permitted [where t = 1 and e = 3 and u = 2 and p = p
          and w = "demo_world staff_db", OF surjective_pairing, unfolded demo_world_simps,
          OF staff_db_ok, THEN conjunct2, THEN conjunct2, THEN mp]) simp
  show ?thesis
    unfolding decide by (simp add: may_act_def event_key_def demo_event_def active_member_def member_key_def
        demo_member_def staff_key_def demo_staff_def GetPermissionsForRole_def RolePermissions_def)
qed

end
