(* ===== verification/Tenants.thy ===== *)
theory Tenants
  imports Access
begin

text \<open>
  The tenant service (\<open>TenantService\<close>): creation and settings of a tenant, its members and their
  roles. The lemmas show that the rows of a tenant's owners never change, that the permission cache
  is never stale with respect to the memberships this service manages, so that a role change or a
  removal takes effect at once, and who may act on an event.
\<close>

section \<open>The service\<close>

record tenant_service =
  ts_billingSvc :: "subscription_source option"
  ts_rbacSvc :: bool

definition NewTenantService :: "subscription_source option \<Rightarrow> bool \<Rightarrow> tenant_service" where
  "NewTenantService billingSvc rbacSvc = \<lparr>ts_billingSvc = billingSvc, ts_rbacSvc = rbacSvc\<rparr>"

definition TenantService_GetAccess :: "uuid \<Rightarrow> uuid \<Rightarrow> event_access app" where
  "TenantService_GetAccess tenantID userID =
     go_bind (TenantUserRepository_Get tenantID userID) (\<lambda>membership.
     go_ret \<lparr>ea_Role = m_Role membership, ea_Scope = ''tenant'',
       ea_Permissions = GetPermissionsForRole (m_Role membership)\<rparr>)"

definition TenantService_Create ::
  "(string \<Rightarrow> string) \<Rightarrow> uuid \<Rightarrow> tenant_create_request \<Rightarrow> tenant app" where
  "TenantService_Create lower userID req =
     (let slug = lower (TrimSpace (tcq_Slug req)) in
      go_bind (TenantRepository_SlugExists slug) (\<lambda>exists.
      go_guard exists ErrDuplicateSlug (
      go_bind (NewTenant (tcq_Name req) slug) (\<lambda>tenant.
      go_bind (TenantRepository_Create tenant) (\<lambda>_.
      go_bind (NewTenantMembership (ID tenant) userID RoleTenantOwner None) (\<lambda>membership.
      go_bind (TenantUserRepository_Create (membership\<lparr>m_JoinedAt := Some (CreatedAt membership)\<rparr>)) (\<lambda>_.
      go_ignore (LogWithUser userID (ID tenant) AuditActionCreate EntityTypeTenant (ID tenant) None
        (Some [(''name'', JString (tcq_Name req)), (''slug'', JString slug)]))
      (go_ret tenant))))))))"

definition TenantService_Get :: "uuid \<Rightarrow> tenant app" where
  "TenantService_Get tenantID =
     go_bind (TenantRepository_GetByID tenantID) (\<lambda>tenant.
     go_bind (if t_Status tenant = TenantStatusTrial then IsTrialExpired tenant else go_ret False) (\<lambda>expired.
     if expired then
       (let tenant = tenant\<lparr>t_Status := TenantStatusSuspended\<rparr> in
        go_ignore (TenantRepository_Update tenant) (go_ret tenant))
     else go_ret tenant))"

text \<open>The four values of a tenant that the audit log keeps, and the update of its fields.\<close>

definition tenant_values :: "tenant \<Rightarrow> jsonmap" where
  "tenant_values t = [(''name'', JString (t_Name t)),
     (''description'', case t_Description t of None \<Rightarrow> JNull | Some s \<Rightarrow> JString s),
     (''primary_color'', JString (t_PrimaryColor t)),
     (''settings'', case t_Settings t of None \<Rightarrow> JNull | Some m \<Rightarrow> JObject m)]"

definition apply_tenant_update :: "tenant_update_request \<Rightarrow> tenant \<Rightarrow> tenant" where
  "apply_tenant_update req t = t\<lparr>
     t_Name := (if tuq_Name req = [] then t_Name t else tuq_Name req),
     t_Description := set_str (tuq_Description req) (t_Description t),
     t_PrimaryColor := (if tuq_PrimaryColor req = [] then t_PrimaryColor t else tuq_PrimaryColor req),
     t_Settings := coalesce (tuq_Settings req) (t_Settings t)\<rparr>"

definition TenantService_Update :: "uuid \<Rightarrow> uuid \<Rightarrow> tenant_update_request \<Rightarrow> tenant app" where
  "TenantService_Update tenantID userID req =
     go_bind (TenantRepository_GetByID tenantID) (\<lambda>old.
     go_bind now (\<lambda>t.
     let tenant = (apply_tenant_update req old)\<lparr>UpdatedAt := t\<rparr> in
     go_bind (TenantRepository_Update tenant) (\<lambda>_.
     go_ignore (LogWithUser userID tenantID AuditActionUpdate EntityTypeTenant tenantID
       (Some (tenant_values old)) (Some (tenant_values tenant)))
     (go_ret tenant))))"

definition TenantService_ListMyTenants :: "uuid \<Rightarrow> tenant list app" where
  "TenantService_ListMyTenants userID = TenantRepository_ListByUser userID"

definition TenantService_ListMembers :: "uuid \<Rightarrow> (tenant_membership \<times> user) list app" where
  "TenantService_ListMembers tenantID =
     go_bind (TenantUserRepository_ListByTenant tenantID) (with_users m_UserID)"

text \<open>The quota check of \<open>AddUser\<close>; its own errors are dropped.\<close>

definition check_member_quota :: "tenant_service \<Rightarrow> uuid \<Rightarrow> unit app" where
  "check_member_quota s tenantID =
     (case ts_billingSvc s of None \<Rightarrow> go_ret ()
      | Some status \<Rightarrow> go_try (status tenantID) (\<lambda>sub.
          case sub of Inr (Some maxTeamMembers) \<Rightarrow>
            go_try (TenantUserRepository_ListByTenant tenantID) (\<lambda>ms. case ms of
              Inr memberships \<Rightarrow>
                go_guard (maxTeamMembers \<le> int (length memberships)) ErrQuotaExceeded (go_ret ())
            | Inl _ \<Rightarrow> go_ret ())
          | _ \<Rightarrow> go_ret ()))"

text \<open>The account of the new member: created, or verified and activated.\<close>

definition member_account :: "(byte list \<Rightarrow> string \<Rightarrow> int \<Rightarrow> string option) \<Rightarrow>
    tenant_member_create_request \<Rightarrow> string \<Rightarrow> time \<Rightarrow> err + user \<Rightarrow> user app" where
  "member_account bcrypt req email now' look = (case look of
     Inl e \<Rightarrow> if e = ErrUserNotFound then
         go_bind (HashPassword bcrypt (tmr_Password req)) (\<lambda>passwordHash.
         go_bind NewBase (\<lambda>(i, t).
         let phone = TrimSpace (tmr_Phone req);
             user = \<lparr>ID = i, CreatedAt = t, UpdatedAt = t, DeletedAt = None, u_Email = email,
               u_PasswordHash = passwordHash, u_FullName = TrimSpace (tmr_FullName req),
               u_Phone = opt_str phone, u_Position = None, u_Bio = None, u_AvatarURL = None,
               u_EmailVerifiedAt = Some now', u_MFAEnabled = False, u_MFASecret = None,
               u_Status = UserStatusActive\<rparr> in
         go_bind (UserRepository_Create user) (\<lambda>_. go_ret user)))
       else go_fail e
   | Inr user \<Rightarrow>
       let user = user\<lparr>u_EmailVerifiedAt := Some now', u_Status := UserStatusActive\<rparr> in
       go_bind (UserRepository_Update user) (\<lambda>_. go_ret user))"

text \<open>The membership itself, unless the user has an active one; the result is the user's id.\<close>

definition join_member :: "uuid \<Rightarrow> uuid \<Rightarrow> string \<Rightarrow> time \<Rightarrow> user \<Rightarrow> uuid app" where
  "join_member tenantID addedBy role now' user =
     go_try (TenantUserRepository_Get tenantID (ID user)) (\<lambda>existing. case existing of
       Inr _ \<Rightarrow> go_fail ErrAlreadyExists
     | Inl e \<Rightarrow> go_guard (e \<noteq> ErrMembershipNotFound) e (
         go_bind (NewTenantMembership tenantID (ID user) role (Some addedBy)) (\<lambda>membership.
         go_bind (TenantUserRepository_UpsertActive (membership\<lparr>m_Status := MembershipStatusActive,
           m_JoinedAt := Some now'\<rparr>)) (\<lambda>_. go_ret (ID user)))))"

text \<open>Everything of \<open>AddUser\<close> up to the write of the membership.\<close>

definition add_member :: "(string \<Rightarrow> string) \<Rightarrow> (byte list \<Rightarrow> string \<Rightarrow> int \<Rightarrow> string option) \<Rightarrow>
    tenant_service \<Rightarrow> uuid \<Rightarrow> uuid \<Rightarrow> tenant_member_create_request \<Rightarrow> uuid app" where
  "add_member lower bcrypt s tenantID addedBy req =
     (let email = lower (TrimSpace (tmr_Email req)) in
      go_guard (\<not> IsValidRole (tmr_Role req)) ErrInvalidRole (
      go_bind (check_member_quota s tenantID) (\<lambda>_.
      go_guard (tmr_Role req = RoleTenantOwner) ErrForbidden (
      go_bind (TenantRepository_GetByID tenantID) (\<lambda>_.
      go_try (UserRepository_GetByEmail email) (\<lambda>look.
      go_bind now (\<lambda>now'.
      go_bind (member_account bcrypt req email now' look)
        (join_member tenantID addedBy (tmr_Role req) now'))))))))"

definition TenantService_AddUser :: "(string \<Rightarrow> string) \<Rightarrow> (byte list \<Rightarrow> string \<Rightarrow> int \<Rightarrow> string option) \<Rightarrow>
    tenant_service \<Rightarrow> uuid \<Rightarrow> uuid \<Rightarrow> tenant_member_create_request \<Rightarrow> unit proc" where
  "TenantService_AddUser lower bcrypt s tenantID addedBy req =
     go_bind (on_db (add_member lower bcrypt s tenantID addedBy req)) (\<lambda>userID.
     go_bind (if ts_rbacSvc s then rbac_InvalidateUser tenantID userID else go_ret ()) (\<lambda>_.
     go_ignore (on_db (LogWithUser addedBy tenantID AuditActionCreate EntityTypeMembership tenantID None
       (Some [(''email'', JString (lower (TrimSpace (tmr_Email req)))), (''role'', JString (tmr_Role req)),
              (''status'', JString MembershipStatusActive)])))
     (go_ret ())))"

definition TenantService_RemoveUser :: "tenant_service \<Rightarrow> uuid \<Rightarrow> uuid \<Rightarrow> uuid \<Rightarrow> unit proc" where
  "TenantService_RemoveUser s tenantID removedBy targetUserID =
     go_bind (on_db (TenantUserRepository_Get tenantID targetUserID)) (\<lambda>membership.
     go_guard (m_Role membership = RoleTenantOwner) ErrCannotRemoveOwner (
     go_bind (on_db (TenantUserRepository_SoftDelete tenantID targetUserID)) (\<lambda>_.
     go_bind (if ts_rbacSvc s then rbac_InvalidateUser tenantID targetUserID else go_ret ()) (\<lambda>_.
     go_ignore (on_db (LogWithUser removedBy tenantID AuditActionRemove EntityTypeMembership tenantID
       (Some [(''user_id'', JUUID targetUserID), (''role'', JString (m_Role membership))]) None))
     (go_ret ())))))"

definition TenantService_UpdateUserRole ::
  "tenant_service \<Rightarrow> uuid \<Rightarrow> uuid \<Rightarrow> uuid \<Rightarrow> string \<Rightarrow> unit proc" where
  "TenantService_UpdateUserRole s tenantID changedBy targetUserID newRole =
     go_guard (\<not> IsValidRole newRole) ErrInvalidRole (
     go_bind (on_db (TenantUserRepository_Get tenantID targetUserID)) (\<lambda>membership.
     go_guard (m_Role membership = RoleTenantOwner) ErrOwnerRoleImmutable (
     go_guard (newRole = RoleTenantOwner) ErrForbidden (
     go_bind (on_db (TenantUserRepository_UpdateRole tenantID targetUserID newRole)) (\<lambda>_.
     go_bind (if ts_rbacSvc s then rbac_InvalidateUser tenantID targetUserID else go_ret ()) (\<lambda>_.
     go_ignore (on_db (LogWithUser changedBy tenantID AuditActionUpdate EntityTypeMembership tenantID
       (Some [(''user_id'', JUUID targetUserID), (''old_role'', JString (m_Role membership))])
       (Some [(''user_id'', JUUID targetUserID), (''new_role'', JString newRole)])))
     (go_ret ())))))))"

section \<open>A sequence of requests\<close>

text \<open>The requests that read or write memberships, and one of them served by the process.\<close>

datatype tenant_call =
    CreateTenant tenant_create_request
  | GetTenant
  | UpdateTenant tenant_update_request
  | AddUser tenant_member_create_request
  | RemoveUser uuid
  | UpdateUserRole uuid string
  | AssignStaff uuid event_member_create_request
  | ChangeStaff uuid uuid string
  | RemoveStaff uuid uuid
  | CheckPermission uuid string
  | AskRole uuid
  | AskPermissions uuid
  | CheckAny uuid "string list"
  | CheckAll uuid "string list"

definition serve_tenant :: "(string \<Rightarrow> string) \<Rightarrow> (byte list \<Rightarrow> string \<Rightarrow> int \<Rightarrow> string option) \<Rightarrow>
    tenant_service \<Rightarrow> uuid \<Rightarrow> uuid \<Rightarrow> tenant_call \<Rightarrow> unit proc" where
  "serve_tenant lower bcrypt s tenantID userID c = (case c of
      CreateTenant req \<Rightarrow> discard (on_db (TenantService_Create lower userID req))
    | GetTenant \<Rightarrow> discard (on_db (TenantService_Get tenantID))
    | UpdateTenant req \<Rightarrow> discard (on_db (TenantService_Update tenantID userID req))
    | AddUser req \<Rightarrow> TenantService_AddUser lower bcrypt s tenantID userID req
    | RemoveUser u \<Rightarrow> TenantService_RemoveUser s tenantID userID u
    | UpdateUserRole u role \<Rightarrow> TenantService_UpdateUserRole s tenantID userID u role
    | AssignStaff e req \<Rightarrow> discard (on_db (EventMemberService_Create tenantID e userID req))
    | ChangeStaff e u role \<Rightarrow> on_db (EventMemberService_UpdateRole tenantID e userID u role)
    | RemoveStaff e u \<Rightarrow> on_db (EventMemberService_Remove tenantID e userID u)
    | CheckPermission u p \<Rightarrow> discard (rbac_HasPermission tenantID u p)
    | AskRole u \<Rightarrow> discard (rbac_GetRole tenantID u)
    | AskPermissions u \<Rightarrow> discard (rbac_GetPermissions tenantID u)
    | CheckAny u ps \<Rightarrow> rbac_EnforceAnyPermission tenantID u ps
    | CheckAll u ps \<Rightarrow> rbac_EnforceAllPermissions tenantID u ps)"

section \<open>What leaves the memberships alone\<close>

text \<open>The memberships and the ids of the tenants.\<close>

definition member_view :: "db \<Rightarrow> tenant_membership list \<times> uuid list" where
  "member_view d = (tenant_users d, map ID (tenants d))"

abbreviation framed :: "'a app \<Rightarrow> bool" where
  "framed m \<equiv> stays (\<lambda>d d'. member_view d' = member_view d) m"

lemma pure_framed: "stays (=) m \<Longrightarrow> framed m"
  by (erule stays_mono) simp

lemma member_view_other [simp]:
  "member_view (d\<lparr>users := x\<rparr>) = member_view d" "member_view (d\<lparr>event_members := y\<rparr>) = member_view d"
  by (simp_all add: member_view_def)

lemma map_ID_update [simp]:
  assumes "\<And>r. ID (f r) = ID r"
  shows "map ID (update_where p f rs) = map ID rs"
  by (rule map_update_where) (simp add: assms)

lemma LogWithUser_framed: "framed (LogWithUser u t a et ei ov nv)"
  by (rule stays_mono [OF LogWithUser_stays]) (auto simp: member_view_def dest: audit_free_tables)

lemma TenantRepository_Update_framed: "framed (TenantRepository_Update t)"
  unfolding TenantRepository_Update_def
  by (rule same.exec_rows_stays) (auto simp: sql_update_def member_view_def merge_tenant_def)

lemma users_framed: "framed (UserRepository_Create u)" "framed (UserRepository_Update u)"
  unfolding UserRepository_Create_def UserRepository_Update_def Let_def
  by (auto intro!: same.all_stays simp: insert_user_def sql_update_def split: if_splits)

lemma HashPassword_framed: "framed (HashPassword bcrypt p)"
  unfolding HashPassword_def by (auto intro!: same.all_stays split: option.split)

lemma member_account_framed: "framed (member_account bcrypt req email t look)"
  unfolding member_account_def Let_def
  by (auto intro!: same.all_stays same.NewBase_stays HashPassword_framed users_framed split: sum.split)

lemma check_member_quota_framed:
  assumes "\<And>status t. ts_billingSvc s = Some status \<Longrightarrow> framed (status t)"
  shows "framed (check_member_quota s t)"
  unfolding check_member_quota_def TenantUserRepository_ListByTenant_def
  by (auto intro!: same.all_stays assms split: option.split sum.split)

lemma NewTenantMembership_framed: "framed (NewTenantMembership t u role i)"
  unfolding NewTenantMembership_def by (auto intro!: same.all_stays same.NewBase_stays)

lemma lookups_framed:
  "framed (TenantRepository_GetByID t)" "framed (UserRepository_GetByEmail email)"
  "framed (TenantUserRepository_Get t u)" "framed (EventRepository_GetByIDForTenant e t)"
  "framed (EventMemberRepository_Get t e u)" "framed (TenantRepository_SlugExists slug)"
  unfolding TenantRepository_GetByID_def UserRepository_GetByEmail_def TenantUserRepository_Get_def
    EventRepository_GetByIDForTenant_def EventMemberRepository_Get_def TenantRepository_SlugExists_def
  by (rule same.get_one_stays same.query_stays)+

lemma staff_framed:
  "framed (EventMemberRepository_Create m)" "framed (EventMemberRepository_UpdateRole t e u role)"
  "framed (EventMemberRepository_Deactivate t e u)"
  unfolding EventMemberRepository_Create_def EventMemberRepository_UpdateRole_def
    EventMemberRepository_Deactivate_def
  by (auto intro!: same.all_stays simp: upsert_event_member_def sql_update_def Let_def split: if_splits)

lemma services_framed:
  "framed (TenantService_Get t)" "framed (TenantService_Update t u treq)"
  "framed (EventMemberService_Create t e u req)" "framed (EventMemberService_UpdateRole t e u v role)"
  "framed (EventMemberService_Remove t e u v)"
  unfolding TenantService_Get_def TenantService_Update_def IsTrialExpired_def
    EventMemberService_Create_def EventMemberService_UpdateRole_def EventMemberService_Remove_def Let_def
  by (auto intro!: same.all_stays same.NewBase_stays LogWithUser_framed TenantRepository_Update_framed
      lookups_framed staff_framed split: option.split)

text \<open>A framed step: its failure ends the run with the memberships as they were, or the run goes on.\<close>

lemma framed_bind:
  assumes "go_bind m f w = (r, w')" and "framed m"
  obtains (stop) e where "r = Inl e" and "member_view (store w') = member_view (store w)"
  | (pass) x v where "m w = (Inr x, v)" and "member_view (store v) = member_view (store w)"
      and "f x v = (r, w')"
proof (cases "m w")
  case (Pair s v)
  then have v: "member_view (store v) = member_view (store w)" using staysD [OF assms(2)] by simp
  show thesis
  proof (cases s)
    case (Inl e)
    with Pair v assms(1) show thesis by (auto simp: go_bind_run intro: stop)
  next
    case (Inr x)
    with Pair v assms(1) show thesis by (auto simp: go_bind_run intro: pass)
  qed
qed

section \<open>The invariant of the memberships and the cache\<close>

text \<open>
  For a tenant \<open>t\<close> whose active owners are \<open>os\<close> and whose owners of any standing are among \<open>us\<close>: the
  pairs of tenant and user are distinct, the tenant exists, the owners are these, and the cache is
  coherent.
\<close>

definition tenant_inv :: "uuid \<Rightarrow> tenant_membership list \<Rightarrow> uuid set \<Rightarrow> process \<Rightarrow> bool" where
  "tenant_inv t os us p \<longleftrightarrow>
     (let ms = tenant_users (database p) in members_ok ms \<and> has_id t (tenants (database p))
      \<and> owners t ms = os \<and> (\<forall>u. role_of t u ms = Some RoleTenantOwner \<longrightarrow> u \<in> us) \<and> coherent p)"

lemma tenant_inv_same:
  assumes "tenant_inv t os us p" and "member_view (database p') = member_view (database p)"
    and "cache p' = cache p"
  shows "tenant_inv t os us p'"
  using assms by (simp add: tenant_inv_def coherent_def member_view_def has_id_map_ID Let_def)

lemma framed_keeps:
  assumes "framed m"
  shows "stays (\<lambda>p p'. tenant_inv t os us p \<longrightarrow> tenant_inv t os us p') (on_db m)"
  by (rule stays_mono [OF on_db_stays [OF assms]]) (blast intro: tenant_inv_same)

text \<open>A write of one membership, after which the entry of that member leaves the cache.\<close>

lemma tenant_inv_step:
  assumes inv: "tenant_inv t os us p"
    and step: "member_step t' u' (tenant_users (database p)) (tenant_users d)"
    and ids: "map ID (tenants d) = map ID (tenants (database p))"
  shows "tenant_inv t os us (p\<lparr>database := d, cache := (cache p)((t', u') := None)\<rparr>)"
proof -
  let ?ms = "tenant_users (database p)" and ?ms' = "tenant_users d"
  have "members_ok ?ms' \<and> owners t ?ms' = os
      \<and> (\<forall>u. role_of t u ?ms' = Some RoleTenantOwner \<longrightarrow> u \<in> us)"
    using inv step by (auto simp: tenant_inv_def member_step_def Let_def)
  moreover have "coherent (p\<lparr>database := d, cache := (cache p)((t', u') := None)\<rparr>)"
    unfolding coherent_def
  proof (intro allI impI)
    fix t1 u1 e
    assume "cache (p\<lparr>database := d, cache := (cache p)((t', u') := None)\<rparr>) (t1, u1) = Some e"
    then have ne: "(t1, u1) \<noteq> (t', u')" and e: "cache p (t1, u1) = Some e"
      by (auto split: if_splits)
    with inv have "role_of t1 u1 ?ms = Some (pce_role e) \<and> pce_perms e = GetPermissionsForRole (pce_role e)"
      by (auto simp: tenant_inv_def coherent_def Let_def)
    with role_of_other [OF step ne] show "role_of t1 u1 (tenant_users (database
        (p\<lparr>database := d, cache := (cache p)((t', u') := None)\<rparr>))) = Some (pce_role e)
        \<and> pce_perms e = GetPermissionsForRole (pce_role e)" by simp
  qed
  ultimately show ?thesis using inv ids by (simp add: tenant_inv_def has_id_map_ID Let_def)
qed

text \<open>A new tenant with its owner.\<close>

lemma tenant_inv_new:
  assumes inv: "tenant_inv t os us p" and new: "TenantID m \<noteq> t" and fresh: "\<not> list_ex (same_member m) (tenant_users (database p))"
    and d: "tenant_users d = tenant_users (database p) @ [m]"
    and ids: "set (map ID (tenants (database p))) \<subseteq> set (map ID (tenants d))"
  shows "tenant_inv t os us (p\<lparr>database := d\<rparr>)"
proof -
  have "role_of t u (tenant_users d) = role_of t u (tenant_users (database p))" for u
    using new by (simp add: d role_of_def find_append member_key_def split: option.split)
  moreover have "coherent (p\<lparr>database := d\<rparr>)"
    using inv by (auto simp: tenant_inv_def coherent_def d Let_def intro: role_of_append)
  ultimately show ?thesis
    using inv new fresh ids by (auto simp: tenant_inv_def Let_def has_id_map_ID d members_ok_append owners_def)
qed

text \<open>The tail that every change of a membership ends with.\<close>

lemma invalidate_tail:
  assumes "go_bind (rbac_InvalidateUser t' u') (\<lambda>_. go_ignore (on_db (LogWithUser a b c d e f g)) (go_ret ())) w
      = (r, w')"
    and "tenant_inv t os us ((store w)\<lparr>cache := (cache (store w))((t', u') := None)\<rparr>)"
  shows "tenant_inv t os us (store w')"
proof -
  let ?p = "(store w)\<lparr>cache := (cache (store w))((t', u') := None)\<rparr>"
  obtain s v where log: "on_db (LogWithUser a b c d e f g) (w\<lparr>store := ?p\<rparr>) = (s, v)" "w' = v"
    using assms(1) by (auto simp: rbac_InvalidateUser_def invalidateCache_def go_bind_run poke_def
        go_ignore_def go_try_run intro: surjective_pairing)
  from staysD [OF framed_keeps [OF LogWithUser_framed] log(1)] assms(2) log(2)
  show ?thesis by simp
qed

lemma on_db_pure: "stays (=) m \<Longrightarrow> stays (=) (on_db m)"
  by (drule on_db_stays, erule stays_mono) (simp add: process.equality)

lemma MemberGet_pure: "stays (=) (on_db (TenantUserRepository_Get t u))"
  unfolding TenantUserRepository_Get_def by (intro on_db_pure unchanged.get_one_stays)

text \<open>A write on the database that succeeds or fails, then the tail.\<close>

lemma write_then_invalidate:
  assumes run: "go_bind (on_db m) (\<lambda>x. go_bind (rbac_InvalidateUser t' (u' x))
      (\<lambda>_. go_ignore (on_db (LogWithUser a b c d e f g)) (go_ret ()))) w = (r, w')"
    and inv: "tenant_inv t os us (store w)"
    and step: "\<And>s v. m (db_world w) = (s, v) \<Longrightarrow> case s of
      Inl _ \<Rightarrow> member_view (store v) = member_view (database (store w))
    | Inr x \<Rightarrow> member_step t' (u' x) (tenant_users (database (store w))) (tenant_users (store v))
        \<and> map ID (tenants (store v)) = map ID (tenants (database (store w)))"
  shows "tenant_inv t os us (store w')"
proof -
  obtain s v where m: "m (db_world w) = (s, v)" by fastforce
  let ?w = "w\<lparr>store := (store w)\<lparr>database := store v\<rparr>, pos := pos v\<rparr>"
  have db: "on_db m w = (s, ?w)" using m by (simp add: on_db_def)
  show ?thesis
  proof (cases s)
    case (Inl x)
    with db run have "w' = ?w" by (simp add: go_bind_run)
    with step [OF m] Inl inv show ?thesis by (auto intro: tenant_inv_same)
  next
    case (Inr x)
    with db run have tail: "go_bind (rbac_InvalidateUser t' (u' x))
      (\<lambda>_. go_ignore (on_db (LogWithUser a b c d e f g)) (go_ret ())) ?w = (r, w')" by (simp add: go_bind_run)
    from step [OF m] Inr have "tenant_inv t os us
        ((store w)\<lparr>database := store v, cache := (cache (store w))((t', u' x) := None)\<rparr>)"
      by (intro tenant_inv_step [OF inv]) auto
    then show ?thesis by (intro invalidate_tail [OF tail]) simp
  qed
qed

lemma RemoveUser_keeps:
  assumes "TenantService_RemoveUser (NewTenantService b True) t' a u w = (r, w')"
    and "tenant_inv t os us (store w)"
  shows "tenant_inv t os us (store w')"
  using assms(1) unfolding TenantService_RemoveUser_def NewTenantService_def
proof (cases rule: pure_bind [OF _ MemberGet_pure, consumes 1, case_names stop' found])
  case (stop' e)
  with assms(2) show ?thesis by simp
next
  case (found m v)
  then have m: "find (active_member t' u) (tenant_users (database (store v))) = Some m"
    by (auto simp: on_db_eq MemberGet_Inr)
  show ?thesis
    using found(3)
  proof (cases rule: pure_guard [consumes 1, case_names stop' go])
    case stop'
    with found assms(2) show ?thesis by simp
  next
    case go
    from go(2) [simplified] show ?thesis
    proof (rule write_then_invalidate)
      show "tenant_inv t os us (store v)" using assms(2) found by simp
      fix s x
      assume del: "TenantUserRepository_SoftDelete t' u (db_world v) = (s, x)"
      from SoftDelete_step [OF this] m go(1)
      have "member_step t' u (tenant_users (database (store v))) (tenant_users (store x))
          \<and> tenants (store x) = tenants (database (store v))" by simp
      moreover have "store x = database (store v)" if "s = Inl e" for e
        using del that by (auto simp: TenantUserRepository_SoftDelete_def tenant_users_table.update_fails)
      ultimately show "case s of Inl _ \<Rightarrow> member_view (store x) = member_view (database (store v))
        | Inr _ \<Rightarrow> member_step t' u (tenant_users (database (store v))) (tenant_users (store x))
            \<and> map ID (tenants (store x)) = map ID (tenants (database (store v)))" by (cases s) auto
    qed
  qed
qed

lemma UpdateUserRole_keeps:
  assumes "TenantService_UpdateUserRole (NewTenantService b True) t' a u role w = (r, w')"
    and "tenant_inv t os us (store w)"
  shows "tenant_inv t os us (store w')"
  using assms(1) unfolding TenantService_UpdateUserRole_def NewTenantService_def
proof (cases rule: pure_guard [consumes 1, case_names stop' valid])
  case stop'
  with assms(2) show ?thesis by simp
next
  case valid
  show ?thesis
    using valid(2)
  proof (cases rule: pure_bind [OF _ MemberGet_pure, consumes 1, case_names stop' found])
    case (stop' e)
    with assms(2) show ?thesis by simp
  next
    case (found m v)
    then have m: "find (active_member t' u) (tenant_users (database (store v))) = Some m"
      by (auto simp: on_db_eq MemberGet_Inr)
    show ?thesis
    proof (cases "m_Role m = RoleTenantOwner \<or> role = RoleTenantOwner")
      case True
      with found(3) have "w' = v" by (auto simp: go_guard_eq split: if_splits)
      with found assms(2) show ?thesis by simp
    next
      case False
      with found(3) have run: "go_bind (on_db (TenantUserRepository_UpdateRole t' u role)) (\<lambda>_.
          go_bind (rbac_InvalidateUser t' u) (\<lambda>_. go_ignore (on_db (LogWithUser a t' AuditActionUpdate
            EntityTypeMembership t' (Some [(''user_id'', JUUID u), (''old_role'', JString (m_Role m))])
            (Some [(''user_id'', JUUID u), (''new_role'', JString role)]))) (go_ret ()))) v = (r, w')"
        by (simp add: go_guard_def)
      from run show ?thesis
      proof (rule write_then_invalidate)
        show "tenant_inv t os us (store v)" using assms(2) found by simp
        fix s x
        assume upd: "TenantUserRepository_UpdateRole t' u role (db_world v) = (s, x)"
        from UpdateRole_step [OF this] m False
        have "member_step t' u (tenant_users (database (store v))) (tenant_users (store x))
            \<and> tenants (store x) = tenants (database (store v))" by simp
        moreover have "store x = database (store v)" if "s = Inl e" for e
          using upd that by (auto simp: TenantUserRepository_UpdateRole_def tenant_users_table.update_fails)
        ultimately show "case s of Inl _ \<Rightarrow> member_view (store x) = member_view (database (store v))
        | Inr _ \<Rightarrow> member_step t' u (tenant_users (database (store v))) (tenant_users (store x))
            \<and> map ID (tenants (store x)) = map ID (tenants (database (store v)))" by (cases s) auto
      qed
    qed
  qed
qed


text \<open>\<open>AddUser\<close> up to its membership.\<close>

lemma NewTenantMembership_Inr:
  "NewTenantMembership t u role i w = (Inr m, w') \<Longrightarrow>
     TenantID m = t \<and> m_UserID m = u \<and> m_Role m = role \<and> store w' = store w"
  by (auto simp: NewTenantMembership_def go_run)

abbreviation joins :: "uuid \<Rightarrow> db world \<Rightarrow> err + uuid \<Rightarrow> db world \<Rightarrow> bool" where
  "joins t w r w' \<equiv> (case r of Inl _ \<Rightarrow> member_view (store w') = member_view (store w)
    | Inr u \<Rightarrow> member_step t u (tenant_users (store w)) (tenant_users (store w'))
        \<and> map ID (tenants (store w')) = map ID (tenants (store w)))"

lemma joins_view: "joins t v r w' \<Longrightarrow> member_view (store v) = member_view (store w) \<Longrightarrow> joins t w r w'"
  by (simp add: member_view_def split: sum.splits)

lemma member_tail:
  assumes run: "go_bind (NewTenantMembership t u role (Some a)) (\<lambda>m.
      go_bind (TenantUserRepository_UpsertActive (m\<lparr>m_Status := MembershipStatusActive, m_JoinedAt := Some n\<rparr>))
        (\<lambda>_. go_ret u)) w = (r, w')"
    and none: "find (active_member t u) (tenant_users (store w)) = None" and role: "role \<noteq> RoleTenantOwner"
  shows "joins t w r w'"
  using run
proof (cases rule: framed_bind [OF _ NewTenantMembership_framed, consumes 1, case_names stop' new])
  case (stop' e)
  then show ?thesis by simp
next
  case (new m v)
  have m: "TenantID m = t" "m_UserID m = u" "m_Role m = role" and v: "store v = store w"
    using NewTenantMembership_Inr [OF new(1)] by auto
  obtain s x where up: "TenantUserRepository_UpsertActive
      (m\<lparr>m_Status := MembershipStatusActive, m_JoinedAt := Some n\<rparr>) v = (s, x)" by fastforce
  from UpsertActive_step [OF up] m v none role
  have "member_step t u (tenant_users (store w)) (tenant_users (store x))
      \<and> tenants (store x) = tenants (store w) \<and> (\<forall>e. s = Inl e \<longrightarrow> store x = store w)" by simp
  with new(3) up show ?thesis by (cases s) (auto simp: go_bind_run)
qed

lemma join_member_run:
  assumes run: "join_member t a role n user w = (r, w')" and role: "role \<noteq> RoleTenantOwner"
  shows "joins t w r w'"
proof -
  obtain g v where get: "TenantUserRepository_Get t (ID user) w = (g, v)" by fastforce
  then have v: "store v = store w" by (cases g) (auto simp: MemberGet_Inr MemberGet_Inl)
  show ?thesis
  proof (cases "g = Inl ErrMembershipNotFound")
    case False
    with run get have "\<exists>e. r = Inl e \<and> w' = v"
      by (cases g) (auto simp: join_member_def go_try_eq go_guard_def split: if_splits)
    with v show ?thesis by auto
  next
    case True
    with get v have none: "find (active_member t (ID user)) (tenant_users (store v)) = None"
      by (auto simp: MemberGet_Inl split: if_splits)
    from True run get have "go_bind (NewTenantMembership t (ID user) role (Some a)) (\<lambda>m.
        go_bind (TenantUserRepository_UpsertActive (m\<lparr>m_Status := MembershipStatusActive,
          m_JoinedAt := Some n\<rparr>)) (\<lambda>_. go_ret (ID user))) v = (r, w')"
      by (auto simp: join_member_def go_try_eq go_guard_def)
    from member_tail [OF this none role] show ?thesis by (rule joins_view) (simp add: v)
  qed
qed

lemma bind_now: "go_bind now f w = f (clock w (pos w)) (tick w)"
  by (simp add: go_bind_run now_def)

lemma account_then_join:
  assumes "go_try (UserRepository_GetByEmail email) (\<lambda>look. go_bind now (\<lambda>n.
      go_bind (member_account bcrypt req email n look) (join_member t a role n))) w = (r, w')"
    and role: "role \<noteq> RoleTenantOwner"
  shows "joins t w r w'"
proof -
  obtain look v where look: "UserRepository_GetByEmail email w = (look, v)" by fastforce
  have v: "member_view (store (tick v)) = member_view (store w)"
    using staysD [OF lookups_framed(2) look] by simp
  from assms(1) look have "go_bind (member_account bcrypt req email (clock v (pos v)) look)
      (join_member t a role (clock v (pos v))) (tick v) = (r, w')"
    by (simp add: go_try_run bind_now)
  then show ?thesis
  proof (cases rule: framed_bind [OF _ member_account_framed, consumes 1, case_names stop' user])
    case (stop' e)
    with v show ?thesis by simp
  next
    case (user x u)
    from join_member_run [OF user(3) role] show ?thesis by (rule joins_view) (use user v in simp)
  qed
qed

lemma add_member_run:
  assumes run: "add_member lower bcrypt s t a req w = (r, w')"
    and billing: "\<And>status x. ts_billingSvc s = Some status \<Longrightarrow> framed (status x)"
  shows "joins t w r w'"
proof (cases "IsValidRole (tmr_Role req)")
  case False
  with run show ?thesis by (auto simp: add_member_def go_guard_def)
next
  case True
  note run = run [unfolded add_member_def Let_def go_guard_def, simplified True, simplified]
  have quota: "framed (check_member_quota s t)" by (rule check_member_quota_framed) (rule billing)
  from run show ?thesis
  proof (cases rule: framed_bind [OF _ quota, consumes 1, case_names stop' quota])
    case (stop' e)
    then show ?thesis by simp
  next
    case (quota q w1)
    show ?thesis
    proof (cases "tmr_Role req = RoleTenantOwner")
      case True
      with quota show ?thesis by auto
    next
      case role: False
      let ?email = "lower (TrimSpace (tmr_Email req))"
      from role quota(3) have "go_bind (TenantRepository_GetByID t) (\<lambda>_. go_try (UserRepository_GetByEmail ?email)
          (\<lambda>look. go_bind now (\<lambda>n. go_bind (member_account bcrypt req ?email n look)
            (join_member t a (tmr_Role req) n)))) w1 = (r, w')" by simp
      then show ?thesis
      proof (cases rule: framed_bind [OF _ lookups_framed(1), consumes 1, case_names stop' tenant])
        case (stop' e)
        with quota show ?thesis by simp
      next
        case (tenant q2 w2)
        from account_then_join [OF tenant(3) role] show ?thesis
          by (rule joins_view) (use tenant quota in simp)
      qed
    qed
  qed
qed

lemma AddUser_keeps:
  assumes "TenantService_AddUser lower bcrypt (NewTenantService b True) t' a req w = (r, w')"
    and "tenant_inv t os us (store w)" and "\<And>status x. b = Some status \<Longrightarrow> framed (status x)"
  shows "tenant_inv t os us (store w')"
proof -
  let ?s = "NewTenantService b True"
  from assms(1) have "go_bind (on_db (add_member lower bcrypt ?s t' a req)) (\<lambda>userID.
      go_bind (rbac_InvalidateUser t' userID) (\<lambda>_. go_ignore (on_db (LogWithUser a t' AuditActionCreate
        EntityTypeMembership t' None (Some [(''email'', JString (lower (TrimSpace (tmr_Email req)))),
          (''role'', JString (tmr_Role req)), (''status'', JString MembershipStatusActive)]))) (go_ret ()))) w
      = (r, w')"
    by (simp add: TenantService_AddUser_def NewTenantService_def)
  then show ?thesis
  proof (rule write_then_invalidate)
    show "tenant_inv t os us (store w)" by (rule assms(2))
    fix s v
    assume "add_member lower bcrypt ?s t' a req (db_world w) = (s, v)"
    from add_member_run [OF this] assms(3)
    show "case s of Inl _ \<Rightarrow> member_view (store v) = member_view (database (store w))
      | Inr x \<Rightarrow> member_step t' x (tenant_users (database (store w))) (tenant_users (store v))
          \<and> map ID (tenants (store v)) = map ID (tenants (database (store w)))"
      by (cases s) (auto simp: NewTenantService_def)
  qed
qed

text \<open>A new tenant: nothing is lost, and a new membership belongs to a tenant that did not exist.\<close>

definition new_tenant_step :: "db \<Rightarrow> db \<Rightarrow> bool" where
  "new_tenant_step d d' \<longleftrightarrow> set (map ID (tenants d)) \<subseteq> set (map ID (tenants d'))
     \<and> (tenant_users d' = tenant_users d
        \<or> (\<exists>m. tenant_users d' = tenant_users d @ [m] \<and> \<not> has_id (TenantID m) (tenants d)
             \<and> \<not> list_ex (same_member m) (tenant_users d)))"

lemma new_tenant_step_view:
  "new_tenant_step d d' \<Longrightarrow> member_view d'' = member_view d' \<Longrightarrow> new_tenant_step d d''"
  by (simp add: new_tenant_step_def member_view_def)

lemma new_entities_pure: "stays (=) (NewTenant name slug)" "stays (=) (NewTenantMembership t u role i)"
  "stays (=) (TenantRepository_SlugExists slug)"
  unfolding NewTenant_def NewTenantMembership_def TenantRepository_SlugExists_def
  by (auto intro!: unchanged.all_stays unchanged.NewBase_stays)

lemma TenantRepository_Create_run:
  assumes "TenantRepository_Create t w = (r, w')"
  shows "(\<exists>e. r = Inl e \<and> store w' = store w) \<or>
    (\<exists>x. r = Inr () \<and> store w' = (store w)\<lparr>tenants := tenants (store w) @ [x]\<rparr> \<and> ID x = ID t
      \<and> \<not> has_id (ID t) (tenants (store w)))"
  using assms by (cases r) (auto simp: TenantRepository_Create_def go_bind_Inr go_bind_Inl exec_Inr exec_Inl
      insert_tenant_def split: if_splits)

lemma TenantUserRepository_Create_run:
  assumes "TenantUserRepository_Create m w = (r, w')"
  shows "(\<exists>e. r = Inl e \<and> store w' = store w) \<or>
    (r = Inr () \<and> store w' = (store w)\<lparr>tenant_users := tenant_users (store w) @ [m]\<rparr>
      \<and> \<not> list_ex (same_member m) (tenant_users (store w)))"
  using assms by (cases r) (auto simp: TenantUserRepository_Create_def go_bind_Inr go_bind_Inl exec_Inr
      exec_Inl insert_membership_def split: if_splits)

lemma add_owner_run:
  assumes run: "go_bind (NewTenantMembership t u RoleTenantOwner None) (\<lambda>m.
      go_bind (TenantUserRepository_Create (m\<lparr>m_JoinedAt := Some (CreatedAt m)\<rparr>)) (\<lambda>_.
      go_ignore (LogWithUser a b c d e f g) (go_ret x))) w = (r, w')"
    and d0: "tenant_users (store w) = tenant_users d0" and new: "\<not> has_id t (tenants d0)"
    and ids: "set (map ID (tenants d0)) \<subseteq> set (map ID (tenants (store w)))"
  shows "new_tenant_step d0 (store w')"
  using run
proof (cases rule: pure_bind [OF _ new_entities_pure(2), consumes 1, case_names stop' owner])
  case (stop' e)
  with d0 ids show ?thesis by (simp add: new_tenant_step_def)
next
  case (owner m v)
  have m: "TenantID m = t" using NewTenantMembership_Inr [OF owner(1)] by simp
  obtain s y where ins: "TenantUserRepository_Create (m\<lparr>m_JoinedAt := Some (CreatedAt m)\<rparr>) v = (s, y)"
    by fastforce
  have step: "new_tenant_step d0 (store y)"
    using TenantUserRepository_Create_run [OF ins] d0 new ids m owner(2)
    by (auto simp: new_tenant_step_def)
  show ?thesis
  proof (cases s)
    case (Inl z)
    with owner(3) ins step show ?thesis by (simp add: go_bind_run)
  next
    case (Inr z)
    with owner(3) ins have "w' = snd (LogWithUser a b c d e f g y)"
      by (simp add: go_bind_run go_ignore_def go_try_run)
    then have "member_view (store w') = member_view (store y)"
      using staysD [OF LogWithUser_framed, of a b c d e f g y] by (metis prod.collapse)
    with step show ?thesis by (rule new_tenant_step_view)
  qed
qed

lemma TenantService_Create_run:
  assumes "TenantService_Create lower u req w = (r, w')"
  shows "new_tenant_step (store w) (store w')"
  using assms unfolding TenantService_Create_def Let_def
proof (cases rule: pure_bind [OF _ new_entities_pure(3), consumes 1, case_names stop' slug])
  case (stop' e)
  then show ?thesis by (simp add: new_tenant_step_def)
next
  case (slug b w1)
  show ?thesis using slug(3)
  proof (cases rule: pure_guard [consumes 1, case_names stop' free])
    case stop'
    with slug show ?thesis by (simp add: new_tenant_step_def)
  next
    case free
    show ?thesis using free(2)
    proof (cases rule: pure_bind [OF _ new_entities_pure(1), consumes 1, case_names stop' tenant])
      case (stop' e)
      with slug show ?thesis by (simp add: new_tenant_step_def)
    next
      case (tenant t w2)
      obtain s v where ins: "TenantRepository_Create t w2 = (s, v)" by fastforce
      from TenantRepository_Create_run [OF ins] show ?thesis
      proof (elim disjE exE conjE)
        fix e assume "s = Inl e" "store v = store w2"
        with tenant ins slug show ?thesis by (simp add: go_bind_run new_tenant_step_def)
      next
        fix x assume x: "s = Inr ()" "store v = (store w2)\<lparr>tenants := tenants (store w2) @ [x]\<rparr>"
          "ID x = ID t" "\<not> has_id (ID t) (tenants (store w2))"
        with tenant(3) ins have "go_bind (NewTenantMembership (ID t) u RoleTenantOwner None) (\<lambda>m.
            go_bind (TenantUserRepository_Create (m\<lparr>m_JoinedAt := Some (CreatedAt m)\<rparr>)) (\<lambda>_.
            go_ignore (LogWithUser u (ID t) AuditActionCreate EntityTypeTenant (ID t) None
              (Some [(''name'', JString (tcq_Name req)), (''slug'', JString (lower (TrimSpace (tcq_Slug req))))]))
            (go_ret t))) v = (r, w')" by (simp add: go_bind_run)
        from this show ?thesis by (rule add_owner_run) (use x tenant slug in auto)
      qed
    qed
  qed
qed

lemma CreateTenant_keeps:
  assumes "on_db (TenantService_Create lower u req) w = (r, w')" and inv: "tenant_inv t os us (store w)"
  shows "tenant_inv t os us (store w')"
proof -
  obtain v where v: "TenantService_Create lower u req (db_world w) = (r, v)"
    and w': "store w' = (store w)\<lparr>database := store v\<rparr>" using assms(1) by (auto simp: on_db_eq)
  have step: "new_tenant_step (database (store w)) (store v)"
    using TenantService_Create_run [OF v] by simp
  show ?thesis
  proof (cases "tenant_users (store v) = tenant_users (database (store w))")
    case True
    with inv step w' show ?thesis
      by (auto simp: tenant_inv_def coherent_def new_tenant_step_def has_id_map_ID Let_def)
  next
    case False
    with step obtain m where m: "tenant_users (store v) = tenant_users (database (store w)) @ [m]"
      "\<not> has_id (TenantID m) (tenants (database (store w)))"
      "\<not> list_ex (same_member m) (tenant_users (database (store w)))" by (auto simp: new_tenant_step_def)
    from inv m(2) have "TenantID m \<noteq> t" by (auto simp: tenant_inv_def Let_def)
    with inv m step show ?thesis
      unfolding w' by (intro tenant_inv_new [where m = m]) (auto simp: new_tenant_step_def)
  qed
qed

section \<open>Every request keeps the invariant\<close>

lemma tenant_inv_check:
  assumes "tenant_inv t os us (store w)" and "coherent (store w) \<Longrightarrow> coherent (store w') \<and> database (store w') = database (store w)"
  shows "tenant_inv t os us (store w')"
  using assms by (auto simp: tenant_inv_def Let_def)

lemma discard_store: "store (snd (discard m w)) = store (snd (m w))"
  by (simp add: discard_def go_bind_run split: prod.split sum.split)

abbreviation quiet_billing :: "subscription_source option \<Rightarrow> bool" where
  "quiet_billing b \<equiv> \<forall>status x. b = Some status \<longrightarrow> framed (status x)"

lemma framed_served:
  assumes "framed m" and "tenant_inv t os us (store w)"
  shows "tenant_inv t os us (store (snd (on_db m w)))"
  using framed_keeps [OF assms(1)] assms(2) by (auto simp: stays_def)

lemmas services_served = services_framed [THEN framed_served]

lemma checks_served:
  assumes "tenant_inv t os us (store w)"
  shows "tenant_inv t os us (store (snd (rbac_HasPermission t' u p w)))"
    and "tenant_inv t os us (store (snd (rbac_GetRole t' u w)))"
    and "tenant_inv t os us (store (snd (rbac_GetPermissions t' u w)))"
    and "tenant_inv t os us (store (snd (rbac_EnforceAnyPermission t' u ps w)))"
    and "tenant_inv t os us (store (snd (rbac_EnforceAllPermissions t' u ps w)))"
  by (rule tenant_inv_check [OF assms], metis HasPermission_run prod.collapse)
    (rule tenant_inv_check [OF assms], metis AskRole_run prod.collapse,
     rule tenant_inv_check [OF assms], metis AskPermissions_run prod.collapse,
     rule tenant_inv_check [OF assms], metis EnforceAny_run prod.collapse,
     rule tenant_inv_check [OF assms], metis EnforceAll_run prod.collapse)

lemma serve_tenant_keeps:
  assumes inv: "tenant_inv t os us (store w)" and billing: "quiet_billing b"
  shows "tenant_inv t os us (store (snd (serve_tenant lower bcrypt (NewTenantService b True) t' u c w)))"
proof (cases c)
  case (CreateTenant req)
  then show ?thesis using CreateTenant_keeps [OF surjective_pairing inv]
    by (simp add: serve_tenant_def discard_store)
next
  case (AddUser req)
  then show ?thesis using AddUser_keeps [OF surjective_pairing inv] billing
    by (simp add: serve_tenant_def)
next
  case (RemoveUser v)
  then show ?thesis using RemoveUser_keeps [OF surjective_pairing inv] by (simp add: serve_tenant_def)
next
  case (UpdateUserRole v role)
  then show ?thesis using UpdateUserRole_keeps [OF surjective_pairing inv] by (simp add: serve_tenant_def)
qed (simp_all add: serve_tenant_def discard_store services_served checks_served inv)

definition serve_tenants :: "(string \<Rightarrow> string) \<Rightarrow> (byte list \<Rightarrow> string \<Rightarrow> int \<Rightarrow> string option) \<Rightarrow>
    subscription_source option \<Rightarrow> (uuid \<times> uuid \<times> tenant_call) list \<Rightarrow> process world \<Rightarrow> process world" where
  "serve_tenants lower bcrypt b calls =
     serve_all (map (\<lambda>(t, u, c). serve_tenant lower bcrypt (NewTenantService b True) t u c) calls)"

lemma serve_tenants_keeps:
  assumes "tenant_inv t os us (store w)" and "quiet_billing b"
  shows "tenant_inv t os us (store (serve_tenants lower bcrypt b calls w))"
  unfolding serve_tenants_def
  by (rule serve_all_keeps [where I = "tenant_inv t os us"]) (use assms serve_tenant_keeps in auto)

lemma tenant_inv_start:
  assumes "members_ok (tenant_users (database p))" and "has_id t (tenants (database p))" and "coherent p"
  shows "tenant_inv t (owners t (tenant_users (database p)))
    {u. role_of t u (tenant_users (database p)) = Some RoleTenantOwner} p"
  using assms by (simp add: tenant_inv_def Let_def)

section \<open>Properties\<close>

text \<open>C5: The permission cache is never stale: after any sequence of requests to the tenant service,
  to the event staff service and to the permission checks themselves, in any order, with any
  failures and any readings of the clock, a permission check answers exactly what the table of
  memberships says at that moment, as a check without a cache would. In particular a changed role
  and a removed member take effect at once.\<close>

theorem permission_cache_is_never_stale:
  assumes "members_ok (tenant_users (database (store w)))" and "has_id t (tenants (database (store w)))"
    and "coherent (store w)" and "quiet_billing b"
    and "rbac_HasPermission t u p (serve_tenants lower bcrypt b calls w) = (Inr answer, w')"
  shows "answer \<longleftrightarrow> p \<in> permitted t u (tenant_users (database (store (serve_tenants lower bcrypt b calls w))))"
proof -
  from serve_tenants_keeps [OF tenant_inv_start [OF assms(1-3)] assms(4)]
  have "coherent (store (serve_tenants lower bcrypt b calls w))" by (simp add: tenant_inv_def Let_def)
  with HasPermission_run [OF assms(5)] show ?thesis by simp
qed

text \<open>C6: The active owners of a tenant never change: no sequence of requests removes an owner,
  changes an owner's row in any field, or adds another owner to an existing tenant.\<close>

theorem owners_never_change:
  assumes "members_ok (tenant_users (database (store w)))" and "has_id t (tenants (database (store w)))"
    and "coherent (store w)" and "quiet_billing b"
  shows "owners t (tenant_users (database (store (serve_tenants lower bcrypt b calls w))))
    = owners t (tenant_users (database (store w)))"
  using serve_tenants_keeps [OF tenant_inv_start [OF assms(1-3)] assms(4), of lower bcrypt calls]
  by (simp add: tenant_inv_def Let_def)

text \<open>C8: No request escalates privileges: a user whom a permission check allows, after any sequence
  of requests, to manage an existing tenant (its billing, its team, its settings, its audit log)
  was an owner of that tenant before the first request.\<close>

theorem only_owners_manage_a_tenant:
  assumes "members_ok (tenant_users (database (store w)))" and "has_id t (tenants (database (store w)))"
    and "coherent (store w)" and "quiet_billing b" and "p \<in> set tenant_management"
    and "rbac_HasPermission t u p (serve_tenants lower bcrypt b calls w) = (Inr True, w')"
  shows "role_of t u (tenant_users (database (store w))) = Some RoleTenantOwner"
proof -
  let ?v = "serve_tenants lower bcrypt b calls w"
  have inv: "tenant_inv t (owners t (tenant_users (database (store w))))
      {u. role_of t u (tenant_users (database (store w))) = Some RoleTenantOwner} (store ?v)"
    by (rule serve_tenants_keeps [OF tenant_inv_start [OF assms(1-3)] assms(4)])
  then have "coherent (store ?v)" by (simp add: tenant_inv_def Let_def)
  with HasPermission_run [OF assms(6)] have "p \<in> permitted t u (tenant_users (database (store ?v)))" by blast
  then obtain role where role: "role_of t u (tenant_users (database (store ?v))) = Some role"
    and p: "p \<in> set (GetPermissionsForRole role)" by (auto simp: permitted_def split: option.splits)
  from p have "map_of RolePermissions role = Some (GetPermissionsForRole role)"
    by (cases "map_of RolePermissions role") (auto simp: GetPermissionsForRole_def)
  with p assms(5) have "role = RoleTenantOwner" by (metis tenant_management_needs_owner)
  with role inv show ?thesis by (simp add: tenant_inv_def Let_def)
qed


text \<open>A tenant with an owner and an usher, and an empty cache.\<close>

definition demo_owner :: tenant_membership where
  "demo_owner = demo_member\<lparr>ID := 22, m_UserID := 9, m_Role := RoleTenantOwner\<rparr>"

definition team :: process where
  "team = \<lparr>database = demo_db\<lparr>tenant_users := [demo_owner, demo_member]\<rparr>, cache = (\<lambda>_. None)\<rparr>"

definition demo_bcrypt :: "byte list \<Rightarrow> string \<Rightarrow> int \<Rightarrow> string option" where
  "demo_bcrypt salt password cost = Some password"

definition demo_requests :: "(uuid \<times> uuid \<times> tenant_call) list" where
  "demo_requests = [(1, 9, CheckPermission 2 PermCheckinWrite), (1, 9, UpdateUserRole 2 RoleViewer)]"

lemmas process_eval = serve_tenants_def serve_tenant_def discard_def NewTenantService_def
  rbac_HasPermission_def load_permissions_def getCachedPermissions_def setCachedPermissions_def
  rbac_InvalidateUser_def invalidateCache_def peek_def poke_def on_db_def db_world_def
  TenantUserRepository_GetRole_def TenantUserRepository_Get_def TenantUserRepository_UpdateRole_def
  TenantService_UpdateUserRole_def permission_ttl_def member_key_def active_member_def

lemma demo_roles:
  "IsValidRole RoleViewer" "hasPermission (GetPermissionsForRole RoleUsher) PermCheckinWrite"
  "\<not> hasPermission (GetPermissionsForRole RoleViewer) PermCheckinWrite"
  "hasPermission (GetPermissionsForRole RoleTenantOwner) PermTeamWrite"
  by code_simp+

lemma team_start:
  "members_ok (tenant_users (database (store (demo_world team))))"
  "has_id 1 (tenants (database (store (demo_world team))))" "coherent (store (demo_world team))"
  "quiet_billing None"
  by (simp_all add: team_def members_ok_def demo_owner_def demo_member_def coherent_def demo_tenant_def)

theorem permission_cache_is_never_stale_witness:
  "fst (rbac_HasPermission 1 2 PermCheckinWrite (serve_tenants id demo_bcrypt None demo_requests (demo_world team)))
     = Inr False
   \<and> PermCheckinWrite \<notin> permitted 1 2 (tenant_users (database (store
       (serve_tenants id demo_bcrypt None demo_requests (demo_world team)))))"
proof -
  have run: "fst (rbac_HasPermission 1 2 PermCheckinWrite
      (serve_tenants id demo_bcrypt None demo_requests (demo_world team))) = Inr False"
    by (simp add: demo_requests_def process_eval go_eval team_def demo_owner_def demo_member_def
        demo_roles insert_audit_log_def)
  from run permission_cache_is_never_stale [OF team_start run_pair [of "rbac_HasPermission 1 2 PermCheckinWrite"
      "serve_tenants id demo_bcrypt None demo_requests (demo_world team)", OF run]] show ?thesis by simp
qed

theorem owners_never_change_witness:
  "owners 1 (tenant_users (database (store
     (serve_tenants id demo_bcrypt None demo_requests (demo_world team))))) = [demo_owner]"
  unfolding owners_never_change [OF team_start]
  by (simp add: team_def owners_def demo_owner_def demo_member_def)

theorem only_owners_manage_a_tenant_witness:
  "fst (rbac_HasPermission 1 9 PermTeamWrite (serve_tenants id demo_bcrypt None [(1, 9, AskRole 9)] (demo_world team)))
     = Inr True
   \<and> role_of 1 9 (tenant_users (database (store (demo_world team)))) = Some RoleTenantOwner"
proof -
  have run: "fst (rbac_HasPermission 1 9 PermTeamWrite
      (serve_tenants id demo_bcrypt None [(1, 9, AskRole 9)] (demo_world team))) = Inr True"
    by (simp add: process_eval rbac_GetRole_def go_eval team_def demo_owner_def demo_member_def
        demo_roles insert_audit_log_def)
  have "PermTeamWrite \<in> set tenant_management" by (simp add: tenant_management_def)
  from run only_owners_manage_a_tenant [OF team_start this run_pair [of "rbac_HasPermission 1 9 PermTeamWrite"
      "serve_tenants id demo_bcrypt None [(1, 9, AskRole 9)] (demo_world team)", OF run]] show ?thesis by simp
qed

end
