(* ===== verification/Sessions.thy ===== *)
theory Sessions
  imports Accounts
begin

text \<open>
  Authentication: \<open>AuthService\<close>, the refresh tokens of \<open>RefreshTokenService\<close>, the access tokens of
  \<open>JWTService\<close> and the one-time tokens sent by e-mail (\<open>AuthEmailTokenRepository\<close>,
  \<open>EmailVerificationRepository\<close>). Parameters are the lower-casing of the Go library (\<open>lower\<close>),
  bcrypt (\<open>bcrypt\<close> hashes with a salt and a cost, \<open>compare\<close> checks a password against a hash), the
  signing of a token (\<open>sign\<close>, of a secret and its claims) and the mailer (\<open>send\<close>), fields of the
  record \<open>auth_env\<close>; the mailer is configured, as the server does.

  The lemmas show that a session only ever ends: a refresh token that was used, or that was issued
  before a change of the password, is refused for ever after, whatever requests are served in
  between, and a reset link works once.
\<close>

section \<open>Signed tokens\<close>

record claims =
  cl_UserID :: uuid
  cl_Email :: string
  cl_TenantID :: uuid
  cl_Role :: string
  cl_ExpiresAt :: time
  cl_IssuedAt :: time
  cl_NotBefore :: time
  cl_Issuer :: string
  cl_Subject :: string
  cl_ID :: string

record token_pair =
  tp_AccessToken :: string
  tp_RefreshToken :: string
  tp_ExpiresIn :: int

record jwt_service =
  js_accessSecret :: string
  js_refreshSecret :: string
  js_accessTTL :: time
  js_refreshTTL :: time
  js_issuer :: string

record auth_env =
  ae_lower :: "string \<Rightarrow> string"
  ae_bcrypt :: "byte list \<Rightarrow> string \<Rightarrow> int \<Rightarrow> string option"
  ae_compare :: "string \<Rightarrow> string \<Rightarrow> bool"
  ae_sign :: "string \<Rightarrow> claims \<Rightarrow> string option"
  ae_delivers :: "nat \<Rightarrow> string \<Rightarrow> string \<Rightarrow> string \<Rightarrow> bool"
  ae_verifyEmailEnabled :: bool
  ae_publicURL :: string
  ae_jwtService :: jwt_service

definition minutes :: "int \<Rightarrow> time" where
  "minutes n = n * 60 * 10 ^ 9"

definition NewJWTService :: "string \<Rightarrow> string \<Rightarrow> time \<Rightarrow> time \<Rightarrow> jwt_service" where
  "NewJWTService accessSecret refreshSecret accessTTL refreshTTL =
     \<lparr>js_accessSecret = accessSecret, js_refreshSecret = refreshSecret,
      js_accessTTL = (if accessTTL \<le> 0 then minutes 15 else accessTTL),
      js_refreshTTL = (if refreshTTL \<le> 0 then minutes (7 * 24 * 60) else refreshTTL),
      js_issuer = ''guestflow''\<rparr>"

definition sign_claims :: "auth_env \<Rightarrow> string \<Rightarrow> claims \<Rightarrow> ('d, string) go" where
  "sign_claims s secret c = (case ae_sign s secret c of None \<Rightarrow> go_fail ErrOther | Some tok \<Rightarrow> go_ret tok)"

definition access_claims :: "jwt_service \<Rightarrow> time \<Rightarrow> uuid \<Rightarrow> string \<Rightarrow> uuid \<Rightarrow> string \<Rightarrow> claims" where
  "access_claims j t userID email tenantID role =
     \<lparr>cl_UserID = userID, cl_Email = email, cl_TenantID = tenantID, cl_Role = role,
      cl_ExpiresAt = t + js_accessTTL j, cl_IssuedAt = t, cl_NotBefore = t, cl_Issuer = js_issuer j,
      cl_Subject = uuid_String userID, cl_ID = []\<rparr>"

definition GenerateAccessToken :: "auth_env \<Rightarrow> uuid \<Rightarrow> string \<Rightarrow> uuid \<Rightarrow> string \<Rightarrow> ('d, string) go" where
  "GenerateAccessToken s userID email tenantID role =
     (let j = ae_jwtService s in
      go_bind now (\<lambda>t. sign_claims s (js_accessSecret j) (access_claims j t userID email tenantID role)))"

definition generateRefreshToken :: "auth_env \<Rightarrow> uuid \<Rightarrow> string \<Rightarrow> ('d, string) go" where
  "generateRefreshToken s userID email =
     (let j = ae_jwtService s in
      go_bind now (\<lambda>t. go_bind uuid_New (\<lambda>i. sign_claims s (js_refreshSecret j)
        \<lparr>cl_UserID = userID, cl_Email = email, cl_TenantID = uuid_Nil, cl_Role = [],
         cl_ExpiresAt = t + js_refreshTTL j, cl_IssuedAt = t, cl_NotBefore = t, cl_Issuer = js_issuer j,
         cl_Subject = uuid_String userID, cl_ID = uuid_String i\<rparr>)))"

definition GenerateTokenPair :: "auth_env \<Rightarrow> uuid \<Rightarrow> string \<Rightarrow> ('d, token_pair) go" where
  "GenerateTokenPair s userID email =
     go_bind (GenerateAccessToken s userID email uuid_Nil []) (\<lambda>accessToken.
     go_bind (generateRefreshToken s userID email) (\<lambda>refreshToken.
     go_ret \<lparr>tp_AccessToken = accessToken, tp_RefreshToken = refreshToken,
       tp_ExpiresIn = js_accessTTL (ae_jwtService s) div 10 ^ 9\<rparr>))"

section \<open>Refresh tokens\<close>

definition refresh_IsRevoked :: "refresh_token \<Rightarrow> bool" where
  "refresh_IsRevoked t \<longleftrightarrow> rt_RevokedAt t \<noteq> None"

definition refresh_IsValid :: "refresh_token \<Rightarrow> ('d, bool) go" where
  "refresh_IsValid t = go_bind now (\<lambda>tm. go_ret (tm < rt_ExpiresAt t \<and> rt_RevokedAt t = None))"

definition RefreshTokenService_create :: "uuid \<Rightarrow> string \<Rightarrow> (refresh_token \<times> string) app" where
  "RefreshTokenService_create userID deviceInfo =
     go_bind uuid_New (\<lambda>a. go_bind uuid_New (\<lambda>b.
     let rawToken = uuid_String a @ ''/'' @ uuid_String b in
     go_bind now (\<lambda>t. go_bind uuid_New (\<lambda>i. go_bind now (\<lambda>created.
     let token = \<lparr>rt_ID = i, rt_UserID = userID, rt_TokenHash = SHA256Hash rawToken,
           rt_ExpiresAt = t + minutes (7 * 24 * 60), rt_RevokedAt = None, rt_RevokedBy = None,
           rt_DeviceInfo = Some deviceInfo, rt_CreatedAt = created\<rparr> in
     go_bind (exec (insert_refresh_token token)) (\<lambda>_. go_ret (token, rawToken)))))))"

definition RefreshTokenService_Create :: "uuid \<Rightarrow> string \<Rightarrow> (refresh_token \<times> string) app" where
  "RefreshTokenService_Create userID deviceInfo = RefreshTokenService_create userID deviceInfo"

definition RefreshTokenService_Validate :: "string \<Rightarrow> refresh_token app" where
  "RefreshTokenService_Validate tokenString =
     go_bind (get_one ErrInvalidToken (\<lambda>d. find (\<lambda>t. rt_TokenHash t = SHA256Hash tokenString)
       (refresh_tokens d))) (\<lambda>token.
     go_guard (refresh_IsRevoked token) ErrInvalidToken (
     go_bind (refresh_IsValid token) (\<lambda>ok.
     go_guard (\<not> ok) ErrTokenExpired (go_ret token))))"

text \<open>
  An update that writes \<open>revoked_by\<close> is rejected where the user does not exist and a row is hit.
\<close>

definition revoke_where ::
  "(refresh_token \<Rightarrow> bool) \<Rightarrow> time \<Rightarrow> uuid option \<Rightarrow> server \<Rightarrow> db \<Rightarrow> (nat \<times> db) option" where
  "revoke_where p t revokedBy srv d =
     (if list_ex p (refresh_tokens d) \<and> \<not> has_id_opt revokedBy (users d) then None
      else Some (sql_update refresh_tokens put_refresh_tokens p
        (\<lambda>r. r\<lparr>rt_RevokedAt := Some t, rt_RevokedBy := revokedBy\<rparr>) d))"

definition RefreshTokenService_Revoke :: "uuid \<Rightarrow> uuid \<Rightarrow> unit app" where
  "RefreshTokenService_Revoke tokenID revokedBy = go_bind now (\<lambda>t. exec_rows ErrOther
     (revoke_where (\<lambda>r. rt_ID r = tokenID \<and> rt_RevokedAt r = None) t (Some revokedBy)))"

definition RefreshTokenService_RevokeAllUserTokens :: "uuid \<Rightarrow> unit app" where
  "RefreshTokenService_RevokeAllUserTokens userID = go_bind now (\<lambda>t.
     go_bind (exec (revoke_where (\<lambda>r. rt_UserID r = userID \<and> rt_RevokedAt r = None) t (Some userID)))
       (\<lambda>_. go_ret ()))"

definition RefreshTokenService_Rotate :: "string \<Rightarrow> string \<Rightarrow> (refresh_token \<times> string) app" where
  "RefreshTokenService_Rotate oldToken deviceInfo =
     go_bind (RefreshTokenService_Validate oldToken) (\<lambda>storedToken.
     RunInTransaction (go_bind now (\<lambda>t.
       go_bind (exec (revoke_where (\<lambda>r. rt_ID r = rt_ID storedToken \<and> rt_RevokedAt r = None) t
         (Some (rt_UserID storedToken)))) (\<lambda>_.
       RefreshTokenService_create (rt_UserID storedToken) deviceInfo))))"

definition RefreshTokenRepository_Create :: "refresh_token \<Rightarrow> unit app" where
  "RefreshTokenRepository_Create t = go_bind (exec (insert_refresh_token t)) (\<lambda>_. go_ret ())"

definition RefreshTokenRepository_GetByHash :: "string \<Rightarrow> refresh_token app" where
  "RefreshTokenRepository_GetByHash hash =
     get_one ErrOther (\<lambda>d. find (\<lambda>t. rt_TokenHash t = hash) (refresh_tokens d))"

definition RefreshTokenRepository_Revoke :: "uuid \<Rightarrow> uuid \<Rightarrow> unit app" where
  "RefreshTokenRepository_Revoke i revokedBy = go_bind now (\<lambda>t.
     go_bind (exec (revoke_where (\<lambda>r. rt_ID r = i) t (Some revokedBy))) (\<lambda>_. go_ret ()))"

definition RefreshTokenRepository_RevokeAllForUser :: "uuid \<Rightarrow> unit app" where
  "RefreshTokenRepository_RevokeAllForUser userID = go_bind now (\<lambda>t.
     go_bind (exec (revoke_where (\<lambda>r. rt_UserID r = userID \<and> rt_RevokedAt r = None) t None))
       (\<lambda>_. go_ret ()))"

section \<open>One-time tokens\<close>

definition AuthEmailTokenRepository_InvalidateActive :: "uuid \<Rightarrow> string \<Rightarrow> unit app" where
  "AuthEmailTokenRepository_InvalidateActive userID purpose =
     go_bind (exec (\<lambda>srv d. Some (sql_update auth_email_tokens put_auth_email_tokens
       (\<lambda>r. aet_UserID r = userID \<and> aet_Purpose r = purpose \<and> aet_UsedAt r = None)
       (\<lambda>r. r\<lparr>aet_UsedAt := Some (fst srv)\<rparr>) d))) (\<lambda>_. go_ret ())"

definition AuthEmailTokenRepository_Create :: "auth_email_token \<Rightarrow> unit app" where
  "AuthEmailTokenRepository_Create t = go_bind (exec (insert_auth_email_token t)) (\<lambda>_. go_ret ())"

definition AuthEmailTokenRepository_Consume :: "string \<Rightarrow> string \<Rightarrow> time \<Rightarrow> uuid app" where
  "AuthEmailTokenRepository_Consume tokenHash purpose t = RunInTransaction (
     go_bind (get_one ErrInvalidInput (\<lambda>d. find (\<lambda>r. aet_TokenHash r = tokenHash
       \<and> aet_Purpose r = purpose) (auth_email_tokens d))) (\<lambda>token.
     go_guard (aet_UsedAt token \<noteq> None \<or> \<not> t < aet_ExpiresAt token) ErrInvalidInput (
     go_bind (exec (\<lambda>srv d. Some (sql_update auth_email_tokens put_auth_email_tokens
       (\<lambda>r. aet_ID r = aet_ID token) (\<lambda>r. r\<lparr>aet_UsedAt := Some t\<rparr>) d))) (\<lambda>_.
     go_ret (aet_UserID token)))))"

definition EmailVerificationRepository_InvalidateActive :: "uuid \<Rightarrow> unit app" where
  "EmailVerificationRepository_InvalidateActive userID =
     go_bind (exec (\<lambda>srv d. Some (sql_update email_verification_tokens put_email_verification_tokens
       (\<lambda>r. evt_UserID r = userID \<and> evt_UsedAt r = None)
       (\<lambda>r. r\<lparr>evt_UsedAt := Some (fst srv)\<rparr>) d))) (\<lambda>_. go_ret ())"

definition EmailVerificationRepository_Create :: "email_verification_token \<Rightarrow> unit app" where
  "EmailVerificationRepository_Create t = go_bind (exec (insert_verification_token t)) (\<lambda>_. go_ret ())"

definition EmailVerificationRepository_Consume :: "string \<Rightarrow> time \<Rightarrow> uuid app" where
  "EmailVerificationRepository_Consume tokenHash t = RunInTransaction (
     go_bind (get_one ErrInvalidInput (\<lambda>d. find (\<lambda>r. evt_TokenHash r = tokenHash)
       (email_verification_tokens d))) (\<lambda>token.
     go_guard (evt_UsedAt token \<noteq> None \<or> \<not> t < evt_ExpiresAt token) ErrInvalidInput (
     go_bind (exec (\<lambda>srv d. Some (sql_update users put_users
       (\<lambda>u. ID u = evt_UserID token \<and> live u)
       (\<lambda>u. u\<lparr>u_EmailVerifiedAt := Some t, UpdatedAt := fst srv\<rparr>) d))) (\<lambda>_.
     go_bind (exec (\<lambda>srv d. Some (sql_update email_verification_tokens put_email_verification_tokens
       (\<lambda>r. evt_ID r = evt_ID token) (\<lambda>r. r\<lparr>evt_UsedAt := Some t\<rparr>) d))) (\<lambda>_.
     go_ret (evt_UserID token))))))"

definition hashVerificationToken :: "string \<Rightarrow> string" where
  "hashVerificationToken rawToken = hex_EncodeToString (sha256_Sum (bytes_of rawToken))"

definition newAuthEmailToken :: "uuid \<Rightarrow> string \<Rightarrow> time \<Rightarrow> (string \<times> auth_email_token) app" where
  "newAuthEmailToken userID purpose lifetime =
     go_bind (rand_Read 32) (\<lambda>raw.
     let rawToken = hex_EncodeToString raw in
     go_bind now (\<lambda>t. go_bind uuid_New (\<lambda>i.
     go_ret (rawToken, \<lparr>aet_ID = i, aet_UserID = userID, aet_Purpose = purpose,
       aet_TokenHash = hashVerificationToken rawToken, aet_ExpiresAt = t + lifetime,
       aet_UsedAt = None, aet_CreatedAt = t\<rparr>))))"

definition newVerificationToken :: "uuid \<Rightarrow> (string \<times> email_verification_token) app" where
  "newVerificationToken userID =
     go_bind (rand_Read 32) (\<lambda>raw.
     let rawToken = hex_EncodeToString raw in
     go_bind uuid_New (\<lambda>i. go_bind now (\<lambda>t. go_bind now (\<lambda>created.
     go_ret (rawToken, \<lparr>evt_ID = i, evt_UserID = userID,
       evt_TokenHash = hashVerificationToken rawToken, evt_ExpiresAt = t + minutes (24 * 60),
       evt_UsedAt = None, evt_CreatedAt = created\<rparr>)))))"

definition createAuthEmailToken :: "uuid \<Rightarrow> string \<Rightarrow> time \<Rightarrow> string app" where
  "createAuthEmailToken userID purpose lifetime =
     go_bind (newAuthEmailToken userID purpose lifetime) (\<lambda>(rawToken, token).
     go_bind (RunInTransaction (
       go_bind (AuthEmailTokenRepository_InvalidateActive userID purpose) (\<lambda>_.
       AuthEmailTokenRepository_Create token))) (\<lambda>_. go_ret rawToken))"

section \<open>Registration and login\<close>

record register_request =
  rr_Email :: string
  rr_Password :: string
  rr_FullName :: string
  rr_Phone :: string
  rr_TenantName :: string

record login_request =
  lr_Email :: string
  lr_Password :: string

record user_profile_update_request =
  upr_Email :: string
  upr_FullName :: string
  upr_Phone :: string
  upr_Position :: string
  upr_Bio :: string

record change_password_request =
  cpr_CurrentPassword :: string
  cpr_NewPassword :: string

abbreviation newline :: string where "newline \<equiv> [CHR 0x0A]"

text \<open>\<open>strings.Trim\<close> and \<open>strings.TrimRight\<close> with one character; \<open>url.QueryEscape\<close>.\<close>

definition TrimRight :: "char \<Rightarrow> string \<Rightarrow> string" where
  "TrimRight c s = rev (dropWhile (\<lambda>x. x = c) (rev s))"

definition Trim :: "char \<Rightarrow> string \<Rightarrow> string" where
  "Trim c s = TrimRight c (dropWhile (\<lambda>x. x = c) s)"

definition is_alnum :: "char \<Rightarrow> bool" where
  "is_alnum c = (let n = of_char c :: nat in 97 \<le> n \<and> n \<le> 122 \<or> 48 \<le> n \<and> n \<le> 57)"

definition query_byte :: "char \<Rightarrow> string" where
  "query_byte c = (let n = of_char c :: nat in
     if is_alnum c \<or> 65 \<le> n \<and> n \<le> 90 \<or> c \<in> set ''-_.~'' then [c]
     else if c = CHR 0x20 then ''+''
     else CHR 0x25 # [''0123456789ABCDEF'' ! (n div 16), ''0123456789ABCDEF'' ! (n mod 16)])"

definition QueryEscape :: "string \<Rightarrow> string" where
  "QueryEscape s = concat (map query_byte s)"

text \<open>
  The loop of \<open>slugifyRegistrationValue\<close>; a character of several bytes writes one dash, as its first
  byte does.
\<close>

fun slug_loop :: "bool \<Rightarrow> bool \<Rightarrow> string \<Rightarrow> string" where
  "slug_loop started lastDash [] = []"
| "slug_loop started lastDash (c # cs) =
     (if is_alnum c then c # slug_loop True False cs
      else if started \<and> \<not> lastDash then CHR ''-'' # slug_loop started True cs
      else slug_loop started lastDash cs)"

definition slugifyRegistrationValue :: "auth_env \<Rightarrow> string \<Rightarrow> string" where
  "slugifyRegistrationValue s v =
     Trim CHR ''-'' (slug_loop False False (ae_lower s (TrimSpace v)))"

definition newRegistrationTenant :: "auth_env \<Rightarrow> string \<Rightarrow> string \<Rightarrow> uuid \<Rightarrow> ('d, tenant) go" where
  "newRegistrationTenant s tenantName fullName userID =
     (let name = (if tenantName = [] then fullName @ '' Workspace'' else tenantName);
          slugBase = slugifyRegistrationValue s name;
          slugBase = (if slugBase = [] then ''workspace'' else slugBase)
      in NewTenant name (slugBase @ ''-'' @ take 8 (uuid_String userID)))"

text \<open>\<open>mailer.Send\<close>, with the error every caller wraps a failure in.\<close>

definition send_mail :: "auth_env \<Rightarrow> string \<Rightarrow> string \<Rightarrow> string \<Rightarrow> ('d, unit) go" where
  "send_mail s recipient subject body w =
     (if ae_delivers s (pos w) recipient subject body then Inr () else Inl ErrEmailDelivery, tick w)"

definition sendVerificationEmail :: "auth_env \<Rightarrow> string \<Rightarrow> string \<Rightarrow> string \<Rightarrow> unit app" where
  "sendVerificationEmail s recipient fullName rawToken =
     send_mail s recipient ''Verifikasi email GuestFlow'' (''Halo '' @ fullName @ '','' @ newline @ newline
       @ ''Klik tautan berikut untuk memverifikasi email akun GuestFlow Anda:'' @ newline
       @ TrimRight CHR ''/'' (ae_publicURL s) @ ''/verify-email?token='' @ QueryEscape rawToken
       @ newline @ newline @ ''Tautan ini berlaku selama 24 jam dan hanya dapat digunakan sekali.''
       @ newline @ newline @ ''Jika Anda tidak membuat akun GuestFlow, abaikan email ini.'' @ newline)"

text \<open>A session: the pair of tokens with a stored refresh token in it.\<close>

definition open_session :: "auth_env \<Rightarrow> user \<Rightarrow> string \<Rightarrow> token_pair app" where
  "open_session s user deviceInfo =
     go_bind (GenerateTokenPair s (ID user) (u_Email user)) (\<lambda>tokenPair.
     go_bind (RefreshTokenService_Create (ID user) deviceInfo) (\<lambda>(token, raw).
     go_ret (tokenPair\<lparr>tp_RefreshToken := raw\<rparr>)))"

definition register_tx :: "auth_env \<Rightarrow> user \<Rightarrow> tenant \<Rightarrow> email_verification_token option \<Rightarrow>
    token_pair option app" where
  "register_tx s user tenant verification = RunInTransaction (
     go_bind (UserRepository_Create user) (\<lambda>_.
     go_bind (TenantRepository_Create tenant) (\<lambda>_.
     go_bind (NewTenantMembership (ID tenant) (ID user) RoleTenantOwner None) (\<lambda>membership.
     go_bind (TenantUserRepository_Create (membership\<lparr>m_JoinedAt := Some (CreatedAt membership)\<rparr>)) (\<lambda>_.
     case verification of
       Some v \<Rightarrow> go_bind (EmailVerificationRepository_Create v) (\<lambda>_. go_ret None)
     | None \<Rightarrow> go_bind (open_session s user ''default'') (\<lambda>pair. go_ret (Some pair)))))))"

definition AuthService_Register ::
  "auth_env \<Rightarrow> register_request \<Rightarrow> (user \<times> tenant \<times> token_pair option) app" where
  "AuthService_Register s req =
     (let email = ae_lower s (TrimSpace (rr_Email req));
          fullName = TrimSpace (rr_FullName req) in
      go_bind (UserRepository_EmailExists email) (\<lambda>exists.
      go_guard exists ErrEmailExists (
      go_bind (HashPassword (ae_bcrypt s) (rr_Password req)) (\<lambda>passwordHash.
      go_bind NewBase (\<lambda>(i, t).
      let user = \<lparr>ID = i, CreatedAt = t, UpdatedAt = t, DeletedAt = None, u_Email = email,
            u_PasswordHash = passwordHash, u_FullName = fullName, u_Phone = opt_str (rr_Phone req),
            u_Position = None, u_Bio = None, u_AvatarURL = None, u_EmailVerifiedAt = None,
            u_MFAEnabled = False, u_MFASecret = None, u_Status = UserStatusActive\<rparr> in
      go_bind (if ae_verifyEmailEnabled s
          then go_bind (newVerificationToken i) (\<lambda>(raw, v). go_ret (raw, Some v))
          else go_ret ([], None)) (\<lambda>(raw, verification).
      go_bind (newRegistrationTenant s (TrimSpace (rr_TenantName req)) fullName i) (\<lambda>tenant.
      go_bind (register_tx s user tenant verification) (\<lambda>tokenPair.
      go_bind (if ae_verifyEmailEnabled s
          then sendVerificationEmail s email fullName raw else go_ret ()) (\<lambda>_.
      go_ret (user_Sanitize user, tenant, tokenPair))))))))))"

definition AuthService_Login :: "auth_env \<Rightarrow> login_request \<Rightarrow> (user \<times> token_pair) app" where
  "AuthService_Login s req =
     go_try (UserRepository_GetByEmail (lr_Email req)) (\<lambda>r. case r of
       Inl _ \<Rightarrow> go_fail ErrInvalidCredentials
     | Inr user \<Rightarrow>
         go_guard (\<not> user_IsActive user) ErrUserInactive (
         go_guard (\<not> ae_compare s (u_PasswordHash user) (lr_Password req)) ErrInvalidCredentials (
         go_guard (ae_verifyEmailEnabled s \<and> u_EmailVerifiedAt user = None) ErrEmailNotVerified (
         go_bind (open_session s user ''default'') (\<lambda>tokenPair.
         go_ret (user_Sanitize user, tokenPair))))))"

definition AuthService_VerifyEmail :: "auth_env \<Rightarrow> string \<Rightarrow> (user \<times> token_pair) option app" where
  "AuthService_VerifyEmail s rawToken =
     (if \<not> ae_verifyEmailEnabled s then go_ret None else
      go_guard (TrimSpace rawToken = []) ErrAuthTokenInvalid (
      go_bind now (\<lambda>t.
      go_try (EmailVerificationRepository_Consume (hashVerificationToken rawToken) t) (\<lambda>r. case r of
        Inl e \<Rightarrow> go_fail (if e = ErrInvalidInput then ErrAuthTokenInvalid else e)
      | Inr userID \<Rightarrow>
          go_bind (UserRepository_GetByID userID) (\<lambda>user.
          go_guard (\<not> user_IsActive user) ErrUserInactive (
          go_bind (open_session s user ''email-verification'') (\<lambda>tokens.
          go_ret (Some (user_Sanitize user, tokens)))))))))"

definition AuthService_ResendVerification :: "auth_env \<Rightarrow> string \<Rightarrow> unit app" where
  "AuthService_ResendVerification s emailAddress =
     (if \<not> ae_verifyEmailEnabled s then go_ret () else
      go_try (UserRepository_GetByEmail (ae_lower s (TrimSpace emailAddress))) (\<lambda>r. case r of
        Inl _ \<Rightarrow> go_ret ()
      | Inr user \<Rightarrow> if u_EmailVerifiedAt user \<noteq> None then go_ret () else
          go_bind (newVerificationToken (ID user)) (\<lambda>(raw, token).
          go_bind (RunInTransaction (
            go_bind (EmailVerificationRepository_InvalidateActive (ID user)) (\<lambda>_.
            EmailVerificationRepository_Create token))) (\<lambda>_.
          sendVerificationEmail s (u_Email user) (u_FullName user) raw))))"

section \<open>Password reset and magic links\<close>

definition AuthService_ForgotPassword :: "auth_env \<Rightarrow> string \<Rightarrow> unit app" where
  "AuthService_ForgotPassword s emailAddress =
     (if \<not> ae_verifyEmailEnabled s then go_ret () else
      go_try (UserRepository_GetByEmail (ae_lower s (TrimSpace emailAddress))) (\<lambda>r. case r of
        Inl _ \<Rightarrow> go_ret ()
      | Inr user \<Rightarrow> if \<not> user_IsActive user then go_ret () else
          go_bind (createAuthEmailToken (ID user) AuthEmailTokenPasswordReset (minutes 30)) (\<lambda>raw.
          (send_mail s (u_Email user) ''Reset kata sandi GuestFlow'' (''Halo '' @ u_FullName user
            @ '','' @ newline @ newline
            @ ''Gunakan tautan berikut untuk membuat kata sandi baru GuestFlow Anda:'' @ newline
            @ TrimRight CHR ''/'' (ae_publicURL s) @ ''/reset-password?token='' @ QueryEscape raw
            @ newline @ newline @ ''Tautan ini berlaku selama 30 menit dan hanya dapat digunakan sekali.''
            @ newline @ newline @ ''Jika Anda tidak meminta perubahan kata sandi, abaikan email ini.''
            @ newline)))))"

definition AuthService_ResetPassword :: "auth_env \<Rightarrow> string \<Rightarrow> string \<Rightarrow> unit app" where
  "AuthService_ResetPassword s rawToken password =
     go_guard (\<not> ae_verifyEmailEnabled s \<or> TrimSpace rawToken = []) ErrAuthTokenInvalid (
     go_bind (HashPassword (ae_bcrypt s) password) (\<lambda>passwordHash.
     go_bind now (\<lambda>t.
     go_try (AuthEmailTokenRepository_Consume (hashVerificationToken rawToken)
         AuthEmailTokenPasswordReset t) (\<lambda>r. case r of
       Inl _ \<Rightarrow> go_fail ErrAuthTokenInvalid
     | Inr userID \<Rightarrow>
         go_bind (UserRepository_UpdatePassword userID passwordHash) (\<lambda>_.
         RefreshTokenRepository_RevokeAllForUser userID)))))"

definition AuthService_RequestMagicLink :: "auth_env \<Rightarrow> string \<Rightarrow> unit app" where
  "AuthService_RequestMagicLink s emailAddress =
     (if \<not> ae_verifyEmailEnabled s then go_ret () else
      go_try (UserRepository_GetByEmail (ae_lower s (TrimSpace emailAddress))) (\<lambda>r. case r of
        Inl _ \<Rightarrow> go_ret ()
      | Inr user \<Rightarrow> if \<not> user_IsActive user \<or> u_EmailVerifiedAt user = None then go_ret () else
          go_bind (createAuthEmailToken (ID user) AuthEmailTokenMagicLogin (minutes 15)) (\<lambda>raw.
          (send_mail s (u_Email user) ''Link masuk GuestFlow'' (''Halo '' @ u_FullName user
            @ '','' @ newline @ newline
            @ ''Klik tautan berikut untuk masuk ke GuestFlow tanpa kata sandi:'' @ newline
            @ TrimRight CHR ''/'' (ae_publicURL s) @ ''/magic-login?token='' @ QueryEscape raw
            @ newline @ newline @ ''Tautan ini berlaku selama 15 menit dan hanya dapat digunakan sekali.''
            @ newline @ newline @ ''Jika Anda tidak meminta link masuk, abaikan email ini.''
            @ newline)))))"

definition AuthService_ConsumeMagicLink :: "auth_env \<Rightarrow> string \<Rightarrow> (user \<times> token_pair) app" where
  "AuthService_ConsumeMagicLink s rawToken =
     go_guard (\<not> ae_verifyEmailEnabled s \<or> TrimSpace rawToken = []) ErrAuthTokenInvalid (
     go_bind now (\<lambda>t.
     go_try (AuthEmailTokenRepository_Consume (hashVerificationToken rawToken)
         AuthEmailTokenMagicLogin t) (\<lambda>r. case r of
       Inl _ \<Rightarrow> go_fail ErrAuthTokenInvalid
     | Inr userID \<Rightarrow>
         go_bind (UserRepository_GetByID userID) (\<lambda>user.
         go_guard (\<not> user_IsActive user
           \<or> ae_verifyEmailEnabled s \<and> u_EmailVerifiedAt user = None) ErrEmailNotVerified (
         go_bind (open_session s user ''magic-link'') (\<lambda>tokens.
         go_ret (user_Sanitize user, tokens)))))))"

section \<open>Sessions and profile\<close>

definition AuthService_Logout :: "uuid \<Rightarrow> uuid \<Rightarrow> unit app" where
  "AuthService_Logout userID refreshTokenID = RefreshTokenService_Revoke refreshTokenID userID"

definition AuthService_Refresh :: "auth_env \<Rightarrow> string \<Rightarrow> token_pair app" where
  "AuthService_Refresh s refreshToken =
     go_try (RefreshTokenService_Validate refreshToken) (\<lambda>r. case r of
       Inl _ \<Rightarrow> go_fail ErrAuthTokenInvalid
     | Inr storedToken \<Rightarrow>
         go_bind (UserRepository_GetByID (rt_UserID storedToken)) (\<lambda>user.
         go_bind (GenerateAccessToken s (ID user) (u_Email user) uuid_Nil []) (\<lambda>accessToken.
         go_bind (RefreshTokenService_Revoke (rt_ID storedToken) (ID user)) (\<lambda>_.
         go_bind (RefreshTokenService_Create (ID user) ''default'') (\<lambda>(token, newRawToken).
         go_ret \<lparr>tp_AccessToken = accessToken, tp_RefreshToken = newRawToken, tp_ExpiresIn = 900\<rparr>)))))"

definition AuthService_Me :: "uuid \<Rightarrow> user app" where
  "AuthService_Me userID = go_try (UserRepository_GetByID userID) (\<lambda>r. case r of
     Inl _ \<Rightarrow> go_fail ErrUserNotFound | Inr user \<Rightarrow> go_ret (user_Sanitize user))"

definition AuthService_UpdateProfile ::
  "auth_env \<Rightarrow> uuid \<Rightarrow> user_profile_update_request \<Rightarrow> user app" where
  "AuthService_UpdateProfile s userID req =
     go_bind (UserRepository_GetByID userID) (\<lambda>user.
     let email = ae_lower s (TrimSpace (upr_Email req)) in
     go_bind (if email = u_Email user then go_ret False else UserRepository_EmailExists email) (\<lambda>exists.
     go_guard exists ErrEmailExists (
     go_bind now (\<lambda>t.
     let user = user\<lparr>u_Email := email, u_FullName := TrimSpace (upr_FullName req),
           u_Phone := opt_str (TrimSpace (upr_Phone req)),
           u_Position := opt_str (TrimSpace (upr_Position req)),
           u_Bio := opt_str (TrimSpace (upr_Bio req)), UpdatedAt := t\<rparr> in
     go_bind (UserRepository_Update user) (\<lambda>_. go_ret (user_Sanitize user))))))"

definition AuthService_ChangePassword :: "auth_env \<Rightarrow> uuid \<Rightarrow> change_password_request \<Rightarrow> unit app" where
  "AuthService_ChangePassword s userID req =
     go_bind (UserRepository_GetByID userID) (\<lambda>user.
     go_guard (\<not> ae_compare s (u_PasswordHash user) (cpr_CurrentPassword req)) ErrPasswordInvalid (
     go_bind (HashPassword (ae_bcrypt s) (cpr_NewPassword req)) (\<lambda>passwordHash.
     go_bind (UserRepository_UpdatePassword userID passwordHash) (\<lambda>_.
     RefreshTokenService_RevokeAllUserTokens userID))))"

section \<open>Tables that only advance\<close>

text \<open>
  The contract of the three tables of tokens: rows are appended, never removed; an update keeps the
  key of a row, and never opens a shut one again. The client lemma: a row found by its key that
  is shut is found shut for ever.
\<close>

definition advances :: "('d \<Rightarrow> 'r list) \<Rightarrow> ('r \<Rightarrow> 'k) \<Rightarrow> ('r \<Rightarrow> bool) \<Rightarrow> 'd \<Rightarrow> 'd \<Rightarrow> bool" where
  "advances get key shut d d' \<longleftrightarrow> (\<exists>old new. get d' = old @ new
     \<and> list_all2 (\<lambda>r r'. key r' = key r \<and> (shut r \<longrightarrow> shut r')) (get d) old)"

locale ledger = table_lens get put
  for get :: "'d \<Rightarrow> 'r list" and put :: "'r list \<Rightarrow> 'd \<Rightarrow> 'd" +
  fixes key :: "'r \<Rightarrow> 'k" and shut :: "'r \<Rightarrow> bool"
begin

lemma advances_refl: "advances get key shut d d"
  unfolding advances_def by (rule exI [of _ "get d"]) (simp add: list.rel_refl)

lemma advances_trans:
  assumes "advances get key shut a b" and "advances get key shut b c"
  shows "advances get key shut a c"
proof -
  let ?step = "\<lambda>r r'. key r' = key r \<and> (shut r \<longrightarrow> shut r')"
  from assms(1) obtain o1 n1 where b: "get b = o1 @ n1" and l1: "list_all2 ?step (get a) o1"
    unfolding advances_def by blast
  from assms(2) obtain o2 n2 where c: "get c = o2 @ n2" and "list_all2 ?step (get b) o2"
    unfolding advances_def by blast
  then obtain p q where o2: "o2 = p @ q" and l2: "list_all2 ?step o1 p"
    unfolding b by (auto simp: list_all2_append1)
  have "list_all2 ?step (get a) p"
    by (rule list_all2_trans [OF _ l1 l2]) auto
  with c o2 show ?thesis unfolding advances_def by (intro exI [of _ p] exI [of _ "q @ n2"]) simp
qed

sublocale store_preorder "advances get key shut"
  by unfold_locales (rule advances_refl, erule (1) advances_trans)

lemma append_advances: "get d' = get d @ rs \<Longrightarrow> advances get key shut d d'"
  unfolding advances_def by (rule exI [of _ "get d"]) (simp add: list.rel_refl)

lemma same_advances: "get d' = get d \<Longrightarrow> advances get key shut d d'"
  using append_advances [of d' d "[]"] by simp

lemma update_advances:
  assumes "\<And>r. p r \<Longrightarrow> key (f r) = key r \<and> (shut r \<longrightarrow> shut (f r))"
  shows "advances get key shut d (put (update_where p f (get d)) d)"
  unfolding advances_def update_where_def
  by (rule exI [of _ "map (\<lambda>r. if p r then f r else r) (get d)"])
    (simp add: get_put list.rel_map list.rel_refl_strong assms)

lemma find_closed:
  assumes "advances get key shut d d'" and "find (\<lambda>r. P (key r)) (get d) = Some r" and "shut r"
  obtains r' where "find (\<lambda>r. P (key r)) (get d') = Some r'" and "shut r'"
proof -
  let ?step = "\<lambda>r r'. key r' = key r \<and> (shut r \<longrightarrow> shut r')"
  from assms(1) obtain old new where d': "get d' = old @ new" and l: "list_all2 ?step (get d) old"
    unfolding advances_def by blast
  from l assms(2) have "\<exists>r'. find (\<lambda>r. P (key r)) old = Some r' \<and> shut r'"
    by (induction rule: list_all2_induct) (use assms(3) in \<open>auto split: if_splits\<close>)
  then obtain r' where "find (\<lambda>r. P (key r)) old = Some r'" and "shut r'" by blast
  moreover have "find p (xs @ ys) = Some x" if "find p xs = Some x" for p :: "'r \<Rightarrow> bool" and xs ys x
    using that by (induction xs) (auto split: if_splits)
  ultimately show thesis using d' by (intro that) auto
qed

end

abbreviation refresh_key :: "refresh_token \<Rightarrow> uuid \<times> uuid \<times> string" where
  "refresh_key r \<equiv> (rt_ID r, rt_UserID r, rt_TokenHash r)"

abbreviation link_key :: "auth_email_token \<Rightarrow> uuid \<times> uuid \<times> string \<times> string" where
  "link_key r \<equiv> (aet_ID r, aet_UserID r, aet_Purpose r, aet_TokenHash r)"

abbreviation verification_key :: "email_verification_token \<Rightarrow> uuid \<times> uuid \<times> string" where
  "verification_key r \<equiv> (evt_ID r, evt_UserID r, evt_TokenHash r)"

definition link_used :: "auth_email_token \<Rightarrow> bool" where
  "link_used r \<longleftrightarrow> aet_UsedAt r \<noteq> None"

definition verification_used :: "email_verification_token \<Rightarrow> bool" where
  "verification_used r \<longleftrightarrow> evt_UsedAt r \<noteq> None"

interpretation sessions: ledger refresh_tokens put_refresh_tokens refresh_key refresh_IsRevoked
  by unfold_locales

interpretation links: ledger auth_email_tokens put_auth_email_tokens link_key link_used
  by unfold_locales

interpretation verifications: ledger email_verification_tokens put_email_verification_tokens
    verification_key verification_used
  by unfold_locales

definition tokens_advance :: "db \<Rightarrow> db \<Rightarrow> bool" where
  "tokens_advance d d' \<longleftrightarrow> advances refresh_tokens refresh_key refresh_IsRevoked d d'
     \<and> advances auth_email_tokens link_key link_used d d'
     \<and> advances email_verification_tokens verification_key verification_used d d'"

interpretation tokens: store_preorder tokens_advance
proof unfold_locales
  show "tokens_advance d d" for d
    by (simp add: tokens_advance_def sessions.R_refl links.R_refl verifications.R_refl)
  show "tokens_advance a c" if "tokens_advance a b" and "tokens_advance b c" for a b c
    using that sessions.R_trans [of a b c] links.R_trans [of a b c] verifications.R_trans [of a b c]
    by (simp add: tokens_advance_def)
qed

lemma tokens_same:
  "refresh_tokens d' = refresh_tokens d \<Longrightarrow> auth_email_tokens d' = auth_email_tokens d \<Longrightarrow>
   email_verification_tokens d' = email_verification_tokens d \<Longrightarrow> tokens_advance d d'"
  by (simp add: tokens_advance_def sessions.same_advances links.same_advances verifications.same_advances)

lemma revoke_where_advances: "revoke_where p t by srv d = Some (n, d') \<Longrightarrow> tokens_advance d d'"
  by (auto simp: revoke_where_def sql_update_def tokens_advance_def refresh_IsRevoked_def
      intro!: sessions.update_advances links.same_advances verifications.same_advances split: if_splits)

lemma token_inserts_advance:
  "insert_refresh_token r srv d = Some (n, d') \<Longrightarrow> tokens_advance d d'"
  "insert_auth_email_token l srv d = Some (n, d') \<Longrightarrow> tokens_advance d d'"
  "insert_verification_token v srv d = Some (n, d') \<Longrightarrow> tokens_advance d d'"
  by (auto simp: insert_refresh_token_def insert_auth_email_token_def insert_verification_token_def
      tokens_advance_def split: if_splits
      intro: sessions.append_advances links.append_advances verifications.append_advances
        sessions.same_advances links.same_advances verifications.same_advances)

lemma link_update_advances:
  assumes "\<And>r. link_key (f r) = link_key r \<and> aet_UsedAt (f r) \<noteq> None"
  shows "tokens_advance d (put_auth_email_tokens (update_where p f (auth_email_tokens d)) d)"
  unfolding tokens_advance_def
  by (intro conjI sessions.same_advances verifications.same_advances links.update_advances) (use assms in \<open>simp_all add: link_used_def\<close>)

lemma verification_update_advances:
  assumes "\<And>r. verification_key (f r) = verification_key r \<and> evt_UsedAt (f r) \<noteq> None"
  shows "tokens_advance d
    (put_email_verification_tokens (update_where p f (email_verification_tokens d)) d)"
  unfolding tokens_advance_def
  by (intro conjI sessions.same_advances links.same_advances verifications.update_advances) (use assms in \<open>simp_all add: verification_used_def\<close>)

section \<open>Every request of the service advances the tables\<close>

abbreviation advancing :: "'a app \<Rightarrow> bool" where
  "advancing m \<equiv> stays tokens_advance m"

lemma pure_advancing: "stays (=) m \<Longrightarrow> advancing m"
  by (erule stays_mono) (simp add: tokens.R_refl)

lemma sign_claims_pure: "stays (=) (sign_claims s k c)"
  unfolding sign_claims_def by (auto intro!: unchanged.all_stays split: option.split)

lemma GenerateAccessToken_pure: "stays (=) (GenerateAccessToken s u e t r)"
  unfolding GenerateAccessToken_def Let_def by (auto intro!: unchanged.all_stays sign_claims_pure)

lemma GenerateTokenPair_pure: "stays (=) (GenerateTokenPair s u e)"
  unfolding GenerateTokenPair_def generateRefreshToken_def Let_def
  by (auto intro!: unchanged.all_stays sign_claims_pure GenerateAccessToken_pure)

lemma refresh_create_advancing: "advancing (RefreshTokenService_Create u dev)"
  unfolding RefreshTokenService_Create_def RefreshTokenService_create_def Let_def
  by (auto intro!: tokens.all_stays token_inserts_advance(1))

lemma open_session_advancing: "advancing (open_session s u dev)"
  unfolding open_session_def
  by (auto intro!: tokens.all_stays pure_advancing [OF GenerateTokenPair_pure] refresh_create_advancing)

lemma Validate_pure: "stays (=) (RefreshTokenService_Validate tok)"
  unfolding RefreshTokenService_Validate_def refresh_IsValid_def by (auto intro!: unchanged.all_stays)

lemma revokes_advancing:
  "advancing (RefreshTokenService_Revoke i u)" "advancing (RefreshTokenService_RevokeAllUserTokens u)"
  "advancing (RefreshTokenRepository_RevokeAllForUser u)"
  unfolding RefreshTokenService_Revoke_def RefreshTokenService_RevokeAllUserTokens_def
    RefreshTokenRepository_RevokeAllForUser_def
  by (auto intro!: tokens.all_stays revoke_where_advances)

lemma user_reads_pure:
  "stays (=) (UserRepository_GetByID i)" "stays (=) (UserRepository_GetByEmail e)"
  "stays (=) (UserRepository_EmailExists e)"
  unfolding UserRepository_GetByID_def UserRepository_GetByEmail_def UserRepository_EmailExists_def
  by (auto intro!: unchanged.all_stays)

lemma account_writes_advancing:
  "advancing (UserRepository_Create u)" "advancing (UserRepository_Update u)"
  "advancing (UserRepository_UpdatePassword i h)" "advancing (TenantRepository_Create tn)"
  "advancing (TenantUserRepository_Create m)"
  unfolding UserRepository_Create_def UserRepository_Update_def UserRepository_UpdatePassword_def
    TenantRepository_Create_def TenantUserRepository_Create_def Let_def
  by (auto intro!: tokens.all_stays tokens_same simp: insert_user_def insert_tenant_def
      insert_membership_def sql_update_def Let_def split: if_splits)

lemma HashPassword_pure: "stays (=) (HashPassword b p)"
  unfolding HashPassword_def by (auto intro!: unchanged.all_stays split: option.split)

lemma Consume_advancing:
  "advancing (AuthEmailTokenRepository_Consume h pu t)" "advancing (EmailVerificationRepository_Consume h t)"
  unfolding AuthEmailTokenRepository_Consume_def EmailVerificationRepository_Consume_def sql_update_def
  by (auto intro!: tokens.all_stays link_update_advances verification_update_advances tokens_same)

lemma send_mail_pure: "stays (=) (send_mail s a b c)"
  by (simp add: stays_def send_mail_def)

lemmas auth_pure = user_reads_pure HashPassword_pure send_mail_pure GenerateAccessToken_pure Validate_pure

lemmas auth_stays = tokens.all_stays auth_pure [THEN pure_advancing] account_writes_advancing
  open_session_advancing revokes_advancing refresh_create_advancing Consume_advancing

lemma create_link_advancing:
  "advancing (createAuthEmailToken u pu life)" "advancing (RunInTransaction (
     go_bind (EmailVerificationRepository_InvalidateActive u) (\<lambda>_. EmailVerificationRepository_Create v)))"
  unfolding createAuthEmailToken_def newAuthEmailToken_def AuthEmailTokenRepository_InvalidateActive_def
    AuthEmailTokenRepository_Create_def EmailVerificationRepository_InvalidateActive_def
    EmailVerificationRepository_Create_def sql_update_def Let_def
  by (auto intro!: tokens.all_stays link_update_advances verification_update_advances
      intro: token_inserts_advance)

lemma new_records_pure:
  "stays (=) (newVerificationToken u)" "stays (=) (NewTenantMembership t u role i)"
  "stays (=) (newRegistrationTenant s n f u)" "stays (=) (NewBase :: (_, _) go)"
  unfolding newVerificationToken_def newRegistrationTenant_def NewTenant_def NewTenantMembership_def Let_def
  by (auto intro!: unchanged.all_stays unchanged.NewBase_stays)

lemma register_tx_advancing: "advancing (register_tx s u t v)"
  unfolding register_tx_def EmailVerificationRepository_Create_def
  by (auto intro!: auth_stays new_records_pure [THEN pure_advancing] intro: token_inserts_advance
      split: option.split)

lemmas request_stays = auth_stays register_tx_advancing create_link_advancing
  new_records_pure [THEN pure_advancing]

lemma sendVerificationEmail_pure: "stays (=) (sendVerificationEmail s a b c)"
  unfolding sendVerificationEmail_def by (rule send_mail_pure)

lemma auth_requests_advancing:
  "advancing (AuthService_Register s rq)" "advancing (AuthService_Login s lq)"
  "advancing (AuthService_VerifyEmail s tok)" "advancing (AuthService_ResendVerification s em)"
  "advancing (AuthService_ForgotPassword s em)" "advancing (AuthService_ResetPassword s tok pw)"
  "advancing (AuthService_RequestMagicLink s em)" "advancing (AuthService_ConsumeMagicLink s tok)"
  "advancing (AuthService_Logout u i)" "advancing (AuthService_Refresh s tok)" "advancing (AuthService_Me u)"
  "advancing (AuthService_UpdateProfile s u pq)" "advancing (AuthService_ChangePassword s u cq)"
  unfolding AuthService_Register_def AuthService_Login_def AuthService_VerifyEmail_def
    AuthService_ResendVerification_def AuthService_ForgotPassword_def AuthService_ResetPassword_def
    AuthService_RequestMagicLink_def AuthService_ConsumeMagicLink_def AuthService_Logout_def
    AuthService_Refresh_def AuthService_Me_def AuthService_UpdateProfile_def AuthService_ChangePassword_def Let_def
  by (auto intro!: request_stays sendVerificationEmail_pure [THEN pure_advancing] split: sum.split)

text \<open>The requests of the service, and a sequence of them.\<close>

datatype auth_call =
    Register register_request
  | Login login_request
  | VerifyEmail string
  | ResendVerification string
  | ForgotPassword string
  | ResetPassword string string
  | RequestMagicLink string
  | ConsumeMagicLink string
  | Logout uuid uuid
  | Refresh string
  | Me uuid
  | UpdateProfile uuid user_profile_update_request
  | ChangePassword uuid change_password_request

definition serve_auth :: "auth_env \<Rightarrow> auth_call \<Rightarrow> unit app" where
  "serve_auth s c = (case c of
      Register req \<Rightarrow> discard (AuthService_Register s req)
    | Login req \<Rightarrow> discard (AuthService_Login s req)
    | VerifyEmail tok \<Rightarrow> discard (AuthService_VerifyEmail s tok)
    | ResendVerification em \<Rightarrow> AuthService_ResendVerification s em
    | ForgotPassword em \<Rightarrow> AuthService_ForgotPassword s em
    | ResetPassword tok pw \<Rightarrow> AuthService_ResetPassword s tok pw
    | RequestMagicLink em \<Rightarrow> AuthService_RequestMagicLink s em
    | ConsumeMagicLink tok \<Rightarrow> discard (AuthService_ConsumeMagicLink s tok)
    | Logout u i \<Rightarrow> AuthService_Logout u i
    | Refresh tok \<Rightarrow> discard (AuthService_Refresh s tok)
    | Me u \<Rightarrow> discard (AuthService_Me u)
    | UpdateProfile u req \<Rightarrow> discard (AuthService_UpdateProfile s u req)
    | ChangePassword u req \<Rightarrow> AuthService_ChangePassword s u req)"

definition serve_auths :: "auth_env \<Rightarrow> auth_call list \<Rightarrow> db world \<Rightarrow> db world" where
  "serve_auths s calls = serve_all (map (serve_auth s) calls)"

lemma serve_auth_advancing: "advancing (serve_auth s c)"
  unfolding serve_auth_def discard_def
  by (cases c) (auto intro!: tokens.bind_stays tokens.ret_stays auth_requests_advancing)

lemma serve_auths_advance: "tokens_advance (store w) (store (serve_auths s calls w))"
  unfolding serve_auths_def
  by (rule serve_all_keeps [where I = "tokens_advance (store w)"])
    (use serve_auth_advancing in \<open>auto simp: stays_def tokens.R_refl intro: tokens.R_trans\<close>)

lemmas sessions_advance = serve_auths_advance [unfolded tokens_advance_def, THEN conjunct1]
  and links_advance = serve_auths_advance [unfolded tokens_advance_def, THEN conjunct2, THEN conjunct1]
  and verifications_advance =
    serve_auths_advance [unfolded tokens_advance_def, THEN conjunct2, THEN conjunct2]

section \<open>A revoked token is refused for ever\<close>

abbreviation session_of :: "string \<Rightarrow> db \<Rightarrow> refresh_token option" where
  "session_of tok d \<equiv> find (\<lambda>r. rt_TokenHash r = SHA256Hash tok) (refresh_tokens d)"

lemma revoked_session_stays:
  assumes "session_of tok (store w) = Some r" and "refresh_IsRevoked r"
  obtains r' where "session_of tok (store (serve_auths s calls w)) = Some r'" and "refresh_IsRevoked r'"
  by (rule sessions.find_closed [OF sessions_advance, where P = "\<lambda>(_, _, h). h = SHA256Hash tok"])
    (use assms that in auto)

lemma Validate_revoked:
  assumes "session_of tok (store w) = Some r" and "refresh_IsRevoked r"
  shows "\<exists>e. fst (RefreshTokenService_Validate tok w) = Inl e"
  using assms unfolding RefreshTokenService_Validate_def
  by (simp add: go_bind_run get_one_def query_def go_guard_def)

lemma revoked_session_is_refused:
  assumes "session_of tok (store w) = Some r" and "refresh_IsRevoked r"
  shows "fst (AuthService_Refresh s tok (serve_auths s' calls w)) = Inl ErrAuthTokenInvalid"
proof -
  obtain r' where "session_of tok (store (serve_auths s' calls w)) = Some r'" and "refresh_IsRevoked r'"
    by (rule revoked_session_stays [OF assms])
  from Validate_revoked [OF this] show ?thesis
    unfolding AuthService_Refresh_def by (auto simp: go_try_run)
qed

text \<open>What an update that revokes does to the row a token finds.\<close>

lemma find_update_where:
  assumes "\<And>r. p r \<Longrightarrow> q (f r) = q r" and "find q rs = Some r"
  shows "find q (update_where p f rs) = Some (if p r then f r else r)"
  using assms(2) by (induction rs) (auto simp: assms(1) split: if_splits)

lemma revoke_where_shuts:
  assumes "revoke_where p t b srv d = Some (n, d')" and "session_of tok d = Some r"
    and "p r \<or> refresh_IsRevoked r"
  obtains r' where "session_of tok d' = Some r'" and "refresh_IsRevoked r'"
  using assms(1,3) find_update_where [of p "\<lambda>r. rt_TokenHash r = SHA256Hash tok"
      "\<lambda>r. r\<lparr>rt_RevokedAt := Some t, rt_RevokedBy := b\<rparr>", OF _ assms(2)]
  by (auto simp: revoke_where_def sql_update_def refresh_IsRevoked_def split: if_splits)

lemma Create_advances:
  assumes "RefreshTokenService_Create u dev w = (x, w')"
  shows "advances refresh_tokens refresh_key refresh_IsRevoked (store w) (store w')"
  using staysD [OF refresh_create_advancing assms] by (simp add: tokens_advance_def)

lemma Refresh_revokes:
  assumes run: "AuthService_Refresh s tok w = (Inr pair, w')"
  obtains r where "session_of tok (store w') = Some r" and "refresh_IsRevoked r"
proof -
  from run obtain old v u v2 a v3 v4 tr where
    val: "RefreshTokenService_Validate tok w = (Inr old, v)"
    and get: "UserRepository_GetByID (rt_UserID old) v = (Inr u, v2)"
    and acc: "GenerateAccessToken s (ID u) (u_Email u) uuid_Nil [] v2 = (Inr a, v3)"
    and rev: "RefreshTokenService_Revoke (rt_ID old) (ID u) v3 = (Inr (), v4)"
    and new: "RefreshTokenService_Create (ID u) ''default'' v4 = (Inr tr, w')"
    unfolding AuthService_Refresh_def
    by (auto elim!: go_elim_Inr split: sum.splits)
  have v3: "store v3 = store w"
    using staysD [OF Validate_pure val] staysD [OF user_reads_pure(1) get]
      staysD [OF GenerateAccessToken_pure acc] by simp
  have old: "session_of tok (store w) = Some old" "rt_RevokedAt old = None"
    using val by (auto simp: RefreshTokenService_Validate_def refresh_IsRevoked_def go_run split: if_splits)
  obtain t n d where "revoke_where (\<lambda>r. rt_ID r = rt_ID old \<and> rt_RevokedAt r = None) t (Some (ID u))
      (clock (tick v3) (pos (tick v3)), fresh (tick v3) (pos (tick v3))) (store w) = Some (n, d)"
    and v4: "store v4 = d"
    using rev v3 by (auto simp: RefreshTokenService_Revoke_def go_run)
  from revoke_where_shuts [OF this(1) old(1)] old(2) obtain r where
    r: "session_of tok (store v4) = Some r" "refresh_IsRevoked r" using v4 by auto
  show thesis
    by (rule sessions.find_closed [OF Create_advances [OF new], where P = "\<lambda>(_, _, h). h = SHA256Hash tok"])
      (use r that in auto)
qed

section \<open>Changing and resetting a password\<close>

lemma revoke_all_shuts:
  assumes "revoke_where (\<lambda>r. rt_UserID r = u \<and> rt_RevokedAt r = None) t b srv d = Some (n, d')"
    and "session_of tok d = Some r" and "rt_UserID r = u"
  obtains r' where "session_of tok d' = Some r'" and "refresh_IsRevoked r'"
  by (rule revoke_where_shuts [OF assms(1,2)]) (use assms(3) that in \<open>auto simp: refresh_IsRevoked_def\<close>)

lemma RevokeAll_shuts:
  assumes "RefreshTokenService_RevokeAllUserTokens u w = (Inr x, w')
      \<or> RefreshTokenRepository_RevokeAllForUser u w = (Inr x, w')"
    and "session_of tok (store w) = Some r" and "rt_UserID r = u"
  obtains r' where "session_of tok (store w') = Some r'" and "refresh_IsRevoked r'"
  using assms(1) unfolding RefreshTokenService_RevokeAllUserTokens_def RefreshTokenRepository_RevokeAllForUser_def
  by (auto simp: go_run elim!: revoke_all_shuts [OF _ assms(2,3)] intro: that)

lemma UpdatePassword_same:
  "stays (\<lambda>d d'. refresh_tokens d' = refresh_tokens d) (UserRepository_UpdatePassword i h)"
  "stays (\<lambda>d d'. auth_email_tokens d' = auth_email_tokens d) (UserRepository_UpdatePassword i h)"
  unfolding UserRepository_UpdatePassword_def sql_update_def
  by (auto intro!: same.all_stays)

lemma ChangePassword_shuts:
  assumes "AuthService_ChangePassword s u req w = (Inr x, w')"
    and "session_of tok (store w) = Some r" and "rt_UserID r = u"
  obtains r' where "session_of tok (store w') = Some r'" and "refresh_IsRevoked r'"
proof -
  from assms(1) obtain user v h v2 v3 where
    get: "UserRepository_GetByID u w = (Inr user, v)"
    and hash: "HashPassword (ae_bcrypt s) (cpr_NewPassword req) v = (Inr h, v2)"
    and upd: "UserRepository_UpdatePassword u h v2 = (Inr (), v3)"
    and rev: "RefreshTokenService_RevokeAllUserTokens u v3 = (Inr x, w')"
    unfolding AuthService_ChangePassword_def by (elim go_elim_Inr) (metis old.unit.exhaust)
  have "refresh_tokens (store v3) = refresh_tokens (store w)"
    using staysD [OF user_reads_pure(1) get] staysD [OF HashPassword_pure hash]
      staysD [OF UpdatePassword_same(1) upd] by simp
  with RevokeAll_shuts [of u v3 x w' tok r] rev assms(2,3) that show thesis by auto
qed

abbreviation link_of :: "string \<Rightarrow> string \<Rightarrow> db \<Rightarrow> auth_email_token option" where
  "link_of purpose tok d \<equiv> find (\<lambda>r. aet_TokenHash r = hashVerificationToken tok \<and> aet_Purpose r = purpose)
     (auth_email_tokens d)"

lemma Consume_uses:
  assumes "AuthEmailTokenRepository_Consume (hashVerificationToken tok) purpose t w = (Inr u, w')"
  obtains l l' where "link_of purpose tok (store w) = Some l" and "u = aet_UserID l"
    and "aet_UsedAt l = None" and "t < aet_ExpiresAt l"
    and "link_of purpose tok (store w') = Some l'" and "link_used l'"
    and "refresh_tokens (store w') = refresh_tokens (store w)"
proof -
  from assms obtain l where l: "link_of purpose tok (store w) = Some l" "u = aet_UserID l"
      "aet_UsedAt l = None" "t < aet_ExpiresAt l"
    and d: "store w' = put_auth_email_tokens (update_where (\<lambda>r. aet_ID r = aet_ID l)
      (\<lambda>r. r\<lparr>aet_UsedAt := Some t\<rparr>) (auth_email_tokens (store w))) (store w)"
    unfolding AuthEmailTokenRepository_Consume_def sql_update_def
    by (auto simp: go_run split: if_splits)
  have "link_of purpose tok (store w') = Some (l\<lparr>aet_UsedAt := Some t\<rparr>)"
    using find_update_where [OF _ l(1), of "\<lambda>r. aet_ID r = aet_ID l" "\<lambda>r. r\<lparr>aet_UsedAt := Some t\<rparr>"]
    by (simp add: d)
  with l d show thesis by (intro that) (auto simp: link_used_def)
qed

lemma ResetPassword_uses:
  assumes "AuthService_ResetPassword s tok pw w = (Inr x, w')"
  obtains l l' where "link_of AuthEmailTokenPasswordReset tok (store w) = Some l"
    and "link_of AuthEmailTokenPasswordReset tok (store w') = Some l'" and "link_used l'"
    and "\<And>rtok r. session_of rtok (store w) = Some r \<Longrightarrow> rt_UserID r = aet_UserID l \<Longrightarrow>
      \<exists>r'. session_of rtok (store w') = Some r' \<and> refresh_IsRevoked r'"
proof -
  from assms obtain h v u v2 v3 where
    hash: "HashPassword (ae_bcrypt s) pw w = (Inr h, v)"
    and con: "AuthEmailTokenRepository_Consume (hashVerificationToken tok) AuthEmailTokenPasswordReset
      (clock v (pos v)) (tick v) = (Inr u, v2)"
    and upd: "UserRepository_UpdatePassword u h v2 = (Inr (), v3)"
    and rev: "RefreshTokenRepository_RevokeAllForUser u v3 = (Inr x, w')"
    unfolding AuthService_ResetPassword_def
    by (elim go_elim_Inr) (force elim!: go_elim_Inr simp: now_eq split: sum.splits)
  have v: "store v = store w" using staysD [OF HashPassword_pure hash] by simp
  from con v obtain l l' where l: "link_of AuthEmailTokenPasswordReset tok (store w) = Some l" "u = aet_UserID l"
      and l': "link_of AuthEmailTokenPasswordReset tok (store v2) = Some l'" "link_used l'"
      and r2: "refresh_tokens (store v2) = refresh_tokens (store w)"
    by (auto elim: Consume_uses)
  have v3: "refresh_tokens (store v3) = refresh_tokens (store w)"
    "auth_email_tokens (store v3) = auth_email_tokens (store v2)"
    using staysD [OF UpdatePassword_same(1) upd] staysD [OF UpdatePassword_same(2) upd] r2 by simp_all
  have adv: "advances auth_email_tokens link_key link_used (store v3) (store w')"
    using staysD [OF revokes_advancing(3) rev] by (simp add: tokens_advance_def)
  obtain k where k: "link_of AuthEmailTokenPasswordReset tok (store w') = Some k" "link_used k"
    by (rule links.find_closed [OF adv, where P = "\<lambda>(_, _, pu, h). h = hashVerificationToken tok
          \<and> pu = AuthEmailTokenPasswordReset" and r = l']) (use l' v3(2) in auto)
  show thesis
  proof (rule that [OF l(1) k])
    fix rtok r
    assume "session_of rtok (store w) = Some r" and "rt_UserID r = aet_UserID l"
    with v3(1) l(2) rev show "\<exists>r'. session_of rtok (store w') = Some r' \<and> refresh_IsRevoked r'"
      using RevokeAll_shuts [of u v3 x w' rtok r] by metis
  qed
qed

lemma used_link_stays:
  assumes "link_of purpose tok (store w) = Some l" and "link_used l"
  obtains l' where "link_of purpose tok (store (serve_auths s calls w)) = Some l'" and "link_used l'"
  by (rule links.find_closed [OF links_advance, where P = "\<lambda>(_, _, pu, h). h = hashVerificationToken tok
        \<and> pu = purpose"]) (use assms that in auto)

lemma Consume_used:
  assumes "link_of purpose tok (store w) = Some l" and "link_used l"
  shows "fst (AuthEmailTokenRepository_Consume (hashVerificationToken tok) purpose t w) \<noteq> Inr u"
  using assms by (auto dest!: run_pair elim!: Consume_uses simp: link_used_def)

section \<open>Opening a session\<close>

definition new_session :: "uuid \<Rightarrow> uuid \<Rightarrow> string \<Rightarrow> string \<Rightarrow> time \<Rightarrow> time \<Rightarrow> refresh_token" where
  "new_session i u raw dev t created = \<lparr>rt_ID = i, rt_UserID = u, rt_TokenHash = SHA256Hash raw,
     rt_ExpiresAt = t + minutes (7 * 24 * 60), rt_RevokedAt = None, rt_RevokedBy = None,
     rt_DeviceInfo = Some dev, rt_CreatedAt = created\<rparr>"

text \<open>The raw token \<open>create\<close> draws at a position, and the run of \<open>create\<close> from there.\<close>

definition raw_token :: "db world \<Rightarrow> string" where
  "raw_token w = uuid_String (fresh w (pos w)) @ ''/'' @ uuid_String (fresh w (Suc (pos w)))"

definition created_row :: "uuid \<Rightarrow> string \<Rightarrow> db world \<Rightarrow> refresh_token" where
  "created_row u dev w = new_session (fresh w (pos w + 3)) u (raw_token w) dev
     (clock w (pos w + 2)) (clock w (pos w + 4))"

lemma Create_run:
  "RefreshTokenService_Create u dev w =
     (if faults w (pos w + 5) \<or> (\<exists>r \<in> set (refresh_tokens (store w)). rt_ID r = fresh w (pos w + 3))
         \<or> \<not> has_id u (users (store w))
      then (Inl ErrDB, w\<lparr>pos := pos w + 6\<rparr>)
      else (Inr (created_row u dev w, raw_token w), w\<lparr>pos := pos w + 6, store :=
        put_refresh_tokens (refresh_tokens (store w) @ [created_row u dev w]) (store w)\<rparr>))"
  by (auto simp: RefreshTokenService_Create_def RefreshTokenService_create_def created_row_def raw_token_def
      new_session_def go_bind_run uuid_New_def now_def exec_def insert_refresh_token_def has_id_opt_def
      Let_def tick_def numeral_eq_Suc list_ex_iff)

lemma open_session_Inr:
  assumes "open_session s u dev w = (Inr pair, w')"
  obtains a where "ae_sign s (js_accessSecret (ae_jwtService s))
      (access_claims (ae_jwtService s) (clock w (pos w)) (ID u) (u_Email u) uuid_Nil []) = Some a"
    and "pair = \<lparr>tp_AccessToken = a, tp_RefreshToken = raw_token (w\<lparr>pos := pos w + 3\<rparr>),
      tp_ExpiresIn = js_accessTTL (ae_jwtService s) div 10 ^ 9\<rparr>"
    and "w' = w\<lparr>pos := pos w + 9, store := put_refresh_tokens (refresh_tokens (store w)
      @ [created_row (ID u) dev (w\<lparr>pos := pos w + 3\<rparr>)]) (store w)\<rparr>"
  using assms unfolding open_session_def GenerateTokenPair_def GenerateAccessToken_def
    generateRefreshToken_def sign_claims_def Let_def
  by (auto simp: go_bind_run now_def uuid_New_def tick_def Create_run numeral_eq_Suc split: option.splits if_splits)

lemma select_user_Some:
  assumes "select_user p d = Some u"
  obtains row where "row \<in> set (users d)" and "p row" and "live row" and "u = row\<lparr>u_MFASecret := None\<rparr>"
  using assms by (auto simp: select_user_def dest: find_Some_D)

lemma Login_Inr:
  assumes "AuthService_Login s req w = (Inr (u, pair), w')"
  obtains row a where "row \<in> set (users (store w))" and "u_Email row = lr_Email req" and "user_IsActive row"
    and "ae_compare s (u_PasswordHash row) (lr_Password req)"
    and "ae_verifyEmailEnabled s \<longrightarrow> u_EmailVerifiedAt row \<noteq> None" and "u = user_Sanitize row"
    and "ae_sign s (js_accessSecret (ae_jwtService s)) (access_claims (ae_jwtService s)
      (clock w (Suc (pos w))) (ID row) (u_Email row) uuid_Nil []) = Some a"
    and "pair = \<lparr>tp_AccessToken = a, tp_RefreshToken = raw_token (w\<lparr>pos := pos w + 4\<rparr>),
      tp_ExpiresIn = js_accessTTL (ae_jwtService s) div 10 ^ 9\<rparr>"
    and "w' = w\<lparr>pos := pos w + 10, store := put_refresh_tokens (refresh_tokens (store w)
      @ [created_row (ID row) ''default'' (w\<lparr>pos := pos w + 4\<rparr>)]) (store w)\<rparr>"
proof -
  from assms obtain found where sel: "select_user (\<lambda>u. u_Email u = lr_Email req) (store w) = Some found"
    and ok: "user_IsActive found" "ae_compare s (u_PasswordHash found) (lr_Password req)"
      "\<not> (ae_verifyEmailEnabled s \<and> u_EmailVerifiedAt found = None)" "u = user_Sanitize found"
    and open': "open_session s found ''default'' (tick w) = (Inr pair, w')"
    unfolding AuthService_Login_def UserRepository_GetByEmail_def
    by (elim go_try_elim) (force simp: go_guard_eq go_bind_Inr get_one_Inr split: sum.splits if_splits)
  from sel obtain row where row: "row \<in> set (users (store w))" "u_Email row = lr_Email req"
    "found = row\<lparr>u_MFASecret := None\<rparr>" by (rule select_user_Some) auto
  from open' obtain a where "ae_sign s (js_accessSecret (ae_jwtService s)) (access_claims (ae_jwtService s)
      (clock w (Suc (pos w))) (ID row) (u_Email row) uuid_Nil []) = Some a"
    and "pair = \<lparr>tp_AccessToken = a, tp_RefreshToken = raw_token (w\<lparr>pos := pos w + 4\<rparr>),
      tp_ExpiresIn = js_accessTTL (ae_jwtService s) div 10 ^ 9\<rparr>"
    and "w' = w\<lparr>pos := pos w + 10, store := put_refresh_tokens (refresh_tokens (store w)
      @ [created_row (ID row) ''default'' (w\<lparr>pos := pos w + 4\<rparr>)]) (store w)\<rparr>"
    by (rule open_session_Inr) (simp add: row(3) tick_def add.commute)
  with row ok show thesis
    by (intro that [of row a]) (simp_all add: user_IsActive_def user_Sanitize_def)
qed

text \<open>A refresh succeeds on a row that is open, of a user that exists, when nothing fails: it shuts the row
  and appends one for the token it draws.\<close>

lemma Refresh_run:
  assumes "session_of tok (store w) = Some r" and "rt_RevokedAt r = None"
    and "clock w (pos w + 1) < rt_ExpiresAt r"
    and "select_user (\<lambda>u. ID u = rt_UserID r) (store w) = Some u"
    and "ae_sign s (js_accessSecret (ae_jwtService s)) (access_claims (ae_jwtService s)
      (clock w (pos w + 3)) (ID u) (u_Email u) uuid_Nil []) = Some a"
    and "\<And>n. \<not> faults w n" and "\<And>x. x \<in> set (refresh_tokens (store w)) \<Longrightarrow> rt_ID x \<noteq> fresh w (pos w + 9)"
  shows "AuthService_Refresh s tok w = (Inr \<lparr>tp_AccessToken = a,
      tp_RefreshToken = raw_token (w\<lparr>pos := pos w + 6\<rparr>), tp_ExpiresIn = 900\<rparr>,
    w\<lparr>pos := pos w + 12, store := put_refresh_tokens (
      update_where (\<lambda>x. rt_ID x = rt_ID r \<and> rt_RevokedAt x = None)
        (\<lambda>x. x\<lparr>rt_RevokedAt := Some (clock w (pos w + 4)), rt_RevokedBy := Some (ID u)\<rparr>) (refresh_tokens (store w))
      @ [created_row (ID u) ''default'' (w\<lparr>pos := pos w + 6\<rparr>)]) (store w)\<rparr>)"
proof -
  let ?p = "\<lambda>x. rt_ID x = rt_ID r \<and> rt_RevokedAt x = None"
  have row: "r \<in> set (refresh_tokens (store w))" using assms(1) find_Some_D by fastforce
  then have hit: "count_where ?p (refresh_tokens (store w)) \<noteq> 0"
    using assms(2) by (auto simp: count_where_0)
  have user: "has_id (ID u) (users (store w))" "has_id_opt (Some (ID u)) (users (store w))"
    using assms(4) by (auto elim!: select_user_Some simp: has_id_iff has_id_opt_def)
  have new: "rt_ID x \<noteq> fresh w (pos w + 9)" if "x \<in> set (update_where ?p f (refresh_tokens (store w)))"
    and "\<And>x. rt_ID (f x) = rt_ID x" for f x
    using that assms(7) by (auto simp: set_update_where)
  show ?thesis
    unfolding AuthService_Refresh_def RefreshTokenService_Validate_def refresh_IsValid_def refresh_IsRevoked_def
      UserRepository_GetByID_def GenerateAccessToken_def sign_claims_def RefreshTokenService_Revoke_def Let_def
    using assms hit user new
    by (simp add: go_try_run go_bind_run go_guard_def get_one_def query_def now_def exec_rows_def exec_def
        revoke_where_def sql_update_def Create_run raw_token_def created_row_def tick_def numeral_eq_Suc)
qed

lemmas Refresh_succeeds = Refresh_run [THEN arg_cong [where f = fst], unfolded fst_conv]

lemma ResetPassword_opens:
  assumes "AuthService_ResetPassword s tok pw w = (Inr x, w')"
  obtains l where "link_of AuthEmailTokenPasswordReset tok (store w) = Some l" and "\<not> link_used l"
proof -
  from assms obtain h v u v2 where hash: "HashPassword (ae_bcrypt s) pw w = (Inr h, v)"
    and con: "AuthEmailTokenRepository_Consume (hashVerificationToken tok) AuthEmailTokenPasswordReset
      (clock v (pos v)) (tick v) = (Inr u, v2)"
    unfolding AuthService_ResetPassword_def
    by (elim go_elim_Inr) (force elim!: go_elim_Inr simp: now_eq split: sum.splits)
  have "store v = store w" using staysD [OF HashPassword_pure hash] by simp
  with con that show thesis by (auto elim!: Consume_uses simp: link_used_def)
qed

section \<open>Properties\<close>

text \<open>C17: A refresh token works at most once: after a refresh with it has succeeded, every later
  refresh with the same token is refused, whatever requests the service has answered in between
  and whichever of their statements failed.\<close>

theorem refresh_token_works_once:
  assumes "AuthService_Refresh s tok w = (Inr pair, w')"
  shows "fst (AuthService_Refresh s tok (serve_auths s calls w')) = Inl ErrAuthTokenInvalid"
  by (rule Refresh_revokes [OF assms]) (rule revoked_session_is_refused)

text \<open>C18: A change of the password ends every session of the user: no refresh token issued to the
  user before a successful change is accepted at any later time.\<close>

theorem password_change_ends_all_sessions:
  assumes "AuthService_ChangePassword s u req w = (Inr x, w')"
    and "session_of tok (store w) = Some r" and "rt_UserID r = u"
  shows "fst (AuthService_Refresh s tok (serve_auths s calls w')) = Inl ErrAuthTokenInvalid"
  by (rule ChangePassword_shuts [OF assms]) (rule revoked_session_is_refused)

text \<open>C19: A link to reset the password works at most once, and using it ends every session of the
  user it was sent to: after a successful reset, no later reset with the same link succeeds, and no
  refresh token issued to that user before is accepted again, whatever requests come in between.\<close>

theorem reset_link_works_once:
  assumes "AuthService_ResetPassword s tok pw w = (Inr x, w')"
  shows "\<exists>l. link_of AuthEmailTokenPasswordReset tok (store w) = Some l
    \<and> (\<forall>pw'. fst (AuthService_ResetPassword s tok pw' (serve_auths s calls w')) \<noteq> Inr ())
    \<and> (\<forall>rtok r. session_of rtok (store w) = Some r \<and> rt_UserID r = aet_UserID l \<longrightarrow>
        fst (AuthService_Refresh s rtok (serve_auths s calls w')) = Inl ErrAuthTokenInvalid)"
proof -
  from assms obtain l l' where l: "link_of AuthEmailTokenPasswordReset tok (store w) = Some l"
    and used: "link_of AuthEmailTokenPasswordReset tok (store w') = Some l'" "link_used l'"
    and shut: "\<And>rtok r. session_of rtok (store w) = Some r \<Longrightarrow> rt_UserID r = aet_UserID l \<Longrightarrow>
      \<exists>r'. session_of rtok (store w') = Some r' \<and> refresh_IsRevoked r'"
    by (rule ResetPassword_uses) blast
  let ?v = "serve_auths s calls w'"
  obtain k where k: "link_of AuthEmailTokenPasswordReset tok (store ?v) = Some k" "link_used k"
    by (rule used_link_stays [OF used])
  have "fst (AuthService_ResetPassword s tok pw' ?v) \<noteq> Inr ()" for pw'
  proof
    assume "fst (AuthService_ResetPassword s tok pw' ?v) = Inr ()"
    from run_pair [of "AuthService_ResetPassword s tok pw'" ?v, OF this]
    show False
      by (rule ResetPassword_opens) (use k in \<open>simp add: link_used_def\<close>)
  qed
  moreover have "fst (AuthService_Refresh s rtok ?v) = Inl ErrAuthTokenInvalid"
    if "session_of rtok (store w) = Some r" and "rt_UserID r = aet_UserID l" for rtok r
    using shut [OF that] revoked_session_is_refused by blast
  ultimately show ?thesis using l by blast
qed

text \<open>C21: A successful login is always that of a live, active account with the given address whose
  stored hash matches the password and whose address is verified where the server asks for it. It
  returns the account without its secrets, and adds one open refresh token of that user, stored as
  the hash of the token returned; nothing else in the database changes.\<close>

theorem Login_opens_one_session:
  assumes "AuthService_Login s req w = (Inr (u, pair), w')"
  shows "\<exists>row tok. row \<in> set (users (store w)) \<and> live row \<and> u_Email row = lr_Email req
    \<and> u_Status row = UserStatusActive \<and> ae_compare s (u_PasswordHash row) (lr_Password req)
    \<and> (ae_verifyEmailEnabled s \<longrightarrow> u_EmailVerifiedAt row \<noteq> None) \<and> u = user_Sanitize row
    \<and> store w' = put_refresh_tokens (refresh_tokens (store w) @ [tok]) (store w)
    \<and> rt_UserID tok = ID row \<and> rt_TokenHash tok = SHA256Hash (tp_RefreshToken pair)
    \<and> rt_RevokedAt tok = None"
proof -
  from assms obtain row a where "row \<in> set (users (store w))" "u_Email row = lr_Email req" "user_IsActive row"
    "ae_compare s (u_PasswordHash row) (lr_Password req)"
    "ae_verifyEmailEnabled s \<longrightarrow> u_EmailVerifiedAt row \<noteq> None" "u = user_Sanitize row"
    "pair = \<lparr>tp_AccessToken = a, tp_RefreshToken = raw_token (w\<lparr>pos := pos w + 4\<rparr>),
      tp_ExpiresIn = js_accessTTL (ae_jwtService s) div 10 ^ 9\<rparr>"
    "w' = w\<lparr>pos := pos w + 10, store := put_refresh_tokens (refresh_tokens (store w)
      @ [created_row (ID row) ''default'' (w\<lparr>pos := pos w + 4\<rparr>)]) (store w)\<rparr>"
    by (rule Login_Inr)
  then show ?thesis
    by (intro exI [of _ row] exI [of _ "created_row (ID row) ''default'' (w\<lparr>pos := pos w + 4\<rparr>)"])
      (simp add: user_IsActive_def created_row_def new_session_def)
qed

lemma find_by_key:
  assumes "distinct (map k xs)" and "x \<in> set xs" and "q x"
  shows "find (\<lambda>y. k y = k x \<and> q y) xs = Some x"
  using assms by (induction xs) (auto simp: rev_image_eqI)

lemma find_revoked:
  assumes "find p xs = Some x" and "\<And>y. p (f y) = p y" and "q x"
  shows "find p (update_where q f xs @ ys) = Some (f x)"
  using assms by (induction xs) (auto split: if_splits)

text \<open>C20: A session lasts: the refresh token a login returns is accepted, once. When no statement fails, the
  tokens can be signed, the identifier drawn for the successor is new and less than seven days have
  gone by, the refresh right after the login returns an access token that is signed for the user at a
  reading of the clock during the call, and as its refresh token a string drawn during the call; the
  row of the old token is then revoked, and a new row holds the hash of the new token, open, for the
  same user and for seven days from a reading of the clock during the call.\<close>

theorem login_session_can_be_refreshed:
  assumes "AuthService_Login s req w = (Inr (u, pair), w')"
    and "\<forall>n. \<not> faults w n" and "\<forall>k c. ae_sign s k c \<noteq> None"
    and "distinct (map ID (users (store w)))"
    and "session_of (tp_RefreshToken pair) (store w) = None"
    and "clock w' (pos w' + 1) < clock w (pos w + 6) + minutes (7 * 24 * 60)"
    and "\<forall>r \<in> set (refresh_tokens (store w')). rt_ID r \<noteq> fresh w' (pos w' + 9)"
  shows "\<exists>a k v t x y. AuthService_Refresh s (tp_RefreshToken pair) w'
      = (Inr \<lparr>tp_AccessToken = a, tp_RefreshToken = raw_token (w'\<lparr>pos := k\<rparr>), tp_ExpiresIn = 900\<rparr>, v)
    \<and> pos w' \<le> k \<and> k < pos v \<and> t \<in> clock w' ` {pos w' ..< pos v}
    \<and> ae_sign s (js_accessSecret (ae_jwtService s))
        (access_claims (ae_jwtService s) t (ID u) (u_Email u) uuid_Nil []) = Some a
    \<and> session_of (tp_RefreshToken pair) (store v) = Some x \<and> rt_RevokedAt x \<noteq> None
    \<and> y \<in> set (refresh_tokens (store v)) - set (refresh_tokens (store w'))
    \<and> rt_TokenHash y = SHA256Hash (raw_token (w'\<lparr>pos := k\<rparr>)) \<and> rt_UserID y = ID u \<and> rt_RevokedAt y = None
    \<and> rt_ExpiresAt y \<in> (\<lambda>n. clock w' n + minutes (7 * 24 * 60)) ` {pos w' ..< pos v}"
proof -
  from assms(1) obtain row a where row: "row \<in> set (users (store w))" "user_IsActive row" "u = user_Sanitize row"
    and pair: "pair = \<lparr>tp_AccessToken = a, tp_RefreshToken = raw_token (w\<lparr>pos := pos w + 4\<rparr>),
      tp_ExpiresIn = js_accessTTL (ae_jwtService s) div 10 ^ 9\<rparr>"
    and w': "w' = w\<lparr>pos := pos w + 10, store := put_refresh_tokens (refresh_tokens (store w)
      @ [created_row (ID row) ''default'' (w\<lparr>pos := pos w + 4\<rparr>)]) (store w)\<rparr>"
    by (rule Login_Inr)
  let ?new = "created_row (ID row) ''default'' (w\<lparr>pos := pos w + 4\<rparr>)"
  have new: "session_of (tp_RefreshToken pair) (store w') = Some ?new"
    using assms(5) by (simp add: w' pair find_append created_row_def new_session_def raw_token_def)
  have "find (\<lambda>x. ID x = ID row \<and> live x) (users (store w)) = Some row"
    using find_by_key [OF assms(4) row(1)] row(2) by (simp add: user_IsActive_def)
  then have user: "select_user (\<lambda>x. ID x = rt_UserID ?new) (store w') = Some (row\<lparr>u_MFASecret := None\<rparr>)"
    by (simp add: select_user_def w' created_row_def new_session_def)
  obtain b where b: "ae_sign s (js_accessSecret (ae_jwtService s)) (access_claims (ae_jwtService s)
      (clock w' (pos w' + 3)) (ID row) (u_Email row) uuid_Nil []) = Some b"
    using assms(3) by blast
  let ?shut = "\<lambda>x. x\<lparr>rt_RevokedAt := Some (clock w' (pos w' + 4)), rt_RevokedBy := Some (ID row)\<rparr>"
  let ?p = "\<lambda>x. rt_ID x = rt_ID ?new \<and> rt_RevokedAt x = None"
  let ?next = "created_row (ID row) ''default'' (w'\<lparr>pos := pos w' + 6\<rparr>)"
  let ?rows = "update_where ?p ?shut (refresh_tokens (store w')) @ [?next]"
  let ?v = "w'\<lparr>pos := pos w' + 12, store := put_refresh_tokens ?rows (store w')\<rparr>"
  have run: "AuthService_Refresh s (tp_RefreshToken pair) w' = (Inr \<lparr>tp_AccessToken = b,
      tp_RefreshToken = raw_token (w'\<lparr>pos := pos w' + 6\<rparr>), tp_ExpiresIn = 900\<rparr>, ?v)"
    by (rule Refresh_run [OF new _ _ user, simplified])
      (use assms(2,6,7) b in \<open>auto simp: w' created_row_def new_session_def add.commute\<close>)
  have opened: "rt_RevokedAt ?new = None" by (simp add: created_row_def new_session_def)
  have shut: "session_of (tp_RefreshToken pair) (store ?v) = Some (?shut ?new)"
    using find_revoked [OF new, where f = ?shut and q = ?p] opened by simp
  have "rt_ID r \<noteq> rt_ID ?next" if "r \<in> set (refresh_tokens (store w'))" for r
    using assms(7) that by (simp add: created_row_def new_session_def add.commute)
  then have added: "?next \<in> set (refresh_tokens (store ?v)) - set (refresh_tokens (store w'))" by auto
  show ?thesis
  proof (intro exI conjI)
    show "session_of (tp_RefreshToken pair) (store ?v) = Some (?shut ?new)" by (rule shut)
    show "?next \<in> set (refresh_tokens (store ?v)) - set (refresh_tokens (store w'))" by (rule added)
    show "ae_sign s (js_accessSecret (ae_jwtService s)) (access_claims (ae_jwtService s)
      (clock w' (pos w' + 3)) (ID u) (u_Email u) uuid_Nil []) = Some b" using b row(3) by (simp add: user_Sanitize_def)
    show "rt_ExpiresAt ?next \<in> (\<lambda>n. clock w' n + minutes (7 * 24 * 60)) ` {pos w' ..< pos ?v}"
      by (rule image_eqI [of _ _ "pos w' + 8"]) (simp_all add: created_row_def new_session_def add.commute)
  qed (use run row(3) in \<open>auto simp: created_row_def new_session_def user_Sanitize_def raw_token_def\<close>)
qed

text \<open>
  A server with verified addresses, an account, one of its sessions and a link to reset its password.
\<close>

definition demo_env :: auth_env where
  "demo_env = \<lparr>ae_lower = id, ae_bcrypt = (\<lambda>salt password cost. Some password),
     ae_compare = (=), ae_sign = (\<lambda>secret c. Some (cl_Subject c)),
     ae_delivers = (\<lambda>n recipient subject body. True), ae_verifyEmailEnabled = True, ae_publicURL = ''u'',
     ae_jwtService = NewJWTService ''a'' ''r'' 0 0\<rparr>"

definition demo_account :: user where
  "demo_account = demo_user\<lparr>u_PasswordHash := ''pw'', u_EmailVerifiedAt := Some 0\<rparr>"

definition demo_session :: refresh_token where
  "demo_session = new_session 50 2 ''tok'' ''default'' 0 0"

definition demo_link :: auth_email_token where
  "demo_link = \<lparr>aet_ID = 60, aet_UserID = 2, aet_Purpose = AuthEmailTokenPasswordReset,
     aet_TokenHash = hashVerificationToken ''link'', aet_ExpiresAt = 1000, aet_UsedAt = None,
     aet_CreatedAt = 0\<rparr>"

definition account_db :: db where
  "account_db = demo_db\<lparr>users := [demo_account], refresh_tokens := [demo_session],
     auth_email_tokens := [demo_link]\<rparr>"

lemma account_db_tables [simp]:
  "users account_db = [demo_account]" "refresh_tokens account_db = [demo_session]"
  "auth_email_tokens account_db = [demo_link]"
  by (simp_all add: account_db_def)

lemmas account_eval = demo_env_def demo_account_def demo_session_def demo_link_def demo_user_def new_session_def
  user_IsActive_def minutes_def select_user_def

lemma demo_refresh:
  "fst (AuthService_Refresh demo_env ''tok'' (demo_world account_db))
     = Inr \<lparr>tp_AccessToken = uuid_String 2,
         tp_RefreshToken = raw_token (demo_world account_db\<lparr>pos := 6\<rparr>), tp_ExpiresIn = 900\<rparr>"
  using Refresh_succeeds [of "''tok''" "demo_world account_db" demo_session "demo_account\<lparr>u_MFASecret := None\<rparr>"
      demo_env "uuid_String 2"]
  by (simp add: account_eval access_claims_def)

theorem refresh_token_works_once_witness:
  "(\<exists>pair. fst (AuthService_Refresh demo_env ''tok'' (demo_world account_db)) = Inr pair)
   \<and> fst (AuthService_Refresh demo_env ''tok'' (serve_auths demo_env [Me 2]
       (snd (AuthService_Refresh demo_env ''tok'' (demo_world account_db))))) = Inl ErrAuthTokenInvalid"
  using demo_refresh refresh_token_works_once [OF run_pair [of "AuthService_Refresh demo_env ''tok''" _, OF demo_refresh]] by blast

definition demo_change :: change_password_request where
  "demo_change = \<lparr>cpr_CurrentPassword = ''pw'', cpr_NewPassword = ''new''\<rparr>"

lemma demo_change_run:
  "fst (AuthService_ChangePassword demo_env 2 demo_change (demo_world account_db)) = Inr ()"
  by (simp add: AuthService_ChangePassword_def UserRepository_GetByID_def HashPassword_def bcryptCost_def
      UserRepository_UpdatePassword_def RefreshTokenService_RevokeAllUserTokens_def revoke_where_def
      go_eval account_eval demo_change_def rand_Read_def has_id_opt_def has_id_def)

theorem password_change_ends_all_sessions_witness:
  "(\<exists>pair. fst (AuthService_Refresh demo_env ''tok'' (demo_world account_db)) = Inr pair)
   \<and> fst (AuthService_Refresh demo_env ''tok'' (serve_auths demo_env [Login \<lparr>lr_Email = ''u@x'', lr_Password = ''new''\<rparr>]
       (snd (AuthService_ChangePassword demo_env 2 demo_change (demo_world account_db))))) = Inl ErrAuthTokenInvalid"
  using demo_refresh password_change_ends_all_sessions [OF run_pair [of "AuthService_ChangePassword demo_env 2 demo_change" _, OF demo_change_run], of "''tok''" demo_session]
  by (auto simp: account_eval)

lemma trimmed_link: "TrimSpace ''link'' = ''link''"
  by code_simp

lemma demo_reset_run:
  "fst (AuthService_ResetPassword demo_env ''link'' ''new'' (demo_world account_db)) = Inr ()"
  by (simp add: AuthService_ResetPassword_def AuthEmailTokenRepository_Consume_def RunInTransaction_def
      HashPassword_def bcryptCost_def UserRepository_UpdatePassword_def trimmed_link
      RefreshTokenRepository_RevokeAllForUser_def revoke_where_def go_eval account_eval rand_Read_def
      has_id_opt_def has_id_def tick_def)

theorem reset_link_works_once_witness:
  "fst (AuthService_ResetPassword demo_env ''link'' ''other'' (serve_auths demo_env [Me 2]
       (snd (AuthService_ResetPassword demo_env ''link'' ''new'' (demo_world account_db))))) \<noteq> Inr ()
   \<and> fst (AuthService_Refresh demo_env ''tok'' (serve_auths demo_env [Me 2]
       (snd (AuthService_ResetPassword demo_env ''link'' ''new'' (demo_world account_db))))) = Inl ErrAuthTokenInvalid"
  using reset_link_works_once [OF run_pair [of "AuthService_ResetPassword demo_env ''link'' ''new''" _, OF demo_reset_run], of "[Me 2]"]
  by (auto simp: account_eval)

definition demo_login :: login_request where
  "demo_login = \<lparr>lr_Email = ''u@x'', lr_Password = ''pw''\<rparr>"

definition quiet_db :: db where
  "quiet_db = demo_db\<lparr>users := [demo_account]\<rparr>"

lemma demo_login_run:
  "AuthService_Login demo_env demo_login (demo_world quiet_db) =
     (Inr (user_Sanitize demo_account, \<lparr>tp_AccessToken = uuid_String 2,
        tp_RefreshToken = raw_token (demo_world quiet_db\<lparr>pos := 4\<rparr>), tp_ExpiresIn = 900\<rparr>),
      (demo_world quiet_db)\<lparr>pos := 10, store := put_refresh_tokens
        [created_row 2 ''default'' (demo_world quiet_db\<lparr>pos := 4\<rparr>)] quiet_db\<rparr>)"
  by (simp add: AuthService_Login_def UserRepository_GetByEmail_def open_session_def GenerateTokenPair_def
      GenerateAccessToken_def generateRefreshToken_def sign_claims_def access_claims_def Create_run
      go_bind_run go_try_run go_guard_def get_one_def query_def now_def uuid_New_def Let_def tick_def
      account_eval demo_login_def quiet_db_def NewJWTService_def has_id_def raw_token_def created_row_def
      user_Sanitize_def)

theorem Login_opens_one_session_witness:
  "\<exists>u pair w' tok. AuthService_Login demo_env demo_login (demo_world quiet_db) = (Inr (u, pair), w')
     \<and> store w' = put_refresh_tokens [tok] quiet_db \<and> rt_TokenHash tok = SHA256Hash (tp_RefreshToken pair)"
  using demo_login_run Login_opens_one_session [OF demo_login_run] by (auto simp: quiet_db_def)

theorem login_session_can_be_refreshed_witness:
  "\<exists>u pair w' pair' v x. AuthService_Login demo_env demo_login (demo_world quiet_db) = (Inr (u, pair), w')
     \<and> AuthService_Refresh demo_env (tp_RefreshToken pair) w' = (Inr pair', v)
     \<and> session_of (tp_RefreshToken pair) (store v) = Some x \<and> rt_RevokedAt x \<noteq> None"
proof -
  have "\<forall>k c. ae_sign demo_env k c \<noteq> None" by (simp add: demo_env_def)
  with login_session_can_be_refreshed [OF demo_login_run] demo_login_run show ?thesis
    by (fastforce simp: quiet_db_def minutes_def created_row_def new_session_def)
qed

text \<open>
  \<open>Refresh\<close> does not look at the status of the account, which \<open>Login\<close> does: a suspended user whose
  session is open keeps getting access tokens.
\<close>

theorem suspended_user_keeps_a_session:
  fixes suspended :: db
  defines "suspended \<equiv> account_db\<lparr>users := [demo_account\<lparr>u_Status := ''suspended''\<rparr>]\<rparr>"
  shows "(\<exists>pair. fst (AuthService_Refresh demo_env ''tok'' (demo_world suspended)) = Inr pair)
    \<and> fst (AuthService_Login demo_env demo_login (demo_world suspended)) = Inl ErrUserInactive"
proof
  show "\<exists>pair. fst (AuthService_Refresh demo_env ''tok'' (demo_world suspended)) = Inr pair"
    using Refresh_succeeds [of "''tok''" "demo_world suspended" demo_session
        "demo_account\<lparr>u_Status := ''suspended'', u_MFASecret := None\<rparr>" demo_env "uuid_String 2"]
    by (simp add: account_eval access_claims_def suspended_def)
  show "fst (AuthService_Login demo_env demo_login (demo_world suspended)) = Inl ErrUserInactive"
    by (simp add: AuthService_Login_def UserRepository_GetByEmail_def go_eval account_eval demo_login_def
        suspended_def)
qed

end
