(* ===== verification/Guards.thy ===== *)
theory Guards
  imports Tenants Sessions
begin

text \<open>
  The middleware that stands before the handlers: authentication by an access token (\<open>JWTAuth\<close>,
  \<open>OptionalAuth\<close>, \<open>JWTService.validateToken\<close>), the tenant of a request (\<open>TenantResolver\<close>), tenant
  permissions and roles (\<open>RequirePermission\<close>, \<open>RequireRole\<close>), event permissions
  (\<open>RequireEventPermission\<close>) and the chains that \<open>RegisterRoutes\<close> builds of them.

  A handler is a function of the request and of what the middleware stored in the context; the rest
  of an \<open>echo.Context\<close> is not used here. Parameters are the JWT parser and the parser of UUIDs,
  both packages of other projects, as fields of \<open>guard_env\<close>. The lemmas show that a handler behind a
  chain runs only for a bearer of a valid token who has the permission, and that a refusal leaves the
  database as it was.
\<close>

section \<open>Requests and handlers\<close>

record request =
  rq_Header :: "string \<Rightarrow> string"
  rq_Param :: "string \<Rightarrow> string"
  rq_Path :: string
  rq_Method :: string

record http_context =
  cx_Claims :: "claims option"
  cx_TenantID :: "uuid option"

text \<open>\<open>c.JSON(status, map[string]string{"error": msg})\<close>, and the answer of a handler.\<close>

datatype 'a response = Refused int string | Answered 'a

type_synonym 'a handler = "request \<Rightarrow> http_context \<Rightarrow> 'a response proc"

definition refuse :: "int \<Rightarrow> string \<Rightarrow> 'a response proc" where
  "refuse status msg = go_ret (Refused status msg)"

text \<open>
  What \<open>jwt.ParseWithClaims\<close> reports: claims with the flag \<open>Valid\<close>, or an error, told apart as
  \<open>errors.Is\<close> does. Its arguments are the key function, which sees whether the token names an HMAC
  method, the time and the token.
\<close>

datatype jwt_outcome = JWTClaims claims bool | JWTExpired | JWTSignatureInvalid | JWTMalformed | JWTFailed

record guard_env =
  ge_jwt :: jwt_service
  ge_parse :: "(bool \<Rightarrow> string option) \<Rightarrow> time \<Rightarrow> string \<Rightarrow> jwt_outcome"
  ge_uuid :: "string \<Rightarrow> uuid option"

section \<open>Authentication\<close>

definition hmac_key :: "string \<Rightarrow> bool \<Rightarrow> string option" where
  "hmac_key secret isHMAC = (if isHMAC then Some secret else None)"

definition validateToken :: "guard_env \<Rightarrow> string \<Rightarrow> string \<Rightarrow> ('d, claims) go" where
  "validateToken g tokenString secret = go_bind now (\<lambda>t.
     case ge_parse g (hmac_key secret) t tokenString of
       JWTExpired \<Rightarrow> go_fail ErrTokenExpired
     | JWTSignatureInvalid \<Rightarrow> go_fail ErrInvalidSignature
     | JWTMalformed \<Rightarrow> go_fail ErrInvalidToken
     | JWTFailed \<Rightarrow> go_fail ErrInvalidToken
     | JWTClaims c valid \<Rightarrow> go_guard (\<not> valid) ErrInvalidToken (go_ret c))"

definition ValidateAccessToken :: "guard_env \<Rightarrow> string \<Rightarrow> ('d, claims) go" where
  "ValidateAccessToken g tokenString = validateToken g tokenString (js_accessSecret (ge_jwt g))"

definition ValidateRefreshToken :: "guard_env \<Rightarrow> string \<Rightarrow> ('d, claims) go" where
  "ValidateRefreshToken g tokenString = validateToken g tokenString (js_refreshSecret (ge_jwt g))"

definition extractBearerToken :: "request \<Rightarrow> string" where
  "extractBearerToken rq =
     (let authHeader = rq_Header rq ''Authorization'' in
      if authHeader = [] then [] else
      case strip_prefix ''Bearer '' authHeader of None \<Rightarrow> [] | Some rest \<Rightarrow> TrimSpace rest)"

definition JWTAuth :: "guard_env \<Rightarrow> 'a handler \<Rightarrow> 'a handler" where
  "JWTAuth g nxt rq cx =
     (let tokenString = extractBearerToken rq in
      if tokenString = [] then refuse 401 ''missing authorization header'' else
      go_try (ValidateAccessToken g tokenString) (\<lambda>r. case r of
        Inl e \<Rightarrow> refuse 401 (if e = ErrTokenExpired then ''token has expired'' else ''invalid token'')
      | Inr claims \<Rightarrow> nxt rq (cx\<lparr>cx_Claims := Some claims\<rparr>)))"

definition OptionalAuth :: "guard_env \<Rightarrow> 'a handler \<Rightarrow> 'a handler" where
  "OptionalAuth g nxt rq cx =
     (let tokenString = extractBearerToken rq in
      if tokenString = [] then nxt rq cx else
      go_try (ValidateAccessToken g tokenString) (\<lambda>r. case r of
        Inl e \<Rightarrow> nxt rq cx
      | Inr claims \<Rightarrow> nxt rq (cx\<lparr>cx_Claims := Some claims\<rparr>)))"

definition GetUserID :: "http_context \<Rightarrow> uuid" where
  "GetUserID cx = (case cx_Claims cx of None \<Rightarrow> uuid_Nil | Some c \<Rightarrow> cl_UserID c)"

definition GetTenantID :: "http_context \<Rightarrow> uuid" where
  "GetTenantID cx = (case cx_Claims cx of None \<Rightarrow> uuid_Nil | Some c \<Rightarrow> cl_TenantID c)"

definition GetEmail :: "http_context \<Rightarrow> string" where
  "GetEmail cx = (case cx_Claims cx of None \<Rightarrow> [] | Some c \<Rightarrow> cl_Email c)"

section \<open>The tenant of a request\<close>

definition defaultTenantSkipper :: "request \<Rightarrow> bool" where
  "defaultTenantSkipper rq \<longleftrightarrow>
     rq_Path rq \<in> {''/api/v1/auth/register'', ''/api/v1/auth/login'', ''/api/v1/auth/refresh'',
       ''/api/v1/auth/verify-email'', ''/api/v1/auth/resend-verification'',
       ''/api/v1/auth/forgot-password'', ''/api/v1/auth/reset-password'', ''/api/v1/auth/magic-link'',
       ''/api/v1/auth/magic-link/consume'', ''/api/v1/tenants'', ''/api/v1/billing/plans'',
       ''/api/v1/billing/webhook''}
     \<or> list_ex (\<lambda>p. strip_prefix p (rq_Path rq) \<noteq> None)
         [''/health'', ''/healthz'', ''/ready'', ''/metrics'', ''/swagger'', ''/api/docs'']
     \<or> rq_Method rq = ''OPTIONS''"

definition validateTenantExists :: "uuid \<Rightarrow> bool \<Rightarrow> bool app" where
  "validateTenantExists tenantID allowSuspended = query (\<lambda>d. list_ex (\<lambda>t. ID t = tenantID
     \<and> t_Status t \<in> (if allowSuspended then {''active'', ''trial'', ''suspended''} else {''active'', ''trial''})
     \<and> live t) (tenants d))"

definition path_tenant :: "request \<Rightarrow> string" where
  "path_tenant rq = (if rq_Param rq ''id'' = [] then rq_Param rq ''tenantId'' else rq_Param rq ''id'')"

abbreviation invalid_tenant :: "'a response proc" where
  "invalid_tenant \<equiv> refuse 403 ''Tenant access denied or tenant does not exist''"

definition TenantResolver :: "guard_env \<Rightarrow> 'a handler \<Rightarrow> 'a handler" where
  "TenantResolver g nxt rq cx =
     (if defaultTenantSkipper rq then nxt rq cx else
      let headerTenantID = rq_Header rq ''X-Tenant-ID''; pathTenantID = path_tenant rq in
      if headerTenantID \<noteq> [] \<and> pathTenantID \<noteq> [] \<and> (ge_uuid g headerTenantID = None
          \<or> ge_uuid g pathTenantID = None \<or> ge_uuid g headerTenantID \<noteq> ge_uuid g pathTenantID)
      then invalid_tenant else
      let tenantIDStr = (if headerTenantID = [] then pathTenantID else headerTenantID) in
      if tenantIDStr = [] then refuse 400 ''X-Tenant-ID header is required'' else
      case ge_uuid g tenantIDStr of
        None \<Rightarrow> invalid_tenant
      | Some tenantID \<Rightarrow>
          go_try (on_db (validateTenantExists tenantID (strip_prefix ''/api/v1/billing/'' (rq_Path rq) \<noteq> None)))
            (\<lambda>r. case r of
              Inl _ \<Rightarrow> refuse 500 ''Failed to validate tenant''
            | Inr valid \<Rightarrow> if valid then nxt rq (cx\<lparr>cx_TenantID := Some tenantID\<rparr>) else invalid_tenant))"

definition TenantIDFromContext :: "http_context \<Rightarrow> uuid option" where
  "TenantIDFromContext cx = cx_TenantID cx"

section \<open>Permissions\<close>

text \<open>The keys of the map of roles; Go iterates over them in any order, and only membership is asked.\<close>

definition AllRoles :: "string list" where
  "AllRoles = map fst RolePermissions"

definition extractIDsForRBAC :: "guard_env \<Rightarrow> request \<Rightarrow> http_context \<Rightarrow> (uuid \<times> uuid) option" where
  "extractIDsForRBAC g rq cx =
     (case (if rq_Param rq ''id'' = []
            then (if TenantIDFromContext cx = Some uuid_Nil then None else TenantIDFromContext cx)
            else ge_uuid g (rq_Param rq ''id'')) of
        None \<Rightarrow> None
      | Some tenantID \<Rightarrow> if GetUserID cx = uuid_Nil then None else Some (tenantID, GetUserID cx))"

definition RequirePermission :: "guard_env \<Rightarrow> string \<Rightarrow> 'a handler \<Rightarrow> 'a handler" where
  "RequirePermission g permission nxt rq cx =
     (case extractIDsForRBAC g rq cx of
        None \<Rightarrow> refuse 400 ''tenant id or user id missing from request''
      | Some (tenantID, userID) \<Rightarrow>
          go_try (rbac_EnforcePermission tenantID userID permission) (\<lambda>r. case r of
            Inl e \<Rightarrow> if e = ErrForbidden then refuse 403 ''insufficient permissions''
                     else refuse 500 ''permission check failed''
          | Inr _ \<Rightarrow> nxt rq cx))"

definition RequireRole :: "guard_env \<Rightarrow> string list \<Rightarrow> 'a handler \<Rightarrow> 'a handler" where
  "RequireRole g roles nxt rq cx =
     (case extractIDsForRBAC g rq cx of
        None \<Rightarrow> refuse 400 ''tenant id or user id missing from request''
      | Some (tenantID, userID) \<Rightarrow>
          go_try (rbac_GetRole tenantID userID) (\<lambda>r. case r of
            Inl e \<Rightarrow> if e = ErrMembershipNotFound then refuse 403 ''not a member of this tenant''
                     else refuse 500 ''role check failed''
          | Inr role \<Rightarrow> if list_ex (\<lambda>allowed. role = allowed) roles then nxt rq cx
                        else refuse 403 ''required role not satisfied''))"

definition RequireEventPermission :: "guard_env \<Rightarrow> string \<Rightarrow> 'a handler \<Rightarrow> 'a handler" where
  "RequireEventPermission g permission nxt rq cx =
     (case ge_uuid g (path_tenant rq) of
        None \<Rightarrow> refuse 400 ''invalid tenant id''
      | Some tenantID \<Rightarrow>
     case ge_uuid g (rq_Param rq ''eventId'') of
        None \<Rightarrow> refuse 400 ''invalid event id''
      | Some eventID \<Rightarrow>
          if GetUserID cx = uuid_Nil then refuse 401 ''unauthenticated'' else
          go_try (on_db (EventAccessService_Authorize tenantID eventID (GetUserID cx) permission)) (\<lambda>r. case r of
            Inl e \<Rightarrow> if e = ErrEventNotFound then refuse 404 ''event not found''
                     else refuse 403 ''insufficient event permissions''
          | Inr _ \<Rightarrow> nxt rq cx))"

section \<open>The chains of the routes\<close>

definition tenant_route :: "guard_env \<Rightarrow> string \<Rightarrow> 'a handler \<Rightarrow> 'a handler" where
  "tenant_route g permission h = JWTAuth g (RequirePermission g permission h)"

definition role_route :: "guard_env \<Rightarrow> string list \<Rightarrow> 'a handler \<Rightarrow> 'a handler" where
  "role_route g roles h = JWTAuth g (RequireRole g roles h)"

definition event_route :: "guard_env \<Rightarrow> string \<Rightarrow> 'a handler \<Rightarrow> 'a handler" where
  "event_route g permission h = JWTAuth g (RequireEventPermission g permission h)"

definition billing_route :: "guard_env \<Rightarrow> string \<Rightarrow> 'a handler \<Rightarrow> 'a handler" where
  "billing_route g permission h = JWTAuth g (TenantResolver g (RequirePermission g permission h))"

text \<open>The handler of a route, with its chain as \<open>RegisterRoutes\<close> declares it, by method and path.\<close>

datatype guard = NoGuard | Authenticated | NeedPermission string | NeedRole "string list"
  | NeedEventPermission string | NeedBilling string

definition guarded :: "guard_env \<Rightarrow> guard \<Rightarrow> 'a handler \<Rightarrow> 'a handler" where
  "guarded g k h = (case k of
     NoGuard \<Rightarrow> h
   | Authenticated \<Rightarrow> JWTAuth g h
   | NeedPermission p \<Rightarrow> tenant_route g p h
   | NeedRole rs \<Rightarrow> role_route g rs h
   | NeedEventPermission p \<Rightarrow> event_route g p h
   | NeedBilling p \<Rightarrow> billing_route g p h)"

section \<open>The routes of the API\<close>

text \<open>
  Method, path and guard of every route that \<open>RegisterRoutes\<close> declares itself, in its order. The
  optional handlers and the campaigns are there where they are configured.
\<close>

abbreviation tenant_path :: string where "tenant_path \<equiv> ''/api/v1/tenants/:id''"
abbreviation event_path :: string where "event_path \<equiv> ''/api/v1/tenants/:id/events/:eventId''"

definition RegisterRoutes :: "bool \<Rightarrow> bool \<Rightarrow> bool \<Rightarrow> (string \<times> string \<times> guard) list" where
  "RegisterRoutes gowa github campaignsEnabled =
   [(''POST'', ''/api/v1/auth/register'', NoGuard),
      (''POST'', ''/api/v1/auth/login'', NoGuard),
      (''POST'', ''/api/v1/auth/refresh'', NoGuard),
      (''GET'', ''/api/v1/auth/verify-email'', NoGuard),
      (''POST'', ''/api/v1/auth/resend-verification'', NoGuard),
      (''POST'', ''/api/v1/auth/forgot-password'', NoGuard),
      (''POST'', ''/api/v1/auth/reset-password'', NoGuard),
      (''POST'', ''/api/v1/auth/magic-link'', NoGuard),
      (''POST'', ''/api/v1/auth/magic-link/consume'', NoGuard),
      (''POST'', ''/api/v1/billing/webhook'', NoGuard),
      (''GET'', ''/api/v1/billing/plans'', NoGuard),
      (''POST'', ''/api/v1/rsvp'', NoGuard)]
   @ (if gowa then
     [(''POST'', ''/api/v1/webhooks/gowa'', NoGuard)] else [])
   @ (if github then
     [(''POST'', ''/api/v1/webhooks/github/issues'', NoGuard)] else [])
   @ [(''POST'', ''/api/v1/auth/logout'', Authenticated),
      (''GET'', ''/api/v1/auth/me'', Authenticated),
      (''PATCH'', ''/api/v1/auth/me'', Authenticated),
      (''PATCH'', ''/api/v1/auth/me/password'', Authenticated),
      (''POST'', ''/api/v1/tenants'', Authenticated),
      (''GET'', ''/api/v1/tenants'', Authenticated),
      (''GET'', tenant_path, NeedRole AllRoles),
      (''GET'', tenant_path @ ''/access'', NeedRole AllRoles),
      (''PATCH'', tenant_path, NeedRole [RoleTenantOwner]),
      (''GET'', tenant_path @ ''/users'', NeedPermission PermTeamRead),
      (''POST'', tenant_path @ ''/users'', NeedPermission PermTeamWrite),
      (''DELETE'', tenant_path @ ''/users/:userId'', NeedPermission PermTeamWrite),
      (''PATCH'', tenant_path @ ''/users/:userId/role'', NeedPermission PermTeamWrite),
      (''POST'', tenant_path @ ''/guests'', NeedPermission PermGuestWrite),
      (''GET'', tenant_path @ ''/guests'', NeedPermission PermGuestRead),
      (''GET'', tenant_path @ ''/guests/search'', NeedPermission PermGuestRead),
      (''POST'', tenant_path @ ''/guests/import'', NeedPermission PermGuestWrite),
      (''GET'', tenant_path @ ''/guests/import/template'', NeedPermission PermGuestRead),
      (''GET'', tenant_path @ ''/guests/:guestId'', NeedPermission PermGuestRead),
      (''PATCH'', tenant_path @ ''/guests/:guestId'', NeedPermission PermGuestWrite),
      (''DELETE'', tenant_path @ ''/guests/:guestId'', NeedPermission PermGuestDelete),
      (''POST'', tenant_path @ ''/households'', NeedPermission PermGuestWrite),
      (''GET'', tenant_path @ ''/households'', NeedPermission PermGuestRead),
      (''GET'', tenant_path @ ''/households/:householdId'', NeedPermission PermGuestRead),
      (''PATCH'', tenant_path @ ''/households/:householdId'', NeedPermission PermGuestWrite),
      (''DELETE'', tenant_path @ ''/households/:householdId'', NeedPermission PermGuestDelete),
      (''GET'', tenant_path @ ''/households/:householdId/members'', NeedPermission PermGuestRead),
      (''POST'', tenant_path @ ''/households/:householdId/members'', NeedPermission PermGuestWrite),
      (''DELETE'', tenant_path @ ''/households/:householdId/members/:guestId'', NeedPermission PermGuestDelete),
      (''POST'', tenant_path @ ''/events'', NeedPermission PermEventWrite),
      (''GET'', tenant_path @ ''/events'', NeedPermission PermEventRead),
      (''GET'', event_path, NeedEventPermission PermEventRead),
      (''GET'', event_path @ ''/checkin/qr'', NeedEventPermission PermEventRead),
      (''PATCH'', event_path, NeedEventPermission PermEventWrite),
      (''DELETE'', event_path, NeedEventPermission PermEventDelete),
      (''POST'', event_path @ ''/publish'', NeedEventPermission PermEventWrite),
      (''GET'', event_path @ ''/members'', NeedEventPermission PermEventTeamRead),
      (''GET'', event_path @ ''/members/access'', NeedEventPermission PermEventRead),
      (''POST'', event_path @ ''/members'', NeedEventPermission PermEventTeamWrite),
      (''PATCH'', event_path @ ''/members/:userId'', NeedEventPermission PermEventTeamWrite),
      (''DELETE'', event_path @ ''/members/:userId'', NeedEventPermission PermEventTeamWrite),
      (''POST'', event_path @ ''/guests'', NeedEventPermission PermGuestWrite),
      (''GET'', event_path @ ''/guests'', NeedEventPermission PermGuestRead),
      (''POST'', event_path @ ''/guests/import'', NeedEventPermission PermGuestWrite),
      (''DELETE'', event_path @ ''/guests/:eventGuestId'', NeedEventPermission PermGuestDelete),
      (''GET'', event_path @ ''/gifts'', NeedEventPermission PermGiftRead),
      (''PATCH'', event_path @ ''/gifts/by-guest/:guestId'', NeedEventPermission PermGiftWrite),
      (''DELETE'', event_path @ ''/gifts/by-guest/:guestId'', NeedEventPermission PermGiftDelete),
      (''POST'', event_path @ ''/invitations'', NeedEventPermission PermInvitationWrite),
      (''GET'', event_path @ ''/invitations'', NeedEventPermission PermInvitationRead),
      (''POST'', event_path @ ''/invitations/batch'', NeedEventPermission PermInvitationWrite),
      (''GET'', event_path @ ''/invitations/:invitationId'', NeedEventPermission PermInvitationRead),
      (''DELETE'', event_path @ ''/invitations/:invitationId'', NeedEventPermission PermInvitationWrite),
      (''GET'', event_path @ ''/invitations/:invitationId/qr'', NeedEventPermission PermInvitationRead),
      (''GET'', event_path @ ''/rsvp'', NeedEventPermission PermRSVPRead),
      (''GET'', event_path @ ''/rsvp/dashboard'', NeedEventPermission PermRSVPRead),
      (''PATCH'', event_path @ ''/rsvp/:rsvpId'', NeedEventPermission PermRSVPWrite),
      (''POST'', event_path @ ''/rsvp/by-guest/:guestId'', NeedEventPermission PermRSVPWrite),
      (''GET'', event_path @ ''/rsvp/reminders/candidates'', NeedEventPermission PermCommunicationRead),
      (''POST'', event_path @ ''/rsvp/reminders'', NeedEventPermission PermCommunicationSend),
      (''POST'', event_path @ ''/checkin'', NeedEventPermission PermCheckinWrite),
      (''GET'', event_path @ ''/checkin/stats'', NeedEventPermission PermCheckinRead),
      (''GET'', event_path @ ''/checkin/search'', NeedEventPermission PermCheckinRead),
      (''GET'', event_path @ ''/checkin/recent'', NeedEventPermission PermCheckinRead),
      (''POST'', event_path @ ''/checkin/walkin'', NeedEventPermission PermCheckinWrite),
      (''POST'', event_path @ ''/tables'', NeedEventPermission PermSeatingWrite),
      (''GET'', event_path @ ''/tables'', NeedEventPermission PermSeatingRead),
      (''GET'', event_path @ ''/tables/:tableId'', NeedEventPermission PermSeatingRead),
      (''PATCH'', event_path @ ''/tables/:tableId'', NeedEventPermission PermSeatingWrite),
      (''DELETE'', event_path @ ''/tables/:tableId'', NeedEventPermission PermSeatingWrite),
      (''POST'', event_path @ ''/tables/:tableId/assign'', NeedEventPermission PermSeatingWrite),
      (''DELETE'', event_path @ ''/tables/:tableId/assign/:guestId'', NeedEventPermission PermSeatingWrite),
      (''POST'', event_path @ ''/zones'', NeedEventPermission PermSeatingWrite),
      (''GET'', event_path @ ''/zones'', NeedEventPermission PermSeatingRead),
      (''GET'', event_path @ ''/seating/layout'', NeedEventPermission PermSeatingRead),
      (''POST'', event_path @ ''/seating/auto-assign'', NeedEventPermission PermSeatingWrite),
      (''POST'', tenant_path @ ''/templates'', NeedPermission PermCommunicationWrite),
      (''POST'', tenant_path @ ''/templates/defaults'', NeedPermission PermCommunicationWrite),
      (''GET'', tenant_path @ ''/templates'', NeedPermission PermCommunicationRead),
      (''GET'', tenant_path @ ''/templates/:templateId'', NeedPermission PermCommunicationRead),
      (''PATCH'', tenant_path @ ''/templates/:templateId'', NeedPermission PermCommunicationWrite),
      (''DELETE'', tenant_path @ ''/templates/:templateId'', NeedPermission PermCommunicationWrite),
      (''GET'', tenant_path @ ''/integrations/whatsapp'', NeedPermission PermSettingsRead),
      (''PATCH'', tenant_path @ ''/integrations/whatsapp'', NeedPermission PermSettingsWrite),
      (''POST'', tenant_path @ ''/integrations/whatsapp/pair'', NeedPermission PermSettingsWrite),
      (''GET'', tenant_path @ ''/integrations/whatsapp/qr'', NeedPermission PermSettingsRead),
      (''POST'', tenant_path @ ''/integrations/whatsapp/test'', NeedPermission PermSettingsWrite),
      (''POST'', tenant_path @ ''/integrations/whatsapp/logout'', NeedPermission PermSettingsWrite),
      (''GET'', ''/api/v1/billing/subscription'', NeedBilling PermBillingRead),
      (''POST'', ''/api/v1/billing/checkout'', NeedBilling PermBillingWrite),
      (''GET'', ''/api/v1/billing/history'', NeedBilling PermBillingRead),
      (''POST'', event_path @ ''/messages/send'', NeedEventPermission PermCommunicationSend),
      (''GET'', event_path @ ''/messages'', NeedEventPermission PermCommunicationRead),
      (''POST'', event_path @ ''/messages/:messageId/retry'', NeedEventPermission PermCommunicationSend)]
   @ (if campaignsEnabled then
     [(''POST'', event_path @ ''/campaigns'', NeedEventPermission PermCommunicationWrite),
      (''GET'', event_path @ ''/campaigns'', NeedEventPermission PermCommunicationRead),
      (''POST'', event_path @ ''/campaigns/:campaignId/launch'', NeedEventPermission PermCommunicationSend),
      (''POST'', event_path @ ''/campaigns/:campaignId/cancel'', NeedEventPermission PermCommunicationWrite)] else [])
   @ [(''GET'', event_path @ ''/dashboard'', NeedEventPermission PermReportRead),
      (''GET'', event_path @ ''/dashboard/stream'', NeedEventPermission PermReportRead)]"

section \<open>What a chain lets through\<close>

text \<open>
  A refused request leaves the database as it was. A handler is reached in a world with the same
  database, the clock and the cache of permissions apart.
\<close>

definition refused :: "process world \<Rightarrow> err + 'a response \<Rightarrow> process world \<Rightarrow> bool" where
  "refused w r w' \<longleftrightarrow> (\<exists>status msg. r = Inr (Refused status msg)) \<and> database (store w') = database (store w)"

definition same_data :: "process world \<Rightarrow> process world \<Rightarrow> bool" where
  "same_data w v \<longleftrightarrow> database (store v) = database (store w) \<and> coherent (store v)"

locale middleware =
  fixes around :: "'a handler \<Rightarrow> 'a handler"
    and admits :: "request \<Rightarrow> http_context \<Rightarrow> process world \<Rightarrow> http_context \<Rightarrow> bool"
  assumes passes: "around h rq cx w = (r, w') \<Longrightarrow> coherent (store w) \<Longrightarrow>
    refused w r w' \<or> (\<exists>cx' v. admits rq cx w cx' \<and> same_data w v \<and> h rq cx' v = (r, w'))"

text \<open>Two middlewares, the second within the first.\<close>

locale middleware_chain = outer: middleware outer outer_admits + inner: middleware inner inner_admits
  for outer :: "'a handler \<Rightarrow> 'a handler" and outer_admits and inner :: "'a handler \<Rightarrow> 'a handler" and inner_admits
begin

lemma chain_passes:
  assumes "outer (inner h) rq cx w = (r, w')" and "coherent (store w)"
  shows "refused w r w' \<or> (\<exists>cx2 v. (\<exists>cx1 u. outer_admits rq cx w cx1 \<and> same_data w u
    \<and> inner_admits rq cx1 u cx2) \<and> same_data w v \<and> h rq cx2 v = (r, w'))"
proof (cases "refused w r w'")
  case False
  with outer.passes [OF assms] obtain cx1 u where o: "outer_admits rq cx w cx1" "same_data w u"
    and run: "inner h rq cx1 u = (r, w')" by blast
  from o(2) have "coherent (store u)" by (simp add: same_data_def)
  from inner.passes [OF run this] o(2) False obtain cx2 v where
    "inner_admits rq cx1 u cx2" "same_data u v" "h rq cx2 v = (r, w')"
    by (auto simp: refused_def same_data_def)
  with o show ?thesis by (auto simp: same_data_def)
qed simp

end

sublocale middleware_chain \<subseteq> chain: middleware "\<lambda>h. outer (inner h)"
  "\<lambda>rq cx w cx2. \<exists>cx1 u. outer_admits rq cx w cx1 \<and> same_data w u \<and> inner_admits rq cx1 u cx2"
  by unfold_locales (rule chain_passes)

text \<open>The bearer of an access token that the parser accepts at the time \<open>t\<close>.\<close>

definition bears :: "guard_env \<Rightarrow> time \<Rightarrow> request \<Rightarrow> claims \<Rightarrow> bool" where
  "bears g t rq c \<longleftrightarrow> extractBearerToken rq \<noteq> []
     \<and> ge_parse g (hmac_key (js_accessSecret (ge_jwt g))) t (extractBearerToken rq) = JWTClaims c True"

lemma ValidateAccessToken_Inr:
  "ValidateAccessToken g tok w = (Inr c, w') \<longleftrightarrow> w' = tick w
     \<and> ge_parse g (hmac_key (js_accessSecret (ge_jwt g))) (clock w (pos w)) tok = JWTClaims c True"
  by (auto simp: ValidateAccessToken_def validateToken_def go_run split: jwt_outcome.splits)

lemma ValidateAccessToken_Inl: "ValidateAccessToken g tok w = (Inl e, w') \<Longrightarrow> w' = tick w"
  by (auto simp: ValidateAccessToken_def validateToken_def go_run split: jwt_outcome.splits if_splits)

abbreviation by_token :: "guard_env \<Rightarrow> request \<Rightarrow> http_context \<Rightarrow> process world \<Rightarrow> http_context \<Rightarrow> bool" where
  "by_token g \<equiv> \<lambda>rq cx w cx'. \<exists>c. bears g (clock w (pos w)) rq c \<and> cx' = cx\<lparr>cx_Claims := Some c\<rparr>"

interpretation authenticated: middleware "JWTAuth g"
  "by_token g" for g
proof
  fix h :: "'a handler" and rq cx w r w'
  assume run: "JWTAuth g h rq cx w = (r, w')" and coh: "coherent (store w)"
  show "refused w r w' \<or> (\<exists>cx' v. (\<exists>c. bears g (clock w (pos w)) rq c \<and> cx' = cx\<lparr>cx_Claims := Some c\<rparr>)
    \<and> same_data w v \<and> h rq cx' v = (r, w'))"
  proof (cases "extractBearerToken rq = []")
    case True
    with run show ?thesis by (auto simp: JWTAuth_def refuse_def refused_def)
  next
    case False
    obtain s v where v: "ValidateAccessToken g (extractBearerToken rq) w = (s, v)" by fastforce
    then have "v = tick w" by (cases s) (auto simp: ValidateAccessToken_Inr dest: ValidateAccessToken_Inl)
    with run v False coh show ?thesis
      by (cases s) (auto simp: JWTAuth_def refuse_def refused_def go_try_run same_data_def bears_def
          ValidateAccessToken_Inr)
  qed
qed

text \<open>What the lookups of a middleware leave alone.\<close>

lemma on_db_pure_run:
  assumes "stays (=) m" and "on_db m w = (r, w')" and "coherent (store w)"
  shows "same_data w w'"
  using staysD [OF on_db_stays [OF assms(1)] assms(2)] assms(3) by (simp add: same_data_def coherent_def)

lemma validateTenantExists_pure: "stays (=) (validateTenantExists t b)"
  unfolding validateTenantExists_def by (rule unchanged.all_stays)

lemma refuse_refused: "same_data w v \<Longrightarrow> refuse status msg v = (r, w') \<Longrightarrow> refused w r w'"
  by (auto simp: refuse_def refused_def same_data_def)

text \<open>A tenant that a request may act in: it exists, is not deleted, and is not shut out.\<close>

definition open_tenant :: "bool \<Rightarrow> uuid \<Rightarrow> db \<Rightarrow> bool" where
  "open_tenant billing t d \<longleftrightarrow> (\<exists>x \<in> set (tenants d). ID x = t \<and> live x
     \<and> (t_Status x \<in> {TenantStatusActive, TenantStatusTrial} \<or> billing \<and> t_Status x = TenantStatusSuspended))"

lemma validateTenantExists_Inr:
  "validateTenantExists t b w = (Inr ok, w') \<Longrightarrow> ok = open_tenant b t (store w)"
  by (auto simp: validateTenantExists_def query_eq open_tenant_def list_ex_iff split: if_splits)

text \<open>The context that each middleware hands on, and when.\<close>

abbreviation by_permission :: "guard_env \<Rightarrow> string \<Rightarrow> request \<Rightarrow> http_context \<Rightarrow> process world \<Rightarrow> http_context \<Rightarrow> bool" where
  "by_permission g p \<equiv> \<lambda>rq cx w cx'. cx' = cx \<and> (\<exists>t. extractIDsForRBAC g rq cx = Some (t, GetUserID cx)
     \<and> p \<in> permitted t (GetUserID cx) (tenant_users (database (store w))))"

abbreviation by_role :: "guard_env \<Rightarrow> string list \<Rightarrow> request \<Rightarrow> http_context \<Rightarrow> process world \<Rightarrow> http_context \<Rightarrow> bool" where
  "by_role g roles \<equiv> \<lambda>rq cx w cx'. cx' = cx \<and> (\<exists>t role. extractIDsForRBAC g rq cx = Some (t, GetUserID cx)
     \<and> role_of t (GetUserID cx) (tenant_users (database (store w))) = Some role \<and> role \<in> set roles)"

abbreviation by_event_permission ::
  "guard_env \<Rightarrow> string \<Rightarrow> request \<Rightarrow> http_context \<Rightarrow> process world \<Rightarrow> http_context \<Rightarrow> bool" where
  "by_event_permission g p \<equiv> \<lambda>rq cx w cx'. cx' = cx \<and> GetUserID cx \<noteq> uuid_Nil \<and> (\<exists>t e. ge_uuid g (path_tenant rq) = Some t
     \<and> ge_uuid g (rq_Param rq ''eventId'') = Some e
     \<and> fst (EventAccessService_Authorize t e (GetUserID cx) p (db_world w)) = Inr ())"

abbreviation by_tenant :: "guard_env \<Rightarrow> request \<Rightarrow> http_context \<Rightarrow> process world \<Rightarrow> http_context \<Rightarrow> bool" where
  "by_tenant g \<equiv> \<lambda>rq cx w cx'. defaultTenantSkipper rq \<and> cx' = cx \<or> (\<exists>t. cx' = cx\<lparr>cx_TenantID := Some t\<rparr>
     \<and> open_tenant (strip_prefix ''/api/v1/billing/'' (rq_Path rq) \<noteq> None) t (database (store w))
     \<and> (path_tenant rq \<noteq> [] \<longrightarrow> ge_uuid g (path_tenant rq) = Some t)
     \<and> (rq_Header rq ''X-Tenant-ID'' \<noteq> [] \<longrightarrow> ge_uuid g (rq_Header rq ''X-Tenant-ID'') = Some t))"

interpretation permitted_in_tenant: middleware "RequirePermission g p"
  "by_permission g p" for g p
proof
  fix h :: "'a handler" and rq cx w r w'
  assume run: "RequirePermission g p h rq cx w = (r, w')" and coh: "coherent (store w)"
  show "refused w r w' \<or> (\<exists>cx' v. (cx' = cx \<and> (\<exists>t. extractIDsForRBAC g rq cx = Some (t, GetUserID cx)
     \<and> p \<in> permitted t (GetUserID cx) (tenant_users (database (store w)))))
     \<and> same_data w v \<and> h rq cx' v = (r, w'))"
  proof (cases "extractIDsForRBAC g rq cx")
    case None
    with run coh show ?thesis by (auto simp: RequirePermission_def refuse_def refused_def)
  next
    case (Some ids)
    then obtain t where ids: "extractIDsForRBAC g rq cx = Some (t, GetUserID cx)"
      by (auto simp: extractIDsForRBAC_def split: option.splits if_splits)
    obtain s v where e: "rbac_EnforcePermission t (GetUserID cx) p w = (s, v)" by fastforce
    have v: "same_data w v" and perm: "s = Inr () \<Longrightarrow> p \<in> permitted t (GetUserID cx) (tenant_users (database (store w)))"
      using EnforcePermission_run [OF e coh] by (auto simp: same_data_def)
    show ?thesis
    proof (cases s)
      case (Inl err)
      with run ids e v show ?thesis
        by (auto simp: RequirePermission_def go_try_run intro: refuse_refused split: if_splits)
    next
      case (Inr u)
      with run ids e v perm show ?thesis by (auto simp: RequirePermission_def go_try_run)
    qed
  qed
qed

interpretation role_in_tenant: middleware "RequireRole g roles"
  "by_role g roles" for g roles
proof
  fix h :: "'a handler" and rq cx w r w'
  assume run: "RequireRole g roles h rq cx w = (r, w')" and coh: "coherent (store w)"
  show "refused w r w' \<or> (\<exists>cx' v. (cx' = cx \<and> (\<exists>t role. extractIDsForRBAC g rq cx = Some (t, GetUserID cx)
     \<and> role_of t (GetUserID cx) (tenant_users (database (store w))) = Some role \<and> role \<in> set roles))
     \<and> same_data w v \<and> h rq cx' v = (r, w'))"
  proof (cases "extractIDsForRBAC g rq cx")
    case None
    with run coh show ?thesis by (auto simp: RequireRole_def refuse_def refused_def)
  next
    case (Some ids)
    then obtain t where ids: "extractIDsForRBAC g rq cx = Some (t, GetUserID cx)"
      by (auto simp: extractIDsForRBAC_def split: option.splits if_splits)
    obtain s v where e: "load_permissions t (GetUserID cx) w = (s, v)" by fastforce
    have v: "same_data w v" and role: "\<And>role perms. s = Inr (role, perms) \<Longrightarrow>
        role_of t (GetUserID cx) (tenant_users (database (store w))) = Some role"
      using load_permissions_run [OF e coh] by (auto simp: same_data_def)
    show ?thesis
    proof (cases s)
      case (Inl err)
      with run ids e v show ?thesis
        by (auto simp: RequireRole_def rbac_GetRole_def go_try_run go_bind_run intro: refuse_refused split: if_splits)
    next
      case (Inr rp)
      then obtain role perms where "s = Inr (role, perms)" by (cases rp) simp
      with run ids e v role show ?thesis
        by (auto simp: RequireRole_def rbac_GetRole_def go_try_run go_bind_run list_ex_iff
            intro: refuse_refused split: if_splits)
    qed
  qed
qed

interpretation permitted_in_event: middleware "RequireEventPermission g p"
  "by_event_permission g p" for g p
proof
  fix h :: "'a handler" and rq cx w r w'
  assume run: "RequireEventPermission g p h rq cx w = (r, w')" and coh: "coherent (store w)"
  show "refused w r w' \<or> (\<exists>cx' v. (cx' = cx \<and> GetUserID cx \<noteq> uuid_Nil
     \<and> (\<exists>t e. ge_uuid g (path_tenant rq) = Some t \<and> ge_uuid g (rq_Param rq ''eventId'') = Some e
     \<and> fst (EventAccessService_Authorize t e (GetUserID cx) p (db_world w)) = Inr ()))
     \<and> same_data w v \<and> h rq cx' v = (r, w'))"
  proof (cases "\<exists>t e. ge_uuid g (path_tenant rq) = Some t \<and> ge_uuid g (rq_Param rq ''eventId'') = Some e
      \<and> GetUserID cx \<noteq> uuid_Nil")
    case False
    with run coh show ?thesis
      by (auto simp: RequireEventPermission_def refuse_def refused_def split: option.splits if_splits)
  next
    case True
    then obtain t e where ids: "ge_uuid g (path_tenant rq) = Some t"
      "ge_uuid g (rq_Param rq ''eventId'') = Some e" "GetUserID cx \<noteq> uuid_Nil" by blast
    obtain s v where a: "on_db (EventAccessService_Authorize t e (GetUserID cx) p) w = (s, v)" by fastforce
    have v: "same_data w v" by (rule on_db_pure_run [OF Authorize_pure a coh])
    have s: "s = fst (EventAccessService_Authorize t e (GetUserID cx) p (db_world w))"
      using a by (auto simp: on_db_eq)
    show ?thesis
    proof (cases s)
      case (Inl err)
      with run ids a v show ?thesis
        by (auto simp: RequireEventPermission_def go_try_run intro: refuse_refused split: if_splits)
    next
      case (Inr u)
      then have ok: "fst (EventAccessService_Authorize t e (GetUserID cx) p (db_world w)) = Inr ()"
        using s by simp
      from run ids a Inr have "h rq cx v = (r, w')" by (simp add: RequireEventPermission_def go_try_run)
      with ids ok v show ?thesis by blast
    qed
  qed
qed

interpretation resolved_tenant: middleware "TenantResolver g"
  "by_tenant g" for g
proof
  fix h :: "'a handler" and rq cx w r w'
  assume run: "TenantResolver g h rq cx w = (r, w')" and coh: "coherent (store w)"
  let ?billing = "strip_prefix ''/api/v1/billing/'' (rq_Path rq) \<noteq> None"
  let ?ok = "\<lambda>t. (path_tenant rq \<noteq> [] \<longrightarrow> ge_uuid g (path_tenant rq) = Some t)
     \<and> (rq_Header rq ''X-Tenant-ID'' \<noteq> [] \<longrightarrow> ge_uuid g (rq_Header rq ''X-Tenant-ID'') = Some t)"
  have same: "same_data w w" using coh by (simp add: same_data_def)
  show "refused w r w' \<or> (\<exists>cx' v. (defaultTenantSkipper rq \<and> cx' = cx
      \<or> (\<exists>t. cx' = cx\<lparr>cx_TenantID := Some t\<rparr> \<and> open_tenant ?billing t (database (store w)) \<and> ?ok t))
     \<and> same_data w v \<and> h rq cx' v = (r, w'))"
  proof (cases "defaultTenantSkipper rq")
    case True
    with run same show ?thesis by (auto simp: TenantResolver_def)
  next
    case False
    let ?validate = "\<lambda>t. go_try (on_db (validateTenantExists t ?billing)) (\<lambda>s. case s of
        Inl _ \<Rightarrow> refuse 500 ''Failed to validate tenant''
      | Inr valid \<Rightarrow> if valid then h rq (cx\<lparr>cx_TenantID := Some t\<rparr>) else invalid_tenant)"
    from run False have "(\<exists>status msg. refuse status msg w = (r, w')) \<or> (\<exists>t. ?ok t \<and> ?validate t w = (r, w'))"
      by (auto simp: TenantResolver_def Let_def split: if_splits option.splits)
    then show ?thesis
    proof (elim disjE exE conjE)
      fix t assume ok: "path_tenant rq \<noteq> [] \<longrightarrow> ge_uuid g (path_tenant rq) = Some t"
        "rq_Header rq ''X-Tenant-ID'' \<noteq> [] \<longrightarrow> ge_uuid g (rq_Header rq ''X-Tenant-ID'') = Some t"
        and val: "?validate t w = (r, w')"
      obtain s v where a: "on_db (validateTenantExists t ?billing) w = (s, v)" by fastforce
      have v: "same_data w v" by (rule on_db_pure_run [OF validateTenantExists_pure a coh])
      have s: "s = Inr b \<Longrightarrow> b = open_tenant ?billing t (database (store w))" for b
        using a validateTenantExists_Inr by (fastforce simp: on_db_eq)
      show ?thesis
      proof (cases "s = Inr True")
        case True
        with val a have "h rq (cx\<lparr>cx_TenantID := Some t\<rparr>) v = (r, w')" by (simp add: go_try_run)
        with s [OF True] ok v show ?thesis by blast
      next
        case False
        with val a v show ?thesis
          by (auto simp: go_try_run intro: refuse_refused split: sum.splits if_splits)
      qed
    qed (use refuse_refused [OF same] in blast)
  qed
qed

interpretation tenant_chain: middleware_chain "JWTAuth g"
  "by_token g" "RequirePermission g p"
  "by_permission g p" for g p ..

interpretation role_chain: middleware_chain "JWTAuth g"
  "by_token g" "RequireRole g roles"
  "by_role g roles" for g roles ..

interpretation event_chain: middleware_chain "JWTAuth g" "by_token g" "RequireEventPermission g p"
  "by_event_permission g p" for g p ..

interpretation tenant_permission_chain: middleware_chain "TenantResolver g" "by_tenant g" "RequirePermission g p"
  "by_permission g p" for g p ..

interpretation billing_chain: middleware_chain "JWTAuth g" "by_token g" "\<lambda>h. TenantResolver g (RequirePermission g p h)"
  "\<lambda>rq cx w cx2. \<exists>cx1 u. by_tenant g rq cx w cx1 \<and> same_data w u \<and> by_permission g p rq cx1 u cx2" for g p ..

section \<open>Who reaches a handler\<close>

definition no_context :: http_context where
  "no_context = \<lparr>cx_Claims = None, cx_TenantID = None\<rparr>"

text \<open>The user \<open>u\<close> may make the request \<open>rq\<close> to a route with the guard \<open>k\<close>.\<close>

definition cleared :: "guard_env \<Rightarrow> guard \<Rightarrow> request \<Rightarrow> uuid \<Rightarrow> db \<Rightarrow> bool" where
  "cleared g k rq u d = (case k of
     NoGuard \<Rightarrow> True
   | Authenticated \<Rightarrow> True
   | NeedPermission p \<Rightarrow> (\<exists>t. ge_uuid g (rq_Param rq ''id'') = Some t \<and> p \<in> permitted t u (tenant_users d))
   | NeedRole rs \<Rightarrow> (\<exists>t role. ge_uuid g (rq_Param rq ''id'') = Some t
       \<and> role_of t u (tenant_users d) = Some role \<and> role \<in> set rs)
   | NeedEventPermission p \<Rightarrow> (\<exists>t e. ge_uuid g (path_tenant rq) = Some t
       \<and> ge_uuid g (rq_Param rq ''eventId'') = Some e \<and> may_act t e u p d)
   | NeedBilling p \<Rightarrow> (\<exists>t. p \<in> permitted t u (tenant_users d)
       \<and> open_tenant (strip_prefix ''/api/v1/billing/'' (rq_Path rq) \<noteq> None) t d
       \<and> (rq_Header rq ''X-Tenant-ID'' \<noteq> [] \<longrightarrow> ge_uuid g (rq_Header rq ''X-Tenant-ID'') = Some t)))"

lemma GetUserID_claims [simp]: "GetUserID (cx\<lparr>cx_Claims := Some c\<rparr>) = cl_UserID c"
  "GetUserID (cx\<lparr>cx_TenantID := t\<rparr>) = GetUserID cx"
  by (simp_all add: GetUserID_def)

text \<open>Without a resolved tenant, the tenant of the checks is the one of the path.\<close>

lemma path_ids:
  "cx_TenantID cx = None \<Longrightarrow> extractIDsForRBAC g rq cx = Some (t, u) \<Longrightarrow> ge_uuid g (rq_Param rq ''id'') = Some t"
  by (auto simp: extractIDsForRBAC_def TenantIDFromContext_def split: option.splits if_splits)

lemma resolved_ids:
  "rq_Param rq ''id'' = [] \<Longrightarrow> extractIDsForRBAC g rq cx = Some (t, u) \<Longrightarrow> cx_TenantID cx = Some t"
  by (auto simp: extractIDsForRBAC_def TenantIDFromContext_def split: option.splits if_splits)

lemma chain_user:
  assumes "refused w r w' \<or> (\<exists>cx2 v. (\<exists>cx1 u. by_token g rq no_context w cx1 \<and> same_data w u \<and> A rq cx1 u cx2)
      \<and> same_data w v \<and> h rq cx2 v = (r, w'))"
    and adm: "\<And>c u cx. A rq (no_context\<lparr>cx_Claims := Some c\<rparr>) u cx \<Longrightarrow> same_data w u \<Longrightarrow>
      P c \<and> cx_Claims cx = Some c"
  shows "refused w r w' \<or> (\<exists>c cx v. bears g (clock w (pos w)) rq c \<and> P c \<and> cx_Claims cx = Some c
    \<and> same_data w v \<and> h rq cx v = (r, w'))"
  using assms(1)
proof (elim disjE exE conjE)
  fix cx v cx1 u c
  assume c: "bears g (clock w (pos w)) rq c" "cx1 = no_context\<lparr>cx_Claims := Some c\<rparr>"
    and u: "same_data w u" "A rq cx1 u cx" and v: "same_data w v" "h rq cx v = (r, w')"
  from adm [OF u(2) [unfolded c(2)] u(1)] c(1) v show ?thesis by blast
qed simp

lemma guarded_run:
  assumes run: "guarded g k h rq no_context w = (r, w')" and k: "k \<noteq> NoGuard"
    and coh: "coherent (store w)" and members: "members_ok (tenant_users (database (store w)))"
    and staff: "staff_ok (event_members (database (store w)))"
    and billing: "\<forall>p. k = NeedBilling p \<longrightarrow> rq_Param rq ''id'' = []"
  shows "refused w r w' \<or> (\<exists>c cx v. bears g (clock w (pos w)) rq c
    \<and> cleared g k rq (cl_UserID c) (database (store w)) \<and> cx_Claims cx = Some c
    \<and> same_data w v \<and> h rq cx v = (r, w'))"
proof (cases k)
  case NoGuard
  with k show ?thesis by simp
next
  case Authenticated
  then show ?thesis using authenticated.passes [of g h rq no_context w r w'] run coh
    by (force simp: guarded_def cleared_def)
next
  case (NeedPermission p)
  have adm: "cleared g k rq (cl_UserID c) (database (store w)) \<and> cx_Claims cx = Some c"
    if "by_permission g p rq (no_context\<lparr>cx_Claims := Some c\<rparr>) u cx" "same_data w u" for c u cx
    using that NeedPermission by (auto simp: cleared_def same_data_def no_context_def GetUserID_def dest!: path_ids [rotated])
  have chain: "JWTAuth g (RequirePermission g p h) rq no_context w = (r, w')" using run NeedPermission by (simp add: guarded_def tenant_route_def)
  show ?thesis
    by (rule chain_user [where A = "by_permission g p"
      and P = "\<lambda>c. cleared g k rq (cl_UserID c) (database (store w))" and h = h and g = g and rq = rq
      and w = w and r = r and w' = w', OF tenant_chain.chain_passes [OF chain coh]]) (rule adm)
next
  case (NeedRole rs)
  have adm: "cleared g k rq (cl_UserID c) (database (store w)) \<and> cx_Claims cx = Some c"
    if "by_role g rs rq (no_context\<lparr>cx_Claims := Some c\<rparr>) u cx" "same_data w u" for c u cx
    using that NeedRole by (auto simp: cleared_def same_data_def no_context_def GetUserID_def dest!: path_ids [rotated])
  have chain: "JWTAuth g (RequireRole g rs h) rq no_context w = (r, w')" using run NeedRole by (simp add: guarded_def role_route_def)
  show ?thesis
    by (rule chain_user [where A = "by_role g rs"
      and P = "\<lambda>c. cleared g k rq (cl_UserID c) (database (store w))" and h = h and g = g and rq = rq
      and w = w and r = r and w' = w', OF role_chain.chain_passes [OF chain coh]]) (rule adm)
next
  case (NeedEventPermission p)
  have act: "fst (EventAccessService_Authorize t e u p (db_world v)) = Inr () \<Longrightarrow> same_data w v \<Longrightarrow>
      may_act t e u p (database (store w))" for t e u v
    using Authorize_may(1) [of "db_world v" t e u p] members staff by (simp add: same_data_def)
  have adm: "cleared g k rq (cl_UserID c) (database (store w)) \<and> cx_Claims cx = Some c"
    if "by_event_permission g p rq (no_context\<lparr>cx_Claims := Some c\<rparr>) u cx" "same_data w u" for c u cx
    using that NeedEventPermission by (auto simp: cleared_def same_data_def no_context_def GetUserID_def dest!: act [OF _ that(2)])
  have chain: "JWTAuth g (RequireEventPermission g p h) rq no_context w = (r, w')" using run NeedEventPermission by (simp add: guarded_def event_route_def)
  show ?thesis
    by (rule chain_user [where A = "by_event_permission g p"
      and P = "\<lambda>c. cleared g k rq (cl_UserID c) (database (store w))" and h = h and g = g and rq = rq
      and w = w and r = r and w' = w', OF event_chain.chain_passes [OF chain coh]]) (rule adm)
next
  case (NeedBilling p)
  then have id: "rq_Param rq ''id'' = []" using billing by blast
  have adm: "cleared g k rq (cl_UserID c) (database (store w)) \<and> cx_Claims cx = Some c"
    if "(\<lambda>rq cx w cx2. \<exists>cx1 u. by_tenant g rq cx w cx1 \<and> same_data w u \<and> by_permission g p rq cx1 u cx2) rq (no_context\<lparr>cx_Claims := Some c\<rparr>) u cx" "same_data w u" for c u cx
    using that NeedBilling by (auto simp: cleared_def same_data_def no_context_def GetUserID_def dest!: resolved_ids [OF id])
  have chain: "JWTAuth g (TenantResolver g (RequirePermission g p h)) rq no_context w = (r, w')" using run NeedBilling by (simp add: guarded_def billing_route_def)
  show ?thesis
    by (rule chain_user [where A = "\<lambda>rq cx w cx2. \<exists>cx1 u. by_tenant g rq cx w cx1 \<and> same_data w u \<and> by_permission g p rq cx1 u cx2"
      and P = "\<lambda>c. cleared g k rq (cl_UserID c) (database (store w))" and h = h and g = g and rq = rq
      and w = w and r = r and w' = w', OF billing_chain.chain_passes [OF chain coh]]) (rule adm)
qed

text \<open>C9: Behind every chain of middleware, a request is either refused, and then the database is as it
  was, or its handler runs for the bearer of an access token that is valid at that moment, who is
  permitted what the route asks for: the tenant permission in the tenant of the path, one of the
  roles, the permission in the event of the path, or for billing the permission in a tenant of the
  header that is active, on trial or, on the billing paths, suspended. The handler starts on the same
  data and sees the user of the token. This holds whatever statement fails and whatever the cache of
  permissions holds, as long as it is not stale.\<close>

theorem handlers_run_only_for_the_permitted:
  assumes "guarded g k h rq no_context w = (r, w')" and "k \<noteq> NoGuard"
    and "coherent (store w)" and "members_ok (tenant_users (database (store w)))"
    and "staff_ok (event_members (database (store w)))"
    and "\<forall>p. k = NeedBilling p \<longrightarrow> rq_Param rq ''id'' = []"
  shows "refused w r w' \<or> (\<exists>c cx v. bears g (clock w (pos w)) rq c
    \<and> cleared g k rq (cl_UserID c) (database (store w)) \<and> cx_Claims cx = Some c
    \<and> same_data w v \<and> h rq cx v = (r, w'))"
  by (rule guarded_run [OF assms])

section \<open>The route table\<close>

definition role_denied :: "string \<Rightarrow> guard \<Rightarrow> bool" where
  "role_denied role k = (case k of
     NeedPermission p \<Rightarrow> p \<notin> set (GetPermissionsForRole role)
   | NeedRole rs \<Rightarrow> role \<notin> set rs
   | NeedEventPermission p \<Rightarrow> p \<notin> set (GetPermissionsForRole role)
   | NeedBilling p \<Rightarrow> p \<notin> set (GetPermissionsForRole role)
   | _ \<Rightarrow> False)"

lemma viewer_routes:
  "list_all (\<lambda>(meth, path, k). meth = ''GET'' \<or> k = NoGuard \<or> k = Authenticated \<or> role_denied RoleViewer k)
     (RegisterRoutes True True True)"
  by code_simp

lemma optional_subset: "set (if a then xs else []) \<subseteq> set (if True then xs else [])"
  by auto

lemma routes_subset: "set (RegisterRoutes a b c) \<subseteq> set (RegisterRoutes True True True)"
  unfolding RegisterRoutes_def set_append by (intro Un_mono optional_subset order_refl)

text \<open>A viewer acts on an event with the permissions of a viewer.\<close>

lemma viewer_may_act:
  assumes "may_act t e u p d" and "role_of t u (tenant_users d) \<in> {None, Some RoleViewer}"
    and "\<forall>s \<in> set (event_members d). em_UserID s = u \<longrightarrow> em_Role s = RoleViewer"
    and "members_ok (tenant_users d)"
  shows "p \<in> set (GetPermissionsForRole RoleViewer)"
proof -
  from assms(1) obtain m where m: "m \<in> set (tenant_users d)" "active_member t u m"
    and may: "if m_Role m \<in> {RoleTenantOwner, RoleEventManager} then p \<in> set (GetPermissionsForRole (m_Role m))
      else \<exists>s \<in> set (event_members d). staff_key t e u s \<and> em_Status s = EventMemberStatusActive
        \<and> p \<in> set (GetPermissionsForRole (em_Role s))"
    unfolding may_act_def by blast
  from role_of_row [OF assms(4) m(1)] m(2) have "role_of t u (tenant_users d) = Some (m_Role m)"
    by (simp add: active_member_def)
  with assms(2) have "m_Role m = RoleViewer" by simp
  with may assms(3) show ?thesis by (auto simp: staff_key_def)
qed

text \<open>C10: A viewer changes nothing: whichever of the declared routes is called with another method than
  \<open>GET\<close> below a tenant, a request that bears the token of a user whose only role in any tenant, and in
  any event, is that of a viewer is refused, and the database stays as it was.\<close>

theorem viewers_cannot_write:
  assumes "(meth, path, k) \<in> set (RegisterRoutes gowa github campaignsEnabled)" and "meth \<noteq> ''GET''"
    and "k \<noteq> NoGuard" and "k \<noteq> Authenticated"
    and "guarded g k h rq no_context w = (r, w')"
    and "\<forall>c. bears g (clock w (pos w)) rq c \<longrightarrow> cl_UserID c = u"
    and "\<forall>t. role_of t u (tenant_users (database (store w))) \<in> {None, Some RoleViewer}"
    and "\<forall>s \<in> set (event_members (database (store w))). em_UserID s = u \<longrightarrow> em_Role s = RoleViewer"
    and "coherent (store w)" and "members_ok (tenant_users (database (store w)))"
    and "staff_ok (event_members (database (store w)))"
    and "\<forall>p. k = NeedBilling p \<longrightarrow> rq_Param rq ''id'' = []"
  shows "refused w r w'"
proof (rule ccontr)
  let ?d = "database (store w)"
  assume "\<not> refused w r w'"
  with guarded_run [OF assms(5,3,9-12)] assms(6) have ok: "cleared g k rq u ?d" by blast
  have no: "role_denied RoleViewer k"
    using viewer_routes routes_subset assms(1-4) unfolding list_all_iff by blast
  have roles: "role = RoleViewer" if "role_of t u (tenant_users ?d) = Some role" for t role
    using assms(7) [THEN spec [of _ t]] that by simp
  have perms: "permitted t u (tenant_users ?d) \<subseteq> set (GetPermissionsForRole RoleViewer)" for t
    using assms(7) [THEN spec [of _ t]] by (auto simp: permitted_def)
  have act: "p \<in> set (GetPermissionsForRole RoleViewer)" if "may_act t e u p ?d" for t e p
    by (rule viewer_may_act [OF that assms(7) [THEN spec] assms(8,10)])
  show False
  proof (cases k)
    case (NeedPermission p)
    with ok no perms show ?thesis by (auto simp: cleared_def role_denied_def)
  next
    case (NeedRole rs)
    with ok no roles show ?thesis by (auto simp: cleared_def role_denied_def)
  next
    case (NeedEventPermission p)
    with ok no act show ?thesis by (auto simp: cleared_def role_denied_def)
  next
    case (NeedBilling p)
    with ok no perms show ?thesis by (auto simp: cleared_def role_denied_def)
  qed (use assms(3,4) in auto)
qed

section \<open>Concrete requests\<close>

definition demo_claims :: claims where
  "demo_claims = \<lparr>cl_UserID = 2, cl_Email = ''u@x'', cl_TenantID = 0, cl_Role = [], cl_ExpiresAt = 10 ^ 12,
     cl_IssuedAt = 0, cl_NotBefore = 0, cl_Issuer = ''guestflow'', cl_Subject = uuid_String 2, cl_ID = []\<rparr>"

definition demo_guard :: guard_env where
  "demo_guard = \<lparr>ge_jwt = NewJWTService ''a'' ''r'' 0 0,
     ge_parse = (\<lambda>key t tok. if tok = ''tok'' \<and> key True = Some ''a'' then
       (if t < 10 ^ 12 then JWTClaims demo_claims True else JWTExpired) else JWTMalformed),
     ge_uuid = (\<lambda>s. if s = ''1'' then Some 1 else if s = ''3'' then Some 3 else None)\<rparr>"

definition demo_http :: request where
  "demo_http = \<lparr>rq_Header = (\<lambda>n. if n = ''Authorization'' then ''Bearer tok'' else []),
     rq_Param = (\<lambda>n. if n = ''id'' then ''1'' else if n = ''eventId'' then ''3'' else []),
     rq_Path = ''/api/v1/tenants/1/events/3/checkin'', rq_Method = ''POST''\<rparr>"

definition demo_process :: "db \<Rightarrow> process world" where
  "demo_process d = demo_world \<lparr>database = d, cache = (\<lambda>_. None)\<rparr>"

lemma demo_bearer: "extractBearerToken demo_http = ''tok''"
  by code_simp

lemma demo_bears: "bears demo_guard (clock (demo_process d) 0) demo_http c \<longleftrightarrow> c = demo_claims"
  by (auto simp: bears_def demo_bearer demo_guard_def hmac_key_def NewJWTService_def demo_process_def)

lemma demo_process_simps:
  "coherent (store (demo_process d))" "database (store (demo_process d)) = d" "pos (demo_process d) = 0"
  "faults (demo_process d) = (\<lambda>_. False)"
  by (simp_all add: demo_process_def coherent_def)

lemma demo_ids:
  "ge_uuid demo_guard ''1'' = Some 1" "ge_uuid demo_guard ''3'' = Some 3" "path_tenant demo_http = ''1''"
  "rq_Param demo_http ''id'' = ''1''" "rq_Param demo_http ''eventId'' = ''3''" "cl_UserID demo_claims = 2"
  by (simp_all add: demo_guard_def demo_http_def path_tenant_def demo_claims_def)

lemma demo_event_request:
  "fst (guarded demo_guard (NeedEventPermission PermCheckinWrite) (\<lambda>rq cx. go_ret (Answered ())) demo_http
     no_context (demo_process staff_db)) = Inr (Answered ())"
proof -
  let ?w = "tick (demo_process staff_db)"
  have "ValidateAccessToken demo_guard ''tok'' (demo_process staff_db) = (Inr demo_claims, ?w)"
    by (simp add: ValidateAccessToken_Inr demo_guard_def hmac_key_def NewJWTService_def demo_process_def)
  moreover have "fst (EventAccessService_Authorize 1 3 2 PermCheckinWrite (db_world ?w)) = Inr ()"
    using Authorize_may(2) [of "db_world ?w" 1 3 2 PermCheckinWrite] staff_db_ok
    by (simp add: demo_process_simps may_act_def event_key_def demo_event_def active_member_def
        member_key_def demo_member_def staff_key_def demo_staff_def GetPermissionsForRole_def RolePermissions_def
        staff_db_tables)
  ultimately show ?thesis
    by (simp add: guarded_def event_route_def JWTAuth_def demo_bearer go_try_run RequireEventPermission_def
        on_db_def demo_ids case_prod_unfold)
qed

theorem handlers_run_only_for_the_permitted_witness:
  "\<exists>c. bears demo_guard (clock (demo_process staff_db) (pos (demo_process staff_db))) demo_http c
     \<and> cleared demo_guard (NeedEventPermission PermCheckinWrite) demo_http (cl_UserID c) staff_db"
proof -
  let ?h = "\<lambda>rq cx. go_ret (Answered ())"
  let ?run = "guarded demo_guard (NeedEventPermission PermCheckinWrite) ?h demo_http no_context (demo_process staff_db)"
  have "?run = (Inr (Answered ()), snd ?run)" by (rule prod_eqI) (simp_all add: demo_event_request)
  from handlers_run_only_for_the_permitted [OF this] staff_db_ok show ?thesis
    by (auto simp: demo_process_simps refused_def)
qed

definition viewer_db :: db where
  "viewer_db = demo_db\<lparr>tenant_users := [demo_member\<lparr>m_Role := RoleViewer\<rparr>], event_members := []\<rparr>"

theorem viewers_cannot_write_witness:
  "let run = guarded demo_guard (NeedPermission PermGuestWrite) (\<lambda>rq cx. go_ret (Answered ())) demo_http
     no_context (demo_process viewer_db) in refused (demo_process viewer_db) (fst run) (snd run)"
proof -
  have route: "(''POST'', tenant_path @ ''/guests'', NeedPermission PermGuestWrite) \<in> set (RegisterRoutes False False False)"
    by code_simp
  show ?thesis
    unfolding Let_def
    by (rule viewers_cannot_write [OF route, where u = 2 and g = demo_guard and rq = demo_http])
      (simp_all add: demo_process_simps demo_bears demo_ids viewer_db_def role_of_def members_ok_def staff_ok_def
        demo_member_def member_key_def)
qed

section \<open>From a login to a request\<close>

text \<open>A date of a token is a number of whole seconds (\<open>jwt.NumericDate\<close>).\<close>

definition whole_seconds :: "time \<Rightarrow> time" where
  "whole_seconds t = t div 10 ^ 9 * 10 ^ 9"

definition dated :: "claims \<Rightarrow> claims" where
  "dated c = c\<lparr>cl_ExpiresAt := whole_seconds (cl_ExpiresAt c), cl_IssuedAt := whole_seconds (cl_IssuedAt c),
     cl_NotBefore := whole_seconds (cl_NotBefore c)\<rparr>"

text \<open>
  What the package \<open>jwt\<close> documents: the parser accepts, between the two dates, a token that was signed
  with the same secret and a HMAC method, and returns its claims; a token is a word without spaces.
\<close>

definition parses_signed :: "auth_env \<Rightarrow> guard_env \<Rightarrow> bool" where
  "parses_signed s g \<longleftrightarrow> (\<forall>secret c tok t. ae_sign s secret c = Some tok \<longrightarrow> tok \<noteq> [] \<and> TrimSpace tok = tok \<and>
     (cl_NotBefore (dated c) \<le> t \<and> t < cl_ExpiresAt (dated c) \<longrightarrow>
       ge_parse g (hmac_key secret) t tok = JWTClaims (dated c) True))"

lemma whole_seconds_bounds: "whole_seconds t \<le> t" "t - 10 ^ 9 < whole_seconds t"
proof -
  have "whole_seconds t = t - t mod 10 ^ 9" unfolding whole_seconds_def by (rule minus_mod_eq_div_mult [symmetric])
  moreover have "0 \<le> t mod 10 ^ 9" "t mod 10 ^ 9 < (10 ^ 9 :: int)" by simp_all
  ultimately show "whole_seconds t \<le> t" "t - 10 ^ 9 < whole_seconds t" by linarith+
qed

lemma bearer_header: "strip_prefix ''Bearer '' (''Bearer '' @ tok) = Some tok"
  by simp

text \<open>C14: The access token that a login returns opens the guarded routes for the user who logged in, until
  at most a second before its lifetime is over: \<open>JWTAuth\<close> hands the request on to the handler, whose
  context shows that user's id and e-mail address.\<close>

theorem login_token_is_admitted:
  assumes "AuthService_Login s req w = (Inr (u, pair), w')" and "parses_signed s g"
    and "ge_jwt g = ae_jwtService s"
    and "rq_Header rq ''Authorization'' = ''Bearer '' @ tp_AccessToken pair"
    and "clock w (Suc (pos w)) \<le> clock v (pos v)"
    and "clock v (pos v) + 10 ^ 9 \<le> clock w (Suc (pos w)) + js_accessTTL (ae_jwtService s)"
  shows "\<exists>c. JWTAuth g h rq cx v = h rq (cx\<lparr>cx_Claims := Some c\<rparr>) (tick v)
    \<and> cl_UserID c = ID u \<and> cl_Email c = lr_Email req"
proof -
  let ?j = "ae_jwtService s" and ?t = "clock w (Suc (pos w))"
  from assms(1) obtain row a where row: "u_Email row = lr_Email req" "u = user_Sanitize row"
    and sign: "ae_sign s (js_accessSecret ?j) (access_claims ?j ?t (ID row) (u_Email row) uuid_Nil []) = Some a"
    and pair: "tp_AccessToken pair = a"
    by (rule Login_Inr) auto
  let ?c = "dated (access_claims ?j ?t (ID row) (u_Email row) uuid_Nil [])"
  have "cl_NotBefore ?c \<le> clock v (pos v)" "clock v (pos v) < cl_ExpiresAt ?c"
    using whole_seconds_bounds [of ?t] whole_seconds_bounds [of "?t + js_accessTTL ?j"] assms(5,6)
    by (simp_all add: dated_def access_claims_def)
  with assms(2) sign have "ge_parse g (hmac_key (js_accessSecret ?j)) (clock v (pos v)) a = JWTClaims ?c True"
    and tok: "a \<noteq> []" "TrimSpace a = a"
    unfolding parses_signed_def by blast+
  then have val: "ValidateAccessToken g a v = (Inr ?c, tick v)" by (simp add: ValidateAccessToken_Inr assms(3))
  have "extractBearerToken rq = a"
    by (simp only: extractBearerToken_def assms(4) pair Let_def bearer_header) (simp add: tok)
  with val tok(1) have "JWTAuth g h rq cx v = h rq (cx\<lparr>cx_Claims := Some ?c\<rparr>) (tick v)"
    by (simp add: JWTAuth_def go_try_run)
  moreover have "cl_UserID ?c = ID u" "cl_Email ?c = lr_Email req"
    using row by (simp_all add: dated_def access_claims_def user_Sanitize_def)
  ultimately show ?thesis by blast
qed

text \<open>A signer with two tokens, and the parser that reads them.\<close>

definition issued :: "string \<Rightarrow> claims" where
  "issued tok = (let j = NewJWTService ''a'' ''r'' 0 0 in if tok = ''A'' then access_claims j 1 2 ''u@x'' 0 []
     else (access_claims j 2 2 ''u@x'' 0 [])\<lparr>cl_ExpiresAt := 2 + js_refreshTTL j, cl_ID := uuid_String 103\<rparr>)"

definition sign_env :: auth_env where
  "sign_env = demo_env\<lparr>ae_sign := (\<lambda>secret c. if secret = ''a'' \<and> c = issued ''A'' then Some ''A''
     else if secret = ''r'' \<and> c = issued ''R'' then Some ''R'' else None)\<rparr>"

definition parse_env :: guard_env where
  "parse_env = demo_guard\<lparr>ge_parse := (\<lambda>key t tok.
     if (tok = ''A'' \<and> key True = Some ''a'' \<or> tok = ''R'' \<and> key True = Some ''r'')
       \<and> cl_NotBefore (dated (issued tok)) \<le> t \<and> t < cl_ExpiresAt (dated (issued tok))
     then JWTClaims (dated (issued tok)) True else JWTFailed)\<rparr>"

lemma trimmed_tokens: "TrimSpace ''A'' = ''A''" "TrimSpace ''R'' = ''R''"
  by code_simp+

lemma demo_parses: "parses_signed sign_env parse_env"
  by (simp add: parses_signed_def sign_env_def parse_env_def hmac_key_def trimmed_tokens)

lemma signed_login_run:
  "\<exists>u pair w'. AuthService_Login sign_env demo_login (demo_world quiet_db) = (Inr (u, pair), w')
     \<and> tp_AccessToken pair = ''A'' \<and> ID u = 2"
  by (simp add: AuthService_Login_def UserRepository_GetByEmail_def open_session_def GenerateTokenPair_def
      GenerateAccessToken_def generateRefreshToken_def sign_claims_def Create_run
      go_bind_run go_try_run go_guard_def get_one_def query_def now_def uuid_New_def Let_def tick_def
      account_eval demo_login_def quiet_db_def has_id_def raw_token_def created_row_def
      user_Sanitize_def sign_env_def issued_def access_claims_def NewJWTService_def)

theorem login_token_is_admitted_witness:
  "\<exists>u pair w' c. AuthService_Login sign_env demo_login (demo_world quiet_db) = (Inr (u, pair), w')
     \<and> JWTAuth parse_env (\<lambda>rq cx. go_ret (Answered (GetUserID cx)))
         (demo_http\<lparr>rq_Header := (\<lambda>n. ''Bearer '' @ tp_AccessToken pair)\<rparr>) no_context ((demo_process quiet_db)\<lparr>pos := 20\<rparr>)
       = (Inr (Answered c), tick ((demo_process quiet_db)\<lparr>pos := 20\<rparr>)) \<and> c = ID u"
proof -
  obtain u pair w' where run: "AuthService_Login sign_env demo_login (demo_world quiet_db) = (Inr (u, pair), w')"
    using signed_login_run by blast
  from login_token_is_admitted [OF run demo_parses, of "demo_http\<lparr>rq_Header := (\<lambda>n. ''Bearer '' @ tp_AccessToken pair)\<rparr>"
      "(demo_process quiet_db)\<lparr>pos := 20\<rparr>" "\<lambda>rq cx. go_ret (Answered (GetUserID cx))" no_context] run
  show ?thesis
    by (auto simp: parse_env_def demo_guard_def sign_env_def demo_env_def demo_process_def NewJWTService_def minutes_def)
qed

end
