(* ===== verification/Calendar.thy ===== *)
theory Calendar
  imports Prelude
begin

text \<open>
  The part of the package \<open>time\<close> that billing needs: \<open>Time.AddDate\<close> in UTC, through the dates of the
  Gregorian calendar. The lemmas show that the conversion from days to dates is right, and how long a
  month and a year last.
\<close>

section \<open>The calendar\<close>

text \<open>
  Days from the Unix epoch and dates of the Gregorian calendar, years beginning in March; \<open>AddDate\<close>
  normalises a month beyond December and a day beyond the month's end, as \<open>time.Date\<close> does.
\<close>

definition day :: time where
  "day = 86400 * 10 ^ 9"

definition days_from_civil :: "int \<Rightarrow> int \<Rightarrow> int \<Rightarrow> int" where
  "days_from_civil y m d =
     (let y' = (if m \<le> 2 then y - 1 else y); mp = (if m \<le> 2 then m + 9 else m - 3) in
      365 * y' + y' div 4 - y' div 100 + y' div 400 + (153 * mp + 2) div 5 + d - 1 - 719468)"

definition civil_from_days :: "int \<Rightarrow> int \<times> int \<times> int" where
  "civil_from_days z =
     (let z' = z + 719468; era = z' div 146097; doe = z' mod 146097;
          yoe = (doe - doe div 1460 + doe div 36524 - doe div 146096) div 365;
          doy = doe - (365 * yoe + yoe div 4 - yoe div 100);
          mp = (5 * doy + 2) div 153; d = doy - (153 * mp + 2) div 5 + 1;
          m = (if mp < 10 then mp + 3 else mp - 9)
      in (yoe + era * 400 + (if m \<le> 2 then 1 else 0), m, d))"

definition AddDate :: "time \<Rightarrow> int \<Rightarrow> int \<Rightarrow> int \<Rightarrow> time" where
  "AddDate t years months days =
     (case civil_from_days (t div day) of (y, m, d) \<Rightarrow>
        let mm = m - 1 + months in
        (days_from_civil (y + years + mm div 12) (mm mod 12 + 1) 1 + (d - 1 + days)) * day + t mod day)"

section \<open>The calendar is right\<close>

lemma div_bounds:
  fixes x k :: int
  assumes "0 < k"
  shows "k * (x div k) \<le> x" and "x < k * (x div k) + k"
proof -
  have "x = k * (x div k) + x mod k" by simp
  moreover have "0 \<le> x mod k" "x mod k < k" using assms by simp_all
  ultimately show "k * (x div k) \<le> x" "x < k * (x div k) + k" by linarith+
qed

text \<open>The year and the day within a century of \<open>36524\<close> days.\<close>

lemma year_of_century:
  fixes b r :: int
  assumes b: "0 \<le> b" "b \<le> 3" and r: "0 \<le> r" "r < 36524"
  defines "e \<equiv> (24 * b + r) div 1460"
  defines "yy \<equiv> (r - e) div 365"
  shows "0 \<le> yy" and "yy < 100" and "0 \<le> r - (365 * yy + yy div 4)" and "r - (365 * yy + yy div 4) \<le> 365"
proof -
  define f where "f = yy div 4"
  have e: "1460 * e \<le> 24 * b + r" "24 * b + r < 1460 * e + 1460"
    using div_bounds [of 1460 "24 * b + r"] by (simp_all add: e_def)
  have y: "365 * yy \<le> r - e" "r - e < 365 * yy + 365"
    using div_bounds [of 365 "r - e"] by (simp_all add: yy_def)
  have f: "4 * f \<le> yy" "yy < 4 * f + 4" using div_bounds [of 4 yy] by (simp_all add: f_def)
  have e0: "0 \<le> e" "e \<le> 25" using e b r by linarith+
  show y0: "0 \<le> yy" using y e r e0 b by linarith
  show y1: "yy < 100"
  proof (cases "e = 25")
    case True
    then show ?thesis using y r by linarith
  next
    case False
    then show ?thesis using y e e0 b by linarith
  qed
  have "e \<le> f + 1" "f \<le> e" using e y f y0 y1 b e0 by linarith+
  then show "0 \<le> r - (365 * yy + yy div 4)" "r - (365 * yy + yy div 4) \<le> 365"
    unfolding f_def [symmetric] using y by linarith+
qed

lemma year_of_era:
  fixes doe :: int
  assumes "0 \<le> doe" and "doe < 146097"
  defines "yoe \<equiv> (doe - doe div 1460 + doe div 36524 - doe div 146096) div 365"
  shows "0 \<le> yoe \<and> yoe < 400 \<and> 0 \<le> doe - (365 * yoe + yoe div 4 - yoe div 100)
    \<and> doe - (365 * yoe + yoe div 4 - yoe div 100) \<le> 365"
proof (cases "doe = 146096")
  case True
  then show ?thesis by (simp add: yoe_def)
next
  case False
  define b where "b = doe div 36524"
  define r where "r = doe mod 36524"
  have doe: "doe = 36524 * b + r" by (simp add: b_def r_def)
  have r: "0 \<le> r" "r < 36524" by (simp_all add: r_def)
  have b: "0 \<le> b" "b \<le> 3" using doe r assms(1,2) False by linarith+
  let ?e = "(24 * b + r) div 1460"
  let ?yy = "(r - ?e) div 365"
  have "doe = (24 * b + r) + 25 * b * 1460" using doe by simp
  then have "doe div 1460 = ?e + 25 * b" by (metis add.commute div_mult_self3 zero_neq_numeral)
  moreover have "doe div 146096 = 0" using assms(1,2) False by simp
  ultimately have "doe - doe div 1460 + doe div 36524 - doe div 146096 = (r - ?e) + 100 * b * 365"
    using doe b_def by linarith
  then have yoe: "yoe = ?yy + 100 * b"
    unfolding yoe_def by (metis add.commute div_mult_self3 zero_neq_numeral)
  note yy = year_of_century [OF b r]
  have "?yy div 100 = 0" using yy(1,2) by simp
  then have "yoe div 100 = b" unfolding yoe by simp
  moreover have "yoe div 4 = ?yy div 4 + 25 * b"
    using div_mult_self3 [of 4 "25 * b" ?yy] by (simp add: yoe algebra_simps)
  ultimately have "doe - (365 * yoe + yoe div 4 - yoe div 100) = r - (365 * ?yy + ?yy div 4)"
    using doe yoe by linarith
  with yy b yoe show ?thesis by (intro conjI) linarith+
qed

lemma month_of_year:
  fixes doy :: int
  assumes "0 \<le> doy" and "doy \<le> 365"
  shows "0 \<le> (5 * doy + 2) div 153 \<and> (5 * doy + 2) div 153 \<le> 11"
  using assms div_bounds [of 153 "5 * doy + 2"] by linarith

lemma civil_days:
  assumes "civil_from_days z = (y, m, d)"
  shows "days_from_civil y m 1 + d - 1 = z" and "1 \<le> m" and "m \<le> 12"
proof -
  define z' where "z' = z + 719468"
  define era where "era = z' div 146097"
  define doe where "doe = z' mod 146097"
  define yoe where "yoe = (doe - doe div 1460 + doe div 36524 - doe div 146096) div 365"
  define doy where "doy = doe - (365 * yoe + yoe div 4 - yoe div 100)"
  define mp where "mp = (5 * doy + 2) div 153"
  have "0 \<le> doe" "doe < 146097" by (simp_all add: doe_def)
  from year_of_era [OF this] have yoe: "0 \<le> yoe" "yoe < 400" and doy: "0 \<le> doy" "doy \<le> 365"
    by (simp_all add: yoe_def doy_def)
  from month_of_year [OF doy] have mp: "0 \<le> mp" "mp \<le> 11" by (simp_all add: mp_def)
  have z: "z = 146097 * era + doe - 719468" by (simp add: era_def doe_def z'_def)
  have m: "m = (if mp < 10 then mp + 3 else mp - 9)"
    and y: "y = yoe + era * 400 + (if m \<le> 2 then 1 else 0)"
    and d: "d = doy - (153 * mp + 2) div 5 + 1"
    using assms unfolding civil_from_days_def Let_def z'_def [symmetric] era_def [symmetric] doe_def [symmetric]
      yoe_def [symmetric] doy_def [symmetric] mp_def [symmetric] by auto
  show "1 \<le> m" "m \<le> 12" using m mp by (auto split: if_splits)
  have "yoe div 400 = 0" using yoe by simp
  then have q: "(yoe + era * 400) div 400 = era" by simp
  have q4: "(yoe + era * 400) div 4 = yoe div 4 + 100 * era"
    using div_mult_self3 [of 4 "100 * era" yoe] by (simp add: algebra_simps)
  have q100: "(yoe + era * 400) div 100 = yoe div 100 + 4 * era"
    using div_mult_self3 [of 100 "4 * era" yoe] by (simp add: algebra_simps)
  have y': "(if m \<le> 2 then y - 1 else y) = yoe + era * 400" using y by simp
  have mp': "(if m \<le> 2 then m + 9 else m - 3) = mp" using m mp by (auto split: if_splits)
  show "days_from_civil y m 1 + d - 1 = z"
    unfolding days_from_civil_def Let_def y' mp' q q4 q100 d z by (simp add: doy_def)
qed

text \<open>A month has 28 to 31 days, a year 365 or 366.\<close>

lemma year_length:
  fixes y :: int
  defines "leaps \<equiv> \<lambda>y. y div 4 - y div 100 + y div 400"
  shows "0 \<le> leaps (y + 1) - leaps y \<and> leaps (y + 1) - leaps y \<le> (1 :: int)"
proof -
  have step: "(y + 1) div k = y div k + (if k dvd y + 1 then 1 else 0)" if "0 < k" for k :: int
  proof -
    have y: "y + 1 = k * (y div k) + (y mod k + 1)" by simp
    have m: "0 \<le> y mod k" "y mod k < k" using that by simp_all
    show ?thesis
    proof (cases "y mod k + 1 = k")
      case True
      have "y + 1 = k * (y div k) + k" using y unfolding True .
      then have "y + 1 = k * (y div k + 1)" by (simp only: distrib_left mult_1_right)
      with that show ?thesis by simp
    next
      case False
      with m have small: "0 < y mod k + 1" "y mod k + 1 < k" by auto
      then have m1: "(y + 1) mod k = y mod k + 1" by (metis mod_add_left_eq mod_pos_pos_trivial order_less_imp_le)
      then have "\<not> k dvd y + 1" using small by (simp add: dvd_eq_mod_eq_0)
      moreover have "k * ((y + 1) div k) = k * (y div k)"
        using minus_mod_eq_mult_div [of "y + 1" k] minus_mod_eq_mult_div [of y k] m1 by linarith
      ultimately show ?thesis using that by simp
    qed
  qed
  have "(100 :: int) dvd y + 1 \<Longrightarrow> 4 dvd y + 1" "(400 :: int) dvd y + 1 \<Longrightarrow> 100 dvd y + 1"
    by presburger+
  then show ?thesis unfolding leaps_def by (simp add: step)
qed

lemma month_length:
  assumes "1 \<le> m" and "m \<le> 12"
  shows "28 \<le> days_from_civil (y + m div 12) (m mod 12 + 1) 1 - days_from_civil y m 1
    \<and> days_from_civil (y + m div 12) (m mod 12 + 1) 1 - days_from_civil y m 1 \<le> 31"
proof -
  have "m \<in> set (map int [1..<13])" using assms by (auto simp: image_iff intro!: bexI [of _ "nat m"])
  then have "m = 2 \<or> m \<in> {1, 3, 4, 5, 6, 7, 8, 9, 10, 11, 12}" by (auto simp: upt_rec)
  then show ?thesis
  proof
    assume "m = 2"
    then show ?thesis using year_length [of "y - 1"] by (simp add: days_from_civil_def Let_def)
  next
    assume "m \<in> {1, 3, 4, 5, 6, 7, 8, 9, 10, 11, 12}"
    then show ?thesis by (elim insertE emptyE) (simp_all add: days_from_civil_def Let_def)
  qed
qed

lemma year_after:
  "365 \<le> days_from_civil (y + 1) m 1 - days_from_civil y m 1
    \<and> days_from_civil (y + 1) m 1 - days_from_civil y m 1 \<le> 366"
  using year_length [of y] year_length [of "y - 1"] by (simp add: days_from_civil_def Let_def)

text \<open>Where the day of the month is kept, a month later and a year later mean what they say.\<close>

lemma AddDate_days:
  assumes "civil_from_days (t div day) = (y, m, d)"
  shows "AddDate t years months days = t +
    (days_from_civil (y + years + (m - 1 + months) div 12) ((m - 1 + months) mod 12 + 1) 1
      - days_from_civil y m 1 + days) * day"
proof -
  have "t = (days_from_civil y m 1 + d - 1) * day + t mod day" using civil_days(1) [OF assms] by simp
  then show ?thesis unfolding AddDate_def assms by (simp add: Let_def algebra_simps)
qed

lemma AddDate_month: "28 * day \<le> AddDate t 0 1 0 - t \<and> AddDate t 0 1 0 - t \<le> 31 * day"
proof -
  obtain y m d where c: "civil_from_days (t div day) = (y, m, d)" by (metis prod_cases3)
  show ?thesis using month_length [OF civil_days(2,3) [OF c], of y]
    by (simp add: AddDate_days [OF c] day_def)
qed

lemma AddDate_year: "365 * day \<le> AddDate t 1 0 0 - t \<and> AddDate t 1 0 0 - t \<le> 366 * day"
proof -
  obtain y m d where c: "civil_from_days (t div day) = (y, m, d)" by (metis prod_cases3)
  have "(m - 1) div 12 = 0" "(m - 1) mod 12 + 1 = m" using civil_days(2,3) [OF c] by auto
  then show ?thesis using year_after [of y m] by (simp add: AddDate_days [OF c] day_def)
qed

lemma AddDate_day: "AddDate t 0 0 n = t + n * day"
proof -
  obtain y m d where c: "civil_from_days (t div day) = (y, m, d)" by (metis prod_cases3)
  have "(m - 1) div 12 = 0" "(m - 1) mod 12 + 1 = m" using civil_days(2,3) [OF c] by auto
  then show ?thesis by (simp add: AddDate_days [OF c])
qed

end
