(* ===== verification/Billing.thy ===== *)
theory Billing
  imports Midtrans Guards Calendar
begin

text \<open>
  Billing: the plan, subscription and payment repositories of \<open>billing_repository.go\<close>, and
  \<open>BillingService\<close> with its status query, checkout, payment notifications and nightly job.

  Parameters, as fields of \<open>billing_env\<close>: what the payment gateway answers, whether a mail is
  delivered, the decoding of a notification's JSON, the rounding of a floating point operation and the
  two date formats, which depend on the zone of the server. The receipt that is mailed by a goroutine
  is sent in line; it writes nothing.

  The lemmas show that a settled payment is final, that a forged notification changes nothing, that a
  settlement leaves exactly one active subscription of 28 to 31 days or of 365 or 366 days, and that
  the service keeps what the other services rely on.
\<close>

section \<open>Plans, subscriptions and payments\<close>

abbreviation BillingCycleYearly :: string where "BillingCycleYearly \<equiv> ''yearly''"
abbreviation SubscriptionStatusActive :: string where "SubscriptionStatusActive \<equiv> ''active''"
abbreviation SubscriptionStatusExpired :: string where "SubscriptionStatusExpired \<equiv> ''expired''"
abbreviation PaymentStatusPending :: string where "PaymentStatusPending \<equiv> ''pending''"
abbreviation PaymentStatusSuccess :: string where "PaymentStatusSuccess \<equiv> ''success''"
abbreviation PaymentStatusFailed :: string where "PaymentStatusFailed \<equiv> ''failed''"
abbreviation PaymentStatusExpired :: string where "PaymentStatusExpired \<equiv> ''expired''"

record billing_env =
  be_client :: client
  be_snap :: "nat \<Rightarrow> snap_request \<Rightarrow> string option"
  be_delivers :: "nat \<Rightarrow> string \<Rightarrow> string \<Rightarrow> string \<Rightarrow> bool"
  be_decode :: "string \<Rightarrow> jsonmap option"
  be_rnd :: "rat \<Rightarrow> rat"
  be_rfc3339 :: "time \<Rightarrow> string"
  be_longDate :: "time \<Rightarrow> string"

definition scanPlan :: "plan \<Rightarrow> plan app" where
  "scanPlan p = (case pl_Features p of None \<Rightarrow> go_fail ErrOther | Some _ \<Rightarrow> go_ret p)"

fun scan_plans :: "plan list \<Rightarrow> plan list app" where
  "scan_plans [] = go_ret []"
| "scan_plans (p # ps) = go_bind (scanPlan p) (\<lambda>x. go_bind (scan_plans ps) (\<lambda>xs. go_ret (x # xs)))"

definition PlanRepository_ListActive :: "plan list app" where
  "PlanRepository_ListActive =
     go_bind (query (\<lambda>d. sort_key pl_SortOrder (filter pl_IsActive (plans d)))) scan_plans"

definition PlanRepository_GetByID :: "uuid \<Rightarrow> plan app" where
  "PlanRepository_GetByID i = go_bind (get_one ErrNotFound (\<lambda>d. find (\<lambda>p. pl_ID p = i) (plans d))) scanPlan"

definition PlanRepository_GetByNameAndCycle :: "string \<Rightarrow> string \<Rightarrow> plan app" where
  "PlanRepository_GetByNameAndCycle name cycle = go_bind (get_one ErrNotFound (\<lambda>d.
     find (\<lambda>p. pl_Name p = name \<and> pl_BillingCycle p = cycle \<and> pl_IsActive p) (plans d))) scanPlan"

definition active_sub :: "uuid \<Rightarrow> subscription \<Rightarrow> bool" where
  "active_sub t s \<longleftrightarrow> sub_TenantID s = t \<and> sub_Status s = ''active''"

definition newest_active :: "uuid \<Rightarrow> subscription list \<Rightarrow> subscription option" where
  "newest_active t ss = (case sort_key (\<lambda>s. - sub_CreatedAt s) (filter (active_sub t) ss) of
     [] \<Rightarrow> None | s # _ \<Rightarrow> Some s)"

definition SubscriptionRepository_GetActiveByTenantID :: "uuid \<Rightarrow> subscription app" where
  "SubscriptionRepository_GetActiveByTenantID t =
     get_one ErrNotFound (\<lambda>d. newest_active t (subscriptions d))"

definition SubscriptionRepository_Create :: "subscription \<Rightarrow> unit app" where
  "SubscriptionRepository_Create s = go_bind (exec (insert_subscription s)) (\<lambda>_. go_ret ())"

definition SubscriptionRepository_UpdateStatus :: "uuid \<Rightarrow> string \<Rightarrow> unit app" where
  "SubscriptionRepository_UpdateStatus i status = go_bind (exec (\<lambda>srv d.
     Some (sql_update subscriptions put_subscriptions (\<lambda>s. sub_ID s = i)
       (\<lambda>s. s\<lparr>sub_Status := status, sub_UpdatedAt := fst srv\<rparr>) d))) (\<lambda>_. go_ret ())"

definition SubscriptionRepository_ListActive :: "subscription list app" where
  "SubscriptionRepository_ListActive = query (\<lambda>d. filter (\<lambda>s. sub_Status s = ''active'') (subscriptions d))"

definition SubscriptionRepository_ExpireAllActive :: "uuid \<Rightarrow> unit app" where
  "SubscriptionRepository_ExpireAllActive t = go_bind (exec (\<lambda>srv d.
     Some (sql_update subscriptions put_subscriptions (active_sub t)
       (\<lambda>s. s\<lparr>sub_Status := ''expired'', sub_UpdatedAt := fst srv\<rparr>) d))) (\<lambda>_. go_ret ())"

definition SubscriptionRepository_ListByTenantID :: "uuid \<Rightarrow> subscription list app" where
  "SubscriptionRepository_ListByTenantID t = query (\<lambda>d. sort_key (\<lambda>s. - sub_CreatedAt s)
     (filter (\<lambda>s. sub_TenantID s = t) (subscriptions d)))"

definition PaymentRepository_Create :: "payment \<Rightarrow> unit app" where
  "PaymentRepository_Create p = go_bind (exec (insert_payment p)) (\<lambda>_. go_ret ())"

definition PaymentRepository_GetByMidtransOrderID :: "string \<Rightarrow> payment app" where
  "PaymentRepository_GetByMidtransOrderID orderID =
     get_one ErrNotFound (\<lambda>d. find (\<lambda>p. pay_MidtransOrderID p = orderID) (payments d))"

definition PaymentRepository_UpdateOnSuccess ::
  "string \<Rightarrow> string \<Rightarrow> string \<Rightarrow> uuid \<Rightarrow> string option \<Rightarrow> jsonmap option \<Rightarrow> unit app" where
  "PaymentRepository_UpdateOnSuccess orderID transactionID meth subID vaNumber rawNotif =
     go_bind (exec (\<lambda>srv d.
       if list_ex (\<lambda>p. pay_MidtransOrderID p = orderID) (payments d)
          \<and> \<not> list_ex (\<lambda>s. sub_ID s = subID) (subscriptions d) then None
       else Some (sql_update payments put_payments (\<lambda>p. pay_MidtransOrderID p = orderID)
         (\<lambda>p. p\<lparr>pay_Status := ''success'', pay_MidtransTransactionID := Some transactionID,
           pay_PaymentMethod := Some meth, pay_SubscriptionID := Some subID, pay_VANumber := vaNumber,
           pay_PaidAt := Some (fst srv), pay_RawNotification := rawNotif, pay_UpdatedAt := fst srv\<rparr>) d)))
     (\<lambda>_. go_ret ())"

definition PaymentRepository_UpdateOnFailed :: "string \<Rightarrow> string \<Rightarrow> jsonmap option \<Rightarrow> unit app" where
  "PaymentRepository_UpdateOnFailed orderID status rawNotif = go_bind (exec (\<lambda>srv d.
     Some (sql_update payments put_payments (\<lambda>p. pay_MidtransOrderID p = orderID)
       (\<lambda>p. p\<lparr>pay_Status := status, pay_RawNotification := rawNotif, pay_UpdatedAt := fst srv\<rparr>) d)))
     (\<lambda>_. go_ret ())"

text \<open>The newest fifty payments, each with the name and the title of its plan.\<close>

definition PaymentRepository_ListByTenantID :: "uuid \<Rightarrow> (payment \<times> string \<times> string) list app" where
  "PaymentRepository_ListByTenantID t = query (\<lambda>d. take 50 (sort_key (\<lambda>(p, _). - pay_CreatedAt p)
     (concat (map (\<lambda>p. map (\<lambda>q. (p, pl_Name q, pl_DisplayName q))
         (filter (\<lambda>q. pl_ID q = pay_PlanID p) (plans d)))
       (filter (\<lambda>p. pay_TenantID p = t) (payments d))))))"

section \<open>The status of a subscription\<close>

definition subscription_IsExpired :: "subscription \<Rightarrow> ('d, bool) go" where
  "subscription_IsExpired s = (case sub_ExpiresAt s of None \<Rightarrow> go_ret False
   | Some e \<Rightarrow> go_bind now (\<lambda>t. go_ret (e < t)))"

text \<open>
  \<open>int(time.Until(t).Hours() / 24)\<close>: the duration saturates at 64 bits, and each floating point
  operation is rounded; \<open>int\<close> cuts the fraction off.
\<close>

definition time_Until :: "time \<Rightarrow> time \<Rightarrow> time" where
  "time_Until e t = max (- (2 ^ 63)) (min (2 ^ 63 - 1) (e - t))"

definition go_div :: "int \<Rightarrow> int \<Rightarrow> int" where
  "go_div a b = sgn a * (\<bar>a\<bar> div b)"

definition days_left :: "(rat \<Rightarrow> rat) \<Rightarrow> time \<Rightarrow> int" where
  "days_left rnd dur =
     (let hour = go_div dur (3600 * 10 ^ 9); nsec = dur - hour * (3600 * 10 ^ 9);
          hours = rnd (of_int hour + rnd (of_int nsec / (3600 * 10 ^ 9)));
          x = rnd (hours / 24)
      in if x < 0 then \<lceil>x\<rceil> else \<lfloor>x\<rfloor>)"

definition DaysUntilExpiry :: "(rat \<Rightarrow> rat) \<Rightarrow> subscription \<Rightarrow> ('d, int) go" where
  "DaysUntilExpiry rnd s = (case sub_ExpiresAt s of None \<Rightarrow> go_ret 9999
   | Some e \<Rightarrow> go_bind now (\<lambda>t. go_ret (days_left rnd (time_Until e t))))"

record subscription_status_response =
  ssr_Status :: string
  ssr_PlanName :: string
  ssr_DisplayName :: string
  ssr_BillingCycle :: string
  ssr_DaysLeft :: int
  ssr_ExpiresAt :: "string option"
  ssr_MaxGuests :: "int option"
  ssr_MaxEvents :: "int option"
  ssr_MaxTeamMembers :: "int option"
  ssr_Features :: "plan_features option"

definition no_features :: plan_features where
  "no_features = \<lparr>pf_WhatsAppCampaign = False, pf_CustomTemplate = False, pf_Webhook = False,
     pf_AdvancedReports = False, pf_RemoveBranding = False, pf_PrioritySupport = False\<rparr>"

definition BillingService_updateTenantStatus :: "uuid \<Rightarrow> string \<Rightarrow> unit app" where
  "BillingService_updateTenantStatus tenantID status =
     go_bind (TenantRepository_GetByID tenantID) (\<lambda>tenant.
     TenantRepository_Update (tenant\<lparr>t_Status := status\<rparr>))"

text \<open>A response without an expiry date and limits, as the early returns build it.\<close>

definition status_response :: "string \<Rightarrow> string \<Rightarrow> string \<Rightarrow> plan_features option \<Rightarrow> subscription_status_response" where
  "status_response status plan title features = \<lparr>ssr_Status = status, ssr_PlanName = plan,
     ssr_DisplayName = title, ssr_BillingCycle = [], ssr_DaysLeft = -1, ssr_ExpiresAt = None,
     ssr_MaxGuests = None, ssr_MaxEvents = None, ssr_MaxTeamMembers = None, ssr_Features = features\<rparr>"

definition active_status :: "billing_env \<Rightarrow> uuid \<Rightarrow> subscription \<Rightarrow> subscription_status_response app" where
  "active_status s tenantID sub =
     go_bind (PlanRepository_GetByID (sub_PlanID sub)) (\<lambda>plan.
     go_bind (subscription_IsExpired sub) (\<lambda>expired.
     if expired then
       go_ignore (SubscriptionRepository_UpdateStatus (sub_ID sub) SubscriptionStatusExpired) (
       go_ignore (BillingService_updateTenantStatus tenantID TenantStatusSuspended) (
       go_ret (status_response ''suspended'' (pl_Name plan) (pl_DisplayName plan) (pl_Features plan))))
     else go_bind (DaysUntilExpiry (be_rnd s) sub) (\<lambda>daysLeft.
       go_ret \<lparr>ssr_Status = ''active'', ssr_PlanName = pl_Name plan, ssr_DisplayName = pl_DisplayName plan,
         ssr_BillingCycle = sub_BillingCycle sub, ssr_DaysLeft = daysLeft,
         ssr_ExpiresAt = map_option (be_rfc3339 s) (sub_ExpiresAt sub), ssr_MaxGuests = pl_MaxGuests plan,
         ssr_MaxEvents = pl_MaxEvents plan, ssr_MaxTeamMembers = pl_MaxTeamMembers plan,
         ssr_Features = pl_Features plan\<rparr>)))"

definition trial_status :: "billing_env \<Rightarrow> uuid \<Rightarrow> tenant \<Rightarrow> time \<Rightarrow> subscription_status_response app" where
  "trial_status s tenantID tenant trialEndsAt =
     go_bind (IsTrialExpired tenant) (\<lambda>expired.
     if expired then
       go_ignore (BillingService_updateTenantStatus tenantID TenantStatusSuspended) (
       go_ret (status_response ''trial_expired'' ''trial'' ''Trial Berakhir'' (Some no_features)))
     else go_bind now (\<lambda>t.
       go_ret \<lparr>ssr_Status = ''trial'', ssr_PlanName = ''trial'', ssr_DisplayName = ''Trial'',
         ssr_BillingCycle = ''trial'', ssr_DaysLeft = days_left (be_rnd s) (time_Until trialEndsAt t),
         ssr_ExpiresAt = Some (be_rfc3339 s trialEndsAt), ssr_MaxGuests = None, ssr_MaxEvents = None,
         ssr_MaxTeamMembers = None,
         ssr_Features = Some (no_features\<lparr>pf_WhatsAppCampaign := True, pf_CustomTemplate := True,
           pf_Webhook := True, pf_AdvancedReports := True\<rparr>)\<rparr>))"

definition BillingService_GetSubscriptionStatus ::
  "billing_env \<Rightarrow> uuid \<Rightarrow> subscription_status_response app" where
  "BillingService_GetSubscriptionStatus s tenantID =
     go_bind (TenantRepository_GetByID tenantID) (\<lambda>tenant.
     go_try (SubscriptionRepository_GetActiveByTenantID tenantID) (\<lambda>r. case r of
       Inr sub \<Rightarrow> active_status s tenantID sub
     | Inl e \<Rightarrow> go_guard (e \<noteq> ErrNotFound) e (
         case (if t_Status tenant = TenantStatusTrial then t_TrialEndsAt tenant else None) of
           Some trialEndsAt \<Rightarrow> trial_status s tenantID tenant trialEndsAt
         | None \<Rightarrow> go_ret (status_response (t_Status tenant) ''none'' ''Tidak Aktif'' (Some no_features)))))"

definition BillingService_ListPlans :: "plan list app" where
  "BillingService_ListPlans = PlanRepository_ListActive"

definition BillingService_GetPaymentHistory :: "uuid \<Rightarrow> (payment \<times> string \<times> string) list app" where
  "BillingService_GetPaymentHistory tenantID = PaymentRepository_ListByTenantID tenantID"

text \<open>The limit of team members that \<open>TenantService\<close> asks for, from the status of the subscription.\<close>

definition team_limit :: "billing_env \<Rightarrow> subscription_source" where
  "team_limit s tenantID = go_bind (BillingService_GetSubscriptionStatus s tenantID) (\<lambda>r.
     go_ret (ssr_MaxTeamMembers r))"

section \<open>Payments\<close>

record checkout_request =
  cor_PlanID :: uuid
  cor_BillingCycle :: string

record checkout_response =
  cos_SnapToken :: string
  cos_MidtransOrderID :: string
  cos_PlanName :: string
  cos_AmountIDR :: int

definition pending_payment :: "uuid \<Rightarrow> uuid \<Rightarrow> plan \<Rightarrow> string \<Rightarrow> string \<Rightarrow> time \<Rightarrow> payment" where
  "pending_payment i tenantID plan orderID cycle t =
     \<lparr>pay_ID = i, pay_TenantID = tenantID, pay_SubscriptionID = None, pay_PlanID = pl_ID plan,
      pay_MidtransOrderID = orderID, pay_MidtransTransactionID = None, pay_AmountIDR = pl_PriceIDR plan,
      pay_BillingCycle = cycle, pay_Status = PaymentStatusPending, pay_PaymentMethod = None,
      pay_VANumber = None, pay_PaidAt = None, pay_ExpiredAt = Some (t + day),
      pay_RawNotification = None, pay_CreatedAt = t, pay_UpdatedAt = t\<rparr>"

definition BillingService_Checkout ::
  "billing_env \<Rightarrow> uuid \<Rightarrow> uuid \<Rightarrow> checkout_request \<Rightarrow> checkout_response app" where
  "BillingService_Checkout s tenantID userID req =
     go_try (PlanRepository_GetByID (cor_PlanID req)) (\<lambda>r. case r of
       Inl _ \<Rightarrow> go_fail ErrNotFound
     | Inr plan \<Rightarrow>
         go_guard (pl_BillingCycle plan \<noteq> cor_BillingCycle req) ErrOther (
         go_bind (UserRepository_GetByID userID) (\<lambda>user.
         go_bind (CreateOrderID tenantID) (\<lambda>orderID.
         go_bind (CreateTransaction (be_snap s) \<lparr>csr_OrderID = orderID, csr_AmountIDR = pl_PriceIDR plan,
           csr_PlanName = pl_DisplayName plan, csr_BillingCycle = cor_BillingCycle req,
           csr_TenantID = tenantID, csr_CustomerName = u_FullName user, csr_CustomerEmail = u_Email user,
           csr_CustomerPhone = []\<rparr>) (\<lambda>snapToken.
         go_bind now (\<lambda>t. go_bind uuid_New (\<lambda>i.
         go_ignore (PaymentRepository_Create
           (pending_payment i tenantID plan orderID (cor_BillingCycle req) t)) (
         go_ret \<lparr>cos_SnapToken = snapToken, cos_MidtransOrderID = orderID,
           cos_PlanName = pl_DisplayName plan, cos_AmountIDR = pl_PriceIDR plan\<rparr>))))))))"

section \<open>Receipts and reminders\<close>

definition billing_mail :: "billing_env \<Rightarrow> string \<Rightarrow> string \<Rightarrow> string \<Rightarrow> ('d, unit) go" where
  "billing_mail s recipient subject body w =
     (if be_delivers s (pos w) recipient subject body then Inr () else Inl ErrOther, tick w)"

text \<open>The loop over the members of a tenant that writes to those whose role is \<open>owner\<close> or \<open>admin\<close>.\<close>

fun mail_members :: "billing_env \<Rightarrow> string \<Rightarrow> (user \<Rightarrow> string) \<Rightarrow> tenant_membership list \<Rightarrow> unit app" where
  "mail_members s subject body [] = go_ret ()"
| "mail_members s subject body (member # ms) =
     (if m_Role member = ''owner'' \<or> m_Role member = ''admin'' then
        go_try (UserRepository_GetByID (m_UserID member)) (\<lambda>r. case r of
          Inl _ \<Rightarrow> mail_members s subject body ms
        | Inr user \<Rightarrow> go_ignore (billing_mail s (u_Email user) subject (body user))
            (mail_members s subject body ms))
      else mail_members s subject body ms)"

definition BillingService_sendReceiptEmail :: "billing_env \<Rightarrow> uuid \<Rightarrow> payment \<Rightarrow> plan \<Rightarrow> unit app" where
  "BillingService_sendReceiptEmail s tenantID pay plan =
     go_try (TenantUserRepository_ListByTenant tenantID) (\<lambda>r. case r of
       Inl _ \<Rightarrow> go_ret ()
     | Inr members \<Rightarrow> mail_members s (''Kwitansi Pembayaran GuestFlow: '' @ pl_DisplayName plan)
         (\<lambda>user. ''Halo '' @ u_FullName user @ '','' @ newline @ newline
           @ ''Terima kasih, pembayaran Anda sebesar Rp '' @ itoa (pay_AmountIDR pay) @ '' untuk paket ''
           @ pl_DisplayName plan @ '' ('' @ pay_BillingCycle pay @ '') telah berhasil.'' @ newline
           @ ''Langganan Anda sekarang aktif.'' @ newline @ newline @ ''Salam,'' @ newline @ ''Tim GuestFlow'')
         members)"

definition BillingService_sendReminderEmail :: "billing_env \<Rightarrow> uuid \<Rightarrow> time \<Rightarrow> unit app" where
  "BillingService_sendReminderEmail s tenantID expiresAt =
     go_try (TenantUserRepository_ListByTenant tenantID) (\<lambda>r. case r of
       Inl _ \<Rightarrow> go_ret ()
     | Inr members \<Rightarrow> mail_members s ''Pengingat: Langganan GuestFlow Anda akan segera berakhir''
         (\<lambda>user. ''Halo '' @ u_FullName user @ '','' @ newline @ newline
           @ ''Masa berlangganan paket Anda akan berakhir pada '' @ be_longDate s expiresAt @ ''.'' @ newline
           @ ''Harap segera lakukan perpanjangan melalui halaman Paket & Penagihan agar akses Anda tidak terputus.''
           @ newline @ newline @ ''Salam,'' @ newline @ ''Tim GuestFlow'')
         members)"

section \<open>Notifications of the gateway\<close>

definition subscription_end :: "string \<Rightarrow> time \<Rightarrow> time" where
  "subscription_end cycle t = (if cycle = BillingCycleYearly then AddDate t 1 0 0 else AddDate t 0 1 0)"

definition paid_subscription :: "uuid \<Rightarrow> payment \<Rightarrow> plan \<Rightarrow> notification_payload \<Rightarrow> time \<Rightarrow> subscription" where
  "paid_subscription i pay plan notif t =
     \<lparr>sub_ID = i, sub_TenantID = pay_TenantID pay, sub_PlanID = pl_ID plan,
      sub_Status = SubscriptionStatusActive, sub_BillingCycle = pay_BillingCycle pay, sub_StartedAt = t,
      sub_ExpiresAt = Some (subscription_end (pay_BillingCycle pay) t), sub_CancelledAt = None,
      sub_MidtransOrderID = Some (np_OrderID notif), sub_MidtransTransactionID = Some (np_TransactionID notif),
      sub_CreatedAt = t, sub_UpdatedAt = t\<rparr>"

definition va_number :: "notification_payload \<Rightarrow> string option" where
  "va_number notif = (case np_VANumbers notif of [] \<Rightarrow> None | (bank, va) # _ \<Rightarrow> opt_str va)"

definition BillingService_activateSubscription ::
  "billing_env \<Rightarrow> payment \<Rightarrow> notification_payload \<Rightarrow> jsonmap option \<Rightarrow> unit app" where
  "BillingService_activateSubscription s pay notif rawMap =
     go_ignore (SubscriptionRepository_ExpireAllActive (pay_TenantID pay)) (
     go_bind (PlanRepository_GetByID (pay_PlanID pay)) (\<lambda>plan.
     go_bind now (\<lambda>t. go_bind uuid_New (\<lambda>i.
     go_bind (SubscriptionRepository_Create (paid_subscription i pay plan notif t)) (\<lambda>_.
     go_bind (PaymentRepository_UpdateOnSuccess (np_OrderID notif) (np_TransactionID notif)
       (np_PaymentType notif) i (va_number notif) rawMap) (\<lambda>_.
     go_ignore (BillingService_sendReceiptEmail s (pay_TenantID pay) pay plan) (
     BillingService_updateTenantStatus (pay_TenantID pay) TenantStatusActive)))))))"

text \<open>A signature over the order, one of three status codes and the amount.\<close>

definition signature_ok :: "client \<Rightarrow> notification_payload \<Rightarrow> bool" where
  "signature_ok c payload \<longleftrightarrow>
     VerifySignature c (np_OrderID payload) ''200'' (np_GrossAmount payload) (np_SignatureKey payload)
     \<or> list_ex (\<lambda>code. VerifySignature c (np_OrderID payload) code (np_GrossAmount payload)
         (np_SignatureKey payload)) [''200'', ''201'', ''407'']"

definition BillingService_HandleWebhookNotification ::
  "billing_env \<Rightarrow> notification_payload \<Rightarrow> string \<Rightarrow> unit app" where
  "BillingService_HandleWebhookNotification s payload rawBody =
     go_guard (np_OrderID payload = [] \<or> np_GrossAmount payload = [] \<or> np_SignatureKey payload = [])
       ErrInvalidNotificationSignature (
     go_guard (\<not> signature_ok (be_client s) payload) ErrInvalidNotificationSignature (
     go_try (PaymentRepository_GetByMidtransOrderID (np_OrderID payload)) (\<lambda>r. case r of
       Inl _ \<Rightarrow> go_fail ErrNotFound
     | Inr existingPay \<Rightarrow>
         if pay_Status existingPay = PaymentStatusSuccess then go_ret () else
         let rawMap = be_decode s rawBody in
         if IsSuccessStatus (np_TransactionStatus payload) (np_FraudStatus payload) then
           BillingService_activateSubscription s existingPay payload rawMap
         else if IsFailedStatus (np_TransactionStatus payload) then
           PaymentRepository_UpdateOnFailed (np_OrderID payload) PaymentStatusFailed rawMap
         else if IsExpiredStatus (np_TransactionStatus payload) then
           PaymentRepository_UpdateOnFailed (np_OrderID payload) PaymentStatusExpired rawMap
         else go_ret ())))"

section \<open>The nightly job\<close>

fun expire_trials :: "time \<Rightarrow> tenant list \<Rightarrow> unit app" where
  "expire_trials t [] = go_ret ()"
| "expire_trials t (x # xs) =
     (if t_Status x = TenantStatusTrial \<and> (case t_TrialEndsAt x of None \<Rightarrow> False | Some e \<Rightarrow> e < t) then
        go_ignore (TenantRepository_Update (x\<lparr>t_Status := ''trial_expired''\<rparr>)) (expire_trials t xs)
      else expire_trials t xs)"

fun expire_subscriptions :: "billing_env \<Rightarrow> time \<Rightarrow> subscription list \<Rightarrow> unit app" where
  "expire_subscriptions s t [] = go_ret ()"
| "expire_subscriptions s t (sub # subs) = (case sub_ExpiresAt sub of
     None \<Rightarrow> expire_subscriptions s t subs
   | Some e \<Rightarrow>
       if e < t then
         go_ignore (SubscriptionRepository_UpdateStatus (sub_ID sub) SubscriptionStatusExpired) (
         go_ignore (BillingService_updateTenantStatus (sub_TenantID sub) TenantStatusSuspended) (
         expire_subscriptions s t subs))
       else if t < e \<and> e < AddDate t 0 0 3 then
         go_ignore (BillingService_sendReminderEmail s (sub_TenantID sub) e) (expire_subscriptions s t subs)
       else expire_subscriptions s t subs)"

definition BillingService_ProcessExpiredSubscriptions :: "billing_env \<Rightarrow> unit app" where
  "BillingService_ProcessExpiredSubscriptions s =
     go_bind TenantRepository_ListActive (\<lambda>ts.
     go_bind now (\<lambda>t.
     go_bind (expire_trials t ts) (\<lambda>_.
     go_bind SubscriptionRepository_ListActive (\<lambda>activeSubs.
     expire_subscriptions s t activeSubs))))"

section \<open>Requests to the service\<close>

datatype billing_call =
    AskPlans
  | AskStatus uuid
  | AskHistory uuid
  | CheckOut uuid uuid checkout_request
  | Notify notification_payload string
  | NightlyJob

definition serve_billing :: "billing_env \<Rightarrow> billing_call \<Rightarrow> unit app" where
  "serve_billing s c = (case c of
     AskPlans \<Rightarrow> discard BillingService_ListPlans
   | AskStatus t \<Rightarrow> discard (BillingService_GetSubscriptionStatus s t)
   | AskHistory t \<Rightarrow> discard (BillingService_GetPaymentHistory t)
   | CheckOut t u req \<Rightarrow> discard (BillingService_Checkout s t u req)
   | Notify payload body \<Rightarrow> BillingService_HandleWebhookNotification s payload body
   | NightlyJob \<Rightarrow> BillingService_ProcessExpiredSubscriptions s)"

section \<open>What the parts of the service leave alone\<close>

lemma finished_stays: "stays (=) (Pair (Inr x))" "stays (\<lambda>d d'. f d' = f d) (Pair (Inr x))"
  by (simp_all add: stays_def)

lemma scan_pure: "stays (=) (scanPlan p)" "stays (=) (scan_plans ps)"
proof -
  show one: "stays (=) (scanPlan p)" for p
    unfolding scanPlan_def by (auto intro!: unchanged.all_stays split: option.split)
  show "stays (=) (scan_plans ps)"
    by (induction ps; simp only: scan_plans.simps; auto intro!: finished_stays unchanged.all_stays one)
qed

lemma billing_reads_pure:
  "stays (=) (PlanRepository_GetByID i)" "stays (=) PlanRepository_ListActive"
  "stays (=) (SubscriptionRepository_GetActiveByTenantID t)" "stays (=) SubscriptionRepository_ListActive"
  "stays (=) (PaymentRepository_GetByMidtransOrderID o')" "stays (=) (PaymentRepository_ListByTenantID t)"
  "stays (=) (TenantRepository_GetByID t)" "stays (=) TenantRepository_ListActive"
  "stays (=) (TenantUserRepository_ListByTenant t)" "stays (=) (UserRepository_GetByID u)"
  "stays (=) (subscription_IsExpired sub)" "stays (=) (DaysUntilExpiry rnd sub)" "stays (=) (IsTrialExpired x)"
  "stays (=) (billing_mail s a b c)" "stays (=) (CreateOrderID t)" "stays (=) (CreateTransaction snap req)"
  unfolding PlanRepository_GetByID_def PlanRepository_ListActive_def SubscriptionRepository_GetActiveByTenantID_def
    SubscriptionRepository_ListActive_def PaymentRepository_GetByMidtransOrderID_def
    PaymentRepository_ListByTenantID_def TenantRepository_GetByID_def TenantRepository_ListActive_def
    TenantUserRepository_ListByTenant_def UserRepository_GetByID_def subscription_IsExpired_def
    DaysUntilExpiry_def IsTrialExpired_def CreateOrderID_def
  by (auto intro!: unchanged.all_stays scan_pure split: option.split)
    (auto simp: stays_def billing_mail_def CreateTransaction_def)

lemma mail_members_pure: "stays (=) (mail_members s subject body ms)"
  by (induction ms; simp only: mail_members.simps; auto intro!: finished_stays unchanged.all_stays billing_reads_pure split: sum.split)

lemma mails_pure: "stays (=) (BillingService_sendReceiptEmail s t p q)"
  "stays (=) (BillingService_sendReminderEmail s t e)"
  unfolding BillingService_sendReceiptEmail_def BillingService_sendReminderEmail_def
  by (auto intro!: unchanged.all_stays billing_reads_pure mail_members_pure split: sum.split)

text \<open>A part \<open>f\<close> of the store that is no part of the tenants and the subscriptions.\<close>

lemma pure_same: "stays (=) m \<Longrightarrow> stays (\<lambda>d d'. f d' = f d) m"
  by (erule stays_mono) simp

lemmas billing_reads_same = billing_reads_pure [THEN pure_same] mails_pure [THEN pure_same]

lemma status_writes_same:
  assumes "\<And>x d. f (put_tenants x d) = f d" and "\<And>x d. f (put_subscriptions x d) = f d"
  shows "stays (\<lambda>d d'. f d' = f d) (BillingService_updateTenantStatus t status)"
    and "stays (\<lambda>d d'. f d' = f d) (SubscriptionRepository_UpdateStatus i status)"
    and "stays (\<lambda>d d'. f d' = f d) (SubscriptionRepository_ExpireAllActive t)"
    and "stays (\<lambda>d d'. f d' = f d) (TenantRepository_Update x)"
  unfolding BillingService_updateTenantStatus_def SubscriptionRepository_UpdateStatus_def
    SubscriptionRepository_ExpireAllActive_def TenantRepository_Update_def
  by (auto intro!: same.all_stays billing_reads_same simp: sql_update_def assms)

lemma status_same:
  assumes "\<And>x d. f (put_tenants x d) = f d" and "\<And>x d. f (put_subscriptions x d) = f d"
  shows "stays (\<lambda>d d'. f d' = f d) (BillingService_GetSubscriptionStatus s t)"
  unfolding BillingService_GetSubscriptionStatus_def active_status_def trial_status_def
  by (auto intro!: same.all_stays status_writes_same [OF assms] billing_reads_same
      split: sum.split option.split)

lemma expire_same:
  assumes "\<And>x d. f (put_tenants x d) = f d" and "\<And>x d. f (put_subscriptions x d) = f d"
  shows "stays (\<lambda>d d'. f d' = f d) (BillingService_ProcessExpiredSubscriptions s)"
proof -
  have "stays (\<lambda>d d'. f d' = f d) (expire_trials t xs)" for t xs
    by (induction xs; simp only: expire_trials.simps; auto intro!: finished_stays same.all_stays status_writes_same [OF assms])
  moreover have "stays (\<lambda>d d'. f d' = f d) (expire_subscriptions s t subs)" for t subs
    by (induction subs; simp only: expire_subscriptions.simps; auto intro!: finished_stays same.all_stays
        status_writes_same [OF assms] billing_reads_same split: option.split)
  ultimately show ?thesis
    unfolding BillingService_ProcessExpiredSubscriptions_def
    by (auto intro!: same.all_stays billing_reads_same)
qed

text \<open>What \<open>TenantService\<close> relies on: a question for the limit leaves the memberships alone.\<close>

lemma team_limit_quiet: "quiet_billing (Some (team_limit s))"
proof (intro allI impI)
  fix status x
  assume "Some (team_limit s) = Some status"
  then have status: "status = team_limit s" by simp
  have view: "member_view (put_subscriptions ss d) = member_view d" for ss d by (simp add: member_view_def)
  show "framed (status x)"
    unfolding status team_limit_def BillingService_GetSubscriptionStatus_def active_status_def trial_status_def
      BillingService_updateTenantStatus_def SubscriptionRepository_UpdateStatus_def
    by (auto intro!: same.all_stays TenantRepository_Update_framed billing_reads_same
        simp: sql_update_def view split: sum.split option.split)
qed

section \<open>The life of a payment\<close>

text \<open>
  The abstract payments, as each call may move them: a checkout adds one order of the tenant who calls
  it, for the plan and the cycle of the request, pending and with a new id; a signed notification moves
  the one payment of its order, when it is not settled, to the status its transaction status stands
  for, and nothing else of the order changes; any other call leaves the payments alone.
\<close>

definition order_of :: "payment \<Rightarrow> uuid \<times> uuid \<times> uuid \<times> string \<times> int \<times> string" where
  "order_of p = (pay_ID p, pay_TenantID p, pay_PlanID p, pay_MidtransOrderID p, pay_AmountIDR p, pay_BillingCycle p)"

definition settled :: "payment \<Rightarrow> bool" where
  "settled p \<longleftrightarrow> pay_Status p = PaymentStatusSuccess"

definition notified_status :: "notification_payload \<Rightarrow> string option" where
  "notified_status payload =
     (if IsSuccessStatus (np_TransactionStatus payload) (np_FraudStatus payload) then Some PaymentStatusSuccess
      else if IsFailedStatus (np_TransactionStatus payload) then Some PaymentStatusFailed
      else if IsExpiredStatus (np_TransactionStatus payload) then Some PaymentStatusExpired
      else None)"

inductive payment_step :: "billing_env \<Rightarrow> billing_call \<Rightarrow> payment list \<Rightarrow> payment list \<Rightarrow> bool" for s where
  idle: "payment_step s c ps ps"
| ordered: "pay_Status p = PaymentStatusPending \<Longrightarrow> pay_TenantID p = t \<Longrightarrow> pay_PlanID p = cor_PlanID req
    \<Longrightarrow> pay_BillingCycle p = cor_BillingCycle req \<Longrightarrow> \<forall>q \<in> set ps. pay_MidtransOrderID q \<noteq> pay_MidtransOrderID p
    \<Longrightarrow> payment_step s (CheckOut t u req) ps (ps @ [p])"
| notified: "signature_ok (be_client s) payload \<Longrightarrow> pay_MidtransOrderID p = np_OrderID payload \<Longrightarrow> \<not> settled p
    \<Longrightarrow> order_of q = order_of p \<Longrightarrow> notified_status payload = Some (pay_Status q)
    \<Longrightarrow> payment_step s (Notify payload body) (xs @ p # ys) (xs @ q # ys)"

definition payments_ok :: "payment list \<Rightarrow> bool" where
  "payments_ok ps \<longleftrightarrow> distinct (map pay_MidtransOrderID ps)"

lemma payment_step_ok:
  assumes "payment_step s c ps qs" and "payments_ok ps"
  shows "payments_ok qs" and "\<And>p. p \<in> set ps \<Longrightarrow> settled p \<Longrightarrow> p \<in> set qs"
  using assms by (induction rule: payment_step.induct) (auto simp: payments_ok_def order_of_def)

lemma notified_update:
  assumes "payments_ok ps" and "find (\<lambda>p. pay_MidtransOrderID p = np_OrderID payload) ps = Some p" and "\<not> settled p"
    and "signature_ok (be_client s) payload" and "\<And>p. order_of (f p) = order_of p"
    and "\<And>p. notified_status payload = Some (pay_Status (f p))"
  shows "payment_step s (Notify payload body) ps
    (update_where (\<lambda>p. pay_MidtransOrderID p = np_OrderID payload) f ps)"
proof -
  have p: "p \<in> set ps" "pay_MidtransOrderID p = np_OrderID payload" using find_Some_D [OF assms(2)] by auto
  obtain xs ys where "ps = xs @ p # ys"
    and "update_where (\<lambda>p. pay_MidtransOrderID p = np_OrderID payload) f ps = xs @ f p # ys"
    by (rule update_where_unique [OF assms(1) [unfolded payments_ok_def] p(1), where f = f
          and p = "\<lambda>p. pay_MidtransOrderID p = np_OrderID payload"]) (use p in auto)
  with assms(3-6) p(2) show ?thesis by (auto intro: payment_step.notified)
qed

lemma payments_put [simp]:
  "payments (put_tenants x d) = payments d" "payments (put_subscriptions y d) = payments d"
  "payments (put_payments z d) = z"
  by simp_all

text \<open>A bind of which the first part leaves the part \<open>f\<close> of the store alone.\<close>

lemma same_bind:
  assumes "go_bind m k w = (r, w')" and "stays (\<lambda>d d'. f d' = f d) m"
  obtains (stop) e where "r = Inl e" and "f (store w') = f (store w)"
  | (pass) x v where "m w = (Inr x, v)" and "f (store v) = f (store w)" and "k x v = (r, w')"
proof (cases "m w")
  case (Pair s v)
  then have v: "f (store v) = f (store w)" using staysD [OF assms(2)] by simp
  show thesis
  proof (cases s)
    case (Inl e)
    with Pair v assms(1) show thesis by (auto simp: go_bind_run intro: stop)
  next
    case (Inr x)
    with Pair v assms(1) show thesis by (auto simp: go_bind_run intro: pass)
  qed
qed

lemma UpdateOnSuccess_run:
  assumes "PaymentRepository_UpdateOnSuccess i tx meth sub va raw w = (r, w')"
  shows "payments (store w') = payments (store w) \<or> (\<exists>t. payments (store w') =
    update_where (\<lambda>p. pay_MidtransOrderID p = i) (\<lambda>p. p\<lparr>pay_Status := ''success'',
      pay_MidtransTransactionID := Some tx, pay_PaymentMethod := Some meth, pay_SubscriptionID := Some sub,
      pay_VANumber := va, pay_PaidAt := Some t, pay_RawNotification := raw, pay_UpdatedAt := t\<rparr>) (payments (store w)))"
  using assms unfolding PaymentRepository_UpdateOnSuccess_def
  by (auto simp: go_bind_run exec_def sql_update_def split: prod.splits sum.splits if_splits option.splits)

text \<open>A bind of which the second part leaves it alone.\<close>

lemma bind_same:
  assumes "go_bind m k w = (r, w')" and "\<And>x. stays (\<lambda>d d'. f d' = f d) (k x)"
  obtains s v where "m w = (s, v)" and "f (store w') = f (store v)"
proof (cases "m w")
  case (Pair s v)
  with assms(1) staysD [OF assms(2)] show thesis
    by (cases s) (auto simp: go_bind_run intro: that)
qed

lemma bind_draws:
  "go_bind now (\<lambda>t. go_bind uuid_New (m t)) w = m (clock w (pos w)) (fresh w (Suc (pos w))) (tick (tick w))"
  by (simp add: go_bind_run now_def uuid_New_def)

lemma activate_payments:
  assumes "BillingService_activateSubscription s pay notif raw w = (r, w')"
    and "payments_ok (payments (store w))"
    and "find (\<lambda>p. pay_MidtransOrderID p = np_OrderID notif) (payments (store w)) = Some pay" and "\<not> settled pay"
    and "signature_ok (be_client s) notif" and "IsSuccessStatus (np_TransactionStatus notif) (np_FraudStatus notif)"
  shows "payment_step s (Notify notif body) (payments (store w)) (payments (store w'))"
proof -
  let ?same = "\<lambda>m. stays (\<lambda>d d'. payments d' = payments d) m"
  let ?update = "\<lambda>i. PaymentRepository_UpdateOnSuccess (np_OrderID notif) (np_TransactionID notif)
    (np_PaymentType notif) i (va_number notif) raw"
  have writes: "?same (SubscriptionRepository_ExpireAllActive t)" "?same (BillingService_updateTenantStatus t st)"
    "?same (SubscriptionRepository_Create sub)" for t st sub
    using status_writes_same [of payments]
    by (auto simp: SubscriptionRepository_Create_def insert_subscription_def split: if_splits intro!: same.all_stays)
  have status: "notified_status notif = Some PaymentStatusSuccess" using assms(6) by (simp add: notified_status_def)
  have keep: "payment_step s (Notify notif body) (payments (store w)) (payments (store w'))"
    if "payments (store w') = payments (store w)" for w w' :: "db world" using that by (simp add: idle)
  from assms(1) obtain v where v: "payments (store v) = payments (store w)"
    and rest: "go_bind (PlanRepository_GetByID (pay_PlanID pay)) (\<lambda>plan. go_bind now (\<lambda>t. go_bind uuid_New (\<lambda>i.
      go_bind (SubscriptionRepository_Create (paid_subscription i pay plan notif t)) (\<lambda>_. go_bind (?update i) (\<lambda>_.
      go_ignore (BillingService_sendReceiptEmail s (pay_TenantID pay) pay plan) (
      BillingService_updateTenantStatus (pay_TenantID pay) TenantStatusActive)))))) v = (r, w')"
    unfolding BillingService_activateSubscription_def go_ignore_eq using staysD [OF writes(1)] by blast
  from rest show ?thesis
  proof (rule same_bind [where f = payments])
    fix plan v1
    assume v1: "payments (store v1) = payments (store v)" and "go_bind now (\<lambda>t. go_bind uuid_New (\<lambda>i.
      go_bind (SubscriptionRepository_Create (paid_subscription i pay plan notif t)) (\<lambda>_. go_bind (?update i) (\<lambda>_.
      go_ignore (BillingService_sendReceiptEmail s (pay_TenantID pay) pay plan) (
      BillingService_updateTenantStatus (pay_TenantID pay) TenantStatusActive))))) v1 = (r, w')"
    then obtain t i v2 where v2: "payments (store v2) = payments (store v)"
      and "go_bind (SubscriptionRepository_Create (paid_subscription i pay plan notif t)) (\<lambda>_. go_bind (?update i) (\<lambda>_.
        go_ignore (BillingService_sendReceiptEmail s (pay_TenantID pay) pay plan) (
        BillingService_updateTenantStatus (pay_TenantID pay) TenantStatusActive))) v2 = (r, w')"
      unfolding bind_draws by (metis tick_simps(1))
    from this(2) show ?thesis
    proof (rule same_bind [where f = payments])
      fix v3
      assume v3: "payments (store v3) = payments (store v2)" and "go_bind (?update i) (\<lambda>_.
        go_ignore (BillingService_sendReceiptEmail s (pay_TenantID pay) pay plan) (
        BillingService_updateTenantStatus (pay_TenantID pay) TenantStatusActive)) v3 = (r, w')"
      then obtain u v4 where "?update i v3 = (u, v4)" and v4: "payments (store w') = payments (store v4)"
        by (elim bind_same [where f = payments]) (auto intro!: same.all_stays billing_reads_same writes)
      from UpdateOnSuccess_run [OF this(1)] show ?thesis
        unfolding v4 v3 v2 v
        by (elim disjE exE) (auto intro!: keep idle notified_update [OF assms(2-5)] simp: order_of_def status)
    qed (use v v2 in \<open>auto intro: idle writes\<close>)
  qed (use v in \<open>auto intro: idle billing_reads_same\<close>)
qed

text \<open>One step of the payments after a part that leaves them alone.\<close>

abbreviation pays :: "billing_env \<Rightarrow> billing_call \<Rightarrow> 'a app \<Rightarrow> bool" where
  "pays s c m \<equiv> stays (\<lambda>d d'. payment_step s c (payments d) (payments d')) m"

lemma pays_same: "stays (\<lambda>d d'. payments d' = payments d) m \<Longrightarrow> pays s c m"
  by (erule stays_mono) (simp add: idle)

lemma pays_try:
  assumes "stays (\<lambda>d d'. payments d' = payments d) m" and "\<And>r w v. m w = (r, v) \<Longrightarrow> pays s c (k r)"
  shows "pays s c (go_try m k)"
proof (rule staysI)
  fix w r w'
  assume "go_try m k w = (r, w')"
  then obtain x v where "m w = (x, v)" "k x v = (r, w')" by (auto simp: go_try_eq)
  with staysD [OF assms(1)] staysD [OF assms(2)]
  show "payment_step s c (payments (store w)) (payments (store w'))" by metis
qed

lemma pays_bind:
  assumes "stays (\<lambda>d d'. payments d' = payments d) m" and "\<And>x. pays s c (k x)"
  shows "pays s c (go_bind m k)"
  unfolding go_bind_def
  by (rule pays_try [OF assms(1)]) (auto intro!: assms(2) pays_same same.all_stays split: sum.split)

lemma pays_ignore: "pays s c m \<Longrightarrow> stays (\<lambda>d d'. payments d' = payments d) k \<Longrightarrow> pays s c (go_ignore m k)"
  by (force simp: stays_def go_ignore_def go_try_run)

lemma PlanRepository_GetByID_id: "PlanRepository_GetByID i w = (Inr plan, v) \<Longrightarrow> pl_ID plan = i"
  unfolding PlanRepository_GetByID_def
  by (elim go_elim_Inr) (auto simp: scanPlan_def get_one_Inr dest: find_Some_D split: option.splits)

lemma Checkout_pays: "pays s (CheckOut t u req) (BillingService_Checkout s t u req)"
proof -
  have pending: "pays s (CheckOut t u req) (PaymentRepository_Create
      (pending_payment i t plan o' (cor_BillingCycle req) tm))" if "pl_ID plan = cor_PlanID req" for i plan o' tm
    using that unfolding PaymentRepository_Create_def
    by (intro staysI) (auto simp: go_bind_run exec_def insert_payment_def pending_payment_def list_ex_iff
        intro!: idle ordered split: prod.splits sum.splits if_splits option.splits)
  have rest: "pays s (CheckOut t u req) (case r of Inl e \<Rightarrow> go_fail ErrNotFound
      | Inr plan \<Rightarrow> go_guard (pl_BillingCycle plan \<noteq> cor_BillingCycle req) ErrOther (
         go_bind (UserRepository_GetByID u) (\<lambda>user.
         go_bind (CreateOrderID t) (\<lambda>orderID.
         go_bind (CreateTransaction (be_snap s) (req' plan user orderID)) (\<lambda>snapToken.
         go_bind now (\<lambda>tm. go_bind uuid_New (\<lambda>i.
         go_ignore (PaymentRepository_Create
           (pending_payment i t plan orderID (cor_BillingCycle req) tm)) (
         go_ret (answer plan orderID snapToken)))))))))"
    if "PlanRepository_GetByID (cor_PlanID req) w = (r, v)" for r req' answer w v
  proof (cases r)
    case (Inl e)
    then show ?thesis by (simp add: pays_same [OF same.fail_stays])
  next
    case (Inr plan)
    with that have "pl_ID plan = cor_PlanID req" by (simp add: PlanRepository_GetByID_id)
    with Inr pending show ?thesis
      by (auto intro!: pays_bind pays_ignore billing_reads_same same.all_stays
        pays_same [OF same.fail_stays] simp: go_guard_def)
  qed
  show ?thesis
    unfolding BillingService_Checkout_def by (rule pays_try [OF billing_reads_same(1)]) (rule rest)
qed

lemma UpdateOnFailed_run:
  assumes "PaymentRepository_UpdateOnFailed i status raw w = (r, w')"
  shows "payments (store w') = payments (store w) \<or> (\<exists>t. payments (store w') =
    update_where (\<lambda>p. pay_MidtransOrderID p = i) (\<lambda>p. p\<lparr>pay_Status := status,
      pay_RawNotification := raw, pay_UpdatedAt := t\<rparr>) (payments (store w)))"
  using assms unfolding PaymentRepository_UpdateOnFailed_def
  by (auto simp: go_bind_run exec_def sql_update_def split: prod.splits sum.splits if_splits option.splits)

text \<open>A notification that is not refused, and whose order is not settled, is acted on.\<close>

lemma webhook_cases:
  assumes "BillingService_HandleWebhookNotification s payload body w = (r, w')"
  obtains (still) "store w' = store w"
  | (success) pay where "find (\<lambda>p. pay_MidtransOrderID p = np_OrderID payload) (payments (store w)) = Some pay"
      and "\<not> settled pay" and "signature_ok (be_client s) payload"
      and "IsSuccessStatus (np_TransactionStatus payload) (np_FraudStatus payload)"
      and "BillingService_activateSubscription s pay payload (be_decode s body) (tick w) = (r, w')"
  | (failure) pay status where "find (\<lambda>p. pay_MidtransOrderID p = np_OrderID payload) (payments (store w)) = Some pay"
      and "\<not> settled pay" and "signature_ok (be_client s) payload" and "notified_status payload = Some status"
      and "PaymentRepository_UpdateOnFailed (np_OrderID payload) status (be_decode s body) (tick w) = (r, w')"
proof (cases "np_OrderID payload = [] \<or> np_GrossAmount payload = [] \<or> np_SignatureKey payload = []
    \<or> \<not> signature_ok (be_client s) payload")
  case True
  with assms show thesis
    by (auto simp: BillingService_HandleWebhookNotification_def go_guard_eq intro: still split: if_splits)
next
  case False
  obtain x v where get: "PaymentRepository_GetByMidtransOrderID (np_OrderID payload) w = (x, v)" by fastforce
  then have v: "v = tick w"
    by (cases x) (auto simp: PaymentRepository_GetByMidtransOrderID_def get_one_Inr get_one_Inl)
  show thesis
  proof (cases x)
    case (Inl e)
    with False get v assms show thesis
      by (auto simp: BillingService_HandleWebhookNotification_def go_guard_def go_try_run intro: still)
  next
    case (Inr pay)
    with get have pay: "find (\<lambda>p. pay_MidtransOrderID p = np_OrderID payload) (payments (store w)) = Some pay"
      by (simp add: PaymentRepository_GetByMidtransOrderID_def get_one_Inr)
    from False get v Inr assms have "(if settled pay then go_ret () else
        if IsSuccessStatus (np_TransactionStatus payload) (np_FraudStatus payload) then
          BillingService_activateSubscription s pay payload (be_decode s body)
        else if IsFailedStatus (np_TransactionStatus payload) then
          PaymentRepository_UpdateOnFailed (np_OrderID payload) PaymentStatusFailed (be_decode s body)
        else if IsExpiredStatus (np_TransactionStatus payload) then
          PaymentRepository_UpdateOnFailed (np_OrderID payload) PaymentStatusExpired (be_decode s body)
        else go_ret ()) (tick w) = (r, w')"
      unfolding BillingService_HandleWebhookNotification_def Let_def settled_def
      by (simp add: go_guard_def go_try_run)
    then consider "w' = tick w" | "\<not> settled pay"
        "IsSuccessStatus (np_TransactionStatus payload) (np_FraudStatus payload)"
        "BillingService_activateSubscription s pay payload (be_decode s body) (tick w) = (r, w')"
      | status where "\<not> settled pay" "notified_status payload = Some status"
        "PaymentRepository_UpdateOnFailed (np_OrderID payload) status (be_decode s body) (tick w) = (r, w')"
      by (simp add: notified_status_def split: if_splits)
    then show thesis
    proof cases
      case 1
      then show thesis by (intro still) simp
    next
      case 2
      then show thesis using pay False by (intro success) simp_all
    next
      case 3
      then show thesis using pay False by (intro failure) simp_all
    qed
  qed
qed

lemma webhook_pays:
  assumes "BillingService_HandleWebhookNotification s payload body w = (r, w')" and "payments_ok (payments (store w))"
  shows "payment_step s (Notify payload body) (payments (store w)) (payments (store w'))"
  using assms(1)
proof (cases rule: webhook_cases)
  case still
  then show ?thesis by (simp add: idle)
next
  case (success pay)
  from activate_payments [OF success(5)] assms(2) success(1-4) show ?thesis by simp
next
  case (failure pay status)
  from UpdateOnFailed_run [OF failure(5)] show ?thesis
    using notified_update [OF assms(2) failure(1-3)] failure(4)
    by (elim disjE exE) (auto simp: order_of_def intro!: idle)
qed

lemma serve_billing_pays:
  assumes "payments_ok (payments (store w))"
  shows "payment_step s c (payments (store w)) (payments (store (snd (serve_billing s c w))))"
proof (cases c)
  case (Notify payload body)
  then show ?thesis using webhook_pays [OF surjective_pairing assms] by (simp add: serve_billing_def)
next
  case (CheckOut t u req)
  have "pays s c (discard (BillingService_Checkout s t u req))"
    using Checkout_pays unfolding CheckOut by (auto simp: stays_def discard_def go_bind_run split: prod.split sum.split) (metis snd_conv)+
  with CheckOut show ?thesis by (simp add: serve_billing_def stays_def)
next
  case NightlyJob
  have "pays s c (BillingService_ProcessExpiredSubscriptions s)" by (rule pays_same [OF expire_same]) simp_all
  with NightlyJob show ?thesis by (simp add: serve_billing_def stays_def)
next
  case (AskStatus t)
  have "pays s c (discard (BillingService_GetSubscriptionStatus s t))"
    unfolding discard_def by (auto intro!: pays_same same.all_stays status_same)
  with AskStatus show ?thesis by (simp add: serve_billing_def stays_def)
next
  case AskPlans
  have "pays s c (discard BillingService_ListPlans)"
    unfolding discard_def BillingService_ListPlans_def by (intro pays_same same.all_stays billing_reads_same)
  with AskPlans show ?thesis by (simp add: serve_billing_def stays_def)
next
  case (AskHistory t)
  have "pays s c (discard (BillingService_GetPaymentHistory t))"
    unfolding discard_def BillingService_GetPaymentHistory_def by (intro pays_same same.all_stays billing_reads_same)
  with AskHistory show ?thesis by (simp add: serve_billing_def stays_def)
qed

text \<open>C13: Every request to the billing service moves the payments as their life cycle allows it to that
  request: a checkout adds at most one payment, pending, of the calling tenant, for the requested plan
  and cycle and with a new order id; a notification with a good signature moves at most the one payment
  of its order, when it is not settled, to the status its transaction status stands for and changes
  nothing else of the order; every other request, the nightly job included, leaves the payments alone;
  so whatever statement fails on the way, and order ids stay unique.\<close>

theorem payments_follow_their_life_cycle:
  assumes "payments_ok (payments (store w))"
  shows "payment_step s c (payments (store w)) (payments (store (snd (serve_billing s c w))))
    \<and> payments_ok (payments (store (snd (serve_billing s c w))))"
  using serve_billing_pays [OF assms] payment_step_ok(1) [OF _ assms] by blast

text \<open>C11: A settled payment is final: whatever requests the billing service serves afterwards, replayed or
  contradicting notifications included, the row of a payment that has succeeded stays in the table as it is.\<close>

theorem settled_payments_are_final:
  assumes "payments_ok (payments (store w))" and "p \<in> set (payments (store w))" and "settled p"
  shows "p \<in> set (payments (store (serve_all (map (serve_billing s) cs) w)))"
proof -
  let ?I = "\<lambda>d. payments_ok (payments d) \<and> p \<in> set (payments d)"
  have "?I (store (serve_all (map (serve_billing s) cs) w))"
  proof (rule serve_all_keeps [where I = ?I])
    fix m and v :: "db world"
    assume "m \<in> set (map (serve_billing s) cs)" and v: "?I (store v)"
    then obtain c where m: "m = serve_billing s c" by auto
    from v have ok: "payments_ok (payments (store v))" and p: "p \<in> set (payments (store v))" by auto
    show "?I (store (snd (m v)))"
      using payment_step_ok [OF serve_billing_pays [OF ok, of s c] ok] p assms(3) unfolding m by blast
  qed (use assms in auto)
  then show ?thesis ..
qed

text \<open>C15: Only a signed notification has an effect: when the handling of a notification changes anything
  in the database, its signature is the one of its order and amount under the server key for one of
  the codes 200, 201 and 407, the order is known, and it was not settled before.\<close>

theorem only_signed_notifications_have_effect:
  assumes "BillingService_HandleWebhookNotification s payload body w = (r, w')" and "store w' \<noteq> store w"
  shows "(\<exists>code \<in> {''200'', ''201'', ''407''}. EqualFold (hex_EncodeToString (sha512_Sum (bytes_of
      (np_OrderID payload @ code @ np_GrossAmount payload @ mc_serverKey (be_client s))))) (np_SignatureKey payload))
    \<and> (\<exists>p \<in> set (payments (store w)). pay_MidtransOrderID p = np_OrderID payload \<and> \<not> settled p)"
  using assms(1)
proof (cases rule: webhook_cases)
  case still
  with assms(2) show ?thesis by simp
next
  case (success pay)
  then show ?thesis using find_Some_D [OF success(1)] by (auto simp: signature_ok_def VerifySignature_def)
next
  case (failure pay status)
  then show ?thesis using find_Some_D [OF failure(1)] by (auto simp: signature_ok_def VerifySignature_def)
qed

section \<open>A settlement\<close>

lemma updateTenantStatus_Inr:
  assumes "BillingService_updateTenantStatus t status w = (Inr u, w')" and "status \<noteq> []"
  shows "\<exists>f. store w' = put_tenants (update_where (\<lambda>r. ID r = t \<and> live r) f (tenants (store w))) (store w)
    \<and> (\<forall>r. ID (f r) = ID r \<and> DeletedAt (f r) = DeletedAt r \<and> t_Status (f r) = status)"
proof -
  from assms(1) obtain x where "find (\<lambda>r. ID r = t \<and> live r) (tenants (store w)) = Some x"
    and upd: "TenantRepository_Update (x\<lparr>t_Status := status\<rparr>) (tick w) = (Inr u, w')"
    unfolding BillingService_updateTenantStatus_def TenantRepository_GetByID_def
    by (auto elim!: go_elim_Inr simp: get_one_Inr)
  then have "ID x = t" using find_Some_D by fastforce
  with upd assms(2) show ?thesis
    unfolding TenantRepository_Update_def tenants_table.update_run
    by (intro exI [of _ "\<lambda>r. (merge_tenant (x\<lparr>t_Status := status\<rparr>) r)\<lparr>UpdatedAt := clock w (Suc (pos w))\<rparr>"])
      (auto simp: merge_tenant_def)
qed

lemma expire_then_create:
  fixes ss :: "subscription list"
  assumes "active_sub t sub"
  shows "filter (active_sub t) (update_where (active_sub t) (\<lambda>s. s\<lparr>sub_Status := ''expired'', sub_UpdatedAt := c\<rparr>) ss @ [sub]) = [sub]"
proof -
  have "filter (active_sub t) (update_where (active_sub t) (\<lambda>s. s\<lparr>sub_Status := ''expired'', sub_UpdatedAt := c\<rparr>) ss) = []"
    by (induction ss) (simp_all add: active_sub_def)
  with assms show ?thesis by simp
qed

lemma subscription_end_bounds:
  "subscription_end cycle t - t \<in> (if cycle = BillingCycleYearly then {365 * day..366 * day} else {28 * day..31 * day})"
  using AddDate_month [of t] AddDate_year [of t] by (simp add: subscription_end_def)

lemma activate_Inr:
  assumes "BillingService_activateSubscription s pay notif raw w = (Inr u, w')" and "\<not> faults w (pos w)"
  obtains plan t i f g where "plan \<in> set (plans (store w))" and "pl_ID plan = pay_PlanID pay"
    and "filter (active_sub (pay_TenantID pay)) (subscriptions (store w')) = [paid_subscription i pay plan notif t]"
    and "payments (store w') = update_where (\<lambda>p. pay_MidtransOrderID p = np_OrderID notif) f (payments (store w))"
    and "\<And>p. settled (f p) \<and> order_of (f p) = order_of p \<and> pay_SubscriptionID (f p) = Some i"
    and "tenants (store w') = update_where (\<lambda>r. ID r = pay_TenantID pay \<and> live r) g (tenants (store w))"
    and "\<And>r. ID (g r) = ID r \<and> DeletedAt (g r) = DeletedAt r \<and> t_Status (g r) = TenantStatusActive"
proof -
  let ?T = "pay_TenantID pay"
  let ?upd = "\<lambda>i. PaymentRepository_UpdateOnSuccess (np_OrderID notif) (np_TransactionID notif)
    (np_PaymentType notif) i (va_number notif) raw"
  obtain c where c: "SubscriptionRepository_ExpireAllActive ?T w = (Inr (), (tick w)\<lparr>store := put_subscriptions
      (update_where (active_sub ?T) (\<lambda>s. s\<lparr>sub_Status := ''expired'', sub_UpdatedAt := c\<rparr>) (subscriptions (store w))) (store w)\<rparr>)"
    using assms(2) by (auto simp: SubscriptionRepository_ExpireAllActive_def go_bind_run exec_def sql_update_def)
  define w1 where "w1 = (tick w)\<lparr>store := put_subscriptions (update_where (active_sub ?T)
    (\<lambda>s. s\<lparr>sub_Status := ''expired'', sub_UpdatedAt := c\<rparr>) (subscriptions (store w))) (store w)\<rparr>"
  let ?tail = "\<lambda>plan. go_ignore (BillingService_sendReceiptEmail s ?T pay plan) (
    BillingService_updateTenantStatus ?T TenantStatusActive)"
  from assms(1) have "go_bind (PlanRepository_GetByID (pay_PlanID pay)) (\<lambda>plan. go_bind now (\<lambda>t. go_bind uuid_New (\<lambda>i.
      go_bind (SubscriptionRepository_Create (paid_subscription i pay plan notif t)) (\<lambda>_.
      go_bind (?upd i) (\<lambda>_. ?tail plan))))) w1 = (Inr u, w')"
    unfolding BillingService_activateSubscription_def go_ignore_def go_try_run c by (simp add: w1_def)
  then obtain plan v t i v2 v3 v4 where plan: "PlanRepository_GetByID (pay_PlanID pay) w1 = (Inr plan, v)"
    and v2: "store v2 = store v"
    and create: "SubscriptionRepository_Create (paid_subscription i pay plan notif t) v2 = (Inr (), v3)"
    and upd: "?upd i v3 = (Inr (), v4)" and fin: "?tail plan v4 = (Inr u, w')"
    unfolding go_bind_Inr [of "PlanRepository_GetByID (pay_PlanID pay)"] bind_draws go_bind_Inr
    by (metis (full_types) old.unit.exhaust tick_simps(1))
  have v: "store v = store w1" using staysD [OF billing_reads_pure(1) plan] by simp
  have p: "plan \<in> set (plans (store w))" "pl_ID plan = pay_PlanID pay"
    using plan find_Some_D [of "\<lambda>p. pl_ID p = pay_PlanID pay" "plans (store w)" plan]
    by (auto simp: PlanRepository_GetByID_def scanPlan_def go_bind_Inr get_one_Inr w1_def split: option.splits)
  have v3: "store v3 = (store w1)\<lparr>subscriptions := subscriptions (store w1) @ [paid_subscription i pay plan notif t]\<rparr>"
    using create unfolding v2 v [symmetric]
    by (auto simp: SubscriptionRepository_Create_def go_bind_Inr exec_Inr insert_subscription_def v2 split: if_splits)
  obtain f where f: "store v4 = put_payments (update_where (\<lambda>p. pay_MidtransOrderID p = np_OrderID notif) f
      (payments (store v3))) (store v3)"
    "\<And>p. settled (f p) \<and> order_of (f p) = order_of p \<and> pay_SubscriptionID (f p) = Some i"
    using upd unfolding PaymentRepository_UpdateOnSuccess_def go_bind_Inr exec_Inr
    by (auto simp: sql_update_def settled_def order_of_def split: if_splits)
  from fin obtain v5 where v5: "store v5 = store v4"
    and "BillingService_updateTenantStatus ?T TenantStatusActive v5 = (Inr u, w')"
    unfolding go_ignore_eq using staysD [OF mails_pure(1)] by metis
  from updateTenantStatus_Inr [OF this(2)] obtain g where g: "store w' = put_tenants
      (update_where (\<lambda>r. ID r = ?T \<and> live r) g (tenants (store v4))) (store v4)"
    "\<And>r. ID (g r) = ID r \<and> DeletedAt (g r) = DeletedAt r \<and> t_Status (g r) = TenantStatusActive"
    unfolding v5 by auto
  have "active_sub ?T (paid_subscription i pay plan notif t)" by (simp add: active_sub_def paid_subscription_def)
  from expire_then_create [OF this] have "filter (active_sub ?T) (subscriptions (store w')) = [paid_subscription i pay plan notif t]"
    by (simp add: g f v3 w1_def)
  then show thesis
    by (rule that [OF p, of i t f g]) (use f g in \<open>auto simp: v3 w1_def\<close>)
qed

lemma webhook_settles:
  assumes "BillingService_HandleWebhookNotification s payload body w = (Inr u, w')"
    and "IsSuccessStatus (np_TransactionStatus payload) (np_FraudStatus payload)"
    and "find (\<lambda>p. pay_MidtransOrderID p = np_OrderID payload) (payments (store w)) = Some pay" and "\<not> settled pay"
  shows "BillingService_activateSubscription s pay payload (be_decode s body) (tick w) = (Inr u, w')"
proof -
  have get: "PaymentRepository_GetByMidtransOrderID (np_OrderID payload) w =
      (if faults w (pos w) then Inl ErrDB else Inr pay, tick w)"
    by (simp add: PaymentRepository_GetByMidtransOrderID_def get_one_def go_bind_run query_def assms(3))
  from assms(1,2,4) show ?thesis
    unfolding BillingService_HandleWebhookNotification_def Let_def settled_def go_guard_def
    by (simp add: go_try_run get split: if_splits)
qed

text \<open>C12: A settled payment buys exactly one subscription. When the notification of a successful payment
  for an order that was not settled is handled without an error, and the statement that ends the old
  subscriptions does not fail, the tenant has one active subscription: the one of the order, to the
  plan that was ordered, which ends 28 to 31 days after its beginning, or 365 to 366 days for a
  yearly order. The payment is settled and refers to the subscription, and the tenant is active.\<close>

theorem settlement_opens_one_subscription:
  assumes "BillingService_HandleWebhookNotification s payload body w = (Inr u, w')"
    and "IsSuccessStatus (np_TransactionStatus payload) (np_FraudStatus payload)"
    and "find (\<lambda>p. pay_MidtransOrderID p = np_OrderID payload) (payments (store w)) = Some pay" and "\<not> settled pay"
    and "\<not> faults w (Suc (pos w))"
  shows "\<exists>sub e. filter (active_sub (pay_TenantID pay)) (subscriptions (store w')) = [sub]
    \<and> sub_PlanID sub = pay_PlanID pay \<and> sub_MidtransOrderID sub = Some (np_OrderID payload)
    \<and> sub_ExpiresAt sub = Some e \<and> e - sub_StartedAt sub \<in>
        (if pay_BillingCycle pay = BillingCycleYearly then {365 * day..366 * day} else {28 * day..31 * day})
    \<and> (\<exists>q \<in> set (payments (store w')). order_of q = order_of pay \<and> settled q \<and> pay_SubscriptionID q = Some (sub_ID sub))
    \<and> (\<forall>r \<in> set (tenants (store w')). ID r = pay_TenantID pay \<and> live r \<longrightarrow> t_Status r = TenantStatusActive)"
proof -
  have no_fault: "\<not> faults (tick w) (pos (tick w))" using assms(5) by simp
  note pay = find_Some_D [OF assms(3)]
  from webhook_settles [OF assms(1-4)] no_fault obtain plan t i f g where
      plan: "pl_ID plan = pay_PlanID pay"
    and one: "filter (active_sub (pay_TenantID pay)) (subscriptions (store w')) = [paid_subscription i pay plan payload t]"
    and pays: "payments (store w') = update_where (\<lambda>p. pay_MidtransOrderID p = np_OrderID payload) f (payments (store w))"
    and f: "\<And>p. settled (f p) \<and> order_of (f p) = order_of p \<and> pay_SubscriptionID (f p) = Some i"
    and ten: "tenants (store w') = update_where (\<lambda>r. ID r = pay_TenantID pay \<and> live r) g (tenants (store w))"
    and g: "\<And>r. ID (g r) = ID r \<and> DeletedAt (g r) = DeletedAt r \<and> t_Status (g r) = TenantStatusActive"
    by (rule activate_Inr) simp
  have "f pay \<in> set (payments (store w'))" using pay by (auto simp: pays set_update_where)
  moreover have "\<forall>r \<in> set (tenants (store w')). ID r = pay_TenantID pay \<and> live r \<longrightarrow> t_Status r = TenantStatusActive"
    using g by (auto simp: ten set_update_where)
  ultimately show ?thesis
    using one plan f subscription_end_bounds [of "pay_BillingCycle pay" t]
    by (intro exI [of _ "paid_subscription i pay plan payload t"] exI [of _ "subscription_end (pay_BillingCycle pay) t"])
      (auto simp: paid_subscription_def)
qed

section \<open>The end of a trial\<close>

text \<open>The nightly job gives an ended trial a status that no route accepts.\<close>

definition shut_out :: "uuid \<Rightarrow> db \<Rightarrow> bool" where
  "shut_out i d \<longleftrightarrow> (\<forall>r \<in> set (tenants d). ID r = i \<and> live r \<longrightarrow> t_Status r = ''trial_expired'')"

lemma shut_out_closed: "shut_out i d \<Longrightarrow> \<not> open_tenant b i d"
  by (auto simp: shut_out_def open_tenant_def)

lemma trial_update:
  assumes "TenantRepository_Update (x\<lparr>t_Status := ''trial_expired''\<rparr>) w = (r, w')"
  shows "shut_out i (store w) \<Longrightarrow> shut_out i (store w')"
    and "\<not> faults w (pos w) \<Longrightarrow> ID x = i \<Longrightarrow> shut_out i (store w')"
  using assms unfolding TenantRepository_Update_def
  by (auto simp: exec_rows_def go_bind_run exec_def sql_update_def shut_out_def set_update_where merge_tenant_def
      count_where_0 split: if_splits)

lemma finished_kept: "stays (\<lambda>d d'. I d \<longrightarrow> I d') (Pair (Inr x))"
  by (simp add: stays_def)

lemma expire_trials_kept: "stays (\<lambda>d d'. shut_out i d \<longrightarrow> shut_out i d') (expire_trials t xs)"
proof -
  have "stays (\<lambda>d d'. shut_out i d \<longrightarrow> shut_out i d') (TenantRepository_Update (x\<lparr>t_Status := ''trial_expired''\<rparr>))" for x
    by (rule staysI) (auto dest: trial_update(1))
  then show ?thesis
    by (induction xs; simp only: expire_trials.simps; auto intro!: finished_kept kept.all_stays)
qed

lemma expire_trials_shuts:
  assumes "x \<in> set xs" and "t_Status x = TenantStatusTrial" and "t_TrialEndsAt x = Some e" and "e < t"
    and "\<forall>n. \<not> faults w n"
  shows "shut_out (ID x) (store (snd (expire_trials t xs w)))"
  using assms
proof (induction xs arbitrary: w)
  case (Cons y ys)
  obtain r v where v: "TenantRepository_Update (y\<lparr>t_Status := ''trial_expired''\<rparr>) w = (r, v)" by fastforce
  have faults: "faults v = faults w"
    using v by (auto simp: TenantRepository_Update_def exec_rows_def go_bind_run exec_def split: if_splits prod.splits)
  show ?case
  proof (cases "y = x")
    case True
    with v Cons.prems trial_update(2) [OF v] have "shut_out (ID x) (store v)" by simp
    with staysD [OF expire_trials_kept [of "ID x" t ys], of v] show ?thesis
      using True Cons.prems v by (simp add: go_ignore_def go_try_run) (metis prod.collapse)
  next
    case False
    with Cons v faults show ?thesis by (simp add: go_ignore_def go_try_run)
  qed
qed simp

lemma expire_subscriptions_kept:
  assumes "\<forall>sub \<in> set subs. sub_TenantID sub \<noteq> i"
  shows "stays (\<lambda>d d'. shut_out i d \<longrightarrow> shut_out i d') (expire_subscriptions s t subs)"
proof -
  have other: "stays (\<lambda>d d'. shut_out i d \<longrightarrow> shut_out i d') (BillingService_updateTenantStatus j TenantStatusSuspended)"
    if "j \<noteq> i" for j
  proof (rule staysI)
    fix w r w'
    assume run: "BillingService_updateTenantStatus j TenantStatusSuspended w = (r, w')"
    show "shut_out i (store w) \<longrightarrow> shut_out i (store w')"
    proof (cases r)
      case (Inl e)
      with run have "store w' = store w"
        by (auto simp: BillingService_updateTenantStatus_def TenantRepository_GetByID_def TenantRepository_Update_def
            go_bind_Inl get_one_Inr get_one_Inl tenants_table.update_fails split: if_splits)
      then show ?thesis by simp
    next
      case (Inr u)
      with run obtain f where "store w' = put_tenants (update_where (\<lambda>r. ID r = j \<and> live r) f (tenants (store w))) (store w)"
        "\<forall>r. ID (f r) = ID r" using updateTenantStatus_Inr [of j TenantStatusSuspended w u w'] by auto
      with that show ?thesis by (auto simp: shut_out_def set_update_where)
    qed
  qed
  have subs: "stays (\<lambda>d d'. shut_out i d \<longrightarrow> shut_out i d') (SubscriptionRepository_UpdateStatus k st)" for k st
    unfolding SubscriptionRepository_UpdateStatus_def
    by (auto intro!: kept.all_stays simp: sql_update_def shut_out_def)
  have mail: "stays (\<lambda>d d'. shut_out i d \<longrightarrow> shut_out i d') (BillingService_sendReminderEmail s j e)" for j e
    by (rule stays_mono [OF mails_pure(2)]) simp
  show ?thesis
    using assms
    by (induction subs; simp only: expire_subscriptions.simps; auto intro!: finished_kept kept.all_stays other subs mail
        split: option.split)
qed

lemma expire_trials_subscriptions: "stays (\<lambda>d d'. subscriptions d' = subscriptions d) (expire_trials t xs)"
proof -
  have "stays (\<lambda>d d'. subscriptions d' = subscriptions d) (TenantRepository_Update x)" for x
    unfolding TenantRepository_Update_def by (rule same.exec_rows_stays) (auto simp: sql_update_def)
  then show ?thesis
    by (induction xs; simp only: expire_trials.simps; auto intro!: finished_stays same.all_stays)
qed

lemma nightly_job_shuts:
  assumes "\<forall>n. \<not> faults w n" and "x \<in> set (tenants (store w))" and "live x"
    and "t_Status x = TenantStatusTrial" and "t_TrialEndsAt x = Some e" and "e < clock w (Suc (pos w))"
    and "\<forall>sub \<in> set (subscriptions (store w)). \<not> active_sub (ID x) sub"
  shows "shut_out (ID x) (store (snd (BillingService_ProcessExpiredSubscriptions s w)))"
proof -
  let ?ts = "filter (\<lambda>t. t_Status t \<in> {''trial'', ''active''} \<and> live t) (tenants (store w))"
  let ?t = "clock w (Suc (pos w))" and ?w = "tick (tick w)"
  obtain r1 w1 where w1: "expire_trials ?t ?ts ?w = (r1, w1)" by fastforce
  have shut: "shut_out (ID x) (store w1)"
    using expire_trials_shuts [of x ?ts e ?t ?w] assms(1-6) w1 by auto
  let ?subs = "filter (\<lambda>s. sub_Status s = ''active'') (subscriptions (store w1))"
  have "subscriptions (store w1) = subscriptions (store w)"
    using staysD [OF expire_trials_subscriptions w1] by simp
  with assms(7) have "\<forall>sub \<in> set ?subs. sub_TenantID sub \<noteq> ID x" by (auto simp: active_sub_def)
  from expire_subscriptions_kept [OF this, of s ?t] have
    "shut_out (ID x) (store (snd (expire_subscriptions s ?t ?subs (tick w1))))" using shut by (simp add: stays_def)
  with shut w1 show ?thesis
    unfolding BillingService_ProcessExpiredSubscriptions_def TenantRepository_ListActive_def
      SubscriptionRepository_ListActive_def
    by (cases r1) (auto simp: go_bind_run query_def now_def assms(1))
qed

text \<open>C16: A tenant whose trial has ended cannot pay. After the nightly job has run without a failing
  statement, every request to a billing route for a tenant whose trial had ended, and that has no
  active subscription, is refused: the job stores the status \<open>trial_expired\<close>, which the tenant
  check does not accept even on the billing paths, where it accepts a suspended tenant.\<close>

theorem ended_trial_cannot_pay:
  assumes "\<forall>n. \<not> faults w n" and "x \<in> set (tenants (store w))" and "live x"
    and "t_Status x = TenantStatusTrial" and "t_TrialEndsAt x = Some e" and "e < clock w (Suc (pos w))"
    and "\<forall>sub \<in> set (subscriptions (store w)). \<not> active_sub (ID x) sub"
    and "database (store v) = store (snd (BillingService_ProcessExpiredSubscriptions s w))"
    and "coherent (store v)" and "billing_route g p h rq no_context v = (r, v')"
    and "rq_Header rq ''X-Tenant-ID'' \<noteq> []" and "ge_uuid g (rq_Header rq ''X-Tenant-ID'') = Some (ID x)"
    and "\<not> defaultTenantSkipper rq"
  shows "refused v r v'"
proof -
  have closed: "\<not> open_tenant b (ID x) (database (store v))" for b
    using shut_out_closed [OF nightly_job_shuts [OF assms(1-7)]] unfolding assms(8) .
  show ?thesis
  proof (rule ccontr)
    assume "\<not> refused v r v'"
    with billing_chain.chain_passes [OF assms(10) [unfolded billing_route_def] assms(9)] assms(11-13) closed
    show False by (auto simp: same_data_def)
  qed
qed

section \<open>Concrete notifications\<close>

definition demo_plan :: plan where
  "demo_plan = \<lparr>pl_ID = 30, pl_Name = ''starter'', pl_DisplayName = ''Starter'', pl_BillingCycle = ''monthly'',
     pl_PriceIDR = 199000, pl_MaxGuests = Some 500, pl_MaxEvents = Some 1, pl_MaxTeamMembers = Some 3,
     pl_MaxCampaignsPerMonth = Some 3, pl_MaxCSVImportRows = Some 500, pl_Features = Some no_features,
     pl_IsActive = True, pl_SortOrder = 10, pl_CreatedAt = 0, pl_UpdatedAt = 0\<rparr>"

definition demo_payment :: payment where
  "demo_payment = pending_payment 40 1 demo_plan ''GF-1'' ''monthly'' 0"

definition billing_db :: db where
  "billing_db = demo_db\<lparr>tenants := [demo_tenant\<lparr>t_Status := TenantStatusSuspended\<rparr>], plans := [demo_plan],
     payments := [demo_payment]\<rparr>"

definition demo_billing :: billing_env where
  "demo_billing = \<lparr>be_client = \<lparr>mc_serverKey = ''key'', mc_clientKey = [], mc_isProduction = False\<rparr>,
     be_snap = (\<lambda>n req. Some ''snap''), be_delivers = (\<lambda>n a b c. True), be_decode = (\<lambda>body. None),
     be_rnd = id, be_rfc3339 = (\<lambda>t. []), be_longDate = (\<lambda>t. [])\<rparr>"

text \<open>A notification that Midtrans signed for the given code.\<close>

definition demo_notice :: "string \<Rightarrow> string \<Rightarrow> notification_payload" where
  "demo_notice code status = \<lparr>np_TransactionTime = [], np_TransactionStatus = status, np_TransactionID = ''tx'',
     np_SignatureKey = hex_EncodeToString (sha512_Sum (bytes_of (''GF-1'' @ code @ ''199000.00'' @ ''key''))),
     np_PaymentType = ''qris'', np_OrderID = ''GF-1'', np_MerchantID = [], np_GrossAmount = ''199000.00'',
     np_FraudStatus = [], np_Currency = ''IDR'', np_VANumbers = []\<rparr>"

lemma demo_notice_signed:
  "code \<in> {''200'', ''201'', ''407''} \<Longrightarrow> signature_ok (be_client demo_billing) (demo_notice code status)"
  "np_SignatureKey (demo_notice code status) \<noteq> []"
  by (auto simp: signature_ok_def VerifySignature_def demo_billing_def demo_notice_def EqualFold_refl signature_nonempty)

lemma demo_notice_sel: "np_OrderID (demo_notice code status) = ''GF-1''"
  "np_GrossAmount (demo_notice code status) = ''199000.00''" "np_TransactionStatus (demo_notice code status) = status"
  by (simp_all add: demo_notice_def)

lemmas bill_eval = BillingService_HandleWebhookNotification_def BillingService_activateSubscription_def
  PaymentRepository_GetByMidtransOrderID_def SubscriptionRepository_ExpireAllActive_def PlanRepository_GetByID_def
  scanPlan_def SubscriptionRepository_Create_def insert_subscription_def PaymentRepository_UpdateOnSuccess_def
  BillingService_sendReceiptEmail_def TenantUserRepository_ListByTenant_def BillingService_updateTenantStatus_def
  TenantRepository_GetByID_def TenantRepository_Update_def

lemma demo_settles:
  assumes "code \<in> {''200'', ''201'', ''407''}"
  shows "fst (BillingService_HandleWebhookNotification demo_billing (demo_notice code ''settlement'') [] (demo_world billing_db)) = Inr ()"
  using demo_notice_signed(1) [OF assms] demo_notice_signed(2)
  by (simp add: bill_eval go_eval billing_db_def demo_payment_def pending_payment_def IsSuccessStatus_def demo_plan_def
      demo_notice_sel paid_subscription_def has_id_def demo_tenant_def)

lemma demo_order:
  "find (\<lambda>p. pay_MidtransOrderID p = np_OrderID (demo_notice code status)) (payments (store (demo_world billing_db)))
     = Some demo_payment"
  "\<not> settled demo_payment" "pay_TenantID demo_payment = 1" "payments billing_db = [demo_payment]"
  by (simp_all add: demo_notice_sel billing_db_def demo_payment_def pending_payment_def settled_def)

lemma demo_run:
  assumes "code \<in> {''200'', ''201'', ''407''}"
  obtains w' where "BillingService_HandleWebhookNotification demo_billing (demo_notice code ''settlement'') []
    (demo_world billing_db) = (Inr (), w')" and "\<exists>p. payments (store w') = [p] \<and> settled p"
proof -
  let ?run = "BillingService_HandleWebhookNotification demo_billing (demo_notice code ''settlement'') [] (demo_world billing_db)"
  have run: "?run = (Inr (), snd ?run)" using demo_settles [OF assms] by (simp add: prod_eq_iff)
  have "BillingService_activateSubscription demo_billing demo_payment (demo_notice code ''settlement'')
      (be_decode demo_billing []) (tick (demo_world billing_db)) = (Inr (), snd ?run)"
    by (rule webhook_settles [OF run _ demo_order(1,2)]) (simp add: IsSuccessStatus_def demo_notice_sel)
  then show thesis
    by (rule activate_Inr) (use run that demo_order in \<open>auto simp: demo_notice_sel demo_payment_def pending_payment_def\<close>)
qed

theorem payments_follow_their_life_cycle_witness:
  "payment_step demo_billing (Notify (demo_notice ''200'' ''settlement'') []) [demo_payment]
     (payments (store (snd (serve_billing demo_billing
       (Notify (demo_notice ''200'' ''settlement'') []) (demo_world billing_db)))))
   \<and> payment_step demo_billing NightlyJob [demo_payment]
     (payments (store (snd (serve_billing demo_billing NightlyJob (demo_world billing_db)))))"
  using payments_follow_their_life_cycle [of "demo_world billing_db"]
  by (auto simp: billing_db_def payments_ok_def)

theorem settled_payments_are_final_witness:
  "let p = demo_payment\<lparr>pay_Status := PaymentStatusSuccess\<rparr> in
     p \<in> set (payments (store (serve_all (map (serve_billing demo_billing)
       [Notify (demo_notice ''200'' ''deny'') [], NightlyJob]) (demo_world (billing_db\<lparr>payments := [p]\<rparr>)))))"
  unfolding Let_def by (rule settled_payments_are_final) (simp_all add: payments_ok_def settled_def)

theorem only_signed_notifications_have_effect_witness:
  "\<exists>p \<in> set (payments billing_db). pay_MidtransOrderID p = ''GF-1'' \<and> \<not> settled p"
proof -
  obtain w' where run: "BillingService_HandleWebhookNotification demo_billing (demo_notice ''200'' ''settlement'') []
      (demo_world billing_db) = (Inr (), w')" and "\<exists>p. payments (store w') = [p] \<and> settled p"
    by (rule demo_run [of "''200''"]) simp_all
  then have "store w' \<noteq> store (demo_world billing_db)" using demo_order(2,4) by auto
  from only_signed_notifications_have_effect [OF run this] show ?thesis by (simp add: demo_notice_sel)
qed

theorem settlement_opens_one_subscription_witness:
  "\<exists>sub w'. BillingService_HandleWebhookNotification demo_billing (demo_notice ''200'' ''settlement'') []
      (demo_world billing_db) = (Inr (), w') \<and> filter (active_sub 1) (subscriptions (store w')) = [sub]"
proof -
  obtain w' where run: "BillingService_HandleWebhookNotification demo_billing (demo_notice ''200'' ''settlement'') []
      (demo_world billing_db) = (Inr (), w')" by (rule demo_run [of "''200''"]) simp_all
  have "IsSuccessStatus (np_TransactionStatus (demo_notice ''200'' ''settlement''))
      (np_FraudStatus (demo_notice ''200'' ''settlement''))" by (simp add: demo_notice_sel IsSuccessStatus_def)
  from settlement_opens_one_subscription [OF run this demo_order(1,2)] run show ?thesis
    by (auto simp: demo_order)
qed

definition ended_trial_db :: db where
  "ended_trial_db = demo_db\<lparr>tenants := [demo_tenant\<lparr>t_Status := TenantStatusTrial, t_TrialEndsAt := Some (-1)\<rparr>]\<rparr>"

definition demo_checkout :: request where
  "demo_checkout = \<lparr>rq_Header = (\<lambda>n. if n = ''Authorization'' then ''Bearer tok'' else if n = ''X-Tenant-ID'' then ''1'' else []),
     rq_Param = (\<lambda>n. []), rq_Path = ''/api/v1/billing/checkout'', rq_Method = ''POST''\<rparr>"

lemma demo_checkout_guarded: "\<not> defaultTenantSkipper demo_checkout" "rq_Header demo_checkout ''X-Tenant-ID'' = ''1''"
  by (simp_all add: defaultTenantSkipper_def demo_checkout_def)

theorem ended_trial_cannot_pay_witness:
  "let v = demo_process (store (snd (BillingService_ProcessExpiredSubscriptions demo_billing (demo_world ended_trial_db))));
       run = billing_route demo_guard PermBillingWrite (\<lambda>rq cx. go_ret (Answered ())) demo_checkout no_context v
   in refused v (fst run) (snd run)"
  unfolding Let_def
  by (rule ended_trial_cannot_pay [where w = "demo_world ended_trial_db" and s = demo_billing and e = "-1" and g = demo_guard
        and x = "demo_tenant\<lparr>t_Status := TenantStatusTrial, t_TrialEndsAt := Some (-1)\<rparr>" and rq = demo_checkout
        and p = PermBillingWrite and h = "\<lambda>rq cx. go_ret (Answered ())"])
    (simp_all add: ended_trial_db_def demo_process_simps demo_checkout_guarded demo_ids demo_tenant_def)

section \<open>Where the service falls short\<close>

text \<open>
  The signature does not cover the status of the transaction, and the handler tries the code of a
  pending payment too: the signature of a notification that the payment is pending settles it.
\<close>

lemma pending_signature_settles:
  "\<exists>w' p. BillingService_HandleWebhookNotification demo_billing (demo_notice ''201'' ''settlement'') []
     (demo_world billing_db) = (Inr (), w') \<and> payments (store w') = [p] \<and> settled p"
  by (rule demo_run [of "''201''"]) auto

text \<open>
  A payment is settled before the tenant is made active. When the last step fails, the gateway is told
  to try again, but every later notification of the order is answered without looking at the tenant:
  it has paid and stays suspended.
\<close>

lemma paid_tenant_stays_suspended:
  fixes w defines "w \<equiv> (demo_world billing_db)\<lparr>faults := (\<lambda>n. n = 8)\<rparr>"
  shows "\<exists>w'. BillingService_HandleWebhookNotification demo_billing (demo_notice ''200'' ''settlement'') [] w = (Inl ErrDB, w')
    \<and> (\<exists>p. payments (store w') = [p] \<and> settled p) \<and> map t_Status (tenants (store w')) = [TenantStatusSuspended]
    \<and> (\<forall>s payload body v r v'. np_OrderID payload = ''GF-1'' \<and> store v = store w'
        \<and> BillingService_HandleWebhookNotification s payload body v = (r, v') \<longrightarrow> store v' = store v)"
proof -
  let ?run = "BillingService_HandleWebhookNotification demo_billing (demo_notice ''200'' ''settlement'') [] w"
  have code: "''200'' \<in> {''200'', ''201'', ''407''}" by simp
  have run: "fst ?run = Inl ErrDB \<and> map t_Status (tenants (store (snd ?run))) = [TenantStatusSuspended]
      \<and> (\<exists>p. payments (store (snd ?run)) = [p] \<and> settled p \<and> pay_MidtransOrderID p = ''GF-1'')"
    using demo_notice_signed(1) [OF code] demo_notice_signed(2)
    by (simp add: bill_eval go_eval billing_db_def demo_payment_def pending_payment_def IsSuccessStatus_def demo_plan_def
      demo_notice_sel paid_subscription_def has_id_def demo_tenant_def w_def settled_def)
  have "store v' = store v" if "np_OrderID payload = ''GF-1''" "store v = store (snd ?run)"
    "BillingService_HandleWebhookNotification s payload body v = (r, v')" for s payload body v r v'
    using that(3) by (cases rule: webhook_cases) (use that(1,2) run in auto)
  with run show ?thesis by (intro exI [of _ "snd ?run"]) (auto simp: prod_eq_iff)
qed

text \<open>
  Receipts and reminders go to members with the roles \<open>owner\<close> and \<open>admin\<close>, and no role has such a name:
  no mail is ever written. The run only reads the members.
\<close>

lemma no_receipt_is_written:
  assumes "\<forall>m \<in> set (tenant_users (store w)). IsValidRole (m_Role m)"
  shows "BillingService_sendReceiptEmail s t pay plan w = (Inr (), tick w)"
proof -
  have "mail_members s subject body ms v = (Inr (), v)" if "\<forall>m \<in> set ms. IsValidRole (m_Role m)" for subject body ms v
    using that by (induction ms) (auto simp: IsValidRole_def RolePermissions_def)
  then show ?thesis
    using assms unfolding BillingService_sendReceiptEmail_def TenantUserRepository_ListByTenant_def
    by (auto simp: go_try_run query_def)
qed

end
