(* ===== verification/Guests.thy ===== *)
theory Guests
  imports Checkin Billing
begin

text \<open>
  The guest book of a tenant: \<open>guest_service.go\<close>, the rest of \<open>guest_repository.go\<close> and the update
  of \<open>domain/guest.go\<close>. The lemmas show when two live guests of a tenant can share a phone number
  or an address, what a creation and an update store, and what a partial update erases. The
  server's \<open>ILIKE\<close> and the billing service (which may be nil) are parameters.
\<close>

section \<open>Requests\<close>

record guest_update_request =
  gur_FullName :: string
  gur_Nickname :: string
  gur_Phone :: string
  gur_Email :: string
  gur_Address :: string
  gur_City :: string
  gur_Country :: string
  gur_Language :: string
  gur_GuestType :: string
  gur_Segment :: string
  gur_Institution :: string
  gur_Title :: string
  gur_Relationship :: string
  gur_PIC :: string
  gur_AccessibilityNeeds :: string
  gur_DietaryRestrictions :: string
  gur_Allergies :: string
  gur_Notes :: string
  gur_ConsentCommunication :: "bool option"
  gur_IsActive :: "bool option"

record guest_list_params =
  glp_TenantID :: uuid
  glp_Search :: string
  glp_GuestType :: string
  glp_Segment :: string
  glp_Status :: "bool option"
  glp_Page :: int
  glp_PerPage :: int

record guest_detail =
  gd_Guest :: guest
  gd_Checkins :: "checkin list"

definition IsValidGuestType :: "string \<Rightarrow> bool" where
  "IsValidGuestType gt \<longleftrightarrow> List.member [''vip'', ''vvip'', ''family'', ''friend'', ''colleague'', ''government'',
     ''media'', ''sponsor'', ''vendor'', ''speaker'', ''participant'', ''internal'', ''protocol'',
     ''security'', ''general''] gt"

text \<open>
  \<open>Guest.ApplyUpdate\<close> at time \<open>t\<close>: an empty field of the request keeps what is stored, except that
  an empty phone number or address erases it.
\<close>

definition Guest_ApplyUpdate :: "guest_update_request \<Rightarrow> uuid \<Rightarrow> time \<Rightarrow> guest \<Rightarrow> guest" where
  "Guest_ApplyUpdate req updatedBy t g = g\<lparr>UpdatedAt := t, g_UpdatedBy := Some updatedBy,
     g_FullName := (if gur_FullName req \<noteq> [] then gur_FullName req else g_FullName g),
     g_Nickname := set_str (gur_Nickname req) (g_Nickname g),
     g_Phone := opt_str (gur_Phone req),
     g_Email := opt_str (gur_Email req),
     g_Address := set_str (gur_Address req) (g_Address g),
     g_City := set_str (gur_City req) (g_City g),
     g_Country := set_str (gur_Country req) (g_Country g),
     g_Language := (if gur_Language req \<noteq> [] then gur_Language req else g_Language g),
     g_GuestType := (if gur_GuestType req \<noteq> [] then gur_GuestType req else g_GuestType g),
     g_Segment := set_str (gur_Segment req) (g_Segment g),
     g_Institution := set_str (gur_Institution req) (g_Institution g),
     g_Title := set_str (gur_Title req) (g_Title g),
     g_Relationship := set_str (gur_Relationship req) (g_Relationship g),
     g_PIC := set_str (gur_PIC req) (g_PIC g),
     g_AccessibilityNeeds := set_str (gur_AccessibilityNeeds req) (g_AccessibilityNeeds g),
     g_DietaryRestrictions := set_str (gur_DietaryRestrictions req) (g_DietaryRestrictions g),
     g_Allergies := set_str (gur_Allergies req) (g_Allergies g),
     g_Notes := set_str (gur_Notes req) (g_Notes g),
     g_ConsentCommunication := (case gur_ConsentCommunication req of None \<Rightarrow> g_ConsentCommunication g | Some b \<Rightarrow> b),
     g_IsActive := (case gur_IsActive req of None \<Rightarrow> g_IsActive g | Some b \<Rightarrow> b)\<rparr>"

section \<open>The repository\<close>

text \<open>\<open>buildWhereClause\<close>; a \<open>NULL\<close> column matches no search and no segment.\<close>

definition guest_where :: "(string \<Rightarrow> string \<Rightarrow> bool) \<Rightarrow> guest_list_params \<Rightarrow> guest \<Rightarrow> bool" where
  "guest_where ilike p g \<longleftrightarrow> TenantID g = glp_TenantID p \<and> live g
     \<and> (let search = TrimSpace (glp_Search p); pat = ''%'' @ search @ ''%'' in
        search = [] \<or> ilike (g_FullName g) pat
        \<or> (case g_Phone g of None \<Rightarrow> False | Some x \<Rightarrow> ilike x pat)
        \<or> (case g_Email g of None \<Rightarrow> False | Some x \<Rightarrow> ilike x pat))
     \<and> (glp_GuestType p = [] \<or> g_GuestType g = glp_GuestType p)
     \<and> (glp_Segment p = [] \<or> g_Segment g = Some (glp_Segment p))
     \<and> (case glp_Status p of None \<Rightarrow> True | Some b \<Rightarrow> g_IsActive g = b)"

definition GuestRepository_ListByTenant ::
  "(string \<Rightarrow> string \<Rightarrow> bool) \<Rightarrow> guest_list_params \<Rightarrow> guest list app" where
  "GuestRepository_ListByTenant ilike p =
     (let page = (if glp_Page p < 1 then 1 else glp_Page p);
          perPage = (if glp_PerPage p < 1 then 20 else glp_PerPage p);
          off = i64 ((page - 1) * perPage) in
      get_one ErrDB (\<lambda>d. if off < 0 then None else Some (limit_offset perPage off
        (sort_key (\<lambda>g. - CreatedAt g) (filter (guest_where ilike p) (guests d))))))"

definition GuestRepository_CountByTenant ::
  "(string \<Rightarrow> string \<Rightarrow> bool) \<Rightarrow> guest_list_params \<Rightarrow> int app" where
  "GuestRepository_CountByTenant ilike p =
     query (\<lambda>d. int (count_where (guest_where ilike p) (guests d)))"

text \<open>The \<open>SET\<close> list of \<open>Update\<close>: every column but the key, the tenant and what a creation fixes.\<close>

definition merge_guest :: "guest \<Rightarrow> guest \<Rightarrow> guest" where
  "merge_guest g r = g\<lparr>ID := ID r, CreatedAt := CreatedAt r, DeletedAt := DeletedAt r,
     TenantID := TenantID r, g_CreatedBy := g_CreatedBy r\<rparr>"

definition GuestRepository_Update :: "guest \<Rightarrow> unit app" where
  "GuestRepository_Update g = exec_rows ErrNotFound (\<lambda>srv d.
     if list_ex (guest_key (TenantID g) (ID g)) (guests d) \<and> \<not> has_id_opt (g_UpdatedBy g) (users d) then None
     else Some (sql_update guests put_guests (guest_key (TenantID g) (ID g)) (merge_guest g) d))"

text \<open>\<open>BulkCreate\<close>: one prepared statement, executed for each guest, in one transaction.\<close>

fun bulk_insert :: "guest list \<Rightarrow> unit app" where
  "bulk_insert [] = go_ret ()"
| "bulk_insert (g # gs) = go_bind (exec (insert_guest g)) (\<lambda>_. bulk_insert gs)"

definition GuestRepository_BulkCreate :: "guest list \<Rightarrow> unit app" where
  "GuestRepository_BulkCreate gs = (if gs = [] then go_ret ()
     else RunInTransaction (go_bind (query (\<lambda>_. ())) (\<lambda>_. bulk_insert gs)))"

text \<open>
  \<open>CheckDuplicates\<close>: the map from \<open>phone:\<close> and \<open>email:\<close> keys to the guest that has the value; a later
  row of the result replaces an earlier one.
\<close>

definition in_column :: "string list \<Rightarrow> string option \<Rightarrow> bool" where
  "in_column xs v = (case v of None \<Rightarrow> False | Some x \<Rightarrow> x \<in> set xs)"

definition column_ids ::
  "string \<Rightarrow> (guest \<Rightarrow> string option) \<Rightarrow> guest list \<Rightarrow> (string \<Rightarrow> uuid option) \<Rightarrow> string \<Rightarrow> uuid option" where
  "column_ids key col rows m = fold (\<lambda>g m. m(key @ the (col g) \<mapsto> ID g)) rows m"

definition duplicate_query ::
  "uuid \<Rightarrow> string \<Rightarrow> (guest \<Rightarrow> string option) \<Rightarrow> string list \<Rightarrow> (string \<Rightarrow> uuid option) \<Rightarrow> (string \<Rightarrow> uuid option) app" where
  "duplicate_query t key col xs m = (if xs = [] then go_ret m else
     go_bind (query (\<lambda>d. filter (\<lambda>g. TenantID g = t \<and> live g \<and> in_column xs (col g)) (guests d)))
       (\<lambda>rows. go_ret (column_ids key col rows m)))"

definition GuestRepository_CheckDuplicates ::
  "uuid \<Rightarrow> string list \<Rightarrow> string list \<Rightarrow> (string \<Rightarrow> uuid option) app" where
  "GuestRepository_CheckDuplicates t phones emails =
     go_bind (duplicate_query t ''phone:'' g_Phone phones (\<lambda>_. None)) (\<lambda>m.
     duplicate_query t ''email:'' g_Email emails m)"

text \<open>
  \<open>FindByPhoneOrEmail\<close>: a live guest of the tenant with the phone number or the address. Which of
  several the server picks is not said; no caller depends on it.
\<close>

definition contact_matches :: "uuid \<Rightarrow> string \<Rightarrow> string \<Rightarrow> guest \<Rightarrow> bool" where
  "contact_matches t phone email g \<longleftrightarrow> TenantID g = t \<and> live g
     \<and> ((phone \<noteq> [] \<and> g_Phone g = Some phone) \<or> (email \<noteq> [] \<and> g_Email g = Some email))"

definition GuestRepository_FindByPhoneOrEmail :: "uuid \<Rightarrow> string \<Rightarrow> string \<Rightarrow> guest app" where
  "GuestRepository_FindByPhoneOrEmail t phone email =
     (if phone = [] \<and> email = [] then go_fail ErrOther
      else get_one ErrNotFound (\<lambda>d. find (contact_matches t phone email) (guests d)))"

section \<open>The service\<close>

text \<open>
  The quota of \<open>Create\<close>, for a service with a billing service: errors of the two lookups count as
  no limit.
\<close>

definition guest_quota_reached :: "billing_env option \<Rightarrow> (string \<Rightarrow> string \<Rightarrow> bool) \<Rightarrow> uuid \<Rightarrow> bool app" where
  "guest_quota_reached billing ilike tenantID = (case billing of None \<Rightarrow> go_ret False | Some s \<Rightarrow>
     go_try (BillingService_GetSubscriptionStatus s tenantID) (\<lambda>r.
       case (case r of Inl _ \<Rightarrow> None | Inr st \<Rightarrow> ssr_MaxGuests st) of
         None \<Rightarrow> go_ret False
       | Some limit \<Rightarrow>
           go_try (GuestRepository_CountByTenant ilike \<lparr>glp_TenantID = tenantID, glp_Search = [],
             glp_GuestType = [], glp_Segment = [], glp_Status = None, glp_Page = 0, glp_PerPage = 0\<rparr>) (\<lambda>c.
             go_ret (case c of Inl _ \<Rightarrow> False | Inr n \<Rightarrow> limit \<le> n))))"

text \<open>The lookups of duplicates, whose errors count as \<open>none found\<close>.\<close>

definition contact_taken :: "uuid \<Rightarrow> string \<Rightarrow> string \<Rightarrow> uuid option app" where
  "contact_taken tenantID phone email =
     go_try (GuestRepository_FindByPhoneOrEmail tenantID phone email) (\<lambda>r.
       go_ret (case r of Inl _ \<Rightarrow> None | Inr g \<Rightarrow> Some (ID g)))"

definition trim_contacts :: "guest_create_request \<Rightarrow> guest_create_request" where
  "trim_contacts req = req\<lparr>gcr_FullName := TrimSpace (gcr_FullName req),
     gcr_Email := TrimSpace (gcr_Email req), gcr_Phone := TrimSpace (gcr_Phone req)\<rparr>"

definition GuestService_Create ::
  "billing_env option \<Rightarrow> (string \<Rightarrow> string \<Rightarrow> bool) \<Rightarrow> uuid \<Rightarrow> uuid \<Rightarrow> guest_create_request \<Rightarrow> guest app" where
  "GuestService_Create billing ilike tenantID createdBy req0 =
     go_bind (guest_quota_reached billing ilike tenantID) (\<lambda>full. go_guard full ErrOther (
     let req = trim_contacts req0 in
     go_bind (if gcr_Email req \<noteq> [] then contact_taken tenantID [] (gcr_Email req) else go_ret None) (\<lambda>x.
     go_guard (x \<noteq> None) ErrAlreadyExists (
     go_bind (if gcr_Phone req \<noteq> [] then contact_taken tenantID (gcr_Phone req) [] else go_ret None) (\<lambda>y.
     go_guard (y \<noteq> None) ErrAlreadyExists (
     go_bind (NewGuest tenantID createdBy req) (\<lambda>guest.
     go_bind (GuestRepository_Create guest) (\<lambda>_.
     go_ignore (LogWithUser createdBy tenantID AuditActionCreate ''guest'' (ID guest) None
       (Some [(''full_name'', JString (g_FullName guest)), (''guest_type'', JString (g_GuestType guest))])) (
     go_ret guest)))))))))"

definition GuestService_Get :: "uuid \<Rightarrow> uuid \<Rightarrow> guest_detail app" where
  "GuestService_Get tenantID guestID =
     go_bind (GuestRepository_GetByIDForTenant tenantID guestID) (\<lambda>guest.
     go_bind (CheckinRepository_ListByGuest tenantID guestID) (\<lambda>cs.
     go_ret \<lparr>gd_Guest = guest, gd_Checkins = cs\<rparr>))"

definition GuestService_List ::
  "(string \<Rightarrow> string \<Rightarrow> bool) \<Rightarrow> guest_list_params \<Rightarrow> (guest list \<times> int) app" where
  "GuestService_List ilike p0 =
     (let p = p0\<lparr>glp_Page := (if glp_Page p0 < 1 then 1 else glp_Page p0),
                glp_PerPage := (if glp_PerPage p0 < 1 then 20 else glp_PerPage p0)\<rparr> in
      go_bind (GuestRepository_ListByTenant ilike p) (\<lambda>gs.
      go_bind (GuestRepository_CountByTenant ilike p) (\<lambda>n. go_ret (gs, n))))"

definition guest_values :: "guest \<Rightarrow> jsonmap" where
  "guest_values g = [(''full_name'', JString (g_FullName g)), (''guest_type'', JString (g_GuestType g)),
     (''phone'', case g_Phone g of None \<Rightarrow> JNull | Some s \<Rightarrow> JString s),
     (''email'', case g_Email g of None \<Rightarrow> JNull | Some s \<Rightarrow> JString s), (''is_active'', JBool (g_IsActive g))]"

definition GuestService_Update :: "uuid \<Rightarrow> uuid \<Rightarrow> uuid \<Rightarrow> guest_update_request \<Rightarrow> guest app" where
  "GuestService_Update tenantID guestID updatedBy req =
     go_bind (GuestRepository_GetByIDForTenant tenantID guestID) (\<lambda>old.
     go_bind (if gur_Email req \<noteq> [] \<and> g_Email old \<noteq> Some (gur_Email req)
              then contact_taken tenantID [] (gur_Email req) else go_ret None) (\<lambda>x.
     go_guard (x \<noteq> None \<and> x \<noteq> Some guestID) ErrAlreadyExists (
     go_bind (if gur_Phone req \<noteq> [] \<and> g_Phone old \<noteq> Some (gur_Phone req)
              then contact_taken tenantID (gur_Phone req) [] else go_ret None) (\<lambda>y.
     go_guard (y \<noteq> None \<and> y \<noteq> Some guestID) ErrAlreadyExists (
     go_bind now (\<lambda>t. let guest = Guest_ApplyUpdate req updatedBy t old in
     go_bind (GuestRepository_Update guest) (\<lambda>_.
     go_ignore (LogWithUser updatedBy tenantID AuditActionUpdate ''guest'' guestID
       (Some (guest_values old)) (Some (guest_values guest))) (
     go_ret guest))))))))"

definition GuestService_Delete :: "uuid \<Rightarrow> uuid \<Rightarrow> uuid \<Rightarrow> unit app" where
  "GuestService_Delete tenantID guestID deletedBy =
     go_bind (GuestRepository_SoftDelete tenantID guestID) (\<lambda>_.
     go_ignore (LogWithUser deletedBy tenantID AuditActionDelete ''guest'' guestID
       (Some [(''deleted'', JBool True)]) None) (go_ret ()))"

definition GuestService_Search :: "(string \<Rightarrow> string \<Rightarrow> bool) \<Rightarrow> uuid \<Rightarrow> string \<Rightarrow> guest list app" where
  "GuestService_Search ilike tenantID q = GuestRepository_ListByTenant ilike
     \<lparr>glp_TenantID = tenantID, glp_Search = q, glp_GuestType = [], glp_Segment = [], glp_Status = None,
      glp_Page = 1, glp_PerPage = 50\<rparr>"

definition GuestService_CheckDuplicates ::
  "uuid \<Rightarrow> string list \<Rightarrow> string list \<Rightarrow> (string \<Rightarrow> uuid option) app" where
  "GuestService_CheckDuplicates = GuestRepository_CheckDuplicates"

section \<open>The streams of a run\<close>

text \<open>A call that never fails statements of its own accord: the stream of faults is the same after it.\<close>

definition steady :: "('d, 'a) go \<Rightarrow> bool" where
  "steady m \<longleftrightarrow> (\<forall>w. faults (snd (m w)) = faults w)"

lemma steadyD: "steady m \<Longrightarrow> m w = (r, w') \<Longrightarrow> faults w' = faults w"
  unfolding steady_def by (metis snd_conv)

lemma steady_steps:
  "steady (go_ret x)" "steady (go_fail e)" "steady now" "steady uuid_New" "steady (query q)" "steady (exec s)"
  by (auto simp: steady_def now_def uuid_New_def query_def exec_def split: option.split)

lemma steady_try: "steady m \<Longrightarrow> (\<And>r. steady (f r)) \<Longrightarrow> steady (go_try m f)"
  by (simp add: steady_def go_try_run)

lemma steady_combinators:
  "steady m \<Longrightarrow> (\<And>x. steady (k x)) \<Longrightarrow> steady (go_bind m k)"
  "steady m \<Longrightarrow> steady n \<Longrightarrow> steady (go_ignore m n)"
  "steady n \<Longrightarrow> steady (go_guard c e n)"
  by (auto simp: go_bind_def go_ignore_def go_guard_def intro!: steady_try steady_steps split: sum.split)

lemma steady_rows: "steady (get_one e q)" "steady (exec_rows e s)"
  unfolding get_one_def exec_rows_def
  by (auto intro!: steady_combinators steady_steps split: option.split)

lemmas steady_intro = steady_steps steady_try steady_combinators steady_rows

lemma status_steady: "steady (BillingService_GetSubscriptionStatus s t)"
  unfolding BillingService_GetSubscriptionStatus_def active_status_def trial_status_def
    BillingService_updateTenantStatus_def TenantRepository_GetByID_def TenantRepository_Update_def
    SubscriptionRepository_GetActiveByTenantID_def SubscriptionRepository_UpdateStatus_def
    PlanRepository_GetByID_def scanPlan_def subscription_IsExpired_def DaysUntilExpiry_def IsTrialExpired_def
  by (auto intro!: steady_intro split: sum.split option.split)

lemma guest_quota_steady: "steady (guest_quota_reached billing ilike t)"
  unfolding guest_quota_reached_def GuestRepository_CountByTenant_def
  by (auto intro!: steady_intro status_steady split: option.split)

lemma guest_quota_guests: "stays (\<lambda>d d'. guests d' = guests d) (guest_quota_reached billing ilike t)"
  unfolding guest_quota_reached_def GuestRepository_CountByTenant_def
  by (auto intro!: same.all_stays status_same split: option.split)

section \<open>Contacts\<close>

text \<open>What a live guest contributes to the phone numbers, or the addresses, of its tenant.\<close>

definition contact_key :: "(guest \<Rightarrow> string option) \<Rightarrow> guest \<Rightarrow> (uuid \<times> string) list" where
  "contact_key col g = (case col g of None \<Rightarrow> [] | Some s \<Rightarrow> if live g then [(TenantID g, s)] else [])"

definition contact_keys :: "(guest \<Rightarrow> string option) \<Rightarrow> guest list \<Rightarrow> (uuid \<times> string) list" where
  "contact_keys col gs = concat (map (contact_key col) gs)"

definition contacts_ok :: "guest list \<Rightarrow> bool" where
  "contacts_ok gs \<longleftrightarrow> distinct (map ID gs) \<and> distinct (contact_keys g_Phone gs)
     \<and> distinct (contact_keys g_Email gs)"

lemma contact_keys_simps [simp]:
  "contact_keys col [] = []"
  "contact_keys col (g # gs) = contact_key col g @ contact_keys col gs"
  "contact_keys col (gs @ hs) = contact_keys col gs @ contact_keys col hs"
  by (simp_all add: contact_keys_def)

lemma contact_key_in: "(t, s) \<in> set (contact_key col g) \<longleftrightarrow> live g \<and> TenantID g = t \<and> col g = Some s"
  by (cases "col g") (auto simp: contact_key_def)

lemma distinct_contact_key [simp]: "distinct (contact_key col g)"
  by (cases "col g") (auto simp: contact_key_def)

lemma contact_keys_in:
  "(t, s) \<in> set (contact_keys col gs) \<longleftrightarrow> (\<exists>g \<in> set gs. live g \<and> TenantID g = t \<and> col g = Some s)"
  by (auto simp: contact_keys_def contact_key_in)

text \<open>The meaning of the invariant: two live guests of a tenant share neither.\<close>

lemma contacts_distinct:
  assumes "contacts_ok gs" and "g \<in> set gs" and "h \<in> set gs" and "live g" and "live h"
    and "TenantID g = TenantID h" and "g_Phone g = Some s \<and> g_Phone h = Some s \<or> g_Email g = Some s \<and> g_Email h = Some s"
  shows "g = h"
proof -
  have one: "g = h" if col: "col g = Some s" "col h = Some s" and d: "distinct (contact_keys col gs)" for col
  proof (rule ccontr)
    assume "g \<noteq> h"
    obtain xs ys where gs: "gs = xs @ g # ys" using assms(2) by (meson split_list)
    with \<open>g \<noteq> h\<close> assms(3) have "h \<in> set xs \<union> set ys" by auto
    then have "(TenantID g, s) \<in> set (contact_keys col xs) \<union> set (contact_keys col ys)"
      using assms(5,6) col(2) by (auto simp: contact_keys_in)
    moreover have "(TenantID g, s) \<in> set (contact_key col g)" using assms(4) col(1) by (simp add: contact_key_in)
    ultimately show False using d gs by auto
  qed
  from assms(7) assms(1) one [of g_Phone] one [of g_Email] show ?thesis by (auto simp: contacts_ok_def)
qed

lemma contact_keys_put:
  assumes "distinct (contact_keys col (xs @ g # ys))"
    and "\<And>s. live g' \<Longrightarrow> col g' = Some s \<Longrightarrow> (TenantID g', s) \<notin> set (contact_keys col (xs @ ys))"
  shows "distinct (contact_keys col (xs @ g' # ys))"
proof -
  have "k \<notin> set (contact_keys col (xs @ ys))" if "k \<in> set (contact_key col g')" for k
  proof -
    obtain t s where k: "k = (t, s)" by force
    with that have "live g'" "TenantID g' = t" "col g' = Some s" by (simp_all add: contact_key_in)
    with assms(2) k show ?thesis by blast
  qed
  then show ?thesis using assms(1) by auto
qed

section \<open>Creating a guest\<close>

definition contact_free :: "uuid \<Rightarrow> string option \<Rightarrow> string option \<Rightarrow> guest list \<Rightarrow> bool" where
  "contact_free t phone email gs \<longleftrightarrow>
     (\<forall>s. phone = Some s \<longrightarrow> (t, s) \<notin> set (contact_keys g_Phone gs))
     \<and> (\<forall>s. email = Some s \<longrightarrow> (t, s) \<notin> set (contact_keys g_Email gs))"

lemma contact_taken_pure: "stays (=) (contact_taken t p e)"
  unfolding contact_taken_def GuestRepository_FindByPhoneOrEmail_def
  by (auto intro!: unchanged.all_stays)

lemma contact_taken_run:
  assumes "contact_taken t p e w = (Inr None, w')" and "\<not> faults w (pos w)" and "p \<noteq> [] \<or> e \<noteq> []"
  shows "\<forall>g \<in> set (guests (store w)). \<not> contact_matches t p e g"
proof (rule ccontr)
  assume "\<not> ?thesis"
  then obtain x where "find (contact_matches t p e) (guests (store w)) = Some x"
    by (metis find_None_D not_Some_eq)
  with assms show False
    by (auto simp: contact_taken_def GuestRepository_FindByPhoneOrEmail_def go_try_run get_one_def
        go_bind_run query_def)
qed

lemma audit_guests:
  "LogWithUser u t a et ei ov nv w = (r, w') \<Longrightarrow> guests (store w') = guests (store w)"
  by (rule audit_free_tables) (rule LogWithUser_audit_free)

text \<open>
  A call that reports an error has left the part \<open>f\<close> of the store as it was; a call that reports none.
\<close>

definition undone :: "('d \<Rightarrow> 'v) \<Rightarrow> ('d, 'a) go \<Rightarrow> bool" where
  "undone f m \<longleftrightarrow> (\<forall>w e w'. m w = (Inl e, w') \<longrightarrow> f (store w') = f (store w))"

definition never_fails :: "('d, 'a) go \<Rightarrow> bool" where
  "never_fails m \<longleftrightarrow> (\<forall>w. \<exists>x w'. m w = (Inr x, w'))"

lemma undoneD: "undone f m \<Longrightarrow> m w = (Inl e, w') \<Longrightarrow> f (store w') = f (store w)"
  by (auto simp: undone_def)

lemma undone_same: "stays (\<lambda>d d'. f d' = f d) m \<Longrightarrow> undone f m"
  by (auto simp: undone_def dest: staysD)

lemma undone_bind:
  assumes "stays (\<lambda>d d'. f d' = f d) m" and "\<And>x. undone f (k x)"
  shows "undone f (go_bind m k)"
  unfolding undone_def
proof (intro allI impI)
  fix w e w'
  assume "go_bind m k w = (Inl e, w')"
  then show "f (store w') = f (store w)"
    by (rule same_bind [OF _ assms(1)]) (auto dest: undoneD [OF assms(2)])
qed

lemma undone_last: "undone f m \<Longrightarrow> (\<And>x. never_fails (k x)) \<Longrightarrow> undone f (go_bind m k)"
  unfolding undone_def never_fails_def go_bind_Inl by (metis Inl_Inr_False prod.inject)

lemma undone_guard: "undone f k \<Longrightarrow> undone f (go_guard c e k)"
  by (auto simp: undone_def go_guard_def)

lemma never_fails_steps: "never_fails (go_ret x)" "never_fails k \<Longrightarrow> never_fails (go_ignore m k)"
  by (auto simp: never_fails_def go_ignore_def go_try_run)

lemma undone_exec:
  "undone f (go_bind (exec s) (\<lambda>_. go_ret ()))"
  by (auto simp: undone_def go_bind_Inl exec_Inl)

lemma NewGuest_pure: "stays (=) (NewGuest t u req)"
  unfolding NewGuest_def by (auto intro!: unchanged.all_stays unchanged.NewBase_stays)

lemma GuestService_Create_undone: "undone guests (GuestService_Create billing ilike t u req)"
proof -
  have pure: "stays (\<lambda>d d'. guests d' = guests d) (if c then contact_taken t p e else go_ret None)" for c p e
    by (rule pure_same) (auto intro!: contact_taken_pure unchanged.all_stays)
  have tail: "undone guests (go_bind (GuestRepository_Create g) (\<lambda>_. go_ignore (m g) (go_ret g)))"
    for g and m :: "guest \<Rightarrow> unit app"
    unfolding GuestRepository_Create_def by (intro undone_last undone_exec never_fails_steps)
  show ?thesis
    unfolding GuestService_Create_def Let_def
    by (intro undone_bind [OF guest_quota_guests] undone_guard undone_bind [OF pure]
        undone_bind [OF NewGuest_pure [THEN pure_same]] tail)
qed

text \<open>A guest that is inserted has been checked when no lookup failed.\<close>

lemma NewGuest_contacts: "NewGuest t u req w = (Inr g, w') \<Longrightarrow>
    g_Phone g = opt_str (gcr_Phone req) \<and> g_Email g = opt_str (gcr_Email req)"
  by (auto simp: NewGuest_def go_run)

lemma contact_taken_free:
  assumes "(if s \<noteq> [] then contact_taken t p e else go_ret None) w = (Inr None, w')" and "\<not> faults w (pos w)"
    and "s = p \<and> e = [] \<or> s = e \<and> p = []"
  shows "contact_free t (opt_str p) (opt_str e) (guests (store w))"
  using assms contact_taken_run [of t p e w w']
  by (auto simp: contact_free_def contact_keys_in opt_str_def contact_matches_def split: if_splits)

lemma GuestService_Create_Inr:
  assumes run: "GuestService_Create billing ilike t u req w = (Inr g, w')"
  shows "guests (store w') = guests (store w) @ [g] \<and> TenantID g = t \<and> live g
    \<and> \<not> has_id (ID g) (guests (store w)) \<and> g_FullName g = TrimSpace (gcr_FullName req)
    \<and> g_Phone g = opt_str (TrimSpace (gcr_Phone req)) \<and> g_Email g = opt_str (TrimSpace (gcr_Email req))
    \<and> ((\<forall>n. \<not> faults w n) \<longrightarrow> contact_free t (g_Phone g) (g_Email g) (guests (store w)))"
proof -
  let ?q = "trim_contacts req"
  let ?email = "if gcr_Email ?q \<noteq> [] then contact_taken t [] (gcr_Email ?q) else go_ret None"
  let ?phone = "if gcr_Phone ?q \<noteq> [] then contact_taken t (gcr_Phone ?q) [] else go_ret None"
  obtain full w1 w2 w3 w4 w5 v where
    1: "guest_quota_reached billing ilike t w = (Inr full, w1)" and
    2: "?email w1 = (Inr None, w2)" and 3: "?phone w2 = (Inr None, w3)" and
    4: "NewGuest t u ?q w3 = (Inr g, w4)" and 5: "GuestRepository_Create g w4 = (Inr (), w5)" and
    6: "guests (store w') = guests (store w5)"
    using run unfolding GuestService_Create_def Let_def
    by (elim go_elim_Inr) (auto dest: audit_guests)
  have pure: "stays (=) ?email" "stays (=) ?phone"
    by (auto intro!: contact_taken_pure unchanged.all_stays)
  have fine: "steady ?email" "steady ?phone"
    unfolding contact_taken_def GuestRepository_FindByPhoneOrEmail_def by (auto intro!: steady_intro)
  have same: "guests (store w1) = guests (store w)" "store w2 = store w1" "store w3 = store w2" "store w4 = store w3"
    using staysD [OF guest_quota_guests 1] staysD [OF pure(1) 2] staysD [OF pure(2) 3] NewGuest_Inr [OF 4] by auto
  have streams: "faults w1 = faults w" "faults w2 = faults w"
    using steadyD [OF guest_quota_steady 1] steadyD [OF fine(1) 2] by auto
  have "contact_free t (g_Phone g) (g_Email g) (guests (store w))" if "\<forall>n. \<not> faults w n"
    using contact_taken_free [OF 2] contact_taken_free [OF 3] that same streams NewGuest_contacts [OF 4]
    by (auto simp: contact_free_def opt_str_def)
  with 5 6 same NewGuest_Inr [OF 4] NewGuest_contacts [OF 4] show ?thesis
    by (auto simp: GuestRepository_Create_Inr insert_guest_def trim_contacts_def split: if_splits)
qed

section \<open>Changing and removing a guest\<close>

lemma merge_guest_sel [simp]:
  "ID (merge_guest g r) = ID r" "TenantID (merge_guest g r) = TenantID r" "DeletedAt (merge_guest g r) = DeletedAt r"
  "g_Phone (merge_guest g r) = g_Phone g" "g_Email (merge_guest g r) = g_Email g" "CreatedAt (merge_guest g r) = CreatedAt r"
  by (simp_all add: merge_guest_def)

lemma Guest_ApplyUpdate_sel [simp]:
  "ID (Guest_ApplyUpdate req u t g) = ID g" "TenantID (Guest_ApplyUpdate req u t g) = TenantID g"
  "g_Phone (Guest_ApplyUpdate req u t g) = opt_str (gur_Phone req)"
  "g_Email (Guest_ApplyUpdate req u t g) = opt_str (gur_Email req)"
  by (simp_all add: Guest_ApplyUpdate_def)

lemma GuestRepository_Update_Inr:
  "GuestRepository_Update g w = (Inr x, w') \<Longrightarrow>
     store w' = put_guests (update_where (guest_key (TenantID g) (ID g)) (merge_guest g) (guests (store w))) (store w)"
  by (auto simp: GuestRepository_Update_def exec_rows_Inr sql_update_def split: if_splits)

lemma GuestRepository_Update_undone: "undone guests (GuestRepository_Update g)"
  unfolding undone_def GuestRepository_Update_def
  by (auto dest: guests_table.update_keeps)

text \<open>The contact that an update may bring, and when no other guest has it.\<close>

lemma changed_contact_free:
  assumes run: "(if s \<noteq> [] \<and> col old \<noteq> Some s then contact_taken t p e else go_ret None) w = (Inr x, w')"
    and x: "x \<noteq> None \<longrightarrow> x = Some (ID old)" and "\<not> faults w (pos w)" and ids: "distinct (map ID (guests (store w)))"
    and old: "old \<in> set (guests (store w))"
    and c: "s = p \<and> e = [] \<and> col = g_Phone \<or> s = e \<and> p = [] \<and> col = g_Email"
    and new: "s \<noteq> []" "col old \<noteq> Some s"
  shows "(t, s) \<notin> set (contact_keys col (guests (store w)))"
proof -
  have run: "contact_taken t p e w = (Inr x, w')" using run new by simp
  have "x = None"
  proof (rule ccontr)
    assume "x \<noteq> None"
    with run x assms(3) obtain g where g: "find (contact_matches t p e) (guests (store w)) = Some g" "ID g = ID old"
      by (auto simp: contact_taken_def GuestRepository_FindByPhoneOrEmail_def go_try_run get_one_def go_bind_run
          query_def split: if_splits option.splits)
    then have "g \<in> set (guests (store w))" "contact_matches t p e g" using find_Some_D by fastforce+
    moreover from this(1) g(2) ids old have "g = old" by (simp add: distinct_map inj_on_def)
    ultimately show False using c new by (auto simp: contact_matches_def)
  qed
  with contact_taken_run [of t p e w w'] run assms(3) c new show ?thesis
    by (auto simp: contact_keys_in contact_matches_def)
qed

lemma GuestService_Update_undone: "undone guests (GuestService_Update t i u req)"
proof -
  have pure: "stays (\<lambda>d d'. guests d' = guests d) (if c then contact_taken t p e else go_ret None)" for c p e
    by (rule pure_same) (auto intro!: contact_taken_pure unchanged.all_stays)
  have get: "stays (\<lambda>d d'. guests d' = guests d) (GuestRepository_GetByIDForTenant t i)"
    unfolding GuestRepository_GetByIDForTenant_def by (intro same.all_stays)
  show ?thesis
    unfolding GuestService_Update_def Let_def
    by (intro undone_bind [OF get] undone_bind [OF pure] undone_guard undone_bind [OF same.now_stays]
        undone_last GuestRepository_Update_undone never_fails_steps)
qed

lemma GuestService_Update_Inr:
  assumes run: "GuestService_Update t i u req w = (Inr g, w')" and ids: "distinct (map ID (guests (store w)))"
  obtains old where "find (guest_key t i) (guests (store w)) = Some old"
    and "guests (store w') = update_where (guest_key t i) (merge_guest g) (guests (store w))"
    and "g_Phone g = opt_str (gur_Phone req)" and "g_Email g = opt_str (gur_Email req)"
    and "(\<forall>n. \<not> faults w n) \<Longrightarrow> (\<forall>s. g_Phone g = Some s \<longrightarrow> g_Phone old \<noteq> Some s \<longrightarrow>
           (t, s) \<notin> set (contact_keys g_Phone (guests (store w))))
         \<and> (\<forall>s. g_Email g = Some s \<longrightarrow> g_Email old \<noteq> Some s \<longrightarrow>
           (t, s) \<notin> set (contact_keys g_Email (guests (store w))))"
proof -
  let ?email = "\<lambda>old. if gur_Email req \<noteq> [] \<and> g_Email old \<noteq> Some (gur_Email req)
    then contact_taken t [] (gur_Email req) else go_ret None"
  let ?phone = "\<lambda>old. if gur_Phone req \<noteq> [] \<and> g_Phone old \<noteq> Some (gur_Phone req)
    then contact_taken t (gur_Phone req) [] else go_ret None"
  obtain old x y w1 w2 w3 w4 w5 tm where
    1: "GuestRepository_GetByIDForTenant t i w = (Inr old, w1)" and
    2: "?email old w1 = (Inr x, w2)" "x \<noteq> None \<longrightarrow> x = Some i" and
    3: "?phone old w2 = (Inr y, w3)" "y \<noteq> None \<longrightarrow> y = Some i" and
    4: "now w3 = (Inr tm, w4)" "g = Guest_ApplyUpdate req u tm old" and
    5: "GuestRepository_Update g w4 = (Inr (), w5)" and 6: "guests (store w') = guests (store w5)"
    using run unfolding GuestService_Update_def Let_def
    by (elim go_elim_Inr) (auto dest: audit_guests)
  have old: "find (guest_key t i) (guests (store w)) = Some old" "store w1 = store w" "faults w1 = faults w"
    using 1 by (auto simp: GuestRepository_GetByIDForTenant_Inr)
  then have key: "old \<in> set (guests (store w))" "guest_key t i old" using find_Some_D by fastforce+
  have pure: "stays (=) (?email old)" "stays (=) (?phone old)"
    by (auto intro!: contact_taken_pure unchanged.all_stays)
  have fine: "steady (?email old)"
    unfolding contact_taken_def GuestRepository_FindByPhoneOrEmail_def by (auto intro!: steady_intro)
  have same: "store w2 = store w" "store w3 = store w" "store w4 = store w" "faults w2 = faults w"
    using staysD [OF pure(1) 2(1)] staysD [OF pure(2) 3(1)] 4(1) steadyD [OF fine 2(1)] old by (auto simp: now_eq)
  show thesis
  proof (rule that [OF old(1)])
    show "guests (store w') = update_where (guest_key t i) (merge_guest g) (guests (store w))"
      using GuestRepository_Update_Inr [OF 5] 6 same key 4(2) by (simp add: guest_key_def)
    show "(\<forall>s. g_Phone g = Some s \<longrightarrow> g_Phone old \<noteq> Some s \<longrightarrow> (t, s) \<notin> set (contact_keys g_Phone (guests (store w))))
      \<and> (\<forall>s. g_Email g = Some s \<longrightarrow> g_Email old \<noteq> Some s \<longrightarrow> (t, s) \<notin> set (contact_keys g_Email (guests (store w))))"
      if "\<forall>n. \<not> faults w n"
      using changed_contact_free [where col = g_Email, OF 2(1)] changed_contact_free [where col = g_Phone, OF 3(1)] 2(2) 3(2) key ids same that old(2,3) 4(2)
      by (auto simp: guest_key_def opt_str_def split: if_splits)
  qed (use 4(2) in auto)
qed

text \<open>The three requests of the service that write keep the contacts distinct.\<close>

lemma contacts_ok_update:
  assumes ok: "contacts_ok gs" and old: "find (guest_key t i) gs = Some old"
    and f: "\<And>r. ID (f r) = ID r \<and> TenantID (f r) = TenantID r"
    and new: "\<And>col s. col \<in> {g_Phone, g_Email} \<Longrightarrow> live (f old) \<Longrightarrow> col (f old) = Some s \<Longrightarrow> col old \<noteq> Some s \<Longrightarrow>
      (t, s) \<notin> set (contact_keys col gs)"
  shows "contacts_ok (update_where (guest_key t i) f gs)"
proof -
  have key: "old \<in> set gs" "guest_key t i old" using find_Some_D [OF old] by auto
  obtain xs ys where gs: "gs = xs @ old # ys" and upd: "update_where (guest_key t i) f gs = xs @ f old # ys"
    using update_where_unique [of ID gs old "guest_key t i" f] ok key
    by (auto simp: contacts_ok_def guest_key_def)
  have "distinct (contact_keys col (xs @ f old # ys))" if col: "col \<in> {g_Phone, g_Email}" for col
  proof (rule contact_keys_put [where g = old])
    show d: "distinct (contact_keys col (xs @ old # ys))" using ok col gs by (auto simp: contacts_ok_def)
    fix s
    assume s: "live (f old)" "col (f old) = Some s"
    have t: "TenantID (f old) = t" using f [of old] key by (simp add: guest_key_def)
    show "(TenantID (f old), s) \<notin> set (contact_keys col (xs @ ys))"
    proof (cases "col old = Some s")
      case True
      then have "(t, s) \<in> set (contact_key col old)" using key by (simp add: contact_key_in guest_key_def)
      with d t show ?thesis by auto
    next
      case False
      with new [OF col s] t gs show ?thesis by auto
    qed
  qed
  moreover have "map ID (xs @ f old # ys) = map ID gs" using gs f [of old] by simp
  ultimately show ?thesis using ok upd by (simp add: contacts_ok_def)
qed

lemma contact_key_fresh:
  "(\<And>s. col g = Some s \<Longrightarrow> (TenantID g, s) \<notin> A) \<Longrightarrow> set (contact_key col g) \<inter> A = {}"
  by (cases "col g") (auto simp: contact_key_def)

lemma contacts_ok_append:
  assumes "contacts_ok gs" and "contact_free t (g_Phone g) (g_Email g) gs" and "TenantID g = t" and "\<not> has_id (ID g) gs"
  shows "contacts_ok (gs @ [g])"
  using assms contact_key_fresh [of g_Phone g "set (contact_keys g_Phone gs)"]
    contact_key_fresh [of g_Email g "set (contact_keys g_Email gs)"]
  by (auto simp: contacts_ok_def contact_free_def has_id_iff)

lemma GuestService_Create_contacts:
  assumes "contacts_ok (guests (store w))" and "\<forall>n. \<not> faults w n"
  shows "contacts_ok (guests (store (snd (GuestService_Create billing ilike t u req w))))"
proof (cases "GuestService_Create billing ilike t u req w")
  case (Pair r w')
  show ?thesis
  proof (cases r)
    case (Inl e)
    with Pair undoneD [OF GuestService_Create_undone] assms show ?thesis by fastforce
  next
    case (Inr g)
    have "contact_free t (g_Phone g) (g_Email g) (guests (store w))"
      and "guests (store w') = guests (store w) @ [g]" "TenantID g = t" "\<not> has_id (ID g) (guests (store w))"
      using GuestService_Create_Inr [of billing ilike t u req w g w'] Pair Inr assms(2) by auto
    with assms(1) Pair contacts_ok_append show ?thesis by fastforce
  qed
qed

lemma GuestService_Update_contacts:
  assumes "contacts_ok (guests (store w))" and "\<forall>n. \<not> faults w n"
  shows "contacts_ok (guests (store (snd (GuestService_Update t i u req w))))"
proof (cases "GuestService_Update t i u req w")
  case (Pair r w')
  show ?thesis
  proof (cases r)
    case (Inl e)
    with Pair undoneD [OF GuestService_Update_undone] assms show ?thesis by fastforce
  next
    case (Inr g)
    have "distinct (map ID (guests (store w)))" using assms(1) by (simp add: contacts_ok_def)
    with Pair Inr obtain old where old: "find (guest_key t i) (guests (store w)) = Some old"
      and "guests (store w') = update_where (guest_key t i) (merge_guest g) (guests (store w))"
      and "\<forall>s. g_Phone g = Some s \<longrightarrow> g_Phone old \<noteq> Some s \<longrightarrow> (t, s) \<notin> set (contact_keys g_Phone (guests (store w)))"
      and "\<forall>s. g_Email g = Some s \<longrightarrow> g_Email old \<noteq> Some s \<longrightarrow> (t, s) \<notin> set (contact_keys g_Email (guests (store w)))"
      using GuestService_Update_Inr [of t i u req w g w'] assms(2) by metis
    with Pair contacts_ok_update [OF assms(1) old, of "merge_guest g"] show ?thesis by fastforce
  qed
qed

lemma GuestService_Delete_contacts:
  assumes "contacts_ok (guests (store w))"
  shows "contacts_ok (guests (store (snd (GuestService_Delete t i u w))))"
proof -
  let ?gone = "\<lambda>tm g. g\<lparr>DeletedAt := Some tm, UpdatedAt := tm\<rparr>"
  have gone: "contacts_ok (update_where (guest_key t i) (?gone tm) gs)" if "contacts_ok gs" for tm gs
  proof (cases "find (guest_key t i) gs")
    case None
    with that update_where_none [of gs "guest_key t i"] show ?thesis by (auto simp: find_None_iff)
  next
    case (Some old)
    show ?thesis by (rule contacts_ok_update [OF that Some]) auto
  qed
  have "stays (\<lambda>d d'. contacts_ok (guests d) \<longrightarrow> contacts_ok (guests d')) (GuestService_Delete t i u)"
    unfolding GuestService_Delete_def GuestRepository_SoftDelete_def
    by (auto intro!: kept.all_stays stays_mono [OF LogWithUser_stays] simp: sql_update_def gone
        dest: audit_free_tables)
  with assms show ?thesis by (simp add: stays_def)
qed

section \<open>Lookups of duplicates, and many guests at once\<close>

lemma column_ids_simps:
  "column_ids key col [] m = m"
  "column_ids key col (g # gs) m = column_ids key col gs (m(key @ the (col g) \<mapsto> ID g))"
  by (simp_all add: column_ids_def)

lemma column_ids_Some:
  "column_ids key col rows m k = Some i \<Longrightarrow>
     (\<exists>g \<in> set rows. k = key @ the (col g) \<and> ID g = i) \<or> m k = Some i"
  by (induction rows arbitrary: m) (fastforce simp: column_ids_simps split: if_splits)+

lemma column_ids_found:
  "g \<in> set rows \<or> m (key @ the (col g)) \<noteq> None \<Longrightarrow> column_ids key col rows m (key @ the (col g)) \<noteq> None"
  by (induction rows arbitrary: m) (auto simp: column_ids_simps)

lemma duplicate_query_Inr:
  assumes "duplicate_query t key col xs m w = (Inr m', w')"
  shows "store w' = store w"
    and "s \<in> set xs \<Longrightarrow> (t, s) \<in> set (contact_keys col (guests (store w))) \<Longrightarrow> m' (key @ s) \<noteq> None"
    and "m' k = Some i \<Longrightarrow> m k = Some i \<or> (\<exists>g \<in> set (guests (store w)). ID g = i \<and> live g \<and> TenantID g = t)"
    and "m k \<noteq> None \<Longrightarrow> m' k \<noteq> None"
proof -
  let ?rows = "filter (\<lambda>g. TenantID g = t \<and> live g \<and> in_column xs (col g)) (guests (store w))"
  have m': "m' = (if xs = [] then m else column_ids key col ?rows m)" and "store w' = store w"
    using assms by (auto simp: duplicate_query_def go_run split: if_splits)
  then show "store w' = store w" by simp
  show "m' (key @ s) \<noteq> None" if s: "s \<in> set xs" "(t, s) \<in> set (contact_keys col (guests (store w)))"
  proof -
    from s obtain g where "g \<in> set (guests (store w))" "live g" "TenantID g = t" and c: "col g = Some s"
      by (auto simp: contact_keys_in)
    with s(1) have "g \<in> set ?rows" "the (col g) = s" by (simp_all add: in_column_def)
    with column_ids_found [of g ?rows m key col] m' s(1) show ?thesis by auto
  qed
  show "m k = Some i \<or> (\<exists>g \<in> set (guests (store w)). ID g = i \<and> live g \<and> TenantID g = t)" if "m' k = Some i"
    using that m' column_ids_Some [of key col ?rows m k i] by (auto split: if_splits)
  show "m' k \<noteq> None" if "m k \<noteq> None"
  proof -
    have "column_ids key col rows m k \<noteq> None" for rows
      using that by (induction rows arbitrary: m) (auto simp: column_ids_simps)
    with m' that show ?thesis by simp
  qed
qed

lemma CheckDuplicates_Inr:
  assumes "GuestRepository_CheckDuplicates t phones emails w = (Inr dups, w')"
  shows "store w' = store w"
    and "s \<in> set phones \<Longrightarrow> (t, s) \<in> set (contact_keys g_Phone (guests (store w))) \<Longrightarrow> dups (''phone:'' @ s) \<noteq> None"
    and "s \<in> set emails \<Longrightarrow> (t, s) \<in> set (contact_keys g_Email (guests (store w))) \<Longrightarrow> dups (''email:'' @ s) \<noteq> None"
    and "dups k = Some i \<Longrightarrow> \<exists>g \<in> set (guests (store w)). ID g = i \<and> live g \<and> TenantID g = t"
proof -
  obtain m v where 1: "duplicate_query t ''phone:'' g_Phone phones (\<lambda>_. None) w = (Inr m, v)"
    and 2: "duplicate_query t ''email:'' g_Email emails m v = (Inr dups, w')"
    using assms by (auto simp: GuestRepository_CheckDuplicates_def go_run)
  note one = duplicate_query_Inr [OF 1] and two = duplicate_query_Inr [OF 2]
  show "store w' = store w" using one two by simp
  show "dups (''phone:'' @ s) \<noteq> None" if "s \<in> set phones" "(t, s) \<in> set (contact_keys g_Phone (guests (store w)))"
    using that one(2) two(4) by blast
  show "dups (''email:'' @ s) \<noteq> None" if "s \<in> set emails" "(t, s) \<in> set (contact_keys g_Email (guests (store w)))"
    using that one(1) two(2) by simp
  show "\<exists>g \<in> set (guests (store w)). ID g = i \<and> live g \<and> TenantID g = t" if "dups k = Some i"
    using two(3) [OF that] one(1) one(3) [of k i] by auto
qed

lemma CheckDuplicates_pure: "stays (=) (GuestRepository_CheckDuplicates t phones emails)"
  unfolding GuestRepository_CheckDuplicates_def duplicate_query_def
  by (auto intro!: unchanged.all_stays)

text \<open>A bulk insertion adds all the guests or none; their ids were not in use.\<close>

lemma insert_guest_Some: "insert_guest g srv d = Some (n, d') \<Longrightarrow>
    \<not> has_id (ID g) (guests d) \<and> d' = put_guests (guests d @ [g]) d"
  by (auto simp: insert_guest_def split: if_splits)

lemma bulk_insert_Inr:
  "bulk_insert gs w = (Inr u, w') \<Longrightarrow>
     store w' = put_guests (guests (store w) @ gs) (store w)
     \<and> distinct (map ID gs) \<and> (\<forall>g \<in> set gs. \<not> has_id (ID g) (guests (store w)))"
proof (induction gs arbitrary: w)
  case (Cons g gs)
  then obtain v n d where i: "insert_guest g (clock w (pos w), fresh w (pos w)) (store w) = Some (n, d)"
    and v: "v = (tick w)\<lparr>store := d\<rparr>" and b: "bulk_insert gs v = (Inr u, w')"
    by (auto simp: go_bind_Inr exec_Inr)
  have d: "d = put_guests (guests (store w) @ [g]) (store w)" "\<not> has_id (ID g) (guests (store w))"
    using insert_guest_Some [OF i] by simp_all
  note ih = Cons.IH [OF b]
  with d v have "ID g \<notin> ID ` set gs" by (auto simp: has_id_iff)
  with d v ih show ?case by (auto simp: has_id_iff)
qed simp

lemma BulkCreate_Inr:
  assumes "GuestRepository_BulkCreate gs w = (Inr u, w')"
  shows "store w' = put_guests (guests (store w) @ gs) (store w)"
    and "distinct (map ID gs)" and "\<And>g. g \<in> set gs \<Longrightarrow> \<not> has_id (ID g) (guests (store w))"
proof -
  have "store w' = put_guests (guests (store w) @ gs) (store w) \<and> distinct (map ID gs)
    \<and> (\<forall>g \<in> set gs. \<not> has_id (ID g) (guests (store w)))"
  proof (cases "gs = []")
    case False
    with assms obtain v v' where "bulk_insert gs v = (Inr u, v')" "store v = store w" "store w' = store v'"
      by (auto simp: GuestRepository_BulkCreate_def RunInTransaction_Inr go_bind_Inr query_eq)
    with bulk_insert_Inr show ?thesis by fastforce
  qed (use assms in \<open>simp add: GuestRepository_BulkCreate_def\<close>)
  then show "store w' = put_guests (guests (store w) @ gs) (store w)" "distinct (map ID gs)"
    "\<And>g. g \<in> set gs \<Longrightarrow> \<not> has_id (ID g) (guests (store w))" by auto
qed

lemma BulkCreate_Inl: "GuestRepository_BulkCreate gs w = (Inl e, w') \<Longrightarrow> store w' = store w"
  by (auto simp: GuestRepository_BulkCreate_def split: if_splits dest: RunInTransaction_Inl)

end
