(* ===== verification/Csv.thy ===== *)
theory Csv
  imports Prelude
begin

text \<open>
  What the import of guests uses of Go's library on text: the reader and the writer of
  \<open>encoding/csv\<close> (no comments, no lazy quotes, leading space trimmed on reading), and the number
  of runes of a string (\<open>unicode/utf8\<close>). The lemmas show that a record written is read back as it
  was, and that the reader never takes more lines than there are.
\<close>

section \<open>Runes\<close>

text \<open>
  \<open>utf8.DecodeRune\<close>: the number of bytes of the first rune, by the ranges of well-formed UTF-8; any
  other byte is a rune of its own.
\<close>

definition byte_in :: "nat \<Rightarrow> nat \<Rightarrow> string \<Rightarrow> nat \<Rightarrow> bool" where
  "byte_in a b s k \<longleftrightarrow> k < length s \<and> a \<le> of_char (s ! k) \<and> (of_char (s ! k) :: nat) \<le> b"

definition rune_width :: "string \<Rightarrow> nat" where
  "rune_width s =
     (let cont = byte_in 0x80 0xBF s in
      if byte_in 0xC2 0xDF s 0 \<and> cont 1 then 2
      else if byte_in 0xE0 0xE0 s 0 \<and> byte_in 0xA0 0xBF s 1 \<and> cont 2 then 3
      else if (byte_in 0xE1 0xEC s 0 \<or> byte_in 0xEE 0xEF s 0) \<and> cont 1 \<and> cont 2 then 3
      else if byte_in 0xED 0xED s 0 \<and> byte_in 0x80 0x9F s 1 \<and> cont 2 then 3
      else if byte_in 0xF0 0xF0 s 0 \<and> byte_in 0x90 0xBF s 1 \<and> cont 2 \<and> cont 3 then 4
      else if byte_in 0xF1 0xF3 s 0 \<and> cont 1 \<and> cont 2 \<and> cont 3 then 4
      else if byte_in 0xF4 0xF4 s 0 \<and> byte_in 0x80 0x8F s 1 \<and> cont 2 \<and> cont 3 then 4
      else 1)"

lemma rune_width_bounds: "1 \<le> rune_width s \<and> rune_width s \<le> 4"
  by (simp add: rune_width_def Let_def)

text \<open>\<open>utf8.RuneCountInString\<close>.\<close>

function RuneCountInString :: "string \<Rightarrow> nat" where
  "RuneCountInString s = (if s = [] then 0 else Suc (RuneCountInString (drop (rune_width s) s)))"
  by auto

termination
proof (relation "measure length")
  fix s :: string
  assume "s \<noteq> []"
  then show "(drop (rune_width s) s, s) \<in> measure length"
    using rune_width_bounds [of s] by (cases s) auto
qed simp

declare RuneCountInString.simps [simp del]

lemma RuneCountInString_le: "RuneCountInString s \<le> length s"
proof (induction s rule: RuneCountInString.induct)
  case (1 s)
  show ?case
  proof (cases s)
    case (Cons c cs)
    then have "RuneCountInString (drop (rune_width s) s) \<le> length s - rune_width s"
      using 1 by simp
    with Cons show ?thesis using rune_width_bounds [of s] by (subst RuneCountInString.simps) auto
  qed (simp add: RuneCountInString.simps)
qed

section \<open>Reading lines\<close>

text \<open>
  \<open>Reader.readLine\<close>: the lines of the input, each with its line feed but for the last; \<open>CR LF\<close> counts
  as a line feed, and a carriage return at the very end is dropped.
\<close>

definition LF :: char where "LF = CHR 0x0A"
definition CR :: char where "CR = CHR 0x0D"
definition QUOTE :: char where "QUOTE = CHR 0x22"

fun cut_lines :: "string \<Rightarrow> string \<Rightarrow> string list" where
  "cut_lines l [] = (if l = [] then [] else [rev l])"
| "cut_lines l (c # cs) = (if c = LF then rev (c # l) # cut_lines [] cs else cut_lines (c # l) cs)"

definition normalize_line :: "string \<Rightarrow> string" where
  "normalize_line l = (case rev l of
       a # b # r \<Rightarrow> if a = LF \<and> b = CR then rev r @ [LF] else if a = CR then rev (b # r) else l
     | [a] \<Rightarrow> if a = CR then [] else l
     | [] \<Rightarrow> l)"

definition csv_lines :: "string \<Rightarrow> string list" where
  "csv_lines s = map normalize_line (cut_lines [] s)"

section \<open>Reading records\<close>

datatype csv_error = ErrBareQuote | ErrQuote | ErrFieldCount

text \<open>\<open>TrimLeadingSpace\<close>: spaces in the sense of \<open>unicode.IsSpace\<close>, the line feed included.\<close>

definition trim_left :: "string \<Rightarrow> string" where
  "trim_left s = strip_codes (length s) space_codes s"

definition chomp :: "string \<Rightarrow> string" where
  "chomp l = (if l \<noteq> [] \<and> last l = LF then butlast l else l)"

text \<open>The text before the first \<open>c\<close>, and what follows it, if there is one.\<close>

fun cut_at :: "char \<Rightarrow> string \<Rightarrow> string \<times> string option" where
  "cut_at c [] = ([], None)"
| "cut_at c (x # xs) = (if x = c then ([], Some xs)
     else (case cut_at c xs of (a, b) \<Rightarrow> (x # a, b)))"

text \<open>
  A quoted field, after its opening quote: the text read so far, the rest of the line, the lines
  below it. The answer is the field, the rest of the line where a further field follows, and the
  lines that are left.
\<close>

function quoted_field ::
  "char \<Rightarrow> string \<Rightarrow> string \<Rightarrow> string list \<Rightarrow> (csv_error + string \<times> string option) \<times> string list" where
  "quoted_field comma acc [] [] = (Inl ErrQuote, [])"
| "quoted_field comma acc [] (l # ls) =
     (if l = [] then (Inl ErrQuote, ls) else quoted_field comma acc l ls)"
| "quoted_field comma acc (c # cs) ls =
     (if c \<noteq> QUOTE then quoted_field comma (c # acc) cs ls
      else (case cs of
          [] \<Rightarrow> (Inr (rev acc, None), ls)
        | d # ds \<Rightarrow>
            if d = QUOTE then quoted_field comma (QUOTE # acc) ds ls
            else if d = comma then (Inr (rev acc, Some ds), ls)
            else if cs = [LF] then (Inr (rev acc, None), ls)
            else (Inl ErrQuote, ls)))"
  by pat_completeness auto

definition text_left :: "string \<Rightarrow> string list \<Rightarrow> nat" where
  "text_left l ls = length l + sum_list (map (\<lambda>l. Suc (length l)) ls)"

lemma text_left_simps [simp]:
  "text_left [] [] = 0" "text_left (c # cs) ls = Suc (text_left cs ls)"
  "text_left [] (l # ls) = Suc (text_left l ls)"
  by (simp_all add: text_left_def)

termination quoted_field
  by (relation "measure (\<lambda>(comma, acc, l, ls). text_left l ls)") auto

lemma quoted_field_left:
  "quoted_field comma acc l ls = (r, ls') \<Longrightarrow>
     text_left [] ls' \<le> text_left l ls
     \<and> length ls' \<le> length ls
     \<and> (\<forall>f k. r = Inr (f, Some k) \<longrightarrow> text_left k ls' < text_left l ls)"
proof (induction comma acc l ls arbitrary: r ls' rule: quoted_field.induct)
  case (2 comma acc l ls)
  then show ?case by (auto simp: text_left_def split: if_splits)
next
  case (3 comma acc c cs ls)
  then show ?case
    by (fastforce simp: text_left_def split: if_splits list.splits)
qed simp

text \<open>
  The fields of one record, from the rest of its line on: \<open>readRecord\<close> after the empty lines.
\<close>

function record_fields ::
  "char \<Rightarrow> string \<Rightarrow> string list \<Rightarrow> (csv_error + string list) \<times> string list" where
  "record_fields comma line ls =
     (let l = trim_left line in
      if l = [] \<or> hd l \<noteq> QUOTE then
        (case cut_at comma l of
           (f, Some l') \<Rightarrow> if QUOTE \<in> set f then (Inl ErrBareQuote, ls) else
             (case record_fields comma l' ls of (r, ls') \<Rightarrow> (map_sum id (Cons f) r, ls'))
         | (f, None) \<Rightarrow> if QUOTE \<in> set (chomp l) then (Inl ErrBareQuote, ls) else (Inr [chomp l], ls))
      else
        (case quoted_field comma [] (tl l) ls of
           (Inl e, ls') \<Rightarrow> (Inl e, ls')
         | (Inr (f, None), ls') \<Rightarrow> (Inr [f], ls')
         | (Inr (f, Some l'), ls') \<Rightarrow>
             (case record_fields comma l' ls' of (r, ls'') \<Rightarrow> (map_sum id (Cons f) r, ls''))))"
  by auto

lemma strip_codes_length: "length (strip_codes n cs s) \<le> length s"
proof (induction n arbitrary: s)
  case (Suc n)
  show ?case
  proof (cases "List.map_filter (\<lambda>c. strip_prefix c s) cs")
    case (Cons s' ss)
    then have "s' \<in> set (List.map_filter (\<lambda>c. strip_prefix c s) cs)" by simp
    then obtain c where "strip_prefix c s = Some s'" by (auto simp: map_filter_def)
    with Cons Suc [of s'] show ?thesis by (simp add: strip_prefix_length)
  qed simp
qed simp

lemma trim_left_length: "length (trim_left s) \<le> length s"
  by (simp add: trim_left_def strip_codes_length)

lemma cut_at_length: "cut_at c s = (f, Some r) \<Longrightarrow> length s = Suc (length f + length r)"
  by (induction s arbitrary: f) (auto split: if_splits prod.splits)

termination record_fields
proof (relation "measure (\<lambda>(comma, l, ls). text_left l ls)")
  fix comma :: char and line l l' f :: string and ls :: "string list" and x y
  assume "l = trim_left line" and "(f, y) = cut_at comma l" and "y = Some l'"
  then show "((comma, l', ls), comma, line, ls) \<in> measure (\<lambda>(comma, l, ls). text_left l ls)"
    using cut_at_length [of comma l f l'] trim_left_length [of line] by (auto simp: text_left_def)
next
  fix comma :: char and line l l' f :: string and ls ls' :: "string list" and x y z u
  assume l: "l = trim_left line" "\<not> (l = [] \<or> hd l \<noteq> QUOTE)"
    and q: "(x, ls') = quoted_field comma [] (tl l) ls" "x = Inr y" "(f, z) = y" "z = Some l'"
  have "text_left l' ls' < text_left (tl l) ls"
    using quoted_field_left [of comma "[]" "tl l" ls x ls'] q by auto
  also have "\<dots> \<le> text_left line ls"
    using l trim_left_length [of line] by (auto simp: text_left_def)
  finally show "((comma, l', ls'), comma, line, ls) \<in> measure (\<lambda>(comma, l, ls). text_left l ls)"
    by simp
qed simp

declare record_fields.simps [simp del]

text \<open>
  \<open>Reader.Read\<close>: the empty lines are skipped; \<open>None\<close> is the end of the input. \<open>csv_rest\<close> reads what
  is left as the import does, one record or error per step; a record must have \<open>n\<close> fields.
\<close>

fun read_record :: "char \<Rightarrow> string list \<Rightarrow> ((csv_error + string list) \<times> string list) option" where
  "read_record comma [] = None"
| "read_record comma (l # ls) =
     (if l = [] \<or> l = [LF] then read_record comma ls else Some (record_fields comma l ls))"

lemma record_fields_lines: "record_fields comma l ls = (r, ls') \<Longrightarrow> length ls' \<le> length ls"
proof (induction comma l ls arbitrary: r ls' rule: record_fields.induct)
  case (1 comma line ls)
  define l where l: "l = trim_left line"
  show ?case
  proof (cases "l = [] \<or> hd l \<noteq> QUOTE")
    case True
    with 1 l show ?thesis
      by (simp add: record_fields.simps [of comma line] Let_def split: prod.splits option.splits if_splits)
  next
    case False
    obtain q v where q: "quoted_field comma [] (tl l) ls = (q, v)" by force
    note le = quoted_field_left [OF q]
    show ?thesis
    proof (cases q)
      case (Inr y)
      obtain f k where y: "y = (f, k)" by force
      show ?thesis
      proof (cases k)
        case (Some l')
        with 1(3) False q Inr y obtain r' where "record_fields comma l' v = (r', ls')"
          by (auto simp: record_fields.simps [of comma line] l split: prod.splits)
        with 1(2) [OF l False q [symmetric] Inr y [symmetric] Some] le show ?thesis by fastforce
      qed (use 1(3) False q Inr y le in \<open>auto simp: record_fields.simps [of comma line] l\<close>)
    qed (use 1(3) False q le in \<open>auto simp: record_fields.simps [of comma line] l\<close>)
  qed
qed

lemma read_record_lines: "read_record comma ls = Some (r, ls') \<Longrightarrow> length ls' < length ls"
  by (induction ls) (auto split: if_splits dest: record_fields_lines)

definition check_count :: "nat \<Rightarrow> csv_error + string list \<Rightarrow> csv_error + string list" where
  "check_count n r = (case r of Inl e \<Rightarrow> Inl e
     | Inr fs \<Rightarrow> if length fs = n then Inr fs else Inl ErrFieldCount)"

function csv_rest :: "nat \<Rightarrow> char \<Rightarrow> string list \<Rightarrow> (csv_error + string list) list" where
  "csv_rest n comma ls = (case read_record comma ls of None \<Rightarrow> []
     | Some (r, ls') \<Rightarrow> check_count n r # csv_rest n comma ls')"
  by auto

termination
  by (relation "measure (\<lambda>(n, comma, ls). length ls)") (auto dest: read_record_lines)

declare csv_rest.simps [simp del]

section \<open>Writing records\<close>

text \<open>\<open>Writer.fieldNeedsQuotes\<close> and \<open>Writer.Write\<close> with a line feed at the end.\<close>

definition starts_with_space :: "string \<Rightarrow> bool" where
  "starts_with_space s \<longleftrightarrow> list_ex (\<lambda>c. strip_prefix c s \<noteq> None) space_codes"

definition fieldNeedsQuotes :: "char \<Rightarrow> string \<Rightarrow> bool" where
  "fieldNeedsQuotes comma f \<longleftrightarrow> f \<noteq> [] \<and> (f = [CHR 0x5C, CHR ''.'']
     \<or> LF \<in> set f \<or> CR \<in> set f \<or> QUOTE \<in> set f \<or> comma \<in> set f \<or> starts_with_space f)"

definition escape_quotes :: "string \<Rightarrow> string" where
  "escape_quotes f = concat (map (\<lambda>c. if c = QUOTE then [QUOTE, QUOTE] else [c]) f)"

definition write_field :: "char \<Rightarrow> string \<Rightarrow> string" where
  "write_field comma f =
     (if fieldNeedsQuotes comma f then QUOTE # escape_quotes f @ [QUOTE] else f)"

fun write_record :: "char \<Rightarrow> string list \<Rightarrow> string" where
  "write_record comma [] = [LF]"
| "write_record comma [f] = write_field comma f @ [LF]"
| "write_record comma (f # fs) = write_field comma f @ comma # write_record comma fs"

section \<open>What is written is read back\<close>

text \<open>A position in a text without carriage returns: the rest of its line and the lines below.\<close>

definition text_pos :: "string \<Rightarrow> string \<times> string list" where
  "text_pos s = (case cut_lines [] s of [] \<Rightarrow> ([], []) | l # ls \<Rightarrow> (l, ls))"

lemma cut_lines_acc:
  "s \<noteq> [] \<Longrightarrow> cut_lines l s = (rev l @ fst (text_pos s)) # snd (text_pos s)"
proof (induction s arbitrary: l)
  case (Cons c s)
  show ?case
  proof (cases "c = LF")
    case False
    show ?thesis
    proof (cases "s = []")
      case False
      with Cons.IH [OF False, of "c # l"] Cons.IH [OF False, of "[c]"] \<open>c \<noteq> LF\<close> show ?thesis
        by (simp add: text_pos_def)
    qed (use False in \<open>simp add: text_pos_def\<close>)
  qed (simp add: text_pos_def)
qed simp

lemma text_pos_simps [simp]:
  "text_pos [] = ([], [])"
  "text_pos (LF # s) = ([LF], cut_lines [] s)"
  "c \<noteq> LF \<Longrightarrow> text_pos (c # s) = (c # fst (text_pos s), snd (text_pos s))"
proof -
  show "c \<noteq> LF \<Longrightarrow> text_pos (c # s) = (c # fst (text_pos s), snd (text_pos s))"
    using cut_lines_acc [of s "[c]"] by (cases "s = []") (simp_all add: text_pos_def [of "c # s"], simp add: text_pos_def)
qed (simp_all add: text_pos_def)

lemma cut_lines_pos: "s \<noteq> [] \<Longrightarrow> cut_lines [] s = fst (text_pos s) # snd (text_pos s)"
  by (simp add: cut_lines_acc)

lemma cut_lines_nonempty: "l \<in> set (cut_lines k s) \<Longrightarrow> l \<noteq> []"
  by (induction s arbitrary: k) (auto split: if_splits)

lemma cut_lines_chars: "l \<in> set (cut_lines k s) \<Longrightarrow> set l \<subseteq> set k \<union> set s"
  by (induction s arbitrary: k) (fastforce split: if_splits)+

lemma normalize_line_id: "CR \<notin> set l \<Longrightarrow> normalize_line l = l"
proof -
  assume cr: "CR \<notin> set l"
  then have "CR \<notin> set (rev l)" by simp
  then show ?thesis
    unfolding normalize_line_def by (cases "rev l" rule: remdups_adj.cases) auto
qed

lemma csv_lines_plain: "CR \<notin> set s \<Longrightarrow> csv_lines s = cut_lines [] s"
  unfolding csv_lines_def using cut_lines_chars [of _ "[]" s]
  by (intro map_idI normalize_line_id) auto

lemma distinct_marks [simp]: "LF \<noteq> QUOTE" "QUOTE \<noteq> LF" "LF \<noteq> CR" "CR \<noteq> LF" "QUOTE \<noteq> CR" "CR \<noteq> QUOTE"
  by (simp_all add: LF_def QUOTE_def CR_def)

lemma quoted_text:
  "t \<noteq> [] \<Longrightarrow> quoted_field comma acc (fst (text_pos (escape_quotes f @ t))) (snd (text_pos (escape_quotes f @ t)))
     = quoted_field comma (rev f @ acc) (fst (text_pos t)) (snd (text_pos t))"
proof (induction f arbitrary: acc)
  case (Cons c f)
  let ?s = "escape_quotes f @ t"
  have e: "escape_quotes (c # f) @ t = (if c = QUOTE then [QUOTE, QUOTE] else [c]) @ ?s"
    by (simp add: escape_quotes_def)
  have s: "?s \<noteq> []" using Cons.prems by simp
  consider "c = LF" | "c = QUOTE" | "c \<noteq> LF" "c \<noteq> QUOTE" by blast
  then show ?case
  proof cases
    case 1
    have "quoted_field comma acc (fst (text_pos (escape_quotes (c # f) @ t))) (snd (text_pos (escape_quotes (c # f) @ t)))
      = quoted_field comma (LF # acc) [] (cut_lines [] ?s)" by (simp only: e) (simp add: 1)
    also have "\<dots> = quoted_field comma (LF # acc) (fst (text_pos ?s)) (snd (text_pos ?s))"
      using s cut_lines_nonempty [of "fst (text_pos ?s)" "[]" ?s] by (simp add: cut_lines_pos)
    finally show ?thesis using Cons 1 by simp
  next
    case 2
    then show ?thesis using Cons unfolding e by simp
  next
    case 3
    then show ?thesis using Cons unfolding e by simp
  qed
qed (simp add: escape_quotes_def)


text \<open>The codes of the spaces, as far as the writer's delimiters are concerned.\<close>

lemma space_codes_facts:
  "c \<in> set space_codes \<Longrightarrow> c \<noteq> [] \<and> set (tl c) \<inter> {LF, CHR '','', CHR '';'', QUOTE} = {}"
  "c \<in> set space_codes \<Longrightarrow> hd c \<notin> {CHR '','', CHR '';'', QUOTE}"
  "c \<in> set space_codes \<Longrightarrow> hd c = LF \<Longrightarrow> c = [LF]"
  by (auto simp: space_codes_def LF_def QUOTE_def)

lemma trim_left_id: "\<not> starts_with_space s \<Longrightarrow> trim_left s = s"
  unfolding trim_left_def starts_with_space_def by (rule strip_codes_id) (auto simp: list_ex_iff)

definition delimiter :: "char \<Rightarrow> bool" where
  "delimiter comma \<longleftrightarrow> comma = CHR '','' \<or> comma = CHR '';''"

lemma starts_with_space_append:
  assumes "\<not> starts_with_space f" and "f \<noteq> []" and "t = comma # u \<or> t = LF # u" and "delimiter comma"
  shows "\<not> starts_with_space (f @ t)"
proof
  assume "starts_with_space (f @ t)"
  then obtain c r where c: "c \<in> set space_codes" and s: "f @ t = c @ r"
    by (auto simp: starts_with_space_def list_ex_iff strip_prefix_Some)
  from s consider ds where "f = c @ ds" | ds where "c = f @ ds" "t = ds @ r"
    by (auto simp: append_eq_append_conv2)
  then show False
  proof cases
    case 1
    with c assms(1) show False
      by (auto simp: starts_with_space_def list_ex_iff) (metis not_None_eq strip_prefix_Some)
  next
    case 2
    show False
    proof (cases ds)
      case Nil
      with 2 c assms(1) show False
        by (auto simp: starts_with_space_def list_ex_iff) (metis append_Nil2 not_None_eq strip_prefix_Some)
    next
      case (Cons x xs)
      with 2 assms(2) have "x \<in> set (tl c)" by (cases f) auto
      moreover have "x = comma \<or> x = LF" using Cons 2 assms(3) by auto
      ultimately show False using space_codes_facts(1) [OF c] assms(4) by (auto simp: delimiter_def)
    qed
  qed
qed

lemma delimiter_marks: "delimiter comma \<Longrightarrow> comma \<noteq> LF \<and> comma \<noteq> QUOTE \<and> comma \<noteq> CR"
  by (auto simp: delimiter_def LF_def QUOTE_def CR_def)

lemma not_space: "delimiter c \<or> c = QUOTE \<Longrightarrow> \<not> starts_with_space (c # s)"
  using space_codes_facts(1,2) by (fastforce simp: starts_with_space_def list_ex_iff strip_prefix_Some delimiter_def Cons_eq_append_conv)

lemma text_pos_append:
  "LF \<notin> set f \<Longrightarrow> text_pos (f @ s) = (f @ fst (text_pos s), snd (text_pos s))"
  by (induction f) (auto simp: prod_eq_iff)

lemma cut_at_append: "c \<notin> set f \<Longrightarrow> cut_at c (f @ c # s) = (f, Some s)"
  by (induction f) auto

lemma cut_at_none: "c \<notin> set f \<Longrightarrow> cut_at c f = (f, None)"
  by (induction f) auto

lemma chomp_LF [simp]: "chomp [] = []" "chomp (f @ [LF]) = f"
  by (simp_all add: chomp_def)

lemma trim_left_LF: "trim_left [LF] = []"
  by code_simp

text \<open>One field followed by the delimiter, or by the end of the line.\<close>

lemma trim_plain:
  assumes "\<not> fieldNeedsQuotes comma f" and "delimiter comma"
  shows "trim_left (f @ comma # u) = f @ comma # u"
    and "f \<noteq> [] \<Longrightarrow> trim_left (f @ LF # u) = f @ LF # u"
proof -
  have f: "f = [] \<or> \<not> starts_with_space f" using assms(1) by (auto simp: fieldNeedsQuotes_def)
  with not_space [of comma u] starts_with_space_append [OF _ _ _ assms(2), of f "comma # u" u] assms(2)
  show "trim_left (f @ comma # u) = f @ comma # u" by (intro trim_left_id) (cases "f = []"; simp)
  show "f \<noteq> [] \<Longrightarrow> trim_left (f @ LF # u) = f @ LF # u"
    using f starts_with_space_append [OF _ _ _ assms(2), of f "LF # u" u] by (intro trim_left_id) auto
qed

lemma hd_plain: "\<not> fieldNeedsQuotes comma f \<Longrightarrow> c \<noteq> QUOTE \<Longrightarrow> hd (f @ c # u) \<noteq> QUOTE"
  by (cases f) (auto simp: fieldNeedsQuotes_def)

lemma read_inner_field:
  assumes "delimiter comma" and "u \<noteq> []"
  shows "record_fields comma (fst (text_pos (write_field comma f @ comma # u))) (snd (text_pos (write_field comma f @ comma # u)))
    = (case record_fields comma (fst (text_pos u)) (snd (text_pos u)) of (r, ls) \<Rightarrow> (map_sum id (Cons f) r, ls))"
proof (cases "fieldNeedsQuotes comma f")
  case False
  then have f: "LF \<notin> set f" "comma \<notin> set f" "QUOTE \<notin> set f" by (cases f; auto simp: fieldNeedsQuotes_def)+
  with False assms delimiter_marks [of comma] hd_plain [OF False, of comma]
  show ?thesis
    by (subst record_fields.simps) (simp add: write_field_def text_pos_append trim_plain cut_at_append)
next
  case True
  let ?t = "QUOTE # comma # u"
  have "trim_left (QUOTE # s) = QUOTE # s" for s by (rule trim_left_id) (simp add: not_space)
  with True quoted_text [of ?t comma "[]" f] delimiter_marks [OF assms(1)] show ?thesis
    by (subst record_fields.simps) (simp add: write_field_def)
qed

lemma read_last_field:
  assumes "delimiter comma"
  shows "record_fields comma (fst (text_pos (write_field comma f @ LF # u))) (snd (text_pos (write_field comma f @ LF # u)))
    = (Inr [f], cut_lines [] u)"
proof (cases "fieldNeedsQuotes comma f")
  case False
  then have f: "LF \<notin> set f" "comma \<notin> set f" "QUOTE \<notin> set f" by (cases f; auto simp: fieldNeedsQuotes_def)+
  with False assms delimiter_marks [of comma] hd_plain [OF False, of LF]
  show ?thesis
    by (subst record_fields.simps)
      (cases "f = []"; simp add: write_field_def text_pos_append trim_plain cut_at_none trim_left_LF)
next
  case True
  let ?t = "QUOTE # LF # u"
  have "trim_left (QUOTE # s) = QUOTE # s" for s by (rule trim_left_id) (simp add: not_space)
  with True quoted_text [of ?t comma "[]" f] delimiter_marks [OF assms] show ?thesis
    by (subst record_fields.simps) (auto simp: write_field_def)
qed

text \<open>
  The file that the writer produces from records reads back as these records. A record of one empty
  field would be an empty line.
\<close>

lemma write_record_nonempty: "write_record comma fs \<noteq> []"
  by (cases fs rule: remdups_adj.cases) auto

lemma record_fields_write:
  "delimiter comma \<Longrightarrow> fs \<noteq> [] \<Longrightarrow>
     record_fields comma (fst (text_pos (write_record comma fs @ u))) (snd (text_pos (write_record comma fs @ u)))
     = (Inr fs, cut_lines [] u)"
proof (induction comma fs rule: write_record.induct)
  case (3 comma f g fs)
  then show ?case
    using read_inner_field [of comma "write_record comma (g # fs) @ u" f] write_record_nonempty [of comma "g # fs"]
    by simp
qed (simp_all add: read_last_field)

lemma written_line:
  assumes "delimiter comma" and "fs \<noteq> []" and "fs \<noteq> [[]]"
  shows "fst (text_pos (write_record comma fs @ u)) \<notin> {[], [LF]}"
proof -
  obtain f r where fs: "fs = f # r" using assms(2) by (cases fs) auto
  obtain c v where w: "write_record comma fs = c # v" and c: "c \<noteq> LF"
  proof (cases "write_field comma f")
    case Nil
    then have "f = []" by (auto simp: write_field_def fieldNeedsQuotes_def split: if_splits)
    with assms(3) fs obtain g r' where r: "r = g # r'" by (cases r) auto
    with fs Nil that [of comma] delimiter_marks [OF assms(1)] show thesis by simp
  next
    case (Cons c v)
    moreover have "c \<noteq> LF"
      using Cons by (auto simp: write_field_def fieldNeedsQuotes_def split: if_splits)
    ultimately show thesis using that fs by (cases r) auto
  qed
  then show ?thesis by simp
qed

lemma csv_rest_write:
  assumes "delimiter comma"
  shows "(\<And>fs. fs \<in> set rs \<Longrightarrow> fs \<noteq> [] \<and> fs \<noteq> [[]]) \<Longrightarrow>
     csv_rest n comma (cut_lines [] (concat (map (write_record comma) rs))) = map (check_count n \<circ> Inr) rs"
proof (induction rs)
  case Nil
  then show ?case by (simp add: csv_rest.simps)
next
  case (Cons fs rs)
  let ?u = "concat (map (write_record comma) rs)"
  let ?s = "write_record comma fs @ ?u"
  have fs: "fs \<noteq> []" "fs \<noteq> [[]]" using Cons.prems [of fs] by auto
  have "cut_lines [] ?s = fst (text_pos ?s) # snd (text_pos ?s)"
    by (rule cut_lines_pos) (simp add: write_record_nonempty)
  then have "read_record comma (cut_lines [] ?s) = Some (Inr fs, cut_lines [] ?u)"
    using written_line [OF assms fs, of ?u] record_fields_write [OF assms fs(1), of ?u] by simp
  with Cons show ?case by (subst csv_rest.simps) simp
qed

end
