(* ===== verification/Import.thy ===== *)
theory Import
  imports Guests Csv
begin

text \<open>
  The import of guests from a file: \<open>import_service.go\<close>, and \<open>EventGuestService.ImportCSV\<close>, which
  puts the imported guests on the roster of an event. The lemmas show what an import that succeeds
  has stored, that an import that fails has stored nothing, how its counts relate, and that the
  guest book of a tenant holds no phone number and no address twice as long as no statement fails.
  The lower-casing of the Go library is the parameter \<open>lower\<close>.
\<close>

section \<open>Headers and rows\<close>

text \<open>The messages of a row: constant texts, and the texts that hold an identifier or an error of the reader.\<close>

datatype row_error = Message string | ParseFailed csv_error | PhoneTaken uuid | EmailTaken uuid

record guest_import_row =
  ir_RowNum :: int
  ir_FullName :: string
  ir_Nickname :: string
  ir_Phone :: string
  ir_Email :: string
  ir_Address :: string
  ir_City :: string
  ir_Country :: string
  ir_GuestType :: string
  ir_Segment :: string
  ir_Institution :: string
  ir_Title :: string
  ir_Relationship :: string
  ir_PIC :: string
  ir_AccessibilityNeeds :: string
  ir_DietaryRestrictions :: string
  ir_Allergies :: string
  ir_Notes :: string
  ir_Errors :: "row_error list"

record guest_import_result =
  im_TotalRows :: int
  im_SuccessCount :: int
  im_ErrorCount :: int
  im_ImportedGuestIDs :: "uuid list"
  im_Errors :: "guest_import_row list"

definition CSVTemplateHeaders :: "string list" where
  "CSVTemplateHeaders = [''full_name'', ''nickname'', ''phone'', ''email'', ''address'', ''city'', ''country'',
     ''guest_type'', ''segment'', ''institution'', ''title'', ''relationship'', ''pic'',
     ''accessibility_needs'', ''dietary_restrictions'', ''allergies'', ''notes'']"

definition CSVTemplate :: string where
  "CSVTemplate = write_record CHR '','' CSVTemplateHeaders"

definition stripBOM :: "string \<Rightarrow> string" where
  "stripBOM data = (case strip_prefix [CHR 0xEF, CHR 0xBB, CHR 0xBF] data of None \<Rightarrow> data | Some r \<Rightarrow> r)"

definition readFirstLine :: "string \<Rightarrow> string" where
  "readFirstLine data = fst (cut_at LF data)"

definition separator :: "string \<Rightarrow> char" where
  "separator data = (let l = readFirstLine data in
     if CHR '';'' \<in> set l \<and> CHR '','' \<notin> set l then CHR '';'' else CHR '','')"

text \<open>\<open>normalizeHeaders\<close>: a name that occurs twice stands for its last column.\<close>

definition normalize_header :: "(string \<Rightarrow> string) \<Rightarrow> string \<Rightarrow> string" where
  "normalize_header lower h =
     map (\<lambda>c. if c = CHR '' '' \<or> c = CHR ''-'' then CHR ''_'' else c) (lower (TrimSpace h))"

definition normalizeHeaders :: "(string \<Rightarrow> string) \<Rightarrow> string list \<Rightarrow> string \<Rightarrow> nat option" where
  "normalizeHeaders lower headers =
     map_of (rev (zip (map (normalize_header lower) headers) [0..<length headers]))"

definition validateHeaders :: "(string \<Rightarrow> nat option) \<Rightarrow> bool" where
  "validateHeaders m \<longleftrightarrow> m ''full_name'' \<noteq> None \<or> m ''name'' \<noteq> None \<or> m ''fullname'' \<noteq> None"

text \<open>The function \<open>get\<close> of \<open>parseRow\<close>: the first of the names that has a column in the record.\<close>

fun get_column :: "string list \<Rightarrow> (string \<Rightarrow> nat option) \<Rightarrow> string list \<Rightarrow> string" where
  "get_column record m [] = []"
| "get_column record m (k # ks) = (case m k of
     Some i \<Rightarrow> if i < length record then TrimSpace (record ! i) else get_column record m ks
   | None \<Rightarrow> get_column record m ks)"

definition char_range :: "nat \<Rightarrow> nat \<Rightarrow> char \<Rightarrow> bool" where
  "char_range a b c \<longleftrightarrow> a \<le> of_char c \<and> of_char c \<le> b"

definition digit :: "char \<Rightarrow> bool" where
  "digit = char_range 48 57"

definition letter :: "char \<Rightarrow> bool" where
  "letter c \<longleftrightarrow> char_range 97 122 c \<or> char_range 65 90 c"

definition normalizeImportPhone :: "string \<Rightarrow> string" where
  "normalizeImportPhone v =
     (let value = TrimSpace v; cleaned = filter digit value in
      if value = [] then []
      else if cleaned = [] then value
      else if hd value = CHR ''+'' then ''+'' @ cleaned
      else case strip_prefix ''00'' cleaned of Some r \<Rightarrow> ''+'' @ r
      | None \<Rightarrow> (case strip_prefix ''0'' cleaned of Some r \<Rightarrow> ''+62'' @ r | None \<Rightarrow> ''+'' @ cleaned))"

definition normalizeImportGuestType :: "(string \<Rightarrow> string) \<Rightarrow> string \<Rightarrow> string" where
  "normalizeImportGuestType lower v =
     (let s = lower (TrimSpace v) in
      if List.member [''regular'', ''general'', ''umum'', ''tamu''] s then ''general''
      else if s = ''vip'' then ''vip''
      else if s = ''vvip'' then ''vvip''
      else if s = ''family'' \<or> s = ''keluarga'' then ''family''
      else if s = ''friend'' \<or> s = ''teman'' then ''friend''
      else if List.member [''colleague'', ''rekan'', ''rekan kerja''] s then ''colleague''
      else if s = ''vendor'' then ''vendor''
      else s)"

definition parseRow ::
  "(string \<Rightarrow> string) \<Rightarrow> string list \<Rightarrow> (string \<Rightarrow> nat option) \<Rightarrow> int \<Rightarrow> guest_import_row" where
  "parseRow lower record m n = (let get = get_column record m in
     \<lparr>ir_RowNum = n, ir_FullName = get [''full_name'', ''name'', ''fullname''],
      ir_Nickname = get [''nickname'', ''nick_name''],
      ir_Phone = normalizeImportPhone (get [''phone'', ''phone_number'', ''mobile'']),
      ir_Email = get [''email'', ''email_address''], ir_Address = get [''address''],
      ir_City = get [''city''], ir_Country = get [''country''],
      ir_GuestType = normalizeImportGuestType lower (get [''guest_type'', ''type'', ''guesttype'']),
      ir_Segment = get [''segment'', ''category''],
      ir_Institution = get [''institution'', ''organization'', ''company'', ''org''],
      ir_Title = get [''title''], ir_Relationship = get [''relationship''],
      ir_PIC = get [''pic'', ''person_in_charge''],
      ir_AccessibilityNeeds = get [''accessibility_needs'', ''accessibility'', ''special_needs''],
      ir_DietaryRestrictions = get [''dietary_restrictions'', ''dietary'', ''diet''],
      ir_Allergies = get [''allergies''], ir_Notes = get [''notes'', ''remarks'', ''comments''],
      ir_Errors = []\<rparr>)"

definition isEmptyRow :: "string list \<Rightarrow> bool" where
  "isEmptyRow record = list_all (\<lambda>f. TrimSpace f = []) record"

text \<open>A row that the reader could not parse keeps only its number and the error.\<close>

definition failed_row :: "csv_error \<Rightarrow> int \<Rightarrow> guest_import_row" where
  "failed_row e n = \<lparr>ir_RowNum = n, ir_FullName = [], ir_Nickname = [], ir_Phone = [], ir_Email = [],
     ir_Address = [], ir_City = [], ir_Country = [], ir_GuestType = [], ir_Segment = [],
     ir_Institution = [], ir_Title = [], ir_Relationship = [], ir_PIC = [], ir_AccessibilityNeeds = [],
     ir_DietaryRestrictions = [], ir_Allergies = [], ir_Notes = [], ir_Errors = [ParseFailed e]\<rparr>"

fun parse_rows ::
  "(string \<Rightarrow> string) \<Rightarrow> (string \<Rightarrow> nat option) \<Rightarrow> int \<Rightarrow> (csv_error + string list) list \<Rightarrow> guest_import_row list" where
  "parse_rows lower m n [] = []"
| "parse_rows lower m n (Inl e # rs) = failed_row e n # parse_rows lower m (n + 1) rs"
| "parse_rows lower m n (Inr rec # rs) = (if isEmptyRow rec then parse_rows lower m (n + 1) rs
     else parseRow lower rec m n # parse_rows lower m (n + 1) rs)"

section \<open>Validation\<close>

text \<open>
  \<open>emailRegex\<close>: neither class holds the at sign, and the last one holds no dot, so the match is cut
  at the only at sign and at the last dot.
\<close>

definition emailRegex :: "string \<Rightarrow> bool" where
  "emailRegex s \<longleftrightarrow> (case cut_at CHR ''@'' s of
       (loc, Some rest) \<Rightarrow> (case cut_at CHR ''.'' (rev rest) of
           (tld, Some host) \<Rightarrow> loc \<noteq> [] \<and> list_all (\<lambda>c. letter c \<or> digit c \<or> List.member ''._%+-'' c) loc
             \<and> host \<noteq> [] \<and> list_all (\<lambda>c. letter c \<or> digit c \<or> List.member ''.-'' c) host
             \<and> 2 \<le> length tld \<and> list_all letter tld
         | (_, None) \<Rightarrow> False)
     | (_, None) \<Rightarrow> False)"

definition isValidEmail :: "string \<Rightarrow> bool" where
  "isValidEmail email \<longleftrightarrow> length email \<le> 254 \<and> emailRegex email"

definition isValidE164 :: "string \<Rightarrow> bool" where
  "isValidE164 phone \<longleftrightarrow> 8 \<le> length phone \<and> length phone \<le> 15
     \<and> hd phone = CHR ''+'' \<and> list_all digit (tl phone)"

definition row_errors :: "guest_import_row \<Rightarrow> row_error list" where
  "row_errors row =
     (if ir_FullName row = [] then [Message ''Full name is required'']
      else if RuneCountInString (ir_FullName row) < 2 then [Message ''Full name must be at least 2 characters'']
      else if 255 < length (ir_FullName row) then [Message ''Full name must be at most 255 characters'']
      else [])
     @ (if ir_Email row \<noteq> [] \<and> \<not> isValidEmail (ir_Email row) then [Message ''Invalid email format''] else [])
     @ (if ir_Phone row \<noteq> [] \<and> \<not> isValidE164 (ir_Phone row)
        then [Message ''Phone must be in E.164 format (e.g., +628123456789)''] else [])
     @ (if ir_GuestType row \<noteq> [] \<and> \<not> IsValidGuestType (ir_GuestType row)
        then [Message ''Invalid guest_type. Must be one of: vip, vvip, family, friend, colleague, government, media, sponsor, vendor, speaker, participant, internal, protocol, security, general'']
        else [])"

definition validateRow :: "guest_import_row \<Rightarrow> guest_import_row" where
  "validateRow row = row\<lparr>ir_Errors := row_errors row\<rparr>"

definition rowToGuest :: "guest_import_row \<Rightarrow> uuid \<Rightarrow> uuid \<Rightarrow> guest app" where
  "rowToGuest row tenantID createdBy = NewGuest tenantID createdBy
     \<lparr>gcr_FullName = ir_FullName row, gcr_Nickname = ir_Nickname row, gcr_Phone = ir_Phone row,
      gcr_Email = ir_Email row, gcr_Address = ir_Address row, gcr_City = ir_City row,
      gcr_Country = ir_Country row, gcr_Language = [], gcr_GuestType = ir_GuestType row,
      gcr_Segment = ir_Segment row, gcr_Institution = ir_Institution row, gcr_Title = ir_Title row,
      gcr_Relationship = ir_Relationship row, gcr_PIC = ir_PIC row,
      gcr_AccessibilityNeeds = ir_AccessibilityNeeds row,
      gcr_DietaryRestrictions = ir_DietaryRestrictions row, gcr_Allergies = ir_Allergies row,
      gcr_Notes = ir_Notes row, gcr_ConsentCommunication = False\<rparr>"

text \<open>The loop over the validated rows: a guest for each row without errors.\<close>

fun valid_guests :: "uuid \<Rightarrow> uuid \<Rightarrow> guest_import_row list \<Rightarrow> guest list app" where
  "valid_guests tenantID createdBy [] = go_ret []"
| "valid_guests tenantID createdBy (row # rows) =
     (if ir_Errors row = [] then
        go_bind (rowToGuest row tenantID createdBy) (\<lambda>g.
        go_bind (valid_guests tenantID createdBy rows) (\<lambda>gs. go_ret (g # gs)))
      else valid_guests tenantID createdBy rows)"

section \<open>Duplicates\<close>

definition nonempty_contacts :: "(guest \<Rightarrow> string option) \<Rightarrow> guest list \<Rightarrow> string list" where
  "nonempty_contacts col gs = filter (\<lambda>s. s \<noteq> []) (List.map_filter col gs)"

definition found_contact ::
  "string \<Rightarrow> (guest \<Rightarrow> string option) \<Rightarrow> (string \<Rightarrow> uuid option) \<Rightarrow> guest \<Rightarrow> uuid list" where
  "found_contact key col dups g = (case col g of None \<Rightarrow> [] | Some s \<Rightarrow>
     if s = [] then [] else (case dups (key @ s) of None \<Rightarrow> [] | Some i \<Rightarrow> [i]))"

text \<open>The first row with the name and a contact of the guest gets the errors and is listed.\<close>

definition row_of :: "guest \<Rightarrow> guest_import_row \<Rightarrow> bool" where
  "row_of g row \<longleftrightarrow> ir_FullName row = g_FullName g
     \<and> (g_Phone g = Some (ir_Phone row) \<or> g_Email g = Some (ir_Email row))"

fun mark_row ::
  "row_error list \<Rightarrow> guest \<Rightarrow> guest_import_row list \<Rightarrow> guest_import_row list \<times> guest_import_row list" where
  "mark_row errs g [] = ([], [])"
| "mark_row errs g (row # rows) =
     (if row_of g row then let row' = row\<lparr>ir_Errors := ir_Errors row @ errs\<rparr> in (row' # rows, [row'])
      else (case mark_row errs g rows of (rows', shown) \<Rightarrow> (row # rows', shown)))"

text \<open>
  The loop that sorts the guests into new ones, guests of the tenant that are reused, and
  duplicates; it yields the new guests, the reused ids, the number of duplicates and the rows to list.
\<close>

fun sift ::
  "bool \<Rightarrow> (string \<Rightarrow> uuid option) \<Rightarrow> guest_import_row list \<Rightarrow> guest list
     \<Rightarrow> guest list \<times> uuid list \<times> nat \<times> guest_import_row list" where
  "sift reuse dups rows [] = ([], [], 0, [])"
| "sift reuse dups rows (g # gs) =
     (let ps = found_contact ''phone:'' g_Phone dups g; es = found_contact ''email:'' g_Email dups g in
      if ps = [] \<and> es = [] then
        (case sift reuse dups rows gs of (new, old, n, shown) \<Rightarrow> (g # new, old, n, shown))
      else if reuse \<and> length (remdups (ps @ es)) = 1 then
        (case sift reuse dups rows gs of (new, old, n, shown) \<Rightarrow> (new, hd (ps @ es) # old, n, shown))
      else
        (case mark_row (map PhoneTaken ps @ map EmailTaken es) g rows of (rows', marked) \<Rightarrow>
         case sift reuse dups rows' gs of (new, old, n, shown) \<Rightarrow> (new, old, Suc n, marked @ shown)))"

text \<open>
  The loop over what is left: a guest whose phone number or address has been seen is dropped; its
  contacts count as seen all the same.
\<close>

definition seen_contact :: "string list \<Rightarrow> string option \<Rightarrow> bool" where
  "seen_contact seen v = (case v of None \<Rightarrow> False | Some s \<Rightarrow> s \<noteq> [] \<and> s \<in> set seen)"

fun drop_repeats :: "string list \<Rightarrow> string list \<Rightarrow> guest list \<Rightarrow> guest list" where
  "drop_repeats phones emails [] = []"
| "drop_repeats phones emails (g # gs) =
     (let rest = drop_repeats (nonempty_contacts g_Phone [g] @ phones) (nonempty_contacts g_Email [g] @ emails) gs in
      if seen_contact phones (g_Phone g) \<or> seen_contact emails (g_Email g) then rest else g # rest)"

section \<open>The import\<close>

text \<open>
  The rows of a file, or \<open>None\<close> where the header cannot be read or lacks the column of the name.
\<close>

definition csv_rows :: "(string \<Rightarrow> string) \<Rightarrow> string \<Rightarrow> guest_import_row list option" where
  "csv_rows lower content0 =
     (let content = stripBOM content0; comma = separator content in
      case read_record comma (csv_lines content) of
        Some (Inr headers, ls) \<Rightarrow>
          (let m = normalizeHeaders lower headers in
           if validateHeaders m then Some (parse_rows lower m 2 (csv_rest (length headers) comma ls)) else None)
      | _ \<Rightarrow> None)"

definition ImportService_importCSV ::
  "(string \<Rightarrow> string) \<Rightarrow> uuid \<Rightarrow> uuid \<Rightarrow> string \<Rightarrow> bool \<Rightarrow> guest_import_result app" where
  "ImportService_importCSV lower tenantID createdBy content reuseExisting =
     (case csv_rows lower content of None \<Rightarrow> go_fail ErrOther | Some rows0 \<Rightarrow>
      let rows = map validateRow rows0; bad = filter (\<lambda>r. ir_Errors r \<noteq> []) rows in
      go_bind (valid_guests tenantID createdBy rows) (\<lambda>valid.
      go_bind (if valid = [] then go_ret (\<lambda>_. None)
               else GuestRepository_CheckDuplicates tenantID (nonempty_contacts g_Phone valid)
                 (nonempty_contacts g_Email valid)) (\<lambda>dups.
      case sift reuseExisting dups rows valid of (new, reused, dupCount, shown) \<Rightarrow>
      let final = drop_repeats [] [] new in
      go_bind (if final = [] then go_ret () else GuestRepository_BulkCreate final) (\<lambda>_.
      go_ret \<lparr>im_TotalRows = int (length rows),
        im_SuccessCount = int (length final) + (if reuseExisting then int (length reused) else 0),
        im_ErrorCount = int (length bad) + int dupCount,
        im_ImportedGuestIDs = map ID final @ (if reuseExisting then reused else []),
        im_Errors = bad @ shown\<rparr>))))"

definition ImportService_ImportCSV ::
  "(string \<Rightarrow> string) \<Rightarrow> uuid \<Rightarrow> uuid \<Rightarrow> string \<Rightarrow> guest_import_result app" where
  "ImportService_ImportCSV lower t u content = ImportService_importCSV lower t u content False"

definition ImportService_ImportCSVForEvent ::
  "(string \<Rightarrow> string) \<Rightarrow> uuid \<Rightarrow> uuid \<Rightarrow> string \<Rightarrow> guest_import_result app" where
  "ImportService_ImportCSVForEvent lower t u content = ImportService_importCSV lower t u content True"

text \<open>\<open>GuestService\<close> passes both on.\<close>

definition GuestService_ImportCSV ::
  "(string \<Rightarrow> string) \<Rightarrow> uuid \<Rightarrow> uuid \<Rightarrow> string \<Rightarrow> guest_import_result app" where
  "GuestService_ImportCSV = ImportService_ImportCSV"

definition GuestService_ImportCSVForEvent ::
  "(string \<Rightarrow> string) \<Rightarrow> uuid \<Rightarrow> uuid \<Rightarrow> string \<Rightarrow> guest_import_result app" where
  "GuestService_ImportCSVForEvent = ImportService_ImportCSVForEvent"

text \<open>The roster entry of an imported guest, and the loop over the imported ids.\<close>

definition imported_event_guest :: "uuid \<Rightarrow> time \<Rightarrow> uuid \<Rightarrow> uuid \<Rightarrow> uuid \<Rightarrow> uuid \<Rightarrow> event_guest" where
  "imported_event_guest i t tenantID eventID guestID userID =
     \<lparr>ID = i, CreatedAt = t, UpdatedAt = t, DeletedAt = None, TenantID = tenantID, EventID = eventID,
      GuestID = guestID, eg_Status = EventGuestStatusActive, eg_Source = ''import'', eg_MaxPax = 1,
      eg_Adults = 1, eg_Children = 0, eg_PlusOneAllowed = False, eg_Notes = None, eg_CreatedBy = userID,
      eg_Guest = None\<rparr>"

fun add_imported :: "uuid \<Rightarrow> uuid \<Rightarrow> uuid \<Rightarrow> uuid list \<Rightarrow> uuid list \<Rightarrow> unit app" where
  "add_imported tenantID eventID userID seen [] = go_ret ()"
| "add_imported tenantID eventID userID seen (g # gs) =
     (if g \<in> set seen then add_imported tenantID eventID userID seen gs
      else go_try (EventGuestRepository_GetByEventAndGuest tenantID eventID g) (\<lambda>r. case r of
          Inr _ \<Rightarrow> add_imported tenantID eventID userID (g # seen) gs
        | Inl e \<Rightarrow> go_guard (e \<noteq> ErrNotFound) e (
            go_bind NewBase (\<lambda>(i, t).
            go_bind (EventGuestRepository_Create (imported_event_guest i t tenantID eventID g userID)) (\<lambda>_.
            add_imported tenantID eventID userID (g # seen) gs)))))"

definition EventGuestService_ImportCSV ::
  "(string \<Rightarrow> string) \<Rightarrow> uuid \<Rightarrow> uuid \<Rightarrow> uuid \<Rightarrow> string \<Rightarrow> guest_import_result app" where
  "EventGuestService_ImportCSV lower tenantID eventID userID content =
     go_bind (EventRepository_GetByIDForTenant eventID tenantID) (\<lambda>_.
     go_bind (GuestService_ImportCSVForEvent lower tenantID userID content) (\<lambda>result.
     go_bind (add_imported tenantID eventID userID [] (im_ImportedGuestIDs result)) (\<lambda>_. go_ret result)))"

section \<open>What the loops of the import keep\<close>

definition importable :: "guest \<Rightarrow> bool" where
  "importable g \<longleftrightarrow> 2 \<le> RuneCountInString (g_FullName g) \<and> length (g_FullName g) \<le> 255
     \<and> (\<forall>s. g_Phone g = Some s \<longrightarrow> isValidE164 s) \<and> (\<forall>s. g_Email g = Some s \<longrightarrow> isValidEmail s)
     \<and> (g_GuestType g = [] \<or> IsValidGuestType (g_GuestType g))"

definition imported :: "uuid \<Rightarrow> uuid \<Rightarrow> guest \<Rightarrow> bool" where
  "imported t u g \<longleftrightarrow> TenantID g = t \<and> live g \<and> g_CreatedBy g = u \<and> importable g
     \<and> g_Phone g \<noteq> Some [] \<and> g_Email g \<noteq> Some []"

text \<open>The guest that stands for a row: each column of the row is the column of the guest.\<close>

definition guest_of_row :: "guest_import_row \<Rightarrow> guest \<Rightarrow> bool" where
  "guest_of_row row g \<longleftrightarrow> row_errors row = [] \<and> g_FullName g = ir_FullName row
     \<and> g_Nickname g = opt_str (ir_Nickname row) \<and> g_Phone g = opt_str (ir_Phone row)
     \<and> g_Email g = opt_str (ir_Email row) \<and> g_Address g = opt_str (ir_Address row)
     \<and> g_City g = opt_str (ir_City row)
     \<and> g_Country g = Some (if ir_Country row = [] then ''Indonesia'' else ir_Country row)
     \<and> g_GuestType g = ir_GuestType row \<and> g_Segment g = opt_str (ir_Segment row)
     \<and> g_Institution g = opt_str (ir_Institution row) \<and> g_Title g = opt_str (ir_Title row)
     \<and> g_Relationship g = opt_str (ir_Relationship row) \<and> g_PIC g = opt_str (ir_PIC row)
     \<and> g_AccessibilityNeeds g = opt_str (ir_AccessibilityNeeds row)
     \<and> g_DietaryRestrictions g = opt_str (ir_DietaryRestrictions row)
     \<and> g_Allergies g = opt_str (ir_Allergies row) \<and> g_Notes g = opt_str (ir_Notes row)"

lemma rowToGuest_of_row:
  assumes "rowToGuest row t u w = (Inr g, w')" and "row_errors row = []"
  shows "guest_of_row row g"
  using assms by (auto simp: rowToGuest_def NewGuest_def go_run guest_of_row_def)

lemma opt_str_Some: "opt_str s = Some x \<longleftrightarrow> x = s \<and> s \<noteq> []"
  by (auto simp: opt_str_def)

lemma rowToGuest_Inr:
  assumes "rowToGuest row t u w = (Inr g, w')" and "row_errors row = []"
  shows "store w' = store w \<and> imported t u g"
proof -
  have "g_Phone g = opt_str (ir_Phone row)" "g_Email g = opt_str (ir_Email row)" "TenantID g = t" "live g"
    "g_CreatedBy g = u" "g_FullName g = ir_FullName row" "g_GuestType g = ir_GuestType row" "w' = tick (tick w)"
    using NewGuest_contacts [OF assms(1) [unfolded rowToGuest_def]] NewGuest_Inr [OF assms(1) [unfolded rowToGuest_def]]
    by simp_all
  then show ?thesis
    using assms(2) by (auto simp: row_errors_def imported_def importable_def opt_str_Some split: if_splits)
qed

lemma rowToGuest_run: "\<exists>g. rowToGuest row t u w = (Inr g, tick (tick w))"
  by (auto simp: rowToGuest_def NewGuest_def NewBase_def go_bind_run now_def uuid_New_def)

lemma validateRow_sel [simp]: "ir_Errors (validateRow row) = row_errors row"
  and rowToGuest_validate [simp]: "rowToGuest (validateRow row) = rowToGuest row"
  by (simp add: validateRow_def) (intro ext, simp add: validateRow_def rowToGuest_def)

lemma valid_guests_run:
  "\<exists>gs w'. valid_guests t u (map validateRow rows) w = (Inr gs, w') \<and> store w' = store w
     \<and> (\<forall>g \<in> set gs. imported t u g) \<and> list_all2 guest_of_row (filter (\<lambda>r. row_errors r = []) rows) gs
     \<and> length gs = length rows - count_where (\<lambda>r. ir_Errors r \<noteq> []) (map validateRow rows)"
proof (induction rows arbitrary: w)
  case (Cons row rows)
  have le: "count_where (\<lambda>r. ir_Errors r \<noteq> []) (map validateRow rows) \<le> length rows"
    using count_where_le [of "\<lambda>r. ir_Errors r \<noteq> []" "map validateRow rows"] by simp
  show ?case
  proof (cases "row_errors row = []")
    case True
    obtain g where g: "rowToGuest row t u w = (Inr g, tick (tick w))"
      using rowToGuest_run by blast
    with True rowToGuest_Inr rowToGuest_of_row have "imported t u g" "guest_of_row row g" by blast+
    with Cons.IH [of "tick (tick w)"] g True le show ?thesis
      by (auto simp: go_bind_run Suc_diff_le)
  qed (use Cons.IH [of w] in simp)
qed simp

lemma mark_row_length: "mark_row errs g rows = (rows', shown) \<Longrightarrow> length rows' = length rows"
  by (induction rows arbitrary: rows') (auto simp: Let_def split: if_splits prod.splits)

lemma sift_facts:
  "sift reuse dups rows gs = (new, old, n, shown) \<Longrightarrow>
     length new + length old + n = length gs \<and> set new \<subseteq> set gs
     \<and> (\<forall>g \<in> set new. found_contact ''phone:'' g_Phone dups g = [] \<and> found_contact ''email:'' g_Email dups g = [])
     \<and> (\<forall>i \<in> set old. reuse \<and> (\<exists>k. dups k = Some i))"
proof (induction gs arbitrary: rows new old n shown)
  case (Cons g gs)
  have hd: "\<exists>k. dups k = Some (hd (ps @ es))"
    if "ps = found_contact ''phone:'' g_Phone dups g" "es = found_contact ''email:'' g_Email dups g" "ps @ es \<noteq> []"
    for ps es
    using that by (auto simp: found_contact_def split: option.splits if_splits)
  show ?case
    using Cons.prems Cons.IH hd [OF refl refl]
    by (fastforce simp: Let_def split: if_splits prod.splits)
qed simp

definition contacts_of :: "(guest \<Rightarrow> string option) \<Rightarrow> guest list \<Rightarrow> string list" where
  "contacts_of col gs = List.map_filter col gs"

lemma contacts_of_simps [simp]:
  "contacts_of col [] = []"
  "contacts_of col (g # gs) = (case col g of None \<Rightarrow> [] | Some s \<Rightarrow> [s]) @ contacts_of col gs"
  by (auto simp: contacts_of_def map_filter_def split: option.split)

lemma contact_keys_of:
  "(\<And>g. g \<in> set gs \<Longrightarrow> live g \<and> TenantID g = t) \<Longrightarrow> contact_keys col gs = map (Pair t) (contacts_of col gs)"
proof (induction gs)
  case (Cons g gs)
  then show ?case by (cases "col g") (auto simp: contact_key_def)
qed simp

lemma nonempty_contacts_one: "nonempty_contacts col [g] = (case col g of None \<Rightarrow> [] | Some s \<Rightarrow> if s = [] then [] else [s])"
  by (auto simp: nonempty_contacts_def map_filter_def split: option.split)

lemma drop_repeats_facts:
  "(\<And>g. g \<in> set gs \<Longrightarrow> g_Phone g \<noteq> Some [] \<and> g_Email g \<noteq> Some []) \<Longrightarrow>
     set (drop_repeats ps es gs) \<subseteq> set gs \<and> length (drop_repeats ps es gs) \<le> length gs
     \<and> distinct (contacts_of g_Phone (drop_repeats ps es gs))
     \<and> set (contacts_of g_Phone (drop_repeats ps es gs)) \<inter> set ps = {}
     \<and> distinct (contacts_of g_Email (drop_repeats ps es gs))
     \<and> set (contacts_of g_Email (drop_repeats ps es gs)) \<inter> set es = {}"
proof (induction gs arbitrary: ps es)
  case (Cons g gs)
  let ?ps = "nonempty_contacts g_Phone [g] @ ps" and ?es = "nonempty_contacts g_Email [g] @ es"
  have ih: "set (drop_repeats ?ps ?es gs) \<subseteq> set gs" "length (drop_repeats ?ps ?es gs) \<le> length gs"
    "distinct (contacts_of g_Phone (drop_repeats ?ps ?es gs))" "distinct (contacts_of g_Email (drop_repeats ?ps ?es gs))"
    "set (contacts_of g_Phone (drop_repeats ?ps ?es gs)) \<inter> set ?ps = {}"
    "set (contacts_of g_Email (drop_repeats ?ps ?es gs)) \<inter> set ?es = {}"
    using Cons.IH [of ?ps ?es] Cons.prems by auto
  show ?case
  proof (cases "seen_contact ps (g_Phone g) \<or> seen_contact es (g_Email g)")
    case True
    with ih show ?thesis by (auto simp: Let_def)
  next
    case False
    with ih Cons.prems [of g] show ?thesis
      by (cases "g_Phone g"; cases "g_Email g") (auto simp: Let_def nonempty_contacts_one seen_contact_def)
  qed
qed simp

text \<open>No row is passed over without a reason: its contacts are known, or they occur further up.\<close>

lemma list_all2_in: "list_all2 P xs ys \<Longrightarrow> y \<in> set ys \<Longrightarrow> \<exists>x \<in> set xs. P x y"
  by (induction rule: list_all2_induct) auto

lemma list_all2_subseq:
  "list_all2 P xs ys \<Longrightarrow> subseq zs ys \<Longrightarrow> \<exists>us. subseq us xs \<and> list_all2 P us zs"
proof (induction xs ys arbitrary: zs rule: list_all2_induct)
  case (Cons x xs y ys)
  show ?case
  proof (cases zs)
    case (Cons z zs')
    show ?thesis
    proof (cases "z = y")
      case True
      then have "subseq zs' ys" using Cons.prems Cons by simp
      from Cons.IH [OF this] obtain us where "subseq us xs" "list_all2 P us zs'" by blast
      then show ?thesis using Cons.hyps(1) True Cons by (intro exI [of _ "x # us"]) auto
    next
      case False
      then have "subseq zs ys" using Cons.prems Cons by simp
      from Cons.IH [OF this] show ?thesis by (meson list_emb_Cons)
    qed
  qed auto
qed auto

lemma sift_Cons:
  assumes "sift reuse dups rows (g # gs) = (new, old, n, shown)"
  obtains rows' new' old' n' shown' where "sift reuse dups rows' gs = (new', old', n', shown')"
    and "new = (if found_contact ''phone:'' g_Phone dups g = [] \<and> found_contact ''email:'' g_Email dups g = []
      then g # new' else new')"
proof -
  obtain rows1 marked where mark: "mark_row (map PhoneTaken (found_contact ''phone:'' g_Phone dups g)
      @ map EmailTaken (found_contact ''email:'' g_Email dups g)) g rows = (rows1, marked)" by force
  obtain n1 o1 k1 s1 where 1: "sift reuse dups rows gs = (n1, o1, k1, s1)" by (cases "sift reuse dups rows gs")
  obtain n2 o2 k2 s2 where 2: "sift reuse dups rows1 gs = (n2, o2, k2, s2)" by (cases "sift reuse dups rows1 gs")
  show thesis
    using assms that [OF 1] that [OF 2] 1 2 mark
    by (cases reuse) (simp_all add: Let_def split: if_splits)
qed

lemma sift_subseq: "sift reuse dups rows gs = (new, old, n, shown) \<Longrightarrow> subseq new gs"
proof (induction gs arbitrary: rows new old n shown)
  case (Cons g gs)
  from Cons.prems show ?case by (rule sift_Cons) (auto dest: Cons.IH)
qed simp

lemma drop_repeats_subseq: "subseq (drop_repeats ps es gs) gs"
  by (induction gs arbitrary: ps es) (auto simp: Let_def)

lemma sift_new:
  assumes "sift reuse dups rows (as @ g # bs) = (new, old, n, shown)"
    and "found_contact ''phone:'' g_Phone dups g = []" and "found_contact ''email:'' g_Email dups g = []"
  shows "\<exists>xs ys. new = xs @ g # ys \<and> set xs \<subseteq> set as"
  using assms(1)
proof (induction as arbitrary: rows new old n shown)
  case Nil
  then show ?case using assms(2,3) by (fastforce split: prod.splits)
next
  case (Cons a as)
  have keep: "\<exists>xs ys. new = xs @ g # ys \<and> set xs \<subseteq> set (a # as)"
    if "sift reuse dups rows' (as @ g # bs) = (new', old', n', shown')" "new = new' \<or> new = a # new'"
    for rows' new' old' n' shown'
  proof -
    from Cons.IH [OF that(1)] obtain xs ys where "new' = xs @ g # ys" "set xs \<subseteq> set as" by blast
    with that(2) have "new = xs @ g # ys \<or> new = (a # xs) @ g # ys" by auto
    then show ?thesis
    proof
      assume "new = xs @ g # ys"
      with \<open>set xs \<subseteq> set as\<close> show ?thesis by (intro exI [of _ xs] exI [of _ ys]) auto
    next
      assume "new = (a # xs) @ g # ys"
      with \<open>set xs \<subseteq> set as\<close> show ?thesis by (intro exI [of _ "a # xs"] exI [of _ ys]) auto
    qed
  qed
  from Cons.prems [unfolded append_Cons] show ?case
    by (rule sift_Cons) (erule keep, simp split: if_splits)
qed

definition guests_share :: "guest \<Rightarrow> guest \<Rightarrow> bool" where
  "guests_share h g \<longleftrightarrow> (\<exists>s. s \<noteq> [] \<and> (g_Phone h = Some s \<and> g_Phone g = Some s \<or> g_Email h = Some s \<and> g_Email g = Some s))"

lemma seen_append: "seen_contact (xs @ ys) v \<longleftrightarrow> seen_contact xs v \<or> seen_contact ys v"
  by (auto simp: seen_contact_def split: option.split)

lemma seen_share: "seen_contact (nonempty_contacts g_Phone [h]) (g_Phone g)
    \<or> seen_contact (nonempty_contacts g_Email [h]) (g_Email g) \<longleftrightarrow> guests_share h g"
  by (cases "g_Phone h"; cases "g_Email h"; cases "g_Phone g"; cases "g_Email g")
    (auto simp: seen_contact_def nonempty_contacts_one guests_share_def)

lemma drop_repeats_new:
  "\<not> seen_contact ps (g_Phone g) \<Longrightarrow> \<not> seen_contact es (g_Email g) \<Longrightarrow> \<forall>h \<in> set xs. \<not> guests_share h g \<Longrightarrow>
    g \<in> set (drop_repeats ps es (xs @ g # ys))"
proof (induction xs arbitrary: ps es)
  case (Cons h xs)
  then have "\<not> seen_contact (nonempty_contacts g_Phone [h] @ ps) (g_Phone g)"
    "\<not> seen_contact (nonempty_contacts g_Email [h] @ es) (g_Email g)"
    using seen_share [of h g] by (auto simp: seen_append)
  from Cons.IH [OF this] Cons.prems show ?case by (auto simp: Let_def)
qed (simp add: Let_def)

section \<open>What an import does\<close>

text \<open>What a lookup of duplicates reports is a live guest of the tenant with the contact.\<close>

lemma duplicate_query_sound:
  assumes "duplicate_query t key col xs m w = (Inr m', w')" and "m' k = Some i"
  shows "m k = Some i \<or> (\<exists>g \<in> set (guests (store w)). live g \<and> TenantID g = t \<and> (\<exists>s. col g = Some s \<and> k = key @ s))"
proof -
  let ?rows = "filter (\<lambda>g. TenantID g = t \<and> live g \<and> in_column xs (col g)) (guests (store w))"
  have "m' = (if xs = [] then m else column_ids key col ?rows m)"
    using assms(1) by (auto simp: duplicate_query_def go_run split: if_splits)
  then show ?thesis
    using assms(2) column_ids_Some [of key col ?rows m k i]
    by (fastforce simp: in_column_def split: if_splits option.splits)
qed

lemma found_contact_sound:
  assumes "GuestRepository_CheckDuplicates t phones emails w = (Inr dups, w')"
    and "found_contact ''phone:'' g_Phone dups g \<noteq> [] \<or> found_contact ''email:'' g_Email dups g \<noteq> []"
  shows "\<exists>h \<in> set (guests (store w)). live h \<and> TenantID h = t \<and> guests_share h g"
proof -
  obtain m v where 1: "duplicate_query t ''phone:'' g_Phone phones (\<lambda>_. None) w = (Inr m, v)"
    and 2: "duplicate_query t ''email:'' g_Email emails m v = (Inr dups, w')"
    using assms(1) by (auto simp: GuestRepository_CheckDuplicates_def go_run)
  have v: "store v = store w" using duplicate_query_Inr(1) [OF 1] .
  from assms(2) consider s i where "g_Phone g = Some s" "s \<noteq> []" "dups (''phone:'' @ s) = Some i"
    | s i where "g_Email g = Some s" "s \<noteq> []" "dups (''email:'' @ s) = Some i"
    by (auto simp: found_contact_def split: option.splits if_splits)
  then show ?thesis
  proof cases
    case 1
    with duplicate_query_sound [OF 2 1(3)] have "m (''phone:'' @ s) = Some i" by auto
    from duplicate_query_sound [OF \<open>duplicate_query t ''phone:'' g_Phone phones (\<lambda>_. None) w = (Inr m, v)\<close> this]
    show ?thesis using 1(1,2) unfolding guests_share_def by fastforce
  next
    case mail: 2
    from duplicate_query_sound [OF 2 mail(3)] have "m (''email:'' @ s) = Some i
        \<or> (\<exists>h \<in> set (guests (store w)). live h \<and> TenantID h = t \<and> g_Email h = Some s)" unfolding v by auto
    then show ?thesis
    proof
      assume "m (''email:'' @ s) = Some i"
      from duplicate_query_sound [OF 1 this] show ?thesis by auto
    next
      assume "\<exists>h \<in> set (guests (store w)). live h \<and> TenantID h = t \<and> g_Email h = Some s"
      then show ?thesis using mail(1,2) unfolding guests_share_def by blast
    qed
  qed
qed

lemma unmatched_contact:
  assumes "found_contact key col dups g = []" and "col g = Some s" and "s \<noteq> []"
  shows "dups (key @ s) = None"
  using assms by (auto simp: found_contact_def split: option.splits)

lemma nonempty_contacts_in: "g \<in> set gs \<Longrightarrow> col g = Some s \<Longrightarrow> s \<noteq> [] \<Longrightarrow> s \<in> set (nonempty_contacts col gs)"
  by (force simp: nonempty_contacts_def map_filter_def)

text \<open>Everything that a successful import does, for the properties below.\<close>

definition stored_import :: "uuid \<Rightarrow> uuid \<Rightarrow> guest list \<Rightarrow> guest list \<Rightarrow> bool" where
  "stored_import t u gs new \<longleftrightarrow> (\<forall>g \<in> set new. imported t u g \<and> \<not> has_id (ID g) gs) \<and> distinct (map ID new)
     \<and> distinct (contact_keys g_Phone new) \<and> set (contact_keys g_Phone new) \<inter> set (contact_keys g_Phone gs) = {}
     \<and> distinct (contact_keys g_Email new) \<and> set (contact_keys g_Email new) \<inter> set (contact_keys g_Email gs) = {}"

text \<open>The steps of an import before its rows are stored.\<close>

definition import_checks :: "uuid \<Rightarrow> guest list \<Rightarrow> (string \<Rightarrow> uuid option) app" where
  "import_checks t valid = (if valid = [] then go_ret (\<lambda>_. None) else
     GuestRepository_CheckDuplicates t (nonempty_contacts g_Phone valid) (nonempty_contacts g_Email valid))"

definition import_writes :: "guest list \<Rightarrow> unit app" where
  "import_writes new = (if new = [] then go_ret () else GuestRepository_BulkCreate new)"

lemma import_checks_pure: "stays (=) (import_checks t valid)"
  unfolding import_checks_def by (auto intro!: CheckDuplicates_pure unchanged.all_stays)

text \<open>
  How the stored guests come from the rows of the file: in the order of the file, each for a valid row;
  and a valid row without a guest has a contact that a guest of the tenant had, or that a valid row
  further up has.
\<close>

definition contact_known :: "guest_import_row \<Rightarrow> guest \<Rightarrow> bool" where
  "contact_known row h \<longleftrightarrow> ir_Phone row \<noteq> [] \<and> g_Phone h = Some (ir_Phone row)
     \<or> ir_Email row \<noteq> [] \<and> g_Email h = Some (ir_Email row)"

definition contact_repeated :: "guest_import_row \<Rightarrow> guest_import_row \<Rightarrow> bool" where
  "contact_repeated row r \<longleftrightarrow> ir_Phone row \<noteq> [] \<and> ir_Phone r = ir_Phone row
     \<or> ir_Email row \<noteq> [] \<and> ir_Email r = ir_Email row"

definition rows_stored :: "uuid \<Rightarrow> guest_import_row list \<Rightarrow> guest list \<Rightarrow> guest list \<Rightarrow> bool" where
  "rows_stored t rows gs new \<longleftrightarrow>
     (\<exists>used. subseq used rows \<and> list_all2 guest_of_row used new)
     \<and> (\<forall>us row vs. rows = us @ row # vs \<and> row_errors row = [] \<longrightarrow>
          (\<exists>g \<in> set new. guest_of_row row g)
          \<or> (\<exists>h \<in> set gs. live h \<and> TenantID h = t \<and> contact_known row h)
          \<or> (\<exists>r \<in> set us. row_errors r = [] \<and> contact_repeated row r))"

lemma guests_share_rows:
  assumes "guest_of_row row g"
  shows "guests_share h g \<longleftrightarrow> contact_known row h"
    and "guest_of_row r h \<Longrightarrow> guests_share h g \<Longrightarrow> contact_repeated row r"
proof -
  have cols: "g_Phone g = opt_str (ir_Phone row)" "g_Email g = opt_str (ir_Email row)"
    using assms by (simp_all add: guest_of_row_def)
  show share: "guests_share h g \<longleftrightarrow> contact_known row h"
    by (auto simp: guests_share_def contact_known_def cols opt_str_Some)
  assume "guest_of_row r h" and "guests_share h g"
  then have "contact_known row h" "g_Phone h = opt_str (ir_Phone r)" "g_Email h = opt_str (ir_Email r)"
    unfolding share by (simp_all add: guest_of_row_def)
  then show "contact_repeated row r" by (auto simp: contact_known_def contact_repeated_def opt_str_Some)
qed

lemma sifted_rows:
  assumes rows: "list_all2 guest_of_row (filter (\<lambda>r. row_errors r = []) rows) valid"
    and check: "import_checks t valid w = (Inr dups, w')" and sift: "sift reuse dups rows' valid = (new0, old, n, shown)"
  shows "rows_stored t rows (guests (store w)) (drop_repeats [] [] new0)"
  unfolding rows_stored_def
proof (intro conjI allI impI)
  have "subseq (drop_repeats [] [] new0) valid"
    using sift_subseq [OF sift] drop_repeats_subseq subseq_order.order_trans by blast
  from list_all2_subseq [OF rows this] show "\<exists>used. subseq used rows \<and> list_all2 guest_of_row used (drop_repeats [] [] new0)"
    using subseq_filter_left subseq_order.order_trans by blast
next
  fix us row vs
  assume "rows = us @ row # vs \<and> row_errors row = []"
  then have "filter (\<lambda>r. row_errors r = []) rows
      = filter (\<lambda>r. row_errors r = []) us @ row # filter (\<lambda>r. row_errors r = []) vs" by simp
  with rows obtain as g bs where valid: "valid = as @ g # bs" and g: "guest_of_row row g"
    and as: "list_all2 guest_of_row (filter (\<lambda>r. row_errors r = []) us) as"
    by (auto simp: list_all2_append1 list_all2_Cons1)
  show "(\<exists>g \<in> set (drop_repeats [] [] new0). guest_of_row row g)
      \<or> (\<exists>h \<in> set (guests (store w)). live h \<and> TenantID h = t \<and> contact_known row h)
      \<or> (\<exists>r \<in> set us. row_errors r = [] \<and> contact_repeated row r)"
  proof (cases "found_contact ''phone:'' g_Phone dups g = [] \<and> found_contact ''email:'' g_Email dups g = []")
    case False
    have "GuestRepository_CheckDuplicates t (nonempty_contacts g_Phone valid) (nonempty_contacts g_Email valid) w
        = (Inr dups, w')"
      using check by (simp add: import_checks_def valid)
    from found_contact_sound [OF this] False show ?thesis by (metis guests_share_rows(1) [OF g])
  next
    case True
    from sift_new [OF sift [unfolded valid]] True obtain xs ys where new0: "new0 = xs @ g # ys" "set xs \<subseteq> set as" by blast
    show ?thesis
    proof (cases "\<exists>h \<in> set xs. guests_share h g")
      case True
      then obtain h where "h \<in> set as" "guests_share h g" using new0 by auto
      moreover obtain r where "r \<in> set (filter (\<lambda>r. row_errors r = []) us)" "guest_of_row r h"
        using list_all2_in [OF as calculation(1)] by blast
      moreover have "contact_repeated row r"
        using guests_share_rows(2) [OF g] calculation(2,4) by blast
      ultimately show ?thesis by (intro disjI2 bexI [of _ r]) simp_all
    next
      case False
      then have "g \<in> set (drop_repeats [] [] new0)"
        unfolding new0 by (intro drop_repeats_new) (auto simp: seen_contact_def split: option.split)
      with g show ?thesis by blast
    qed
  qed
qed

lemma importCSV_eq:
  assumes "csv_rows lower content = Some rows" and "valid_guests t u (map validateRow rows) w = (Inr valid, w1)"
    and "import_checks t valid w1 = (s, w2)" and "sift reuse (projr s) (map validateRow rows) valid = (new, old, n, shown)"
  shows "ImportService_importCSV lower t u content reuse w = (case s of Inl e \<Rightarrow> (Inl e, w2) | Inr _ \<Rightarrow>
    (case import_writes (drop_repeats [] [] new) w2 of (Inl e, w') \<Rightarrow> (Inl e, w') | (Inr _, w') \<Rightarrow>
      (Inr \<lparr>im_TotalRows = int (length rows),
        im_SuccessCount = int (length (drop_repeats [] [] new)) + (if reuse then int (length old) else 0),
        im_ErrorCount = int (count_where (\<lambda>r. ir_Errors r \<noteq> []) (map validateRow rows)) + int n,
        im_ImportedGuestIDs = map ID (drop_repeats [] [] new) @ (if reuse then old else []),
        im_Errors = filter (\<lambda>r. ir_Errors r \<noteq> []) (map validateRow rows) @ shown\<rparr>, w')))"
  using assms unfolding ImportService_importCSV_def Let_def import_checks_def [symmetric] import_writes_def [symmetric]
  by (cases s; cases reuse)
    (simp_all add: go_bind_run, auto simp: count_where_def filter_map split: sum.split prod.split)

lemma import_writes_run:
  assumes "import_writes new w = (q, w')"
  shows "case q of Inl e \<Rightarrow> store w' = store w
    | Inr _ \<Rightarrow> store w' = put_guests (guests (store w) @ new) (store w)
        \<and> distinct (map ID new) \<and> (\<forall>g \<in> set new. \<not> has_id (ID g) (guests (store w)))"
  using assms BulkCreate_Inr [of new w _ w']
  by (auto simp: import_writes_def split: sum.split if_splits dest: BulkCreate_Inl)

lemma sifted_contacts:
  assumes valid: "\<And>g. g \<in> set valid \<Longrightarrow> imported t u g"
    and check: "import_checks t valid w = (Inr dups, w')" and sift: "sift reuse dups rows valid = (new0, old, n, shown)"
    and col: "col = g_Phone \<or> col = g_Email"
  shows "distinct (contact_keys col (drop_repeats [] [] new0))"
    and "set (contact_keys col (drop_repeats [] [] new0)) \<inter> set (contact_keys col (guests (store w))) = {}"
proof -
  let ?new = "drop_repeats [] [] new0"
  note sf = sift_facts [OF sift]
  have new0: "imported t u g" if "g \<in> set new0" for g using that sf valid by blast
  then have dr: "set ?new \<subseteq> set new0" "distinct (contacts_of col ?new)"
    using drop_repeats_facts [of new0 "[]" "[]"] col by (auto simp: imported_def)
  have keys: "contact_keys col ?new = map (Pair t) (contacts_of col ?new)"
    by (rule contact_keys_of) (use dr(1) new0 in \<open>auto simp: imported_def\<close>)
  show "distinct (contact_keys col ?new)"
    unfolding keys by (rule distinct_map [THEN iffD2]) (use dr(2) in \<open>auto simp: inj_on_def\<close>)
  have free: "(t, s) \<notin> set (contact_keys col (guests (store w)))" if "g \<in> set ?new" "col g = Some s" for g s
  proof -
    have g: "g \<in> set new0" "g \<in> set valid" "s \<noteq> []" using that dr(1) sf new0 col by (auto simp: imported_def)
    then have "valid \<noteq> []" by auto
    with check have c: "GuestRepository_CheckDuplicates t (nonempty_contacts g_Phone valid)
        (nonempty_contacts g_Email valid) w = (Inr dups, w')" by (simp add: import_checks_def)
    have in_col: "s \<in> set (nonempty_contacts col valid)"
      by (rule nonempty_contacts_in [where g = g]) (use g that in auto)
    from col show ?thesis
    proof
      assume p: "col = g_Phone"
      then have "found_contact ''phone:'' col dups g = []" using sf g(1) by simp
      from unmatched_contact [where col = col, OF this that(2) g(3)] in_col p CheckDuplicates_Inr(2) [OF c, of s] show ?thesis by auto
    next
      assume p: "col = g_Email"
      then have "found_contact ''email:'' col dups g = []" using sf g(1) by simp
      from unmatched_contact [where col = col, OF this that(2) g(3)] in_col p CheckDuplicates_Inr(3) [OF c, of s] show ?thesis by auto
    qed
  qed
  have "k \<notin> set (contact_keys col (guests (store w)))" if "k \<in> set (contact_keys col ?new)" for k
  proof (cases k)
    case (Pair a s)
    with that free dr(1) new0 show ?thesis by (fastforce simp: contact_keys_in imported_def)
  qed
  then show "set (contact_keys col ?new) \<inter> set (contact_keys col (guests (store w))) = {}" by auto
qed

lemma importCSV_run:
  assumes run: "ImportService_importCSV lower t u content reuse w = (r, w')"
  obtains (failed) e where "r = Inl e" and "store w' = store w"
  | (stored) res rows new old where "r = Inr res" and "csv_rows lower content = Some rows"
    and "store w' = put_guests (guests (store w) @ new) (store w)" and "stored_import t u (guests (store w)) new"
    and "rows_stored t rows (guests (store w)) new"
    and "im_ImportedGuestIDs res = map ID new @ old" and "im_SuccessCount res = int (length new + length old)"
    and "im_TotalRows res = int (length rows)" and "im_SuccessCount res + im_ErrorCount res \<le> im_TotalRows res"
    and "\<forall>i \<in> set old. reuse \<and> (\<exists>g \<in> set (guests (store w)). ID g = i \<and> live g \<and> TenantID g = t)"
proof (cases "csv_rows lower content")
  case None
  with run show thesis by (auto simp: ImportService_importCSV_def intro: failed)
next
  case (Some rows)
  obtain valid w1 where valid: "valid_guests t u (map validateRow rows) w = (Inr valid, w1)" "store w1 = store w"
    "\<And>g. g \<in> set valid \<Longrightarrow> imported t u g"
    "list_all2 guest_of_row (filter (\<lambda>r. row_errors r = []) rows) valid"
    "length valid = length rows - count_where (\<lambda>r. ir_Errors r \<noteq> []) (map validateRow rows)"
    using valid_guests_run [of t u rows w] by blast
  obtain s w2 where check: "import_checks t valid w1 = (s, w2)" by force
  then have w2: "store w2 = store w" using staysD [OF import_checks_pure] valid(2) by simp
  obtain new0 old n shown where sift: "sift reuse (projr s) (map validateRow rows) valid = (new0, old, n, shown)"
    using prod_cases4 by blast
  note eq = importCSV_eq [OF Some valid(1) check sift]
  let ?new = "drop_repeats [] [] new0"
  note sf = sift_facts [OF sift]
  show thesis
  proof (cases s)
    case (Inl e)
    with run eq w2 show thesis by (auto intro: failed)
  next
    case (Inr dups)
    obtain q w3 where bulk: "import_writes ?new w2 = (q, w3)" by force
    note wrote = import_writes_run [OF bulk]
    show thesis
    proof (cases q)
      case (Inl e)
      with run eq \<open>s = Inr dups\<close> bulk wrote w2 show thesis by (auto intro: failed)
    next
      case (Inr x)
      have new: "imported t u g" if "g \<in> set new0" for g using that sf valid(3) by blast
      then have dr: "set ?new \<subseteq> set new0" "length ?new \<le> length new0"
        using drop_repeats_facts [of new0 "[]" "[]"] by (auto simp: imported_def)
      have le: "count_where (\<lambda>r. ir_Errors r \<noteq> []) (map validateRow rows) \<le> length rows"
        using count_where_le [of "\<lambda>r. ir_Errors r \<noteq> []" "map validateRow rows"] by simp
      have old: "\<not> reuse \<Longrightarrow> old = []" using sf by (cases old) auto
      have known: "\<exists>g \<in> set (guests (store w)). ID g = i \<and> live g \<and> TenantID g = t" if i: "i \<in> set old" for i
      proof -
        obtain k where k: "dups k = Some i" using i sf \<open>s = Inr dups\<close> by auto
        with check \<open>s = Inr dups\<close> CheckDuplicates_Inr(4) [of t _ _ w1 dups w2 k i] valid(2) show ?thesis
          by (fastforce simp: import_checks_def split: if_splits)
      qed
      have parts: "stored_import t u (guests (store w)) ?new"
        using sifted_contacts [where valid = valid and w = w1 and dups = dups and w' = w2 and t = t and u = u
            and rows = "map validateRow rows" and reuse = reuse and n = n and shown = shown and old = old and ?new0.0 = new0]
          valid(3) check sift \<open>s = Inr dups\<close> wrote Inr dr new w2 valid(2)
        by (auto simp: stored_import_def)
      have source: "rows_stored t rows (guests (store w)) ?new"
        using sifted_rows [OF valid(4)] check sift \<open>s = Inr dups\<close> valid(2) by fastforce
      have ifs: "(if reuse then int (length old) else 0) = int (length old)" "(if reuse then old else []) = old"
        using old by auto
      define res where "res = \<lparr>im_TotalRows = int (length rows), im_SuccessCount = int (length ?new) + int (length old),
        im_ErrorCount = int (count_where (\<lambda>r. ir_Errors r \<noteq> []) (map validateRow rows)) + int n,
        im_ImportedGuestIDs = map ID ?new @ old,
        im_Errors = filter (\<lambda>r. ir_Errors r \<noteq> []) (map validateRow rows) @ shown\<rparr>"
      have r: "r = Inr res" "w' = w3"
        using run eq \<open>s = Inr dups\<close> bulk Inr unfolding ifs by (simp_all add: res_def)
      show thesis
        using stored [OF r(1) Some _ parts source, of old] r(2) wrote Inr w2 sf dr(2) le valid(5) old known
        by (auto simp: res_def)
    qed
  qed
qed

section \<open>Properties of the import\<close>

text \<open>C26: What an import reports is what it has stored, and what it has stored is what the file says. When it
  succeeds, the rows of the file could be read and their number is the reported total; the guest book has
  grown by new guests, in the order of the file, each with every column of the valid row it stands for (a name
  of two runes at least and 255 bytes at most, a phone number in E.164 form, an address, a known type), live, of
  the tenant, with a fresh id and with contacts that nobody in the tenant had and no two of them share; nothing
  else in the database has changed. A valid row is left out only when a guest of the tenant had one of its
  contacts or a valid row further up has it. The reported ids are those of the new guests followed, for an event,
  by those of guests the tenant already had; their number is the success count, and successes and errors
  together never exceed the rows of the file.\<close>

theorem import_stores_what_it_reports:
  assumes "ImportService_importCSV lower t u content reuse w = (Inr res, w')"
  shows "\<exists>rows new old. csv_rows lower content = Some rows \<and> im_TotalRows res = int (length rows)
     \<and> store w' = put_guests (guests (store w) @ new) (store w)
     \<and> rows_stored t rows (guests (store w)) new
     \<and> im_ImportedGuestIDs res = map ID new @ old \<and> im_SuccessCount res = int (length new + length old)
     \<and> im_SuccessCount res + im_ErrorCount res \<le> im_TotalRows res
     \<and> (\<forall>g \<in> set new. TenantID g = t \<and> live g \<and> g_CreatedBy g = u \<and> importable g \<and> \<not> has_id (ID g) (guests (store w)))
     \<and> distinct (map ID new)
     \<and> (\<forall>col \<in> {g_Phone, g_Email}. distinct (contact_keys col new)
          \<and> set (contact_keys col new) \<inter> set (contact_keys col (guests (store w))) = {})
     \<and> (\<forall>i \<in> set old. reuse \<and> (\<exists>g \<in> set (guests (store w)). ID g = i \<and> live g \<and> TenantID g = t))"
  using assms
proof (cases rule: importCSV_run)
  case (stored res' rows new old)
  then show ?thesis
    by (intro exI [of _ rows] exI [of _ new] exI [of _ old]) (auto simp: stored_import_def imported_def)
qed simp

text \<open>An import that fails stores nothing.\<close>

lemma importCSV_fails:
  assumes "ImportService_importCSV lower t u content reuse w = (Inl e, w')"
  shows "store w' = store w"
  using assms by (cases rule: importCSV_run) simp_all

text \<open>The loop over the roster only appends entries of the imported guests for the event.\<close>

lemma add_imported_run:
  assumes "add_imported t e u seen gs w = (r, w')"
  shows "\<exists>added. store w' = (store w)\<lparr>event_guests := event_guests (store w) @ added\<rparr>
     \<and> (\<forall>x \<in> set added. TenantID x = t \<and> EventID x = e \<and> GuestID x \<in> set gs \<and> live x)"
  using assms
proof (induction gs arbitrary: seen w)
  case (Cons g gs)
  have unchanged_case: "?case" if "store w' = store w" using that by (intro exI [of _ "[]"]) simp
  have later: "?case" if "add_imported t e u seen' gs v = (r, w')"
    "store v = (store w)\<lparr>event_guests := event_guests (store w) @ xs\<rparr>"
    "\<forall>x \<in> set xs. TenantID x = t \<and> EventID x = e \<and> GuestID x \<in> set (g # gs) \<and> live x" for seen' v xs
  proof -
    from Cons.IH [OF that(1)] obtain added where "store w' = (store v)\<lparr>event_guests := event_guests (store v) @ added\<rparr>"
      and "\<forall>x \<in> set added. TenantID x = t \<and> EventID x = e \<and> GuestID x \<in> set gs \<and> live x" by blast
    with that(2,3) show ?thesis by (intro exI [of _ "xs @ added"]) auto
  qed
  show ?case
  proof (cases "g \<in> set seen")
    case True
    with Cons.prems show ?thesis by (intro later [of seen w "[]"]) simp_all
  next
    case False
    obtain x v where look: "EventGuestRepository_GetByEventAndGuest t e g w = (x, v)" by force
    then have v: "store v = store w" by (rule roster.lookup_store)
    show ?thesis
    proof (cases x)
      case (Inr y)
      with Cons.prems False look v show ?thesis
        by (intro later [of "g # seen" v "[]"]) (simp_all add: go_try_run)
    next
      case (Inl f)
      show ?thesis
      proof (cases "f = ErrNotFound")
        case False
        with Inl Cons.prems \<open>g \<notin> set seen\<close> look v show ?thesis
          by (intro unchanged_case) (simp add: go_try_run go_guard_def)
      next
        case True
        obtain i tm where base: "NewBase v = (Inr (i, tm), tick (tick v))"
          by (auto simp: NewBase_def go_bind_run now_def uuid_New_def)
        from True Inl Cons.prems \<open>g \<notin> set seen\<close> look base have "go_bind (EventGuestRepository_Create
            (imported_event_guest i tm t e g u)) (\<lambda>_. add_imported t e u (g # seen) gs) (tick (tick v)) = (r, w')"
          by (simp add: go_try_run go_guard_def go_bind_run [of NewBase])
        then consider (stop) v2 f where "EventGuestRepository_Create (imported_event_guest i tm t e g u) (tick (tick v)) = (Inl f, v2)"
            "w' = v2"
          | (added) v2 where "EventGuestRepository_Create (imported_event_guest i tm t e g u) (tick (tick v)) = (Inr (), v2)"
            "add_imported t e u (g # seen) gs v2 = (r, w')"
          by (auto simp: go_bind_run split: sum.splits prod.splits)
        then show ?thesis
        proof cases
          case stop
          then have "store w' = store v"
            by (auto simp: EventGuestRepository_Create_def go_bind_run exec_def split: prod.splits option.splits if_splits sum.splits)
          with v show ?thesis by (intro unchanged_case) simp
        next
          case added
          then show ?thesis
            using v by (intro later [of "g # seen" v2 "[imported_event_guest i tm t e g u]"])
              (auto simp: EventGuestRepository_Create_Inr imported_event_guest_def)
        qed
      qed
    qed
  qed
qed (intro exI [of _ "[]"], simp add: go_ret_def)

text \<open>C28: An import that fails leaves no part of the file in the guest book: whichever statement fails, and
  whatever is wrong with the file, the import into the guest book changes nothing in the database. The import for an
  event has two parts and no transaction around them: when it fails, either the database is as it was, or the
  whole import into the guest book has succeeded, and all that it lacks is a part of the new entries of the
  event's roster.\<close>

theorem failed_import_stores_nothing:
  "(ImportService_importCSV lower t u content reuse w = (Inl x, w') \<longrightarrow> store w' = store w)
   \<and> (EventGuestService_ImportCSV lower t e u content w = (Inl x, w') \<longrightarrow> store w' = store w
      \<or> (\<exists>v res v' added. store v = store w \<and> ImportService_ImportCSVForEvent lower t u content v = (Inr res, v')
          \<and> store w' = (store v')\<lparr>event_guests := event_guests (store v') @ added\<rparr>
          \<and> (\<forall>x \<in> set added. TenantID x = t \<and> EventID x = e \<and> GuestID x \<in> set (im_ImportedGuestIDs res) \<and> live x)))"
proof (intro conjI impI)
  assume "ImportService_importCSV lower t u content reuse w = (Inl x, w')"
  then show "store w' = store w" by (rule importCSV_fails)
next
  assume run: "EventGuestService_ImportCSV lower t e u content w = (Inl x, w')"
  obtain f v where ev: "EventRepository_GetByIDForTenant e t w = (f, v)" by force
  have "stays (=) (EventRepository_GetByIDForTenant e t)"
    unfolding EventRepository_GetByIDForTenant_def by (intro unchanged.all_stays)
  from staysD [OF this ev] have v: "store v = store w" by simp
  obtain q v' where imp: "ImportService_importCSV lower t u content True v = (q, v')" by force
  show "store w' = store w
      \<or> (\<exists>v res v' added. store v = store w \<and> ImportService_ImportCSVForEvent lower t u content v = (Inr res, v')
          \<and> store w' = (store v')\<lparr>event_guests := event_guests (store v') @ added\<rparr>
          \<and> (\<forall>x \<in> set added. TenantID x = t \<and> EventID x = e \<and> GuestID x \<in> set (im_ImportedGuestIDs res) \<and> live x))"
  proof -
    consider (no_event) y where "f = Inl y" | (no_import) y z where "f = Inr y" "q = Inl z"
      | (imported) y res where "f = Inr y" "q = Inr res" by (cases f; cases q) auto
    then show ?thesis
    proof cases
    case no_event
    with run ev have "w' = v" by (simp add: EventGuestService_ImportCSV_def go_bind_run)
    with v show ?thesis by simp
  next
    case no_import
    with run ev imp have "w' = v'"
      by (simp add: EventGuestService_ImportCSV_def GuestService_ImportCSVForEvent_def
          ImportService_ImportCSVForEvent_def go_bind_run)
    with importCSV_fails [of lower t u content True v] imp no_import v show ?thesis by simp
  next
    case (imported y res)
    then have f: "f = Inr y" and q: "q = Inr res" by auto
    obtain z v2 where add: "add_imported t e u [] (im_ImportedGuestIDs res) v' = (z, v2)" by force
    then have "w' = v2"
      using run ev imp f q by (cases z) (simp_all add: EventGuestService_ImportCSV_def GuestService_ImportCSVForEvent_def
          ImportService_ImportCSVForEvent_def go_bind_run go_ret_def)
    with add_imported_run [OF add] v imp q show ?thesis unfolding ImportService_ImportCSVForEvent_def by blast
  qed
qed
qed

text \<open>The template that the service hands out, filled in and imported again.\<close>

definition template_row :: "(string \<Rightarrow> string) \<Rightarrow> int \<Rightarrow> string list \<Rightarrow> guest_import_row" where
  "template_row lower n r = (let f = \<lambda>i. TrimSpace (r ! i) in
     \<lparr>ir_RowNum = n, ir_FullName = f 0, ir_Nickname = f 1, ir_Phone = normalizeImportPhone (f 2), ir_Email = f 3,
      ir_Address = f 4, ir_City = f 5, ir_Country = f 6, ir_GuestType = normalizeImportGuestType lower (f 7),
      ir_Segment = f 8, ir_Institution = f 9, ir_Title = f 10, ir_Relationship = f 11, ir_PIC = f 12,
      ir_AccessibilityNeeds = f 13, ir_DietaryRestrictions = f 14, ir_Allergies = f 15, ir_Notes = f 16,
      ir_Errors = []\<rparr>)"

fun number_rows :: "(string \<Rightarrow> string) \<Rightarrow> int \<Rightarrow> string list list \<Rightarrow> guest_import_row list" where
  "number_rows lower n [] = []"
| "number_rows lower n (r # rs) = (if isEmptyRow r then [] else [template_row lower n r]) @ number_rows lower (n + 1) rs"

lemma map_same_in: "map f xs = xs \<Longrightarrow> x \<in> set xs \<Longrightarrow> f x = x"
  by (induction xs) auto

lemma template_trims: "map TrimSpace CSVTemplateHeaders = CSVTemplateHeaders"
  by code_simp

lemma template_dashes:
  "map (map (\<lambda>c. if c = CHR '' '' \<or> c = CHR ''-'' then CHR ''_'' else c)) CSVTemplateHeaders = CSVTemplateHeaders"
  by (simp add: CSVTemplateHeaders_def)

lemma template_headers:
  assumes "\<And>h. h \<in> set CSVTemplateHeaders \<Longrightarrow> lower h = h"
  shows "map (normalize_header lower) CSVTemplateHeaders = CSVTemplateHeaders"
proof -
  let ?d = "map (\<lambda>c. if c = CHR '' '' \<or> c = CHR ''-'' then CHR ''_'' else c)"
  have "normalize_header lower h = h" if h: "h \<in> set CSVTemplateHeaders" for h
  proof -
    have "TrimSpace h = h" by (rule map_same_in [OF template_trims h])
    moreover have "?d h = h" by (rule map_same_in [OF template_dashes h])
    ultimately show ?thesis using assms [OF h] by (simp add: normalize_header_def)
  qed
  then show ?thesis by (rule map_idI)
qed

lemma columns_17: "[0..<17] = [0, 1, 2, 3, 4, 5, 6, 7, 8, 9, 10, 11, 12, 13, 14, 15, 16]"
  by (simp add: upt_rec [of 0] upt_rec [of "Suc 0"] numeral_2_eq_2 [symmetric])

lemma template_columns:
  "map_of (rev (zip CSVTemplateHeaders [0..<length CSVTemplateHeaders])) = map_of (zip CSVTemplateHeaders [0..<17])"
proof -
  have l: "length CSVTemplateHeaders = 17" and d: "distinct CSVTemplateHeaders"
    by (simp_all add: CSVTemplateHeaders_def)
  have "distinct (map fst (zip CSVTemplateHeaders [0..<17]))" using l d by simp
  then show ?thesis unfolding l by (simp add: map_of_inject_set rev_map [symmetric])
qed

lemma template_parse:
  assumes "length r = 17"
  shows "parseRow lower r (map_of (zip CSVTemplateHeaders [0..<17])) n = template_row lower n r"
  using assms unfolding parseRow_def template_row_def CSVTemplateHeaders_def columns_17 Let_def zip.simps list.map map_of.simps
  by simp

lemma template_rows:
  "(\<And>r. r \<in> set rs \<Longrightarrow> length r = 17) \<Longrightarrow>
     parse_rows lower (map_of (zip CSVTemplateHeaders [0..<17])) n (map (check_count 17 \<circ> Inr) rs) = number_rows lower n rs"
proof (induction rs arbitrary: n)
  case (Cons r rs)
  then show ?case using template_parse [of r lower n] by (simp add: check_count_def)
qed simp

lemma write_field_CR: "CR \<notin> set f \<Longrightarrow> CR \<notin> set (write_field comma f)"
  by (auto simp: write_field_def escape_quotes_def)

lemma write_record_CR:
  "delimiter comma \<Longrightarrow> (\<And>f. f \<in> set fs \<Longrightarrow> CR \<notin> set f) \<Longrightarrow> CR \<notin> set (write_record comma fs)"
  by (induction comma fs rule: write_record.induct) (auto simp: write_field_CR dest: delimiter_marks)

lemma cut_at_fst: "set (fst (cut_at c s)) \<subseteq> set s"
  by (induction s) (auto split: if_splits prod.splits)

lemma template_starts:
  "\<exists>s. CSVTemplate = ''full_name,'' @ s"
  by (simp add: CSVTemplate_def CSVTemplateHeaders_def write_field_def fieldNeedsQuotes_def starts_with_space_def
      space_codes_def LF_def CR_def QUOTE_def)

lemma template_text:
  "stripBOM (CSVTemplate @ body) = CSVTemplate @ body" "separator (CSVTemplate @ body) = CHR '',''"
proof -
  obtain s where s: "CSVTemplate = ''full_name,'' @ s" using template_starts by blast
  show "stripBOM (CSVTemplate @ body) = CSVTemplate @ body" by (simp add: s stripBOM_def)
  show "separator (CSVTemplate @ body) = CHR '',''"
    by (simp add: s separator_def readFirstLine_def LF_def Let_def split: prod.split)
qed

lemma template_CR: "CR \<notin> set CSVTemplate"
proof -
  have "CR \<notin> set h" if "h \<in> set CSVTemplateHeaders" for h
    using that by (auto simp: CSVTemplateHeaders_def CR_def)
  then show ?thesis unfolding CSVTemplate_def by (intro write_record_CR) (simp_all add: delimiter_def)
qed

lemma template_valid: "validateHeaders (map_of (zip CSVTemplateHeaders [0..<17]))"
  unfolding validateHeaders_def CSVTemplateHeaders_def columns_17 by simp

text \<open>C27: The template that the service hands out can be filled in and imported: for rows of seventeen
  fields, written by the writer of \<open>encoding/csv\<close> below the template's header (fields with commas, quotation
  marks and line feeds included), the import reads exactly the rows that are not blank, each field in its
  place with its spaces trimmed, the phone number and the type normalised, no error reported, and numbered as in
  the file when no field breaks a line.\<close>

theorem template_roundtrip:
  assumes rows: "\<And>r. r \<in> set rs \<Longrightarrow> length r = 17 \<and> (\<forall>f \<in> set r. CR \<notin> set f)"
    and lower: "\<And>h. h \<in> set CSVTemplateHeaders \<Longrightarrow> lower h = h"
  shows "csv_rows lower (CSVTemplate @ concat (map (write_record CHR '','') rs)) = Some (number_rows lower 2 rs)"
proof -
  let ?c = "CHR '',''" and ?body = "concat (map (write_record CHR '','') rs)"
  have d: "delimiter ?c" by (simp add: delimiter_def)
  have ne: "CSVTemplateHeaders \<noteq> []" "CSVTemplateHeaders \<noteq> [[]]" and len: "length CSVTemplateHeaders = 17"
    by (simp_all add: CSVTemplateHeaders_def)
  have "CR \<notin> set ?body" using write_record_CR [OF d] rows by auto
  then have lines: "csv_lines (CSVTemplate @ ?body) = cut_lines [] (CSVTemplate @ ?body)"
    using template_CR by (intro csv_lines_plain) auto
  have "read_record ?c (cut_lines [] (CSVTemplate @ ?body)) = Some (Inr CSVTemplateHeaders, cut_lines [] ?body)"
    using cut_lines_pos [of "CSVTemplate @ ?body"] written_line [OF d ne, of ?body] record_fields_write [OF d ne(1), of ?body]
    by (simp add: CSVTemplate_def write_record_nonempty)
  moreover have "csv_rest 17 ?c (cut_lines [] ?body) = map (check_count 17 \<circ> Inr) rs"
    by (rule csv_rest_write [OF d]) (use rows in fastforce)
  moreover have "normalizeHeaders lower CSVTemplateHeaders = map_of (zip CSVTemplateHeaders [0..<17])"
    unfolding normalizeHeaders_def using template_headers [of lower, OF lower] template_columns by (simp only:)
  ultimately show ?thesis
    using template_rows [of rs lower 2] rows template_valid
    by (simp add: csv_rows_def template_text lines len Let_def)
qed

theorem template_roundtrip_witness:
  "csv_rows id (CSVTemplate @ write_record CHR '','' [''Ada, Countess'', [], ''0812 345 6789'', '' a@b.co '', [], [], [], ''vip'',
      [], [], [], [], [], [], [], [], []])
    = Some (number_rows id 2 [[''Ada, Countess'', [], ''0812 345 6789'', '' a@b.co '', [], [], [], ''vip'',
      [], [], [], [], [], [], [], [], []]])"
  using template_roundtrip [of "[[''Ada, Countess'', [], ''0812 345 6789'', '' a@b.co '', [], [], [], ''vip'',
      [], [], [], [], [], [], [], [], []]]" id] by (simp add: CR_def)

section \<open>The guest book of a tenant\<close>

lemma contact_keys_append: "contact_keys col (as @ bs) = contact_keys col as @ contact_keys col bs"
  by (simp add: contact_keys_def)

lemma stored_import_contacts:
  assumes "contacts_ok gs" and "stored_import t u gs new"
  shows "contacts_ok (gs @ new)"
  using assms by (auto simp: contacts_ok_def stored_import_def contact_keys_append has_id_iff)

lemma importCSV_contacts:
  assumes "contacts_ok (guests (store w))"
  shows "contacts_ok (guests (store (snd (ImportService_importCSV lower t u content reuse w))))"
proof (cases "ImportService_importCSV lower t u content reuse w")
  case (Pair r w')
  then show ?thesis
    using assms Pair by (cases rule: importCSV_run) (auto intro: stored_import_contacts)
qed

lemma add_imported_guests: "stays (\<lambda>d d'. guests d' = guests d) (add_imported t e u seen gs)"
proof (induction gs arbitrary: seen)
  case (Cons g gs)
  have "stays (\<lambda>d d'. guests d' = guests d) (EventGuestRepository_GetByEventAndGuest t e g)"
    by (rule pure_same) (auto intro!: unchanged.all_stays simp: EventGuestRepository_GetByEventAndGuest_def)
  moreover have "stays (\<lambda>d d'. guests d' = guests d) (EventGuestRepository_Create x)" for x
    unfolding EventGuestRepository_Create_def
    by (auto intro!: same.all_stays simp: insert_event_guest_def split: if_splits)
  ultimately show ?case
    using Cons.IH by (auto intro!: same.all_stays same.NewBase_stays split: sum.split)
qed (simp add: same.all_stays)

lemma EventImport_contacts:
  assumes "contacts_ok (guests (store w))"
  shows "contacts_ok (guests (store (snd (EventGuestService_ImportCSV lower t e u content w))))"
proof -
  have ev: "stays (\<lambda>d d'. contacts_ok (guests d) \<longrightarrow> contacts_ok (guests d')) (EventRepository_GetByIDForTenant e t)"
    unfolding EventRepository_GetByIDForTenant_def by (intro kept.all_stays)
  have im: "stays (\<lambda>d d'. contacts_ok (guests d) \<longrightarrow> contacts_ok (guests d')) (GuestService_ImportCSVForEvent lower t u content)"
    unfolding GuestService_ImportCSVForEvent_def ImportService_ImportCSVForEvent_def
    by (auto simp: stays_def importCSV_contacts)
  have add: "stays (\<lambda>d d'. contacts_ok (guests d) \<longrightarrow> contacts_ok (guests d')) (add_imported t e u [] gs)" for gs
    by (rule staysI) (auto dest: staysD [OF add_imported_guests])
  have "stays (\<lambda>d d'. contacts_ok (guests d) \<longrightarrow> contacts_ok (guests d')) (EventGuestService_ImportCSV lower t e u content)"
    unfolding EventGuestService_ImportCSV_def by (intro kept.all_stays ev im add)
  then show ?thesis using assms by (simp add: stays_def)
qed

text \<open>
  A walk-in adds a guest with the contacts of the request, which it does not look up; the guest book
  stays free of repetitions when they are free.
\<close>

lemma performCheckin_guests: "stays (\<lambda>d d'. guests d' = guests d) (performCheckin t e g iv off req)"
proof (rule staysI)
  fix w r and w' :: "db world"
  assume "performCheckin t e g iv off req w = (r, w')"
  then show "guests (store w') = guests (store w)"
  proof (cases rule: performCheckin_run)
    case (duplicate v)
    have "stays (\<lambda>d d'. guests d' = guests d) (recordFailedCheckin t e off req CheckinStatusDuplicate)"
      unfolding recordFailedCheckin_def CheckinRepository_Create_def Let_def
      by (auto intro!: same.all_stays same.NewBase_stays simp: insert_checkin_def split: if_splits)
    from staysD [OF this duplicate(1)] duplicate(2) show ?thesis by simp
  qed (auto dest: audit_free_tables)
qed

lemma ProcessWalkin_guests:
  assumes "ProcessWalkin t e off req w = (r, w')"
  shows "guests (store w') = guests (store w) \<or> (\<exists>g. guests (store w') = guests (store w) @ [g] \<and> TenantID g = t
    \<and> \<not> has_id (ID g) (guests (store w)) \<and> g_Phone g = opt_str (wr_Phone req) \<and> g_Email g = opt_str (wr_Email req))"
proof -
  let ?u = "case off of None \<Rightarrow> uuid_Nil | Some u \<Rightarrow> u"
  let ?greq = "empty_guest_request\<lparr>gcr_FullName := TrimSpace (wr_FullName req), gcr_GuestType := wr_GuestType req,
    gcr_Segment := wr_Segment req, gcr_Phone := wr_Phone req, gcr_Email := wr_Email req\<rparr>"
  let ?Q = "\<lambda>gs gs'. gs' = gs \<or> (\<exists>g. gs' = gs @ [g] \<and> TenantID g = t \<and> \<not> has_id (ID g) gs
    \<and> g_Phone g = opt_str (wr_Phone req) \<and> g_Email g = opt_str (wr_Email req))"
  obtain g where new: "NewGuest t ?u ?greq w = (Inr g, tick (tick w))"
    by (auto simp: NewGuest_def NewBase_def go_bind_run now_def uuid_New_def)
  have g: "TenantID g = t" "g_Phone g = opt_str (wr_Phone req)" "g_Email g = opt_str (wr_Email req)"
    using NewGuest_Inr [OF new] NewGuest_contacts [OF new] by simp_all
  have entry: "stays (\<lambda>d d'. guests d' = guests d) (EventGuestRepository_Create x)" for x
    unfolding EventGuestRepository_Create_def
    by (auto intro!: same.all_stays simp: insert_event_guest_def split: if_splits)
  have create: "?Q (guests (store v)) (guests (store v'))"
    if "go_bind (GuestRepository_Create g) (\<lambda>_. k) v = (s, v')" "stays (\<lambda>d d'. guests d' = guests d) k"
    for k :: "checkin_outcome app" and v s v'
    using that(1) g staysD [OF that(2)]
    by (fastforce simp: go_bind_run GuestRepository_Create_def exec_def go_ret_def dest!: insert_guest_Some
        split: sum.splits prod.splits if_splits option.splits)
  show ?thesis
    using assms new unfolding ProcessWalkin_def Let_def
    by (auto simp: go_guard_def go_bind_run [of "NewGuest t u' r'" for u' r'] split: if_splits dest!: create
        intro!: same.all_stays same.NewBase_stays entry performCheckin_guests)
qed

lemma ProcessWalkin_contacts:
  assumes "contacts_ok (guests (store w))"
    and "contact_free t (opt_str (wr_Phone req)) (opt_str (wr_Email req)) (guests (store w))"
  shows "contacts_ok (guests (store (snd (ProcessWalkin t e off req w))))"
proof (cases "ProcessWalkin t e off req w")
  case (Pair r w')
  from ProcessWalkin_guests [OF Pair] show ?thesis
    using assms contacts_ok_append [OF assms(1)] Pair by auto
qed

datatype guest_call =
    AddGuestEntry guest_create_request
  | EditGuestEntry uuid guest_update_request
  | DropGuestEntry uuid
  | ImportGuests string
  | ImportForEvent uuid string
  | RegisterWalkIn uuid "uuid option" walkin_request

definition serve_guests ::
  "billing_env option \<Rightarrow> (string \<Rightarrow> string \<Rightarrow> bool) \<Rightarrow> (string \<Rightarrow> string) \<Rightarrow> uuid \<Rightarrow> uuid \<Rightarrow> guest_call \<Rightarrow> unit app" where
  "serve_guests billing ilike lower t u c = (case c of
     AddGuestEntry req \<Rightarrow> discard (GuestService_Create billing ilike t u req)
   | EditGuestEntry i req \<Rightarrow> discard (GuestService_Update t i u req)
   | DropGuestEntry i \<Rightarrow> GuestService_Delete t i u
   | ImportGuests content \<Rightarrow> discard (GuestService_ImportCSV lower t u content)
   | ImportForEvent e content \<Rightarrow> discard (EventGuestService_ImportCSV lower t e u content)
   | RegisterWalkIn e officer req \<Rightarrow> discard (ProcessWalkin t e officer req))"

text \<open>
  Calls of any users of any tenants, one after another, during which no statement fails. A walk-in brings
  contacts that no live guest of the tenant has: nothing in the code sees to that.
\<close>

definition walk_in_is_new :: "uuid \<Rightarrow> guest_call \<Rightarrow> guest list \<Rightarrow> bool" where
  "walk_in_is_new t c gs = (case c of
     RegisterWalkIn e officer req \<Rightarrow> contact_free t (opt_str (wr_Phone req)) (opt_str (wr_Email req)) gs
   | _ \<Rightarrow> True)"

inductive guest_history ::
  "billing_env option \<Rightarrow> (string \<Rightarrow> string \<Rightarrow> bool) \<Rightarrow> (string \<Rightarrow> string) \<Rightarrow> db \<Rightarrow> db \<Rightarrow> bool"
  for billing ilike lower d0 where
  start: "guest_history billing ilike lower d0 d0"
| served: "guest_history billing ilike lower d0 (store w) \<Longrightarrow> \<forall>n. \<not> faults w n \<Longrightarrow>
    walk_in_is_new t c (guests (store w)) \<Longrightarrow> serve_guests billing ilike lower t u c w = (r, w') \<Longrightarrow> guest_history billing ilike lower d0 (store w')"

lemma serve_guests_contacts:
  assumes "serve_guests billing ilike lower t u c w = (r, w')" and "contacts_ok (guests (store w))" and "\<forall>n. \<not> faults w n"
    and "walk_in_is_new t c (guests (store w))"
  shows "contacts_ok (guests (store w'))"
proof -
  have "w' = snd (serve_guests billing ilike lower t u c w)" using assms(1) by simp
  then show ?thesis
    using assms(2) GuestService_Create_contacts [OF assms(2,3)] GuestService_Update_contacts [OF assms(2,3)]
      GuestService_Delete_contacts [OF assms(2)] importCSV_contacts [OF assms(2)] EventImport_contacts [OF assms(2)]
      ProcessWalkin_contacts [OF assms(2)] assms(4)
    by (cases c) (simp_all add: serve_guests_def walk_in_is_new_def discard_store GuestService_ImportCSV_def ImportService_ImportCSV_def)
qed

text \<open>C25: Whatever calls create, change, remove and import guests or register walk-ins, in any order, by any
  users, as long as no statement fails and every walk-in brings contacts that no live guest of the tenant has:
  no two live guests of a tenant have the same phone number, none the same e-mail address, and no two guests
  the same id. The other calls look their contacts up themselves; a walk-in does not, and a lookup that fails
  lets a guest through unchecked.\<close>

theorem contacts_stay_unique:
  assumes "guest_history billing ilike lower d d'" and "contacts_ok (guests d)"
  shows "contacts_ok (guests d')"
  using assms by (induction rule: guest_history.induct) (auto dest: serve_guests_contacts)

section \<open>Witnesses of the import\<close>

definition demo_file :: string where
  "demo_file = ''name,phone'' @ [LF] @ ''Ada,0812 345 678'' @ [LF]"

definition demo_row :: guest_import_row where
  "demo_row = (failed_row ErrQuote 2)\<lparr>ir_FullName := ''Ada'', ir_Phone := ''+62812345678'', ir_Errors := []\<rparr>"

lemma demo_rows: "csv_rows id demo_file = Some [demo_row]"
  by code_simp

lemma demo_row_errors: "row_errors demo_row = []"
  by code_simp

lemmas demo_row_checked = demo_row_errors [unfolded demo_row_def failed_row_def, simplified]

lemmas import_eval = ImportService_importCSV_def demo_rows validateRow_def demo_row_def failed_row_def go_eval
  rowToGuest_def NewGuest_def nonempty_contacts_def List.map_filter_def opt_str_def
  GuestRepository_CheckDuplicates_def duplicate_query_def demo_guest_def found_contact_def in_column_def
  column_ids_def seen_contact_def GuestRepository_BulkCreate_def RunInTransaction_def insert_guest_def has_id_def
  has_id_opt_def demo_tenant_def demo_user_def demo_row_checked

theorem import_stores_what_it_reports_witness:
  "\<exists>new. guests (store (snd (ImportService_importCSV id 1 2 demo_file True (demo_world demo_db)))) = [demo_guest 4, demo_guest 5] @ new
     \<and> map ID new = [101] \<and> (\<forall>g \<in> set new. importable g) \<and> rows_stored 1 [demo_row] [demo_guest 4, demo_guest 5] new"
proof -
  have "ImportService_importCSV id 1 2 demo_file True (demo_world demo_db)
    = (Inr \<lparr>im_TotalRows = 1, im_SuccessCount = 1, im_ErrorCount = 0, im_ImportedGuestIDs = [101], im_Errors = []\<rparr>,
       snd (ImportService_importCSV id 1 2 demo_file True (demo_world demo_db)))"
    by (simp add: import_eval)
  from import_stores_what_it_reports [OF this] obtain new old where
    "store (snd (ImportService_importCSV id 1 2 demo_file True (demo_world demo_db)))
       = put_guests (guests (store (demo_world demo_db)) @ new) (store (demo_world demo_db))"
    and "[101] = map ID new @ old" and "\<forall>g \<in> set new. importable g"
    and "rows_stored 1 [demo_row] (guests (store (demo_world demo_db))) new"
    and "\<forall>i \<in> set old. \<exists>g \<in> set (guests (store (demo_world demo_db))). ID g = i"
    by (elim exE conjE) (erule that, simp_all add: demo_rows, blast)
  then show ?thesis by (cases new) (auto simp: demo_guest_def)
qed

lemma demo_roster_fails:
  "fst (EventGuestService_ImportCSV id 1 3 2 demo_file ((demo_world demo_db)\<lparr>faults := \<lambda>n. n = 8\<rparr>)) = Inl ErrDB
   \<and> length (guests (store (snd (EventGuestService_ImportCSV id 1 3 2 demo_file
       ((demo_world demo_db)\<lparr>faults := \<lambda>n. n = 8\<rparr>))))) = 3"
  by (simp add: EventGuestService_ImportCSV_def GuestService_ImportCSVForEvent_def ImportService_ImportCSVForEvent_def
      EventRepository_GetByIDForTenant_def event_key_def demo_event_def with_guest_count_def
      EventGuestRepository_GetByEventAndGuest_def eventGuestSelect_def demo_event_guest_def first_row_def toDomain_def
      EventGuestRepository_Create_def import_eval)

theorem failed_import_stores_nothing_witness:
  "store (snd (ImportService_importCSV id 1 2 demo_file True ((demo_world demo_db)\<lparr>faults := \<lambda>n. n = 5\<rparr>))) = demo_db
   \<and> (\<exists>v res v' added. store v = demo_db \<and> ImportService_ImportCSVForEvent id 1 2 demo_file v = (Inr res, v')
      \<and> store (snd (EventGuestService_ImportCSV id 1 3 2 demo_file ((demo_world demo_db)\<lparr>faults := \<lambda>n. n = 8\<rparr>)))
        = (store v')\<lparr>event_guests := event_guests (store v') @ added\<rparr>)"
proof
  let ?w = "(demo_world demo_db)\<lparr>faults := \<lambda>n. n = 5\<rparr>"
  have "ImportService_importCSV id 1 2 demo_file True ?w = (Inl ErrDB, snd (ImportService_importCSV id 1 2 demo_file True ?w))"
    by (simp add: import_eval)
  from failed_import_stores_nothing [of id 1 2 demo_file True ?w, THEN conjunct1, rule_format, OF this]
  show "store (snd (ImportService_importCSV id 1 2 demo_file True ?w)) = demo_db" by simp
next
  let ?w = "(demo_world demo_db)\<lparr>faults := \<lambda>n. n = 8\<rparr>"
  let ?m = "EventGuestService_ImportCSV id 1 3 2 demo_file"
  have run: "?m ?w = (Inl ErrDB, snd (?m ?w))" and more: "length (guests (store (snd (?m ?w)))) = 3"
    using demo_roster_fails by (simp_all add: prod_eq_iff)
  have "length (guests (store ?w)) = 2" by simp
  with more have "store (snd (?m ?w)) \<noteq> store ?w" by auto
  with failed_import_stores_nothing [of id 1 2 demo_file True ?w ErrDB "snd (?m ?w)" 3, THEN conjunct2, rule_format, OF run]
  show "\<exists>v res v' added. store v = demo_db \<and> ImportService_ImportCSVForEvent id 1 2 demo_file v = (Inr res, v')
      \<and> store (snd (?m ?w)) = (store v')\<lparr>event_guests := event_guests (store v') @ added\<rparr>"
    by auto
qed

theorem contacts_stay_unique_witness:
  "contacts_ok (guests (store (snd (GuestService_ImportCSV id 1 2 demo_file (demo_world demo_db)))))"
proof -
  let ?w = "demo_world demo_db"
  have "guest_history None (=) id demo_db (store (snd (serve_guests None (=) id 1 2 (ImportGuests demo_file) ?w)))"
    by (rule guest_history.served [where w = ?w and r = "fst (serve_guests None (=) id 1 2 (ImportGuests demo_file) ?w)"])
      (simp_all add: guest_history.start walk_in_is_new_def)
  from contacts_stay_unique [OF this] show ?thesis
    by (simp add: serve_guests_def discard_store contacts_ok_def demo_guest_def contact_key_def)
qed

text \<open>A row that repeats a phone number of the file is neither stored, nor counted as an error, nor listed.\<close>

definition demo_file_twice :: string where
  "demo_file_twice = demo_file @ ''Bob,0812345678'' @ [LF]"

lemma demo_rows_twice: "csv_rows id demo_file_twice = Some [demo_row, demo_row\<lparr>ir_RowNum := 3, ir_FullName := ''Bob''\<rparr>]"
  by code_simp

lemma demo_row_twice_errors: "row_errors (demo_row\<lparr>ir_RowNum := 3, ir_FullName := ''Bob''\<rparr>) = []"
  by code_simp

lemma repeated_row_is_dropped:
  "fst (ImportService_importCSV id 1 2 demo_file_twice False (demo_world demo_db))
    = Inr \<lparr>im_TotalRows = 2, im_SuccessCount = 1, im_ErrorCount = 0, im_ImportedGuestIDs = [101], im_Errors = []\<rparr>"
  by (simp add: import_eval demo_rows_twice demo_row_twice_errors [unfolded demo_row_def failed_row_def, simplified])

text \<open>A walk-in with a number that is taken is registered all the same.\<close>

lemma walk_in_repeats_a_contact:
  fixes taken :: db
  defines "taken \<equiv> demo_db\<lparr>guests := [(demo_guest 4)\<lparr>g_Phone := Some ''08''\<rparr>]\<rparr>"
  shows "contacts_ok (guests taken)
    \<and> \<not> contacts_ok (guests (store (snd (ProcessWalkin 1 3 (Some 2) (demo_walkin\<lparr>wr_Phone := ''08''\<rparr>) (demo_world taken)))))"
  by (simp add: taken_def contacts_ok_def contact_key_def ProcessWalkin_def NewGuest_def GuestRepository_Create_def
      insert_guest_def EventGuestRepository_Create_def insert_event_guest_def walkin_event_guest_def
      IsValidEventGuestSource_def scan_eval go_eval demo_walkin_def Checkin.demo_rows opt_str_def insert_audit_log_def)

end
