(* ===== verification/Gowa.thy ===== *)
theory Gowa
  imports Sessions Midtrans
begin

text \<open>
  The WhatsApp gateway GOWA: the client of \<open>internal/whatsapp/client.go\<close>, the integration settings of a
  tenant (\<open>whatsapp_integration_service.go\<close>) and the transport of mail (\<open>internal/email/mailer.go\<close>).
  Parameters, as fields of \<open>gowa_env\<close> and \<open>mail_env\<close>: what the HTTP server and the mail server answer,
  the decoding of JSON bodies into the structs of the code, the parser of URLs and of addresses, the
  lower case of a string and the format of a date. The maps of the client and of the pairing sessions
  are the memory of the process: they are arguments and results.

  The lemmas show that a normalised phone number is one of the form the gateway takes, that the
  configuration a tenant's message is sent with is its own, and that no two tenants share a device.
\<close>

section \<open>Phone numbers\<close>

datatype send_error = NotConfigured | PhoneMissing | InvalidPhone | InvalidTarget | EmptyMessage
  | RequestFailed string | ProviderError int string

fun send_error_text :: "send_error \<Rightarrow> string" where
  "send_error_text NotConfigured = ''whatsapp provider is not configured''"
| "send_error_text PhoneMissing = ''guest WhatsApp number is empty''"
| "send_error_text InvalidPhone = ''guest WhatsApp number is invalid''"
| "send_error_text InvalidTarget = ''WhatsApp recipient is invalid''"
| "send_error_text EmptyMessage = ''whatsapp message is empty''"
| "send_error_text (RequestFailed s) = s"
| "send_error_text (ProviderError _ s) = s"

definition is_digit :: "char \<Rightarrow> bool" where
  "is_digit c \<longleftrightarrow> (let n = of_char c :: nat in 48 \<le> n \<and> n \<le> 57)"

definition NormalizePhone :: "string \<Rightarrow> send_error + string" where
  "NormalizePhone raw =
     (if TrimSpace raw = [] then Inl PhoneMissing
      else let v = filter is_digit (TrimSpace raw);
               v = (case strip_prefix ''0'' v of None \<Rightarrow> v | Some r \<Rightarrow> ''62'' @ r) in
        if length v < 10 \<or> 15 < length v \<or> strip_prefix ''62'' v = None then Inl InvalidPhone else Inr v)"

text \<open>\<open>groupJID\<close>: a digit, five or more digits and dashes, and the domain of groups.\<close>

definition groupJID :: "string \<Rightarrow> bool" where
  "groupJID s \<longleftrightarrow> (case strip_prefix (rev ''@g.us'') (rev s) of None \<Rightarrow> False
     | Some r \<Rightarrow> (case rev r of [] \<Rightarrow> False
         | c # cs \<Rightarrow> is_digit c \<and> 5 \<le> length cs \<and> list_all (\<lambda>x. is_digit x \<or> x = CHR ''-'') cs))"

definition normalizeTarget :: "string \<Rightarrow> bool \<Rightarrow> send_error + string" where
  "normalizeTarget raw allowGroup = (let value = TrimSpace raw in
     if allowGroup \<and> CHR ''@'' \<in> set value then (if groupJID value then Inr value else Inl InvalidTarget)
     else NormalizePhone value)"

section \<open>The client\<close>

record whatsapp_config =
  wa_Enabled :: bool
  wa_APIURL :: string
  wa_DeviceID :: string
  wa_Username :: string
  wa_Password :: string
  wa_WebhookSecret :: string

definition empty_config :: whatsapp_config where
  "empty_config = \<lparr>wa_Enabled = False, wa_APIURL = [], wa_DeviceID = [], wa_Username = [], wa_Password = [],
     wa_WebhookSecret = []\<rparr>"

record whatsapp_client =
  wc_cfg :: whatsapp_config
  wc_tenantCfg :: "uuid \<Rightarrow> whatsapp_config option"

definition configuredForStatus :: "whatsapp_config \<Rightarrow> bool" where
  "configuredForStatus cfg \<longleftrightarrow> TrimSpace (wa_APIURL cfg) \<noteq> [] \<and> TrimSpace (wa_DeviceID cfg) \<noteq> []
     \<and> (wa_Username cfg = []) = (wa_Password cfg = [])"

definition configured :: "whatsapp_config \<Rightarrow> bool" where
  "configured cfg \<longleftrightarrow> wa_Enabled cfg \<and> TrimSpace (wa_APIURL cfg) \<noteq> [] \<and> TrimSpace (wa_DeviceID cfg) \<noteq> []
     \<and> (wa_Username cfg = []) = (wa_Password cfg = [])"

definition SetTenantConfig :: "uuid \<Rightarrow> whatsapp_config \<Rightarrow> whatsapp_client \<Rightarrow> whatsapp_client" where
  "SetTenantConfig tenantID cfg c =
     (if tenantID = uuid_Nil then c else c\<lparr>wc_tenantCfg := (wc_tenantCfg c)(tenantID \<mapsto> cfg)\<rparr>)"

definition configForTenant :: "uuid \<Rightarrow> whatsapp_client \<Rightarrow> whatsapp_config" where
  "configForTenant tenantID c = (case if tenantID = uuid_Nil then None else wc_tenantCfg c tenantID of
     None \<Rightarrow> wc_cfg c | Some cfg \<Rightarrow> cfg)"

definition Configured :: "whatsapp_client \<Rightarrow> bool" where
  "Configured c \<longleftrightarrow> configured (configForTenant uuid_Nil c)"

definition ConfiguredFor :: "uuid \<Rightarrow> whatsapp_client \<Rightarrow> bool" where
  "ConfiguredFor tenantID c \<longleftrightarrow> configured (configForTenant tenantID c)"

text \<open>
  A request to the gateway, its outcome, and the bodies that are decoded. The headers and the object in
  the body are the fields of the request; \<open>Response\<close> holds the status code, the status line and the body.
\<close>

record gowa_request =
  gq_Method :: string
  gq_URL :: string
  gq_DeviceID :: string
  gq_Auth :: "(string \<times> string) option"
  gq_Body :: "(string \<times> string) list"

datatype http_outcome = BadRequest string | NoResponse string | NoBody int string | Response int string string

datatype decoded_as = SendReply | ErrorReply | CodeReply | PairingReply | StatusReply | IdentityReply | MessageReply

record gowa_reply =
  gr_Code :: string
  gr_Message :: string
  gr_Error :: string
  gr_MessageID :: string
  gr_QRLink :: string
  gr_QRDuration :: int
  gr_IsConnected :: bool
  gr_IsLoggedIn :: bool
  gr_DeviceID :: string
  gr_JID :: string
  gr_PhoneNumber :: string

record gowa_env =
  gw_http :: "nat \<Rightarrow> gowa_request \<Rightarrow> http_outcome"
  gw_decode :: "decoded_as \<Rightarrow> string \<Rightarrow> string + gowa_reply"
  gw_requestURI :: "string \<Rightarrow> string option"
  gw_lower :: "string \<Rightarrow> string"
  gw_rfc3339 :: "time \<Rightarrow> string"
  gw_json_text :: "json \<Rightarrow> string"

definition http_do :: "gowa_env \<Rightarrow> gowa_request \<Rightarrow> ('d, http_outcome) go" where
  "http_do s rq = (\<lambda>w. (Inr (gw_http s (pos w) rq), tick w))"

definition basic_auth :: "whatsapp_config \<Rightarrow> (string \<times> string) option" where
  "basic_auth cfg = (if wa_Username cfg \<noteq> [] \<or> wa_Password cfg \<noteq> []
     then Some (wa_Username cfg, wa_Password cfg) else None)"

text \<open>\<open>strings.EqualFold\<close> with \<open>SUCCESS\<close>: besides ASCII, the long s folds to the letter s.\<close>

fun fold_long_s :: "string \<Rightarrow> string" where
  "fold_long_s (a # b # cs) = (if a = CHR 0xC5 \<and> b = CHR 0xBF then CHR ''s'' # fold_long_s cs else a # fold_long_s (b # cs))"
| "fold_long_s s = s"

definition is_success :: "string \<Rightarrow> bool" where
  "is_success code \<longleftrightarrow> EqualFold (fold_long_s code) ''SUCCESS''"

definition providerErrorMessage :: "gowa_env \<Rightarrow> string \<Rightarrow> string \<Rightarrow> string" where
  "providerErrorMessage s body status =
     (let other = ''whatsapp provider returned '' @ status @ '': '' @ TrimSpace body in
      case gw_decode s ErrorReply body of Inl _ \<Rightarrow> other
      | Inr r \<Rightarrow> if TrimSpace (gr_Error r) \<noteq> [] then gr_Error r
          else if TrimSpace (gr_Message r) \<noteq> [] then gr_Message r else other)"

record send_receipt =
  sr_ExternalID :: string
  sr_HTTPStatus :: int
  sr_SentAt :: "time option"

definition has_suffix :: "string \<Rightarrow> string \<Rightarrow> bool" where
  "has_suffix x s \<longleftrightarrow> strip_prefix (rev x) (rev s) \<noteq> None"

definition send_request :: "whatsapp_config \<Rightarrow> string \<Rightarrow> string \<Rightarrow> gowa_request" where
  "send_request cfg phone msg =
     (let baseURL = TrimRight CHR ''/'' (TrimSpace (wa_APIURL cfg)) in
      \<lparr>gq_Method = ''POST'',
       gq_URL = (if has_suffix ''/send/message'' baseURL then baseURL else baseURL @ ''/send/message''),
       gq_DeviceID = wa_DeviceID cfg, gq_Auth = basic_auth cfg,
       gq_Body = [(''message'', msg), (''phone'', phone)]\<rparr>)"

definition sendGOWA ::
  "gowa_env \<Rightarrow> whatsapp_config \<Rightarrow> string \<Rightarrow> string \<Rightarrow> ('d, send_error + send_receipt) go" where
  "sendGOWA s cfg phone msg = go_bind (http_do s (send_request cfg phone msg)) (\<lambda>out. case out of
       BadRequest e \<Rightarrow> go_ret (Inl (RequestFailed (''create GOWA request: '' @ e)))
     | NoResponse e \<Rightarrow> go_ret (Inl (RequestFailed (''send GOWA request: '' @ e)))
     | NoBody _ e \<Rightarrow> go_ret (Inl (RequestFailed (''read GOWA response: '' @ e)))
     | Response code status body \<Rightarrow>
         if code < 200 \<or> 300 \<le> code then go_ret (Inl (ProviderError code (providerErrorMessage s body status)))
         else (case gw_decode s SendReply body of
             Inl e \<Rightarrow> go_ret (Inl (ProviderError code (''decode GOWA response: '' @ e)))
           | Inr r \<Rightarrow>
               if gr_Code r \<noteq> [] \<and> \<not> is_success (gr_Code r) then
                 go_ret (Inl (ProviderError code
                   (if TrimSpace (gr_Message r) = [] then ''GOWA rejected the message'' else TrimSpace (gr_Message r))))
               else go_bind now (\<lambda>t. go_ret
                 (Inr \<lparr>sr_ExternalID = gr_MessageID r, sr_HTTPStatus = code, sr_SentAt = Some t\<rparr>))))"

definition sendWithConfig ::
  "gowa_env \<Rightarrow> whatsapp_config \<Rightarrow> string \<Rightarrow> string \<Rightarrow> bool \<Rightarrow> ('d, send_error + send_receipt) go" where
  "sendWithConfig s cfg dest msg allowGroup =
     (if \<not> configured cfg then go_ret (Inl NotConfigured)
      else case normalizeTarget dest allowGroup of Inl e \<Rightarrow> go_ret (Inl e)
      | Inr target \<Rightarrow> if TrimSpace msg = [] then go_ret (Inl EmptyMessage) else sendGOWA s cfg target msg)"

definition client_Send ::
  "gowa_env \<Rightarrow> whatsapp_client \<Rightarrow> string \<Rightarrow> string \<Rightarrow> ('d, send_error + send_receipt) go" where
  "client_Send s c dest msg = sendWithConfig s (configForTenant uuid_Nil c) dest msg False"

definition SendFor ::
  "gowa_env \<Rightarrow> whatsapp_client \<Rightarrow> uuid \<Rightarrow> string \<Rightarrow> string \<Rightarrow> ('d, send_error + send_receipt) go" where
  "SendFor s c tenantID dest msg = sendWithConfig s (configForTenant tenantID c) dest msg False"

definition SendTo ::
  "gowa_env \<Rightarrow> whatsapp_client \<Rightarrow> string \<Rightarrow> string \<Rightarrow> ('d, send_error + send_receipt) go" where
  "SendTo s c dest msg = sendWithConfig s (configForTenant uuid_Nil c) dest msg True"

section \<open>Mail\<close>

record mail_config =
  ec_Enabled :: bool
  ec_Host :: string
  ec_Port :: int
  ec_User :: string
  ec_Password :: string
  ec_From :: string
  ec_FromName :: string
  ec_UseTLS :: bool

record mail_env =
  em_cfg :: mail_config
  em_address :: "string \<Rightarrow> string option"
  em_deliver :: "nat \<Rightarrow> string \<Rightarrow> string \<Rightarrow> string \<Rightarrow> string \<Rightarrow> string option"

text \<open>
  The checks of \<open>send\<close>, and the dialogue with the server, which ends with an error text or without one.
  \<open>em_address\<close> is the address \<open>mail.ParseAddress\<close> finds in a text.
\<close>

definition smtp_refusal :: "mail_env \<Rightarrow> string \<Rightarrow> string option" where
  "smtp_refusal m recipient0 = (let recipient = TrimSpace recipient0; c = em_cfg m in
     if recipient = [] \<or> em_address m recipient \<noteq> Some recipient then Some (''email recipient is invalid: '' @ recipient)
     else if \<not> ec_Enabled c then Some ''email delivery is not configured: delivery is disabled''
     else if TrimSpace (ec_Host c) = [] \<or> TrimSpace (ec_From c) = []
       then Some ''email delivery is not configured: SMTP configuration is incomplete''
     else if (TrimSpace (ec_User c) = []) \<noteq> (TrimSpace (ec_Password c) = [])
       then Some ''email delivery is not configured: SMTP username and password must be provided together''
     else None)"

definition smtp_send :: "mail_env \<Rightarrow> string \<Rightarrow> string \<Rightarrow> string \<Rightarrow> string \<Rightarrow> ('d, string option) go" where
  "smtp_send m recipient subject body contentType = (\<lambda>w. (Inr (case smtp_refusal m recipient of Some e \<Rightarrow> Some e
     | None \<Rightarrow> em_deliver m (pos w) recipient subject body contentType), tick w))"

section \<open>The integration of a tenant\<close>

text \<open>\<open>TenantRepository.WhatsAppDeviceIDInUse\<close>: the text at a path of the settings, as the server's \<open>#>>\<close> reads it.\<close>

definition json_entry :: "string \<Rightarrow> json \<Rightarrow> json option" where
  "json_entry k j = (case j of JObject m \<Rightarrow> map_of m k | _ \<Rightarrow> None)"

definition path_text :: "gowa_env \<Rightarrow> jsonmap option \<Rightarrow> string option" where
  "path_text s settings =
     (case Option.bind (Option.bind (Option.bind settings (\<lambda>m. map_of m ''integrations''))
         (json_entry ''whatsapp'')) (json_entry ''device_id'') of
        None \<Rightarrow> None | Some JNull \<Rightarrow> None | Some (JString x) \<Rightarrow> Some x | Some j \<Rightarrow> Some (gw_json_text s j))"

definition TenantRepository_WhatsAppDeviceIDInUse :: "gowa_env \<Rightarrow> string \<Rightarrow> uuid \<Rightarrow> bool app" where
  "TenantRepository_WhatsAppDeviceIDInUse s deviceID exclude = query (\<lambda>d.
     list_ex (\<lambda>t. live t \<and> ID t \<noteq> exclude \<and> path_text s (t_Settings t) = Some deviceID) (tenants d))"

definition json_map :: "json option \<Rightarrow> jsonmap option" where
  "json_map j = (case j of Some (JObject m) \<Rightarrow> Some m | _ \<Rightarrow> None)"

definition readWhatsAppSettings :: "jsonmap option \<Rightarrow> jsonmap option" where
  "readWhatsAppSettings settings =
     (case json_map (Option.bind settings (\<lambda>m. map_of m ''integrations'')) of None \<Rightarrow> None
      | Some integrations \<Rightarrow> json_map (map_of integrations ''whatsapp''))"

definition json_string :: "jsonmap \<Rightarrow> string \<Rightarrow> string option" where
  "json_string m k = (case map_of m k of Some (JString x) \<Rightarrow> Some x | _ \<Rightarrow> None)"

definition json_bool :: "jsonmap \<Rightarrow> string \<Rightarrow> bool option" where
  "json_bool m k = (case map_of m k of Some (JBool b) \<Rightarrow> Some b | _ \<Rightarrow> None)"

definition defaultTenantDeviceID :: "uuid \<Rightarrow> string" where
  "defaultTenantDeviceID tenantID = ''guestflow-'' @ filter (\<lambda>c. c \<noteq> CHR ''-'') (uuid_String tenantID)"

text \<open>The settings laid over the configuration of the process.\<close>

definition tenant_device :: "jsonmap option \<Rightarrow> string" where
  "tenant_device wa = (case wa of None \<Rightarrow> [] | Some m \<Rightarrow>
     (case json_string m ''device_id'' of None \<Rightarrow> [] | Some x \<Rightarrow> TrimSpace x))"

definition resolved_config :: "whatsapp_config \<Rightarrow> uuid \<Rightarrow> jsonmap option \<Rightarrow> whatsapp_config" where
  "resolved_config fallback tenantID wa = fallback\<lparr>
     wa_Enabled := (case Option.bind wa (\<lambda>m. json_bool m ''enabled'') of None \<Rightarrow> wa_Enabled fallback | Some b \<Rightarrow> b),
     wa_DeviceID := (if tenant_device wa = [] then defaultTenantDeviceID tenantID else tenant_device wa)\<rparr>"

definition ResolveWhatsAppConfig :: "gowa_env \<Rightarrow> whatsapp_config \<Rightarrow> uuid \<Rightarrow> whatsapp_config app" where
  "ResolveWhatsAppConfig s fallback tenantID =
     go_bind (TenantRepository_GetByID tenantID) (\<lambda>tenant.
     let cfg = resolved_config fallback tenantID (readWhatsAppSettings (t_Settings tenant)) in
     if TrimSpace (wa_DeviceID cfg) \<noteq> [] then
       go_bind (TenantRepository_WhatsAppDeviceIDInUse s (wa_DeviceID cfg) tenantID) (\<lambda>inUse.
       go_guard inUse ErrWhatsAppDeviceConflict (go_ret cfg))
     else go_ret cfg)"

text \<open>Requests to the gateway, their bodies and errors; an error is its sentinel and its text.\<close>

definition path_byte :: "char \<Rightarrow> string" where
  "path_byte c = (let n = of_char c :: nat in
     if is_alnum c \<or> 65 \<le> n \<and> n \<le> 90 \<or> c \<in> set ''-_.~$&+:=@'' then [c]
     else CHR 0x25 # [''0123456789ABCDEF'' ! (n div 16), ''0123456789ABCDEF'' ! (n mod 16)])"

definition PathEscape :: "string \<Rightarrow> string" where
  "PathEscape s = concat (map path_byte s)"

definition doGOWA ::
  "gowa_env \<Rightarrow> whatsapp_config \<Rightarrow> string \<Rightarrow> string \<Rightarrow> (string \<times> string) list \<Rightarrow> ('d, (err \<times> string) + string \<times> int) go" where
  "doGOWA s cfg meth path body =
     (let baseURL = TrimRight CHR ''/'' (wa_APIURL cfg) in
      if baseURL = [] then go_ret (Inl (ErrOther, ''GOWA API URL is empty''))
      else go_bind (http_do s \<lparr>gq_Method = meth, gq_URL = baseURL @ path, gq_DeviceID = wa_DeviceID cfg,
          gq_Auth = basic_auth cfg, gq_Body = body\<rparr>) (\<lambda>out. go_ret (case out of
            BadRequest e \<Rightarrow> Inl (ErrOther, ''create GOWA request: '' @ e)
          | NoResponse e \<Rightarrow> Inl (ErrOther, ''request GOWA: '' @ e)
          | NoBody _ e \<Rightarrow> Inl (ErrOther, ''read GOWA response: '' @ e)
          | Response code _ b \<Rightarrow> Inr (b, code))))"

definition firstNonEmpty :: "string \<Rightarrow> string \<Rightarrow> string" where
  "firstNonEmpty a b = (if TrimSpace a \<noteq> [] then a else if TrimSpace b \<noteq> [] then b else [])"

definition gowaResponseError :: "gowa_env \<Rightarrow> string \<Rightarrow> int \<Rightarrow> string" where
  "gowaResponseError s body code =
     (let other = ''GOWA returned HTTP '' @ itoa code in
      case gw_decode s CodeReply body of Inl _ \<Rightarrow> other
      | Inr r \<Rightarrow> if gr_Code r \<noteq> [] \<or> gr_Message r \<noteq> []
          then ''GOWA returned '' @ firstNonEmpty (gr_Code r) ''ERROR'' @ '': '' @ firstNonEmpty (gr_Message r) ''request failed''
          else other)"

fun str_contains :: "string \<Rightarrow> string \<Rightarrow> bool" where
  "str_contains x [] = (x = [])"
| "str_contains x (c # s) = (strip_prefix x (c # s) \<noteq> None \<or> str_contains x s)"

definition isGOWADeviceNotFound :: "gowa_env \<Rightarrow> string \<Rightarrow> int \<Rightarrow> bool" where
  "isGOWADeviceNotFound s body code \<longleftrightarrow> code = 404 \<or> (case gw_decode s MessageReply body of Inl _ \<Rightarrow> False
     | Inr r \<Rightarrow> let m = gw_lower s (TrimSpace (gr_Message r)) in str_contains ''device'' m \<and> str_contains ''not found'' m)"

definition ok_status :: "int \<Rightarrow> bool" where
  "ok_status code \<longleftrightarrow> 200 \<le> code \<and> code < 300"

definition gowa_refused :: "gowa_env \<Rightarrow> string \<Rightarrow> int \<Rightarrow> err \<times> string" where
  "gowa_refused s body code = (if code = 401
     then (ErrWhatsAppAuthInvalid, ''GOWA Basic Auth was rejected: GOWA returned HTTP 401'')
     else (ErrOther, gowaResponseError s body code))"

definition ensureGOWADevice :: "gowa_env \<Rightarrow> whatsapp_config \<Rightarrow> ('d, (err \<times> string) option) go" where
  "ensureGOWADevice s cfg =
     go_bind (doGOWA s cfg ''GET'' (''/devices/'' @ PathEscape (wa_DeviceID cfg)) []) (\<lambda>r. case r of
       Inl e \<Rightarrow> go_ret (Some e)
     | Inr (body, code) \<Rightarrow>
         if ok_status code then go_ret None
         else if \<not> isGOWADeviceNotFound s body code then go_ret (Some (gowa_refused s body code))
         else go_bind (doGOWA s cfg ''POST'' ''/devices'' [(''device_id'', wa_DeviceID cfg)]) (\<lambda>r. go_ret (case r of
             Inl e \<Rightarrow> Some e
           | Inr (body, code) \<Rightarrow> if ok_status code then None else Some (gowa_refused s body code))))"

definition phoneNumberFromJID :: "string \<Rightarrow> string" where
  "phoneNumberFromJID jid =
     (let v = takeWhile (\<lambda>c. c \<noteq> CHR '':'') (takeWhile (\<lambda>c. c \<noteq> CHR ''@'') (TrimSpace jid)) in
      if list_all is_digit v then v else [])"

definition getDeviceIdentity :: "gowa_env \<Rightarrow> whatsapp_config \<Rightarrow> ('d, string \<times> string) go" where
  "getDeviceIdentity s cfg =
     go_bind (doGOWA s cfg ''GET'' (''/devices/'' @ PathEscape (wa_DeviceID cfg)) []) (\<lambda>r. go_ret (case r of
       Inl _ \<Rightarrow> ([], [])
     | Inr (body, code) \<Rightarrow> if \<not> ok_status code then ([], []) else
         (case gw_decode s IdentityReply body of Inl _ \<Rightarrow> ([], []) | Inr x \<Rightarrow> (gr_JID x, gr_PhoneNumber x))))"

record connection_status =
  cs_State :: string
  cs_Connected :: bool
  cs_LoggedIn :: bool
  cs_JID :: string
  cs_PhoneNumber :: string
  cs_Error :: string

definition only_state :: "string \<Rightarrow> string \<Rightarrow> connection_status" where
  "only_state state e = \<lparr>cs_State = state, cs_Connected = False, cs_LoggedIn = False, cs_JID = [],
     cs_PhoneNumber = [], cs_Error = e\<rparr>"

definition getConnectionStatus :: "gowa_env \<Rightarrow> whatsapp_config \<Rightarrow> ('d, connection_status) go" where
  "getConnectionStatus s cfg =
     (if \<not> wa_Enabled cfg then go_ret (only_state ''disabled'' [])
      else if \<not> configuredForStatus cfg then go_ret (only_state ''not_configured'' [])
      else go_bind (ensureGOWADevice s cfg) (\<lambda>e. case e of
        Some (k, text) \<Rightarrow> go_ret (if k = ErrWhatsAppAuthInvalid
          then only_state ''unauthorized'' ''WhatsApp belum dapat diautentikasi oleh platform''
          else only_state ''unavailable'' text)
      | None \<Rightarrow> go_bind (doGOWA s cfg ''GET'' ''/app/status'' []) (\<lambda>r. case r of
          Inl (k, text) \<Rightarrow> go_ret (only_state ''unavailable'' text)
        | Inr (body, code) \<Rightarrow> (case gw_decode s StatusReply body of
            Inl _ \<Rightarrow> go_ret (only_state ''unavailable'' ''invalid GOWA status response'')
          | Inr x \<Rightarrow>
              if code = 404 \<or> \<not> is_success (gr_Code x)
              then go_ret (only_state ''not_registered'' (firstNonEmpty (gr_Message x) (gr_Code x)))
              else let state = (if gr_IsLoggedIn x then ''logged_in'' else if gr_IsConnected x then ''connected''
                       else ''disconnected'');
                     jid = firstNonEmpty (gr_JID x) (gr_DeviceID x);
                     status = (\<lambda>jid phone. \<lparr>cs_State = state, cs_Connected = gr_IsConnected x,
                       cs_LoggedIn = gr_IsLoggedIn x, cs_JID = jid, cs_PhoneNumber = phone, cs_Error = []\<rparr>) in
                if gr_IsLoggedIn x \<and> phoneNumberFromJID jid = [] then
                  go_bind (getDeviceIdentity s cfg) (\<lambda>(identityJID, identityPhone).
                  let jid2 = firstNonEmpty identityJID jid in
                  go_ret (status jid2 (firstNonEmpty (phoneNumberFromJID jid2) (phoneNumberFromJID identityPhone))))
                else go_ret (status jid (phoneNumberFromJID jid))))))"


text \<open>The service: its configuration, and whether it has an audit log (it always has in this program).\<close>

record integration_status =
  is_Enabled :: bool
  is_Configured :: bool
  is_DeviceID :: string
  is_Connection :: connection_status

definition WhatsAppIntegrationService_GetStatus ::
  "gowa_env \<Rightarrow> whatsapp_config \<Rightarrow> uuid \<Rightarrow> integration_status app" where
  "WhatsAppIntegrationService_GetStatus s fallback tenantID =
     go_bind (ResolveWhatsAppConfig s fallback tenantID) (\<lambda>cfg.
     go_bind (getConnectionStatus s cfg) (\<lambda>c. go_ret
       \<lparr>is_Enabled = wa_Enabled cfg, is_Configured = wa_Enabled cfg \<and> configuredForStatus cfg,
        is_DeviceID = wa_DeviceID cfg, is_Connection = c\<rparr>))"

definition device_char :: "char \<Rightarrow> bool" where
  "device_char c \<longleftrightarrow> (let n = of_char c :: nat in 97 \<le> n \<and> n \<le> 122 \<or> 65 \<le> n \<and> n \<le> 90 \<or> 48 \<le> n \<and> n \<le> 57
     \<or> c = CHR ''-'' \<or> c = CHR ''_'' \<or> c = CHR ''.'')"

definition validateWhatsAppDeviceID :: "string \<Rightarrow> bool" where
  "validateWhatsAppDeviceID deviceID \<longleftrightarrow> 3 \<le> length deviceID \<and> length deviceID \<le> 64 \<and> list_all device_char deviceID"

record integration_update_request =
  iur_Enabled :: "bool option"
  iur_DeviceID :: string

definition json_set :: "string \<Rightarrow> json \<Rightarrow> jsonmap \<Rightarrow> jsonmap" where
  "json_set k v m = (k, v) # filter (\<lambda>(a, _). a \<noteq> k) m"

definition retired_keys :: "string list" where
  "retired_keys = [''provider'', ''api_url'', ''username'', ''password'', ''account_token'', ''sender_token'',
     ''phone_number_id'', ''access_token'', ''webhook_verify_token'']"

text \<open>The device an update asks for: the one of the request, the stored one, or the one named after the tenant.\<close>

definition wanted_device :: "uuid \<Rightarrow> integration_update_request \<Rightarrow> jsonmap \<Rightarrow> string" where
  "wanted_device tenantID req wa =
     (let asked = TrimSpace (iur_DeviceID req);
          stored = (case json_string wa ''device_id'' of None \<Rightarrow> [] | Some x \<Rightarrow> TrimSpace x) in
      if asked \<noteq> [] then asked else if stored \<noteq> [] then stored else defaultTenantDeviceID tenantID)"

definition updated_settings ::
  "string \<Rightarrow> integration_update_request \<Rightarrow> string \<Rightarrow> jsonmap option \<Rightarrow> jsonmap" where
  "updated_settings deviceID req stamp old =
     (let settings = (case old of None \<Rightarrow> [] | Some m \<Rightarrow> m);
          integrations = (case json_map (map_of settings ''integrations'') of None \<Rightarrow> [] | Some m \<Rightarrow> m);
          wa = (case json_map (map_of integrations ''whatsapp'') of None \<Rightarrow> [] | Some m \<Rightarrow> m);
          wa = (case iur_Enabled req of None \<Rightarrow> wa | Some b \<Rightarrow> json_set ''enabled'' (JBool b) wa);
          wa = filter (\<lambda>(k, _). \<not> List.member retired_keys k) (json_set ''device_id'' (JString deviceID) wa);
          wa = json_set ''updated_at'' (JString stamp) wa in
      json_set ''integrations'' (JObject (json_set ''whatsapp'' (JObject wa) integrations)) settings)"

definition WhatsAppIntegrationService_Update ::
  "gowa_env \<Rightarrow> whatsapp_config \<Rightarrow> whatsapp_client \<Rightarrow> uuid \<Rightarrow> uuid \<Rightarrow> integration_update_request
     \<Rightarrow> (integration_status \<times> whatsapp_client) app" where
  "WhatsAppIntegrationService_Update s fallback c tenantID userID req =
     go_bind (TenantRepository_GetByID tenantID) (\<lambda>tenant.
     let wa = (case readWhatsAppSettings (t_Settings tenant) of None \<Rightarrow> [] | Some m \<Rightarrow> m);
         deviceID = wanted_device tenantID req wa in
     go_guard (\<not> validateWhatsAppDeviceID deviceID) ErrWhatsAppIntegrationInvalid (
     go_bind (TenantRepository_WhatsAppDeviceIDInUse s deviceID tenantID) (\<lambda>inUse.
     go_guard inUse ErrWhatsAppDeviceConflict (
     go_bind now (\<lambda>t1. go_bind now (\<lambda>t2.
     go_bind (TenantRepository_Update (tenant\<lparr>UpdatedAt := t2,
       t_Settings := Some (updated_settings deviceID req (gw_rfc3339 s t1) (t_Settings tenant))\<rparr>)) (\<lambda>_.
     go_bind (ResolveWhatsAppConfig s fallback tenantID) (\<lambda>cfg.
     go_ignore (LogWithUser userID tenantID AuditActionUpdate ''setting'' tenantID None
       (Some [(''integration'', JString ''whatsapp''), (''enabled'', JBool (wa_Enabled cfg)), (''source'', JString ''tenant'')])) (
     go_bind (WhatsAppIntegrationService_GetStatus s fallback tenantID) (\<lambda>st.
     go_ret (st, SetTenantConfig tenantID cfg c)))))))))))"

record pairing_status =
  pr_DeviceID :: string
  pr_QRDuration :: int

type_synonym qr_paths = "uuid \<Rightarrow> string option"

definition WhatsAppIntegrationService_StartPairing ::
  "gowa_env \<Rightarrow> whatsapp_config \<Rightarrow> qr_paths \<Rightarrow> uuid \<Rightarrow> (pairing_status \<times> qr_paths) app" where
  "WhatsAppIntegrationService_StartPairing s fallback paths tenantID =
     go_bind (ResolveWhatsAppConfig s fallback tenantID) (\<lambda>cfg.
     go_guard (\<not> wa_Enabled cfg \<or> \<not> configuredForStatus cfg) ErrWhatsAppIntegrationInvalid (
     go_bind (ensureGOWADevice s cfg) (\<lambda>e. case e of Some (k, _) \<Rightarrow> go_fail k | None \<Rightarrow>
     go_bind (doGOWA s cfg ''GET'' ''/app/login'' []) (\<lambda>r. case r of Inl (k, _) \<Rightarrow> go_fail k
     | Inr (body, code) \<Rightarrow>
         go_guard (\<not> ok_status code) ErrOther (
         case gw_decode s PairingReply body of Inl _ \<Rightarrow> go_fail ErrOther
         | Inr x \<Rightarrow> go_guard (gr_Code x \<noteq> [] \<and> \<not> is_success (gr_Code x)) ErrOther (
             case gw_requestURI s (gr_QRLink x) of None \<Rightarrow> go_fail ErrOther
             | Some uri \<Rightarrow> go_ret (\<lparr>pr_DeviceID = wa_DeviceID cfg, pr_QRDuration = gr_QRDuration x\<rparr>,
                 paths(tenantID \<mapsto> uri))))))))"

definition WhatsAppIntegrationService_GetPairingQR ::
  "gowa_env \<Rightarrow> whatsapp_config \<Rightarrow> qr_paths \<Rightarrow> uuid \<Rightarrow> (string \<times> string) app" where
  "WhatsAppIntegrationService_GetPairingQR s fallback paths tenantID =
     go_bind (ResolveWhatsAppConfig s fallback tenantID) (\<lambda>cfg.
     case paths tenantID of None \<Rightarrow> go_fail ErrOther | Some path \<Rightarrow>
     go_guard (path = []) ErrOther (
     go_bind (doGOWA s cfg ''GET'' path []) (\<lambda>r. case r of Inl (k, _) \<Rightarrow> go_fail k
     | Inr (body, code) \<Rightarrow> go_guard (\<not> ok_status code) ErrOther (go_ret (body, ''image/png'')))))"

definition WhatsAppIntegrationService_Logout ::
  "gowa_env \<Rightarrow> whatsapp_config \<Rightarrow> uuid \<Rightarrow> integration_status app" where
  "WhatsAppIntegrationService_Logout s fallback tenantID =
     go_bind (ResolveWhatsAppConfig s fallback tenantID) (\<lambda>cfg.
     go_guard (\<not> wa_Enabled cfg \<or> \<not> configuredForStatus cfg) ErrWhatsAppIntegrationInvalid (
     go_bind (doGOWA s cfg ''POST'' (''/devices/'' @ PathEscape (wa_DeviceID cfg) @ ''/logout'') []) (\<lambda>r. case r of
       Inl (k, _) \<Rightarrow> go_fail k
     | Inr (body, code) \<Rightarrow>
         if code = 404 then WhatsAppIntegrationService_GetStatus s fallback tenantID
         else go_guard (code = 401) ErrWhatsAppAuthInvalid (
           go_guard (\<not> ok_status code) ErrOther (WhatsAppIntegrationService_GetStatus s fallback tenantID)))))"

text \<open>The error that a failed transmission is returned with.\<close>

definition send_sentinel :: "send_error \<Rightarrow> err" where
  "send_sentinel e = (case e of NotConfigured \<Rightarrow> ErrWhatsAppNotConfigured | PhoneMissing \<Rightarrow> ErrPhoneMissing
     | InvalidPhone \<Rightarrow> ErrInvalidPhone | _ \<Rightarrow> ErrOther)"

record test_send_result =
  ts_To :: string
  ts_ExternalID :: string
  ts_ProviderStatus :: int
  ts_SentAt :: "time option"

definition WhatsAppIntegrationService_SendTest ::
  "gowa_env \<Rightarrow> whatsapp_config \<Rightarrow> whatsapp_client \<Rightarrow> uuid \<Rightarrow> string \<Rightarrow> string \<Rightarrow> test_send_result app" where
  "WhatsAppIntegrationService_SendTest s fallback c tenantID dest msg =
     go_bind (ResolveWhatsAppConfig s fallback tenantID) (\<lambda>cfg.
     go_guard (\<not> wa_Enabled cfg \<or> \<not> configuredForStatus cfg) ErrWhatsAppIntegrationInvalid (
     go_bind (getConnectionStatus s cfg) (\<lambda>st.
     go_guard (\<not> cs_LoggedIn st) ErrWhatsAppNotReady (
     go_bind (SendFor s (SetTenantConfig tenantID cfg c) tenantID dest msg) (\<lambda>r. case r of
       Inl e \<Rightarrow> go_fail (send_sentinel e)
     | Inr receipt \<Rightarrow> go_ret \<lparr>ts_To = dest, ts_ExternalID = sr_ExternalID receipt,
         ts_ProviderStatus = sr_HTTPStatus receipt, ts_SentAt = sr_SentAt receipt\<rparr>)))))"

section \<open>Normal form of a phone number\<close>

text \<open>\<open>TrimSpace\<close> leaves a text alone that begins and ends with a visible character.\<close>

definition visible :: "char \<Rightarrow> bool" where
  "visible c \<longleftrightarrow> (let n = of_char c :: nat in 33 \<le> n \<and> n \<le> 126)"

lemma space_codes_invisible:
  "c \<in> set space_codes \<Longrightarrow> c \<noteq> [] \<and> \<not> visible (hd c) \<and> \<not> visible (last c)"
  by (auto simp: space_codes_def visible_def)

lemma strip_codes_visible:
  assumes "s = [] \<or> visible (hd s)" and "\<And>c. c \<in> set cs \<Longrightarrow> c \<noteq> [] \<and> \<not> visible (hd c)"
  shows "strip_codes n cs s = s"
proof (rule strip_codes_id)
  fix c assume "c \<in> set cs"
  then have "c \<noteq> []" "\<not> visible (hd c)" using assms(2) by auto
  with assms(1) show "strip_prefix c s = None"
    by (cases c; cases s) (auto simp: strip_prefix_Some)
qed

lemma TrimSpace_visible:
  assumes "s = [] \<or> visible (hd s) \<and> visible (last s)"
  shows "TrimSpace s = s"
proof -
  have "strip_codes n space_codes s = s" for n using assms space_codes_invisible by (intro strip_codes_visible) auto
  moreover have "strip_codes n (map rev space_codes) (rev s) = rev s" for n
    using assms space_codes_invisible by (intro strip_codes_visible) (auto simp: hd_rev)
  ultimately show ?thesis by (simp add: TrimSpace_def Let_def)
qed

lemma digit_visible: "is_digit c \<Longrightarrow> visible c"
  by (simp add: is_digit_def visible_def Let_def)

lemma TrimSpace_digits: "list_all is_digit s \<Longrightarrow> TrimSpace s = s"
  by (rule TrimSpace_visible, cases "s = []") (auto simp: list_all_iff intro: digit_visible)

definition phone_normal :: "string \<Rightarrow> bool" where
  "phone_normal v \<longleftrightarrow> list_all is_digit v \<and> 10 \<le> length v \<and> length v \<le> 15 \<and> strip_prefix ''62'' v \<noteq> None"

lemma NormalizePhone_normal:
  assumes "NormalizePhone raw = Inr v"
  shows "phone_normal v"
proof -
  let ?v = "filter is_digit (TrimSpace raw)"
  have digits: "list_all is_digit ?v" by (simp add: list_all_iff)
  show ?thesis
  proof (cases "strip_prefix ''0'' ?v")
    case None
    with assms digits show ?thesis by (auto simp: NormalizePhone_def phone_normal_def Let_def split: if_splits)
  next
    case (Some r)
    then have "?v = ''0'' @ r" by (simp only: strip_prefix_Some)
    with digits have "list_all is_digit (''62'' @ r)" by (simp add: is_digit_def)
    with assms Some show ?thesis by (auto simp: NormalizePhone_def phone_normal_def Let_def split: if_splits)
  qed
qed

lemma normal_is_fixed:
  assumes "phone_normal v"
  shows "NormalizePhone v = Inr v"
proof -
  from assms have "filter is_digit v = v" "TrimSpace v = v"
    by (simp_all add: phone_normal_def list_all_iff filter_id_conv TrimSpace_digits)
  moreover from assms obtain r where "v = ''62'' @ r" by (auto simp: phone_normal_def strip_prefix_Some)
  ultimately show ?thesis
    using assms by (auto simp: NormalizePhone_def phone_normal_def Let_def strip_prefix_Some split: option.split)
qed

section \<open>Devices of tenants\<close>

text \<open>No two live tenants have the same device in their settings.\<close>

definition devices_apart :: "gowa_env \<Rightarrow> db \<Rightarrow> bool" where
  "devices_apart s d \<longleftrightarrow> (\<forall>t \<in> set (tenants d). \<forall>u \<in> set (tenants d). live t \<and> live u \<and> ID t \<noteq> ID u
     \<longrightarrow> path_text s (t_Settings t) \<noteq> None \<longrightarrow> path_text s (t_Settings t) \<noteq> path_text s (t_Settings u))"

lemma json_set_get [simp]: "map_of (json_set k v m) k' = (if k' = k then Some v else map_of m k')"
proof -
  have "map_of (filter (\<lambda>(a, _). a \<noteq> k) m) k' = (if k' = k then None else map_of m k')"
    by (induction m) auto
  then show ?thesis by (simp add: json_set_def)
qed

lemma retired_removed:
  "\<not> List.member retired_keys k \<Longrightarrow> map_of (filter (\<lambda>(k, _). \<not> List.member retired_keys k) m) k = map_of m k"
  by (induction m) auto

lemma updated_device: "path_text s (Some (updated_settings deviceID req stamp old)) = Some deviceID"
proof -
  have key: "\<not> List.member retired_keys ''device_id''" by (simp add: retired_keys_def)
  show ?thesis
    unfolding path_text_def updated_settings_def Let_def
    by (simp add: json_entry_def retired_removed [OF key] del: List.member_iff)
qed

lemma devices_apart_update:
  assumes apart: "devices_apart s d" and free: "\<And>t. t \<in> set (tenants d) \<Longrightarrow> live t \<Longrightarrow> ID t \<noteq> i
      \<Longrightarrow> path_text s (t_Settings t) \<noteq> Some dev"
    and new: "\<And>r. live (f r) = live r" "\<And>r. ID (f r) = ID r" "\<And>r. path_text s (t_Settings (f r)) = Some dev"
  shows "devices_apart s (put_tenants (update_where (\<lambda>r. ID r = i \<and> live r) f (tenants d)) d)"
proof -
  let ?g = "\<lambda>r. if ID r = i \<and> live r then f r else r"
  have "path_text s (t_Settings (?g t)) \<noteq> path_text s (t_Settings (?g u))"
    if "t \<in> set (tenants d)" "u \<in> set (tenants d)" "live (?g t)" "live (?g u)" "ID (?g t) \<noteq> ID (?g u)"
      "path_text s (t_Settings (?g t)) \<noteq> None" for t u
  proof -
    have "live t" "live u" "ID t \<noteq> ID u" using that(3-5) new(1,2) by (auto split: if_splits)
    then show ?thesis
      using that(1,2,6) apart free [of t] free [of u] new(3) unfolding devices_apart_def by (auto split: if_splits)
  qed
  then have "\<forall>a \<in> ?g ` set (tenants d). \<forall>b \<in> ?g ` set (tenants d). live a \<and> live b \<and> ID a \<noteq> ID b
      \<longrightarrow> path_text s (t_Settings a) \<noteq> None \<longrightarrow> path_text s (t_Settings a) \<noteq> path_text s (t_Settings b)"
    by blast
  moreover have "set (tenants (put_tenants (update_where (\<lambda>r. ID r = i \<and> live r) f (tenants d)) d)) = ?g ` set (tenants d)"
    by (simp add: update_where_def del: if_image_distrib)
  ultimately show ?thesis unfolding devices_apart_def by (simp only:)
qed

lemma saved_settings:
  assumes apart: "devices_apart s (store w)" and free: "\<not> list_ex (\<lambda>t. live t \<and> ID t \<noteq> ID T
      \<and> path_text s (t_Settings t) = Some dev) (tenants (store w))"
    and T: "path_text s (t_Settings T) = Some dev" and run: "TenantRepository_Update T w = (r, w')"
  shows "devices_apart s (store w')"
proof (cases r)
  case (Inl e)
  with run have "tenants (store w') = tenants (store w)"
    by (auto simp: TenantRepository_Update_def tenants_table.update_fails)
  with apart show ?thesis by (simp add: devices_apart_def)
next
  case (Inr u)
  have "t_Settings T \<noteq> None" using T by (cases "t_Settings T") (auto simp: path_text_def)
  then have merged: "t_Settings (merge_tenant T r) = t_Settings T" for r
    by (auto simp: merge_tenant_def coalesce_def)
  have free': "path_text s (t_Settings t) \<noteq> Some dev" if "t \<in> set (tenants (store w))" "live t" "ID t \<noteq> ID T" for t
    using free that by (auto simp: list_ex_iff)
  show ?thesis
    using run Inr devices_apart_update [OF apart free', where f = "\<lambda>r. (merge_tenant T r)\<lparr>UpdatedAt := x\<rparr>" for x]
    by (auto simp: TenantRepository_Update_def tenants_table.update_run merged T) (auto simp: merge_tenant_def)
qed

lemma integration_reads:
  "stays (=) (TenantRepository_GetByID i)" "stays (=) (TenantRepository_WhatsAppDeviceIDInUse s dev i)"
  "stays (=) (ResolveWhatsAppConfig s fallback i)" "stays (=) (WhatsAppIntegrationService_GetStatus s fallback i)"
proof -
  show reads: "stays (=) (TenantRepository_GetByID i)" "stays (=) (TenantRepository_WhatsAppDeviceIDInUse s dev i)" for i dev
    unfolding TenantRepository_GetByID_def TenantRepository_WhatsAppDeviceIDInUse_def
    by (rule unchanged.get_one_stays unchanged.query_stays)+
  show resolve: "stays (=) (ResolveWhatsAppConfig s fallback i)"
    unfolding ResolveWhatsAppConfig_def Let_def by (auto intro!: unchanged.all_stays reads)
  have "stays (=) (http_do s rq)" for rq by (simp add: stays_def http_do_def tick_def)
  then have http: "stays (=) (doGOWA s cfg meth path body)" for cfg meth path body
    unfolding doGOWA_def Let_def by (auto intro!: unchanged.all_stays)
  show "stays (=) (WhatsAppIntegrationService_GetStatus s fallback i)"
    unfolding WhatsAppIntegrationService_GetStatus_def getConnectionStatus_def ensureGOWADevice_def getDeviceIdentity_def Let_def
    by (auto intro!: unchanged.all_stays resolve http split: sum.split option.split prod.split)
qed

lemma device_in_use:
  assumes "TenantRepository_WhatsAppDeviceIDInUse s dev i w = (Inr False, w')"
  shows "\<not> list_ex (\<lambda>t. live t \<and> ID t \<noteq> i \<and> path_text s (t_Settings t) = Some dev) (tenants (store w))"
  using assms by (simp add: TenantRepository_WhatsAppDeviceIDInUse_def query_def split: if_splits)

text \<open>Steps of a run that keep a property of the store.\<close>

lemma pure_step:
  assumes "stays (=) m" and "Q (store w)"
    and "\<And>x v. m w = (Inr x, v) \<Longrightarrow> store v = store w \<Longrightarrow> Q (store (snd (f x v)))"
  shows "Q (store (snd (go_bind m f w)))"
proof (cases "go_bind m f w")
  case (Pair r w')
  then show ?thesis using assms by (cases rule: pure_bind [OF Pair assms(1)]) (metis snd_conv)+
qed

lemma guard_step: "Q (store w) \<Longrightarrow> (\<not> c \<Longrightarrow> Q (store (snd (k w)))) \<Longrightarrow> Q (store (snd (go_guard c e k w)))"
  by (simp add: go_guard_def go_fail_def)

lemma call_step:
  assumes "m w = (q, v)" and "Q (store v)" and "\<And>x. stays (\<lambda>d d'. Q d \<longrightarrow> Q d') (f x)"
  shows "Q (store (snd (go_bind m f w)))"
  using assms by (cases q) (auto simp: go_bind_def go_try_def go_fail_def stays_def)

lemma keeps_apart:
  "stays (\<lambda>d d'. devices_apart s d \<longrightarrow> devices_apart s d') (LogWithUser u t a et ei ov nv)"
  "stays (\<lambda>d d'. devices_apart s d \<longrightarrow> devices_apart s d') (ResolveWhatsAppConfig s fallback i)"
  "stays (\<lambda>d d'. devices_apart s d \<longrightarrow> devices_apart s d') (WhatsAppIntegrationService_GetStatus s fallback i)"
  subgoal by (rule stays_mono [OF LogWithUser_stays]) (frule audit_free_tables(1), simp add: devices_apart_def)
  by (rule stays_mono [OF integration_reads(3)] stays_mono [OF integration_reads(4)], simp)+

lemma saved_tail:
  "stays (\<lambda>d d'. devices_apart s d \<longrightarrow> devices_apart s d')
     (go_bind (ResolveWhatsAppConfig s fallback i) (\<lambda>cfg. go_ignore (LogWithUser u t a et ei ov (nv cfg))
       (go_bind (WhatsAppIntegrationService_GetStatus s fallback i) (\<lambda>st. go_ret (f cfg st)))))"
  by (intro kept.bind_stays kept.ignore_stays kept.ret_stays keeps_apart)

lemma Update_keeps_devices_apart:
  assumes "devices_apart s (store w)"
  shows "devices_apart s (store (snd (WhatsAppIntegrationService_Update s fallback c tenantID userID req w)))"
  unfolding WhatsAppIntegrationService_Update_def Let_def
proof (rule pure_step [where Q = "devices_apart s", OF integration_reads(1)], goal_cases)
  case (2 tenant v)
  let ?dev = "wanted_device tenantID req (case readWhatsAppSettings (t_Settings tenant) of None \<Rightarrow> [] | Some m \<Rightarrow> m)"
  from 2 have i: "ID tenant = tenantID" by (auto simp: TenantRepository_GetByID_def go_run dest: find_Some_D)
  show ?case
  proof (intro guard_step [where Q = "devices_apart s"] pure_step [where Q = "devices_apart s", OF integration_reads(2)]
      pure_step [where Q = "devices_apart s", OF unchanged.now_stays], goal_cases)
    case (6 inUse v1 t1 v2 t2 v3)
    let ?T = "tenant\<lparr>UpdatedAt := t2, t_Settings := Some (updated_settings ?dev req (gw_rfc3339 s t1) (t_Settings tenant))\<rparr>"
    have start: "store v3 = store v" using 6 by simp
    from 6 have "TenantRepository_WhatsAppDeviceIDInUse s ?dev tenantID v = (Inr False, v1)" by simp
    from device_in_use [OF this] have free: "\<not> list_ex (\<lambda>t. live t \<and> ID t \<noteq> ID ?T \<and> path_text s (t_Settings t) = Some ?dev)
      (tenants (store v3))" by (simp add: i start)
    have "devices_apart s (store v3)" using start 2 assms by simp
    from saved_settings [OF this free] have saved: "devices_apart s (store v')"
      if "TenantRepository_Update ?T v3 = (q, v')" for q v' using that by (simp add: updated_device)
    show ?case
    proof (cases "TenantRepository_Update ?T v3")
      case (Pair q v')
      from saved [OF this] have "devices_apart s (store v')" .
      with Pair show ?thesis
        by (intro call_step [where Q = "devices_apart s"] saved_tail)
    qed
  qed (use 2 assms in auto)
qed (rule assms)
section \<open>Properties\<close>

text \<open>
  A number that the normaliser accepts has the form the gateway takes: ten to fifteen digits that
  begin with the country code 62. Normalising it again changes nothing.
\<close>

theorem normalized_phone_is_normal:
  assumes "NormalizePhone raw = Inr v"
  shows "list_all is_digit v \<and> 10 \<le> length v \<and> length v \<le> 15 \<and> take 2 v = ''62'' \<and> NormalizePhone v = Inr v"
  using NormalizePhone_normal [OF assms] normal_is_fixed [OF NormalizePhone_normal [OF assms]]
  by (auto simp: phone_normal_def strip_prefix_Some)

theorem normalized_phone_is_normal_witness:
  "NormalizePhone ''0812-3456-7890'' = Inr ''6281234567890''
    \<and> length ''6281234567890'' \<le> 15 \<and> NormalizePhone ''6281234567890'' = Inr ''6281234567890''"
proof -
  have run: "NormalizePhone ''0812-3456-7890'' = Inr ''6281234567890''" by code_simp
  from normalized_phone_is_normal [OF run] run show ?thesis by simp
qed

text \<open>
  Whatever tenants ask for their integrations, in any order and whichever statements fail, no two
  live tenants come to have the same device in their settings. \<open>TenantService.Update\<close>, which replaces the
  settings as a whole, does not look; there only the unique index of migration 1016 protects the device.
\<close>

theorem devices_stay_apart:
  assumes "devices_apart s (store w)"
  shows "devices_apart s (store (serve_all (map (\<lambda>(client, tenantID, userID, req).
    discard (WhatsAppIntegrationService_Update s fallback client tenantID userID req)) requests) w))"
proof (rule serve_all_keeps [where I = "devices_apart s", OF _ assms])
  fix m :: "unit app" and v :: "db world"
  assume "m \<in> set (map (\<lambda>(client, tenantID, userID, req).
      discard (WhatsAppIntegrationService_Update s fallback client tenantID userID req)) requests)"
    and start: "devices_apart s (store v)"
  then obtain client t u req where m: "m = discard (WhatsAppIntegrationService_Update s fallback client t u req)" by auto
  show "devices_apart s (store (snd (m v)))"
    using Update_keeps_devices_apart [OF start, of fallback client t u req] unfolding m discard_def
    by (cases "WhatsAppIntegrationService_Update s fallback client t u req v")
      (auto intro!: call_step [where Q = "devices_apart s"] kept.all_stays)
qed

definition demo_gowa :: gowa_env where
  "demo_gowa = \<lparr>gw_http = (\<lambda>n rq. NoResponse ''offline''), gw_decode = (\<lambda>k b. Inl ''no JSON''), gw_requestURI = (\<lambda>u. None),
     gw_lower = map lower_ascii, gw_rfc3339 = itoa, gw_json_text = (\<lambda>j. [])\<rparr>"

theorem devices_stay_apart_witness:
  "devices_apart demo_gowa (store (serve_all (map (\<lambda>(client, tenantID, userID, req).
      discard (WhatsAppIntegrationService_Update demo_gowa empty_config client tenantID userID req))
    [(\<lparr>wc_cfg = empty_config, wc_tenantCfg = (\<lambda>_. None)\<rparr>, 1, 2, \<lparr>iur_Enabled = Some True, iur_DeviceID = ''dev-1''\<rparr>)])
    (demo_world demo_db)))"
  by (rule devices_stay_apart) (simp add: devices_apart_def demo_world_def path_text_def)

end
