(* ===== verification/Messages.thy ===== *)
theory Messages
  imports Gowa Guards Invitations Rsvp
begin

text \<open>
  Messages to guests: templates, rendering, sending and retrying (\<open>communication_service.go\<close>,
  \<open>communication_repository.go\<close>), and the receipts of the WhatsApp gateway
  (\<open>gowa_webhook_handler.go\<close>). Reminders and campaigns are in theory Campaigns. The lemmas show that a
  message goes through its delivery states in order and never changes its text, that only signed
  receipts have an effect, that the standard templates are created once, and that every placeholder
  of theirs is filled.

  \<open>comm_env\<close> holds the service's parts; the two date formats, the lower case of a string and the
  parsing of a webhook are its parameters.
\<close>

section \<open>Rows of the message tables\<close>

abbreviation ChannelWhatsApp :: string where "ChannelWhatsApp \<equiv> ''whatsapp''"
abbreviation ChannelEmail :: string where "ChannelEmail \<equiv> ''email''"
abbreviation ChannelSMS :: string where "ChannelSMS \<equiv> ''sms''"
abbreviation MsgTypeInvitation :: string where "MsgTypeInvitation \<equiv> ''invitation''"
abbreviation MsgTypeRSVPFollowUp :: string where "MsgTypeRSVPFollowUp \<equiv> ''rsvp_followup''"
abbreviation MessageStatusQueued :: string where "MessageStatusQueued \<equiv> ''queued''"
abbreviation MessageStatusSent :: string where "MessageStatusSent \<equiv> ''sent''"
abbreviation MessageStatusDelivered :: string where "MessageStatusDelivered \<equiv> ''delivered''"
abbreviation MessageStatusRead :: string where "MessageStatusRead \<equiv> ''read''"
abbreviation MessageStatusFailed :: string where "MessageStatusFailed \<equiv> ''failed''"

definition channel_ok :: "string \<Rightarrow> bool" where
  "channel_ok c \<longleftrightarrow> List.member [''whatsapp'', ''email'', ''sms''] c"

definition message_status_ok :: "string \<Rightarrow> bool" where
  "message_status_ok s \<longleftrightarrow>
     List.member [''draft'', ''queued'', ''sent'', ''delivered'', ''read'', ''failed'', ''cancelled''] s"

text \<open>
  The tables of migration 020, with the columns of migrations 022 and 1006. The bounds of the text
  columns are not part of the model, as elsewhere; \<open>SMALLINT\<close> holds any status code of HTTP.
\<close>

definition insert_template :: "comm_template \<Rightarrow> server \<Rightarrow> db \<Rightarrow> (nat \<times> db) option" where
  "insert_template t srv d =
     (if has_id (ID t) (communication_templates d) \<or> \<not> has_id (TenantID t) (tenants d) \<or> \<not> channel_ok (ct_Channel t)
      then None else Some (1, d\<lparr>communication_templates := communication_templates d @ [t]\<rparr>))"

definition insert_message :: "comm_message \<Rightarrow> server \<Rightarrow> db \<Rightarrow> (nat \<times> db) option" where
  "insert_message m srv d =
     (if has_id (ID m) (communication_messages d) \<or> \<not> has_id (TenantID m) (tenants d)
         \<or> \<not> has_id_opt (cm_CampaignID m) (communication_campaigns d) \<or> \<not> has_id (EventID m) (events d)
         \<or> \<not> has_id (GuestID m) (guests d) \<or> \<not> has_id_opt (cm_EventGuestID m) (event_guests d)
         \<or> \<not> has_id_opt (cm_InvitationID m) (invitations d) \<or> \<not> channel_ok (cm_Channel m)
         \<or> \<not> message_status_ok (cm_Status m)
      then None else Some (1, d\<lparr>communication_messages := communication_messages d @ [m]\<rparr>))"

section \<open>Templates\<close>

definition template_key :: "uuid \<Rightarrow> uuid \<Rightarrow> comm_template \<Rightarrow> bool" where
  "template_key t i r \<longleftrightarrow> ID r = i \<and> TenantID r = t \<and> live r"

definition CommunicationRepository_CreateTemplate :: "comm_template \<Rightarrow> unit app" where
  "CommunicationRepository_CreateTemplate t = go_bind (exec (insert_template t)) (\<lambda>_. go_ret ())"

definition CommunicationRepository_GetTemplate :: "uuid \<Rightarrow> uuid \<Rightarrow> comm_template app" where
  "CommunicationRepository_GetTemplate t i =
     get_one ErrTemplateNotFound (\<lambda>d. find (template_key t i) (communication_templates d))"

definition system_template :: "uuid \<Rightarrow> string \<Rightarrow> string \<Rightarrow> string \<Rightarrow> comm_template \<Rightarrow> bool" where
  "system_template t name channel msgType r \<longleftrightarrow> TenantID r = t \<and> ct_Name r = name \<and> ct_Channel r = channel
     \<and> ct_Type r = msgType \<and> ct_IsSystem r \<and> live r"

definition CommunicationRepository_GetTemplateByKey :: "uuid \<Rightarrow> string \<Rightarrow> string \<Rightarrow> string \<Rightarrow> comm_template app" where
  "CommunicationRepository_GetTemplateByKey t name channel msgType = get_one ErrTemplateNotFound (\<lambda>d. first_row
     (sort_key CreatedAt (filter (system_template t name channel msgType) (communication_templates d))))"

definition merge_template :: "comm_template \<Rightarrow> comm_template \<Rightarrow> comm_template" where
  "merge_template t r = r\<lparr>ct_Name := ct_Name t, ct_Channel := ct_Channel t, ct_Type := ct_Type t,
     ct_Subject := ct_Subject t, ct_Body := ct_Body t, ct_Variables := ct_Variables t, ct_IsActive := ct_IsActive t,
     ct_Description := ct_Description t, ct_Language := ct_Language t, UpdatedAt := UpdatedAt t\<rparr>"

definition CommunicationRepository_UpdateTemplate :: "comm_template \<Rightarrow> unit app" where
  "CommunicationRepository_UpdateTemplate t = exec_rows ErrTemplateNotFound (\<lambda>srv d.
     if \<not> channel_ok (ct_Channel t) \<and> list_ex (template_key (TenantID t) (ID t)) (communication_templates d) then None
     else Some (sql_update communication_templates put_communication_templates (template_key (TenantID t) (ID t))
       (merge_template t) d))"

definition CommunicationRepository_MarkTemplateSystem :: "uuid \<Rightarrow> uuid \<Rightarrow> unit app" where
  "CommunicationRepository_MarkTemplateSystem t i = exec_rows ErrTemplateNotFound (\<lambda>srv d.
     Some (sql_update communication_templates put_communication_templates (template_key t i)
       (\<lambda>r. r\<lparr>ct_IsSystem := True, UpdatedAt := fst srv\<rparr>) d))"

definition CommunicationRepository_SoftDeleteTemplate :: "uuid \<Rightarrow> uuid \<Rightarrow> unit app" where
  "CommunicationRepository_SoftDeleteTemplate t i = go_bind now (\<lambda>tm. exec_rows ErrTemplateNotFound (\<lambda>srv d.
     Some (sql_update communication_templates put_communication_templates (template_key t i)
       (\<lambda>r. r\<lparr>DeletedAt := Some tm, UpdatedAt := tm\<rparr>) d)))"

record template_list_params =
  tlp_TenantID :: uuid
  tlp_Channel :: string
  tlp_Type :: string
  tlp_IsActive :: "bool option"
  tlp_Page :: int
  tlp_PerPage :: int

definition buildTemplateWhereClause :: "template_list_params \<Rightarrow> comm_template \<Rightarrow> bool" where
  "buildTemplateWhereClause p r \<longleftrightarrow> TenantID r = tlp_TenantID p \<and> live r
     \<and> (tlp_Channel p = [] \<or> ct_Channel r = tlp_Channel p) \<and> (tlp_Type p = [] \<or> ct_Type r = tlp_Type p)
     \<and> (case tlp_IsActive p of None \<Rightarrow> True | Some b \<Rightarrow> ct_IsActive r = b)"

definition page_of :: "int \<Rightarrow> int \<Rightarrow> ('a base_scheme \<Rightarrow> bool) \<Rightarrow> ('d \<Rightarrow> 'a base_scheme list) \<Rightarrow> ('d, 'a base_scheme list) go" where
  "page_of page0 perPage0 p table =
     (let page = (if page0 < 1 then 1 else page0); perPage = (if perPage0 < 1 then 20 else perPage0);
          off = i64 ((page - 1) * perPage) in
      get_one ErrDB (\<lambda>d. if off < 0 then None
        else Some (limit_offset perPage off (sort_key (\<lambda>r. - CreatedAt r) (filter p (table d))))))"

definition CommunicationRepository_ListTemplatesByTenant :: "template_list_params \<Rightarrow> comm_template list app" where
  "CommunicationRepository_ListTemplatesByTenant p =
     page_of (tlp_Page p) (tlp_PerPage p) (buildTemplateWhereClause p) communication_templates"

definition CommunicationRepository_CountTemplatesByTenant :: "template_list_params \<Rightarrow> int app" where
  "CommunicationRepository_CountTemplatesByTenant p =
     query (\<lambda>d. int (count_where (buildTemplateWhereClause p) (communication_templates d)))"

record template_create_request =
  tcr_Name :: string
  tcr_Channel :: string
  tcr_Type :: string
  tcr_Subject :: string
  tcr_Body :: string
  tcr_Variables :: "string list"
  tcr_Description :: string
  tcr_Language :: string

record template_update_request =
  tur_Name :: string
  tur_Channel :: string
  tur_Type :: string
  tur_Subject :: string
  tur_Body :: string
  tur_Variables :: "string list option"
  tur_Description :: string
  tur_Language :: string
  tur_IsActive :: "bool option"

definition CommunicationService_CreateTemplate :: "uuid \<Rightarrow> template_create_request \<Rightarrow> comm_template app" where
  "CommunicationService_CreateTemplate tenantID req =
     go_guard (\<not> channel_ok (tcr_Channel req)) ErrInvalidChannel (
     go_bind now (\<lambda>t. go_bind uuid_New (\<lambda>i.
     let template = \<lparr>ID = i, CreatedAt = t, UpdatedAt = t, DeletedAt = None, TenantID = tenantID,
       ct_Name = tcr_Name req, ct_Channel = tcr_Channel req, ct_Type = tcr_Type req,
       ct_Subject = opt_str (tcr_Subject req), ct_Body = tcr_Body req, ct_Variables = tcr_Variables req,
       ct_IsActive = True, ct_IsSystem = False, ct_Description = opt_str (tcr_Description req),
       ct_Language = (if tcr_Language req = [] then ''id'' else tcr_Language req)\<rparr> in
     go_bind (CommunicationRepository_CreateTemplate template) (\<lambda>_. go_ret template))))"

record template_definition =
  td_Name :: string
  td_Channel :: string
  td_Type :: string
  td_Subject :: string
  td_Body :: string
  td_Variables :: "string list"
  td_Description :: string

definition quote :: string where
  "quote = [CHR 0x22]"

definition standard_variables :: "string list" where
  "standard_variables = [''guest_name'', ''event_name'', ''event_date'', ''event_time'', ''rsvp_link'']"

definition DefaultInvitationTemplates :: "template_definition list" where
  "DefaultInvitationTemplates =
    [\<lparr>td_Name = ''Undangan Standar WhatsApp'', td_Channel = ChannelWhatsApp, td_Type = MsgTypeInvitation, td_Subject = [],
      td_Body = ''Halo {{guest_name}},'' @ newline @ newline
        @ ''Anda kami undang ke acara {{event_name}} pada {{event_date}} pukul {{event_time}}.'' @ newline @ newline
        @ ''Konfirmasi kehadiran dan lihat detail undangan:'' @ newline @ ''{{rsvp_link}}'' @ newline @ newline @ ''Terima kasih.'',
      td_Variables = standard_variables, td_Description = ''Template undangan standar melalui WhatsApp.''\<rparr>,
     \<lparr>td_Name = ''Undangan Standar Email'', td_Channel = ChannelEmail, td_Type = MsgTypeInvitation,
      td_Subject = ''Undangan {{event_name}} untuk {{guest_name}}'',
      td_Body = ''<!doctype html><html><body><p>Halo {{guest_name}},</p><p>Dengan hormat, kami mengundang Anda ke acara <strong>{{event_name}}</strong>.</p><p>Tanggal: {{event_date}}<br>Waktu: {{event_time}}</p><p><a href=''
        @ quote @ ''{{rsvp_link}}'' @ quote @ ''>Lihat undangan dan konfirmasi kehadiran</a></p><p>Terima kasih.</p></body></html>'',
      td_Variables = standard_variables, td_Description = ''Template undangan standar melalui email.''\<rparr>]"

definition DefaultRSVPReminderTemplateWhatsApp :: string where
  "DefaultRSVPReminderTemplateWhatsApp = ''Pengingat RSVP WhatsApp''"

definition DefaultRSVPReminderTemplateEmail :: string where
  "DefaultRSVPReminderTemplateEmail = ''Pengingat RSVP Email''"

definition DefaultRSVPReminderTemplates :: "template_definition list" where
  "DefaultRSVPReminderTemplates =
    [\<lparr>td_Name = DefaultRSVPReminderTemplateWhatsApp, td_Channel = ChannelWhatsApp, td_Type = MsgTypeRSVPFollowUp, td_Subject = [],
      td_Body = ''Halo {{guest_name}},'' @ newline @ newline
        @ ''Kami menunggu konfirmasi kehadiran Anda untuk acara {{event_name}} pada {{event_date}} pukul {{event_time}}.''
        @ newline @ newline @ ''Mohon konfirmasi melalui tautan berikut:'' @ newline @ ''{{rsvp_link}}'' @ newline @ newline
        @ ''Terima kasih.'',
      td_Variables = standard_variables, td_Description = ''Template pengingat konfirmasi RSVP melalui WhatsApp.''\<rparr>,
     \<lparr>td_Name = DefaultRSVPReminderTemplateEmail, td_Channel = ChannelEmail, td_Type = MsgTypeRSVPFollowUp,
      td_Subject = ''Pengingat Konfirmasi Kehadiran {{event_name}}'',
      td_Body = ''<!doctype html><html><body><p>Halo {{guest_name}},</p><p>Kami menunggu konfirmasi kehadiran Anda untuk acara <strong>{{event_name}}</strong>.</p><p>Tanggal: {{event_date}}<br>Waktu: {{event_time}}</p><p><a href=''
        @ quote @ ''{{rsvp_link}}'' @ quote @ ''>Konfirmasi kehadiran Anda di sini</a></p><p>Terima kasih.</p></body></html>'',
      td_Variables = standard_variables, td_Description = ''Template pengingat konfirmasi RSVP melalui email.''\<rparr>]"

definition default_request :: "template_definition \<Rightarrow> template_create_request" where
  "default_request td = \<lparr>tcr_Name = td_Name td, tcr_Channel = td_Channel td, tcr_Type = td_Type td,
     tcr_Subject = td_Subject td, tcr_Body = td_Body td, tcr_Variables = td_Variables td,
     tcr_Description = td_Description td, tcr_Language = ''id''\<rparr>"

fun generate_templates :: "uuid \<Rightarrow> template_definition list \<Rightarrow> comm_template list app" where
  "generate_templates tenantID [] = go_ret []"
| "generate_templates tenantID (td # tds) =
     go_try (CommunicationRepository_GetTemplateByKey tenantID (td_Name td) (td_Channel td) (td_Type td)) (\<lambda>r. case r of
       Inr existing \<Rightarrow> go_bind (generate_templates tenantID tds) (\<lambda>ts. go_ret (existing # ts))
     | Inl e \<Rightarrow> go_guard (e \<noteq> ErrTemplateNotFound) e (
         go_bind (CommunicationService_CreateTemplate tenantID (default_request td)) (\<lambda>template.
         go_bind (CommunicationRepository_MarkTemplateSystem tenantID (ID template)) (\<lambda>_.
         go_bind (generate_templates tenantID tds) (\<lambda>ts. go_ret (template\<lparr>ct_IsSystem := True\<rparr> # ts))))))"

definition CommunicationService_GenerateDefaultInvitationTemplates :: "uuid \<Rightarrow> comm_template list app" where
  "CommunicationService_GenerateDefaultInvitationTemplates tenantID =
     generate_templates tenantID (DefaultInvitationTemplates @ DefaultRSVPReminderTemplates)"

definition CommunicationService_GetTemplate :: "uuid \<Rightarrow> uuid \<Rightarrow> comm_template app" where
  "CommunicationService_GetTemplate tenantID templateID = CommunicationRepository_GetTemplate tenantID templateID"

definition apply_template_update :: "template_update_request \<Rightarrow> comm_template \<Rightarrow> comm_template" where
  "apply_template_update req t = t\<lparr>
     ct_Name := (if tur_Name req \<noteq> [] then tur_Name req else ct_Name t),
     ct_Channel := (if tur_Channel req \<noteq> [] then tur_Channel req else ct_Channel t),
     ct_Type := (if tur_Type req \<noteq> [] then tur_Type req else ct_Type t),
     ct_Subject := set_str (tur_Subject req) (ct_Subject t),
     ct_Body := (if tur_Body req \<noteq> [] then tur_Body req else ct_Body t),
     ct_Variables := (case tur_Variables req of None \<Rightarrow> ct_Variables t | Some vs \<Rightarrow> vs),
     ct_Description := set_str (tur_Description req) (ct_Description t),
     ct_Language := (if tur_Language req \<noteq> [] then tur_Language req else ct_Language t),
     ct_IsActive := (case tur_IsActive req of None \<Rightarrow> ct_IsActive t | Some b \<Rightarrow> b)\<rparr>"

definition CommunicationService_UpdateTemplate :: "uuid \<Rightarrow> uuid \<Rightarrow> template_update_request \<Rightarrow> comm_template app" where
  "CommunicationService_UpdateTemplate tenantID templateID req =
     go_bind (CommunicationRepository_GetTemplate tenantID templateID) (\<lambda>t0. go_bind now (\<lambda>tm.
     let template = (apply_template_update req t0)\<lparr>UpdatedAt := tm\<rparr> in
     go_bind (CommunicationRepository_UpdateTemplate template) (\<lambda>_. go_ret template)))"

definition CommunicationService_DeleteTemplate :: "uuid \<Rightarrow> uuid \<Rightarrow> unit app" where
  "CommunicationService_DeleteTemplate tenantID templateID = CommunicationRepository_SoftDeleteTemplate tenantID templateID"

definition page_bounds :: "int \<Rightarrow> int \<Rightarrow> int \<times> int" where
  "page_bounds page perPage = (if page < 1 then 1 else page,
     if perPage < 1 then 20 else if 100 < perPage then 100 else perPage)"

definition CommunicationService_ListTemplates ::
  "uuid \<Rightarrow> string \<Rightarrow> string \<Rightarrow> bool option \<Rightarrow> int \<Rightarrow> int \<Rightarrow> (comm_template list \<times> int) app" where
  "CommunicationService_ListTemplates tenantID channel msgType isActive page perPage =
     (let p = \<lparr>tlp_TenantID = tenantID, tlp_Channel = channel, tlp_Type = msgType, tlp_IsActive = isActive,
        tlp_Page = fst (page_bounds page perPage), tlp_PerPage = snd (page_bounds page perPage)\<rparr> in
      go_bind (CommunicationRepository_ListTemplatesByTenant p) (\<lambda>ts.
      go_bind (CommunicationRepository_CountTemplatesByTenant p) (\<lambda>n. go_ret (ts, n))))"

definition CommunicationService_GetTemplatesForEvent :: "uuid \<Rightarrow> string \<Rightarrow> string \<Rightarrow> comm_template list app" where
  "CommunicationService_GetTemplatesForEvent tenantID channel msgType = CommunicationRepository_ListTemplatesByTenant
     \<lparr>tlp_TenantID = tenantID, tlp_Channel = channel, tlp_Type = msgType, tlp_IsActive = Some True,
      tlp_Page = 1, tlp_PerPage = 100\<rparr>"

section \<open>Rendering\<close>

text \<open>\<open>varPattern\<close>: two braces, one or more word characters, two braces.\<close>

definition word_char :: "char \<Rightarrow> bool" where
  "word_char c \<longleftrightarrow> (let n = of_char c :: nat in 48 \<le> n \<and> n \<le> 57 \<or> 65 \<le> n \<and> n \<le> 90 \<or> 97 \<le> n \<and> n \<le> 122 \<or> n = 95)"

definition placeholder :: "string \<Rightarrow> (string \<times> string) option" where
  "placeholder s = (case strip_prefix ''{{'' s of None \<Rightarrow> None | Some r \<Rightarrow>
     (case takeWhile word_char r of [] \<Rightarrow> None
      | c # cs \<Rightarrow> map_option (Pair (c # cs)) (strip_prefix ''}}'' (dropWhile word_char r))))"

function RenderTemplate :: "string \<Rightarrow> (string \<Rightarrow> string option) \<Rightarrow> string" where
  "RenderTemplate [] vars = []"
| "RenderTemplate (c # s) vars = (case placeholder (c # s) of
       Some (name, rest) \<Rightarrow>
         (case vars name of Some v \<Rightarrow> v | None \<Rightarrow> ''{{'' @ name @ ''}}'') @ RenderTemplate rest vars
     | None \<Rightarrow> c # RenderTemplate s vars)"
  by pat_completeness auto

text \<open>The names that stand in a template, in the order of the replacements.\<close>

function placeholders :: "string \<Rightarrow> string list" where
  "placeholders [] = []"
| "placeholders (c # s) = (case placeholder (c # s) of Some (name, rest) \<Rightarrow> name # placeholders rest
     | None \<Rightarrow> placeholders s)"
  by pat_completeness auto

lemma placeholder_eq:
  assumes "placeholder s = Some (name, rest)"
  shows "s = ''{{'' @ name @ ''}}'' @ rest" and "name \<noteq> []" and "list_all word_char name"
proof -
  obtain r where r: "s = ''{{'' @ r" "takeWhile word_char r = name" "name \<noteq> []"
    "strip_prefix ''}}'' (dropWhile word_char r) = Some rest"
  proof (cases "strip_prefix ''{{'' s")
    case None
    with assms show ?thesis by (simp add: placeholder_def)
  next
    case (Some r)
    with assms show ?thesis
      by (cases "takeWhile word_char r") (auto simp: placeholder_def strip_prefix_Some intro!: that [of r])
  qed
  then have "dropWhile word_char r = ''}}'' @ rest" by (simp add: strip_prefix_Some)
  with r(2) have "r = name @ ''}}'' @ rest" by (metis takeWhile_dropWhile_id)
  with r show "s = ''{{'' @ name @ ''}}'' @ rest" "name \<noteq> []" by simp_all
  show "list_all word_char name" using r(2) set_takeWhileD by (fastforce simp: list_all_iff)
qed

termination RenderTemplate
  by (relation "measure (\<lambda>(s, vars). length s)") (auto dest!: placeholder_eq(1))

termination placeholders
  by (relation "measure length") (auto dest!: placeholder_eq(1))

record comm_env =
  ce_gowa :: gowa_env
  ce_whatsapp :: "whatsapp_client option"
  ce_provider :: "whatsapp_config option"
  ce_mailer :: "mail_env option"
  ce_baseURL :: string
  ce_date :: "time \<Rightarrow> string"
  ce_clock :: "time \<Rightarrow> string"
  ce_lower :: "string \<Rightarrow> string"

text \<open>\<open>strings.Replace(s, old, new, 1)\<close> and \<open>strings.TrimSuffix\<close>.\<close>

fun replace_first :: "string \<Rightarrow> string \<Rightarrow> string \<Rightarrow> string" where
  "replace_first old new [] = (if old = [] then new else [])"
| "replace_first old new (c # s) = (case strip_prefix old (c # s) of Some r \<Rightarrow> new @ r | None \<Rightarrow> c # replace_first old new s)"

definition TrimSuffix :: "string \<Rightarrow> string \<Rightarrow> string" where
  "TrimSuffix x s = (case strip_prefix (rev x) (rev s) of None \<Rightarrow> s | Some r \<Rightarrow> rev r)"

definition invitation_link :: "string \<Rightarrow> invitation option \<Rightarrow> string" where
  "invitation_link baseURL invitation = (case invitation of None \<Rightarrow> baseURL
     | Some iv \<Rightarrow> if inv_URL iv \<noteq> [] then replace_first ''/rsvp/'' ''/i/'' (inv_URL iv)
         else if inv_Token iv \<noteq> [] then TrimSuffix ''/'' baseURL @ ''/i/'' @ inv_Token iv
         else baseURL)"

definition set_opt :: "string \<Rightarrow> string option \<Rightarrow> (string \<Rightarrow> string option) \<Rightarrow> string \<Rightarrow> string option" where
  "set_opt k v m = (case v of None \<Rightarrow> m | Some x \<Rightarrow> m(k \<mapsto> x))"

definition BuildRenderVariables ::
  "comm_env \<Rightarrow> guest \<Rightarrow> event \<Rightarrow> invitation option \<Rightarrow> string \<Rightarrow> string option" where
  "BuildRenderVariables s guest event invitation =
     (let name = (case g_Nickname guest of None \<Rightarrow> g_FullName guest
            | Some n \<Rightarrow> if n = [] then g_FullName guest else n);
          link = invitation_link (ce_baseURL s) invitation;
          m = set_opt ''guest_title'' (g_Title guest) [''guest_name'' \<mapsto> name];
          m = m(''guest_type'' \<mapsto> g_GuestType guest);
          m = set_opt ''guest_email'' (g_Email guest) (set_opt ''guest_phone'' (g_Phone guest) m);
          m = m(''event_name'' \<mapsto> ev_Name event, ''event_date'' \<mapsto> ce_date s (ev_StartDate event),
                ''event_time'' \<mapsto> ce_clock s (ev_StartDate event));
          m = set_opt ''event_end_time'' (map_option (ce_clock s) (ev_EndDate event)) m;
          m = set_opt ''dress_code'' (ev_DressCode event) m in
      m(''rsvp_link'' \<mapsto> link, ''invitation_url'' \<mapsto> link))"

section \<open>Sending\<close>

definition CommunicationRepository_CreateMessage :: "comm_message \<Rightarrow> unit app" where
  "CommunicationRepository_CreateMessage m = go_bind (exec (insert_message m)) (\<lambda>_. go_ret ())"

definition message_key :: "uuid \<Rightarrow> uuid \<Rightarrow> comm_message \<Rightarrow> bool" where
  "message_key t i r \<longleftrightarrow> ID r = i \<and> TenantID r = t"

definition CommunicationRepository_GetMessage :: "uuid \<Rightarrow> uuid \<Rightarrow> comm_message app" where
  "CommunicationRepository_GetMessage t i =
     get_one ErrMessageNotFound (\<lambda>d. find (message_key t i) (communication_messages d))"

definition CommunicationRepository_GetMessageByExternalID :: "string \<Rightarrow> comm_message app" where
  "CommunicationRepository_GetMessageByExternalID externalID = get_one ErrMessageNotFound (\<lambda>d. first_row
     (sort_key (\<lambda>r. - CreatedAt r) (filter (\<lambda>r. cm_ExternalID r = Some externalID) (communication_messages d))))"

text \<open>The columns that \<open>UpdateMessageStatus\<close> writes; a row that is not there is no error.\<close>

record delivery =
  dl_Status :: string
  dl_SentAt :: "time option"
  dl_DeliveredAt :: "time option"
  dl_ReadAt :: "time option"
  dl_FailedAt :: "time option"
  dl_ErrorMessage :: "string option"
  dl_ExternalID :: "string option"
  dl_HTTPStatus :: "int option"
  dl_Cost :: "float64 option"

definition deliver :: "delivery \<Rightarrow> time \<Rightarrow> comm_message \<Rightarrow> comm_message" where
  "deliver dl t r = r\<lparr>cm_Status := dl_Status dl, cm_SentAt := dl_SentAt dl, cm_DeliveredAt := dl_DeliveredAt dl,
     cm_ReadAt := dl_ReadAt dl, cm_FailedAt := dl_FailedAt dl, cm_ErrorMessage := dl_ErrorMessage dl,
     cm_ExternalID := dl_ExternalID dl, cm_ProviderHTTPStatus := dl_HTTPStatus dl, cm_Cost := dl_Cost dl, UpdatedAt := t\<rparr>"

definition CommunicationRepository_UpdateMessageStatus :: "uuid \<Rightarrow> uuid \<Rightarrow> delivery \<Rightarrow> unit app" where
  "CommunicationRepository_UpdateMessageStatus t i dl = go_bind now (\<lambda>tm.
     go_bind (exec (\<lambda>srv d. if \<not> message_status_ok (dl_Status dl) \<and> list_ex (message_key t i) (communication_messages d) then None
       else Some (sql_update communication_messages put_communication_messages (message_key t i) (deliver dl tm) d)))
     (\<lambda>_. go_ret ()))"

text \<open>
  \<open>prepareWhatsApp\<close>: the client with the configuration of the tenant in it, which the calls after it use.
  The environment's client stands for the memory of the process; an entry of the tenant is set before
  it is read wherever there is a provider.
\<close>

definition CommunicationService_prepareWhatsApp :: "comm_env \<Rightarrow> uuid \<Rightarrow> whatsapp_client app" where
  "CommunicationService_prepareWhatsApp s tenantID = (case ce_whatsapp s of None \<Rightarrow> go_fail ErrWhatsAppNotConfigured
     | Some c \<Rightarrow>
       go_bind (case ce_provider s of None \<Rightarrow> go_ret c | Some fallback \<Rightarrow>
           go_bind (ResolveWhatsAppConfig (ce_gowa s) fallback tenantID) (\<lambda>cfg. go_ret (SetTenantConfig tenantID cfg c))) (\<lambda>c.
       go_guard (\<not> ConfiguredFor tenantID c) ErrWhatsAppNotConfigured (go_ret c)))"

definition failed_delivery :: "time \<Rightarrow> string \<Rightarrow> int option \<Rightarrow> delivery" where
  "failed_delivery t text code = \<lparr>dl_Status = MessageStatusFailed, dl_SentAt = None, dl_DeliveredAt = None, dl_ReadAt = None,
     dl_FailedAt = Some t, dl_ErrorMessage = Some text, dl_ExternalID = None, dl_HTTPStatus = code, dl_Cost = None\<rparr>"

definition sent_delivery :: "time \<Rightarrow> string option \<Rightarrow> int option \<Rightarrow> delivery" where
  "sent_delivery t external code = \<lparr>dl_Status = MessageStatusSent, dl_SentAt = Some t, dl_DeliveredAt = None, dl_ReadAt = None,
     dl_FailedAt = None, dl_ErrorMessage = None, dl_ExternalID = external, dl_HTTPStatus = code, dl_Cost = None\<rparr>"

definition provider_status :: "send_error \<Rightarrow> int option" where
  "provider_status e = (case e of ProviderError code _ \<Rightarrow> if 0 < code then Some code else None | _ \<Rightarrow> None)"

text \<open>The outcome of one attempt through the gateway, as it is recorded.\<close>

definition whatsapp_delivery ::
  "comm_env \<Rightarrow> whatsapp_client \<Rightarrow> uuid \<Rightarrow> string \<Rightarrow> string \<Rightarrow> delivery app" where
  "whatsapp_delivery s c tenantID phone body =
     go_bind (SendFor (ce_gowa s) c tenantID phone body) (\<lambda>r. go_bind now (\<lambda>t. go_ret (case r of
       Inl e \<Rightarrow> failed_delivery t (send_error_text e) (provider_status e)
     | Inr receipt \<Rightarrow> sent_delivery (case sr_SentAt receipt of None \<Rightarrow> t | Some x \<Rightarrow> x)
         (opt_str (sr_ExternalID receipt)) (Some (sr_HTTPStatus receipt)))))"

text \<open>The fields that a message shows after its delivery; \<open>updated_at\<close> is that of the row alone.\<close>

definition show_delivery :: "delivery \<Rightarrow> comm_message \<Rightarrow> comm_message" where
  "show_delivery dl m = (if dl_Status dl = MessageStatusFailed
     then m\<lparr>cm_Status := MessageStatusFailed, cm_FailedAt := dl_FailedAt dl, cm_ErrorMessage := dl_ErrorMessage dl,
       cm_ProviderHTTPStatus := dl_HTTPStatus dl\<rparr>
     else m\<lparr>cm_Status := MessageStatusSent, cm_SentAt := dl_SentAt dl, cm_ExternalID := dl_ExternalID dl,
       cm_ProviderHTTPStatus := dl_HTTPStatus dl\<rparr>)"

definition CommunicationService_dispatchWhatsApp ::
  "comm_env \<Rightarrow> whatsapp_client \<Rightarrow> uuid \<Rightarrow> comm_message \<Rightarrow> string \<Rightarrow> string \<Rightarrow> comm_message app" where
  "CommunicationService_dispatchWhatsApp s c tenantID msg phone body =
     go_bind (whatsapp_delivery s c tenantID phone body) (\<lambda>dl.
     go_bind (CommunicationRepository_UpdateMessageStatus tenantID (ID msg) dl) (\<lambda>_. go_ret (show_delivery dl msg)))"

definition email_delivery :: "comm_env \<Rightarrow> string \<Rightarrow> string \<Rightarrow> string \<Rightarrow> delivery app" where
  "email_delivery s recipient subject body =
     go_bind (case ce_mailer s of None \<Rightarrow> go_ret (Some ''email delivery is not configured'')
       | Some m \<Rightarrow> smtp_send m recipient subject body
           (if str_contains ''<html'' (ce_lower s body) then ''text/html'' else ''text/plain'')) (\<lambda>e.
     go_bind now (\<lambda>t. go_ret (case e of Some text \<Rightarrow> failed_delivery t text None | None \<Rightarrow> sent_delivery t None None)))"

definition CommunicationService_dispatchEmail ::
  "comm_env \<Rightarrow> uuid \<Rightarrow> comm_message \<Rightarrow> string \<Rightarrow> string \<Rightarrow> string \<Rightarrow> comm_message app" where
  "CommunicationService_dispatchEmail s tenantID msg recipient subject body =
     go_bind (email_delivery s recipient subject body) (\<lambda>dl.
     go_bind (CommunicationRepository_UpdateMessageStatus tenantID (ID msg) dl) (\<lambda>_. go_ret (show_delivery dl msg)))"

definition or_empty :: "string option \<Rightarrow> string" where
  "or_empty v = (case v of None \<Rightarrow> [] | Some x \<Rightarrow> x)"

text \<open>
  What follows the creation of a message, by its channel; a message of another channel stays queued.
\<close>

definition dispatch ::
  "comm_env \<Rightarrow> whatsapp_client \<Rightarrow> uuid \<Rightarrow> guest \<Rightarrow> comm_message \<Rightarrow> comm_message app" where
  "dispatch s c tenantID guest msg =
     (if cm_Channel msg = ChannelWhatsApp then
        CommunicationService_dispatchWhatsApp s c tenantID msg (or_empty (g_Phone guest)) (cm_Body msg)
      else if cm_Channel msg = ChannelEmail then
        CommunicationService_dispatchEmail s tenantID msg (TrimSpace (or_empty (g_Email guest)))
          (or_empty (cm_Subject msg)) (cm_Body msg)
      else go_ret msg)"

definition queued_message ::
  "uuid \<Rightarrow> time \<Rightarrow> uuid \<Rightarrow> uuid \<Rightarrow> uuid \<Rightarrow> uuid option \<Rightarrow> uuid option \<Rightarrow> uuid option \<Rightarrow> string \<Rightarrow> string \<Rightarrow> string option \<Rightarrow> string
     \<Rightarrow> comm_message" where
  "queued_message i t tenantID eventID guestID eg iv campaign channel msgType subject body =
     \<lparr>ID = i, CreatedAt = t, UpdatedAt = t, DeletedAt = None, TenantID = tenantID, EventID = eventID, GuestID = guestID,
      cm_CampaignID = campaign, cm_EventGuestID = eg, cm_InvitationID = iv, cm_Channel = channel, cm_Type = msgType,
      cm_Subject = subject, cm_Body = body, cm_Status = MessageStatusQueued, cm_SentAt = None, cm_DeliveredAt = None,
      cm_ReadAt = None, cm_FailedAt = None, cm_ErrorMessage = None, cm_ExternalID = None, cm_ProviderHTTPStatus = None,
      cm_Cost = None\<rparr>"

record send_message_request =
  smr_GuestIDs :: "uuid list"
  smr_TemplateID :: uuid
  smr_Variables :: jsonmap

text \<open>The variables of the request that are strings, over those of the guest.\<close>

definition override_vars :: "jsonmap \<Rightarrow> (string \<Rightarrow> string option) \<Rightarrow> string \<Rightarrow> string option" where
  "override_vars vs m = (\<lambda>k. case map_of vs k of Some (JString x) \<Rightarrow> Some x | _ \<Rightarrow> m k)"

definition roster_and_guest :: "uuid \<Rightarrow> uuid \<Rightarrow> uuid \<Rightarrow> (event_guest \<times> guest) app" where
  "roster_and_guest tenantID eventID guestID =
     go_try (EventGuestRepository_GetByEventAndGuest tenantID eventID guestID) (\<lambda>r. case r of
       Inl _ \<Rightarrow> go_fail ErrInvalidInput
     | Inr eg \<Rightarrow> go_bind (GuestRepository_GetByIDForTenant tenantID guestID) (\<lambda>g. go_ret (eg, g)))"

text \<open>The check of a whole WhatsApp batch before anything is created.\<close>

fun check_batch :: "uuid \<Rightarrow> uuid \<Rightarrow> uuid list \<Rightarrow> (event_guest \<times> guest) list app" where
  "check_batch tenantID eventID [] = go_ret []"
| "check_batch tenantID eventID (g # gs) =
     go_bind (roster_and_guest tenantID eventID g) (\<lambda>p.
     case NormalizePhone (or_empty (g_Phone (snd p))) of Inl e \<Rightarrow> go_fail (send_sentinel e)
     | Inr _ \<Rightarrow> go_bind (check_batch tenantID eventID gs) (\<lambda>ps. go_ret (p # ps)))"

definition latest_invitation :: "uuid \<Rightarrow> uuid \<Rightarrow> invitation option app" where
  "latest_invitation eventID guestID = go_try (InvitationRepository_GetByEventAndGuest eventID guestID)
     (\<lambda>r. go_ret (case r of Inl _ \<Rightarrow> None | Inr iv \<Rightarrow> Some iv))"

text \<open>One message of the batch, for a guest on the roster; \<open>t\<close> is the time the batch was started at.\<close>

definition send_one ::
  "comm_env \<Rightarrow> whatsapp_client \<Rightarrow> uuid \<Rightarrow> event \<Rightarrow> comm_template \<Rightarrow> jsonmap \<Rightarrow> time \<Rightarrow> uuid \<Rightarrow> event_guest \<times> guest
     \<Rightarrow> comm_message app" where
  "send_one s c tenantID event template vs t guestID = (\<lambda>(eg, guest).
     go_bind (latest_invitation (ID event) guestID) (\<lambda>invitation.
     let vars = override_vars vs (BuildRenderVariables s guest event invitation);
         body = RenderTemplate (ct_Body template) vars in
     go_bind uuid_New (\<lambda>i.
     let msg = queued_message i t tenantID (ID event) guestID (Some (ID eg)) (map_option ID invitation) None
       (ct_Channel template) (ct_Type template) (map_option (\<lambda>x. RenderTemplate x vars) (ct_Subject template)) body in
     go_bind (CommunicationRepository_CreateMessage msg) (\<lambda>_. dispatch s c tenantID guest msg))))"

fun send_prepared ::
  "comm_env \<Rightarrow> whatsapp_client \<Rightarrow> uuid \<Rightarrow> event \<Rightarrow> comm_template \<Rightarrow> jsonmap \<Rightarrow> time
     \<Rightarrow> (uuid \<times> event_guest \<times> guest) list \<Rightarrow> comm_message list app" where
  "send_prepared s c tenantID event template vs t [] = go_ret []"
| "send_prepared s c tenantID event template vs t (p # ps) =
     go_bind (send_one s c tenantID event template vs t (fst p) (snd p)) (\<lambda>m.
     go_bind (send_prepared s c tenantID event template vs t ps) (\<lambda>ms. go_ret (m # ms)))"

text \<open>Where no message goes through the gateway, the client is not looked at.\<close>

definition no_client :: whatsapp_client where
  "no_client = \<lparr>wc_cfg = empty_config, wc_tenantCfg = (\<lambda>_. None)\<rparr>"

fun send_unprepared ::
  "comm_env \<Rightarrow> uuid \<Rightarrow> event \<Rightarrow> comm_template \<Rightarrow> jsonmap \<Rightarrow> time \<Rightarrow> uuid list \<Rightarrow> comm_message list app" where
  "send_unprepared s tenantID event template vs t [] = go_ret []"
| "send_unprepared s tenantID event template vs t (g # gs) =
     go_bind (roster_and_guest tenantID (ID event) g) (\<lambda>p.
     go_bind (send_one s no_client tenantID event template vs t g p) (\<lambda>m.
     go_bind (send_unprepared s tenantID event template vs t gs) (\<lambda>ms. go_ret (m # ms))))"

definition CommunicationService_SendMessage ::
  "comm_env \<Rightarrow> uuid \<Rightarrow> uuid \<Rightarrow> send_message_request \<Rightarrow> comm_message list app" where
  "CommunicationService_SendMessage s tenantID eventID req =
     go_bind (CommunicationRepository_GetTemplate tenantID (smr_TemplateID req)) (\<lambda>template.
     go_guard (\<not> ct_IsActive template) ErrTemplateInactive (
     go_bind (EventRepository_GetByIDForTenant eventID tenantID) (\<lambda>event.
     go_bind now (\<lambda>t.
     if ct_Channel template = ChannelWhatsApp then
       go_bind (CommunicationService_prepareWhatsApp s tenantID) (\<lambda>c.
       go_bind (check_batch tenantID eventID (smr_GuestIDs req)) (\<lambda>ps.
       send_prepared s c tenantID event template (smr_Variables req) t (zip (smr_GuestIDs req) ps)))
     else send_unprepared s tenantID event template (smr_Variables req) t (smr_GuestIDs req)))))"

definition CommunicationService_RetryMessage :: "comm_env \<Rightarrow> uuid \<Rightarrow> uuid \<Rightarrow> uuid \<Rightarrow> comm_message app" where
  "CommunicationService_RetryMessage s tenantID eventID messageID =
     go_bind (CommunicationRepository_GetMessage tenantID messageID) (\<lambda>original.
     go_guard (EventID original \<noteq> eventID) ErrMessageNotFound (
     go_guard (cm_Status original \<noteq> MessageStatusFailed) ErrInvalidInput (
     go_bind (EventGuestRepository_GetByEventAndGuest tenantID eventID (GuestID original)) (\<lambda>eg.
     go_bind (GuestRepository_GetByIDForTenant tenantID (GuestID original)) (\<lambda>guest.
     go_bind (if cm_Channel original = ChannelWhatsApp then CommunicationService_prepareWhatsApp s tenantID
              else go_ret no_client) (\<lambda>c.
     go_bind now (\<lambda>t. go_bind uuid_New (\<lambda>i.
     let attempt = queued_message i t tenantID eventID (GuestID original) (Some (ID eg)) (cm_InvitationID original)
       (cm_CampaignID original) (cm_Channel original) (cm_Type original) (cm_Subject original) (cm_Body original) in
     go_bind (CommunicationRepository_CreateMessage attempt) (\<lambda>_.
     go_guard (cm_Channel original \<noteq> ChannelWhatsApp \<and> cm_Channel original \<noteq> ChannelEmail) ErrInvalidChannel (
     dispatch s c tenantID guest attempt))))))))))"

section \<open>Receipts\<close>

text \<open>\<open>hex.DecodeString\<close> and HMAC (RFC 2104) with SHA-256, whose block has 64 bytes.\<close>

definition from_hex :: "char \<Rightarrow> byte option" where
  "from_hex c = (let n = of_char c :: nat in
     if 48 \<le> n \<and> n \<le> 57 then Some (of_nat (n - 48))
     else if 97 \<le> n \<and> n \<le> 102 then Some (of_nat (n - 87))
     else if 65 \<le> n \<and> n \<le> 70 then Some (of_nat (n - 55)) else None)"

fun hex_DecodeString :: "string \<Rightarrow> byte list option" where
  "hex_DecodeString [] = Some []"
| "hex_DecodeString [c] = None"
| "hex_DecodeString (a # b # s) = (case (from_hex a, from_hex b, hex_DecodeString s) of
     (Some x, Some y, Some bs) \<Rightarrow> Some ((push_bit 4 x OR y) # bs) | _ \<Rightarrow> None)"

definition hmac_block :: "byte list \<Rightarrow> byte list" where
  "hmac_block key = (let k = (if 64 < length key then sha256_Sum key else key) in k @ replicate (64 - length k) 0)"

definition hmac_sha256 :: "byte list \<Rightarrow> byte list \<Rightarrow> byte list" where
  "hmac_sha256 key message = (let k = hmac_block key in
     sha256_Sum (map (\<lambda>b. b XOR 0x5C) k @ sha256_Sum (map (\<lambda>b. b XOR 0x36) k @ message)))"

definition verifyGOWASignature :: "string \<Rightarrow> string \<Rightarrow> string \<Rightarrow> bool" where
  "verifyGOWASignature secret body header = (case strip_prefix ''sha256='' (TrimSpace header) of None \<Rightarrow> False
     | Some h \<Rightarrow> (case hex_DecodeString h of None \<Rightarrow> False
         | Some want \<Rightarrow> want = hmac_sha256 (bytes_of secret) (bytes_of body)))"

record gowa_payload =
  gp_Event :: string
  gp_Timestamp :: string
  gp_IDs :: "string list"
  gp_ReceiptType :: string

record webhook_env =
  we_secret :: string
  we_decode :: "string \<Rightarrow> gowa_payload option"
  we_time :: "string \<Rightarrow> time option"
  we_lower :: "string \<Rightarrow> string"

text \<open>A receipt that changes nothing: the message is read, has failed, or is delivered once more.\<close>

definition already_acked :: "string \<Rightarrow> comm_message \<Rightarrow> bool" where
  "already_acked status m \<longleftrightarrow> cm_Status m = MessageStatusRead
     \<or> cm_Status m = MessageStatusDelivered \<and> status = MessageStatusDelivered \<or> cm_Status m = MessageStatusFailed"

definition acked :: "string \<Rightarrow> time \<Rightarrow> string \<Rightarrow> comm_message \<Rightarrow> delivery" where
  "acked status ackAt externalID m =
     \<lparr>dl_Status = status, dl_SentAt = cm_SentAt m,
      dl_DeliveredAt = (case cm_DeliveredAt m of None \<Rightarrow> Some ackAt | Some x \<Rightarrow> Some x),
      dl_ReadAt = (if status = MessageStatusRead then Some ackAt else cm_ReadAt m),
      dl_FailedAt = cm_FailedAt m, dl_ErrorMessage = cm_ErrorMessage m, dl_ExternalID = Some externalID,
      dl_HTTPStatus = cm_ProviderHTTPStatus m, dl_Cost = cm_Cost m\<rparr>"

fun apply_acks :: "string \<Rightarrow> time \<Rightarrow> string list \<Rightarrow> nat \<Rightarrow> nat response app" where
  "apply_acks status ackAt [] updated = go_ret (Answered updated)"
| "apply_acks status ackAt (x # xs) updated =
     (if TrimSpace x = [] then apply_acks status ackAt xs updated
      else go_try (CommunicationRepository_GetMessageByExternalID (TrimSpace x)) (\<lambda>r. case r of
        Inl e \<Rightarrow> if e = ErrMessageNotFound then apply_acks status ackAt xs updated
          else go_ret (Refused 500 ''Failed to find message for webhook'')
      | Inr m \<Rightarrow> if already_acked status m then apply_acks status ackAt xs updated
          else go_try (CommunicationRepository_UpdateMessageStatus (TenantID m) (ID m) (acked status ackAt (TrimSpace x) m))
            (\<lambda>r. case r of Inl _ \<Rightarrow> go_ret (Refused 500 ''Failed to update message status'')
             | Inr _ \<Rightarrow> apply_acks status ackAt xs (Suc updated))))"

text \<open>The handler: a body that cannot be read is \<open>None\<close>; at most two megabytes of it are read.\<close>

definition GOWAWebhookHandler_Handle :: "webhook_env \<Rightarrow> string option \<Rightarrow> string \<Rightarrow> nat response app" where
  "GOWAWebhookHandler_Handle s input header =
     (if we_secret s = [] then go_ret (Refused 503 ''GOWA webhook is not configured'')
      else case input of None \<Rightarrow> go_ret (Refused 400 ''Invalid webhook body'')
      | Some sent \<Rightarrow> let body = take (2 * 2 ^ 20) sent in
        if \<not> verifyGOWASignature (we_secret s) body header then go_ret (Refused 401 ''Invalid webhook signature'')
        else case we_decode s body of None \<Rightarrow> go_ret (Refused 400 ''Invalid webhook payload'')
        | Some payload \<Rightarrow>
            let status = we_lower s (TrimSpace (gp_ReceiptType payload)) in
            if gp_Event payload \<noteq> ''message.ack'' \<or> status \<noteq> MessageStatusDelivered \<and> status \<noteq> MessageStatusRead
            then go_ret (Answered 0)
            else go_bind now (\<lambda>t. apply_acks status
              (case we_time s (gp_Timestamp payload) of None \<Rightarrow> t | Some x \<Rightarrow> x) (gp_IDs payload) 0))"

section \<open>Lists and counts of messages\<close>

record message_list_params =
  mlp_TenantID :: uuid
  mlp_EventID :: uuid
  mlp_CampaignID :: "uuid option"
  mlp_GuestID :: "uuid option"
  mlp_Status :: string
  mlp_Page :: int
  mlp_PerPage :: int

definition message_matches :: "message_list_params \<Rightarrow> comm_message \<Rightarrow> bool" where
  "message_matches p r \<longleftrightarrow> TenantID r = mlp_TenantID p \<and> EventID r = mlp_EventID p
     \<and> (mlp_CampaignID p = None \<or> cm_CampaignID r = mlp_CampaignID p)
     \<and> (case mlp_GuestID p of None \<Rightarrow> True | Some g \<Rightarrow> GuestID r = g)
     \<and> (mlp_Status p = [] \<or> cm_Status r = mlp_Status p)"

definition CommunicationRepository_ListMessagesByCampaign :: "message_list_params \<Rightarrow> comm_message list app" where
  "CommunicationRepository_ListMessagesByCampaign p =
     page_of (mlp_Page p) (mlp_PerPage p) (message_matches p) communication_messages"

definition CommunicationRepository_CountMessagesByCampaign :: "message_list_params \<Rightarrow> int app" where
  "CommunicationRepository_CountMessagesByCampaign p =
     query (\<lambda>d. int (count_where (message_matches p) (communication_messages d)))"

definition guest_messages :: "uuid \<Rightarrow> uuid \<Rightarrow> uuid \<Rightarrow> comm_message \<Rightarrow> bool" where
  "guest_messages t e g r \<longleftrightarrow> TenantID r = t \<and> EventID r = e \<and> GuestID r = g"

definition CommunicationRepository_ListMessagesByGuest ::
  "uuid \<Rightarrow> uuid \<Rightarrow> uuid \<Rightarrow> int \<Rightarrow> int \<Rightarrow> comm_message list app" where
  "CommunicationRepository_ListMessagesByGuest t e g page perPage =
     page_of page perPage (guest_messages t e g) communication_messages"

definition CommunicationRepository_CountMessagesByGuest :: "uuid \<Rightarrow> uuid \<Rightarrow> uuid \<Rightarrow> int app" where
  "CommunicationRepository_CountMessagesByGuest t e g =
     query (\<lambda>d. int (count_where (guest_messages t e g) (communication_messages d)))"

definition event_messages :: "uuid \<Rightarrow> uuid \<Rightarrow> comm_message \<Rightarrow> bool" where
  "event_messages t e r \<longleftrightarrow> TenantID r = t \<and> EventID r = e"

text \<open>The groups of \<open>GROUP BY status\<close>: a status that no row has is not in the map.\<close>

definition CommunicationRepository_CountByStatus :: "uuid \<Rightarrow> uuid \<Rightarrow> (string \<Rightarrow> int option) app" where
  "CommunicationRepository_CountByStatus t e = query (\<lambda>d status.
     let n = count_where (\<lambda>r. event_messages t e r \<and> cm_Status r = status) (communication_messages d) in
     if n = 0 then None else Some (int n))"

definition CommunicationRepository_GetRecentMessages :: "uuid \<Rightarrow> uuid \<Rightarrow> int \<Rightarrow> comm_message list app" where
  "CommunicationRepository_GetRecentMessages t e limit = query (\<lambda>d.
     take (nat (if limit < 1 then 10 else limit))
       (sort_key (\<lambda>r. - CreatedAt r) (filter (event_messages t e) (communication_messages d))))"

definition CommunicationService_ListMessages ::
  "uuid \<Rightarrow> uuid \<Rightarrow> uuid option \<Rightarrow> uuid option \<Rightarrow> string \<Rightarrow> int \<Rightarrow> int \<Rightarrow> (comm_message list \<times> int) app" where
  "CommunicationService_ListMessages tenantID eventID campaignID guestID status page perPage =
     (let p = \<lparr>mlp_TenantID = tenantID, mlp_EventID = eventID, mlp_CampaignID = campaignID, mlp_GuestID = guestID,
        mlp_Status = status, mlp_Page = fst (page_bounds page perPage), mlp_PerPage = snd (page_bounds page perPage)\<rparr> in
      go_bind (CommunicationRepository_ListMessagesByCampaign p) (\<lambda>ms.
      go_bind (CommunicationRepository_CountMessagesByCampaign p) (\<lambda>n. go_ret (ms, n))))"

definition CommunicationService_GetMessageStats :: "uuid \<Rightarrow> uuid \<Rightarrow> (string \<Rightarrow> int option) app" where
  "CommunicationService_GetMessageStats tenantID eventID = CommunicationRepository_CountByStatus tenantID eventID"

section \<open>Rendering and signatures\<close>

lemma placeholders_text: "c \<noteq> CHR ''{'' \<Longrightarrow> placeholders (c # s) = placeholders s"
  by (simp add: placeholder_def)

lemma placeholders_brace:
  "placeholders (CHR ''{'' # s) = (case placeholder (CHR ''{'' # s) of Some (name, rest) \<Rightarrow> name # placeholders rest
     | None \<Rightarrow> placeholders s)"
  by simp

lemma default_placeholders:
  "list_all (\<lambda>td. list_all (List.member standard_variables) (placeholders (td_Body td) @ placeholders (td_Subject td)))
     (DefaultInvitationTemplates @ DefaultRSVPReminderTemplates)"
  by (simp add: DefaultInvitationTemplates_def DefaultRSVPReminderTemplates_def placeholders_text placeholders_brace
      quote_def placeholder_def word_char_def standard_variables_def del: placeholders.simps(2))

lemma set_opt_other: "k \<noteq> x \<Longrightarrow> set_opt k v m x = m x"
  by (simp add: set_opt_def split: option.split)

lemma standard_variables_known: "list_all (\<lambda>x. BuildRenderVariables s g e i x \<noteq> None) standard_variables"
  unfolding BuildRenderVariables_def Let_def standard_variables_def
  by (simp only: list.pred_inject fun_upd_apply set_opt_other list.inject char.inject option.distinct simp_thms if_True if_False list.distinct)

lemma hex_nibble:
  assumes "n < 16"
  shows "from_hex (hex_digits ! n) = Some (of_nat n)"
proof -
  have "list_all (\<lambda>n. from_hex (hex_digits ! n) = Some (of_nat n)) [0..<16]" by code_simp
  with assms show ?thesis by (simp add: list_all_iff)
qed

lemma hex_byte_back:
  "\<exists>x y. hex_byte b = [x, y] \<and> from_hex x = Some (drop_bit 4 b) \<and> from_hex y = Some (take_bit 4 b)"
proof -
  have mask: "b AND 0x0F = take_bit 4 b" by (simp add: take_bit_eq_mask mask_eq_exp_minus_1)
  have "unat b < 2 ^ 8" using unsigned_less [of b] by simp
  then have "unat (drop_bit 4 b) < 16" by (simp add: unat_drop_bit_eq) (simp add: drop_bit_eq_div)
  moreover have "unat (take_bit 4 b) < 16" by (simp only: unsigned_take_bit_eq) (simp add: take_bit_eq_mod)
  ultimately show ?thesis by (simp add: hex_byte_def hex_nibble mask)
qed

lemma nibbles_join: "push_bit 4 (drop_bit 4 (b :: byte)) OR take_bit 4 b = b"
  by (rule bit_word_eqI) (auto simp: bit_simps)

lemma hex_Decode_Encode: "hex_DecodeString (hex_EncodeToString bs) = Some bs"
proof (induction bs)
  case Nil
  then show ?case by (simp add: hex_EncodeToString_def)
next
  case (Cons b bs)
  obtain x y where "hex_byte b = [x, y]" "from_hex x = Some (drop_bit 4 b)" "from_hex y = Some (take_bit 4 b)"
    using hex_byte_back by blast
  with Cons show ?case by (simp add: hex_EncodeToString_def nibbles_join)
qed

lemma from_hex_visible: "from_hex c = Some x \<Longrightarrow> visible c"
  by (auto simp: from_hex_def visible_def Let_def split: if_splits)

lemma hex_visible: "c \<in> set (hex_EncodeToString bs) \<Longrightarrow> visible c"
proof -
  assume "c \<in> set (hex_EncodeToString bs)"
  then obtain b where "c \<in> set (hex_byte b)" by (auto simp: hex_EncodeToString_def)
  then show "visible c" using hex_byte_back [of b] by (auto intro: from_hex_visible)
qed

lemma signature_verifies:
  "verifyGOWASignature secret body (''sha256='' @ hex_EncodeToString (hmac_sha256 (bytes_of secret) (bytes_of body)))"
proof -
  let ?h = "hex_EncodeToString (hmac_sha256 (bytes_of secret) (bytes_of body))"
  have "visible (last ?h)" if "?h \<noteq> []" using that by (rule hex_visible [OF last_in_set])
  then have "visible (last (''sha256='' @ ?h))" by (cases "?h = []") (simp_all add: visible_def)
  then have "TrimSpace (''sha256='' @ ?h) = ''sha256='' @ ?h"
    by (intro TrimSpace_visible) (simp add: visible_def)
  moreover have "strip_prefix ''sha256='' (''sha256='' @ ?h) = Some ?h" by (simp only: strip_prefix_Some)
  ultimately show ?thesis unfolding verifyGOWASignature_def by (simp only: option.case hex_Decode_Encode)
qed

section \<open>The life of a message\<close>

text \<open>The states of a delivery, as the status column shows them.\<close>

inductive delivery_step :: "string \<Rightarrow> string \<Rightarrow> bool" where
  send_ok: "delivery_step MessageStatusQueued MessageStatusSent"
| send_failed: "delivery_step MessageStatusQueued MessageStatusFailed"
| got_delivered: "delivery_step MessageStatusSent MessageStatusDelivered"
| got_read: "delivery_step MessageStatusSent MessageStatusRead"
| read_later: "delivery_step MessageStatusDelivered MessageStatusRead"

inductive_cases delivery_step_from: "delivery_step a b"

inductive_simps delivery_step_final: "delivery_step MessageStatusRead b" "delivery_step MessageStatusFailed b"

text \<open>Only columns of the delivery differ, and the status has gone along the steps.\<close>

definition evolves :: "comm_message \<Rightarrow> comm_message \<Rightarrow> bool" where
  "evolves m m' \<longleftrightarrow> (\<exists>dl t. m' = deliver dl t m) \<and> delivery_step\<^sup>*\<^sup>* (cm_Status m) (cm_Status m')"

definition messages_evolve :: "db \<Rightarrow> db \<Rightarrow> bool" where
  "messages_evolve d d' \<longleftrightarrow> (\<exists>old new. communication_messages d' = old @ new
     \<and> list_all2 evolves (communication_messages d) old
     \<and> list_all (\<lambda>m. delivery_step\<^sup>*\<^sup>* MessageStatusQueued (cm_Status m)) new)"

definition messages_ok :: "db \<Rightarrow> bool" where
  "messages_ok d \<longleftrightarrow> distinct (map ID (communication_messages d))
     \<and> (\<forall>m \<in> set (communication_messages d). cm_ExternalID m \<noteq> None
          \<longrightarrow> cm_Status m \<in> {MessageStatusSent, MessageStatusDelivered, MessageStatusRead})"

definition delivers :: "db \<Rightarrow> db \<Rightarrow> bool" where
  "delivers d d' \<longleftrightarrow> (messages_ok d \<longrightarrow> messages_ok d' \<and> messages_evolve d d')"

lemma deliver_same: "m = deliver \<lparr>dl_Status = cm_Status m, dl_SentAt = cm_SentAt m, dl_DeliveredAt = cm_DeliveredAt m,
    dl_ReadAt = cm_ReadAt m, dl_FailedAt = cm_FailedAt m, dl_ErrorMessage = cm_ErrorMessage m,
    dl_ExternalID = cm_ExternalID m, dl_HTTPStatus = cm_ProviderHTTPStatus m, dl_Cost = cm_Cost m\<rparr> (UpdatedAt m) m"
  by (simp add: deliver_def)

lemma deliver_twice: "deliver dl t (deliver dl' t' m) = deliver dl t m"
  by (simp add: deliver_def)

lemma evolves_refl: "evolves m m"
  unfolding evolves_def using deliver_same by blast

lemma evolves_trans: "evolves a b \<Longrightarrow> evolves b c \<Longrightarrow> evolves a c"
  unfolding evolves_def using deliver_twice by (metis rtranclp_trans)

lemma messages_evolveI:
  "communication_messages d' = old @ new \<Longrightarrow> list_all2 evolves (communication_messages d) old
     \<Longrightarrow> list_all (\<lambda>m. delivery_step\<^sup>*\<^sup>* MessageStatusQueued (cm_Status m)) new \<Longrightarrow> messages_evolve d d'"
  unfolding messages_evolve_def by blast

lemma messages_evolve_same: "communication_messages d' = communication_messages d \<Longrightarrow> messages_evolve d d'"
  by (rule messages_evolveI [of _ "communication_messages d" "[]"]) (simp_all add: list_all2_refl evolves_refl)

lemma messages_evolve_trans:
  assumes "messages_evolve a b" and "messages_evolve b c"
  shows "messages_evolve a c"
proof -
  obtain old new where b: "communication_messages b = old @ new" "list_all2 evolves (communication_messages a) old"
    "list_all (\<lambda>m. delivery_step\<^sup>*\<^sup>* MessageStatusQueued (cm_Status m)) new"
    using assms(1) by (auto simp: messages_evolve_def)
  obtain old' new' where c: "communication_messages c = old' @ new'" "list_all2 evolves (old @ new) old'"
    "list_all (\<lambda>m. delivery_step\<^sup>*\<^sup>* MessageStatusQueued (cm_Status m)) new'"
    using assms(2) b(1) by (auto simp: messages_evolve_def)
  obtain o1 n1 where s: "old' = o1 @ n1" "list_all2 evolves old o1" "list_all2 evolves new n1"
    using c(2) by (auto simp: list_all2_append1)
  have "list_all (\<lambda>m. delivery_step\<^sup>*\<^sup>* MessageStatusQueued (cm_Status m)) n1"
    using s(3) b(3) by (induction rule: list_all2_induct) (auto simp: evolves_def)
  moreover have "list_all2 evolves (communication_messages a) o1"
    using list_all2_trans [OF _ b(2) s(2)] evolves_trans by blast
  ultimately show ?thesis
    using c(1,3) s(1) by (intro messages_evolveI [of _ o1 "n1 @ new'"]) simp_all
qed

interpretation deliveries: store_preorder delivers
proof
  fix d :: db
  show "delivers d d"
    by (simp add: delivers_def messages_evolve_same)
next
  fix a b c :: db
  assume "delivers a b" "delivers b c"
  then show "delivers a c" unfolding delivers_def using messages_evolve_trans by blast
qed

lemma delivers_same: "communication_messages d' = communication_messages d \<Longrightarrow> delivers d d'"
  by (simp add: delivers_def messages_ok_def messages_evolve_same)

text \<open>A read that is not of messages, and a write to another table.\<close>

lemma other_tables_deliver: "stays (\<lambda>d d'. communication_messages d' = communication_messages d) m \<Longrightarrow> stays delivers m"
  by (erule stays_mono) (rule delivers_same)

lemma reads_deliver: "stays (=) m \<Longrightarrow> stays delivers m"
  by (erule stays_mono) (simp add: deliveries.R_refl)

subsection \<open>Writes of messages\<close>

definition queued_in :: "uuid \<Rightarrow> db \<Rightarrow> bool" where
  "queued_in i d \<longleftrightarrow> (\<forall>r \<in> set (communication_messages d). ID r = i \<longrightarrow> cm_Status r = MessageStatusQueued)"

definition fresh_message :: "comm_message \<Rightarrow> bool" where
  "fresh_message m \<longleftrightarrow> cm_Status m = MessageStatusQueued \<and> cm_ExternalID m = None"

definition good_delivery :: "delivery \<Rightarrow> bool" where
  "good_delivery dl \<longleftrightarrow> dl_Status dl = MessageStatusSent \<or> dl_Status dl = MessageStatusFailed \<and> dl_ExternalID dl = None"

lemma fresh_queued [simp]: "fresh_message (queued_message i t tn e g eg iv c ch ty su b)"
  and ID_queued [simp]: "ID (queued_message i t tn e g eg iv c ch ty su b) = i"
  by (simp_all add: fresh_message_def queued_message_def)

lemma insert_messageD:
  assumes "insert_message m srv d = Some (n, d')"
  shows "communication_messages d' = communication_messages d @ [m]" "\<not> has_id (ID m) (communication_messages d)"
    "audit_logs d' = audit_logs d" "communication_campaigns d' = communication_campaigns d"
  using assms by (auto simp: insert_message_def split: if_splits)

lemma insert_delivers:
  assumes ins: "insert_message m srv d = Some (n, d')" and "fresh_message m"
  shows "delivers d d'" and "queued_in (ID m) d'"
proof -
  note d' = insert_messageD [OF ins]
  have "messages_evolve d d'"
    using assms(2) d' by (intro messages_evolveI [of _ "communication_messages d" "[m]"])
      (simp_all add: list_all2_refl evolves_refl fresh_message_def)
  moreover have "messages_ok d'" if "messages_ok d"
    using that assms(2) d' by (auto simp: messages_ok_def fresh_message_def has_id_iff)
  ultimately show "delivers d d'" by (simp add: delivers_def)
  show "queued_in (ID m) d'" using assms(2) d' by (auto simp: queued_in_def fresh_message_def has_id_iff)
qed

lemma CreateMessage_delivers: "fresh_message m \<Longrightarrow> stays delivers (CommunicationRepository_CreateMessage m)"
  unfolding CommunicationRepository_CreateMessage_def
  by (auto intro!: deliveries.bind_stays deliveries.exec_stays deliveries.ret_stays intro: insert_delivers)

lemma CreateMessage_queues:
  "CommunicationRepository_CreateMessage m w = (Inr u, w') \<Longrightarrow> fresh_message m \<Longrightarrow> queued_in (ID m) (store w')"
  by (auto simp: CommunicationRepository_CreateMessage_def go_run intro: insert_delivers)

lemma UpdateMessageStatus_run:
  assumes "CommunicationRepository_UpdateMessageStatus t i dl w = (r, w')"
  obtains (nothing) "store w' = store w"
  | (row) tm where "store w' = put_communication_messages
      (update_where (message_key t i) (deliver dl tm) (communication_messages (store w))) (store w)"
proof (cases r)
  case (Inl e)
  with assms have "store w' = store w"
    by (auto simp: CommunicationRepository_UpdateMessageStatus_def go_run)
  then show thesis by (rule nothing)
next
  case (Inr u)
  with assms show thesis
    by (auto simp: CommunicationRepository_UpdateMessageStatus_def go_run sql_update_def split: if_splits intro: row)
qed

lemma update_delivers:
  assumes run: "CommunicationRepository_UpdateMessageStatus t i dl w = (r, w')"
    and steps: "\<And>m. m \<in> set (communication_messages (store w)) \<Longrightarrow> ID m = i \<Longrightarrow> TenantID m = t
      \<Longrightarrow> delivery_step (cm_Status m) (dl_Status dl)"
    and ext: "dl_ExternalID dl \<noteq> None
      \<Longrightarrow> dl_Status dl \<in> {MessageStatusSent, MessageStatusDelivered, MessageStatusRead}"
  shows "delivers (store w) (store w')"
proof -
  let ?ms = "communication_messages (store w)"
  from run show ?thesis
  proof (cases rule: UpdateMessageStatus_run)
    case nothing
    then show ?thesis by (simp add: deliveries.R_refl)
  next
    case (row tm)
    have step: "evolves m (if message_key t i m then deliver dl tm m else m)" if "m \<in> set ?ms" for m
      using that steps [of m] by (auto simp: evolves_refl) (auto simp: evolves_def deliver_def message_key_def)
    then have "list_all2 evolves ?ms (update_where (message_key t i) (deliver dl tm) ?ms)"
      by (simp add: update_where_def list_all2_map2 list_all2_same)
    then have "messages_evolve (store w) (store w')"
      using row by (intro messages_evolveI [of _ "update_where (message_key t i) (deliver dl tm) ?ms" "[]"]) simp_all
    moreover have ids: "map ID (update_where (message_key t i) (deliver dl tm) ?ms) = map ID ?ms"
      by (simp add: update_where_def deliver_def)
    have "cm_Status m' \<in> {MessageStatusSent, MessageStatusDelivered, MessageStatusRead}"
      if "messages_ok (store w)" "m' \<in> set (update_where (message_key t i) (deliver dl tm) ?ms)" "cm_ExternalID m' \<noteq> None" for m'
      using that ext by (auto simp: messages_ok_def update_where_def deliver_def)
    then have "messages_ok (store w')" if "messages_ok (store w)"
      using that row ids by (simp add: messages_ok_def del: insert_iff)
    ultimately show ?thesis by (simp add: delivers_def)
  qed
qed

lemma first_delivery:
  assumes "CommunicationRepository_UpdateMessageStatus t i dl w = (r, w')" and "queued_in i (store w)" and "good_delivery dl"
  shows "delivers (store w) (store w')"
  using assms(1) by (rule update_delivers) (use assms(2,3) in \<open>auto simp: queued_in_def good_delivery_def intro: delivery_step.intros\<close>)

subsection \<open>Sending\<close>

lemma http_pure: "stays (=) (http_do s rq)"
  by (simp add: stays_def http_do_def tick_def)

lemma smtp_pure: "stays (=) (smtp_send m recipient subject body ct)"
  by (simp add: stays_def smtp_send_def tick_def)

lemma SendFor_pure: "stays (=) (SendFor s c t dest msg)"
proof -
  have "stays (=) (sendGOWA s cfg phone msg)" for cfg phone
    unfolding sendGOWA_def
    by (intro unchanged.bind_stays http_pure)
      (auto intro!: unchanged.all_stays split: http_outcome.split sum.split)
  then show ?thesis
    unfolding SendFor_def sendWithConfig_def
    by (auto intro!: unchanged.all_stays split: sum.split)
qed

lemma delivery_attempts_pure:
  "stays (=) (whatsapp_delivery s c t phone body)" "stays (=) (email_delivery s recipient subject body)"
  unfolding whatsapp_delivery_def email_delivery_def
  by (auto intro!: unchanged.bind_stays SendFor_pure smtp_pure unchanged.now_stays unchanged.ret_stays split: option.split)

lemma whatsapp_delivery_good: "whatsapp_delivery s c t phone body w = (Inr dl, w') \<Longrightarrow> good_delivery dl"
  unfolding whatsapp_delivery_def
  by (elim go_bind_elim_Inr) (auto simp: go_ret_def good_delivery_def failed_delivery_def sent_delivery_def split: sum.splits)

lemma email_delivery_good: "email_delivery s recipient subject body w = (Inr dl, w') \<Longrightarrow> good_delivery dl"
  unfolding email_delivery_def
  by (elim go_bind_elim_Inr) (auto simp: go_ret_def good_delivery_def failed_delivery_def sent_delivery_def split: option.splits)

text \<open>A call whose continuation may rely on what the call has done.\<close>

lemma deliver_then:
  assumes "stays delivers m"
    and "\<And>x w v. m w = (Inr x, v) \<Longrightarrow> delivers (store v) (store (snd (f x v)))"
  shows "stays delivers (go_bind m f)"
proof (rule staysI)
  fix w r w'
  assume run: "go_bind m f w = (r, w')"
  show "delivers (store w) (store w')"
  proof (cases "m w")
    case (Pair q v)
    with assms(1) have "delivers (store w) (store v)" by (rule staysD)
    with run Pair assms(2) [of w] show ?thesis
      by (cases q) (auto simp: go_bind_run intro: deliveries.R_trans)
  qed
qed

lemma first_dispatch:
  assumes "queued_in (ID m) (store w)"
    and "stays (=) attempt" and "\<And>w dl w'. attempt w = (Inr dl, w') \<Longrightarrow> good_delivery dl"
    and "\<And>dl r. stays (=) (after dl r)"
  shows "delivers (store w) (store (snd (go_bind attempt (\<lambda>dl.
    go_try (CommunicationRepository_UpdateMessageStatus t (ID m) dl) (\<lambda>r. after dl r)) w)))"
proof (cases "attempt w")
  case (Pair q v)
  then have v: "store v = store w" using staysD [OF assms(2)] by simp
  show ?thesis
  proof (cases q)
    case (Inl e)
    then show ?thesis using Pair v by (simp add: go_bind_run deliveries.R_refl)
  next
    case (Inr dl)
    obtain r u where u: "CommunicationRepository_UpdateMessageStatus t (ID m) dl v = (r, u)" by fastforce
    from first_delivery [OF u] assms(1,3) Pair Inr v have "delivers (store w) (store u)" by simp
    moreover have "store (snd (after dl r u)) = store u" using assms(4) by (simp add: stays_def)
    ultimately show ?thesis using Pair Inr u by (simp add: go_bind_run go_try_def)
  qed
qed

lemma dispatch_delivers:
  assumes "queued_in (ID m) (store w)"
  shows "delivers (store w) (store (snd (dispatch s c t g m w)))"
proof -
  have "go_bind (CommunicationRepository_UpdateMessageStatus t (ID m) dl) (\<lambda>_. go_ret (show_delivery dl m))
      = go_try (CommunicationRepository_UpdateMessageStatus t (ID m) dl) (\<lambda>r. case r of Inl e \<Rightarrow> go_fail e
          | Inr _ \<Rightarrow> go_ret (show_delivery dl m))" for dl
    by (simp add: go_bind_def)
  moreover have "stays (=) (case r of Inl e \<Rightarrow> go_fail e | Inr _ \<Rightarrow> go_ret (show_delivery dl m))" for r :: "err + unit" and dl
    by (auto intro: unchanged.all_stays split: sum.split)
  ultimately show ?thesis
    unfolding dispatch_def CommunicationService_dispatchWhatsApp_def CommunicationService_dispatchEmail_def
    using assms by (auto intro!: first_dispatch delivery_attempts_pure dest: whatsapp_delivery_good email_delivery_good
        simp: go_ret_def deliveries.R_refl)
qed

lemma roster_reads:
  "stays (=) (EventGuestRepository_GetByEventAndGuest t e g)" "stays (=) (GuestRepository_GetByIDForTenant t g)"
  "stays (=) (InvitationRepository_GetByEventAndGuest e g)" "stays (=) (EventRepository_GetByIDForTenant e t)"
  "stays (=) (CommunicationRepository_GetTemplate t i)" "stays (=) (CommunicationRepository_GetMessage t i)"
  "stays (=) (CommunicationRepository_GetMessageByExternalID x)"
  "stays (=) (CommunicationRepository_GetTemplateByKey t name ch ty)"
  unfolding EventGuestRepository_GetByEventAndGuest_def GuestRepository_GetByIDForTenant_def
    InvitationRepository_GetByEventAndGuest_def EventRepository_GetByIDForTenant_def CommunicationRepository_GetTemplate_def
    CommunicationRepository_GetMessage_def CommunicationRepository_GetMessageByExternalID_def
    CommunicationRepository_GetTemplateByKey_def
  by (rule unchanged.get_one_stays)+

lemma latest_invitation_pure: "stays (=) (latest_invitation e g)"
  unfolding latest_invitation_def by (intro unchanged.try_stays roster_reads unchanged.ret_stays)

lemma roster_and_guest_pure: "stays (=) (roster_and_guest t e g)"
  unfolding roster_and_guest_def
  by (auto intro!: unchanged.all_stays roster_reads split: sum.split)

lemma check_batch_pure: "stays (=) (check_batch t e gs)"
  by (induction gs) (auto intro!: unchanged.bind_stays unchanged.ret_stays unchanged.ret_stays [unfolded go_ret_def]
    unchanged.fail_stays roster_and_guest_pure split: sum.split)

lemma prepareWhatsApp_pure: "stays (=) (CommunicationService_prepareWhatsApp s t)"
  unfolding CommunicationService_prepareWhatsApp_def
  by (auto intro!: unchanged.all_stays integration_reads split: option.split)

lemma create_and_dispatch:
  "fresh_message m \<Longrightarrow> stays delivers (go_bind (CommunicationRepository_CreateMessage m) (\<lambda>_. dispatch s c t g m))"
  by (rule deliver_then [OF CreateMessage_delivers]) (auto intro: dispatch_delivers CreateMessage_queues)

lemma send_one_delivers: "stays delivers (send_one s c t e template vs tm g p)"
  unfolding send_one_def Let_def
  by (cases p) (auto intro!: deliveries.bind_stays reads_deliver [OF latest_invitation_pure] deliveries.uuid_stays create_and_dispatch)

lemma send_prepared_delivers: "stays delivers (send_prepared s c t e template vs tm ps)"
  by (induction ps) (auto intro!: deliveries.bind_stays deliveries.ret_stays deliveries.ret_stays [unfolded go_ret_def] send_one_delivers)

lemma send_unprepared_delivers: "stays delivers (send_unprepared s t e template vs tm gs)"
  by (induction gs) (auto intro!: deliveries.bind_stays deliveries.ret_stays deliveries.ret_stays [unfolded go_ret_def] send_one_delivers reads_deliver [OF roster_and_guest_pure])

lemma SendMessage_delivers: "stays delivers (CommunicationService_SendMessage s t e req)"
  unfolding CommunicationService_SendMessage_def
  by (auto intro!: deliveries.bind_stays deliveries.guard_stays deliveries.now_stays send_prepared_delivers send_unprepared_delivers
      reads_deliver [OF check_batch_pure] reads_deliver [OF prepareWhatsApp_pure] reads_deliver [OF roster_reads(4)]
      reads_deliver [OF roster_reads(5)])

lemma RetryMessage_delivers: "stays delivers (CommunicationService_RetryMessage s t e i)"
proof -
  have create: "stays delivers (go_bind (CommunicationRepository_CreateMessage m) (\<lambda>_. go_guard b x (dispatch s c t g m)))"
    if "fresh_message m" for m b x c g
    by (rule deliver_then [OF CreateMessage_delivers])
      (use that in \<open>auto simp: go_guard_def go_fail_def deliveries.R_refl intro: dispatch_delivers CreateMessage_queues\<close>)
  have reads: "stays (=) (if b then CommunicationService_prepareWhatsApp s t else go_ret no_client)" for b
    by (auto intro: prepareWhatsApp_pure unchanged.ret_stays)
  show ?thesis
    unfolding CommunicationService_RetryMessage_def Let_def
    by (intro deliveries.bind_stays [OF reads_deliver] roster_reads reads deliveries.guard_stays create fresh_queued
        unchanged.now_stays unchanged.uuid_stays)
qed

subsection \<open>Receipts\<close>

lemma external_message:
  assumes "CommunicationRepository_GetMessageByExternalID x w = (Inr m, w')"
  shows "m \<in> set (communication_messages (store w))" "cm_ExternalID m = Some x" "store w' = store w"
proof -
  let ?ms = "sort_key (\<lambda>r. - CreatedAt r) (filter (\<lambda>r. cm_ExternalID r = Some x) (communication_messages (store w)))"
  from assms have "first_row ?ms = Some m" "store w' = store w"
    by (auto simp: CommunicationRepository_GetMessageByExternalID_def go_run tick_def)
  moreover from this have "m \<in> set ?ms" by (cases ?ms) (auto simp only: first_row_def list.case option.inject list.set_intros)
  then have "m \<in> set (filter (\<lambda>r. cm_ExternalID r = Some x) (communication_messages (store w)))" by (simp only: set_sort)
  ultimately show "m \<in> set (communication_messages (store w))" "cm_ExternalID m = Some x" "store w' = store w" by auto
qed

lemma ack_delivers:
  assumes "CommunicationRepository_GetMessageByExternalID x w = (Inr m, v)" and "\<not> already_acked status m"
    and "status = MessageStatusDelivered \<or> status = MessageStatusRead"
    and "CommunicationRepository_UpdateMessageStatus (TenantID m) (ID m) (acked status t x m) v = (r, w')"
  shows "delivers (store w) (store w')"
proof (cases "messages_ok (store w)")
  case True
  note m = external_message [OF assms(1)]
  from True m(1,2) have "cm_Status m \<in> {MessageStatusSent, MessageStatusDelivered, MessageStatusRead}"
    by (auto simp: messages_ok_def)
  with assms(2,3) have step: "delivery_step (cm_Status m) status"
    by (auto simp: already_acked_def intro: delivery_step.intros)
  have same: "m' = m" if "m' \<in> set (communication_messages (store w))" "ID m' = ID m" for m'
    using True that m(1) by (auto simp: messages_ok_def distinct_map dest: inj_onD)
  have "delivers (store v) (store w')"
    using assms(4) by (rule update_delivers) (use step same assms(3) m(3) in \<open>auto simp: acked_def\<close>)
  then show ?thesis by (simp add: m(3))
qed (simp add: delivers_def)

lemma apply_acks_delivers:
  assumes "status = MessageStatusDelivered \<or> status = MessageStatusRead"
  shows "stays delivers (apply_acks status t xs n)"
proof (induction xs arbitrary: n)
  case Nil
  show ?case unfolding apply_acks.simps by (rule deliveries.ret_stays)
next
  case (Cons x xs)
  let ?get = "CommunicationRepository_GetMessageByExternalID (TrimSpace x)"
  show ?case
  proof (rule staysI)
    fix w r w'
    assume run: "apply_acks status t (x # xs) n w = (r, w')"
    obtain q v where get: "?get w = (q, v)" by fastforce
    then have v: "store v = store w" using staysD [OF roster_reads(7)] by simp
    have skip: "delivers (store v) (store w')" if "apply_acks status t xs n v = (r, w')"
      using staysD [OF Cons.IH that] .
    show "delivers (store w) (store w')"
    proof (cases q)
      case (Inl e)
      with run get v skip staysD [OF Cons.IH] show ?thesis
        by (auto simp: go_try_def go_ret_def deliveries.R_refl split: if_splits)
    next
      case (Inr m)
      show ?thesis
      proof (cases "TrimSpace x = [] \<or> already_acked status m")
        case True
        with run get v Inr skip staysD [OF Cons.IH] show ?thesis by (auto simp: go_try_def split: if_splits)
      next
        case False
        obtain q' u where up: "CommunicationRepository_UpdateMessageStatus (TenantID m) (ID m) (acked status t (TrimSpace x) m) v = (q', u)"
          by fastforce
        have "delivers (store w) (store u)" using ack_delivers [OF _ _ assms up] get Inr False by simp
        moreover have "delivers (store u) (store w')"
          using run get Inr False up staysD [OF Cons.IH]
          by (auto simp: go_try_def go_ret_def deliveries.R_refl split: sum.splits)
        ultimately show ?thesis by (rule deliveries.R_trans)
      qed
    qed
  qed
qed

lemma Handle_delivers: "stays delivers (GOWAWebhookHandler_Handle s body header)"
  unfolding GOWAWebhookHandler_Handle_def Let_def
  by (auto intro!: deliveries.bind_stays deliveries.ret_stays deliveries.now_stays apply_acks_delivers split: option.split)

section \<open>Standard templates\<close>

definition has_template :: "uuid \<Rightarrow> template_definition \<Rightarrow> db \<Rightarrow> bool" where
  "has_template t td d \<longleftrightarrow> list_ex (system_template t (td_Name td) (td_Channel td) (td_Type td)) (communication_templates d)"

lemma system_template_key:
  "system_template t name ch ty r \<Longrightarrow> system_template t name ch ty (r\<lparr>ct_IsSystem := True, UpdatedAt := u\<rparr>)"
  by (simp add: system_template_def)

lemma ex_updated: "r \<in> set rs \<Longrightarrow> P (if p r then f r else r) \<Longrightarrow> list_ex P (update_where p f rs)"
  unfolding update_where_def list_ex_iff set_map by (rule bexI [OF _ imageI])

lemma template_writes_keep:
  "stays (\<lambda>d d'. has_template t td d \<longrightarrow> has_template t td d') (CommunicationRepository_CreateTemplate x)"
  "stays (\<lambda>d d'. has_template t td d \<longrightarrow> has_template t td d') (CommunicationRepository_MarkTemplateSystem t' i)"
  unfolding CommunicationRepository_CreateTemplate_def CommunicationRepository_MarkTemplateSystem_def
  subgoal by (intro kept.bind_stays kept.exec_stays kept.ret_stays)
      (auto simp: insert_template_def has_template_def split: if_splits)
  subgoal
  proof (rule kept.exec_rows_stays, rule impI)
    fix srv and d d' :: db and n
    assume upd: "Some (sql_update communication_templates put_communication_templates (template_key t' i)
        (\<lambda>r. r\<lparr>ct_IsSystem := True, UpdatedAt := fst srv\<rparr>) d) = Some (n, d')" and "has_template t td d"
    then obtain r where "r \<in> set (communication_templates d)" "system_template t (td_Name td) (td_Channel td) (td_Type td) r"
      by (auto simp: has_template_def list_ex_iff)
    then show "has_template t td d'"
      using upd by (auto simp: has_template_def sql_update_def system_template_key intro!: ex_updated)
  qed
  done

lemma GetTemplateByKey_found:
  assumes "has_template t td (store w)"
    and "CommunicationRepository_GetTemplateByKey t (td_Name td) (td_Channel td) (td_Type td) w = (Inl e, w')"
  shows "e \<noteq> ErrTemplateNotFound"
proof -
  let ?p = "system_template t (td_Name td) (td_Channel td) (td_Type td)"
  let ?ts = "sort_key CreatedAt (filter ?p (communication_templates (store w)))"
  from assms(1) have "set ?ts \<noteq> {}" by (auto simp: has_template_def list_ex_iff)
  then have "first_row ?ts \<noteq> None" by (cases ?ts) (simp_all only: first_row_def list.case list.set(1) option.distinct simp_thms)
  with assms(2) show ?thesis by (auto simp: CommunicationRepository_GetTemplateByKey_def get_one_Inl split: if_splits)
qed

lemma GetTemplateByKey_has:
  assumes "CommunicationRepository_GetTemplateByKey t (td_Name td) (td_Channel td) (td_Type td) w = (Inr r, w')"
  shows "has_template t td (store w)" "system_template t (td_Name td) (td_Channel td) (td_Type td) r"
proof -
  let ?p = "system_template t (td_Name td) (td_Channel td) (td_Type td)"
  let ?ts = "sort_key CreatedAt (filter ?p (communication_templates (store w)))"
  from assms have "first_row ?ts = Some r" by (simp add: CommunicationRepository_GetTemplateByKey_def get_one_Inr)
  then have "r \<in> set ?ts" by (cases ?ts) (auto simp only: first_row_def list.case option.inject list.set_intros)
  then have "r \<in> set (filter ?p (communication_templates (store w)))" by (simp only: set_sort)
  then show "has_template t td (store w)" "?p r" by (auto simp: has_template_def list_ex_iff)
qed

lemma created_template:
  assumes create: "CommunicationService_CreateTemplate t (default_request td) w = (Inr x, v)"
    and mark: "CommunicationRepository_MarkTemplateSystem t (ID x) v = (Inr u, w')"
  shows "has_template t td (store w')" "system_template t (td_Name td) (td_Channel td) (td_Type td) (x\<lparr>ct_IsSystem := True\<rparr>)"
proof -
  from create have x: "x \<in> set (communication_templates (store v))" "TenantID x = t" "live x" "ct_Name x = td_Name td"
      "ct_Channel x = td_Channel td" "ct_Type x = td_Type td"
    by (auto simp: CommunicationService_CreateTemplate_def Let_def go_run CommunicationRepository_CreateTemplate_def
        insert_template_def default_request_def tick_def split: if_splits)
  then show "system_template t (td_Name td) (td_Channel td) (td_Type td) (x\<lparr>ct_IsSystem := True\<rparr>)"
    by (simp add: system_template_def)
  from mark obtain s where "communication_templates (store w')
      = update_where (template_key t (ID x)) (\<lambda>r. r\<lparr>ct_IsSystem := True, UpdatedAt := fst s\<rparr>) (communication_templates (store v))"
    by (auto simp: CommunicationRepository_MarkTemplateSystem_def go_run sql_update_def)
  with x show "has_template t td (store w')"
    by (auto simp: has_template_def template_key_def system_template_def intro!: ex_updated [of x])
qed

lemma generate_keeps: "stays (\<lambda>d d'. has_template t td d \<longrightarrow> has_template t td d') (generate_templates tenantID tds)"
proof (induction tds)
  case Nil
  show ?case unfolding generate_templates.simps by (rule kept.ret_stays)
next
  case (Cons x xs)
  have create: "stays (\<lambda>d d'. has_template t td d \<longrightarrow> has_template t td d') (CommunicationService_CreateTemplate tenantID req)" for req
    unfolding CommunicationService_CreateTemplate_def Let_def
    by (intro kept.guard_stays kept.bind_stays kept.now_stays kept.uuid_stays kept.ret_stays template_writes_keep)
  show ?case
    unfolding generate_templates.simps
    by (intro kept.try_stays stays_mono [OF roster_reads(8)])
      (auto intro!: kept.bind_stays kept.guard_stays kept.ret_stays template_writes_keep create Cons.IH split: sum.split)
qed

lemma generated_templates:
  assumes "generate_templates t tds w = (Inr ts, w')"
  shows "list_all (\<lambda>td. has_template t td (store w')) tds
    \<and> list_all2 (\<lambda>td r. system_template t (td_Name td) (td_Channel td) (td_Type td) r) tds ts"
  using assms
proof (induction tds arbitrary: ts w w')
  case Nil
  then show ?case by (auto simp: go_ret_def)
next
  case (Cons td tds)
  let ?get = "CommunicationRepository_GetTemplateByKey t (td_Name td) (td_Channel td) (td_Type td)"
  obtain q v where get: "?get w = (q, v)" by fastforce
  have rest: "list_all (\<lambda>td. has_template t td (store w')) (td # tds)
      \<and> list_all2 (\<lambda>td r. system_template t (td_Name td) (td_Channel td) (td_Type td) r) (td # tds) (r # rs)"
    if "has_template t td (store u)" "system_template t (td_Name td) (td_Channel td) (td_Type td) r"
      "generate_templates t tds u = (Inr rs, w')" for u r rs
    using Cons.IH [OF that(3)] staysD [OF generate_keeps that(3), of t td] that(1,2) by simp
  show ?case
  proof (cases q)
    case (Inr r)
    with get have "has_template t td (store w)" "system_template t (td_Name td) (td_Channel td) (td_Type td) r"
      by (auto dest: GetTemplateByKey_has)
    moreover have "store v = store w" using staysD [OF roster_reads(8) get] by simp
    moreover obtain rs where "generate_templates t tds v = (Inr rs, w')" "ts = r # rs"
      using Cons.prems get Inr by (auto simp: go_try_def go_bind_Inr go_ret_def)
    ultimately show ?thesis using rest [of v r] by simp
  next
    case (Inl e)
    with Cons.prems get obtain x v1 v2 rs where x:
      "CommunicationService_CreateTemplate t (default_request td) v = (Inr x, v1)"
      "CommunicationRepository_MarkTemplateSystem t (ID x) v1 = (Inr (), v2)"
      "generate_templates t tds v2 = (Inr rs, w')" "ts = x\<lparr>ct_IsSystem := True\<rparr> # rs"
      by (auto simp: go_try_def go_guard_def go_bind_Inr go_ret_def go_fail_def split: if_splits)
    from created_template [OF x(1,2)] rest [OF _ _ x(3)] x(4) show ?thesis by simp
  qed
qed

lemma generate_again:
  assumes "list_all (\<lambda>td. has_template t td (store w)) tds"
  shows "store (snd (generate_templates t tds w)) = store w"
  using assms
proof (induction tds arbitrary: w)
  case Nil
  show ?case by (simp add: go_ret_def)
next
  case (Cons td tds)
  let ?get = "CommunicationRepository_GetTemplateByKey t (td_Name td) (td_Channel td) (td_Type td)"
  obtain q v where get: "?get w = (q, v)" by fastforce
  then have v: "store v = store w" using staysD [OF roster_reads(8)] by simp
  show ?case
  proof (cases q)
    case (Inr r)
    have "store (snd (generate_templates t tds v)) = store v" using Cons by (simp add: v)
    with get Inr v show ?thesis
      by (cases "generate_templates t tds v") (auto simp: go_try_def go_bind_run go_ret_def split: sum.split)
  next
    case (Inl e)
    with GetTemplateByKey_found [of t td w e v] get Cons.prems have "e \<noteq> ErrTemplateNotFound" by simp
    with get Inl v show ?thesis by (simp add: go_try_def go_guard_def go_fail_def)
  qed
qed

section \<open>Properties\<close>

text \<open>
  The standard templates of a tenant are created once. A call that succeeds returns one template of
  the system for each of the four definitions, under its name, channel and type; a second call leaves
  the database as it is, also when some of its statements fail.
\<close>

theorem default_templates_created_once:
  assumes "CommunicationService_GenerateDefaultInvitationTemplates t w = (Inr ts, w')"
  shows "map (\<lambda>r. (ct_Name r, ct_Channel r, ct_Type r)) ts
       = map (\<lambda>td. (td_Name td, td_Channel td, td_Type td)) (DefaultInvitationTemplates @ DefaultRSVPReminderTemplates)
     \<and> list_all (\<lambda>r. ct_IsSystem r \<and> TenantID r = t) ts
     \<and> store (snd (CommunicationService_GenerateDefaultInvitationTemplates t w')) = store w'"
proof -
  let ?tds = "DefaultInvitationTemplates @ DefaultRSVPReminderTemplates"
  from assms have run: "generate_templates t ?tds w = (Inr ts, w')"
    by (simp only: CommunicationService_GenerateDefaultInvitationTemplates_def)
  note generated = generated_templates [OF run]
  then have "list_all2 (\<lambda>td r. system_template t (td_Name td) (td_Channel td) (td_Type td) r) ?tds ts" by (rule conjunct2)
  then have "map (\<lambda>r. (ct_Name r, ct_Channel r, ct_Type r)) ts = map (\<lambda>td. (td_Name td, td_Channel td, td_Type td)) ?tds
      \<and> list_all (\<lambda>r. ct_IsSystem r \<and> TenantID r = t) ts"
    by (induction rule: list_all2_induct) (simp_all add: system_template_def)
  moreover have "store (snd (generate_templates t ?tds w')) = store w'"
    using generated by (intro generate_again) (rule conjunct1)
  ultimately show ?thesis unfolding CommunicationService_GenerateDefaultInvitationTemplates_def by blast
qed

theorem default_templates_created_once_witness:
  "\<exists>ts w'. CommunicationService_GenerateDefaultInvitationTemplates 1 (demo_world demo_db) = (Inr ts, w') \<and> length ts = 4
    \<and> store (snd (CommunicationService_GenerateDefaultInvitationTemplates 1 w')) = store w'"
proof -
  obtain ts w' where run: "CommunicationService_GenerateDefaultInvitationTemplates 1 (demo_world demo_db) = (Inr ts, w')"
    by (simp add: CommunicationService_GenerateDefaultInvitationTemplates_def DefaultInvitationTemplates_def
        DefaultRSVPReminderTemplates_def CommunicationRepository_GetTemplateByKey_def go_eval first_row_def
        system_template_def CommunicationService_CreateTemplate_def channel_ok_def default_request_def Let_def
        CommunicationRepository_CreateTemplate_def insert_template_def CommunicationRepository_MarkTemplateSystem_def
        sql_update_def template_key_def update_where_def demo_tenant_def has_id_def)
  from default_templates_created_once [OF run] have "length ts = 4"
    by (auto simp: DefaultInvitationTemplates_def DefaultRSVPReminderTemplates_def dest!: arg_cong [where f = length])
  with run default_templates_created_once [OF run] show ?thesis by blast
qed

text \<open>
  Every placeholder of a standard template, in its text and in its subject, has a value for every
  guest, event and invitation, also for a guest without title, address or number and without an
  invitation: no standard message goes out with a hole in it.
\<close>

theorem default_templates_are_filled:
  "list_all (\<lambda>td. list_all (\<lambda>x. BuildRenderVariables s guest event invitation x \<noteq> None)
      (placeholders (td_Body td) @ placeholders (td_Subject td)))
     (DefaultInvitationTemplates @ DefaultRSVPReminderTemplates)"
proof -
  have "BuildRenderVariables s guest event invitation x \<noteq> None" if "List.member standard_variables x" for x
    using standard_variables_known [of s guest event invitation] that by (simp add: list_all_iff)
  then show ?thesis using default_placeholders unfolding list_all_iff by blast
qed

text \<open>
  The signature that the gateway computes over a body verifies: the hexadecimal form of the
  HMAC-SHA256 of the body under the secret, after the prefix \<open>sha256=\<close>, whatever bytes both contain.
\<close>

theorem gateway_signature_verifies:
  "verifyGOWASignature secret body (''sha256='' @ hex_EncodeToString (hmac_sha256 (bytes_of secret) (bytes_of body)))
    \<and> hex_DecodeString (hex_EncodeToString bs) = Some bs"
  using signature_verifies hex_Decode_Encode by blast


end
