(* ===== verification/Campaigns.thy ===== *)
theory Campaigns
  imports Messages
begin

text \<open>
  Reminders and campaigns of \<open>communication_service.go\<close> and \<open>communication_repository.go\<close>: the guests
  that have not answered, the reminder that one of them gets at most once a day, and campaigns, which
  send one message to each recipient on the roster. The lemmas show what each call may do
  to the messages: a call that sends only appends messages of its event, a signed receipt only moves
  messages along their delivery; and that a campaign that was sent accounts for every recipient.

  The collation of the server is a parameter; the advisory lock is a statement that may fail, since a
  run is not interleaved with others.
\<close>

section \<open>Reminders\<close>

definition hours24 :: int where
  "hours24 = 24 * 3600 * 10 ^ 9"

definition reminder_counts :: "uuid \<Rightarrow> uuid \<Rightarrow> uuid \<Rightarrow> comm_message \<Rightarrow> bool" where
  "reminder_counts t e g r \<longleftrightarrow> TenantID r = t \<and> EventID r = e \<and> GuestID r = g \<and> cm_Type r = MsgTypeRSVPFollowUp
     \<and> \<not> List.member [''failed'', ''cancelled''] (cm_Status r)"

text \<open>
  \<open>CreateRSVPReminderMessage\<close>. \<open>NOW()\<close> is the time of the transaction, which is that of its first
  statement here.
\<close>

definition CommunicationRepository_CreateRSVPReminderMessage :: "comm_message \<Rightarrow> bool \<Rightarrow> unit app" where
  "CommunicationRepository_CreateRSVPReminderMessage m force = RunInTransaction (
     go_bind (exec (\<lambda>srv d. Some (fst srv, d))) (\<lambda>started.
     go_bind (if force then go_ret False else query (\<lambda>d. list_ex (\<lambda>r.
         reminder_counts (TenantID m) (EventID m) (GuestID m) r \<and> started - hours24 \<le> CreatedAt r)
       (communication_messages d))) (\<lambda>recent.
     go_guard recent ErrRSVPReminderThrottled (
     go_bind (exec (insert_message m)) (\<lambda>_. go_ret ())))))"

record reminder_candidate =
  rc_EventGuestID :: uuid
  rc_GuestID :: uuid
  rc_FullName :: string
  rc_Phone :: "string option"
  rc_Email :: "string option"
  rc_InvitationID :: uuid
  rc_InvitationStatus :: string
  rc_LastReminderAt :: "time option"
  rc_ReminderCount :: nat

definition usable_invitation :: "event_guest \<Rightarrow> invitation \<Rightarrow> bool" where
  "usable_invitation eg i \<longleftrightarrow> TenantID i = TenantID eg \<and> EventID i = EventID eg \<and> GuestID i = GuestID eg \<and> live i
     \<and> List.member [''draft'', ''sent'', ''opened''] (inv_Status i)"

definition answered :: "event_guest \<Rightarrow> rsvp_response \<Rightarrow> bool" where
  "answered eg r \<longleftrightarrow> TenantID r = TenantID eg \<and> EventID r = EventID eg \<and> GuestID r = GuestID eg
     \<and> \<not> List.member [''not_sent'', ''pending'', ''no_response''] (rs_Status r)"

definition latest_time :: "time list \<Rightarrow> time option" where
  "latest_time ts = (case ts of [] \<Rightarrow> None | t # ts \<Rightarrow> Some (fold max ts t))"

text \<open>The row of one entry of the roster, when it is one of the result.\<close>

definition reminder_row :: "uuid \<Rightarrow> uuid \<Rightarrow> db \<Rightarrow> event_guest \<Rightarrow> reminder_candidate option" where
  "reminder_row t e d eg =
     (if TenantID eg \<noteq> t \<or> EventID eg \<noteq> e \<or> eg_Status eg \<noteq> ''active'' \<or> \<not> live eg
         \<or> list_ex (answered eg) (rsvp_responses d) then None
      else case find (\<lambda>g. ID g = GuestID eg \<and> live g) (guests d) of None \<Rightarrow> None
      | Some g \<Rightarrow> (case first_row (sort_key (\<lambda>r. - CreatedAt r) (filter (usable_invitation eg) (invitations d))) of
          None \<Rightarrow> None
        | Some i \<Rightarrow> let past = filter (reminder_counts t e (GuestID eg)) (communication_messages d) in
            Some \<lparr>rc_EventGuestID = ID eg, rc_GuestID = GuestID eg, rc_FullName = g_FullName g, rc_Phone = g_Phone g,
              rc_Email = g_Email g, rc_InvitationID = ID i, rc_InvitationStatus = inv_Status i,
              rc_LastReminderAt = latest_time (map CreatedAt past), rc_ReminderCount = length past\<rparr>))"

definition CommunicationRepository_ListRSVPReminderCandidates ::
  "(string \<Rightarrow> int) \<Rightarrow> uuid \<Rightarrow> uuid \<Rightarrow> reminder_candidate list app" where
  "CommunicationRepository_ListRSVPReminderCandidates coll t e =
     query (\<lambda>d. sort_key (\<lambda>c. coll (rc_FullName c)) (List.map_filter (reminder_row t e d) (event_guests d)))"

definition CommunicationService_ListRSVPReminderCandidates ::
  "(string \<Rightarrow> int) \<Rightarrow> uuid \<Rightarrow> uuid \<Rightarrow> reminder_candidate list app" where
  "CommunicationService_ListRSVPReminderCandidates coll tenantID eventID =
     go_bind (EventRepository_GetByIDForTenant eventID tenantID) (\<lambda>_.
     CommunicationRepository_ListRSVPReminderCandidates coll tenantID eventID)"

definition validateRSVPReminderTemplate :: "comm_template \<Rightarrow> err option" where
  "validateRSVPReminderTemplate t =
     (if ct_Type t \<noteq> MsgTypeRSVPFollowUp then Some ErrInvalidMessageType
      else if ct_Channel t \<noteq> ChannelWhatsApp \<and> ct_Channel t \<noteq> ChannelEmail then Some ErrInvalidChannel else None)"

record reminder_skip =
  rk_GuestID :: uuid
  rk_FullName :: string
  rk_Reason :: string

definition ReasonThrottled :: string where
  "ReasonThrottled = ''sudah menerima pengingat dalam 24 jam terakhir''"

text \<open>Why a candidate gets no reminder; \<open>now.Sub\<close> saturates, which no time of a reminder reaches.\<close>

definition reminder_obstacle :: "bool \<Rightarrow> string \<Rightarrow> time \<Rightarrow> reminder_candidate \<Rightarrow> string option" where
  "reminder_obstacle force channel t c =
     (if \<not> force \<and> (case rc_LastReminderAt c of None \<Rightarrow> False | Some l \<Rightarrow> t - l < hours24) then Some ReasonThrottled
      else if channel = ChannelWhatsApp then
        (case NormalizePhone (or_empty (rc_Phone c)) of Inl _ \<Rightarrow> Some ''nomor WhatsApp kosong atau tidak valid''
         | Inr _ \<Rightarrow> None)
      else if channel = ChannelEmail then
        (if TrimSpace (or_empty (rc_Email c)) = [] then Some ''alamat email kosong'' else None)
      else None)"

definition skip :: "reminder_candidate \<Rightarrow> string \<Rightarrow> reminder_skip" where
  "skip c reason = \<lparr>rk_GuestID = rc_GuestID c, rk_FullName = rc_FullName c, rk_Reason = reason\<rparr>"

definition filterRSVPReminderCandidates ::
  "reminder_candidate list \<Rightarrow> uuid list \<Rightarrow> bool \<Rightarrow> string \<Rightarrow> time \<Rightarrow> reminder_candidate list \<times> reminder_skip list" where
  "filterRSVPReminderCandidates candidates guestIDs force channel t =
     (let asked = filter (\<lambda>c. guestIDs = [] \<or> rc_GuestID c \<in> set guestIDs) candidates in
      (filter (\<lambda>c. reminder_obstacle force channel t c = None) asked,
       List.map_filter (\<lambda>c. map_option (skip c) (reminder_obstacle force channel t c)) asked
       @ map (\<lambda>i. \<lparr>rk_GuestID = i, rk_FullName = [],
            rk_Reason = ''bukan kandidat pengingat (sudah merespons, tidak di roster, atau tanpa undangan aktif)''\<rparr>)
          (filter (\<lambda>i. i \<notin> rc_GuestID ` set candidates) guestIDs)))"

record reminder_request =
  rrq_TemplateID :: "uuid option"
  rrq_GuestIDs :: "uuid list"
  rrq_Force :: bool

record reminder_result =
  rres_Messages :: "comm_message list"
  rres_Skipped :: "reminder_skip list"
  rres_TotalCandidates :: nat
  rres_DeadlinePassed :: bool

text \<open>The reminder of one candidate: a message, or the reason there is none.\<close>

definition remind_one ::
  "comm_env \<Rightarrow> whatsapp_client \<Rightarrow> uuid \<Rightarrow> event \<Rightarrow> comm_template \<Rightarrow> bool \<Rightarrow> time \<Rightarrow> reminder_candidate
     \<Rightarrow> (reminder_skip + comm_message) app" where
  "remind_one s c tenantID event template force t cand =
     go_try (GuestRepository_GetByIDForTenant tenantID (rc_GuestID cand)) (\<lambda>g. case g of
       Inl _ \<Rightarrow> go_ret (Inl (skip cand ''data kontak tidak ditemukan''))
     | Inr guest \<Rightarrow>
     go_try (InvitationRepository_GetByIDForTenant (rc_InvitationID cand) tenantID) (\<lambda>i. case i of
       Inl _ \<Rightarrow> go_ret (Inl (skip cand ''undangan tidak ditemukan''))
     | Inr invitation \<Rightarrow>
       let vars = BuildRenderVariables s guest event (Some invitation); body = RenderTemplate (ct_Body template) vars in
       go_bind uuid_New (\<lambda>i.
       let msg = queued_message i t tenantID (ID event) (rc_GuestID cand) (Some (rc_EventGuestID cand))
         (Some (rc_InvitationID cand)) None (ct_Channel template) MsgTypeRSVPFollowUp
         (map_option (\<lambda>x. RenderTemplate x vars) (ct_Subject template)) body in
       go_try (CommunicationRepository_CreateRSVPReminderMessage msg force) (\<lambda>r. case r of
         Inl e \<Rightarrow> if e = ErrRSVPReminderThrottled then go_ret (Inl (skip cand ReasonThrottled)) else go_fail e
       | Inr _ \<Rightarrow> go_bind (dispatch s c tenantID guest msg) (\<lambda>m. go_ret (Inr m))))))"

fun remind_all ::
  "comm_env \<Rightarrow> whatsapp_client \<Rightarrow> uuid \<Rightarrow> event \<Rightarrow> comm_template \<Rightarrow> bool \<Rightarrow> time \<Rightarrow> reminder_candidate list
     \<Rightarrow> (reminder_skip + comm_message) list app" where
  "remind_all s c tenantID event template force t [] = go_ret []"
| "remind_all s c tenantID event template force t (cand # cands) =
     go_bind (remind_one s c tenantID event template force t cand) (\<lambda>x.
     go_bind (remind_all s c tenantID event template force t cands) (\<lambda>xs. go_ret (x # xs)))"

definition lefts :: "('a + 'b) list \<Rightarrow> 'a list" where
  "lefts xs = List.map_filter (\<lambda>x. case x of Inl a \<Rightarrow> Some a | Inr _ \<Rightarrow> None) xs"

definition rights :: "('a + 'b) list \<Rightarrow> 'b list" where
  "rights xs = List.map_filter (\<lambda>x. case x of Inl _ \<Rightarrow> None | Inr b \<Rightarrow> Some b) xs"

definition reminder_template :: "uuid \<Rightarrow> uuid option \<Rightarrow> comm_template app" where
  "reminder_template tenantID templateID =
     (let standard = CommunicationRepository_GetTemplateByKey tenantID DefaultRSVPReminderTemplateWhatsApp
        ChannelWhatsApp MsgTypeRSVPFollowUp in
      case templateID of Some i \<Rightarrow> CommunicationRepository_GetTemplate tenantID i
      | None \<Rightarrow> go_try standard (\<lambda>r. case r of Inr t \<Rightarrow> go_ret t
          | Inl e \<Rightarrow> if e = ErrTemplateNotFound then
              go_bind (CommunicationService_GenerateDefaultInvitationTemplates tenantID) (\<lambda>_. standard)
            else go_fail e))"

definition CommunicationService_SendRSVPReminders ::
  "comm_env \<Rightarrow> (string \<Rightarrow> int) \<Rightarrow> uuid \<Rightarrow> uuid \<Rightarrow> reminder_request \<Rightarrow> reminder_result app" where
  "CommunicationService_SendRSVPReminders s coll tenantID eventID req =
     go_bind (EventRepository_GetByIDForTenant eventID tenantID) (\<lambda>event.
     go_bind (reminder_template tenantID (rrq_TemplateID req)) (\<lambda>template.
     go_guard (\<not> ct_IsActive template) ErrTemplateInactive (
     case validateRSVPReminderTemplate template of Some e \<Rightarrow> go_fail e | None \<Rightarrow>
     go_bind (CommunicationRepository_ListRSVPReminderCandidates coll tenantID eventID) (\<lambda>candidates.
     go_bind now (\<lambda>t.
     let result = (\<lambda>skipped messages. \<lparr>rres_Messages = messages, rres_Skipped = skipped,
           rres_TotalCandidates = length candidates,
           rres_DeadlinePassed = (case ev_RSVPDeadline event of None \<Rightarrow> False | Some x \<Rightarrow> x < t)\<rparr>) in
     case filterRSVPReminderCandidates candidates (rrq_GuestIDs req) (rrq_Force req) (ct_Channel template) t of
       (eligible, skipped) \<Rightarrow>
         if eligible = [] then go_ret (result skipped [])
         else go_bind (if ct_Channel template = ChannelWhatsApp then CommunicationService_prepareWhatsApp s tenantID
                       else go_ret no_client) (\<lambda>c.
           go_bind (remind_all s c tenantID event template (rrq_Force req) t eligible) (\<lambda>xs.
           go_ret (result (skipped @ lefts xs) (rights xs)))))))))"


section \<open>Campaigns\<close>

abbreviation CampaignStatusDraft :: string where "CampaignStatusDraft \<equiv> ''draft''"
abbreviation CampaignStatusScheduled :: string where "CampaignStatusScheduled \<equiv> ''scheduled''"
abbreviation CampaignStatusSending :: string where "CampaignStatusSending \<equiv> ''sending''"
abbreviation CampaignStatusCompleted :: string where "CampaignStatusCompleted \<equiv> ''completed''"
abbreviation CampaignStatusCancelled :: string where "CampaignStatusCancelled \<equiv> ''cancelled''"

definition campaign_ok :: "comm_campaign \<Rightarrow> bool" where
  "campaign_ok c \<longleftrightarrow> channel_ok (cc_Channel c)
     \<and> List.member [''draft'', ''scheduled'', ''sending'', ''completed'', ''cancelled''] (cc_Status c)
     \<and> int4 (cc_TotalRecipients c) \<and> int4 (cc_SentCount c) \<and> int4 (cc_FailedCount c)"

definition insert_campaign :: "comm_campaign \<Rightarrow> server \<Rightarrow> db \<Rightarrow> (nat \<times> db) option" where
  "insert_campaign c srv d =
     (if has_id (ID c) (communication_campaigns d) \<or> \<not> has_id (TenantID c) (tenants d) \<or> \<not> has_id (EventID c) (events d)
         \<or> \<not> has_id (cc_TemplateID c) (communication_templates d) \<or> \<not> has_id (cc_CreatedBy c) (users d) \<or> \<not> campaign_ok c
      then None else Some (1, d\<lparr>communication_campaigns := communication_campaigns d @ [c]\<rparr>))"

definition campaign_key :: "uuid \<Rightarrow> uuid \<Rightarrow> comm_campaign \<Rightarrow> bool" where
  "campaign_key t i r \<longleftrightarrow> ID r = i \<and> TenantID r = t \<and> live r"

definition CommunicationRepository_CreateCampaign :: "comm_campaign \<Rightarrow> unit app" where
  "CommunicationRepository_CreateCampaign c = go_bind (exec (insert_campaign c)) (\<lambda>_. go_ret ())"

definition CommunicationRepository_GetCampaign :: "uuid \<Rightarrow> uuid \<Rightarrow> comm_campaign app" where
  "CommunicationRepository_GetCampaign t i =
     get_one ErrCampaignNotFound (\<lambda>d. find (campaign_key t i) (communication_campaigns d))"

definition merge_campaign :: "comm_campaign \<Rightarrow> comm_campaign \<Rightarrow> comm_campaign" where
  "merge_campaign c r = r\<lparr>cc_Name := cc_Name c, cc_TemplateID := cc_TemplateID c, cc_Channel := cc_Channel c,
     cc_Type := cc_Type c, cc_Status := cc_Status c, cc_RecipientFilter := cc_RecipientFilter c,
     cc_ScheduledAt := cc_ScheduledAt c, cc_SentAt := cc_SentAt c, cc_CompletedAt := cc_CompletedAt c,
     cc_TotalRecipients := cc_TotalRecipients c, cc_SentCount := cc_SentCount c, cc_FailedCount := cc_FailedCount c,
     UpdatedAt := UpdatedAt c\<rparr>"

definition CommunicationRepository_UpdateCampaign :: "comm_campaign \<Rightarrow> unit app" where
  "CommunicationRepository_UpdateCampaign c = exec_rows ErrCampaignNotFound (\<lambda>srv d.
     if (\<not> campaign_ok c \<or> \<not> has_id (cc_TemplateID c) (communication_templates d))
       \<and> list_ex (campaign_key (TenantID c) (ID c)) (communication_campaigns d) then None
     else Some (sql_update communication_campaigns put_communication_campaigns (campaign_key (TenantID c) (ID c))
       (merge_campaign c) d))"

definition campaign_progress ::
  "string \<Rightarrow> time option \<Rightarrow> time option \<Rightarrow> int \<Rightarrow> int \<Rightarrow> time \<Rightarrow> comm_campaign \<Rightarrow> comm_campaign" where
  "campaign_progress status sentAt completedAt sent failed t r = r\<lparr>cc_Status := status, cc_SentAt := sentAt,
     cc_CompletedAt := completedAt, cc_SentCount := sent, cc_FailedCount := failed, UpdatedAt := t\<rparr>"

definition CommunicationRepository_UpdateCampaignStatus ::
  "uuid \<Rightarrow> uuid \<Rightarrow> string \<Rightarrow> time option \<Rightarrow> time option \<Rightarrow> int \<Rightarrow> int \<Rightarrow> unit app" where
  "CommunicationRepository_UpdateCampaignStatus t i status sentAt completedAt sent failed = go_bind now (\<lambda>tm.
     exec_rows ErrCampaignNotFound (\<lambda>srv d.
       let f = campaign_progress status sentAt completedAt sent failed tm in
       if list_ex (\<lambda>r. campaign_key t i r \<and> \<not> campaign_ok (f r)) (communication_campaigns d) then None
       else Some (sql_update communication_campaigns put_communication_campaigns (campaign_key t i) f d)))"

record campaign_list_params =
  clp_TenantID :: uuid
  clp_EventID :: uuid
  clp_Status :: string
  clp_Page :: int
  clp_PerPage :: int

definition campaign_matches :: "campaign_list_params \<Rightarrow> comm_campaign \<Rightarrow> bool" where
  "campaign_matches p r \<longleftrightarrow> TenantID r = clp_TenantID p \<and> EventID r = clp_EventID p \<and> live r
     \<and> (clp_Status p = [] \<or> cc_Status r = clp_Status p)"

definition CommunicationRepository_ListCampaignsByEvent :: "campaign_list_params \<Rightarrow> comm_campaign list app" where
  "CommunicationRepository_ListCampaignsByEvent p =
     page_of (clp_Page p) (clp_PerPage p) (campaign_matches p) communication_campaigns"

definition CommunicationRepository_CountCampaignsByEvent :: "campaign_list_params \<Rightarrow> int app" where
  "CommunicationRepository_CountCampaignsByEvent p =
     query (\<lambda>d. int (count_where (campaign_matches p) (communication_campaigns d)))"

definition CommunicationRepository_GetActiveCampaignsCount :: "uuid \<Rightarrow> uuid \<Rightarrow> int app" where
  "CommunicationRepository_GetActiveCampaignsCount t e = query (\<lambda>d. int (count_where (\<lambda>r.
     TenantID r = t \<and> EventID r = e \<and> List.member [''sending'', ''scheduled''] (cc_Status r) \<and> live r)
     (communication_campaigns d)))"

record campaign_create_request =
  ccr_Name :: string
  ccr_TemplateID :: uuid
  ccr_Channel :: string
  ccr_Type :: string
  ccr_RecipientFilter :: "jsonmap option"
  ccr_ScheduledAt :: "time option"

definition CommunicationService_CreateCampaign ::
  "uuid \<Rightarrow> uuid \<Rightarrow> uuid \<Rightarrow> campaign_create_request \<Rightarrow> comm_campaign app" where
  "CommunicationService_CreateCampaign tenantID eventID userID req =
     go_bind (CommunicationRepository_GetTemplate tenantID (ccr_TemplateID req)) (\<lambda>template.
     go_guard (\<not> ct_IsActive template) ErrTemplateInactive (
     go_guard (\<not> channel_ok (ccr_Channel req)) ErrInvalidChannel (
     go_bind now (\<lambda>t. go_bind uuid_New (\<lambda>i.
     let campaign = \<lparr>ID = i, CreatedAt = t, UpdatedAt = t, DeletedAt = None, TenantID = tenantID, EventID = eventID,
       cc_Name = ccr_Name req, cc_TemplateID = ccr_TemplateID req, cc_Channel = ccr_Channel req, cc_Type = ccr_Type req,
       cc_Status = (case ccr_ScheduledAt req of None \<Rightarrow> CampaignStatusDraft
         | Some x \<Rightarrow> if t < x then CampaignStatusScheduled else CampaignStatusDraft),
       cc_RecipientFilter = ccr_RecipientFilter req, cc_ScheduledAt = ccr_ScheduledAt req, cc_SentAt = None,
       cc_CompletedAt = None, cc_TotalRecipients = 0, cc_SentCount = 0, cc_FailedCount = 0, cc_CreatedBy = userID\<rparr> in
     go_bind (CommunicationRepository_CreateCampaign campaign) (\<lambda>_. go_ret campaign))))))"

definition CommunicationService_GetCampaign :: "uuid \<Rightarrow> uuid \<Rightarrow> comm_campaign app" where
  "CommunicationService_GetCampaign tenantID campaignID = CommunicationRepository_GetCampaign tenantID campaignID"

definition CommunicationService_ListCampaigns ::
  "uuid \<Rightarrow> uuid \<Rightarrow> string \<Rightarrow> int \<Rightarrow> int \<Rightarrow> (comm_campaign list \<times> int) app" where
  "CommunicationService_ListCampaigns tenantID eventID status page perPage =
     (let p = \<lparr>clp_TenantID = tenantID, clp_EventID = eventID, clp_Status = status,
        clp_Page = fst (page_bounds page perPage), clp_PerPage = snd (page_bounds page perPage)\<rparr> in
      go_bind (CommunicationRepository_ListCampaignsByEvent p) (\<lambda>cs.
      go_bind (CommunicationRepository_CountCampaignsByEvent p) (\<lambda>n. go_ret (cs, n))))"

definition campaign_started :: "comm_campaign \<Rightarrow> bool" where
  "campaign_started c \<longleftrightarrow> cc_Status c = CampaignStatusSending \<or> cc_Status c = CampaignStatusCompleted"

text \<open>The recipients: the active entries on the first page of the roster that the filter lets through.\<close>

definition filter_passes :: "jsonmap \<Rightarrow> guest \<Rightarrow> bool" where
  "filter_passes f g \<longleftrightarrow>
     (case json_string f ''guest_type'' of None \<Rightarrow> True | Some x \<Rightarrow> x = [] \<or> g_GuestType g = x)
     \<and> (case json_string f ''segment'' of None \<Rightarrow> True | Some x \<Rightarrow> x = [] \<or> g_Segment g = Some x)"

definition campaign_recipients :: "uuid \<Rightarrow> uuid \<Rightarrow> jsonmap option \<Rightarrow> uuid list app" where
  "campaign_recipients tenantID eventID recipientFilter = (case recipientFilter of None \<Rightarrow> go_ret []
     | Some f \<Rightarrow> go_bind (EventGuestRepository_List (\<lambda>_ _. False) \<lparr>egl_TenantID = tenantID, egl_EventID = eventID,
         egl_Search = [], egl_Status = EventGuestStatusActive, egl_Page = 1, egl_PerPage = 100\<rparr>) (\<lambda>roster.
       go_ret (map GuestID (filter (\<lambda>eg. case eg_Guest eg of None \<Rightarrow> False | Some g \<Rightarrow> filter_passes f g) roster))))"

text \<open>The message of one recipient and its delivery, where the channel is WhatsApp.\<close>

definition campaign_send ::
  "comm_env \<Rightarrow> whatsapp_client \<Rightarrow> uuid \<Rightarrow> string \<Rightarrow> string \<Rightarrow> string \<Rightarrow> comm_message \<Rightarrow> bool app" where
  "campaign_send s c t channel phone body m = go_try (CommunicationRepository_CreateMessage m) (\<lambda>r. case r of
     Inl _ \<Rightarrow> go_ret False
   | Inr _ \<Rightarrow> if channel = ChannelWhatsApp then
       go_bind (whatsapp_delivery s c t phone body) (\<lambda>dl.
       go_try (CommunicationRepository_UpdateMessageStatus t (ID m) dl) (\<lambda>r.
       go_ret (dl_Status dl = MessageStatusSent \<and> \<not> isl r)))
     else go_ret True)"

text \<open>The turn of one recipient: whether it counts as sent. What fails here fails for this recipient alone.\<close>

definition campaign_one ::
  "comm_env \<Rightarrow> whatsapp_client \<Rightarrow> uuid \<Rightarrow> event \<Rightarrow> comm_campaign \<Rightarrow> comm_template \<Rightarrow> time \<Rightarrow> uuid \<Rightarrow> bool app" where
  "campaign_one s c tenantID event campaign template t guestID =
     go_try (EventGuestRepository_GetByEventAndGuest tenantID (ID event) guestID) (\<lambda>r. case r of
       Inl _ \<Rightarrow> go_ret False
     | Inr eg \<Rightarrow> go_try (GuestRepository_GetByIDForTenant tenantID guestID) (\<lambda>r. case r of
       Inl _ \<Rightarrow> go_ret False
     | Inr guest \<Rightarrow> go_bind (latest_invitation (ID event) guestID) (\<lambda>invitation.
       if cc_Channel campaign = ChannelWhatsApp \<and> isl (NormalizePhone (or_empty (g_Phone guest))) then go_ret False
       else let vars = BuildRenderVariables s guest event invitation; body = RenderTemplate (ct_Body template) vars in
       go_bind uuid_New (\<lambda>i.
       let msg = queued_message i t tenantID (ID event) guestID (Some (ID eg)) (map_option ID invitation)
         (Some (ID campaign)) (cc_Channel campaign) (cc_Type campaign)
         (map_option (\<lambda>x. RenderTemplate x vars) (ct_Subject template)) body in
       campaign_send s c tenantID (cc_Channel campaign) (or_empty (g_Phone guest)) body msg))))"

fun campaign_loop ::
  "comm_env \<Rightarrow> whatsapp_client \<Rightarrow> uuid \<Rightarrow> event \<Rightarrow> comm_campaign \<Rightarrow> comm_template \<Rightarrow> time \<Rightarrow> uuid list \<Rightarrow> int \<Rightarrow> int
     \<Rightarrow> (int \<times> int) app" where
  "campaign_loop s c tenantID event campaign template t [] sent failed = go_ret (sent, failed)"
| "campaign_loop s c tenantID event campaign template t (g # gs) sent failed =
     go_bind (campaign_one s c tenantID event campaign template t g) (\<lambda>ok.
     if ok then campaign_loop s c tenantID event campaign template t gs (sent + 1) failed
     else campaign_loop s c tenantID event campaign template t gs sent (failed + 1))"

definition CommunicationService_SendCampaign :: "comm_env \<Rightarrow> uuid \<Rightarrow> uuid \<Rightarrow> uuid \<Rightarrow> unit app" where
  "CommunicationService_SendCampaign s tenantID eventID campaignID =
     go_bind (CommunicationRepository_GetCampaign tenantID campaignID) (\<lambda>campaign.
     go_guard (campaign_started campaign) ErrCampaignStarted (
     go_bind (CommunicationRepository_GetTemplate tenantID (cc_TemplateID campaign)) (\<lambda>template.
     go_guard (\<not> ct_IsActive template) ErrTemplateInactive (
     go_bind (if cc_Channel campaign = ChannelWhatsApp then CommunicationService_prepareWhatsApp s tenantID
              else go_ret no_client) (\<lambda>c.
     go_guard (EventID campaign \<noteq> eventID) ErrInvalidInput (
     go_bind (EventRepository_GetByIDForTenant eventID tenantID) (\<lambda>event.
     go_bind (campaign_recipients tenantID eventID (cc_RecipientFilter campaign)) (\<lambda>guestIDs.
     go_guard (guestIDs = []) ErrEmptyRecipientList (
     go_bind now (\<lambda>t.
     go_bind (CommunicationRepository_UpdateCampaignStatus tenantID campaignID CampaignStatusSending (Some t) None 0 0) (\<lambda>_.
     go_bind (campaign_loop s c tenantID event campaign template t guestIDs 0 0) (\<lambda>(sent, failed).
     go_bind now (\<lambda>u.
     CommunicationRepository_UpdateCampaignStatus tenantID campaignID CampaignStatusCompleted (Some t) (Some u)
       sent failed)))))))))))))"

definition CommunicationService_CancelCampaign :: "uuid \<Rightarrow> uuid \<Rightarrow> unit app" where
  "CommunicationService_CancelCampaign tenantID campaignID =
     go_bind (CommunicationRepository_GetCampaign tenantID campaignID) (\<lambda>campaign.
     go_guard (campaign_started campaign) ErrCampaignStarted (
     go_bind now (\<lambda>t. CommunicationRepository_UpdateCampaignStatus tenantID campaignID CampaignStatusCancelled
       None (Some t) 0 0)))"

section \<open>Messages in reminders and campaigns\<close>

lemma CreateRSVPReminderMessage_delivers:
  "fresh_message m \<Longrightarrow> stays delivers (CommunicationRepository_CreateRSVPReminderMessage m force)"
  unfolding CommunicationRepository_CreateRSVPReminderMessage_def
  by (auto intro!: deliveries.transaction_stays deliveries.bind_stays deliveries.guard_stays deliveries.exec_stays
      deliveries.ret_stays deliveries.query_stays deliveries.R_refl intro: insert_delivers)

lemma CreateRSVPReminderMessage_run:
  assumes "CommunicationRepository_CreateRSVPReminderMessage m force w = (Inr u, w')"
  obtains k n where "pos w \<le> k" "insert_message m n (store w) = Some (1, store w')"
    "force \<or> \<not> list_ex (\<lambda>r. reminder_counts (TenantID m) (EventID m) (GuestID m) r \<and> clock w k - hours24 \<le> CreatedAt r)
       (communication_messages (store w))"
proof -
  from assms show thesis
    by (auto simp: CommunicationRepository_CreateRSVPReminderMessage_def go_run insert_message_def tick_def split: if_splits
        intro!: that [of "Suc (pos w)"])
qed

lemma reminder_queues:
  assumes "CommunicationRepository_CreateRSVPReminderMessage m force w = (Inr u, w')" and "fresh_message m"
  shows "queued_in (ID m) (store w')"
  using assms(1) by (rule CreateRSVPReminderMessage_run) (rule insert_delivers(2) [OF _ assms(2)])

lemma GetInvitation_pure: "stays (=) (InvitationRepository_GetByIDForTenant i t)"
  unfolding InvitationRepository_GetByIDForTenant_def by (rule unchanged.get_one_stays)

lemma remind_one_delivers: "stays delivers (remind_one s c t e template force tm cand)"
proof -
  have create: "stays delivers (go_try (CommunicationRepository_CreateRSVPReminderMessage m force) (\<lambda>r. case r of
      Inl x \<Rightarrow> if x = ErrRSVPReminderThrottled then go_ret (Inl k) else go_fail x
    | Inr _ \<Rightarrow> go_bind (dispatch s c t g m) (\<lambda>m. go_ret (Inr m))))" if m: "fresh_message m" for m g and k :: reminder_skip
  proof (rule staysI)
    fix w r w'
    assume run: "go_try (CommunicationRepository_CreateRSVPReminderMessage m force) (\<lambda>r. case r of
      Inl x \<Rightarrow> if x = ErrRSVPReminderThrottled then go_ret (Inl k) else go_fail x
    | Inr _ \<Rightarrow> go_bind (dispatch s c t g m) (\<lambda>m. go_ret (Inr m))) w = (r, w')"
    obtain q v where create: "CommunicationRepository_CreateRSVPReminderMessage m force w = (q, v)" by fastforce
    have first: "delivers (store w) (store v)" using staysD [OF CreateRSVPReminderMessage_delivers [OF m] create] .
    show "delivers (store w) (store w')"
    proof (cases q)
      case (Inl x)
      with run create first show ?thesis by (auto simp: go_try_def go_ret_def go_fail_def split: if_splits)
    next
      case (Inr u)
      with create m have "queued_in (ID m) (store v)" by (auto intro: reminder_queues)
      from dispatch_delivers [OF this, of s c t g] run create Inr have "delivers (store v) (store w')"
        by (auto simp: go_try_def go_bind_run go_ret_def split: prod.splits sum.splits)
      with first show ?thesis by (rule deliveries.R_trans)
    qed
  qed
  show ?thesis
    unfolding remind_one_def Let_def
    by (auto intro!: deliveries.try_stays [OF reads_deliver [OF roster_reads(2)]] deliveries.try_stays [OF reads_deliver [OF GetInvitation_pure]]
        deliveries.bind_stays [OF deliveries.uuid_stays] deliveries.ret_stays create split: sum.split)
qed

lemma remind_all_delivers: "stays delivers (remind_all s c t e template force tm cands)"
proof (induction cands)
  case Nil
  show ?case unfolding remind_all.simps by (rule deliveries.ret_stays)
next
  case (Cons x xs)
  then show ?case unfolding remind_all.simps by (intro deliveries.bind_stays remind_one_delivers deliveries.ret_stays)
qed

text \<open>Templates are another table.\<close>

lemma CreateTemplate_same: "stays (\<lambda>d d'. communication_messages d' = communication_messages d) (CommunicationService_CreateTemplate t req)"
  and MarkTemplateSystem_same: "stays (\<lambda>d d'. communication_messages d' = communication_messages d) (CommunicationRepository_MarkTemplateSystem t i)"
  unfolding CommunicationService_CreateTemplate_def CommunicationRepository_CreateTemplate_def
    CommunicationRepository_MarkTemplateSystem_def Let_def
  by (auto intro!: same.all_stays simp: insert_template_def sql_update_def split: if_splits)

lemma generate_templates_same:
  "stays (\<lambda>d d'. communication_messages d' = communication_messages d) (generate_templates t tds)"
proof (induction tds)
  case Nil
  show ?case unfolding generate_templates.simps by (rule same.ret_stays)
next
  case (Cons x xs)
  then show ?case
    unfolding generate_templates.simps
    by (intro same.try_stays stays_mono [OF roster_reads(8)])
      (auto intro!: same.bind_stays same.guard_stays same.ret_stays CreateTemplate_same MarkTemplateSystem_same split: sum.split)
qed

lemma reminder_template_delivers: "stays delivers (reminder_template t i)"
  unfolding reminder_template_def CommunicationService_GenerateDefaultInvitationTemplates_def Let_def
  by (auto intro!: deliveries.all_stays reads_deliver [OF roster_reads(5)] reads_deliver [OF roster_reads(8)]
      other_tables_deliver [OF generate_templates_same] split: option.split sum.split)

lemma case_stays:
  "stays R g \<Longrightarrow> (\<And>x. stays R (f x)) \<Longrightarrow> stays R (case v of None \<Rightarrow> g | Some x \<Rightarrow> f x)"
  "(\<And>a b. stays R (h a b)) \<Longrightarrow> stays R (case p of (a, b) \<Rightarrow> h a b)"
  "(b \<Longrightarrow> stays R g) \<Longrightarrow> (\<not> b \<Longrightarrow> stays R g') \<Longrightarrow> stays R (if b then g else g')"
  by (auto split: option.split prod.split)

lemma SendRSVPReminders_delivers: "stays delivers (CommunicationService_SendRSVPReminders s coll t e req)"
  unfolding CommunicationService_SendRSVPReminders_def CommunicationRepository_ListRSVPReminderCandidates_def Let_def
  by (intro deliveries.bind_stays deliveries.guard_stays deliveries.now_stays deliveries.ret_stays deliveries.fail_stays
      deliveries.query_stays reminder_template_delivers remind_all_delivers reads_deliver [OF prepareWhatsApp_pure]
      reads_deliver [OF roster_reads(4)] case_stays)

text \<open>
  A message of a campaign, and the ones that count as sent: the gateway has taken a WhatsApp message,
  while a message of another channel only waits in the table.
\<close>

definition campaign_message :: "uuid \<Rightarrow> uuid \<Rightarrow> comm_campaign \<Rightarrow> comm_message \<Rightarrow> bool" where
  "campaign_message t e c m \<longleftrightarrow> TenantID m = t \<and> EventID m = e \<and> cm_CampaignID m = Some (ID c)
     \<and> cm_Channel m = cc_Channel c \<and> cm_Type m = cc_Type c"

definition counts_as_sent :: "string \<Rightarrow> comm_message \<Rightarrow> bool" where
  "counts_as_sent channel m \<longleftrightarrow>
     cm_Status m = (if channel = ChannelWhatsApp then MessageStatusSent else MessageStatusQueued)"

lemma CreateMessage_run:
  assumes "CommunicationRepository_CreateMessage m w = (r, w')"
  shows "communication_campaigns (store w') = communication_campaigns (store w)"
    "isl r \<Longrightarrow> store w' = store w"
    "\<not> isl r \<Longrightarrow> communication_messages (store w') = communication_messages (store w) @ [m]
       \<and> \<not> has_id (ID m) (communication_messages (store w))"
  using assms by (cases r; auto simp: CommunicationRepository_CreateMessage_def go_run dest: insert_messageD)+

lemma UpdateMessageStatus_result:
  assumes "CommunicationRepository_UpdateMessageStatus t i dl w = (r, w')"
  shows "isl r \<Longrightarrow> store w' = store w"
    and "\<not> isl r \<Longrightarrow> \<exists>tm. store w' = put_communication_messages
      (update_where (message_key t i) (deliver dl tm) (communication_messages (store w))) (store w)"
proof -
  show "store w' = store w" if "isl r"
    using assms that by (cases r) (auto simp: CommunicationRepository_UpdateMessageStatus_def go_run)
  show "\<exists>tm. store w' = put_communication_messages
      (update_where (message_key t i) (deliver dl tm) (communication_messages (store w))) (store w)" if "\<not> isl r"
    using assms that
    by (cases r) (auto simp: CommunicationRepository_UpdateMessageStatus_def go_run sql_update_def split: if_splits)
qed

text \<open>One recipient: at most one message, which is the recipient's, and one that counts if the recipient does.\<close>

definition recipient_done :: "uuid \<Rightarrow> uuid \<Rightarrow> comm_campaign \<Rightarrow> uuid \<Rightarrow> db \<Rightarrow> bool \<Rightarrow> db \<Rightarrow> bool" where
  "recipient_done t e c g d ok d' \<longleftrightarrow> communication_campaigns d' = communication_campaigns d
     \<and> (\<exists>ms. communication_messages d' = communication_messages d @ ms \<and> length ms \<le> 1
        \<and> (\<forall>m \<in> set ms. campaign_message t e c m \<and> GuestID m = g)
        \<and> count_where (counts_as_sent (cc_Channel c)) ms = (if ok then 1 else 0))"

lemma recipient_doneI:
  assumes "communication_campaigns d' = communication_campaigns d" and "communication_messages d' = communication_messages d @ [m]"
    and "campaign_message t e c m" and "GuestID m = g" and "counts_as_sent (cc_Channel c) m \<longleftrightarrow> ok"
  shows "recipient_done t e c g d ok d'"
  unfolding recipient_done_def by (intro conjI exI [of _ "[m]"]) (use assms in \<open>auto simp: count_where_def\<close>)

lemma recipient_unchanged:
  "communication_campaigns d' = communication_campaigns d \<Longrightarrow> communication_messages d' = communication_messages d \<Longrightarrow>
    recipient_done t e c g d False d'"
  unfolding recipient_done_def by (intro conjI exI [of _ "[]"]) (auto simp: count_where_def)

lemma campaign_send_done:
  assumes run: "campaign_send s cl t (cc_Channel c) phone body m w = (Inr ok, w')"
    and m: "fresh_message m" "campaign_message t e c m" "GuestID m = g"
  shows "recipient_done t e c g (store w) ok (store w')"
proof -
  obtain q v where create: "CommunicationRepository_CreateMessage m w = (q, v)" by fastforce
  note created = CreateMessage_run [OF create]
  show ?thesis
  proof (cases q)
    case (Inl x)
    with run create created(2) show ?thesis
      by (auto simp: campaign_send_def go_try_def go_ret_def intro: recipient_unchanged)
  next
    case (Inr u)
    then have v: "communication_messages (store v) = communication_messages (store w) @ [m]"
      "\<not> has_id (ID m) (communication_messages (store w))" using created(3) by auto
    show ?thesis
    proof (cases "cc_Channel c = ChannelWhatsApp")
      case False
      with run create Inr have "ok" "w' = v" by (auto simp: campaign_send_def go_try_def go_ret_def)
      with False m v created(1) show ?thesis
        by (intro recipient_doneI [of _ _ m]) (auto simp: counts_as_sent_def fresh_message_def)
    next
      case True
      with run create Inr obtain dl v1 r where dl: "whatsapp_delivery s cl t phone body v = (Inr dl, v1)"
          "CommunicationRepository_UpdateMessageStatus t (ID m) dl v1 = (r, w')"
        and ok: "ok \<longleftrightarrow> dl_Status dl = MessageStatusSent \<and> \<not> isl r"
        by (auto simp: campaign_send_def go_try_eq go_bind_Inr go_ret_def)
      have v1: "store v1 = store v" using staysD [OF delivery_attempts_pure(1) dl(1)] by simp
      show ?thesis
      proof (cases "isl r")
        case True
        with UpdateMessageStatus_result(1) [OF dl(2)] v1 ok v created(1) m show ?thesis
          by (intro recipient_doneI [of _ _ m]) (auto simp: counts_as_sent_def fresh_message_def \<open>cc_Channel c = ChannelWhatsApp\<close>)
      next
        case False
        with UpdateMessageStatus_result(2) [OF dl(2)] v1 obtain tm where w': "store w' = put_communication_messages
            (update_where (message_key t (ID m)) (deliver dl tm) (communication_messages (store w) @ [m])) (store v)"
          using v(1) by auto
        have "update_where (message_key t (ID m)) (deliver dl tm) (communication_messages (store w)) = communication_messages (store w)"
          by (rule update_where_none) (use v(2) in \<open>auto simp: message_key_def has_id_iff\<close>)
        with w' m(2) have "communication_messages (store w') = communication_messages (store w) @ [deliver dl tm m]"
          by (simp add: message_key_def campaign_message_def)
        then show ?thesis
          using m ok False created(1) w' \<open>cc_Channel c = ChannelWhatsApp\<close>
          by (intro recipient_doneI [of _ _ "deliver dl tm m"])
            (auto simp: counts_as_sent_def deliver_def campaign_message_def)
      qed
    qed
  qed
qed

lemma campaign_send_delivers:
  assumes "fresh_message m"
  shows "stays delivers (campaign_send s c t channel phone body m)"
proof (rule staysI)
  fix w r w'
  assume run: "campaign_send s c t channel phone body m w = (r, w')"
  obtain q v where create: "CommunicationRepository_CreateMessage m w = (q, v)" by fastforce
  have first: "delivers (store w) (store v)" using staysD [OF CreateMessage_delivers [OF assms] create] .
  show "delivers (store w) (store w')"
  proof (cases q)
    case (Inl e)
    with run create first show ?thesis by (auto simp: campaign_send_def go_try_def go_ret_def)
  next
    case (Inr u)
    with create assms have queued: "queued_in (ID m) (store v)" by (auto intro: CreateMessage_queues)
    have "delivers (store v) (store w')"
    proof (cases "channel = ChannelWhatsApp")
      case True
      have "delivers (store v) (store (snd (go_bind (whatsapp_delivery s c t phone body) (\<lambda>dl.
          go_try (CommunicationRepository_UpdateMessageStatus t (ID m) dl) (\<lambda>r.
          go_ret (dl_Status dl = MessageStatusSent \<and> \<not> isl r))) v)))"
        by (rule first_dispatch [OF queued delivery_attempts_pure(1)]) (auto intro: whatsapp_delivery_good unchanged.ret_stays)
      then show ?thesis using run create Inr True by (simp add: campaign_send_def go_try_def)
    next
      case False
      then show ?thesis using run create Inr by (simp add: campaign_send_def go_try_def go_ret_def deliveries.R_refl)
    qed
    with first show ?thesis by (rule deliveries.R_trans)
  qed
qed

lemma campaign_one_run:
  assumes run: "campaign_one s c t e campaign template tm g w = (r, w')"
  obtains (failed) "r = Inr False" "store w' = store w"
  | (tried) m v phone body where "store v = store w" "fresh_message m" "campaign_message t (ID e) campaign m" "GuestID m = g"
      "campaign_send s c t (cc_Channel campaign) phone body m v = (r, w')"
proof -
  obtain q1 v1 where eg: "EventGuestRepository_GetByEventAndGuest t (ID e) g w = (q1, v1)" by fastforce
  obtain q2 v2 where gu: "GuestRepository_GetByIDForTenant t g v1 = (q2, v2)" by fastforce
  obtain q3 v3 where iv: "latest_invitation (ID e) g v2 = (q3, v3)" by fastforce
  obtain q4 v4 where id: "uuid_New v3 = (q4, v4)" by fastforce
  have s: "store v1 = store w" "store v2 = store w" "store v3 = store w" "store v4 = store w"
    using staysD [OF roster_reads(1) eg] staysD [OF roster_reads(2) gu] staysD [OF latest_invitation_pure iv]
      staysD [OF unchanged.uuid_stays id] by simp_all
  have iv_ok: "\<exists>x. q3 = Inr x" using iv by (auto simp: latest_invitation_def go_try_eq go_ret_def)
  show thesis
  proof (cases q1)
    case (Inl x)
    with run eg s failed show thesis by (auto simp: campaign_one_def go_try_def go_ret_def)
  next
    case q1: (Inr entry)
    show thesis
    proof (cases q2)
      case (Inl x)
      with q1 run eg gu s failed show thesis by (auto simp: campaign_one_def go_try_def go_ret_def)
    next
      case q2: (Inr guest)
      from iv_ok obtain invitation where q3: "q3 = Inr invitation" by blast
      from id obtain i where q4: "q4 = Inr i" by (auto simp: uuid_New_def)
      show thesis
      proof (cases "cc_Channel campaign = ChannelWhatsApp \<and> isl (NormalizePhone (or_empty (g_Phone guest)))")
        case True
        with run eg gu iv q1 q2 q3 s failed show thesis
          by (auto simp: campaign_one_def go_try_def go_bind_run go_ret_def)
      next
        case False
        with run eg gu iv id q1 q2 q3 q4 s show thesis
          by (intro tried [of v4]) (auto simp: campaign_one_def go_try_def go_bind_run Let_def queued_message_def fresh_message_def
              campaign_message_def)
      qed
    qed
  qed
qed

lemma campaign_one_delivers: "stays delivers (campaign_one s c t e campaign template tm g)"
proof (rule staysI)
  fix w r w'
  assume "campaign_one s c t e campaign template tm g w = (r, w')"
  then show "delivers (store w) (store w')"
    by (cases rule: campaign_one_run) (auto simp: deliveries.R_refl dest: staysD [OF campaign_send_delivers])
qed

lemma campaign_one_done:
  assumes "campaign_one s c t e campaign template tm g w = (Inr ok, w')"
  shows "recipient_done t (ID e) campaign g (store w) ok (store w')"
  using assms
proof (cases rule: campaign_one_run)
  case failed
  then show ?thesis by (auto intro: recipient_unchanged)
next
  case (tried m v phone body)
  from campaign_send_done [OF tried(5,2-4)] tried(1) show ?thesis by simp
qed

lemma campaign_loop_delivers: "stays delivers (campaign_loop s c t e campaign template tm gs sent failed)"
proof (induction gs arbitrary: sent failed)
  case Nil
  show ?case unfolding campaign_loop.simps by (rule deliveries.ret_stays)
next
  case (Cons g gs)
  then show ?case unfolding campaign_loop.simps by (intro deliveries.bind_stays campaign_one_delivers case_stays)
qed

text \<open>The loop: its messages are the campaign's, in the order of the recipients, and its counts are theirs.\<close>

lemma campaign_loop_counts:
  assumes "campaign_loop s c t e campaign template tm gs sent failed w = (Inr (sent', failed'), w')"
  shows "sent' + failed' = sent + failed + int (length gs)
    \<and> communication_campaigns (store w') = communication_campaigns (store w)
    \<and> (\<exists>ms. communication_messages (store w') = communication_messages (store w) @ ms
        \<and> (\<forall>m \<in> set ms. campaign_message t (ID e) campaign m) \<and> subseq (map GuestID ms) gs
        \<and> sent' = sent + int (count_where (counts_as_sent (cc_Channel campaign)) ms))"
  using assms
proof (induction gs arbitrary: sent failed w)
  case Nil
  then show ?case by (auto simp: go_ret_def count_where_def)
next
  case (Cons g gs)
  from Cons.prems obtain ok v where one: "campaign_one s c t e campaign template tm g w = (Inr ok, v)"
    and rest: "campaign_loop s c t e campaign template tm gs (if ok then sent + 1 else sent) (if ok then failed else failed + 1) v
      = (Inr (sent', failed'), w')"
    by (auto simp: go_bind_Inr split: if_splits)
  from campaign_one_done [OF one] obtain xs where xs: "communication_messages (store v) = communication_messages (store w) @ xs"
      "length xs \<le> 1" "\<forall>m \<in> set xs. campaign_message t (ID e) campaign m \<and> GuestID m = g"
      "count_where (counts_as_sent (cc_Channel campaign)) xs = (if ok then 1 else 0)"
      "communication_campaigns (store v) = communication_campaigns (store w)"
    unfolding recipient_done_def by blast
  from Cons.IH [OF rest] obtain ys where ys: "communication_messages (store w') = communication_messages (store v) @ ys"
      "\<forall>m \<in> set ys. campaign_message t (ID e) campaign m" "subseq (map GuestID ys) gs"
      "sent' = (if ok then sent + 1 else sent) + int (count_where (counts_as_sent (cc_Channel campaign)) ys)"
      "sent' + failed' = (if ok then sent + 1 else sent) + (if ok then failed else failed + 1) + int (length gs)"
      "communication_campaigns (store w') = communication_campaigns (store v)"
    by blast
  have "xs = [] \<or> (\<exists>x. xs = [x] \<and> GuestID x = g)" using xs(2,3) by (cases xs) auto
  then have "subseq (map GuestID (xs @ ys)) (g # gs)" using ys(3) by (auto intro: list_emb_Cons)
  then show ?case
    using xs ys by (intro conjI exI [of _ "xs @ ys"]) (auto simp: count_where_def split: if_splits)
qed

text \<open>The row of the campaign through its status updates.\<close>

lemma find_progressed:
  assumes "\<And>r. p (f r) = p r"
  shows "find p (update_where p f rs) = map_option f (find p rs)"
  using assms by (induction rs) (auto simp: update_where_def)

lemma campaign_progress_key [simp]: "campaign_key t i (campaign_progress st sa ca se fa u r) = campaign_key t i r"
  by (simp add: campaign_key_def campaign_progress_def)

lemma UpdateCampaignStatus_run:
  assumes "CommunicationRepository_UpdateCampaignStatus t i status sa ca sent failed w = (Inr u, w')"
  obtains tm c where "find (campaign_key t i) (communication_campaigns (store w)) = Some c"
    "find (campaign_key t i) (communication_campaigns (store w')) = Some (campaign_progress status sa ca sent failed tm c)"
    "communication_messages (store w') = communication_messages (store w)"
proof -
  from assms obtain v tm where v: "store v = store w" and run: "exec_rows ErrCampaignNotFound (\<lambda>srv d.
      if list_ex (\<lambda>r. campaign_key t i r \<and> \<not> campaign_ok (campaign_progress status sa ca sent failed tm r)) (communication_campaigns d)
      then None
      else Some (sql_update communication_campaigns put_communication_campaigns (campaign_key t i)
        (campaign_progress status sa ca sent failed tm) d)) v = (Inr u, w')"
    unfolding CommunicationRepository_UpdateCampaignStatus_def Let_def by (elim go_bind_elim_Inr) (rule that [rotated], assumption, simp add: now_eq tick_def)
  from run have ex: "\<exists>r \<in> set (communication_campaigns (store w)). campaign_key t i r"
    and s: "store w' = put_communication_campaigns (update_where (campaign_key t i)
      (campaign_progress status sa ca sent failed tm) (communication_campaigns (store w))) (store w)"
    unfolding exec_rows_Inr sql_update_def v [symmetric] by (auto simp: count_where_pos split: if_splits)
  from ex obtain c where "find (campaign_key t i) (communication_campaigns (store w)) = Some c"
    by (cases "find (campaign_key t i) (communication_campaigns (store w))") (auto dest: find_None_D)
  with s show thesis by (intro that) (auto simp: find_progressed)
qed

lemma campaign_recipients_pure: "stays (=) (campaign_recipients t e f)"
  unfolding campaign_recipients_def EventGuestRepository_List_def Let_def
  by (intro case_stays unchanged.bind_stays unchanged.get_one_stays unchanged.ret_stays)

lemma campaign_recipients_bound: "campaign_recipients t e f w = (Inr gs, w') \<Longrightarrow> length gs \<le> 100"
  by (auto simp: campaign_recipients_def EventGuestRepository_List_def go_run clamp_params_def limit_offset_def Let_def go_ret_def
      split: option.splits if_splits) (rule order_trans [OF length_filter_le], simp)

lemma recipients_on_roster:
  assumes "campaign_recipients t e f w = (Inr gs, w')"
  shows "\<forall>g \<in> set gs. \<exists>r \<in> set (event_guests (store w)). TenantID r = t \<and> EventID r = e \<and> GuestID r = g \<and> live r
    \<and> eg_Status r = EventGuestStatusActive"
proof (cases f)
  case (Some f')
  let ?p = "\<lparr>egl_TenantID = t, egl_EventID = e, egl_Search = [], egl_Status = EventGuestStatusActive, egl_Page = 1, egl_PerPage = 100\<rparr>"
  from assms Some obtain egs v where list: "EventGuestRepository_List (\<lambda>_ _. False) ?p w = (Inr egs, v)"
    and gs: "set gs \<subseteq> GuestID ` set egs"
    by (auto simp: campaign_recipients_def go_bind_Inr go_ret_def intro!: that image_mono)
  have "\<exists>r \<in> set (event_guests (store w)). TenantID r = t \<and> EventID r = e \<and> GuestID r = GuestID eg \<and> live r
      \<and> eg_Status r = EventGuestStatusActive" if "eg \<in> set egs" for eg
  proof -
    from list that have "eg \<in> set (eventGuestSelect (eventGuestWhere (\<lambda>_ _. False) ?p) (store w))"
      by (auto simp: EventGuestRepository_List_def Let_def clamp_params_def get_one_Inr limit_offset_def
          split: if_split_asm dest!: in_set_takeD in_set_dropD)
    then obtain r g where "r \<in> set (event_guests (store w))" "eventGuestWhere (\<lambda>_ _. False) ?p r g" "eg = toDomain r g"
      unfolding in_eventGuestSelect by blast
    then show ?thesis by (intro bexI [of _ r]) (auto simp: eventGuestWhere_def toDomain_def)
  qed
  with gs show ?thesis by blast
qed (use assms in \<open>auto simp: campaign_recipients_def go_ret_def\<close>)

lemma GetCampaign_pure: "stays (=) (CommunicationRepository_GetCampaign t i)"
  unfolding CommunicationRepository_GetCampaign_def by (rule unchanged.get_one_stays)

lemma wait_or_skip_pure: "stays (=) (if b then CommunicationService_prepareWhatsApp s t else go_ret no_client)"
  by (intro case_stays prepareWhatsApp_pure unchanged.ret_stays)

text \<open>The successful runs of \<open>SendCampaign\<close>, step by step.\<close>

lemma SendCampaign_run:
  assumes "CommunicationService_SendCampaign s t e i w = (Inr u, w')"
  obtains c template cl event gs v1 v2 v3 tm tm' sent failed v0 where
    "find (campaign_key t i) (communication_campaigns (store w)) = Some c" "\<not> campaign_started c"
    "store v0 = store w" "campaign_recipients t e (cc_RecipientFilter c) v0 = (Inr gs, v1)" "gs \<noteq> []" "store v1 = store w"
    "CommunicationRepository_UpdateCampaignStatus t i CampaignStatusSending (Some tm) None 0 0 (tick v1) = (Inr (), v2)"
    "campaign_loop s cl t event c template tm gs 0 0 v2 = (Inr (sent, failed), v3)" "ID event = e"
    "CommunicationRepository_UpdateCampaignStatus t i CampaignStatusCompleted (Some tm) (Some tm') sent failed (tick v3) = (Inr u, w')"
proof -
  from assms obtain c u1 template cl event gs u2 u3 u4 v1 v2 v3 tm sent failed v4 where
    get: "CommunicationRepository_GetCampaign t i w = (Inr c, u1)" "\<not> campaign_started c" and
    steps: "CommunicationRepository_GetTemplate t (cc_TemplateID c) u1 = (Inr template, u2)"
    "(if cc_Channel c = ChannelWhatsApp then CommunicationService_prepareWhatsApp s t else go_ret no_client) u2 = (Inr cl, u3)"
    "EventRepository_GetByIDForTenant e t u3 = (Inr event, u4)"
    "campaign_recipients t e (cc_RecipientFilter c) u4 = (Inr gs, v1)" "gs \<noteq> []"
    "now v1 = (Inr tm, v4)"
    "CommunicationRepository_UpdateCampaignStatus t i CampaignStatusSending (Some tm) None 0 0 v4 = (Inr (), v2)"
    "campaign_loop s cl t event c template tm gs 0 0 v2 = (Inr (sent, failed), v3)"
    "go_bind now (\<lambda>u. CommunicationRepository_UpdateCampaignStatus t i CampaignStatusCompleted (Some tm) (Some u)
       sent failed) v3 = (Inr u, w')"
    unfolding CommunicationService_SendCampaign_def by (elim go_bind_elim_Inr go_guard_elim_Inr) (auto split: prod.splits)
  have s: "store u1 = store w" "store u2 = store u1" "store u3 = store u2" "store u4 = store u3" "store v1 = store u4"
    using staysD [OF GetCampaign_pure get(1)] staysD [OF roster_reads(5) steps(1)] staysD [OF wait_or_skip_pure steps(2)]
      staysD [OF roster_reads(4) steps(3)] staysD [OF campaign_recipients_pure steps(4)] by simp_all
  from get have "find (campaign_key t i) (communication_campaigns (store w)) = Some c"
    by (simp add: CommunicationRepository_GetCampaign_def get_one_Inr)
  moreover have "ID event = e"
    using steps(3) by (auto simp: GetByIDForTenant_Inr event_key_def with_guest_count_def dest!: find_Some_D)
  ultimately show thesis using steps s get(2)
    by (intro that [of c u4 gs v1 tm v2 cl event template sent failed v3 "clock v3 (pos v3)"]) (auto simp: go_run)
qed

section \<open>What each call does to the messages\<close>

text \<open>Sending only appends messages of the event, which wait, are sent or have failed.\<close>

definition new_message :: "uuid \<Rightarrow> uuid \<Rightarrow> comm_message \<Rightarrow> bool" where
  "new_message t e m \<longleftrightarrow> TenantID m = t \<and> EventID m = e
     \<and> cm_Status m \<in> {MessageStatusQueued, MessageStatusSent, MessageStatusFailed}"

definition appends :: "uuid \<Rightarrow> uuid \<Rightarrow> db \<Rightarrow> db \<Rightarrow> bool" where
  "appends t e d d' \<longleftrightarrow> (\<exists>ms. communication_messages d' = communication_messages d @ ms \<and> (\<forall>m \<in> set ms. new_message t e m))"

interpretation appending: store_preorder "appends t e" for t e
proof
  show "appends t e d d" for d by (auto simp: appends_def)
  show "appends t e a c" if "appends t e a b" "appends t e b c" for a b c
  proof -
    from that obtain xs ys where "communication_messages b = communication_messages a @ xs" "\<forall>m \<in> set xs. new_message t e m"
      "communication_messages c = communication_messages b @ ys" "\<forall>m \<in> set ys. new_message t e m" unfolding appends_def by blast
    then show ?thesis unfolding appends_def by (intro exI [of _ "xs @ ys"]) auto
  qed
qed

lemma appends_same: "communication_messages d' = communication_messages d \<Longrightarrow> appends t e d d'"
  by (simp add: appends_def)

lemma reads_append: "stays (=) m \<Longrightarrow> stays (appends t e) m"
  by (erule stays_mono) (simp add: appends_same)

lemma other_tables_append: "stays (\<lambda>d d'. communication_messages d' = communication_messages d) m \<Longrightarrow> stays (appends t e) m"
  by (erule stays_mono) (rule appends_same)

text \<open>A message at the end of the table, and its delivery.\<close>

definition last_message :: "comm_message \<Rightarrow> db \<Rightarrow> db \<Rightarrow> bool" where
  "last_message m d0 d \<longleftrightarrow> communication_messages d = communication_messages d0 @ [m]
     \<and> \<not> has_id (ID m) (communication_messages d0)"

lemma CreateMessage_last:
  "CommunicationRepository_CreateMessage m w = (Inr u, w') \<Longrightarrow> last_message m (store w) (store w')"
  using CreateMessage_run(3) [of m w "Inr u" w'] by (simp add: last_message_def)

lemma reminder_last:
  assumes "CommunicationRepository_CreateRSVPReminderMessage m force w = (Inr u, w')"
  shows "last_message m (store w) (store w')"
  using assms
proof (rule CreateRSVPReminderMessage_run)
  fix n assume "insert_message m n (store w) = Some (1, store w')"
  from insert_messageD(1,2) [OF this] show ?thesis by (simp add: last_message_def)
qed

lemma last_delivered:
  assumes "CommunicationRepository_UpdateMessageStatus t (ID m) dl w = (r, w')" and "last_message m d0 (store w)"
    and "new_message t e m" and "good_delivery dl"
  shows "appends t e d0 (store w')"
proof (cases "isl r")
  case True
  with UpdateMessageStatus_result(1) [OF assms(1)] assms(2,3) show ?thesis
    by (auto simp: appends_def last_message_def)
next
  case False
  with UpdateMessageStatus_result(2) [OF assms(1)] obtain tm where w': "communication_messages (store w')
      = update_where (message_key t (ID m)) (deliver dl tm) (communication_messages d0 @ [m])"
    using assms(2) by (auto simp: last_message_def)
  have "update_where (message_key t (ID m)) (deliver dl tm) (communication_messages d0) = communication_messages d0"
    by (rule update_where_none) (use assms(2) in \<open>auto simp: message_key_def has_id_iff last_message_def\<close>)
  with w' assms(3) have "communication_messages (store w') = communication_messages d0 @ [deliver dl tm m]"
    by (simp add: message_key_def new_message_def)
  with assms(3,4) show ?thesis
    unfolding appends_def by (intro exI [of _ "[deliver dl tm m]"]) (auto simp: new_message_def deliver_def good_delivery_def)
qed

lemma last_appends: "last_message m d0 d \<Longrightarrow> new_message t e m \<Longrightarrow> appends t e d0 d"
  by (auto simp: last_message_def appends_def)

lemma attempt_appends:
  assumes "go_bind attempt (\<lambda>dl. go_bind (CommunicationRepository_UpdateMessageStatus t (ID m) dl) (\<lambda>_. go_ret (x dl))) w = (r, w')"
    and "stays (=) attempt" and "\<And>w dl w'. attempt w = (Inr dl, w') \<Longrightarrow> good_delivery dl"
    and "last_message m d0 (store w)" and "new_message t e m"
  shows "appends t e d0 (store w')"
proof (cases "attempt w")
  case (Pair q v)
  then have v: "store v = store w" using staysD [OF assms(2)] by simp
  show ?thesis
  proof (cases q)
    case (Inl f)
    with assms(1,4,5) Pair v show ?thesis by (simp add: go_bind_run last_appends)
  next
    case (Inr dl)
    obtain r' u where u: "CommunicationRepository_UpdateMessageStatus t (ID m) dl v = (r', u)" by fastforce
    have "w' = u" using assms(1) Pair Inr u by (cases r') (auto simp: go_bind_run go_ret_def)
    with last_delivered [OF u _ assms(5)] assms(3,4) Pair Inr v show ?thesis by simp
  qed
qed

lemma dispatch_appends:
  assumes "dispatch s c t g m w = (r, w')" and "last_message m d0 (store w)" and "new_message t e m"
  shows "appends t e d0 (store w')"
proof -
  consider (gateway) "cm_Channel m = ChannelWhatsApp" | (mail) "cm_Channel m = ChannelEmail" "cm_Channel m \<noteq> ChannelWhatsApp"
    | (none) "cm_Channel m \<noteq> ChannelEmail" "cm_Channel m \<noteq> ChannelWhatsApp" by blast
  then show ?thesis
  proof cases
    case gateway
    with assms(1) show ?thesis
      by (auto simp: dispatch_def CommunicationService_dispatchWhatsApp_def
          intro: attempt_appends [OF _ delivery_attempts_pure(1) whatsapp_delivery_good assms(2,3)])
  next
    case mail
    with assms(1) show ?thesis
      by (auto simp: dispatch_def CommunicationService_dispatchEmail_def
          intro: attempt_appends [OF _ delivery_attempts_pure(2) email_delivery_good assms(2,3)])
  next
    case none
    with assms show ?thesis by (simp add: dispatch_def go_ret_def last_appends)
  qed
qed

lemma queued_new [simp]: "new_message t e (queued_message i tm t e g eg iv c ch ty su b)"
  by (simp add: new_message_def queued_message_def)

lemma create_appends:
  assumes "new_message t e m"
  shows "stays (appends t e) (go_bind (CommunicationRepository_CreateMessage m) (\<lambda>_. go_guard b x (dispatch s c t g m)))"
proof (rule staysI)
  fix w r w'
  assume run: "go_bind (CommunicationRepository_CreateMessage m) (\<lambda>_. go_guard b x (dispatch s c t g m)) w = (r, w')"
  obtain q v where create: "CommunicationRepository_CreateMessage m w = (q, v)" by fastforce
  show "appends t e (store w) (store w')"
  proof (cases q)
    case (Inl y)
    with run create CreateMessage_run(2) [OF create] show ?thesis by (simp add: go_bind_run appending.R_refl)
  next
    case (Inr u)
    with create have l: "last_message m (store w) (store v)" by (simp add: CreateMessage_last)
    with run create Inr assms show ?thesis
      by (auto simp: go_bind_run go_guard_def go_fail_def intro: last_appends dispatch_appends split: if_splits)
  qed
qed

lemmas create_appends' = create_appends [where b = False, unfolded go_guard_def if_False]

lemma event_bind:
  assumes "\<And>event :: event. ID event = e \<Longrightarrow> stays (appends t e) (k event)"
  shows "stays (appends t e) (go_bind (EventRepository_GetByIDForTenant e t) k)"
proof (rule staysI)
  fix w r w'
  assume run: "go_bind (EventRepository_GetByIDForTenant e t) k w = (r, w')"
  obtain q v where get: "EventRepository_GetByIDForTenant e t w = (q, v)" by fastforce
  then have v: "store v = store w" using staysD [OF roster_reads(4)] by simp
  show "appends t e (store w) (store w')"
  proof (cases q)
    case (Inl x)
    with run get v show ?thesis by (simp add: go_bind_run appends_same)
  next
    case (Inr event)
    with get have "ID event = e"
      by (auto simp: GetByIDForTenant_Inr event_key_def with_guest_count_def dest!: find_Some_D)
    from staysD [OF assms [OF this], of v r w'] run get Inr v show ?thesis by (simp add: go_bind_run)
  qed
qed

lemma send_one_appends: "ID event = e \<Longrightarrow> stays (appends t e) (send_one s c t event template vs tm g p)"
  unfolding send_one_def Let_def
  by (cases p) (auto intro!: appending.bind_stays [OF reads_append [OF latest_invitation_pure]]
      appending.bind_stays [OF appending.uuid_stays] create_appends')

lemma send_prepared_appends: "ID event = e \<Longrightarrow> stays (appends t e) (send_prepared s c t event template vs tm ps)"
proof (induction ps)
  case Nil
  show ?case unfolding send_prepared.simps by (rule appending.ret_stays)
next
  case (Cons p ps)
  then show ?case unfolding send_prepared.simps
    by (intro appending.bind_stays send_one_appends appending.ret_stays)
qed

lemma send_unprepared_appends: "ID event = e \<Longrightarrow> stays (appends t e) (send_unprepared s t event template vs tm gs)"
proof (induction gs)
  case Nil
  show ?case unfolding send_unprepared.simps by (rule appending.ret_stays)
next
  case (Cons g gs)
  then show ?case unfolding send_unprepared.simps
    by (intro appending.bind_stays send_one_appends appending.ret_stays reads_append [OF roster_and_guest_pure])
qed

lemma SendMessage_appends: "stays (appends t e) (CommunicationService_SendMessage s t e req)"
  unfolding CommunicationService_SendMessage_def
  by (intro appending.bind_stays [OF reads_append] appending.guard_stays event_bind appending.now_stays case_stays
      roster_reads prepareWhatsApp_pure check_batch_pure unchanged.now_stays send_prepared_appends send_unprepared_appends)

lemma RetryMessage_appends: "stays (appends t e) (CommunicationService_RetryMessage s t e i)"
  unfolding CommunicationService_RetryMessage_def Let_def
  by (intro appending.bind_stays [OF reads_append] roster_reads wait_or_skip_pure appending.guard_stays create_appends
      queued_new unchanged.now_stays unchanged.uuid_stays)

lemma remind_one_appends:
  assumes "ID event = e"
  shows "stays (appends t e) (remind_one s c t event template force tm cand)"
proof -
  have create: "stays (appends t e) (go_try (CommunicationRepository_CreateRSVPReminderMessage m force) (\<lambda>r. case r of
      Inl x \<Rightarrow> if x = ErrRSVPReminderThrottled then go_ret (Inl k) else go_fail x
    | Inr _ \<Rightarrow> go_bind (dispatch s c t g m) (\<lambda>m. go_ret (Inr m))))" if m: "new_message t e m" for m g and k :: reminder_skip
  proof (rule staysI)
    fix w r w'
    assume run: "go_try (CommunicationRepository_CreateRSVPReminderMessage m force) (\<lambda>r. case r of
      Inl x \<Rightarrow> if x = ErrRSVPReminderThrottled then go_ret (Inl k) else go_fail x
    | Inr _ \<Rightarrow> go_bind (dispatch s c t g m) (\<lambda>m. go_ret (Inr m))) w = (r, w')"
    obtain q v where create: "CommunicationRepository_CreateRSVPReminderMessage m force w = (q, v)" by fastforce
    show "appends t e (store w) (store w')"
    proof (cases q)
      case (Inl x)
      then have "store v = store w"
        using create by (auto simp: CommunicationRepository_CreateRSVPReminderMessage_def RunInTransaction_def tick_def split: sum.splits prod.splits if_splits)
      with run create Inl show ?thesis by (auto simp: go_try_def go_ret_def go_fail_def appends_same split: if_splits)
    next
      case (Inr u)
      with create have "last_message m (store w) (store v)" by (simp add: reminder_last)
      moreover obtain q' v' where "dispatch s c t g m v = (q', v')" by fastforce
      moreover from this run create Inr have "w' = v'"
        by (cases q') (auto simp: go_try_def go_bind_run go_ret_def)
      ultimately show ?thesis using m dispatch_appends by blast
    qed
  qed
  show ?thesis
    unfolding remind_one_def Let_def
    by (auto intro!: appending.try_stays [OF reads_append [OF roster_reads(2)]] appending.try_stays [OF reads_append [OF GetInvitation_pure]]
        appending.bind_stays [OF appending.uuid_stays] appending.ret_stays create simp: assms split: sum.split)
qed

lemma remind_all_appends: "ID event = e \<Longrightarrow> stays (appends t e) (remind_all s c t event template force tm cands)"
proof (induction cands)
  case Nil
  show ?case unfolding remind_all.simps by (rule appending.ret_stays)
next
  case (Cons x xs)
  then show ?case unfolding remind_all.simps by (intro appending.bind_stays remind_one_appends appending.ret_stays)
qed

lemma reminder_template_appends: "stays (appends t e) (reminder_template t' i)"
  unfolding reminder_template_def CommunicationService_GenerateDefaultInvitationTemplates_def Let_def
  by (auto intro!: appending.all_stays reads_append [OF roster_reads(5)] reads_append [OF roster_reads(8)]
      other_tables_append [OF generate_templates_same] split: option.split sum.split)

lemma SendRSVPReminders_appends: "stays (appends t e) (CommunicationService_SendRSVPReminders s coll t e req)"
  unfolding CommunicationService_SendRSVPReminders_def CommunicationRepository_ListRSVPReminderCandidates_def Let_def
  by (intro event_bind appending.bind_stays appending.guard_stays appending.now_stays appending.ret_stays appending.fail_stays
      appending.query_stays reminder_template_appends remind_all_appends reads_append [OF prepareWhatsApp_pure]
      case_stays)

text \<open>A campaign.\<close>

lemma UpdateCampaignStatus_same:
  "stays (\<lambda>d d'. communication_messages d' = communication_messages d) (CommunicationRepository_UpdateCampaignStatus t i st sa ca se fa)"
  unfolding CommunicationRepository_UpdateCampaignStatus_def Let_def
  by (intro same.bind_stays same.now_stays same.exec_rows_stays) (auto simp: sql_update_def split: if_splits)

lemma campaign_one_appends:
  assumes "ID event = e"
  shows "stays (appends t e) (campaign_one s c t event campaign template tm g)"
proof (rule staysI)
  fix w r w'
  assume run: "campaign_one s c t event campaign template tm g w = (r, w')"
  then show "appends t e (store w) (store w')"
  proof (cases rule: campaign_one_run)
    case failed
    then show ?thesis by (simp add: appends_same)
  next
    case (tried m v phone body)
    have m: "new_message t e m" using tried(2,3) assms by (simp add: new_message_def fresh_message_def campaign_message_def)
    obtain q u where create: "CommunicationRepository_CreateMessage m v = (q, u)" by fastforce
    show ?thesis
    proof (cases q)
      case (Inl x)
      with tried(1,5) create CreateMessage_run(2) [OF create] show ?thesis
        by (auto simp: campaign_send_def go_try_def go_ret_def appends_same)
    next
      case (Inr y)
      with create have l: "last_message m (store v) (store u)" by (simp add: CreateMessage_last)
      show ?thesis
      proof (cases "cc_Channel campaign = ChannelWhatsApp")
        case False
        with tried(1,5) create Inr l m show ?thesis
          by (auto simp: campaign_send_def go_try_def go_ret_def intro: last_appends)
      next
        case True
        obtain q1 u1 where dl: "whatsapp_delivery s c t phone body u = (q1, u1)" by fastforce
        have u1: "store u1 = store u" using staysD [OF delivery_attempts_pure(1) dl] by simp
        show ?thesis
        proof (cases q1)
          case (Inl x)
          with True tried(1,5) create Inr dl u1 l m show ?thesis
            by (auto simp: campaign_send_def go_try_def go_bind_run intro: last_appends)
        next
          case q1: (Inr d)
          obtain q2 u2 where up: "CommunicationRepository_UpdateMessageStatus t (ID m) d u1 = (q2, u2)" by fastforce
          from True tried(5) create Inr dl q1 up have "w' = u2"
            by (simp add: campaign_send_def go_try_def go_bind_run go_ret_def)
          with last_delivered [OF up _ m whatsapp_delivery_good] dl q1 u1 l tried(1) show ?thesis by simp
        qed
      qed
    qed
  qed
qed

lemma campaign_loop_appends: "ID event = e \<Longrightarrow> stays (appends t e) (campaign_loop s c t event campaign template tm gs sent failed)"
proof (induction gs arbitrary: sent failed)
  case Nil
  show ?case unfolding campaign_loop.simps by (rule appending.ret_stays)
next
  case (Cons g gs)
  then show ?case unfolding campaign_loop.simps by (intro appending.bind_stays campaign_one_appends case_stays)
qed

lemma SendCampaign_appends: "stays (appends t e) (CommunicationService_SendCampaign s t e i)"
  unfolding CommunicationService_SendCampaign_def
  by (intro event_bind appending.bind_stays appending.guard_stays appending.now_stays case_stays
      reads_append [OF GetCampaign_pure] reads_append [OF roster_reads(5)] reads_append [OF wait_or_skip_pure]
      reads_append [OF campaign_recipients_pure] other_tables_append [OF UpdateCampaignStatus_same] campaign_loop_appends)

text \<open>A receipt of the gateway moves messages that it has taken, and changes only columns of their delivery.\<close>

definition acknowledged :: "comm_message \<Rightarrow> comm_message \<Rightarrow> bool" where
  "acknowledged m m' \<longleftrightarrow> m' = m \<or> cm_ExternalID m \<noteq> None \<and> cm_ExternalID m' = cm_ExternalID m
     \<and> cm_Status m' \<in> {MessageStatusDelivered, MessageStatusRead} \<and> evolves m m'"

definition acknowledges :: "db \<Rightarrow> db \<Rightarrow> bool" where
  "acknowledges d d' \<longleftrightarrow> (messages_ok d \<longrightarrow>
     messages_ok d' \<and> list_all2 acknowledged (communication_messages d) (communication_messages d'))"

lemma acknowledged_trans:
  assumes "acknowledged a b" and "acknowledged b c"
  shows "acknowledged a c"
proof (cases "b = a \<or> c = b")
  case True
  with assms show ?thesis by auto
next
  case False
  with assms have a: "cm_ExternalID a \<noteq> None" "cm_ExternalID b = cm_ExternalID a" "evolves a b"
    and b: "cm_ExternalID c = cm_ExternalID b" "cm_Status c \<in> {MessageStatusDelivered, MessageStatusRead}" "evolves b c"
    unfolding acknowledged_def by (simp_all del: insert_iff)
  from b(1) a(2) have "cm_ExternalID c = cm_ExternalID a" by simp
  with a(1) b(2) evolves_trans [OF a(3) b(3)] show ?thesis unfolding acknowledged_def by blast
qed

interpretation receipts: store_preorder acknowledges
proof
  show "acknowledges d d" for d
    by (simp add: acknowledges_def list_all2_refl acknowledged_def)
  show "acknowledges a c" if "acknowledges a b" "acknowledges b c" for a b c
    using that list_all2_trans [of acknowledged acknowledged acknowledged] acknowledged_trans
    unfolding acknowledges_def by metis
qed

lemma reads_acknowledge: "store w' = store w \<Longrightarrow> acknowledges (store w) (store w')"
  by (simp add: receipts.R_refl)

lemma ack_acknowledges:
  assumes "CommunicationRepository_GetMessageByExternalID x w = (Inr m, v)" and "\<not> already_acked status m"
    and "status = MessageStatusDelivered \<or> status = MessageStatusRead"
    and "CommunicationRepository_UpdateMessageStatus (TenantID m) (ID m) (acked status t x m) v = (r, w')"
  shows "acknowledges (store w) (store w')"
proof (cases "messages_ok (store w)")
  case ok: True
  note m = external_message [OF assms(1)]
  let ?ms = "communication_messages (store w)"
  from ok m(1,2) have "cm_Status m \<in> {MessageStatusSent, MessageStatusDelivered, MessageStatusRead}"
    by (auto simp: messages_ok_def)
  with assms(2,3) have step: "delivery_step (cm_Status m) status"
    by (auto simp: already_acked_def intro: delivery_step.intros)
  have same: "m' = m" if "m' \<in> set ?ms" "ID m' = ID m" for m'
    using ok that m(1) by (auto simp: messages_ok_def distinct_map dest: inj_onD)
  have kept: "messages_ok (store w')"
    using ack_delivers [OF assms] ok by (simp add: delivers_def)
  from assms(4) show ?thesis
  proof (cases rule: UpdateMessageStatus_run)
    case nothing
    then show ?thesis using m(3) by (simp add: reads_acknowledge)
  next
    case (row tm)
    let ?f = "deliver (acked status t x m) tm"
    have "acknowledged m' (if message_key (TenantID m) (ID m) m' then ?f m' else m')" if "m' \<in> set ?ms" for m'
    proof (cases "message_key (TenantID m) (ID m) m'")
      case True
      then have "m' = m" using same that by (simp add: message_key_def)
      have "evolves m (?f m)"
        unfolding evolves_def using step by (intro conjI exI [of _ "acked status t x m"] exI [of _ tm])
          (auto simp: deliver_def acked_def)
      moreover have "cm_Status (?f m) = status" "cm_ExternalID (?f m) = cm_ExternalID m"
        using m(2) by (simp_all add: deliver_def acked_def)
      ultimately have "acknowledged m (?f m)" unfolding acknowledged_def using assms(3) m(2) by auto
      with True \<open>m' = m\<close> show ?thesis by simp
    qed (simp add: acknowledged_def)
    then have "list_all2 acknowledged ?ms (update_where (message_key (TenantID m) (ID m)) ?f ?ms)"
      by (simp add: update_where_def list_all2_map2 list_all2_same)
    with row m(3) kept show ?thesis by (simp add: acknowledges_def)
  qed
qed (simp add: acknowledges_def)

lemma apply_acks_acknowledges:
  assumes "status = MessageStatusDelivered \<or> status = MessageStatusRead"
  shows "stays acknowledges (apply_acks status t xs n)"
proof (induction xs arbitrary: n)
  case Nil
  show ?case unfolding apply_acks.simps by (rule receipts.ret_stays)
next
  case (Cons x xs)
  let ?get = "CommunicationRepository_GetMessageByExternalID (TrimSpace x)"
  show ?case
  proof (rule staysI)
    fix w r w'
    assume run: "apply_acks status t (x # xs) n w = (r, w')"
    obtain q v where get: "?get w = (q, v)" by fastforce
    then have v: "store v = store w" using staysD [OF roster_reads(7)] by simp
    have skip: "acknowledges (store v) (store w')" if "apply_acks status t xs n v = (r, w')"
      using staysD [OF Cons.IH that] .
    show "acknowledges (store w) (store w')"
    proof (cases q)
      case (Inl e)
      with run get v skip staysD [OF Cons.IH] show ?thesis
        by (auto simp: go_try_def go_ret_def receipts.R_refl split: if_splits)
    next
      case (Inr m)
      show ?thesis
      proof (cases "TrimSpace x = [] \<or> already_acked status m")
        case True
        with run get v Inr skip staysD [OF Cons.IH] show ?thesis by (auto simp: go_try_def split: if_splits)
      next
        case False
        obtain q' u where up: "CommunicationRepository_UpdateMessageStatus (TenantID m) (ID m) (acked status t (TrimSpace x) m) v = (q', u)"
          by fastforce
        have "acknowledges (store w) (store u)" using ack_acknowledges [OF _ _ assms up] get Inr False by simp
        moreover have "acknowledges (store u) (store w')"
          using run get Inr False up staysD [OF Cons.IH]
          by (auto simp: go_try_def go_ret_def receipts.R_refl split: sum.splits)
        ultimately show ?thesis by (rule receipts.R_trans)
      qed
    qed
  qed
qed

lemma Handle_acknowledges: "stays acknowledges (GOWAWebhookHandler_Handle s body header)"
  unfolding GOWAWebhookHandler_Handle_def Let_def
  by (auto intro!: receipts.bind_stays receipts.ret_stays receipts.now_stays apply_acks_acknowledges split: option.split)

section \<open>Calls of the communication service\<close>

datatype comm_call =
    MakeTemplate template_create_request
  | EditTemplate uuid template_update_request
  | DropTemplate uuid
  | StandardTemplates
  | SendMessages uuid send_message_request
  | RetrySend uuid uuid
  | RemindGuests uuid reminder_request
  | PlanCampaign uuid uuid campaign_create_request
  | LaunchCampaign uuid uuid
  | StopCampaign uuid
  | GatewayReceipt "string option" string

definition serve_comm :: "comm_env \<Rightarrow> webhook_env \<Rightarrow> (string \<Rightarrow> int) \<Rightarrow> uuid \<Rightarrow> comm_call \<Rightarrow> unit app" where
  "serve_comm s h coll t c = (case c of
     MakeTemplate req \<Rightarrow> discard (CommunicationService_CreateTemplate t req)
   | EditTemplate i req \<Rightarrow> discard (CommunicationService_UpdateTemplate t i req)
   | DropTemplate i \<Rightarrow> CommunicationService_DeleteTemplate t i
   | StandardTemplates \<Rightarrow> discard (CommunicationService_GenerateDefaultInvitationTemplates t)
   | SendMessages e req \<Rightarrow> discard (CommunicationService_SendMessage s t e req)
   | RetrySend e i \<Rightarrow> discard (CommunicationService_RetryMessage s t e i)
   | RemindGuests e req \<Rightarrow> discard (CommunicationService_SendRSVPReminders s coll t e req)
   | PlanCampaign e u req \<Rightarrow> discard (CommunicationService_CreateCampaign t e u req)
   | LaunchCampaign e i \<Rightarrow> CommunicationService_SendCampaign s t e i
   | StopCampaign i \<Rightarrow> CommunicationService_CancelCampaign t i
   | GatewayReceipt body header \<Rightarrow> discard (GOWAWebhookHandler_Handle h body header))"

text \<open>The event that a call sends messages of.\<close>

fun sends_for :: "comm_call \<Rightarrow> uuid option" where
  "sends_for (SendMessages e req) = Some e"
| "sends_for (RetrySend e i) = Some e"
| "sends_for (RemindGuests e req) = Some e"
| "sends_for (LaunchCampaign e i) = Some e"
| "sends_for _ = None"

text \<open>
  The abstract messages, as each call may change them: a sending call appends messages of its tenant and
  its event that wait, are sent or have failed; a signed receipt moves messages that the gateway has taken
  to delivered or read; any other call leaves the table alone.
\<close>

inductive comm_step :: "webhook_env \<Rightarrow> uuid \<Rightarrow> comm_call \<Rightarrow> comm_message list \<Rightarrow> comm_message list \<Rightarrow> bool" for h t where
  quiet: "comm_step h t c ms ms"
| sent: "sends_for c = Some e \<Longrightarrow> \<forall>m \<in> set new. new_message t e m \<Longrightarrow> comm_step h t c ms (ms @ new)"
| receipt: "we_secret h \<noteq> [] \<Longrightarrow> verifyGOWASignature (we_secret h) (take (2 * 2 ^ 20) body) header
    \<Longrightarrow> list_all2 acknowledged ms ms' \<Longrightarrow> comm_step h t (GatewayReceipt (Some body) header) ms ms'"

lemma template_calls_same:
  "stays (\<lambda>d d'. communication_messages d' = communication_messages d) (CommunicationService_UpdateTemplate t i treq)"
  "stays (\<lambda>d d'. communication_messages d' = communication_messages d) (CommunicationService_DeleteTemplate t i)"
  "stays (\<lambda>d d'. communication_messages d' = communication_messages d) (CommunicationService_CreateCampaign t e u req)"
  "stays (\<lambda>d d'. communication_messages d' = communication_messages d) (CommunicationService_CancelCampaign t i)"
  unfolding CommunicationService_UpdateTemplate_def CommunicationService_DeleteTemplate_def
    CommunicationRepository_UpdateTemplate_def CommunicationRepository_SoftDeleteTemplate_def Let_def
    CommunicationService_CreateCampaign_def CommunicationRepository_CreateCampaign_def
    CommunicationService_CancelCampaign_def
  by (auto intro!: same.all_stays stays_mono [OF roster_reads(5)] stays_mono [OF GetCampaign_pure] UpdateCampaignStatus_same
      simp: sql_update_def insert_campaign_def split: if_splits)

lemma discard_stays: "stays R m \<Longrightarrow> stays R (discard m)"
  by (rule staysI) (metis staysD discard_store snd_conv surjective_pairing)

lemma SendCampaign_delivers: "stays delivers (CommunicationService_SendCampaign s t e i)"
  unfolding CommunicationService_SendCampaign_def
  by (intro deliveries.bind_stays deliveries.guard_stays deliveries.now_stays case_stays
      reads_deliver [OF GetCampaign_pure] reads_deliver [OF roster_reads(5)] reads_deliver [OF wait_or_skip_pure]
      reads_deliver [OF roster_reads(4)] reads_deliver [OF campaign_recipients_pure]
      other_tables_deliver [OF UpdateCampaignStatus_same] campaign_loop_delivers)

lemma serve_comm_delivers: "stays delivers (serve_comm s h coll t c)"
  unfolding serve_comm_def CommunicationService_GenerateDefaultInvitationTemplates_def
  by (cases c; simp only: comm_call.case)
    (intro discard_stays SendMessage_delivers RetryMessage_delivers SendRSVPReminders_delivers Handle_delivers
      SendCampaign_delivers other_tables_deliver template_calls_same CreateTemplate_same generate_templates_same)+

lemma serve_comm_step:
  assumes "messages_ok (store w)"
  shows "comm_step h t c (communication_messages (store w)) (communication_messages (store (snd (serve_comm s h coll t c w))))"
proof -
  let ?v = "store (snd (serve_comm s h coll t c w))"
  have same: ?thesis if "stays (\<lambda>d d'. communication_messages d' = communication_messages d) (serve_comm s h coll t c)"
    using that by (simp add: stays_def comm_step.quiet)
  have sends: ?thesis if "sends_for c = Some e" "stays (appends t e) (serve_comm s h coll t c)" for e
  proof -
    have "appends t e (store w) ?v" using that(2) by (simp add: stays_def)
    then show ?thesis using that(1) by (auto simp: appends_def intro: comm_step.sent)
  qed
  show ?thesis
  proof (cases c)
    case (GatewayReceipt body header)
    show ?thesis
    proof (cases "we_secret h \<noteq> [] \<and> (\<exists>x. body = Some x \<and> verifyGOWASignature (we_secret h) (take (2 * 2 ^ 20) x) header)")
      case True
      then obtain x where x: "body = Some x" "we_secret h \<noteq> []"
        "verifyGOWASignature (we_secret h) (take (2 * 2 ^ 20) x) header" by blast
      have "acknowledges (store w) ?v"
        using discard_stays [OF Handle_acknowledges] by (simp add: GatewayReceipt serve_comm_def stays_def)
      with assms x show ?thesis unfolding GatewayReceipt by (auto simp: acknowledges_def intro: comm_step.receipt)
    next
      case False
      then have "?v = store w"
        by (auto simp: GatewayReceipt serve_comm_def discard_store GOWAWebhookHandler_Handle_def go_ret_def Let_def split: option.split)
      then show ?thesis by (simp add: comm_step.quiet)
    qed
  next
    case (SendMessages e req)
    show ?thesis by (rule sends [of e]) (simp_all add: SendMessages serve_comm_def discard_stays SendMessage_appends)
  next
    case (RetrySend e i)
    show ?thesis by (rule sends [of e]) (simp_all add: RetrySend serve_comm_def discard_stays RetryMessage_appends)
  next
    case (RemindGuests e req)
    show ?thesis by (rule sends [of e]) (simp_all add: RemindGuests serve_comm_def discard_stays SendRSVPReminders_appends)
  next
    case (LaunchCampaign e i)
    show ?thesis by (rule sends [of e]) (simp_all add: LaunchCampaign serve_comm_def SendCampaign_appends)
  qed (rule same, simp add: serve_comm_def CommunicationService_GenerateDefaultInvitationTemplates_def discard_stays
      template_calls_same CreateTemplate_same generate_templates_same)+
qed

text \<open>Through every sequence of calls, the messages that were there keep all columns but those of their delivery.\<close>

lemma messages_evolve_always:
  assumes "messages_ok (store w)"
  shows "messages_evolve (store w) (store (serve_all (map (\<lambda>(t, c). serve_comm s h coll t c) calls) w))
    \<and> messages_ok (store (serve_all (map (\<lambda>(t, c). serve_comm s h coll t c) calls) w))"
proof -
  have "delivers (store w) (store (serve_all (map (\<lambda>(t, c). serve_comm s h coll t c) calls) w))"
  proof (rule serve_all_keeps [where I = "delivers (store w)"])
    fix m and v :: "db world"
    assume "m \<in> set (map (\<lambda>(t, c). serve_comm s h coll t c) calls)" and v: "delivers (store w) (store v)"
    then have "delivers (store v) (store (snd (m v)))" using serve_comm_delivers by (auto simp: stays_def)
    with v show "delivers (store w) (store (snd (m v)))" by (rule deliveries.R_trans)
  qed (rule deliveries.R_refl)
  with assms show ?thesis by (simp add: delivers_def)
qed

section \<open>Properties of the communication service\<close>

text \<open>C33: what each call may do to the messages. A call that sends (a direct message, a retry, a reminder, a
  campaign) only appends messages of its tenant and its event, each waiting, sent or failed, and leaves
  every earlier message as it is. A receipt of the gateway has an effect only under a good signature, and
  then it adds nothing and moves only messages that the gateway has taken, along sent, delivered and read,
  with no change outside the columns of the delivery. Every other call leaves the messages alone; so
  whatever statement fails. Identifiers stay distinct, and only messages that were taken have an
  identifier of the gateway.
\<close>

theorem messages_follow_delivery:
  assumes "messages_ok (store w)"
  shows "comm_step h t c (communication_messages (store w)) (communication_messages (store (snd (serve_comm s h coll t c w))))
    \<and> messages_ok (store (snd (serve_comm s h coll t c w)))"
  using serve_comm_step [OF assms] serve_comm_delivers [of s h coll t c] assms
  by (simp add: stays_def delivers_def)

text \<open>C39: a campaign accounts for every recipient. When the launch of a campaign succeeds, the campaign was in the
  table and had not started, it has recipients, at most one hundred, each a guest with an active entry on the
  roster of the event, and its row is now completed with the two times and counts and no other change. The
  messages that were added are the campaign's, at most one for each recipient and in their order. The sent count is
  the number of those that count as sent: the gateway has taken them, or, for another channel, they wait in the
  table; and sent and failed add up to the recipients.
\<close>

theorem campaign_accounts_for_every_recipient:
  assumes "CommunicationService_SendCampaign s t e i w = (Inr (), w')"
  shows "\<exists>c gs v v' ms tm tm' u. find (campaign_key t i) (communication_campaigns (store w)) = Some c \<and> \<not> campaign_started c
    \<and> store v = store w \<and> campaign_recipients t e (cc_RecipientFilter c) v = (Inr gs, v') \<and> gs \<noteq> [] \<and> length gs \<le> 100
    \<and> (\<forall>g \<in> set gs. \<exists>r \<in> set (event_guests (store w)). TenantID r = t \<and> EventID r = e \<and> GuestID r = g \<and> live r
        \<and> eg_Status r = EventGuestStatusActive)
    \<and> communication_messages (store w') = communication_messages (store w) @ ms
    \<and> (\<forall>m \<in> set ms. campaign_message t e c m) \<and> subseq (map GuestID ms) gs
    \<and> find (campaign_key t i) (communication_campaigns (store w')) = Some (campaign_progress CampaignStatusCompleted (Some tm) (Some tm')
        (int (count_where (counts_as_sent (cc_Channel c)) ms))
        (int (length gs) - int (count_where (counts_as_sent (cc_Channel c)) ms)) u c)"
  using assms
proof (rule SendCampaign_run)
  fix c template cl event gs v1 v2 v3 tm tm' sent failed and v0 :: "db world"
  assume c: "find (campaign_key t i) (communication_campaigns (store w)) = Some c" "\<not> campaign_started c"
    and gs: "store v0 = store w" "campaign_recipients t e (cc_RecipientFilter c) v0 = (Inr gs, v1)" "gs \<noteq> []" "store v1 = store w"
    and start: "CommunicationRepository_UpdateCampaignStatus t i CampaignStatusSending (Some tm) None 0 0 (tick v1) = (Inr (), v2)"
    and loop: "campaign_loop s cl t event c template tm gs 0 0 v2 = (Inr (sent, failed), v3)" and event: "ID event = e"
    and finish: "CommunicationRepository_UpdateCampaignStatus t i CampaignStatusCompleted (Some tm) (Some tm') sent failed (tick v3) = (Inr (), w')"
  from start c(1) gs(4) obtain k1 where c2: "find (campaign_key t i) (communication_campaigns (store v2))
        = Some (campaign_progress CampaignStatusSending (Some tm) None 0 0 k1 c)"
      "communication_messages (store v2) = communication_messages (store w)"
    by (auto elim!: UpdateCampaignStatus_run)
  from campaign_loop_counts [OF loop] obtain ms where ms: "communication_messages (store v3) = communication_messages (store v2) @ ms"
      "\<forall>m \<in> set ms. campaign_message t e c m" "subseq (map GuestID ms) gs"
      "sent = int (count_where (counts_as_sent (cc_Channel c)) ms)" "sent + failed = int (length gs)"
      "communication_campaigns (store v3) = communication_campaigns (store v2)"
    unfolding event by auto
  from finish c2(1) ms(6) obtain k2 where c3: "find (campaign_key t i) (communication_campaigns (store w'))
        = Some (campaign_progress CampaignStatusCompleted (Some tm) (Some tm') sent failed k2 c)"
      "communication_messages (store w') = communication_messages (store v3)"
    by (auto elim!: UpdateCampaignStatus_run simp: campaign_progress_def)
  have "failed = int (length gs) - sent" using ms(5) by simp
  moreover have "\<forall>g \<in> set gs. \<exists>r \<in> set (event_guests (store w)). TenantID r = t \<and> EventID r = e \<and> GuestID r = g \<and> live r
        \<and> eg_Status r = EventGuestStatusActive"
    using recipients_on_roster [OF gs(2)] gs(1) by simp
  ultimately show ?thesis
    using c gs c2(2) c3 ms campaign_recipients_bound [OF gs(2)] by (metis append_assoc)
qed

definition demo_comm :: comm_env where
  "demo_comm = \<lparr>ce_gowa = demo_gowa, ce_whatsapp = None, ce_provider = None, ce_mailer = None, ce_baseURL = ''https://x'',
     ce_date = (\<lambda>t. []), ce_clock = (\<lambda>t. []), ce_lower = id\<rparr>"

definition demo_hook :: webhook_env where
  "demo_hook = \<lparr>we_secret = ''s'', we_decode = (\<lambda>b. None), we_time = (\<lambda>x. None), we_lower = id\<rparr>"

definition demo_template :: comm_template where
  "demo_template = \<lparr>ID = 60, CreatedAt = 0, UpdatedAt = 0, DeletedAt = None, TenantID = 1, ct_Name = ''T'',
     ct_Channel = ''email'', ct_Type = ''invitation'', ct_Subject = None, ct_Body = [], ct_Variables = [],
     ct_IsActive = True, ct_IsSystem = False, ct_Description = None, ct_Language = ''id''\<rparr>"

definition demo_campaign :: comm_campaign where
  "demo_campaign = \<lparr>ID = 70, CreatedAt = 0, UpdatedAt = 0, DeletedAt = None, TenantID = 1, EventID = 3, cc_Name = ''C'',
     cc_TemplateID = 60, cc_Channel = ''email'', cc_Type = ''invitation'', cc_Status = CampaignStatusDraft,
     cc_RecipientFilter = Some [], cc_ScheduledAt = None, cc_SentAt = None, cc_CompletedAt = None,
     cc_TotalRecipients = 0, cc_SentCount = 0, cc_FailedCount = 0, cc_CreatedBy = 2\<rparr>"

definition campaign_db :: db where
  "campaign_db = demo_db\<lparr>communication_templates := [demo_template], communication_campaigns := [demo_campaign]\<rparr>"

lemma demo_campaign_run:
  "fst (CommunicationService_SendCampaign demo_comm 1 3 70 (demo_world campaign_db)) = Inr ()"
  by (simp add: CommunicationService_SendCampaign_def CommunicationRepository_GetCampaign_def campaign_key_def
      campaign_started_def CommunicationRepository_GetTemplate_def template_key_def go_eval
      EventRepository_GetByIDForTenant_def event_key_def with_guest_count_def campaign_recipients_def
      EventGuestRepository_List_def clamp_params_def i64_def limit_offset_def eventGuestSelect_def List.map_filter_def
      eventGuestWhere_def TrimSpace_def toDomain_def filter_passes_def json_string_def
      CommunicationRepository_UpdateCampaignStatus_def campaign_progress_def campaign_ok_def channel_ok_def int4_def
      campaign_one_def EventGuestRepository_GetByEventAndGuest_def first_row_def GuestRepository_GetByIDForTenant_def
      guest_key_def latest_invitation_def InvitationRepository_GetByEventAndGuest_def queued_message_def campaign_send_def
      CommunicationRepository_CreateMessage_def insert_message_def has_id_def has_id_opt_def message_status_ok_def
      campaign_db_def demo_template_def demo_campaign_def demo_event_def demo_guest_def demo_event_guest_def
      demo_tenant_def demo_user_def demo_invitation_def)

theorem messages_follow_delivery_witness:
  "let v = snd (serve_comm demo_comm demo_hook (\<lambda>n. 0) 1 (LaunchCampaign 3 70) (demo_world campaign_db)) in
     comm_step demo_hook 1 (LaunchCampaign 3 70) [] (communication_messages (store v)) \<and> messages_ok (store v)"
  using messages_follow_delivery [of "demo_world campaign_db" demo_hook 1 "LaunchCampaign 3 70" demo_comm "\<lambda>n. 0"]
  by (simp add: messages_ok_def campaign_db_def Let_def)

theorem campaign_accounts_for_every_recipient_witness:
  "let w' = snd (CommunicationService_SendCampaign demo_comm 1 3 70 (demo_world campaign_db)) in
     \<exists>c ms. find (campaign_key 1 70) (communication_campaigns (store w')) = Some c \<and> communication_messages (store w') = ms
       \<and> cc_Status c = CampaignStatusCompleted \<and> cc_SentCount c = int (count_where (counts_as_sent ''email'') ms)
       \<and> 0 < cc_SentCount c + cc_FailedCount c \<and> cc_SentCount c + cc_FailedCount c \<le> 100"
proof -
  let ?m = "CommunicationService_SendCampaign demo_comm 1 3 70"
  let ?w = "demo_world campaign_db"
  have tables: "communication_messages (store ?w) = []" "find (campaign_key 1 70) (communication_campaigns (store ?w)) = Some demo_campaign"
    by (simp_all add: campaign_db_def demo_campaign_def campaign_key_def)
  have ch: "cc_Channel demo_campaign = ''email''"
    by (simp add: demo_campaign_def)
  from campaign_accounts_for_every_recipient [OF run_pair [of ?m ?w, OF demo_campaign_run]]
  obtain c ms tm tm' u and gs :: "uuid list" where found: "find (campaign_key 1 70) (communication_campaigns (store ?w)) = Some c"
    and row: "gs \<noteq> []" "length gs \<le> 100" "communication_messages (store (snd (?m ?w))) = communication_messages (store ?w) @ ms"
    "find (campaign_key 1 70) (communication_campaigns (store (snd (?m ?w)))) = Some (campaign_progress CampaignStatusCompleted (Some tm) (Some tm')
        (int (count_where (counts_as_sent (cc_Channel c)) ms)) (int (length gs) - int (count_where (counts_as_sent (cc_Channel c)) ms)) u c)"
    by (elim exE conjE) (rule that)
  from found tables(2) have c: "c = demo_campaign" by simp
  from row(1) have "0 < length gs" by simp
  with row show ?thesis unfolding Let_def c ch tables(1)
    by (intro exI conjI) (assumption, rule refl, simp_all add: campaign_progress_def)
qed

end
