(* ===== verification/Spec2Isabelle.thy ===== *)
theory Spec2Isabelle
  imports Seating Households Import Campaigns
begin

text \<open>
  GuestFlow: the model of a multi-tenant guest book for events, and what is proved of it.

  \<^bold>\<open>The program.\<close> GuestFlow is a web server in Go. A request passes the middleware of
  \<open>internal/middleware\<close>, which authenticates it and asks \<open>internal/access\<close> whether its user may
  act; a handler of \<open>internal/handler\<close> decodes it and calls one service of \<open>internal/service\<close>; the
  service decides, reads and writes through \<open>internal/repository\<close>, whose methods are SQL statements
  on one PostgreSQL database, and leaves an entry in the audit log (\<open>internal/audit\<close>). The services
  keep no state of their own: what they share is the database, and beside it one cache of
  permissions. Tenants own events and guests; a guest is put on the roster of an event, receives an
  invitation with a secret token, answers it, is checked in at the door and is seated at a table.

  \<^bold>\<open>How it is modelled.\<close> A Go method that takes a context and returns a value and an error is a
  function from its arguments to a computation on a world (theory Prelude): it returns the error or the value,
  and the world it leaves. The world holds the database and the streams of everything the program
  does not decide: which statements fail, what the clock shows, which identifiers and random bytes
  are drawn. A theorem that holds for every world holds for every schedule of failures. Every method
  is one definition with the name of the type and of the method (\<open>EventService_Publish\<close> for
  \<open>(*EventService).Publish\<close>), every struct a record whose fields keep their names behind a short
  prefix, every early return a branch. A statement of SQL is a function on the lists of rows that
  theory Store holds, with the constraints of the migrations; a transaction
  (\<open>RunInTransaction\<close>) restores the database when its body or its commit fails.

  \<^bold>\<open>The theories.\<close>
  \<^item> Prelude: errors, the world, the combinators, the preorders that bound what a program changes
    (locale \<open>store_preorder\<close>), tables as lenses (locale \<open>table_lens\<close>).
  \<^item> Domain (\<open>internal/domain\<close>): the records, the statuses, the validity predicates.
  \<^item> Crypto (\<open>internal/utils/crypto.go\<close>): bytes, hex, base64, SHA-256, the comparison in constant time.
  \<^item> Store: the database, the insertions with their constraints (\<open>migrations\<close>), the audit service.
  \<^item> Demo: the concrete database on which the witnesses run.
  \<^item> Events, Roster, Invitations, Rsvp, Checkin, Seating: the services of an event and their
    repositories. Events refines an abstract life cycle, Checkin an abstract desk; Rsvp keeps the
    capacity, Seating keeps the tables within theirs, Invitations issues and revokes credentials.
  \<^item> Roles (\<open>internal/roles\<close>), Access (\<open>internal/access\<close> and the permission cache), Accounts and
    Tenants (members, users, tenants): who may do what. The cache is shown equal to a fresh lookup.
  \<^item> Sessions (\<open>internal/auth\<close> and \<open>auth_service.go\<close>): tokens, logins, links sent by mail. Tokens
    only move towards being revoked or used; that order gives the properties of single use.
  \<^item> Guards (\<open>internal/middleware\<close> and \<open>routes.go\<close>): the chains of middleware and the table of routes.
  \<^item> Midtrans, Calendar, Billing: the payment gateway with its SHA-512 signatures, dates of the
    civil calendar, and plans, subscriptions, payments and trials. Payments follow a life cycle.
  \<^item> Guests, Csv, Import: the guest book of a tenant, the reader and writer of \<open>encoding/csv\<close> as far as
    the import uses them, and the import. Contacts stay unique in every history of calls in which no
    statement fails, if no walk-in repeats one of them; what an import stores are the rows of the file that
    pass its checks, in their order; the template that the service hands out is read back field by field.
  \<^item> Households: households and their members, and the gifts of the guests of an event.
  \<^item> Gowa (\<open>internal/whatsapp\<close>, \<open>whatsapp_integration_service.go\<close>, \<open>internal/email\<close>): phone numbers, the
    client of the WhatsApp gateway with its configuration per tenant, the settings and the pairing of a
    device, the checks and the outcome of a mail.
  \<^item> Messages, Campaigns (\<open>communication_service.go\<close>, \<open>communication_repository.go\<close>,
    \<open>gowa_webhook_handler.go\<close>): templates and their rendering, messages, retries, reminders, campaigns, and
    the signed receipts of the gateway. Calls that send only append messages of their event, receipts only
    move messages along their delivery (relation \<open>comm_step\<close>), and a campaign accounts for every recipient.

  \<^bold>\<open>Interfaces.\<close> The locales \<open>store_preorder\<close> and \<open>table_lens\<close> of the prelude are interpreted for
  every order and every table in use; \<open>middleware\<close> and \<open>middleware_chain\<close> state what a guard promises
  to the handlers behind it and are interpreted on the guards of the program. A component that
  proves a property of all its calls has a datatype of calls (\<open>event_call\<close>, \<open>checkin_call\<close>,
  \<open>billing_call\<close> and so on) and a function that serves one; the property is then stated of every sequence
  of calls, and proved from one lemma per call.

  \<^bold>\<open>Parameters.\<close> What is not code of this repository is an argument of the definitions that use it:
  the server's \<open>ILIKE\<close> and its collation, its \<open>to_char\<close> and \<open>date_trunc\<close>, the lower case of a string, the password hash and its
  comparison, the signature and the parser of JSON web tokens, the parser of identifiers, the mail
  server, the payment gateway, the HTTP exchange with the WhatsApp gateway and the decoding of its JSON,
  the decoder of a notification, the formats of dates and the rounding of floating point numbers. Theorems that rely on one of them say so in a hypothesis.

  \<^bold>\<open>Bounds.\<close> Go's \<open>int\<close> is a mathematical integer, wrapped to 64 bits (\<open>i64\<close>) where the program adds or
  multiplies values that a request chooses; integer columns accept 32 bits. Times are nanoseconds.
  All loops of the modelled code run over a list, so they are recursions over that list and need no
  fuel; the two loops that cut a string use its length as their bound.

  \<^bold>\<open>Not modelled.\<close> Concurrency of requests: a request runs to its end before the next one, so races
  between two requests (two scans of the same guest, two replies for the last place) are outside the
  theorems, while failures at every statement are inside. The texts wrapped around errors, log
  output, HTML and JSON rendering, the binding of requests and the validation by struct tags,
  connection handling, configuration and the start of processes. The SMTP dialogue. The triggers of
  migrations 1004 and 1009, which seed message templates when a tenant is inserted, and the unique index
  of migration 1016 on the messaging device in the settings of a tenant. The dashboards and the pages
  that only read and print.
\<close>

end
